(* ===== verification/Prelude.thy ===== *)
theory Prelude
  imports Complex_Main "HOL-Library.AList" "HOL-Library.List_Lexorder" "HOL-Library.Char_ord"
    "HOL-Library.Product_Lexorder" "HOL-Library.Sublist"
begin

text \<open>
  What every component shares: the collections of facts the component proofs draw on, Python's
  insertion-ordered \<open>dict\<close> as an association list, first-occurrence deduplication
  (\<open>dict.fromkeys\<close>, the \<open>seen\<close>-set loops), stable sorting by a key, the result type
  \<open>'e + 'a\<close> for code that raises, Python's \<open>round\<close> on exact rationals (the model of
  \<open>float\<close>), and clamping.
\<close>

named_theorems dict_simps \<open>lookups and key lists of insertion-ordered dictionaries\<close>
named_theorems guard_simps \<open>definitions of guards unfolded by the case analyses\<close>

section \<open>Results: code that raises\<close>

fun rbind :: "'e + 'a \<Rightarrow> ('a \<Rightarrow> 'e + 'b) \<Rightarrow> 'e + 'b" where
  "rbind (Inl e) f = Inl e"
| "rbind (Inr a) f = f a"

lemma rbind_Inr: "rbind r f = Inr b \<longleftrightarrow> (\<exists>a. r = Inr a \<and> f a = Inr b)"
  by (cases r) simp_all

lemma rbind_Inl: "rbind r f = Inl e \<longleftrightarrow> r = Inl e \<or> (\<exists>a. r = Inr a \<and> f a = Inl e)"
  by (cases r) auto

text \<open>A loop that raises at its first failing element.\<close>

fun rmap :: "('a \<Rightarrow> 'e + 'b) \<Rightarrow> 'a list \<Rightarrow> 'e + 'b list" where
  "rmap f [] = Inr []"
| "rmap f (x # xs) = rbind (f x) (\<lambda>y. rbind (rmap f xs) (\<lambda>ys. Inr (y # ys)))"

lemma rmap_Inr: "rmap f xs = Inr ys \<Longrightarrow> list_all2 (\<lambda>x y. f x = Inr y) xs ys"
  by (induction xs arbitrary: ys) (auto simp: rbind_Inr)

lemma rmap_length: "rmap f xs = Inr ys \<Longrightarrow> length ys = length xs"
  using rmap_Inr list_all2_lengthD by fastforce

section \<open>First-occurrence deduplication\<close>

fun nub_acc :: "'a list \<Rightarrow> 'a list \<Rightarrow> 'a list" where
  "nub_acc seen [] = []"
| "nub_acc seen (x # xs) =
    (if x \<in> set seen then nub_acc seen xs else x # nub_acc (x # seen) xs)"

definition nub :: "'a list \<Rightarrow> 'a list" where
  "nub xs = nub_acc [] xs"

lemma set_nub_acc: "set (nub_acc seen xs) = set xs - set seen"
  by (induction xs arbitrary: seen) auto

lemma distinct_nub_acc: "distinct (nub_acc seen xs)"
  by (induction xs arbitrary: seen) (auto simp: set_nub_acc)

lemma nub_acc_distinct: "distinct xs \<Longrightarrow> set xs \<inter> set seen = {} \<Longrightarrow> nub_acc seen xs = xs"
  by (induction xs arbitrary: seen) auto

lemma set_nub [simp]: "set (nub xs) = set xs"
  by (simp add: nub_def set_nub_acc)

lemma distinct_nub [simp]: "distinct (nub xs)"
  by (simp add: nub_def distinct_nub_acc)

lemma nub_id: "distinct xs \<Longrightarrow> nub xs = xs"
  by (simp add: nub_def nub_acc_distinct)

lemma nub_idem [simp]: "nub (nub xs) = nub xs"
  by (simp add: nub_id)

lemma nub_eq_Nil [simp]: "nub xs = [] \<longleftrightarrow> xs = []"
  by (metis set_empty set_nub)

lemma length_nub: "length (nub xs) \<le> length xs"
  by (metis card_length distinct_card distinct_nub set_nub)

text \<open>The same with a key: the \<open>seen\<close>-set loops keep the first element of each key.\<close>

fun nub_by :: "('a \<Rightarrow> 'k) \<Rightarrow> 'k list \<Rightarrow> 'a list \<Rightarrow> 'a list" where
  "nub_by f seen [] = []"
| "nub_by f seen (x # xs) =
    (if f x \<in> set seen then nub_by f seen xs else x # nub_by f (f x # seen) xs)"

lemma nub_by_keys: "map f (nub_by f seen xs) = nub_acc seen (map f xs)"
  by (induction xs arbitrary: seen) auto

lemma set_nub_by: "set (nub_by f seen xs) \<subseteq> set xs"
  by (induction xs arbitrary: seen) auto

lemma nub_by_set_keys: "f ` set (nub_by f [] xs) = f ` set xs"
proof -
  have "set (map f (nub_by f [] xs)) = set (map f xs)"
    by (simp only: nub_by_keys set_nub_acc) simp
  then show ?thesis by simp
qed

lemma distinct_nub_by: "distinct (map f (nub_by f [] xs))"
  by (simp add: nub_by_keys distinct_nub_acc)

section \<open>Insertion-ordered dictionaries\<close>

type_synonym ('k, 'v) dict = "('k \<times> 'v) list"

abbreviation dget :: "('k, 'v) dict \<Rightarrow> 'k \<Rightarrow> 'v option" where
  "dget d k \<equiv> map_of d k"

abbreviation dset :: "'k \<Rightarrow> 'v \<Rightarrow> ('k, 'v) dict \<Rightarrow> ('k, 'v) dict" where
  "dset \<equiv> AList.update"

abbreviation dkeys :: "('k, 'v) dict \<Rightarrow> 'k list" where
  "dkeys d \<equiv> map fst d"

definition dget_or :: "('k, 'v) dict \<Rightarrow> 'k \<Rightarrow> 'v \<Rightarrow> 'v" where
  "dget_or d k v = (case map_of d k of None \<Rightarrow> v | Some w \<Rightarrow> w)"

text \<open>\<open>{**a, **b}\<close>: the entries of \<open>b\<close> replace those of \<open>a\<close> or come after them.\<close>

definition dmerge :: "('k, 'v) dict \<Rightarrow> ('k, 'v) dict \<Rightarrow> ('k, 'v) dict" where
  "dmerge a b = fold (\<lambda>(k, v) d. dset k v d) b a"

lemma dget_dset [dict_simps]: "dget (dset k v d) k' = (if k' = k then Some v else dget d k')"
  by (simp add: update_conv')

lemma dkeys_dset [dict_simps]:
  "dkeys (dset k v d) = (if k \<in> set (dkeys d) then dkeys d else dkeys d @ [k])"
  by (simp add: update_keys)

lemma set_dkeys_dset [dict_simps]: "set (dkeys (dset k v d)) = insert k (set (dkeys d))"
  by (auto simp: dkeys_dset)

lemma fst_set_dset [dict_simps]: "fst ` set (dset k v d) = insert k (fst ` set d)"
  using set_dkeys_dset [of k v d] by simp

lemma snd_set_enumerate: "x \<in> set (enumerate n xs) \<Longrightarrow> snd x \<in> set xs"
  by (metis image_eqI map_snd_enumerate set_map)

lemma distinct_dkeys_dset [dict_simps]: "distinct (dkeys d) \<Longrightarrow> distinct (dkeys (dset k v d))"
  by (simp add: distinct_update)

lemma dget_dmerge:
  "dget (dmerge a b) k = (case dget (rev b) k of Some v \<Rightarrow> Some v | None \<Rightarrow> dget a k)"
  unfolding dmerge_def
proof (induction b arbitrary: a)
  case Nil
  then show ?case by simp
next
  case (Cons kv b)
  then show ?case
    by (cases kv) (auto simp: dget_dset map_add_def split: option.splits)
qed

lemma map_of_rev: "distinct (dkeys b) \<Longrightarrow> map_of (rev b) = map_of b"
  by (rule map_of_eqI) (auto simp: rev_map simp flip: rev_map)

lemma dget_dmerge_distinct:
  "distinct (dkeys b) \<Longrightarrow>
    dget (dmerge a b) k = (case dget b k of Some v \<Rightarrow> Some v | None \<Rightarrow> dget a k)"
  by (simp add: dget_dmerge map_of_rev)

lemma distinct_dmerge: "distinct (dkeys a) \<Longrightarrow> distinct (dkeys (dmerge a b))"
  unfolding dmerge_def
  by (induction b arbitrary: a) (auto simp: distinct_update)

section \<open>Sums and maxima over lists of rationals\<close>

lemma sum_list_filter_le:
  fixes f :: "'a \<Rightarrow> 'b::linordered_idom"
  assumes "\<And>x. x \<in> set xs \<Longrightarrow> 0 \<le> f x"
  shows "sum_list (map f (filter P xs)) \<le> sum_list (map f xs)"
  using assms by (induction xs) (auto intro: add_increasing)

lemma sum_list_nonneg_map:
  fixes f :: "'a \<Rightarrow> 'b::linordered_idom"
  shows "(\<And>x. x \<in> set xs \<Longrightarrow> 0 \<le> f x) \<Longrightarrow> 0 \<le> sum_list (map f xs)"
  by (induction xs) auto

definition count_if :: "('a \<Rightarrow> bool) \<Rightarrow> 'a list \<Rightarrow> nat" where
  "count_if P xs = length (filter P xs)"

lemma count_if_le: "count_if P xs \<le> length xs"
  by (simp add: count_if_def)

lemma count_if_pos: "0 < count_if P xs \<longleftrightarrow> (\<exists>x \<in> set xs. P x)"
  by (simp add: count_if_def filter_empty_conv)

section \<open>Python's \<open>round\<close>: half to even, on exact rationals\<close>

definition round_half_even :: "rat \<Rightarrow> int" where
  "round_half_even x =
    (let f = floor x; d = x - of_int f in
     if d < 1 / 2 then f else if 1 / 2 < d then f + 1 else if even f then f else f + 1)"

definition py_round :: "nat \<Rightarrow> rat \<Rightarrow> rat" where
  "py_round n x = of_int (round_half_even (x * 10 ^ n)) / 10 ^ n"

lemma round_half_even_int [simp]: "round_half_even (of_int k) = k"
  by (simp add: round_half_even_def)

lemma round_half_even_bounds:
  "of_int (round_half_even x) \<le> x + 1 / 2" "x - 1 / 2 \<le> of_int (round_half_even x)"
  by (auto simp: round_half_even_def Let_def; linarith)+

lemma round_half_even_mono: "x \<le> y \<Longrightarrow> round_half_even x \<le> round_half_even y"
proof -
  assume xy: "x \<le> y"
  have fm: "floor x \<le> floor y" using xy by (rule floor_mono)
  show ?thesis
  proof (cases "floor x = floor y")
    case True
    then show ?thesis using xy by (auto simp: round_half_even_def Let_def)
  next
    case False
    with fm have "floor x + 1 \<le> floor y" by simp
    moreover have "round_half_even x \<le> floor x + 1" by (simp add: round_half_even_def Let_def)
    moreover have "floor y \<le> round_half_even y" by (simp add: round_half_even_def Let_def)
    ultimately show ?thesis by linarith
  qed
qed

lemma py_round_mono: "x \<le> y \<Longrightarrow> py_round n x \<le> py_round n y"
  by (auto simp: py_round_def divide_le_cancel intro!: round_half_even_mono mult_right_mono)

lemma py_round_0 [simp]: "py_round n 0 = 0"
  using round_half_even_int [of 0] by (simp add: py_round_def)

lemma py_round_1 [simp]: "py_round n 1 = 1"
  using round_half_even_int [of "10 ^ n"] by (simp add: py_round_def)

lemma py_round_unit: "0 \<le> x \<Longrightarrow> x \<le> 1 \<Longrightarrow> 0 \<le> py_round n x \<and> py_round n x \<le> 1"
  using py_round_mono [of 0 x n] py_round_mono [of x 1 n] by simp

section \<open>Stable sorting by a key\<close>

text \<open>
  \<open>sorted(xs, key=f)\<close> of Python is stable, and so is \<^const>\<open>sort_key\<close>.
\<close>

lemma sort_key_mem [simp]: "x \<in> set (sort_key f xs) \<longleftrightarrow> x \<in> set xs"
  by simp

lemma sorted_sort_key_nth:
  assumes "i < j" "j < length xs"
  shows "f (sort_key f xs ! i) \<le> f (sort_key f xs ! j)"
proof -
  have "sorted (map f (sort_key f xs))" by simp
  then show ?thesis
    using assms sorted_nth_mono [of "map f (sort_key f xs)" i j] by simp
qed

section \<open>Slices\<close>

text \<open>\<open>xs[:k]\<close>: a negative bound counts from the end.\<close>

definition py_take :: "int \<Rightarrow> 'a list \<Rightarrow> 'a list" where
  "py_take k xs = (if k < 0 then take (length xs - nat (- k)) xs else take (nat k) xs)"

lemma py_take_nonneg [simp]: "0 \<le> k \<Longrightarrow> py_take k xs = take (nat k) xs"
  by (simp add: py_take_def)

lemma py_take_take: "\<exists>n. py_take k xs = take n xs"
  unfolding py_take_def by metis

lemma set_py_take: "set (py_take k xs) \<subseteq> set xs"
  by (auto simp: py_take_def dest: in_set_takeD)

lemma sorted_map_take: "sorted (map f xs) \<Longrightarrow> sorted (map f (take n xs))"
  by (metis sorted_wrt_take take_map)

section \<open>Enumeration with a start index\<close>

abbreviation enum_from :: "nat \<Rightarrow> 'a list \<Rightarrow> (nat \<times> 'a) list" where
  "enum_from \<equiv> enumerate"

end
