(* ===== verification/PyText.thy ===== *)
theory PyText
  imports PyUnicode
begin

text \<open>
  The \<open>str\<close> methods the program uses, on lists of code points: \<open>strip\<close> and its variants,
  \<open>startswith\<close>, \<open>endswith\<close>, \<open>in\<close>, \<open>find\<close>, \<open>rfind\<close>, \<open>replace\<close>, \<open>split\<close>, \<open>join\<close> and
  \<open>splitlines\<close>, with the facts about positions and lengths that the components use.
\<close>

section \<open>ASCII literals\<close>

definition asc :: "string \<Rightarrow> ustr" where
  "asc s = map of_char s"

lemma asc_Nil [simp]: "asc [] = []"
  by (simp add: asc_def)

lemma length_asc [simp]: "length (asc s) = length s"
  by (simp add: asc_def)

lemma asc_append: "asc (s @ t) = asc s @ asc t"
  by (simp add: asc_def)

section \<open>Stripping\<close>

definition lstrip_if :: "(int \<Rightarrow> bool) \<Rightarrow> ustr \<Rightarrow> ustr" where
  "lstrip_if p s = dropWhile p s"

definition rstrip_if :: "(int \<Rightarrow> bool) \<Rightarrow> ustr \<Rightarrow> ustr" where
  "rstrip_if p s = rev (dropWhile p (rev s))"

definition strip_if :: "(int \<Rightarrow> bool) \<Rightarrow> ustr \<Rightarrow> ustr" where
  "strip_if p s = rstrip_if p (lstrip_if p s)"

definition strip :: "ustr \<Rightarrow> ustr" where
  "strip s = strip_if is_space s"

definition lstrip :: "ustr \<Rightarrow> ustr" where
  "lstrip s = lstrip_if is_space s"

definition strip_chars :: "ustr \<Rightarrow> ustr \<Rightarrow> ustr" where
  "strip_chars cs s = strip_if (\<lambda>c. c \<in> set cs) s"

lemma length_lstrip_if: "length (lstrip_if p s) \<le> length s"
  by (simp add: lstrip_if_def length_dropWhile_le)

lemma length_rstrip_if: "length (rstrip_if p s) \<le> length s"
  by (metis length_dropWhile_le length_rev rstrip_if_def)

lemma length_strip_if: "length (strip_if p s) \<le> length s"
  using length_lstrip_if length_rstrip_if le_trans unfolding strip_if_def by blast

lemma length_strip: "length (strip s) \<le> length s"
  by (simp add: strip_def length_strip_if)

lemma length_lstrip: "length (lstrip s) \<le> length s"
  by (simp add: lstrip_def length_lstrip_if)

lemma strip_Nil [simp]: "strip [] = []"
  by (simp add: strip_def strip_if_def rstrip_if_def lstrip_if_def)

lemma lstrip_Nil [simp]: "lstrip [] = []"
  by (simp add: lstrip_def lstrip_if_def)

lemma set_strip: "set (strip s) \<subseteq> set s"
  unfolding strip_def strip_if_def rstrip_if_def lstrip_if_def
  by (metis (mono_tags, lifting) set_dropWhileD set_rev subsetI)

lemma strip_if_id:
  assumes "s = [] \<or> (\<not> p (hd s) \<and> \<not> p (last s))"
  shows "strip_if p s = s"
proof (cases s)
  case Nil
  then show ?thesis by (simp add: strip_if_def rstrip_if_def lstrip_if_def)
next
  case (Cons c t)
  with assms have h: "\<not> p c" and l: "\<not> p (last s)" by auto
  have "lstrip_if p s = s" using Cons h by (simp add: lstrip_if_def)
  moreover have "dropWhile p (rev s) = rev s"
    using l Cons by (metis dropWhile_eq_self_iff hd_rev)
  ultimately show ?thesis by (simp add: strip_if_def rstrip_if_def)
qed

lemma rstrip_if_last: "rstrip_if p s \<noteq> [] \<Longrightarrow> \<not> p (last (rstrip_if p s))"
  unfolding rstrip_if_def by (simp add: hd_dropWhile last_rev)

lemma rstrip_if_prefix: "\<exists>t. s = rstrip_if p s @ t \<and> (\<forall>c \<in> set t. p c)"
proof -
  have "rev s = takeWhile p (rev s) @ dropWhile p (rev s)" by simp
  then have "s = rev (dropWhile p (rev s)) @ rev (takeWhile p (rev s))"
    by (metis rev_append rev_rev_ident)
  then show ?thesis
    unfolding rstrip_if_def by (metis set_rev set_takeWhileD)
qed

lemma rstrip_if_hd: "rstrip_if p s \<noteq> [] \<Longrightarrow> hd (rstrip_if p s) = hd s"
  using rstrip_if_prefix [of s p] by (metis hd_append2)

lemma strip_if_ends:
  assumes "strip_if p s \<noteq> []"
  shows "\<not> p (hd (strip_if p s))" and "\<not> p (last (strip_if p s))"
proof -
  show "\<not> p (last (strip_if p s))"
    using assms rstrip_if_last unfolding strip_if_def by blast
  have "hd (strip_if p s) = hd (lstrip_if p s)"
    using assms rstrip_if_hd unfolding strip_if_def by blast
  moreover have "lstrip_if p s \<noteq> []"
    using assms by (auto simp: strip_if_def rstrip_if_def)
  ultimately show "\<not> p (hd (strip_if p s))"
    by (simp add: lstrip_if_def hd_dropWhile)
qed

lemma strip_if_idem [simp]: "strip_if p (strip_if p s) = strip_if p s"
  using strip_if_ends strip_if_id by blast

lemma strip_idem [simp]: "strip (strip s) = strip s"
  by (simp add: strip_def)

lemma strip_if_Nil_iff: "strip_if p s = [] \<longleftrightarrow> (\<forall>c \<in> set s. p c)"
  unfolding strip_if_def rstrip_if_def lstrip_if_def
  by (auto simp: dropWhile_eq_Nil_conv dest: set_dropWhileD)
    (metis dropWhile_eq_Nil_conv hd_dropWhile hd_in_set)

lemma strip_eq_Nil: "strip s = [] \<longleftrightarrow> (\<forall>c \<in> set s. is_space c)"
  by (simp add: strip_def strip_if_Nil_iff)

section \<open>Prefixes, suffixes, occurrence\<close>

fun starts_with :: "ustr \<Rightarrow> ustr \<Rightarrow> bool" where
  "starts_with s [] = True"
| "starts_with [] (p # ps) = False"
| "starts_with (c # cs) (p # ps) = (c = p \<and> starts_with cs ps)"

definition ends_with :: "ustr \<Rightarrow> ustr \<Rightarrow> bool" where
  "ends_with s p = starts_with (rev s) (rev p)"

lemma starts_with_iff: "starts_with s p \<longleftrightarrow> (\<exists>t. s = p @ t)"
  by (induction s p rule: starts_with.induct) auto

lemma starts_with_length: "starts_with s p \<Longrightarrow> length p \<le> length s"
  by (auto simp: starts_with_iff)

lemma ends_with_iff: "ends_with s p \<longleftrightarrow> (\<exists>t. s = t @ p)"
  unfolding ends_with_def starts_with_iff
  by (metis rev_append rev_rev_ident)

text \<open>
  \<open>find_at n s i\<close> scans the rest \<open>s\<close> of a string whose first character has index \<open>i\<close>.
\<close>

fun find_at :: "ustr \<Rightarrow> ustr \<Rightarrow> nat \<Rightarrow> nat option" where
  "find_at n [] i = (if n = [] then Some i else None)"
| "find_at n (c # cs) i = (if starts_with (c # cs) n then Some i else find_at n cs (Suc i))"

definition find_from :: "ustr \<Rightarrow> ustr \<Rightarrow> nat \<Rightarrow> nat option" where
  "find_from s n start = (if length s < start then None else find_at n (drop start s) start)"

definition contains :: "ustr \<Rightarrow> ustr \<Rightarrow> bool" where
  "contains s n \<longleftrightarrow> find_at n s 0 \<noteq> None"

lemma find_at_Some:
  "find_at n s i = Some j \<Longrightarrow>
    i \<le> j \<and> j - i \<le> length s \<and> starts_with (drop (j - i) s) n"
proof (induction n s i rule: find_at.induct)
  case (1 n i)
  then show ?case by (auto split: if_splits)
next
  case (2 n c cs i)
  show ?case
  proof (cases "starts_with (c # cs) n")
    case True
    with "2.prems" show ?thesis by simp
  next
    case False
    with 2 have "Suc i \<le> j \<and> j - Suc i \<le> length cs \<and> starts_with (drop (j - Suc i) cs) n"
      by simp
    moreover from this have "j - i = Suc (j - Suc i)" by linarith
    ultimately show ?thesis by simp
  qed
qed

lemma find_at_least:
  "find_at n s i = Some j \<Longrightarrow> i \<le> k \<Longrightarrow> k < j \<Longrightarrow> \<not> starts_with (drop (k - i) s) n"
proof (induction n s i rule: find_at.induct)
  case (1 n i)
  then show ?case by (auto split: if_splits)
next
  case (2 n c cs i)
  then show ?case
    by (cases "k = i") (auto split: if_splits simp: Suc_diff_le drop_Cons' not_less_eq_eq)
qed

lemma find_at_None:
  "find_at n s i = None \<Longrightarrow> k \<le> length s \<Longrightarrow> \<not> starts_with (drop k s) n"
proof (induction n s i arbitrary: k rule: find_at.induct)
  case (1 n i)
  then show ?case by (cases n) (auto split: if_splits)
next
  case (2 n c cs i)
  then show ?case by (cases k) (auto split: if_splits)
qed

lemma contains_iff: "contains s n \<longleftrightarrow> (\<exists>a b. s = a @ n @ b)"
proof
  assume "contains s n"
  then obtain j where "find_at n s 0 = Some j" by (auto simp: contains_def)
  then have "starts_with (drop j s) n" and "j \<le> length s"
    using find_at_Some [of n s 0 j] by auto
  then obtain t where "drop j s = n @ t" by (auto simp: starts_with_iff)
  then have "s = take j s @ n @ t" by (metis append_take_drop_id)
  then show "\<exists>a b. s = a @ n @ b" by blast
next
  assume "\<exists>a b. s = a @ n @ b"
  then obtain a b where s: "s = a @ n @ b" by blast
  then have "starts_with (drop (length a) s) n" and "length a \<le> length s"
    by (auto simp: starts_with_iff)
  then show "contains s n" using find_at_None [of n s 0 "length a"] by (auto simp: contains_def)
qed

lemma contains_Nil [simp]: "contains s []"
  by (auto simp: contains_iff)

lemma contains_refl [simp]: "contains s s"
  unfolding contains_iff by (metis append_Nil append_Nil2)

lemma contains_trans: "contains s t \<Longrightarrow> contains t n \<Longrightarrow> contains s n"
  by (auto simp: contains_iff) (metis append.assoc)

lemma contains_appendI1: "contains s n \<Longrightarrow> contains (s @ t) n"
  unfolding contains_iff by (metis append.assoc)

lemma contains_appendI2: "contains t n \<Longrightarrow> contains (s @ t) n"
  by (auto simp: contains_iff) (metis append.assoc)

lemma contains_lower: "contains s n \<Longrightarrow> contains (lower s) (lower n)"
  unfolding contains_iff by (metis lower_append)

section \<open>Replacing, splitting, joining\<close>

text \<open>\<open>s.replace(old, new)\<close> for a non-empty \<open>old\<close>: leftmost, non-overlapping.\<close>

function replace_all :: "ustr \<Rightarrow> ustr \<Rightarrow> ustr \<Rightarrow> ustr" where
  "replace_all old new s =
    (case s of
       [] \<Rightarrow> []
     | c # cs \<Rightarrow>
         if old \<noteq> [] \<and> starts_with s old then new @ replace_all old new (drop (length old) s)
         else c # replace_all old new cs)"
  by pat_completeness auto
termination
  by (relation "measure (\<lambda>(old, new, s). length s)") auto

declare replace_all.simps [simp del]

lemma replace_all_Nil [simp]: "replace_all old new [] = []"
  by (simp add: replace_all.simps)

lemma replace_all_Cons:
  "replace_all old new (c # cs) =
    (if old \<noteq> [] \<and> starts_with (c # cs) old
     then new @ replace_all old new (drop (length old) (c # cs))
     else c # replace_all old new cs)"
  by (subst replace_all.simps) simp

text \<open>\<open>s.split(sep)\<close> for a one-character separator.\<close>

fun split_on :: "int \<Rightarrow> ustr \<Rightarrow> ustr list" where
  "split_on sep [] = [[]]"
| "split_on sep (c # cs) =
    (if c = sep then [] # split_on sep cs
     else case split_on sep cs of [] \<Rightarrow> [[c]] | p # ps \<Rightarrow> (c # p) # ps)"

fun join :: "ustr \<Rightarrow> ustr list \<Rightarrow> ustr" where
  "join sep [] = []"
| "join sep [s] = s"
| "join sep (s # t # ts) = s @ sep @ join sep (t # ts)"

lemma split_on_nonempty [simp]: "split_on sep s \<noteq> []"
  by (induction s) (auto split: list.splits)

lemma join_split_on: "join [sep] (split_on sep s) = s"
proof (induction s)
  case Nil
  then show ?case by simp
next
  case (Cons c cs)
  obtain p ps where e: "split_on sep cs = p # ps" by (cases "split_on sep cs") auto
  with Cons show ?case by (cases ps) auto
qed

lemma contains_join: "s \<in> set ts \<Longrightarrow> contains (join sep ts) s"
proof (induction sep ts rule: join.induct)
  case (3 sep s' t ts)
  show ?case
  proof (cases "s = s'")
    case True
    then show ?thesis by (auto simp: contains_iff)
  next
    case False
    with 3 have "contains (join sep (t # ts)) s" by simp
    then show ?thesis by (simp add: contains_appendI2)
  qed
qed (simp_all add: contains_refl)

text \<open>
  \<open>str.splitlines()\<close>: the line boundaries of Python, with \<open>\r\n\<close> as one boundary and no empty
  line after a final boundary.
\<close>

definition is_line_break :: "int \<Rightarrow> bool" where
  "is_line_break c \<longleftrightarrow> (10 \<le> c \<and> c \<le> 13) \<or> (28 \<le> c \<and> c \<le> 30) \<or> c = 133 \<or> c = 8232 \<or> c = 8233"

fun lines_acc :: "ustr \<Rightarrow> ustr \<Rightarrow> ustr list" where
  "lines_acc acc [] = (if acc = [] then [] else [rev acc])"
| "lines_acc acc [c] = (if is_line_break c then [rev acc] else [rev (c # acc)])"
| "lines_acc acc (c # d # cs) =
    (if c = 13 \<and> d = 10 then rev acc # lines_acc [] cs
     else if is_line_break c then rev acc # lines_acc [] (d # cs)
     else lines_acc (c # acc) (d # cs))"

definition splitlines :: "ustr \<Rightarrow> ustr list" where
  "splitlines s = lines_acc [] s"

text \<open>\<open>s.rfind(c, lo)\<close> for one character: the last index at or after \<open>lo\<close>.\<close>

fun rfind_acc :: "int \<Rightarrow> nat \<Rightarrow> nat \<Rightarrow> ustr \<Rightarrow> nat option \<Rightarrow> nat option" where
  "rfind_acc c lo i [] r = r"
| "rfind_acc c lo i (d # ds) r =
    rfind_acc c lo (Suc i) ds (if d = c \<and> lo \<le> i then Some i else r)"

definition rfind_char :: "ustr \<Rightarrow> int \<Rightarrow> nat \<Rightarrow> nat option" where
  "rfind_char s c lo = rfind_acc c lo 0 s None"

lemma rfind_acc_Some:
  assumes "rfind_acc c lo i s r = Some j" "\<And>k. r = Some k \<Longrightarrow> lo \<le> k \<and> k < i"
  shows "lo \<le> j \<and> j < i + length s"
  using assms
proof (induction s arbitrary: i r)
  case Nil
  then show ?case by auto
next
  case (Cons d ds)
  let ?r = "if d = c \<and> lo \<le> i then Some i else r"
  have r: "lo \<le> k \<and> k < Suc i" if "?r = Some k" for k
    using that Cons.prems(2) [of k] by (cases "d = c \<and> lo \<le> i") auto
  have "rfind_acc c lo (Suc i) ds ?r = Some j"
    using Cons.prems(1) by simp
  then have "lo \<le> j \<and> j < Suc i + length ds"
    using r by (rule Cons.IH)
  then show ?case by simp
qed

lemma rfind_char_Some: "rfind_char s c lo = Some j \<Longrightarrow> lo \<le> j \<and> j < length s"
  using rfind_acc_Some [of c lo 0 s None j] by (simp add: rfind_char_def)

section \<open>Decimal rendering of integers\<close>

function digits_of :: "nat \<Rightarrow> ustr" where
  "digits_of n = (if n < 10 then [48 + int n] else digits_of (n div 10) @ [48 + int (n mod 10)])"
  by pat_completeness auto
termination
  by (relation "measure (\<lambda>n. n)") auto

declare digits_of.simps [simp del]

definition show_int :: "int \<Rightarrow> ustr" where
  "show_int k = (if k < 0 then 45 # digits_of (nat (- k)) else digits_of (nat k))"

definition pad2 :: "int \<Rightarrow> ustr" where
  "pad2 k = (if k < 10 then 48 # show_int k else show_int k)"

definition pad4 :: "int \<Rightarrow> ustr" where
  "pad4 k = (if k < 10 then [48, 48, 48] else if k < 100 then [48, 48] else if k < 1000 then [48] else [])
    @ show_int k"

end
