(* ===== verification/PyRegex.thy ===== *)
theory PyRegex
  imports PyText
begin

text \<open>
  The part of Python's \<open>re\<close> module the program uses, as a backtracking matcher. A pattern is a
  value of type \<open>rx\<close>: character classes as ranges, ordered alternation, greedy and lazy bounded
  repetition, named groups, negative lookahead and lookbehind, anchors. The matcher \<open>rmatch\<close>
  takes the rest of the match as a continuation and tries the alternatives in the order
  \<open>re\<close> does, so the first success is the match \<open>re\<close> returns.

  A position in the subject is a zipper \<open>(before, after)\<close>, the consumed part reversed. An
  optional iteration of a repetition is only tried when the previous one consumed a character,
  which is what bounds the number of iterations by the length of the rest; the fuel of the
  repetition loop is that bound and \<open>rep_enough\<close> shows that more fuel changes nothing.
\<close>

section \<open>Patterns\<close>

datatype rx =
    Eps
  | Cls bool "(int \<times> int) list"   \<comment> \<open>\<open>[...]\<close> as ranges; \<open>True\<close> for \<open>[^...]\<close>\<close>
  | Space | NonSpace | Digit | Word bool "(int \<times> int) list"
    \<comment> \<open>\<open>\s\<close>, \<open>\S\<close>, \<open>\d\<close>; \<open>Word\<close> is \<open>[\w...]\<close>, or \<open>[\d...]\<close> when the flag is False\<close>
  | AnyChar bool                   \<comment> \<open>\<open>.\<close>; \<open>True\<close> under \<open>re.DOTALL\<close>\<close>
  | Seq rx rx
  | Alt rx rx
  | Rep bool nat "nat option" rx   \<comment> \<open>greedy flag, minimum, maximum\<close>
  | Grp string rx
  | NotAhead rx
  | Ahead rx
  | Bol                            \<comment> \<open>\<open>^\<close> without \<open>re.MULTILINE\<close>\<close>
  | Eol                            \<comment> \<open>\<open>$\<close>: the end, or before a final newline\<close>

fun lit :: "ustr \<Rightarrow> rx" where
  "lit [] = Eps"
| "lit [c] = Cls False [(c, c)]"
| "lit (c # d # cs) = Seq (Cls False [(c, c)]) (lit (d # cs))"

fun seqs :: "rx list \<Rightarrow> rx" where
  "seqs [] = Eps"
| "seqs [r] = r"
| "seqs (r # s # rs) = Seq r (seqs (s # rs))"

fun alts :: "rx list \<Rightarrow> rx" where
  "alts [] = Cls False []"
| "alts [r] = r"
| "alts (r # s # rs) = Alt r (alts (s # rs))"

text \<open>
  Under \<open>re.IGNORECASE\<close> an ASCII letter matches both cases and, for three letters, a character
  outside ASCII whose case mapping leads to it.
\<close>

definition ci_class :: "int \<Rightarrow> (int \<times> int) list" where
  "ci_class c =
    (let l = (if 65 \<le> c \<and> c \<le> 90 then c + 32 else c) in
     if 97 \<le> l \<and> l \<le> 122 then
       [(l, l), (l - 32, l - 32)]
       @ (if l = 105 then [(304, 305)] else if l = 107 then [(8490, 8490)]
          else if l = 115 then [(383, 383)] else [])
     else [(c, c)])"

definition ilit :: "ustr \<Rightarrow> rx" where
  "ilit s = seqs (map (\<lambda>c. Cls False (ci_class c)) s)"

definition iwords :: "ustr list \<Rightarrow> rx" where
  "iwords ws = alts (map ilit ws)"

text \<open>\<open>[a-z]\<close> under \<open>re.IGNORECASE\<close>.\<close>

definition ci_letters :: "(int \<times> int) list" where
  "ci_letters = [(97, 122), (65, 90), (304, 305), (383, 383), (8490, 8490)]"

definition cjk_class :: "(int \<times> int) list" where
  "cjk_class = [(19968, 40959)]"

definition rwords :: "ustr list \<Rightarrow> rx" where
  "rwords ws = alts (map lit ws)"

definition any_of :: "ustr \<Rightarrow> rx" where
  "any_of cs = Cls False (map (\<lambda>c. (c, c)) cs)"

definition none_of :: "ustr \<Rightarrow> rx" where
  "none_of cs = Cls True (map (\<lambda>c. (c, c)) cs)"

abbreviation ropt :: "rx \<Rightarrow> rx" where "ropt r \<equiv> Rep True 0 (Some 1) r"
abbreviation rstar :: "rx \<Rightarrow> rx" where "rstar r \<equiv> Rep True 0 None r"
abbreviation rplus :: "rx \<Rightarrow> rx" where "rplus r \<equiv> Rep True 1 None r"
abbreviation rtimes :: "nat \<Rightarrow> nat \<Rightarrow> rx \<Rightarrow> rx" where "rtimes m n r \<equiv> Rep True m (Some n) r"

section \<open>Matching\<close>

type_synonym caps = "(string \<times> ustr) list"
datatype zip = Z (zpre: ustr) (zrest: ustr) (zcaps: caps)

fun rep :: "((zip \<Rightarrow> 'r option) \<Rightarrow> zip \<Rightarrow> 'r option) \<Rightarrow> bool \<Rightarrow> nat \<Rightarrow> nat \<Rightarrow> nat option \<Rightarrow>
    (zip \<Rightarrow> 'r option) \<Rightarrow> zip \<Rightarrow> 'r option" where
  "rep step g 0 lo hi k z = (if lo = 0 then k z else None)"
| "rep step g (Suc f) lo hi k z =
    (if 0 < lo then step (rep step g f (lo - 1) (map_option (\<lambda>h. h - 1) hi) k) z
     else if hi = Some 0 then k z
     else if g then
       (case step (\<lambda>z'. if length (zrest z') < length (zrest z)
                        then rep step g f 0 (map_option (\<lambda>h. h - 1) hi) k z' else None) z of
          Some x \<Rightarrow> Some x | None \<Rightarrow> k z)
     else
       (case k z of
          Some x \<Rightarrow> Some x
        | None \<Rightarrow> step (\<lambda>z'. if length (zrest z') < length (zrest z)
                        then rep step g f 0 (map_option (\<lambda>h. h - 1) hi) k z' else None) z))"

definition one_char :: "(int \<Rightarrow> bool) \<Rightarrow> (zip \<Rightarrow> 'r option) \<Rightarrow> zip \<Rightarrow> 'r option" where
  "one_char p k z = (case zrest z of
       [] \<Rightarrow> None
     | c # t \<Rightarrow> if p c then k (Z (c # zpre z) t (zcaps z)) else None)"

primrec rmatch :: "rx \<Rightarrow> (zip \<Rightarrow> zip option) \<Rightarrow> zip \<Rightarrow> zip option" where
  "rmatch Eps k z = k z"
| "rmatch (Cls neg rs) k z = one_char (\<lambda>c. in_ranges c rs \<noteq> neg) k z"
| "rmatch Space k z = one_char is_space k z"
| "rmatch NonSpace k z = one_char (\<lambda>c. \<not> is_space c) k z"
| "rmatch Digit k z = one_char is_decimal k z"
| "rmatch (Word w rs) k z =
     one_char (\<lambda>c. (if w then is_word c else is_decimal c) \<or> in_ranges c rs) k z"
| "rmatch (AnyChar dotall) k z = one_char (\<lambda>c. dotall \<or> c \<noteq> 10) k z"
| "rmatch (Seq r s) k z = rmatch r (rmatch s k) z"
| "rmatch (Alt r s) k z = (case rmatch r k z of Some x \<Rightarrow> Some x | None \<Rightarrow> rmatch s k z)"
| "rmatch (Rep g lo hi r) k z =
     rep (rmatch r) g (lo + length (zrest z) + 1) lo hi k z"
| "rmatch (Grp n r) k z =
     rmatch r (\<lambda>z'.
       k (Z (zpre z') (zrest z')
         ((n, rev (take (length (zpre z') - length (zpre z)) (zpre z'))) # zcaps z'))) z"
| "rmatch (NotAhead r) k z = (case rmatch r Some z of Some _ \<Rightarrow> None | None \<Rightarrow> k z)"
| "rmatch (Ahead r) k z =
     (case rmatch r Some z of
        None \<Rightarrow> None
      | Some z' \<Rightarrow> k (Z (zpre z) (zrest z) (zcaps z')))"
| "rmatch Bol k z = (if zpre z = [] then k z else None)"
| "rmatch Eol k z = (if zrest z = [] \<or> zrest z = [10] then k z else None)"

section \<open>The matcher only moves forward\<close>

text \<open>\<open>adv z z'\<close>: \<open>z'\<close> is reached from \<open>z\<close> by consuming characters of the subject.\<close>

definition adv :: "zip \<Rightarrow> zip \<Rightarrow> bool" where
  "adv z z' \<longleftrightarrow> (\<exists>w. zpre z' = rev w @ zpre z \<and> zrest z = w @ zrest z')"

lemma adv_refl [simp, intro]: "adv z z"
  by (simp add: adv_def)

lemma adv_caps [simp]: "adv (Z p r cs) (Z p r ds)"
  by (simp add: adv_def)

lemma adv_trans [trans]: "adv a b \<Longrightarrow> adv b c \<Longrightarrow> adv a c"
  unfolding adv_def by (metis append.assoc rev_append)

lemma adv_length: "adv z z' \<Longrightarrow> length (zrest z') \<le> length (zrest z)"
  by (auto simp: adv_def)

lemma adv_subject:
  "adv z z' \<Longrightarrow> rev (zpre z') @ zrest z' = rev (zpre z) @ zrest z"
  by (auto simp: adv_def)

lemma adv_pos:
  "adv z z' \<Longrightarrow> length (zpre z') + length (zrest z') = length (zpre z) + length (zrest z)"
  by (auto simp: adv_def)

lemma adv_one: "adv (Z p (c # r) cs) (Z (c # p) r cs)"
  unfolding adv_def by (rule exI [of _ "[c]"]) simp

text \<open>A matcher step \<open>m\<close> is \<open>forward\<close> when it calls its continuation only at later positions.\<close>

definition forward :: "((zip \<Rightarrow> 'r option) \<Rightarrow> zip \<Rightarrow> 'r option) \<Rightarrow> bool" where
  "forward m \<longleftrightarrow>
    (\<forall>k z x. m k z = Some x \<longrightarrow> (\<exists>z'. adv z z' \<and> k z' = Some x)) \<and>
    (\<forall>k k' z. (\<forall>z'. adv z z' \<longrightarrow> k z' = k' z') \<longrightarrow> m k z = m k' z)"

lemma forwardI:
  assumes "\<And>k z x. m k z = Some x \<Longrightarrow> \<exists>z'. adv z z' \<and> k z' = Some x"
    and "\<And>k k' z. (\<And>z'. adv z z' \<Longrightarrow> k z' = k' z') \<Longrightarrow> m k z = m k' z"
  shows "forward m"
  using assms unfolding forward_def by blast

lemma forward_Some: "forward m \<Longrightarrow> m k z = Some x \<Longrightarrow> \<exists>z'. adv z z' \<and> k z' = Some x"
  unfolding forward_def by blast

lemma forward_cong: "forward m \<Longrightarrow> (\<And>z'. adv z z' \<Longrightarrow> k z' = k' z') \<Longrightarrow> m k z = m k' z"
  unfolding forward_def by blast

lemma forward_one_char: "forward (one_char p)"
proof (rule forwardI)
  fix k z x
  assume "one_char p k z = Some x"
  then show "\<exists>z'. adv z z' \<and> k z' = Some x"
    using adv_one by (cases z) (fastforce simp: one_char_def split: list.splits if_splits)
next
  fix k k' :: "zip \<Rightarrow> 'a option" and z
  assume "\<And>z'. adv z z' \<Longrightarrow> k z' = k' z'"
  then show "one_char p k z = one_char p k' z"
    by (cases z) (auto simp: one_char_def adv_one split: list.splits)
qed

lemma rep_cong:
  assumes m: "forward m"
  shows "(\<And>z'. adv z z' \<Longrightarrow> k z' = k' z') \<Longrightarrow> rep m g f lo hi k z = rep m g f lo hi k' z"
proof (induction f arbitrary: lo hi k k' z)
  case 0
  then show ?case by simp
next
  case (Suc f)
  have rec: "rep m g f lo' hi' k z' = rep m g f lo' hi' k' z'" if "adv z z'" for lo' hi' z'
    using that Suc.prems adv_trans by (intro Suc.IH) blast
  have "m (rep m g f (lo - 1) (map_option (\<lambda>h. h - 1) hi) k) z
      = m (rep m g f (lo - 1) (map_option (\<lambda>h. h - 1) hi) k') z"
    by (rule forward_cong [OF m]) (rule rec)
  moreover have "m (\<lambda>z'. if length (zrest z') < length (zrest z)
        then rep m g f 0 (map_option (\<lambda>h. h - 1) hi) k z' else None) z
      = m (\<lambda>z'. if length (zrest z') < length (zrest z)
        then rep m g f 0 (map_option (\<lambda>h. h - 1) hi) k' z' else None) z"
    by (rule forward_cong [OF m]) (simp add: rec)
  moreover have "k z = k' z" using Suc.prems by blast
  ultimately show ?case by (simp add: Let_def cong: option.case_cong)
qed

lemma rep_Some:
  assumes m: "forward m"
  shows "rep m g f lo hi k z = Some x \<Longrightarrow> \<exists>z'. adv z z' \<and> k z' = Some x"
proof (induction f arbitrary: lo hi z)
  case 0
  then show ?case by (auto split: if_splits)
next
  case (Suc f)
  have step: "\<exists>z'. adv z z' \<and> k z' = Some x"
    if "m k2 z = Some x" and "\<And>z'. k2 z' = Some x \<Longrightarrow> \<exists>z''. adv z' z'' \<and> k z'' = Some x" for k2
    using forward_Some [OF m that(1)] that(2) adv_trans by blast
  have more: "\<exists>z'. adv z z' \<and> k z' = Some x"
    if "m (\<lambda>z'. if length (zrest z') < length (zrest z)
        then rep m g f 0 (map_option (\<lambda>h. h - 1) hi) k z' else None) z = Some x"
    by (rule step [OF that]) (auto split: if_splits dest: Suc.IH)
  show ?case
  proof (cases "0 < lo")
    case True
    with Suc.prems show ?thesis by (auto intro: step Suc.IH)
  next
    case False
    with Suc.prems show ?thesis
      by (auto simp: Let_def split: if_splits option.splits intro: more)
  qed
qed

lemma forward_rep: "forward m \<Longrightarrow> forward (rep m g f lo hi)"
  by (rule forwardI) (auto simp del: rep.simps dest: rep_Some intro: rep_cong)

lemma forward_rmatch: "forward (rmatch r)"
proof (induction r)
  case Eps
  show ?case by (rule forwardI) auto
next
  case (Seq r s)
  show ?case
  proof (rule forwardI)
    fix k z x
    assume "rmatch (Seq r s) k z = Some x"
    then obtain z' where "adv z z'" "rmatch s k z' = Some x"
      using forward_Some [OF Seq.IH(1), of "rmatch s k" z x] by auto
    then show "\<exists>z'. adv z z' \<and> k z' = Some x"
      using forward_Some [OF Seq.IH(2)] adv_trans by blast
  next
    fix k k' :: "zip \<Rightarrow> zip option" and z
    assume "\<And>z'. adv z z' \<Longrightarrow> k z' = k' z'"
    then have "\<And>z'. adv z z' \<Longrightarrow> rmatch s k z' = rmatch s k' z'"
      using forward_cong [OF Seq.IH(2)] adv_trans by blast
    then show "rmatch (Seq r s) k z = rmatch (Seq r s) k' z"
      unfolding rmatch.simps by (rule forward_cong [OF Seq.IH(1)])
  qed
next
  case (Alt r s)
  show ?case
  proof (rule forwardI)
    fix k z x
    assume a: "rmatch (Alt r s) k z = Some x"
    show "\<exists>z'. adv z z' \<and> k z' = Some x"
    proof (cases "rmatch r k z")
      case None
      with a have "rmatch s k z = Some x" by simp
      then show ?thesis by (rule forward_Some [OF Alt.IH(2)])
    next
      case (Some y)
      with a have "rmatch r k z = Some x" by simp
      then show ?thesis by (rule forward_Some [OF Alt.IH(1)])
    qed
  next
    fix k k' :: "zip \<Rightarrow> zip option" and z
    assume "\<And>z'. adv z z' \<Longrightarrow> k z' = k' z'"
    then show "rmatch (Alt r s) k z = rmatch (Alt r s) k' z"
      using forward_cong [OF Alt.IH(1), of z k k'] forward_cong [OF Alt.IH(2), of z k k']
      by (simp cong: option.case_cong)
  qed
next
  case (Rep g lo hi r)
  show ?case
    by (rule forwardI)
      (auto simp del: rep.simps dest: rep_Some [OF Rep.IH] intro: rep_cong [OF Rep.IH])
next
  case (Grp n r)
  show ?case
  proof (rule forwardI)
    fix k z x
    assume "rmatch (Grp n r) k z = Some x"
    then obtain z' where "adv z z'"
      and "k (Z (zpre z') (zrest z')
         ((n, rev (take (length (zpre z') - length (zpre z)) (zpre z'))) # zcaps z')) = Some x"
      using forward_Some [OF Grp.IH] unfolding rmatch.simps by blast
    moreover from this have "adv z (Z (zpre z') (zrest z')
         ((n, rev (take (length (zpre z') - length (zpre z)) (zpre z'))) # zcaps z'))"
      by (simp add: adv_def)
    ultimately show "\<exists>z'. adv z z' \<and> k z' = Some x" by blast
  next
    fix k k' :: "zip \<Rightarrow> zip option" and z
    assume eq: "\<And>z'. adv z z' \<Longrightarrow> k z' = k' z'"
    show "rmatch (Grp n r) k z = rmatch (Grp n r) k' z"
      unfolding rmatch.simps
      by (rule forward_cong [OF Grp.IH]) (rule eq, simp add: adv_def)
  qed
next
  case (NotAhead r)
  show ?case by (rule forwardI) (auto split: option.splits)
next
  case (Ahead r)
  have a: "adv z (Z (zpre z) (zrest z) c)" for z c by (simp add: adv_def)
  show ?case by (rule forwardI) (auto split: option.splits intro: a)
next
  case Bol
  show ?case by (rule forwardI) (auto split: if_splits)
next
  case Eol
  show ?case by (rule forwardI) (auto split: if_splits)
qed (simp_all add: forward_one_char)

text \<open>More fuel than the bound of the repetition loop changes nothing.\<close>

lemma rep_enough:
  assumes m: "forward m"
  shows "lo + length (zrest z) < f \<Longrightarrow> rep m g (Suc f) lo hi k z = rep m g f lo hi k z"
proof (induction f arbitrary: lo hi z)
  case 0
  then show ?case by simp
next
  case (Suc f)
  have must: "m (rep m g (Suc f) (lo - 1) (map_option (\<lambda>h. h - 1) hi) k) z
      = m (rep m g f (lo - 1) (map_option (\<lambda>h. h - 1) hi) k) z" if "0 < lo"
    by (rule forward_cong [OF m], rule Suc.IH) (use that Suc.prems adv_length in fastforce)
  have more: "m (\<lambda>z'. if length (zrest z') < length (zrest z)
        then rep m g (Suc f) 0 (map_option (\<lambda>h. h - 1) hi) k z' else None) z
      = m (\<lambda>z'. if length (zrest z') < length (zrest z)
        then rep m g f 0 (map_option (\<lambda>h. h - 1) hi) k z' else None) z"
  proof (rule forward_cong [OF m])
    fix z'
    have "rep m g (Suc f) 0 (map_option (\<lambda>h. h - 1) hi) k z'
        = rep m g f 0 (map_option (\<lambda>h. h - 1) hi) k z'"
      if "length (zrest z') < length (zrest z)"
      by (rule Suc.IH) (use that Suc.prems in linarith)
    then show "(if length (zrest z') < length (zrest z)
        then rep m g (Suc f) 0 (map_option (\<lambda>h. h - 1) hi) k z' else None)
      = (if length (zrest z') < length (zrest z)
        then rep m g f 0 (map_option (\<lambda>h. h - 1) hi) k z' else None)" by simp
  qed
  show ?case
    using must more rep.simps(2) [of m g "Suc f" lo hi k z] rep.simps(2) [of m g f lo hi k z]
    by (cases "0 < lo") (simp_all del: rep.simps cong: option.case_cong)
qed

section \<open>The functions of \<open>re\<close>\<close>

record found =
  m_start :: nat
  m_end :: nat
  m_text :: ustr
  m_caps :: caps

definition mk_found :: "ustr \<Rightarrow> zip \<Rightarrow> found" where
  "mk_found pre z =
    \<lparr>m_start = length pre, m_end = length (zpre z),
     m_text = rev (take (length (zpre z) - length pre) (zpre z)), m_caps = zcaps z\<rparr>"

text \<open>
  One attempt at the position \<open>(pre, rest)\<close>. The flag forbids an empty match there, as
  \<open>re\<close> does right after an empty match.
\<close>

definition match_at :: "rx \<Rightarrow> bool \<Rightarrow> ustr \<Rightarrow> ustr \<Rightarrow> zip option" where
  "match_at r must pre rest =
    rmatch r (\<lambda>z. if must \<and> length (zrest z) = length rest then None else Some z)
      (Z pre rest [])"

fun search_at :: "rx \<Rightarrow> bool \<Rightarrow> ustr \<Rightarrow> ustr \<Rightarrow> (ustr \<times> zip) option" where
  "search_at r must pre [] = map_option (Pair pre) (match_at r must pre [])"
| "search_at r must pre (c # cs) =
    (case match_at r must pre (c # cs) of
       Some z \<Rightarrow> Some (pre, z)
     | None \<Rightarrow> search_at r False (c # pre) cs)"

definition re_search :: "rx \<Rightarrow> ustr \<Rightarrow> found option" where
  "re_search r s = map_option (\<lambda>(pre, z). mk_found pre z) (search_at r False [] s)"

definition re_found :: "rx \<Rightarrow> ustr \<Rightarrow> bool" where
  "re_found r s \<longleftrightarrow> re_search r s \<noteq> None"

definition re_match :: "rx \<Rightarrow> ustr \<Rightarrow> bool" where
  "re_match r s \<longleftrightarrow> match_at r False [] s \<noteq> None"

definition re_fullmatch :: "rx \<Rightarrow> ustr \<Rightarrow> bool" where
  "re_fullmatch r s \<longleftrightarrow> rmatch r (\<lambda>z. if zrest z = [] then Some z else None) (Z [] s []) \<noteq> None"

lemma match_at_adv:
  "match_at r must pre rest = Some z \<Longrightarrow>
    adv (Z pre rest []) z \<and> (must \<longrightarrow> length (zrest z) < length rest)"
  using forward_Some [OF forward_rmatch, of r] adv_length [of "(Z pre rest [])"]
  unfolding match_at_def by (fastforce split: if_splits simp: le_neq_implies_less)

lemma search_at_adv:
  "search_at r must pre rest = Some (pre', z) \<Longrightarrow>
    (\<exists>rest'. adv (Z pre rest []) (Z pre' rest' []) \<and> adv (Z pre' rest' []) z
      \<and> (must \<longrightarrow> length (zrest z) < length rest))"
proof (induction r must pre rest rule: search_at.induct)
  case (1 r must pre)
  then show ?case using match_at_adv [of r must pre' "[]" z] by auto
next
  case (2 r must pre c cs)
  show ?case
  proof (cases "match_at r must pre (c # cs)")
    case None
    with 2 obtain rest' where
      "adv (Z (c # pre) cs []) (Z pre' rest' [])" "adv (Z pre' rest' []) z"
      by auto
    moreover from this have "length (zrest z) < length (c # cs)"
      using adv_length [of "(Z (c # pre) cs [])"] adv_trans by fastforce
    ultimately show ?thesis using adv_one adv_trans by blast
  next
    case (Some z')
    with "2.prems" have "pre' = pre" "z' = z" by auto
    with Some show ?thesis using match_at_adv by blast
  qed
qed

text \<open>\<open>re.finditer\<close>: each search starts where the last match ended.\<close>

function iter_at :: "rx \<Rightarrow> bool \<Rightarrow> ustr \<Rightarrow> ustr \<Rightarrow> found list" where
  "iter_at r must pre rest =
    (case search_at r must pre rest of
       None \<Rightarrow> []
     | Some (pre', z) \<Rightarrow>
         mk_found pre' z # iter_at r (length (zpre z) = length pre') (zpre z) (zrest z))"
  by pat_completeness auto
termination
proof (relation "measure (\<lambda>(r, must, pre, rest). 2 * length rest + (if must then 0 else 1))", goal_cases)
  case 1
  show ?case by simp
next
  case (2 r must pre rest x pre' z)
  then obtain rest' where a: "adv (Z pre rest []) (Z pre' rest' [])" "adv (Z pre' rest' []) z"
    and m: "must \<longrightarrow> length (zrest z) < length rest"
    using search_at_adv [of r must pre rest pre' z] by auto
  have "length (zrest z) \<le> length rest'" "length rest' \<le> length rest"
    using adv_length [OF a(1)] adv_length [OF a(2)] by auto
  moreover have "length (zpre z) + length (zrest z) = length pre' + length rest'"
    using adv_pos [OF a(2)] by simp
  ultimately show ?case using m by auto
qed

declare iter_at.simps [simp del]

definition re_finditer :: "rx \<Rightarrow> ustr \<Rightarrow> found list" where
  "re_finditer r s = iter_at r False [] s"

definition re_findall :: "rx \<Rightarrow> ustr \<Rightarrow> ustr list" where
  "re_findall r s = map m_text (re_finditer r s)"

text \<open>\<open>re.sub\<close> with a constant replacement and \<open>re.split\<close> without groups, from the matches.\<close>

fun sub_from :: "ustr \<Rightarrow> nat \<Rightarrow> found list \<Rightarrow> ustr \<Rightarrow> ustr" where
  "sub_from repl i [] s = s"
| "sub_from repl i (m # ms) s =
    take (m_start m - i) s @ repl @ sub_from repl (m_end m) ms (drop (m_end m - i) s)"

definition re_sub :: "rx \<Rightarrow> ustr \<Rightarrow> ustr \<Rightarrow> ustr" where
  "re_sub r repl s = sub_from repl 0 (re_finditer r s) s"

fun split_from :: "nat \<Rightarrow> found list \<Rightarrow> ustr \<Rightarrow> ustr list" where
  "split_from i [] s = [s]"
| "split_from i (m # ms) s =
    take (m_start m - i) s # split_from (m_end m) ms (drop (m_end m - i) s)"

definition re_split :: "rx \<Rightarrow> ustr \<Rightarrow> ustr list" where
  "re_split r s = split_from 0 (re_finditer r s) s"

definition m_group :: "found \<Rightarrow> string \<Rightarrow> ustr option" where
  "m_group m n = map_of (m_caps m) n"

section \<open>Matches are where they say they are\<close>

definition found_ok :: "ustr \<Rightarrow> found \<Rightarrow> bool" where
  "found_ok s m \<longleftrightarrow> m_start m \<le> m_end m \<and> m_end m \<le> length s
    \<and> m_text m = take (m_end m - m_start m) (drop (m_start m) s)"

lemma mk_found_ok:
  assumes "adv (Z p q cs) z"
  shows "found_ok (rev p @ q) (mk_found p z)"
proof -
  from assms obtain w where w: "zpre z = rev w @ p" "q = w @ zrest z"
    by (auto simp: adv_def)
  then show ?thesis by (simp add: found_ok_def mk_found_def)
qed

lemma search_at_found:
  assumes "search_at r must pre rest = Some (pre', z)"
  shows "found_ok (rev pre @ rest) (mk_found pre' z)" and "length pre \<le> length pre'"
    and "rev (zpre z) @ zrest z = rev pre @ rest"
proof -
  from search_at_adv [OF assms] obtain rest' where
    a: "adv (Z pre rest []) (Z pre' rest' [])" "adv (Z pre' rest' []) z" by auto
  have "rev pre' @ rest' = rev pre @ rest" using adv_subject [OF a(1)] by simp
  then show "found_ok (rev pre @ rest) (mk_found pre' z)" using mk_found_ok [OF a(2)] by simp
  show "length pre \<le> length pre'" using a(1) by (auto simp: adv_def)
  show "rev (zpre z) @ zrest z = rev pre @ rest"
    using adv_subject [OF a(1)] adv_subject [OF a(2)] by simp
qed

lemma re_search_found: "re_search r s = Some m \<Longrightarrow> found_ok s m"
  using search_at_found(1) [of r False "[]" s] by (auto simp: re_search_def)

lemma iter_at_found:
  "m \<in> set (iter_at r must pre rest) \<Longrightarrow> found_ok (rev pre @ rest) m \<and> length pre \<le> m_start m"
proof (induction r must pre rest rule: iter_at.induct)
  case (1 r must pre rest)
  show ?case
  proof (cases "search_at r must pre rest")
    case None
    with "1.prems" show ?thesis by (simp add: iter_at.simps)
  next
    case (Some pz)
    obtain pre' z where pz: "pz = (pre', z)" by (cases pz)
    note f = search_at_found [OF Some [unfolded pz]]
    from "1.prems" Some pz consider "m = mk_found pre' z"
      | "m \<in> set (iter_at r (length (zpre z) = length pre') (zpre z) (zrest z))"
      by (auto simp: iter_at.simps [of r must pre rest])
    then show ?thesis
    proof cases
      case 1
      then show ?thesis using f by (simp add: mk_found_def)
    next
      case 2
      have "length pre' \<le> length (zpre z)"
        using f(1) by (simp add: found_ok_def mk_found_def)
      then show ?thesis using "1.IH" [OF Some pz [symmetric] 2] f by simp
    qed
  qed
qed

lemma re_finditer_found: "m \<in> set (re_finditer r s) \<Longrightarrow> found_ok s m"
  using iter_at_found [of m r False "[]" s] by (simp add: re_finditer_def)

lemma found_contains: "found_ok s m \<Longrightarrow> contains s (m_text m)"
  unfolding found_ok_def contains_iff by (metis append_take_drop_id)

lemma re_findall_contains: "t \<in> set (re_findall r s) \<Longrightarrow> contains s t"
  by (auto simp: re_findall_def dest: re_finditer_found found_contains)

end
