(* ===== verification/PyValues.thy ===== *)
theory PyValues
  imports PyRegex
begin

text \<open>
  Values that cross component boundaries: exceptions, floats that a provider may return (finite
  or not), calendar dates with \<open>isoformat\<close>, \<open>fromisoformat\<close> and ordinals, and the dynamically
  typed values of metadata and filter dictionaries with Python's \<open>str\<close>, \<open>==\<close> and truth value.
\<close>

section \<open>Exceptions\<close>

datatype exn =
    ValueError string
  | KeyError string
  | NotFoundError string            \<comment> \<open>\<open>app.errors.NotFoundError\<close>: the resource\<close>
  | ConflictError string
  | AppError string int             \<comment> \<open>code and HTTP status\<close>
  | ProviderUnavailableError string string
  | ProviderResponseError string string
  | CodedError string string bool    \<comment> \<open>class, stable code, and whether a retry makes sense\<close>
  | OtherError string               \<comment> \<open>any other exception, by class name\<close>

section \<open>Floats from outside\<close>

datatype pyfloat = Fin rat | PosInf | NegInf | NaN

fun isfinite :: "pyfloat \<Rightarrow> bool" where
  "isfinite (Fin x) = True"
| "isfinite _ = False"

fun unit_interval :: "pyfloat \<Rightarrow> bool" where
  "unit_interval (Fin x) = (0 \<le> x \<and> x \<le> 1)"
| "unit_interval _ = False"

fun fin_val :: "pyfloat \<Rightarrow> rat" where
  "fin_val (Fin x) = x"
| "fin_val _ = 0"

section \<open>Calendar dates\<close>

datatype date = Date (year: int) (month: int) (day: int)

instantiation date :: linorder
begin

definition less_eq_date :: "date \<Rightarrow> date \<Rightarrow> bool" where
  "less_eq_date a b \<longleftrightarrow>
    year a < year b \<or> year a = year b \<and>
      (month a < month b \<or> month a = month b \<and> day a \<le> day b)"

definition less_date :: "date \<Rightarrow> date \<Rightarrow> bool" where
  "less_date a b \<longleftrightarrow> a \<le> b \<and> \<not> (b::date) \<le> a"

instance
  by standard (auto simp: less_eq_date_def less_date_def date.expand)

end

definition is_leap :: "int \<Rightarrow> bool" where
  "is_leap y \<longleftrightarrow> y mod 4 = 0 \<and> (y mod 100 \<noteq> 0 \<or> y mod 400 = 0)"

definition days_in_month :: "int \<Rightarrow> int \<Rightarrow> int" where
  "days_in_month y m =
    (if m = 2 then (if is_leap y then 29 else 28)
     else if m = 4 \<or> m = 6 \<or> m = 9 \<or> m = 11 then 30 else 31)"

definition valid_date :: "int \<Rightarrow> int \<Rightarrow> int \<Rightarrow> bool" where
  "valid_date y m d \<longleftrightarrow>
    1 \<le> y \<and> y \<le> 9999 \<and> 1 \<le> m \<and> m \<le> 12 \<and> 1 \<le> d \<and> d \<le> days_in_month y m"

text \<open>\<open>date(y, m, d)\<close> raises \<open>ValueError\<close> outside the calendar.\<close>

definition mk_date :: "int \<Rightarrow> int \<Rightarrow> int \<Rightarrow> date option" where
  "mk_date y m d = (if valid_date y m d then Some (Date y m d) else None)"

fun isoformat :: "date \<Rightarrow> ustr" where
  "isoformat (Date y m d) = pad4 y @ [45] @ pad2 m @ [45] @ pad2 d"

definition days_before_year :: "int \<Rightarrow> int" where
  "days_before_year y = (y - 1) * 365 + (y - 1) div 4 - (y - 1) div 100 + (y - 1) div 400"

definition days_before_month :: "int \<Rightarrow> int \<Rightarrow> int" where
  "days_before_month y m = (\<Sum>k\<leftarrow>[1..m - 1]. days_in_month y k)"

definition ymd_to_ord :: "int \<Rightarrow> int \<Rightarrow> int \<Rightarrow> int" where
  "ymd_to_ord y m d = days_before_year y + days_before_month y m + d"

text \<open>
  The date of an ordinal within a given year or the year after it, by walking over the months;
  enough for ISO weeks, which reach at most a week beyond their year.
\<close>

fun walk_months :: "nat \<Rightarrow> int \<Rightarrow> int \<Rightarrow> int \<Rightarrow> int \<times> int \<times> int" where
  "walk_months 0 y m d = (y, m, d)"
| "walk_months (Suc n) y m d =
    (if d \<le> days_in_month y m then (y, m, d)
     else if m = 12 then walk_months n (y + 1) 1 (d - days_in_month y m)
     else walk_months n y (m + 1) (d - days_in_month y m))"

definition iso_week1_monday :: "int \<Rightarrow> int" where
  "iso_week1_monday y =
    (let first = ymd_to_ord y 1 1; wd = (first + 6) mod 7; monday = first - wd
     in if 3 < wd then monday + 7 else monday)"

definition iso_to_date :: "int \<Rightarrow> int \<Rightarrow> int \<Rightarrow> date option" where
  "iso_to_date y w d =
    (let first_wd = (ymd_to_ord y 1 1 + 6) mod 7;
         long = first_wd = 3 \<or> first_wd = 2 \<and> is_leap y;
         off = iso_week1_monday y - ymd_to_ord y 1 1 + (w - 1) * 7 + (d - 1)
     in if \<not> (1 \<le> y \<and> y \<le> 9999) then None
        else if \<not> (1 \<le> w \<and> (w < 53 \<or> w = 53 \<and> long)) then None
        else if \<not> (1 \<le> d \<and> d \<le> 7) then None
        else if off < 0 then mk_date (y - 1) 12 (32 + off)
        else case walk_months 14 y 1 (off + 1) of (y', m', d') \<Rightarrow> mk_date y' m' d')"

definition dec :: "int \<Rightarrow> int option" where
  "dec c = (if 48 \<le> c \<and> c \<le> 57 then Some (c - 48) else None)"

fun parse_digits :: "ustr \<Rightarrow> int \<Rightarrow> int option" where
  "parse_digits [] acc = Some acc"
| "parse_digits (c # cs) acc =
    (case dec c of None \<Rightarrow> None | Some k \<Rightarrow> parse_digits cs (10 * acc + k))"

text \<open>
  \<open>date.fromisoformat\<close> of Python 3.11: the lengths 7, 8 and 10; a calendar date with or without
  separators or an ISO week with an optional day. As in CPython, a 10 character text in the basic
  calendar form is read from its first 8 characters.
\<close>

definition fromisoformat :: "ustr \<Rightarrow> date option" where
  "fromisoformat s =
    (if length s \<notin> {7, 8, 10} then None
     else case parse_digits (take 4 s) 0 of
       None \<Rightarrow> None
     | Some y \<Rightarrow>
       (let sep = s ! 4 = 45; r = drop (if sep then 5 else 4) s in
        if r \<noteq> [] \<and> hd r = 87 then
          (case parse_digits (take 2 (tl r)) 0 of
             None \<Rightarrow> None
           | Some w \<Rightarrow>
             (let q = drop 2 (tl r) in
              if length (tl r) < 2 then None
              else if q = [] then iso_to_date y w 1
              else if sep \<and> hd q \<noteq> 45 then None
              else let t = (if sep then tl q else q) in
                (case t of
                   [] \<Rightarrow> None
                 | c # _ \<Rightarrow> (case dec c of None \<Rightarrow> None | Some d \<Rightarrow> iso_to_date y w d))))
        else
          (case parse_digits (take 2 r) 0 of
             None \<Rightarrow> None
           | Some m \<Rightarrow>
             (let q = drop 2 r in
              if length r < 2 then None
              else if sep \<and> (q = [] \<or> hd q \<noteq> 45) then None
              else let t = (if sep then tl q else q) in
                if length t < 2 then None
                else (case parse_digits (take 2 t) 0 of
                        None \<Rightarrow> None | Some d \<Rightarrow> mk_date y m d)))))"

section \<open>Dynamically typed values\<close>

text \<open>
  A float carries its \<open>repr\<close>, which \<open>str\<close> prints; \<open>PObj\<close> is any other object (a list, a nested
  dictionary), identified by its rendering.
\<close>

datatype pyval =
    PNone
  | PBool bool
  | PInt int
  | PFloat rat ustr
  | PStr ustr
  | PDate date
  | PObj ustr

type_synonym pydict = "(string, pyval) dict"

fun py_str :: "pyval \<Rightarrow> ustr" where
  "py_str PNone = asc ''None''"
| "py_str (PBool b) = (if b then asc ''True'' else asc ''False'')"
| "py_str (PInt k) = show_int k"
| "py_str (PFloat x r) = r"
| "py_str (PStr s) = s"
| "py_str (PDate d) = isoformat d"
| "py_str (PObj r) = r"

fun py_num :: "pyval \<Rightarrow> rat option" where
  "py_num (PBool b) = Some (if b then 1 else 0)"
| "py_num (PInt k) = Some (of_int k)"
| "py_num (PFloat x r) = Some x"
| "py_num _ = None"

text \<open>\<open>==\<close>: numbers (and booleans) compare by value, everything else by type and value.\<close>

definition py_eq :: "pyval \<Rightarrow> pyval \<Rightarrow> bool" where
  "py_eq a b \<longleftrightarrow> (case (py_num a, py_num b) of
     (Some x, Some y) \<Rightarrow> x = y
   | (None, None) \<Rightarrow> a = b
   | _ \<Rightarrow> False)"

lemma py_eq_refl [simp]: "py_eq a a"
  by (simp add: py_eq_def split: option.splits)

lemma py_eq_sym: "py_eq a b \<Longrightarrow> py_eq b a"
  by (auto simp: py_eq_def split: option.splits)

fun truthy :: "pyval \<Rightarrow> bool" where
  "truthy PNone = False"
| "truthy (PBool b) = b"
| "truthy (PInt k) = (k \<noteq> 0)"
| "truthy (PFloat x r) = (x \<noteq> 0)"
| "truthy (PStr s) = (s \<noteq> [])"
| "truthy (PDate d) = True"
| "truthy (PObj r) = (r \<noteq> asc ''[]'' \<and> r \<noteq> asc ''{}'')"

text \<open>\<open>d.get(k)\<close>: \<open>None\<close> where the key is missing.\<close>

definition pget :: "pydict \<Rightarrow> string \<Rightarrow> pyval" where
  "pget d k = dget_or d k PNone"

definition pget_or :: "pydict \<Rightarrow> string \<Rightarrow> pyval \<Rightarrow> pyval" where
  "pget_or d k v = dget_or d k v"

end
