(* ===== verification/Retrieval.thy ===== *)
theory Retrieval
  imports PyValues
begin

text \<open>
  \<open>backend/app/retrieval/models.py\<close> and \<open>rrf.py\<close>: retrieval hits and reciprocal rank fusion.
  The three dictionaries of the fusion loop (scores, exemplars, origins) are the state
  \<open>rrf_state\<close>; \<open>rrf_ranking\<close> is the loop over one ranking with its \<open>seen\<close> set. The abstract
  score of a chunk is \<open>rrf_score\<close>: the sum, over the rankings, of the reciprocal of the rank of
  its first occurrence.
\<close>

section \<open>Hits\<close>

record hit =
  h_chunk :: ustr
  h_document :: ustr
  h_content :: ustr
  h_title :: ustr
  h_url :: ustr
  h_score :: rat
  h_rank :: nat
  h_source :: ustr
  h_meta :: pydict

definition with_score :: "hit \<Rightarrow> rat \<Rightarrow> nat \<Rightarrow> ustr \<Rightarrow> hit" where
  "with_score h s r src = h\<lparr>h_score := s, h_rank := r, h_source := src\<rparr>"

lemma with_score_simps [simp]:
  "h_chunk (with_score h s r src) = h_chunk h"
  "h_document (with_score h s r src) = h_document h"
  "h_content (with_score h s r src) = h_content h"
  "h_title (with_score h s r src) = h_title h"
  "h_url (with_score h s r src) = h_url h"
  "h_meta (with_score h s r src) = h_meta h"
  "h_score (with_score h s r src) = s"
  "h_rank (with_score h s r src) = r"
  "h_source (with_score h s r src) = src"
  by (simp_all add: with_score_def)

text \<open>Same chunk and text, whatever the score, the rank and the stage.\<close>

definition same_chunk :: "hit \<Rightarrow> hit \<Rightarrow> bool" where
  "same_chunk a b \<longleftrightarrow> h_chunk a = h_chunk b \<and> h_document a = h_document b
    \<and> h_content a = h_content b \<and> h_title a = h_title b \<and> h_url a = h_url b
    \<and> h_meta a = h_meta b"

lemma same_chunk_with_score [simp]: "same_chunk (with_score h s r src) h"
  by (simp add: same_chunk_def)

section \<open>The fusion loop\<close>

record rrf_state =
  rr_scores :: "(ustr, rat) dict"
  rr_exemplars :: "(ustr, hit) dict"
  rr_origins :: "(ustr, ustr list) dict"

definition rrf_add :: "int \<Rightarrow> nat \<Rightarrow> hit \<Rightarrow> rrf_state \<Rightarrow> rrf_state" where
  "rrf_add k r h st =
    (let c = h_chunk h in
     st\<lparr>rr_scores := dset c (dget_or (rr_scores st) c 0 + 1 / of_int (k + int r)) (rr_scores st),
        rr_exemplars :=
          (if c \<in> set (dkeys (rr_exemplars st)) then rr_exemplars st
           else dset c h (rr_exemplars st)),
        rr_origins := dset c (List.insert (h_source h) (dget_or (rr_origins st) c [])) (rr_origins st)\<rparr>)"

fun rrf_ranking :: "int \<Rightarrow> ustr list \<Rightarrow> nat \<Rightarrow> hit list \<Rightarrow> rrf_state \<Rightarrow> rrf_state" where
  "rrf_ranking k seen r [] st = st"
| "rrf_ranking k seen r (h # hs) st =
    (if h_chunk h \<in> set seen then rrf_ranking k seen (Suc r) hs st
     else rrf_ranking k (h_chunk h # seen) (Suc r) hs (rrf_add k r h st))"

definition rrf_empty :: rrf_state where
  "rrf_empty = \<lparr>rr_scores = [], rr_exemplars = [], rr_origins = []\<rparr>"

definition rrf_collect :: "int \<Rightarrow> hit list list \<Rightarrow> rrf_state" where
  "rrf_collect k rankings = fold (\<lambda>hs st. rrf_ranking k [] 1 hs st) rankings rrf_empty"

definition rrf_order :: "(ustr, rat) dict \<Rightarrow> ustr list" where
  "rrf_order scores = sort_key (\<lambda>c. (- dget_or scores c 0, c)) (dkeys scores)"

fun rrf_hit :: "rrf_state \<Rightarrow> nat \<times> ustr \<Rightarrow> exn + hit" where
  "rrf_hit st (r, c) =
    (case dget (rr_exemplars st) c of
       None \<Rightarrow> Inl (KeyError ''chunk_id'')
     | Some h \<Rightarrow> Inr (with_score h (dget_or (rr_scores st) c 0) r
         (join (asc ''+'') (sort (dget_or (rr_origins st) c [])))))"

definition reciprocal_rank_fusion :: "int \<Rightarrow> int option \<Rightarrow> hit list list \<Rightarrow> exn + hit list" where
  "reciprocal_rank_fusion k limit rankings =
    (if k \<le> 0 then Inl (ValueError ''rrf_k must be positive'')
     else
       let st = rrf_collect k rankings;
           ordered = rrf_order (rr_scores st);
           cut = (case limit of None \<Rightarrow> ordered | Some n \<Rightarrow> take (nat (max 0 n)) ordered)
       in rmap (rrf_hit st) (enum_from 1 cut))"

section \<open>The abstract score\<close>

fun contrib :: "int \<Rightarrow> ustr \<Rightarrow> nat \<Rightarrow> hit list \<Rightarrow> rat" where
  "contrib k c r [] = 0"
| "contrib k c r (h # hs) = (if h_chunk h = c then 1 / of_int (k + int r) else contrib k c (Suc r) hs)"

definition rrf_score :: "int \<Rightarrow> hit list list \<Rightarrow> ustr \<Rightarrow> rat" where
  "rrf_score k rankings c = (\<Sum>hs\<leftarrow>rankings. contrib k c 1 hs)"

definition ranked_chunks :: "hit list list \<Rightarrow> ustr set" where
  "ranked_chunks rankings = (\<Union>hs \<in> set rankings. h_chunk ` set hs)"

lemma contrib_nonneg: "0 < k \<Longrightarrow> 0 \<le> contrib k c r hs"
  by (induction hs arbitrary: r) auto

lemma contrib_absent: "c \<notin> h_chunk ` set hs \<Longrightarrow> contrib k c r hs = 0"
  by (induction hs arbitrary: r) auto

lemma contrib_pos: "0 < k \<Longrightarrow> c \<in> h_chunk ` set hs \<Longrightarrow> 0 < contrib k c r hs"
  by (induction hs arbitrary: r) auto

lemma contrib_le: "0 < k \<Longrightarrow> contrib k c r hs \<le> 1 / of_int (k + int r)"
proof (induction hs arbitrary: r)
  case Nil
  then show ?case by simp
next
  case (Cons h hs)
  have "contrib k c (Suc r) hs \<le> 1 / of_int (k + int (Suc r))" using Cons by blast
  also have "\<dots> \<le> 1 / of_int (k + int r)"
    using Cons.prems by (simp add: frac_le)
  finally show ?case by simp
qed

section \<open>The loop computes the abstract score\<close>

lemma rrf_add_score:
  "dget_or (rr_scores (rrf_add k r h st)) c 0 =
    dget_or (rr_scores st) c 0 + (if h_chunk h = c then 1 / of_int (k + int r) else 0)"
  by (auto simp: rrf_add_def Let_def dget_or_def dget_dset)

lemma rrf_ranking_score:
  "dget_or (rr_scores (rrf_ranking k seen r hs st)) c 0 =
    dget_or (rr_scores st) c 0 + (if c \<in> set seen then 0 else contrib k c r hs)"
  by (induction k seen r hs st rule: rrf_ranking.induct)
    (auto simp: rrf_add_score)

lemma rrf_collect_score: "dget_or (rr_scores (rrf_collect k rankings)) c 0 = rrf_score k rankings c"
proof -
  have "dget_or (rr_scores (fold (\<lambda>hs st. rrf_ranking k [] 1 hs st) rankings st)) c 0 =
      dget_or (rr_scores st) c 0 + rrf_score k rankings c" for st
    by (induction rankings arbitrary: st) (simp_all add: rrf_score_def rrf_ranking_score)
  then show ?thesis by (simp add: rrf_collect_def rrf_empty_def dget_or_def)
qed

definition rrf_inv :: "hit set \<Rightarrow> ustr set \<Rightarrow> rrf_state \<Rightarrow> bool" where
  "rrf_inv H C st \<longleftrightarrow> distinct (dkeys (rr_scores st)) \<and> set (dkeys (rr_scores st)) = C
    \<and> set (dkeys (rr_exemplars st)) = C
    \<and> (\<forall>c h. dget (rr_exemplars st) c = Some h \<longrightarrow> h \<in> H \<and> h_chunk h = c)"

lemma rrf_add_inv:
  "rrf_inv H C st \<Longrightarrow> h \<in> H \<Longrightarrow> rrf_inv H (insert (h_chunk h) C) (rrf_add k r h st)"
  by (auto simp: rrf_inv_def rrf_add_def Let_def dget_dset fst_set_dset distinct_update
      split: if_splits)

lemma rrf_ranking_inv:
  "rrf_inv H C st \<Longrightarrow> set hs \<subseteq> H \<Longrightarrow> set seen \<subseteq> C \<Longrightarrow>
    rrf_inv H (C \<union> h_chunk ` set hs) (rrf_ranking k seen r hs st)"
proof (induction k seen r hs st arbitrary: C rule: rrf_ranking.induct)
  case (1 k seen r st)
  then show ?case by simp
next
  case (2 k seen r h hs st)
  show ?case
  proof (cases "h_chunk h \<in> set seen")
    case True
    with 2 have "rrf_inv H (C \<union> h_chunk ` set hs) (rrf_ranking k seen (Suc r) hs st)" by simp
    moreover have "C \<union> h_chunk ` set (h # hs) = C \<union> h_chunk ` set hs" using True 2 by auto
    ultimately show ?thesis using True by simp
  next
    case False
    have "rrf_inv H (insert (h_chunk h) C) (rrf_add k r h st)"
      using "2.prems" by (intro rrf_add_inv) auto
    then have "rrf_inv H (insert (h_chunk h) C \<union> h_chunk ` set hs)
        (rrf_ranking k (h_chunk h # seen) (Suc r) hs (rrf_add k r h st))"
      using False "2.prems" by (intro "2.IH"(2)) auto
    then show ?thesis using False by simp
  qed
qed

lemma rrf_collect_inv:
  "rrf_inv (\<Union> (set ` set rankings)) (ranked_chunks rankings) (rrf_collect k rankings)"
proof -
  have "rrf_inv H C st \<Longrightarrow> \<Union> (set ` set rs) \<subseteq> H \<Longrightarrow>
      rrf_inv H (C \<union> ranked_chunks rs) (fold (\<lambda>hs st. rrf_ranking k [] 1 hs st) rs st)" for H C st rs
  proof (induction rs arbitrary: C st)
    case Nil
    then show ?case by (simp add: ranked_chunks_def)
  next
    case (Cons hs rs)
    have "rrf_inv H (C \<union> h_chunk ` set hs) (rrf_ranking k [] 1 hs st)"
      using Cons.prems by (intro rrf_ranking_inv) auto
    then have "rrf_inv H ((C \<union> h_chunk ` set hs) \<union> ranked_chunks rs)
        (fold (\<lambda>hs st. rrf_ranking k [] 1 hs st) rs (rrf_ranking k [] 1 hs st))"
      using Cons.prems by (intro Cons.IH) auto
    then show ?case by (simp add: ranked_chunks_def Un_assoc)
  qed
  from this [of "\<Union> (set ` set rankings)" "{}" rrf_empty rankings] show ?thesis
    by (simp add: rrf_collect_def rrf_inv_def rrf_empty_def)
qed

section \<open>The fused list\<close>

lemma rrf_order_props:
  assumes "distinct (dkeys scores)"
  shows "distinct (rrf_order scores)" and "set (rrf_order scores) = set (dkeys scores)"
    and "sorted (map (\<lambda>c. (- dget_or scores c 0, c)) (rrf_order scores))"
  using assms by (simp_all add: rrf_order_def)

definition fused_ok :: "int \<Rightarrow> hit list list \<Rightarrow> hit list \<Rightarrow> bool" where
  "fused_ok k rankings out \<longleftrightarrow>
    distinct (map h_chunk out)
    \<and> sorted (map (\<lambda>h. (- h_score h, h_chunk h)) out)
    \<and> map h_rank out = [1..<Suc (length out)]
    \<and> (\<forall>h \<in> set out. h_score h = rrf_score k rankings (h_chunk h)
          \<and> (\<exists>g \<in> \<Union> (set ` set rankings). same_chunk h g))"

lemma rmap_total:
  "(\<And>x. x \<in> set xs \<Longrightarrow> f x = Inr (g x)) \<Longrightarrow> rmap f xs = Inr (map g xs)"
  by (induction xs) auto

lemma rrf_total:
  fixes k :: int and rankings :: "hit list list" and limit :: "int option"
  assumes k: "0 < k"
  defines "st \<equiv> rrf_collect k rankings"
  obtains g cut where
    "reciprocal_rank_fusion k limit rankings = Inr (map g (enum_from 1 cut))"
    "cut = (case limit of None \<Rightarrow> rrf_order (rr_scores st)
       | Some n \<Rightarrow> take (nat (max 0 n)) (rrf_order (rr_scores st)))"
    "\<And>r c. c \<in> ranked_chunks rankings \<Longrightarrow> h_chunk (g (r, c)) = c \<and> h_rank (g (r, c)) = r
      \<and> h_score (g (r, c)) = rrf_score k rankings c
      \<and> (\<exists>h \<in> \<Union> (set ` set rankings). same_chunk (g (r, c)) h)"
proof -
  define cut where "cut = (case limit of None \<Rightarrow> rrf_order (rr_scores st)
       | Some n \<Rightarrow> take (nat (max 0 n)) (rrf_order (rr_scores st)))"
  define g where "g = (\<lambda>rc. projr (rrf_hit st rc))"
  have inv: "rrf_inv (\<Union> (set ` set rankings)) (ranked_chunks rankings) st"
    unfolding st_def by (rule rrf_collect_inv)
  have ex: "\<exists>h. dget (rr_exemplars st) c = Some h \<and> h \<in> \<Union> (set ` set rankings) \<and> h_chunk h = c"
    if "c \<in> ranked_chunks rankings" for c
  proof -
    have "c \<in> set (dkeys (rr_exemplars st))" using inv that by (simp add: rrf_inv_def)
    then obtain h where "dget (rr_exemplars st) c = Some h"
      by (metis map_of_eq_None_iff not_None_eq set_map)
    then show ?thesis using inv unfolding rrf_inv_def by blast
  qed
  have g: "h_chunk (g (r, c)) = c \<and> h_rank (g (r, c)) = r
      \<and> h_score (g (r, c)) = rrf_score k rankings c
      \<and> (\<exists>h \<in> \<Union> (set ` set rankings). same_chunk (g (r, c)) h)"
    and hit: "rrf_hit st (r, c) = Inr (g (r, c))" if c: "c \<in> ranked_chunks rankings" for r c
    using ex [OF c] by (auto simp: g_def st_def rrf_collect_score intro!: bexI)
  have "set (rrf_order (rr_scores st)) = ranked_chunks rankings"
    using inv by (simp add: rrf_order_def rrf_inv_def)
  then have "set cut \<subseteq> ranked_chunks rankings"
    unfolding cut_def by (auto split: option.splits dest: in_set_takeD)
  then have "rrf_hit st rc = Inr (g rc)" if "rc \<in> set (enum_from 1 cut)" for rc
  proof -
    have "snd rc \<in> set cut" using that by (rule snd_set_enumerate)
    then have "snd rc \<in> ranked_chunks rankings" using \<open>set cut \<subseteq> ranked_chunks rankings\<close> by blast
    then show ?thesis using hit by (metis prod.collapse)
  qed
  then have "rmap (rrf_hit st) (enum_from 1 cut) = Inr (map g (enum_from 1 cut))"
    by (rule rmap_total)
  then have "reciprocal_rank_fusion k limit rankings = Inr (map g (enum_from 1 cut))"
    using k by (simp add: reciprocal_rank_fusion_def Let_def flip: st_def cut_def)
  then show ?thesis using that g cut_def by blast
qed

lemma rrf_result:
  assumes k: "0 < k" and r: "reciprocal_rank_fusion k limit rankings = Inr out"
  shows "fused_ok k rankings out"
    and "h_chunk ` set out \<subseteq> ranked_chunks rankings"
    and "limit = None \<Longrightarrow> h_chunk ` set out = ranked_chunks rankings"
    and "limit = Some n \<Longrightarrow> length out = min (nat (max 0 n)) (card (ranked_chunks rankings))"
proof -
  define st where "st = rrf_collect k rankings"
  obtain g cut where
    res: "reciprocal_rank_fusion k limit rankings = Inr (map g (enum_from 1 cut))" and
    cut: "cut = (case limit of None \<Rightarrow> rrf_order (rr_scores st)
       | Some n \<Rightarrow> take (nat (max 0 n)) (rrf_order (rr_scores st)))" and
    g: "\<And>r c. c \<in> ranked_chunks rankings \<Longrightarrow> h_chunk (g (r, c)) = c \<and> h_rank (g (r, c)) = r
      \<and> h_score (g (r, c)) = rrf_score k rankings c
      \<and> (\<exists>h \<in> \<Union> (set ` set rankings). same_chunk (g (r, c)) h)"
    using rrf_total [OF k] unfolding st_def by metis
  from res r have out: "out = map g (enum_from 1 cut)" by simp
  have inv: "rrf_inv (\<Union> (set ` set rankings)) (ranked_chunks rankings) st"
    unfolding st_def by (rule rrf_collect_inv)
  let ?key = "\<lambda>c. (- rrf_score k rankings c, c)"
  have ord: "distinct (rrf_order (rr_scores st))"
    "set (rrf_order (rr_scores st)) = ranked_chunks rankings"
    "sorted (map ?key (rrf_order (rr_scores st)))"
    using rrf_order_props [of "rr_scores st"] inv
    by (simp_all add: rrf_inv_def st_def rrf_collect_score)
  have c: "distinct cut" "set cut \<subseteq> ranked_chunks rankings" "sorted (map ?key cut)"
    using ord cut by (auto split: option.splits simp: sorted_wrt_take simp flip: take_map
        dest: in_set_takeD)
  have nth: "out ! i = g (Suc i, cut ! i)" if "i < length cut" for i
    using that by (simp add: out nth_enumerate_eq)
  have len: "length out = length cut" by (simp add: out)
  have mem: "cut ! i \<in> ranked_chunks rankings" if "i < length cut" for i
    using that c(2) nth_mem by blast
  have ids: "map h_chunk out = cut"
    by (rule nth_equalityI) (simp_all add: len nth g mem)
  moreover have "map (\<lambda>h. (- h_score h, h_chunk h)) out = map ?key cut"
    by (rule nth_equalityI) (simp_all add: len nth g mem)
  moreover have "map h_rank out = [1..<Suc (length out)]"
    by (rule nth_equalityI) (simp_all add: len nth g mem del: upt_Suc)
  moreover have "h_score h = rrf_score k rankings (h_chunk h)
      \<and> (\<exists>g \<in> \<Union> (set ` set rankings). same_chunk h g)" if "h \<in> set out" for h
  proof -
    from that obtain i where "i < length cut" "h = g (Suc i, cut ! i)"
      by (auto simp: in_set_conv_nth len nth)
    then show ?thesis using g mem by auto
  qed
  ultimately show "fused_ok k rankings out" using c by (simp add: fused_ok_def)
  have set_ids: "h_chunk ` set out = set cut" using ids by (metis set_map)
  show "h_chunk ` set out \<subseteq> ranked_chunks rankings" using c set_ids by simp
  show "limit = None \<Longrightarrow> h_chunk ` set out = ranked_chunks rankings"
    using ord(2) cut set_ids by simp
  have "length (rrf_order (rr_scores st)) = card (ranked_chunks rankings)"
    using ord(1,2) by (metis distinct_card)
  then show "limit = Some n \<Longrightarrow> length out = min (nat (max 0 n)) (card (ranked_chunks rankings))"
    using cut len by (simp add: min.commute)
qed

section \<open>Agreement of the rankings\<close>

text \<open>\<open>c\<close> is ranked at least as well as \<open>d\<close> in a ranking that starts at rank \<open>r\<close>.\<close>

fun first_rank :: "ustr \<Rightarrow> hit list \<Rightarrow> nat option" where
  "first_rank c [] = None"
| "first_rank c (h # hs) = (if h_chunk h = c then Some 0 else map_option Suc (first_rank c hs))"

definition ranked_before :: "ustr \<Rightarrow> ustr \<Rightarrow> hit list \<Rightarrow> bool" where
  "ranked_before c d hs \<longleftrightarrow> (case (first_rank c hs, first_rank d hs) of
     (_, None) \<Rightarrow> True
   | (None, Some _) \<Rightarrow> False
   | (Some i, Some j) \<Rightarrow> i \<le> j)"

lemma contrib_first_rank:
  "contrib k c r hs = (case first_rank c hs of None \<Rightarrow> 0 | Some i \<Rightarrow> 1 / of_int (k + int (r + i)))"
  by (induction hs arbitrary: r) (auto split: option.splits)

lemma contrib_ranked_before:
  assumes "0 < k" "ranked_before c d hs"
  shows "contrib k d r hs \<le> contrib k c r hs"
proof (cases "first_rank d hs")
  case None
  then show ?thesis using contrib_nonneg [OF assms(1)] by (simp add: contrib_first_rank [of k d])
next
  case (Some j)
  with assms(2) obtain i where "first_rank c hs = Some i" "i \<le> j"
    by (auto simp: ranked_before_def split: option.splits)
  with Some assms(1) show ?thesis by (simp add: contrib_first_rank frac_le)
qed

lemma rrf_score_mono:
  assumes "0 < k" "\<And>hs. hs \<in> set rankings \<Longrightarrow> ranked_before c d hs"
  shows "rrf_score k rankings d \<le> rrf_score k rankings c"
  unfolding rrf_score_def using assms(2)
  by (intro sum_list_mono contrib_ranked_before assms(1)) auto

lemma sum_list_strict:
  fixes f g :: "'a \<Rightarrow> 'b::linordered_idom"
  assumes "\<And>x. x \<in> set xs \<Longrightarrow> f x \<le> g x" "x \<in> set xs" "f x < g x"
  shows "sum_list (map f xs) < sum_list (map g xs)"
  using assms
proof (induction xs)
  case Nil
  then show ?case by simp
next
  case (Cons y ys)
  have le: "sum_list (map f ys) \<le> sum_list (map g ys)"
    using Cons.prems by (intro sum_list_mono) auto
  show ?case
  proof (cases "x = y")
    case True
    then show ?thesis using Cons.prems le by (simp add: add_less_le_mono)
  next
    case False
    then show ?thesis using Cons by (simp add: add_le_less_mono)
  qed
qed

lemma first_rank_inj: "first_rank c hs = Some i \<Longrightarrow> first_rank d hs = Some i \<Longrightarrow> c = d"
  by (induction hs arbitrary: i) (auto split: if_splits)

lemma first_rank_mem: "c \<in> h_chunk ` set hs \<Longrightarrow> \<exists>i. first_rank c hs = Some i"
  by (induction hs) auto

lemma contrib_strict:
  assumes k: "0 < k" and "ranked_before c d hs" "c \<noteq> d" and c: "c \<in> h_chunk ` set hs"
  shows "contrib k d r hs < contrib k c r hs"
proof -
  obtain i where i: "first_rank c hs = Some i" using first_rank_mem [OF c] by blast
  show ?thesis
  proof (cases "first_rank d hs")
    case None
    then show ?thesis using contrib_pos [OF k c] by (simp add: contrib_first_rank [of k d])
  next
    case (Some j)
    have "i \<noteq> j" using first_rank_inj i Some assms(3) by metis
    moreover have "i \<le> j" using assms(2) i Some by (simp add: ranked_before_def)
    ultimately have "i < j" by simp
    then show ?thesis using i Some k by (simp add: contrib_first_rank frac_less2)
  qed
qed

lemma rrf_score_strict:
  assumes k: "0 < k" and agree: "\<And>hs. hs \<in> set rankings \<Longrightarrow> ranked_before c d hs"
    and ne: "c \<noteq> d" and c: "c \<in> ranked_chunks rankings"
  shows "rrf_score k rankings d < rrf_score k rankings c"
proof -
  obtain hs where hs: "hs \<in> set rankings" "c \<in> h_chunk ` set hs"
    using c by (auto simp: ranked_chunks_def)
  show ?thesis
    unfolding rrf_score_def
  proof (rule sum_list_strict [OF _ hs(1)])
    show "contrib k d 1 hs' \<le> contrib k c 1 hs'" if "hs' \<in> set rankings" for hs'
      using k agree that by (intro contrib_ranked_before) auto
    show "contrib k d 1 hs < contrib k c 1 hs"
      using k agree hs ne by (intro contrib_strict) auto
  qed
qed

section \<open>Properties\<close>

text \<open>
  C28. With a positive constant, reciprocal rank fusion always returns a list: no chunk twice,
  ordered by descending score and then by chunk id, ranked 1, 2, ..., each score the sum over
  the rankings of 1/(k + first rank) of the chunk, each hit the text of a retrieved hit; without
  a limit it covers every ranked chunk, with a limit n it has min(max(0, n), number of chunks)
  entries.
\<close>

theorem rrf_fusion:
  assumes "0 < k"
  shows "\<exists>out. reciprocal_rank_fusion k limit rankings = Inr out
    \<and> fused_ok k rankings out
    \<and> h_chunk ` set out \<subseteq> ranked_chunks rankings
    \<and> length out = (case limit of None \<Rightarrow> card (ranked_chunks rankings)
        | Some n \<Rightarrow> min (nat (max 0 n)) (card (ranked_chunks rankings)))"
proof -
  obtain out where out: "reciprocal_rank_fusion k limit rankings = Inr out"
    using rrf_total [OF assms] by metis
  note r = rrf_result [OF assms out]
  have "length out = card (ranked_chunks rankings)" if "limit = None"
  proof -
    have "card (h_chunk ` set out) = length (map h_chunk out)"
      using r(1) by (metis distinct_card fused_ok_def set_map)
    then show ?thesis using r(3) [OF that] by simp
  qed
  then show ?thesis using out r(1,2,4) by (auto split: option.splits)
qed

definition sample_hit :: "string \<Rightarrow> rat \<Rightarrow> string \<Rightarrow> hit" where
  "sample_hit c s src = \<lparr>h_chunk = asc c, h_document = asc ''d'', h_content = asc ''text'',
     h_title = asc ''title'', h_url = asc ''u'', h_score = s, h_rank = 0, h_source = asc src,
     h_meta = []\<rparr>"

lemma rrf_fusion_witness:
  "\<exists>out. reciprocal_rank_fusion 60 (Some 1)
      [[sample_hit ''a'' 2 ''bm25'', sample_hit ''b'' 1 ''bm25''], [sample_hit ''b'' 1 ''vector'']] = Inr out
    \<and> fused_ok 60 [[sample_hit ''a'' 2 ''bm25'', sample_hit ''b'' 1 ''bm25''], [sample_hit ''b'' 1 ''vector'']] out
    \<and> length out = 1"
  using rrf_fusion [of 60 "Some 1"
    "[[sample_hit ''a'' 2 ''bm25'', sample_hit ''b'' 1 ''bm25''], [sample_hit ''b'' 1 ''vector'']]"]
  by (auto simp: ranked_chunks_def sample_hit_def asc_def card_insert_if)

theorem rrf_consensus:
  assumes k: "0 < k" and fusion: "reciprocal_rank_fusion k limit rankings = Inr out"
    and agree: "\<And>hs. hs \<in> set rankings \<Longrightarrow> ranked_before c d hs"
    and at: "i < length out" "j < length out" "h_chunk (out ! i) = c" "h_chunk (out ! j) = d"
    and ne: "c \<noteq> d"
  shows "i < j"
proof (rule ccontr)
  assume "\<not> i < j"
  moreover have "i \<noteq> j" using at ne by auto
  ultimately have ji: "j < i" by simp
  have ok: "fused_ok k rankings out" using rrf_result [OF k fusion] by blast
  then have "(- h_score (out ! j), h_chunk (out ! j)) \<le> (- h_score (out ! i), h_chunk (out ! i))"
    using sorted_nth_mono [of "map (\<lambda>h. (- h_score h, h_chunk h)) out" j i] at ji
    by (simp add: fused_ok_def)
  then have "h_score (out ! i) \<le> h_score (out ! j)" by (auto simp: less_eq_prod_def)
  moreover have "h_score (out ! i) = rrf_score k rankings c"
    and "h_score (out ! j) = rrf_score k rankings d"
    using ok at nth_mem unfolding fused_ok_def by metis+
  moreover have "c \<in> ranked_chunks rankings"
    using rrf_result(2) [OF k fusion] at(1,3) nth_mem by blast
  then have "rrf_score k rankings d < rrf_score k rankings c"
    using rrf_score_strict [OF k agree ne] by blast
  ultimately show False by simp
qed

lemma rrf_consensus_witness:
  defines "a \<equiv> sample_hit ''a'' 1 ''bm25''" and "b \<equiv> sample_hit ''b'' 1 ''bm25''"
  shows "\<exists>out. reciprocal_rank_fusion 60 None [[a, b], [a]] = Inr out \<and> length out = 2
    \<and> h_chunk (out ! 0) = asc ''a'' \<and> h_chunk (out ! 1) = asc ''b'' \<and> (0::nat) < 1"
proof -
  obtain out where out: "reciprocal_rank_fusion 60 None [[a, b], [a]] = Inr out"
    and len: "length out = 2" and ids: "map h_chunk out = [asc ''a'', asc ''b'']"
  proof
    show "reciprocal_rank_fusion 60 None [[a, b], [a]] =
        Inr [with_score a (1 / 61 + 1 / 61) 1 (asc ''bm25''), with_score b (1 / 62) 2 (asc ''bm25'')]"
      unfolding a_def b_def by code_simp
  qed (simp_all add: a_def b_def sample_hit_def)
  have at: "h_chunk (out ! 0) = asc ''a''" "h_chunk (out ! 1) = asc ''b''"
    using ids len by (metis One_nat_def length_map nth_Cons_0 nth_Cons_Suc nth_map pos2,
        metis One_nat_def length_map nth_Cons_0 nth_Cons_Suc nth_map one_less_numeral_iff semiring_norm(76))
  have "(0::nat) < 1"
    by (rule rrf_consensus [OF _ out, of "asc ''a''" "asc ''b''" 0 1])
      (use at len in \<open>auto simp: a_def b_def sample_hit_def ranked_before_def asc_def\<close>)
  then show ?thesis using out len at by blast
qed

end
