(* ===== verification/Search.thy ===== *)
theory Search
  imports Retrieval
begin

text \<open>
  The two sources of hits: \<open>backend/app/bm25/index.py\<close> and the in-memory vector store of
  \<open>backend/app/vector_store/store.py\<close>. The locale \<open>hit_source\<close> is what the retrieval engine
  relies on: at most \<open>top_k\<close> hits, no chunk twice, ranks 1, 2, ..., scores that never
  increase. \<open>BM25Okapi\<close> is a third-party package: its \<open>get_scores\<close> is a parameter, and what the
  code relies on is that it returns one score per document. \<open>math.sqrt\<close> is the parameter \<open>fsqrt\<close>
  of the cosine, since it leaves the rationals.
\<close>

section \<open>What the engine relies on\<close>

definition ranked_hits :: "hit list \<Rightarrow> bool" where
  "ranked_hits hs \<longleftrightarrow> distinct (map h_chunk hs) \<and> map h_rank hs = [1..<Suc (length hs)]
    \<and> sorted (map (\<lambda>h. - h_score h) hs)"

locale hit_source =
  fixes inv :: "'s \<Rightarrow> bool"
    and find :: "'s \<Rightarrow> 'q \<Rightarrow> int \<Rightarrow> pydict \<Rightarrow> exn + hit list"
    and admits :: "pydict \<Rightarrow> hit \<Rightarrow> bool"
  assumes found_ranked: "inv s \<Longrightarrow> find s q k fs = Inr hs \<Longrightarrow> ranked_hits hs"
    and found_bound: "inv s \<Longrightarrow> find s q k fs = Inr hs \<Longrightarrow> int (length hs) \<le> max 0 k"
    and found_admitted: "inv s \<Longrightarrow> find s q k fs = Inr hs \<Longrightarrow> h \<in> set hs \<Longrightarrow> admits fs h"
begin

lemma found_distinct: "inv s \<Longrightarrow> find s q k fs = Inr hs \<Longrightarrow> distinct (map h_chunk hs)"
  using found_ranked by (simp add: ranked_hits_def)

lemma found_nonpos: "inv s \<Longrightarrow> find s q k fs = Inr hs \<Longrightarrow> k \<le> 0 \<Longrightarrow> hs = []"
  using found_bound by fastforce

lemma found_score_antimono:
  assumes "inv s" "find s q k fs = Inr hs" "i \<le> j" "j < length hs"
  shows "h_score (hs ! j) \<le> h_score (hs ! i)"
proof -
  have "sorted (map (\<lambda>h. - h_score h) hs)"
    using found_ranked [OF assms(1,2)] by (simp add: ranked_hits_def)
  then have "- h_score (hs ! i) \<le> - h_score (hs ! j)"
    using sorted_nth_mono [of "map (\<lambda>h. - h_score h) hs" i j] assms(3,4) by simp
  then show ?thesis by simp
qed

lemma found_admitted_all: "inv s \<Longrightarrow> find s q k fs = Inr hs \<Longrightarrow> list_all (admits fs) hs"
  using found_admitted by (simp add: list_all_iff)

end

section \<open>Metadata filters\<close>

fun filter_holds :: "pydict \<Rightarrow> string \<times> pyval \<Rightarrow> bool" where
  "filter_holds m (key, expected) =
    (let base = take (length key - 4) key; v = pget m base in
     if suffix ''_gte'' key then v \<noteq> PNone \<and> \<not> py_str v < py_str expected
     else if suffix ''_lte'' key then v \<noteq> PNone \<and> \<not> py_str expected < py_str v
     else py_eq (pget m key) expected)"

definition matches :: "pydict \<Rightarrow> pydict \<Rightarrow> bool" where
  "matches m fs = list_all (filter_holds m) fs"

section \<open>The BM25 index\<close>

record bm25_doc =
  b_chunk :: ustr
  b_document :: ustr
  b_title :: ustr
  b_content :: ustr
  b_url :: ustr
  b_meta :: pydict

record bm25_index =
  bi_docs :: "bm25_doc list"
  bi_tokens :: "ustr list list"
  bi_ready :: bool

definition token_rx :: rx where
  "token_rx = Alt (rplus (Cls False [(65, 90), (97, 122), (48, 57)])) (Cls False cjk_class)"

definition tokenize :: "ustr \<Rightarrow> ustr list" where
  "tokenize s = map lower (re_findall token_rx s)"

definition rebuild :: "bm25_doc list \<Rightarrow> bm25_index" where
  "rebuild docs =
    (let toks = map (\<lambda>d. tokenize (b_title d @ asc '' '' @ b_content d)) docs
     in \<lparr>bi_docs = docs, bi_tokens = toks, bi_ready = (toks \<noteq> [])\<rparr>)"

definition normalize_scores :: "rat list \<Rightarrow> rat list" where
  "normalize_scores scores =
    (if scores = [] then []
     else
       let lo = Min (set scores); hi = Max (set scores) in
       if hi = lo then replicate (length scores) 1
       else map (\<lambda>s. (s - lo) / (hi - lo)) scores)"

definition bm25_candidates ::
    "bm25_index \<Rightarrow> rat list \<Rightarrow> ustr list \<Rightarrow> pydict \<Rightarrow> (rat \<times> bm25_doc) list" where
  "bm25_candidates idx scores query_tokens fs =
    sort_key (\<lambda>(s, d). (- s, b_chunk d))
      (map (\<lambda>(s, d, t). (s, d))
        (filter (\<lambda>(s, d, toks). list_ex (\<lambda>t. t \<in> set toks) query_tokens \<and> matches (b_meta d) fs)
          (zip scores (zip (bi_docs idx) (bi_tokens idx)))))"

fun bm25_hit :: "nat \<times> bm25_doc \<times> rat \<Rightarrow> hit" where
  "bm25_hit (r, d, s) = \<lparr>h_chunk = b_chunk d, h_document = b_document d, h_content = b_content d,
     h_title = b_title d, h_url = b_url d, h_score = s, h_rank = r, h_source = asc ''bm25'',
     h_meta = b_meta d\<rparr>"

definition bm25_search :: "(ustr list list \<Rightarrow> ustr list \<Rightarrow> rat list) \<Rightarrow> bm25_index \<Rightarrow>
    ustr \<Rightarrow> int \<Rightarrow> pydict \<Rightarrow> hit list" where
  "bm25_search get_scores idx query k fs =
    (if \<not> bi_ready idx \<or> k \<le> 0 then []
     else
       let query_tokens = tokenize query;
           cands = bm25_candidates idx (get_scores (bi_tokens idx) query_tokens) query_tokens fs;
           norm = normalize_scores (map fst cands)
       in map bm25_hit (enum_from 1 (py_take k (zip (map snd cands) norm))))"

subsection \<open>Score normalisation\<close>

lemma length_normalize [simp]: "length (normalize_scores xs) = length xs"
  by (simp add: normalize_scores_def Let_def)

lemma normalize_affine:
  "\<exists>a b. 0 \<le> a \<and> normalize_scores xs = map (\<lambda>s. a * s + b) xs"
proof (cases "xs = [] \<or> Max (set xs) = Min (set xs)")
  case True
  then have "normalize_scores xs = map (\<lambda>s. 0 * s + 1) xs"
    by (auto simp: normalize_scores_def map_replicate_const)
  then show ?thesis by (intro exI [of _ 0] exI [of _ 1]) simp
next
  case False
  let ?lo = "Min (set xs)" and ?hi = "Max (set xs)"
  have "?lo < ?hi" using False by (simp add: order.not_eq_order_implies_strict)
  have "normalize_scores xs = map (\<lambda>s. (s - ?lo) / (?hi - ?lo)) xs"
    using False by (simp add: normalize_scores_def Let_def)
  also have "\<dots> = map (\<lambda>s. (1 / (?hi - ?lo)) * s + (- ?lo / (?hi - ?lo))) xs"
    by (simp add: diff_divide_distrib)
  finally have eq: "normalize_scores xs = map (\<lambda>s. (1 / (?hi - ?lo)) * s + (- ?lo / (?hi - ?lo))) xs" .
  have "0 \<le> 1 / (?hi - ?lo)" using \<open>?lo < ?hi\<close> by simp
  then show ?thesis using eq by blast
qed

lemma normalize_sorted:
  assumes "sorted (map (\<lambda>s. - s) xs)"
  shows "sorted (map (\<lambda>s. - s) (normalize_scores xs))"
proof -
  obtain a b where ab: "0 \<le> a" "normalize_scores xs = map (\<lambda>s. a * s + b) xs"
    using normalize_affine by blast
  from assms have "sorted_wrt (\<lambda>x y. - x \<le> - y) xs" by (simp add: sorted_map)
  then have "sorted_wrt (\<lambda>x y. - (a * x + b) \<le> - (a * y + b)) xs"
    by (rule sorted_wrt_mono_rel [rotated]) (use ab in \<open>simp add: mult_left_mono\<close>)
  then show ?thesis using ab by (simp add: sorted_map o_def)
qed

lemma normalize_unit: "s \<in> set (normalize_scores xs) \<Longrightarrow> 0 \<le> s \<and> s \<le> 1"
proof -
  assume s: "s \<in> set (normalize_scores xs)"
  show ?thesis
  proof (cases "xs = [] \<or> Max (set xs) = Min (set xs)")
    case True
    with s show ?thesis by (auto simp: normalize_scores_def split: if_splits)
  next
    case False
    then have lt: "Min (set xs) < Max (set xs)" by (simp add: order.not_eq_order_implies_strict)
    from s False obtain x where "x \<in> set xs" "s = (x - Min (set xs)) / (Max (set xs) - Min (set xs))"
      by (auto simp: normalize_scores_def Let_def)
    moreover from this have "Min (set xs) \<le> x" "x \<le> Max (set xs)" by simp_all
    ultimately show ?thesis using lt by (simp add: divide_le_eq)
  qed
qed

lemma normalize_max: "xs \<noteq> [] \<Longrightarrow> 1 \<in> set (normalize_scores xs)"
  by (auto simp: normalize_scores_def Let_def intro!: image_eqI [of _ _ "Max (set xs)"])

subsection \<open>The result list\<close>

lemma bm25_candidates_sorted:
  "sorted (map (\<lambda>s. - s) (map fst (bm25_candidates idx scores qt fs)))"
proof -
  have "sorted (map (\<lambda>(s, d). (- s, b_chunk d)) (bm25_candidates idx scores qt fs))"
    by (simp add: bm25_candidates_def)
  then have "sorted_wrt (\<lambda>x y. (- fst x, b_chunk (snd x)) \<le> (- fst y, b_chunk (snd y)))
      (bm25_candidates idx scores qt fs)"
    by (simp add: sorted_map case_prod_beta)
  then show ?thesis
    by (simp add: sorted_map) (erule sorted_wrt_mono_rel [rotated], auto simp: less_eq_prod_def)
qed

lemma bm25_candidates_mem:
  assumes "(s, d) \<in> set (bm25_candidates idx scores qt fs)"
  shows "d \<in> set (bi_docs idx) \<and> matches (b_meta d) fs \<and>
    (\<exists>toks. (d, toks) \<in> set (zip (bi_docs idx) (bi_tokens idx)) \<and> set qt \<inter> set toks \<noteq> {})"
  using assms unfolding bm25_candidates_def
  by (auto simp: list_ex_iff dest!: set_zip_rightD [of _ _ scores] dest: set_zip_leftD)

lemma distinct_map_snd_candidates:
  assumes "distinct (map b_chunk (bi_docs idx))"
  shows "distinct (map b_chunk (map snd (bm25_candidates idx scores qt fs)))"
proof -
  let ?z = "zip scores (zip (bi_docs idx) (bi_tokens idx))"
  have "map (\<lambda>(s, d, t). b_chunk d) ?z = map b_chunk (map fst (map snd ?z))"
    by (simp add: case_prod_beta o_def)
  also have "\<dots> = map b_chunk (take (length ?z) (bi_docs idx))"
    by (simp add: map_snd_zip_take map_fst_zip_take take_zip min.commute flip: take_map)
  finally have "distinct (map (\<lambda>(s, d, t). b_chunk d) ?z)"
    using assms by (simp flip: take_map)
  then have f: "distinct (map (\<lambda>(s, d, t). b_chunk d) (filter P ?z))" for P
    by (rule distinct_map_filter)
  have "distinct (map (b_chunk \<circ> snd) (map (\<lambda>(s, d, t). (s, d)) (filter P ?z)))" for P
    using f [of P] by (simp add: o_def case_prod_unfold)
  then show ?thesis
    unfolding bm25_candidates_def
    by (metis (no_types, lifting) distinct_map distinct_sort map_map set_sort)
qed

lemma bm25_search_unfold:
  assumes "bi_ready idx" "0 < k"
  obtains cands where
    "cands = bm25_candidates idx (get_scores (bi_tokens idx) (tokenize q)) (tokenize q) fs"
    "bm25_search get_scores idx q k fs = map bm25_hit
      (enum_from 1 (take (nat k) (zip (map snd cands) (normalize_scores (map fst cands)))))"
  using assms by (simp add: bm25_search_def Let_def)

lemma map_enum_hit:
  "map h_chunk (map bm25_hit (enum_from n xs)) = map (b_chunk \<circ> fst) xs"
  "map h_rank (map bm25_hit (enum_from n xs)) = [n..<n + length xs]"
  "map (\<lambda>h. - h_score h) (map bm25_hit (enum_from n xs)) = map (\<lambda>s. - s) (map snd xs)"
proof (induction xs arbitrary: n)
  case (Cons x xs)
  { case 1 show ?case using Cons(1) by (cases x) simp }
  { case 2 show ?case using Cons(2) [of "Suc n"] by (cases x) (simp add: upt_conv_Cons del: upt_Suc) }
  { case 3 show ?case using Cons(3) by (cases x) simp }
qed simp_all

lemma bm25_search_ranked:
  assumes "distinct (map b_chunk (bi_docs idx))"
  shows "ranked_hits (bm25_search get_scores idx q k fs)"
proof (cases "bi_ready idx \<and> 0 < k")
  case False
  then show ?thesis by (auto simp: bm25_search_def ranked_hits_def)
next
  case True
  then obtain cands where
    c: "cands = bm25_candidates idx (get_scores (bi_tokens idx) (tokenize q)) (tokenize q) fs" and
    s: "bm25_search get_scores idx q k fs = map bm25_hit
      (enum_from 1 (take (nat k) (zip (map snd cands) (normalize_scores (map fst cands)))))"
    using bm25_search_unfold by blast
  have "distinct (map b_chunk (map snd cands))"
    unfolding c by (rule distinct_map_snd_candidates [OF assms])
  then have "distinct (map (b_chunk \<circ> fst) (zip (map snd cands) (normalize_scores (map fst cands))))"
    by (simp add: map_fst_zip flip: map_map)
  moreover have "sorted (map (\<lambda>s. - s) (normalize_scores (map fst cands)))"
    unfolding c by (intro normalize_sorted bm25_candidates_sorted)
  then have "sorted (map (\<lambda>s. - s) (map snd (zip (map snd cands) (normalize_scores (map fst cands)))))"
    by (simp add: map_snd_zip)
  ultimately show ?thesis
    unfolding ranked_hits_def s map_enum_hit
    by (simp add: distinct_take sorted_map_take flip: take_map map_map)
qed

lemma bm25_search_length: "int (length (bm25_search get_scores idx q k fs)) \<le> max 0 k"
  by (auto simp: bm25_search_def Let_def)

lemma bm25_search_mem:
  assumes "h \<in> set (bm25_search get_scores idx q k fs)"
  shows "matches (h_meta h) fs \<and> 0 \<le> h_score h \<and> h_score h \<le> 1 \<and>
    (\<exists>d \<in> set (bi_docs idx). h_chunk h = b_chunk d \<and> h_meta h = b_meta d \<and> h_content h = b_content d)"
proof -
  from assms have "bi_ready idx \<and> 0 < k" by (auto simp: bm25_search_def split: if_splits)
  then obtain cands where
    c: "cands = bm25_candidates idx (get_scores (bi_tokens idx) (tokenize q)) (tokenize q) fs" and
    s: "bm25_search get_scores idx q k fs = map bm25_hit
      (enum_from 1 (take (nat k) (zip (map snd cands) (normalize_scores (map fst cands)))))"
    using bm25_search_unfold by blast
  from assms s obtain r d x where h: "h = bm25_hit (r, d, x)" and
    "(r, d, x) \<in> set (enum_from 1 (take (nat k) (zip (map snd cands) (normalize_scores (map fst cands)))))"
    by auto
  then have "(d, x) \<in> set (zip (map snd cands) (normalize_scores (map fst cands)))"
    by (metis in_set_takeD snd_conv snd_set_enumerate)
  then have "d \<in> snd ` set cands" "x \<in> set (normalize_scores (map fst cands))"
    by (auto dest: set_zip_leftD set_zip_rightD)
  then show ?thesis
    using h bm25_candidates_mem normalize_unit unfolding c by fastforce
qed

text \<open>The index as a hit source: the documents of a snapshot have distinct chunk ids.\<close>

definition bm25_inv :: "bm25_index \<Rightarrow> bool" where
  "bm25_inv idx \<longleftrightarrow> distinct (map b_chunk (bi_docs idx))"

interpretation bm25: hit_source bm25_inv
    "\<lambda>idx (get_scores, q) k fs. Inr (bm25_search get_scores idx q k fs)"
    "\<lambda>fs h. matches (h_meta h) fs"
  by unfold_locales
    (auto simp: bm25_inv_def bm25_search_ranked dest: bm25_search_mem split: prod.splits
      intro: order_trans [OF bm25_search_length])

section \<open>The in-memory vector store\<close>

record vpoint =
  p_id :: ustr
  p_vector :: "rat list"
  p_document :: ustr
  p_content :: ustr
  p_title :: ustr
  p_url :: ustr
  p_payload :: pydict

record vstore =
  vs_points :: "(ustr, vpoint) dict"
  vs_dim :: "nat option"

definition vs_ensure :: "int \<Rightarrow> vstore \<Rightarrow> exn + vstore" where
  "vs_ensure d s =
    (if d \<le> 0 then Inl (ValueError ''dimensions must be positive'')
     else if vs_dim s \<noteq> None \<and> vs_dim s \<noteq> Some (nat d)
       then Inl (ValueError ''collection dimensions cannot change'')
     else Inr (s\<lparr>vs_dim := Some (nat d)\<rparr>))"

text \<open>
  The loop over the points fixes the dimension at the first point of an empty collection and
  raises at the first mismatch; the points are stored only after the loop. The state after a
  raise is part of the result: the dimension may have been fixed.
\<close>

fun vs_check :: "vpoint list \<Rightarrow> vstore \<Rightarrow> vstore \<times> bool" where
  "vs_check [] s = (s, True)"
| "vs_check (p # ps) s =
    (let s' = (if vs_dim s = None then s\<lparr>vs_dim := Some (length (p_vector p))\<rparr> else s)
     in if vs_dim s' \<noteq> Some (length (p_vector p)) then (s', False) else vs_check ps s')"

definition vs_upsert :: "vpoint list \<Rightarrow> vstore \<Rightarrow> vstore \<times> (exn + unit)" where
  "vs_upsert ps s =
    (case vs_check ps s of
       (s', False) \<Rightarrow> (s', Inl (ValueError ''vector dimensions do not match the collection''))
     | (s', True) \<Rightarrow>
         (s'\<lparr>vs_points := fold (\<lambda>p. dset (p_id p) p) ps (vs_points s')\<rparr>, Inr ()))"

definition vs_delete :: "ustr list \<Rightarrow> vstore \<Rightarrow> vstore" where
  "vs_delete ids s = s\<lparr>vs_points := filter (\<lambda>(k, p). k \<notin> set ids) (vs_points s)\<rparr>"

definition point_payload :: "vpoint \<Rightarrow> pydict" where
  "point_payload p = dmerge (p_payload p)
    [(''document_id'', PStr (p_document p)), (''content'', PStr (p_content p)),
     (''title'', PStr (p_title p)), (''source_url'', PStr (p_url p))]"

definition vs_count :: "pydict \<Rightarrow> vstore \<Rightarrow> nat" where
  "vs_count fs s = length (filter (\<lambda>(k, p). matches (point_payload p) fs) (vs_points s))"

definition cosine :: "(rat \<Rightarrow> rat) \<Rightarrow> rat list \<Rightarrow> rat list \<Rightarrow> exn + rat" where
  "cosine fsqrt a b =
    (if length a \<noteq> length b then Inl (ValueError ''vectors must have identical dimensions'')
     else
       let na = fsqrt (\<Sum>x\<leftarrow>a. x * x); nb = fsqrt (\<Sum>x\<leftarrow>b. x * x) in
       if na = 0 \<or> nb = 0 then Inr 0
       else Inr ((\<Sum>(x, y)\<leftarrow>zip a b. x * y) / (na * nb)))"

fun point_hit :: "nat \<times> rat \<times> vpoint \<Rightarrow> hit" where
  "point_hit (r, s, p) = \<lparr>h_chunk = p_id p, h_document = p_document p, h_content = p_content p,
     h_title = p_title p, h_url = p_url p, h_score = s, h_rank = r, h_source = asc ''vector'',
     h_meta = p_payload p\<rparr>"

definition vs_search :: "(rat \<Rightarrow> rat) \<Rightarrow> vstore \<Rightarrow> rat list \<Rightarrow> int \<Rightarrow> pydict \<Rightarrow> exn + hit list" where
  "vs_search fsqrt s v k fs =
    rbind (rmap (\<lambda>p. rbind (cosine fsqrt v (p_vector p)) (\<lambda>c. Inr (c, p)))
        (filter (\<lambda>p. matches (point_payload p) fs) (map snd (vs_points s))))
      (\<lambda>cands. Inr (map point_hit
         (enum_from 1 (py_take k (sort_key (\<lambda>(c, p). (- c, p_id p)) cands)))))"

text \<open>Every stored point sits under its id and has the dimension of the collection.\<close>

definition vs_inv :: "vstore \<Rightarrow> bool" where
  "vs_inv s \<longleftrightarrow> distinct (dkeys (vs_points s))
    \<and> (\<forall>(k, p) \<in> set (vs_points s). p_id p = k \<and> vs_dim s = Some (length (p_vector p)))"

lemma vs_ensure_inv: "vs_inv s \<Longrightarrow> vs_ensure d s = Inr s' \<Longrightarrow> vs_inv s'"
  by (auto simp: vs_ensure_def vs_inv_def split: if_splits)

lemma vs_delete_inv: "vs_inv s \<Longrightarrow> vs_inv (vs_delete ids s)"
  by (auto simp: vs_delete_def vs_inv_def distinct_map_filter)

lemma vs_check_props:
  "vs_check ps s = (s', ok) \<Longrightarrow>
    vs_points s' = vs_points s \<and> (vs_dim s \<noteq> None \<longrightarrow> vs_dim s' = vs_dim s) \<and>
    (ok \<longrightarrow> (\<forall>p \<in> set ps. vs_dim s' = Some (length (p_vector p))))"
proof (induction ps s rule: vs_check.induct)
  case (1 s)
  then show ?case by auto
next
  case (2 p ps s)
  then show ?case by (auto simp: Let_def split: if_splits)
qed

lemma vs_store_inv:
  assumes "\<forall>(k, p) \<in> set d. p_id p = k \<and> Q p" "\<forall>p \<in> set ps. Q p" "distinct (dkeys d)"
  shows "distinct (dkeys (fold (\<lambda>p. dset (p_id p) p) ps d)) \<and>
    (\<forall>(k, p) \<in> set (fold (\<lambda>p. dset (p_id p) p) ps d). p_id p = k \<and> Q p)"
  using assms
proof (induction ps arbitrary: d)
  case Nil
  then show ?case by simp
next
  case (Cons p ps)
  have "set (dset (p_id p) p d) \<subseteq> insert (p_id p, p) (set d)"
    by (induction d) auto
  then have "\<forall>(k, q) \<in> set (dset (p_id p) p d). p_id q = k \<and> Q q" using Cons.prems by auto
  moreover have "distinct (dkeys (dset (p_id p) p d))"
    using Cons.prems by (simp add: distinct_update)
  ultimately have "distinct (dkeys (fold (\<lambda>p. dset (p_id p) p) ps (dset (p_id p) p d))) \<and>
      (\<forall>(k, q) \<in> set (fold (\<lambda>p. dset (p_id p) p) ps (dset (p_id p) p d)). p_id q = k \<and> Q q)"
    using Cons.prems(2) by (intro Cons.IH) auto
  then show ?case by simp
qed

lemma vs_upsert_inv:
  assumes "vs_inv s" "vs_upsert ps s = (s', r)"
  shows "vs_inv s'"
proof -
  obtain t ok where t: "vs_check ps s = (t, ok)" by (cases "vs_check ps s")
  note c = vs_check_props [OF t]
  have dim: "\<forall>(k, p) \<in> set (vs_points t). p_id p = k \<and> vs_dim t = Some (length (p_vector p))"
    using assms(1) c by (fastforce simp: vs_inv_def)
  show ?thesis
  proof (cases ok)
    case False
    with assms t c dim show ?thesis by (auto simp: vs_upsert_def vs_inv_def)
  next
    case True
    let ?d = "fold (\<lambda>p. dset (p_id p) p) ps (vs_points t)"
    have "distinct (dkeys ?d) \<and>
        (\<forall>(k, p) \<in> set ?d. p_id p = k \<and> vs_dim t = Some (length (p_vector p)))"
      using assms(1) c dim True by (intro vs_store_inv) (auto simp: vs_inv_def)
    then show ?thesis using assms(2) t True by (auto simp: vs_upsert_def vs_inv_def)
  qed
qed

lemma fold_dset_lookup:
  "dget (fold (\<lambda>p. dset (p_id p) p) ps d) k =
    (case find (\<lambda>p. p_id p = k) (rev ps) of Some p \<Rightarrow> Some p | None \<Rightarrow> dget d k)"
proof (induction ps rule: rev_induct)
  case Nil
  then show ?case by simp
next
  case (snoc p ps)
  then show ?case by (simp add: dget_dset)
qed

lemma vs_search_result:
  assumes "vs_search fsqrt s v k fs = Inr hs"
  obtains cands where
    "hs = map point_hit (enum_from 1 (py_take k (sort_key (\<lambda>(c, p). (- c, p_id p)) cands)))"
    "map snd cands = filter (\<lambda>p. matches (point_payload p) fs) (map snd (vs_points s))"
proof -
  obtain cands where
    r: "rmap (\<lambda>p. rbind (cosine fsqrt v (p_vector p)) (\<lambda>c. Inr (c, p)))
        (filter (\<lambda>p. matches (point_payload p) fs) (map snd (vs_points s))) = Inr cands" and
    hs: "hs = map point_hit (enum_from 1 (py_take k (sort_key (\<lambda>(c, p). (- c, p_id p)) cands)))"
    using assms by (auto simp: vs_search_def rbind_Inr)
  have "list_all2 (\<lambda>p cp. p = snd cp)
      (filter (\<lambda>p. matches (point_payload p) fs) (map snd (vs_points s))) cands"
    using rmap_Inr [OF r] by (rule list_all2_mono) (auto simp: rbind_Inr)
  then have "map snd cands = filter (\<lambda>p. matches (point_payload p) fs) (map snd (vs_points s))"
    by (simp add: list_all2_conv_all_nth list_eq_iff_nth_eq)
  with hs show ?thesis using that by blast
qed

lemma map_enum_point_hit:
  "map h_chunk (map point_hit (enum_from n xs)) = map (p_id \<circ> snd) xs"
  "map h_rank (map point_hit (enum_from n xs)) = [n..<n + length xs]"
  "map (\<lambda>h. - h_score h) (map point_hit (enum_from n xs)) = map (\<lambda>s. - s) (map fst xs)"
proof (induction xs arbitrary: n)
  case (Cons x xs)
  { case 1 show ?case using Cons(1) by (cases x) simp }
  { case 2 show ?case using Cons(2) [of "Suc n"] by (cases x) (simp add: upt_conv_Cons del: upt_Suc) }
  { case 3 show ?case using Cons(3) by (cases x) simp }
qed simp_all

lemma vs_search_ranked:
  assumes "vs_inv s" "vs_search fsqrt s v k fs = Inr hs"
  shows "ranked_hits hs"
proof -
  obtain cands where
    hs: "hs = map point_hit (enum_from 1 (py_take k (sort_key (\<lambda>(c, p). (- c, p_id p)) cands)))" and
    c: "map snd cands = filter (\<lambda>p. matches (point_payload p) fs) (map snd (vs_points s))"
    using vs_search_result [OF assms(2)] by blast
  let ?key = "\<lambda>(c, p). (- c, p_id p)"
  obtain n where n: "py_take k (sort_key ?key cands) = take n (sort_key ?key cands)"
    using py_take_take by blast
  have "map p_id (map snd (vs_points s)) = dkeys (vs_points s)"
    using assms(1) by (auto simp: vs_inv_def)
  moreover have "distinct (dkeys (vs_points s))" using assms(1) by (simp add: vs_inv_def)
  ultimately have "distinct (map p_id (map snd (vs_points s)))" by (simp only:)
  then have "distinct (map p_id (map snd cands))" unfolding c by (rule distinct_map_filter)
  then have "distinct (map (p_id \<circ> snd) (sort_key ?key cands))"
    by (simp add: distinct_map)
  then have "distinct (map (p_id \<circ> snd) (take n (sort_key ?key cands)))"
    by (metis distinct_take take_map)
  moreover have "sorted_wrt (\<lambda>x y. ?key x \<le> ?key y) (sort_key ?key cands)"
    using sorted_sort_key [of ?key cands] unfolding sorted_map .
  then have "sorted_wrt (\<lambda>x y. - fst x \<le> - fst y) (sort_key ?key cands)"
    by (rule sorted_wrt_mono_rel [rotated]) (auto simp: less_eq_prod_def split: prod.splits)
  then have "sorted (map (\<lambda>s. - s) (map fst (take n (sort_key ?key cands))))"
    by (simp add: sorted_map sorted_wrt_take)
  ultimately show ?thesis
    unfolding ranked_hits_def hs n map_enum_point_hit by simp
qed

lemma vs_search_mem:
  assumes "vs_search fsqrt s v k fs = Inr hs" "h \<in> set hs"
  shows "\<exists>p \<in> snd ` set (vs_points s). matches (point_payload p) fs
    \<and> h_chunk h = p_id p \<and> h_meta h = p_payload p \<and> h_content h = p_content p"
proof -
  obtain cands where
    hs: "hs = map point_hit (enum_from 1 (py_take k (sort_key (\<lambda>(c, p). (- c, p_id p)) cands)))" and
    c: "map snd cands = filter (\<lambda>p. matches (point_payload p) fs) (map snd (vs_points s))"
    using vs_search_result [OF assms(1)] by blast
  from hs assms(2) obtain r x p where h: "h = point_hit (r, x, p)" and
    "(r, x, p) \<in> set (enum_from 1 (py_take k (sort_key (\<lambda>(c, p). (- c, p_id p)) cands)))"
    by auto
  then have "(x, p) \<in> set (py_take k (sort_key (\<lambda>(c, p). (- c, p_id p)) cands))"
    using snd_set_enumerate by fastforce
  then have "(x, p) \<in> set cands" using set_py_take by fastforce
  then have "p \<in> set (map snd cands)" by force
  then show ?thesis unfolding c using h by auto
qed

lemma vs_search_bound:
  assumes "vs_search fsqrt s v k fs = Inr hs" "0 \<le> k"
  shows "int (length hs) \<le> k"
proof -
  obtain cands where
    "hs = map point_hit (enum_from 1 (py_take k (sort_key (\<lambda>(c, p). (- c, p_id p)) cands)))"
    using vs_search_result [OF assms(1)] by blast
  then show ?thesis using assms(2) by simp
qed

text \<open>The store as a hit source, for the positive limits the engine uses.\<close>

definition vs_find :: "vstore \<Rightarrow> (rat \<Rightarrow> rat) \<times> rat list \<Rightarrow> int \<Rightarrow> pydict \<Rightarrow> exn + hit list" where
  "vs_find s q k fs = vs_search (fst q) s (snd q) (max 0 k) fs"

definition vs_admits :: "pydict \<Rightarrow> hit \<Rightarrow> bool" where
  "vs_admits fs h \<longleftrightarrow>
    (\<exists>p. h_chunk h = p_id p \<and> h_meta h = p_payload p \<and> matches (point_payload p) fs)"

interpretation vectors: hit_source vs_inv vs_find vs_admits
proof
  fix s q k fs hs h
  assume i: "vs_inv s" and f: "vs_find s q k fs = Inr hs"
  show "ranked_hits hs" using vs_search_ranked [OF i] f unfolding vs_find_def by blast
  show "int (length hs) \<le> max 0 k" using vs_search_bound f unfolding vs_find_def by simp
  show "vs_admits fs h" if "h \<in> set hs"
    using vs_search_mem [OF _ that] f unfolding vs_find_def vs_admits_def by blast
qed

text \<open>A query vector of the dimension of the collection never raises.\<close>

lemma cosine_total: "length a = length b \<Longrightarrow> \<exists>c. cosine fsqrt a b = Inr c"
  by (simp add: cosine_def Let_def)

lemma scores_total:
  assumes "\<And>p. p \<in> set ps \<Longrightarrow> length v = length (p_vector p)"
  shows "\<exists>ys. rmap (\<lambda>p. rbind (cosine fsqrt v (p_vector p)) (\<lambda>c. Inr (c, p))) ps = Inr ys"
  using assms
proof (induction ps)
  case Nil
  then show ?case by simp
next
  case (Cons p ps)
  obtain c where c: "cosine fsqrt v (p_vector p) = Inr c" using cosine_total Cons.prems by fastforce
  obtain ys where ys: "rmap (\<lambda>p. rbind (cosine fsqrt v (p_vector p)) (\<lambda>c. Inr (c, p))) ps = Inr ys"
    using Cons by fastforce
  show ?case by (simp only: rmap.simps c ys rbind.simps) simp
qed

lemma vs_search_total:
  assumes "vs_inv s" "vs_dim s = Some (length v)"
  shows "\<exists>hs. vs_search fsqrt s v k fs = Inr hs"
proof -
  have "length v = length (p_vector p)"
    if "p \<in> set (filter (\<lambda>p. matches (point_payload p) fs) (map snd (vs_points s)))" for p
    using that assms by (auto simp: vs_inv_def)
  from scores_total [OF this] obtain ys where
    "rmap (\<lambda>p. rbind (cosine fsqrt v (p_vector p)) (\<lambda>c. Inr (c, p)))
      (filter (\<lambda>p. matches (point_payload p) fs) (map snd (vs_points s))) = Inr ys" by blast
  then show ?thesis by (simp add: vs_search_def)
qed

section \<open>Properties\<close>

theorem bm25_results:
  assumes "distinct (map b_chunk (bi_docs idx))"
  shows "ranked_hits (bm25_search get_scores idx q k fs)
    \<and> int (length (bm25_search get_scores idx q k fs)) \<le> max 0 k
    \<and> (\<forall>h \<in> set (bm25_search get_scores idx q k fs).
        0 \<le> h_score h \<and> h_score h \<le> 1 \<and> matches (h_meta h) fs
        \<and> (\<exists>d \<in> set (bi_docs idx).
            h_chunk h = b_chunk d \<and> h_meta h = b_meta d \<and> h_content h = b_content d))"
proof -
  have i: "bm25_inv idx" using assms by (simp add: bm25_inv_def)
  show ?thesis
    using bm25.found_bound [OF i, of "(get_scores, q)" k fs]
      bm25.found_ranked [OF i, of "(get_scores, q)" k fs]
    by (auto dest: bm25_search_mem)
qed

definition sample_doc :: "string \<Rightarrow> string \<Rightarrow> bm25_doc" where
  "sample_doc c txt = \<lparr>b_chunk = asc c, b_document = asc ''d'', b_title = asc ''t'',
     b_content = asc txt, b_url = asc ''u'', b_meta = [(''region'', PStr (asc txt))]\<rparr>"

lemma bm25_results_witness:
  "ranked_hits (bm25_search (\<lambda>corpus q. [1, 2]) (rebuild [sample_doc ''a'' ''x'', sample_doc ''b'' ''x y''])
     (asc ''x'') 5 [])"
  using bm25_results [of "rebuild [sample_doc ''a'' ''x'', sample_doc ''b'' ''x y'']"]
  by (simp add: rebuild_def sample_doc_def asc_def Let_def)

theorem vector_store_safe:
  assumes "vs_inv s"
  shows "(\<forall>d s1. vs_ensure d s = Inr s1 \<longrightarrow> vs_inv s1)
    \<and> (\<forall>ps. vs_inv (fst (vs_upsert ps s))) \<and> (\<forall>ids. vs_inv (vs_delete ids s))
    \<and> (\<forall>v::rat list. \<forall>fs k. vs_dim s = Some (length v) \<longrightarrow>
        (\<exists>hs. vs_search fsqrt s v k fs = Inr hs \<and> ranked_hits hs
          \<and> h_chunk ` set hs \<subseteq> fst ` set (vs_points s)))"
proof (intro conjI allI impI)
  show "vs_inv s1" if "vs_ensure d s = Inr s1" for d s1 using assms that by (rule vs_ensure_inv)
  show "vs_inv (fst (vs_upsert ps s))" for ps
    using vs_upsert_inv [OF assms] by (metis prod.collapse)
  show "vs_inv (vs_delete ids s)" for ids using assms by (rule vs_delete_inv)
  fix v :: "rat list" and fs k
  assume "vs_dim s = Some (length v)"
  then obtain hs where hs: "vs_search fsqrt s v k fs = Inr hs" using vs_search_total [OF assms] by blast
  have "h_chunk h \<in> fst ` set (vs_points s)" if h: "h \<in> set hs" for h
  proof -
    obtain c p where "(c, p) \<in> set (vs_points s)" "h_chunk h = p_id p"
      using vs_search_mem [OF hs h] by auto
    then show ?thesis using assms by (force simp: vs_inv_def)
  qed
  then show "\<exists>hs. vs_search fsqrt s v k fs = Inr hs \<and> ranked_hits hs
      \<and> h_chunk ` set hs \<subseteq> fst ` set (vs_points s)"
    using hs vs_search_ranked [OF assms hs] by blast
qed

definition sample_point :: "string \<Rightarrow> rat list \<Rightarrow> vpoint" where
  "sample_point i v = \<lparr>p_id = asc i, p_vector = v, p_document = asc ''d'', p_content = asc ''c'',
     p_title = asc ''t'', p_url = asc ''u'', p_payload = []\<rparr>"

lemma vector_store_safe_witness:
  "vs_inv (fst (vs_upsert [sample_point ''a'' [1, 0]] \<lparr>vs_points = [], vs_dim = None\<rparr>))"
  using vector_store_safe [of "\<lparr>vs_points = [], vs_dim = None\<rparr>"] by (simp add: vs_inv_def)

theorem vector_upsert_lookup:
  assumes "vs_upsert ps s = (s', r)"
  shows "if r = Inr ()
    then \<forall>k. dget (vs_points s') k =
      (case find (\<lambda>p. p_id p = k) (rev ps) of Some p \<Rightarrow> Some p | None \<Rightarrow> dget (vs_points s) k)
    else vs_points s' = vs_points s \<and> (vs_dim s = None \<or> s' = s)"
proof -
  obtain t ok where t: "vs_check ps s = (t, ok)" by (cases "vs_check ps s")
  note c = vs_check_props [OF t]
  show ?thesis
  proof (cases ok)
    case True
    then show ?thesis using assms t c by (auto simp: vs_upsert_def fold_dset_lookup)
  next
    case False
    then show ?thesis using assms t c by (cases s; cases t) (auto simp: vs_upsert_def)
  qed
qed

lemma vector_upsert_lookup_witness:
  "dget (vs_points (fst (vs_upsert [sample_point ''a'' [1]] \<lparr>vs_points = [], vs_dim = None\<rparr>))) (asc ''a'')
    = Some (sample_point ''a'' [1])"
proof -
  obtain s' r where e: "vs_upsert [sample_point ''a'' [1]] \<lparr>vs_points = [], vs_dim = None\<rparr> = (s', r)"
    by fastforce
  then have "r = Inr ()" by (simp add: vs_upsert_def)
  with vector_upsert_lookup [OF e] e show ?thesis
    by (simp add: sample_point_def)
qed

end
