(* ===== verification/PyRegexLang.thy ===== *)
theory PyRegexLang
  imports PyRegex
begin

text \<open>
  What a match looks like: \<open>lang r w ds\<close> over-approximates the texts \<open>w\<close> a pattern can match and
  the groups \<open>ds\<close> it captures on the way, latest first (it forgets what the lookarounds and
  anchors ask of the neighbourhood). Every match the functions of \<open>re\<close> return is in it.
\<close>

primrec lang :: "rx \<Rightarrow> ustr \<Rightarrow> caps \<Rightarrow> bool" where
  "lang Eps w ds \<longleftrightarrow> w = [] \<and> ds = []"
| "lang (Cls neg rs) w ds \<longleftrightarrow> (\<exists>c. w = [c] \<and> in_ranges c rs \<noteq> neg) \<and> ds = []"
| "lang Space w ds \<longleftrightarrow> (\<exists>c. w = [c] \<and> is_space c) \<and> ds = []"
| "lang NonSpace w ds \<longleftrightarrow> (\<exists>c. w = [c] \<and> \<not> is_space c) \<and> ds = []"
| "lang Digit w ds \<longleftrightarrow> (\<exists>c. w = [c] \<and> is_decimal c) \<and> ds = []"
| "lang (Word f rs) w ds \<longleftrightarrow>
    (\<exists>c. w = [c] \<and> ((if f then is_word c else is_decimal c) \<or> in_ranges c rs)) \<and> ds = []"
| "lang (AnyChar d) w ds \<longleftrightarrow> (\<exists>c. w = [c]) \<and> ds = []"
| "lang (Seq r s) w ds \<longleftrightarrow>
    (\<exists>u v d e. w = u @ v \<and> ds = e @ d \<and> lang r u d \<and> lang s v e)"
| "lang (Alt r s) w ds \<longleftrightarrow> lang r w ds \<or> lang s w ds"
| "lang (Rep g lo hi r) w ds \<longleftrightarrow>
    (\<exists>ws. w = concat (map fst ws) \<and> ds = concat (map snd (rev ws))
      \<and> (\<forall>(u, d) \<in> set ws. lang r u d) \<and> lo \<le> length ws
      \<and> (case hi of None \<Rightarrow> True | Some h \<Rightarrow> length ws \<le> max lo h))"
| "lang (Grp n r) w ds \<longleftrightarrow> (\<exists>d. ds = (n, w) # d \<and> lang r w d)"
| "lang (NotAhead r) w ds \<longleftrightarrow> w = [] \<and> ds = []"
| "lang (Ahead r) w ds \<longleftrightarrow> w = [] \<and> (\<exists>u. lang r u ds)"
| "lang Bol w ds \<longleftrightarrow> w = [] \<and> ds = []"
| "lang Eol w ds \<longleftrightarrow> w = [] \<and> ds = []"

section \<open>The matcher stays in the language\<close>

definition consumes :: "(ustr \<Rightarrow> caps \<Rightarrow> bool) \<Rightarrow> zip \<Rightarrow> zip \<Rightarrow> bool" where
  "consumes L z z' \<longleftrightarrow> (\<exists>w ds. zpre z' = rev w @ zpre z \<and> zrest z = w @ zrest z'
    \<and> zcaps z' = ds @ zcaps z \<and> L w ds)"

definition reads :: "(ustr \<Rightarrow> caps \<Rightarrow> bool) \<Rightarrow>
    ((zip \<Rightarrow> 'r option) \<Rightarrow> zip \<Rightarrow> 'r option) \<Rightarrow> bool" where
  "reads L m \<longleftrightarrow> (\<forall>k z x. m k z = Some x \<longrightarrow> (\<exists>z'. consumes L z z' \<and> k z' = Some x))"

lemma readsI:
  "(\<And>k z x. m k z = Some x \<Longrightarrow> \<exists>z'. consumes L z z' \<and> k z' = Some x) \<Longrightarrow> reads L m"
  by (simp add: reads_def)

lemma readsD: "reads L m \<Longrightarrow> m k z = Some x \<Longrightarrow> \<exists>z'. consumes L z z' \<and> k z' = Some x"
  by (simp add: reads_def)

lemma consumes_refl: "L [] [] \<Longrightarrow> consumes L z z"
  by (simp add: consumes_def)

lemma consumes_trans:
  "consumes L a b \<Longrightarrow> consumes M b c \<Longrightarrow>
    (\<And>u v d e. L u d \<Longrightarrow> M v e \<Longrightarrow> N (u @ v) (e @ d)) \<Longrightarrow> consumes N a c"
  unfolding consumes_def by (metis append.assoc rev_append)

lemma consumes_mono: "consumes L a b \<Longrightarrow> (\<And>u d. L u d \<Longrightarrow> M u d) \<Longrightarrow> consumes M a b"
  unfolding consumes_def by blast

lemma reads_one_char: "reads (\<lambda>w ds. (\<exists>c. w = [c] \<and> p c) \<and> ds = []) (one_char p)"
proof (rule readsI)
  fix k z x
  assume "one_char p k z = Some x"
  then obtain c t where c: "zrest z = c # t" "p c" "k (Z (c # zpre z) t (zcaps z)) = Some x"
    by (auto simp: one_char_def split: list.splits if_splits)
  then have "consumes (\<lambda>w ds. (\<exists>c. w = [c] \<and> p c) \<and> ds = []) z (Z (c # zpre z) t (zcaps z))"
    by (auto simp: consumes_def)
  then show "\<exists>z'. consumes (\<lambda>w ds. (\<exists>c. w = [c] \<and> p c) \<and> ds = []) z z' \<and> k z' = Some x"
    using c by blast
qed

definition repeats :: "(ustr \<Rightarrow> caps \<Rightarrow> bool) \<Rightarrow> nat \<Rightarrow> nat option \<Rightarrow> ustr \<Rightarrow> caps \<Rightarrow> bool" where
  "repeats L lo hi w ds \<longleftrightarrow> (\<exists>ws. w = concat (map fst ws) \<and> ds = concat (map snd (rev ws))
      \<and> (\<forall>(u, d) \<in> set ws. L u d) \<and> lo \<le> length ws
      \<and> (case hi of None \<Rightarrow> True | Some h \<Rightarrow> length ws \<le> max lo h))"

lemma repeats_Nil: "repeats L 0 hi [] []"
  unfolding repeats_def by (rule exI [of _ "[]"]) (simp split: option.splits)

lemma repeats_step:
  assumes "L u d" "repeats L (lo - 1) (map_option (\<lambda>h. h - 1) hi) v e" "0 < lo \<or> hi \<noteq> Some 0"
  shows "repeats L lo hi (u @ v) (e @ d)"
proof -
  obtain ws where "v = concat (map fst ws)" "e = concat (map snd (rev ws))"
    "\<forall>(u, d) \<in> set ws. L u d" "lo - 1 \<le> length ws"
    "case map_option (\<lambda>h. h - 1) hi of None \<Rightarrow> True | Some h \<Rightarrow> length ws \<le> max (lo - 1) h"
    using assms(2) unfolding repeats_def by blast
  then show ?thesis
    unfolding repeats_def using assms(1,3)
    by (intro exI [of _ "(u, d) # ws"]) (auto split: option.splits)
qed

lemma reads_rep:
  assumes m: "reads L m"
  shows "rep m g f lo hi k z = Some x \<Longrightarrow> \<exists>z'. consumes (repeats L lo hi) z z' \<and> k z' = Some x"
proof (induction f arbitrary: lo hi z)
  case 0
  then show ?case by (auto split: if_splits intro: consumes_refl repeats_Nil)
next
  case (Suc f)
  let ?hi = "map_option (\<lambda>h. h - 1) hi"
  have step: "\<exists>z'. consumes (repeats L lo hi) z z' \<and> k z' = Some x"
    if k2: "m k2 z = Some x" and h: "0 < lo \<or> hi \<noteq> Some 0"
      and r: "\<And>z'. k2 z' = Some x \<Longrightarrow> rep m g f (lo - 1) ?hi k z' = Some x" for k2
  proof -
    obtain z1 where z1: "consumes L z z1" "k2 z1 = Some x" using readsD [OF m k2] by blast
    obtain z2 where z2: "consumes (repeats L (lo - 1) ?hi) z1 z2" "k z2 = Some x"
      using Suc.IH [OF r [OF z1(2)]] by blast
    have "consumes (repeats L lo hi) z z2"
      by (rule consumes_trans [OF z1(1) z2(1)]) (rule repeats_step [OF _ _ h])
    with z2 show ?thesis by blast
  qed
  show ?case
  proof (cases "0 < lo")
    case True
    with Suc.prems show ?thesis by (intro step) auto
  next
    case lo: False
    show ?thesis
    proof (cases "k z = Some x")
      case True
      with lo show ?thesis using consumes_refl repeats_Nil by blast
    next
      case False
      let ?k = "\<lambda>z'. if length (zrest z') < length (zrest z) then rep m g f 0 ?hi k z' else None"
      have "m ?k z = Some x \<and> hi \<noteq> Some 0"
        using Suc.prems lo False by (auto split: if_splits option.splits)
      then show ?thesis using lo by (intro step [of ?k]) (auto split: if_splits)
    qed
  qed
qed

lemma reads_rmatch: "reads (lang r) (rmatch r)"
proof (induction r)
  case Eps
  show ?case by (rule readsI) (auto intro: consumes_refl)
next
  case (Seq r s)
  show ?case
  proof (rule readsI)
    fix k z x
    assume "rmatch (Seq r s) k z = Some x"
    then obtain z1 z2 where z: "consumes (lang r) z z1" "consumes (lang s) z1 z2" "k z2 = Some x"
      using readsD [OF Seq.IH(1)] readsD [OF Seq.IH(2)] by fastforce
    have "consumes (lang (Seq r s)) z z2" by (rule consumes_trans [OF z(1,2)]) auto
    with z show "\<exists>z'. consumes (lang (Seq r s)) z z' \<and> k z' = Some x" by blast
  qed
next
  case (Alt r s)
  show ?case
  proof (rule readsI)
    fix k z x
    assume "rmatch (Alt r s) k z = Some x"
    then have "rmatch r k z = Some x \<or> rmatch s k z = Some x" by (auto split: option.splits)
    then obtain z' where z': "consumes (lang r) z z' \<or> consumes (lang s) z z'" "k z' = Some x"
      using readsD [OF Alt.IH(1), of k z x] readsD [OF Alt.IH(2), of k z x] by blast
    then have "consumes (lang (Alt r s)) z z'" by (auto elim: consumes_mono)
    with z' show "\<exists>z'. consumes (lang (Alt r s)) z z' \<and> k z' = Some x" by blast
  qed
next
  case (Rep g lo hi r)
  have "lang (Rep g lo hi r) = repeats (lang r) lo hi" by (simp add: fun_eq_iff repeats_def)
  then show ?case
    by (intro readsI) (simp del: rep.simps, drule reads_rep [OF Rep.IH], simp)
next
  case (Grp n r)
  show ?case
  proof (rule readsI)
    fix k z x
    assume "rmatch (Grp n r) k z = Some x"
    then obtain z1 where z1: "consumes (lang r) z z1" and k: "k (Z (zpre z1) (zrest z1)
         ((n, rev (take (length (zpre z1) - length (zpre z)) (zpre z1))) # zcaps z1)) = Some x"
      using readsD [OF Grp.IH] by fastforce
    then have "consumes (lang (Grp n r)) z (Z (zpre z1) (zrest z1)
         ((n, rev (take (length (zpre z1) - length (zpre z)) (zpre z1))) # zcaps z1))"
      by (auto simp: consumes_def)
    with k show "\<exists>z'. consumes (lang (Grp n r)) z z' \<and> k z' = Some x" by blast
  qed
next
  case (NotAhead r)
  show ?case by (rule readsI) (auto split: option.splits intro: consumes_refl)
next
  case (Ahead r)
  show ?case
  proof (rule readsI)
    fix k z x
    assume "rmatch (Ahead r) k z = Some x"
    then obtain z1 where z1: "rmatch r Some z = Some z1" and
      k: "k (Z (zpre z) (zrest z) (zcaps z1)) = Some x" by (auto split: option.splits)
    have "consumes (lang r) z z1" using readsD [OF Ahead.IH z1] by simp
    then have "consumes (lang (Ahead r)) z (Z (zpre z) (zrest z) (zcaps z1))"
      by (auto simp: consumes_def)
    with k show "\<exists>z'. consumes (lang (Ahead r)) z z' \<and> k z' = Some x" by blast
  qed
next
  case Bol
  show ?case by (rule readsI) (auto split: if_splits intro: consumes_refl)
next
  case Eol
  show ?case by (rule readsI) (auto split: if_splits intro: consumes_refl)
next
  case (Cls neg rs) show ?case using reads_one_char [of "\<lambda>c. in_ranges c rs \<noteq> neg"]
    by (simp add: reads_def)
next
  case Space show ?case using reads_one_char [of is_space] by (simp add: reads_def)
next
  case NonSpace show ?case using reads_one_char [of "\<lambda>c. \<not> is_space c"] by (simp add: reads_def)
next
  case Digit show ?case using reads_one_char [of is_decimal] by (simp add: reads_def)
next
  case (Word f rs) show ?case
    using reads_one_char [of "\<lambda>c. (if f then is_word c else is_decimal c) \<or> in_ranges c rs"]
    by (simp add: reads_def)
next
  case (AnyChar d)
  show ?case
  proof (rule readsI)
    fix k z x
    assume "rmatch (AnyChar d) k z = Some x"
    then obtain z' where z': "consumes (\<lambda>w ds. (\<exists>c. w = [c] \<and> (d \<or> c \<noteq> 10)) \<and> ds = []) z z'"
      "k z' = Some x"
      using readsD [OF reads_one_char [of "\<lambda>c. d \<or> c \<noteq> 10"]] by fastforce
    then have "consumes (lang (AnyChar d)) z z'" by (auto elim: consumes_mono)
    with z' show "\<exists>z'. consumes (lang (AnyChar d)) z z' \<and> k z' = Some x" by blast
  qed
qed

section \<open>What the functions of \<open>re\<close> return\<close>

lemma match_at_reads:
  assumes "match_at r must pre rest = Some z"
  shows "\<exists>w. zpre z = rev w @ pre \<and> lang r w (zcaps z)"
proof -
  obtain z' where "consumes (lang r) (Z pre rest []) z'"
    "(if must \<and> length (zrest z') = length rest then None else Some z') = Some z"
    using readsD [OF reads_rmatch] assms unfolding match_at_def by blast
  then show ?thesis by (auto simp: consumes_def split: if_splits)
qed

lemma search_at_reads:
  "search_at r must pre rest = Some (pre', z) \<Longrightarrow> \<exists>w. zpre z = rev w @ pre' \<and> lang r w (zcaps z)"
proof (induction r must pre rest rule: search_at.induct)
  case (1 r must pre)
  then show ?case using match_at_reads by auto
next
  case (2 r must pre c cs)
  then show ?case using match_at_reads [of r must pre "c # cs"] by (auto split: option.splits)
qed

definition found_in :: "rx \<Rightarrow> found \<Rightarrow> bool" where
  "found_in r m \<longleftrightarrow> lang r (m_text m) (m_caps m)"

lemma mk_found_reads:
  "search_at r must pre rest = Some (pre', z) \<Longrightarrow> found_in r (mk_found pre' z)"
  by (drule search_at_reads) (auto simp: mk_found_def found_in_def)

lemma iter_at_reads: "m \<in> set (iter_at r must pre rest) \<Longrightarrow> found_in r m"
proof (induction r must pre rest rule: iter_at.induct)
  case (1 r must pre rest)
  show ?case
  proof (cases "search_at r must pre rest")
    case None
    with "1.prems" show ?thesis by (simp add: iter_at.simps)
  next
    case (Some pz)
    obtain pre' z where pz: "pz = (pre', z)" by (cases pz)
    from "1.prems" Some pz consider "m = mk_found pre' z"
      | "m \<in> set (iter_at r (length (zpre z) = length pre') (zpre z) (zrest z))"
      by (auto simp: iter_at.simps [of r must pre rest])
    then show ?thesis
    proof cases
      case 1
      then show ?thesis using mk_found_reads Some pz by simp
    next
      case 2
      then show ?thesis using "1.IH" [OF Some pz [symmetric] 2] by simp
    qed
  qed
qed

lemma re_finditer_in: "m \<in> set (re_finditer r s) \<Longrightarrow> found_in r m"
  unfolding re_finditer_def by (rule iter_at_reads)

lemma re_search_in: "re_search r s = Some m \<Longrightarrow> found_in r m"
  by (auto simp: re_search_def intro: mk_found_reads)

lemma re_findall_lang: "t \<in> set (re_findall r s) \<Longrightarrow> \<exists>ds. lang r t ds"
  using re_finditer_in by (fastforce simp: re_findall_def found_in_def)

lemma re_fullmatch_lang: "re_fullmatch r s \<Longrightarrow> \<exists>ds. lang r s ds"
proof -
  assume "re_fullmatch r s"
  then obtain z where "rmatch r (\<lambda>z. if zrest z = [] then Some z else None) (Z [] s []) = Some z"
    by (auto simp: re_fullmatch_def)
  then obtain z' where "consumes (lang r) (Z [] s []) z'"
    "(if zrest z' = [] then Some z' else None) = Some z"
    using readsD [OF reads_rmatch] by blast
  then have "consumes (lang r) (Z [] s []) z' \<and> zrest z' = []" by (simp split: if_splits)
  then show ?thesis by (auto simp: consumes_def)
qed

section \<open>Languages of the building blocks\<close>

lemma lang_plus_Cls:
  assumes "lang (rplus (Cls False rs)) w ds"
  shows "w \<noteq> [] \<and> ds = [] \<and> (\<forall>c \<in> set w. in_ranges c rs)"
proof -
  obtain ws where ws: "w = concat (map fst ws)" "ds = concat (map snd (rev ws))"
    "\<forall>(u, d) \<in> set ws. lang (Cls False rs) u d" "1 \<le> length ws" using assms by auto
  then have "\<forall>(u, d) \<in> set ws. d = [] \<and> u \<noteq> [] \<and> (\<forall>c \<in> set u. in_ranges c rs)" by auto
  then show ?thesis using ws by (cases ws) (auto split: prod.splits)
qed

lemma lang_lit: "lang (lit s) w ds \<longleftrightarrow> w = s \<and> ds = []"
  by (induction s arbitrary: w ds rule: lit.induct) (auto simp: in_ranges_def)

lemma digit_in_bounds: "0 \<le> digit_in c t \<and> digit_in c t \<le> 9"
  by (induction c t rule: digit_in.induct) auto

lemma digit_value_bounds: "is_decimal c \<Longrightarrow> 0 \<le> digit_value c \<and> digit_value c \<le> 9"
  using digit_in_bounds by (auto simp: digit_value_def is_decimal_def)

end
