(* ===== verification/QueryAnalysis.thy ===== *)
theory QueryAnalysis
  imports Search PyRegexLang
begin

text \<open>
  \<open>backend/app/retrieval/analysis.py\<close> and \<open>backend/app/router/query_router.py\<close>: white space
  normalisation, the filters inferred from a question (publication years, region), the merge with
  the caller's filters, and the deterministic router that decides between the SQL, RAG and
  composite paths. The patterns are the source's, as values of type \<open>rx\<close>.
\<close>

section \<open>The retrieval query analyzer\<close>

record query_analysis =
  qa_original :: ustr
  qa_normalized :: ustr
  qa_terms :: "ustr list"
  qa_inferred :: pydict
  qa_applied :: pydict

definition year_rx :: rx where
  "year_rx = seqs [lit (asc ''20''), rtimes 2 2 Digit]"

definition after_year :: rx where
  "after_year = alts [
     seqs [iwords [asc ''after'', asc ''since'', [26202, 20110]], rstar Space, Grp ''1'' year_rx],
     seqs [Grp ''2'' year_rx, rstar Space, rwords [[20043, 21518], [20197, 26469], [20197, 21518]]]]"

definition before_year :: rx where
  "before_year = alts [
     seqs [iwords [asc ''before'', [25130, 33267], [26089, 20110]], rstar Space, Grp ''1'' year_rx],
     seqs [Grp ''2'' year_rx, rstar Space, rwords [[20043, 21069], [20197, 21069]]]]"

definition regions :: "(ustr \<times> ustr) list" where
  "regions = [([22235, 24029], [22235, 24029, 30465]), ([21271, 20140], [21271, 20140]), ([19978, 28023], [19978, 28023]), ([24191, 19996], [24191, 19996]),
     ([27993, 27743], [27993, 27743]), ([27743, 33487], [27743, 33487]), (asc ''sichuan'', [22235, 24029, 30465]), (asc ''beijing'', [21271, 20140]),
     (asc ''shanghai'', [19978, 28023])]"

definition allowed_filters :: "string list" where
  "allowed_filters = [''document_id'', ''source_id'', ''region'', ''city'', ''document_type'',
     ''issuing_authority'', ''publish_date_gte'', ''publish_date_lte'', ''document_version'']"

text \<open>
  \<open>next(group for group in match.groups() if group is not None)\<close> raises \<open>StopIteration\<close> when no
  group took part in the match.
\<close>

definition first_group :: "found \<Rightarrow> exn + ustr" where
  "first_group m =
    (case m_group m ''1'' of
       Some g \<Rightarrow> Inr g
     | None \<Rightarrow> (case m_group m ''2'' of Some g \<Rightarrow> Inr g | None \<Rightarrow> Inl (OtherError ''StopIteration'')))"

definition date_bound :: "string \<Rightarrow> rx \<Rightarrow> (int \<Rightarrow> date option) \<Rightarrow> ustr \<Rightarrow> exn + pydict" where
  "date_bound key r mk s =
    (case re_search r s of
       None \<Rightarrow> Inr []
     | Some m \<Rightarrow> rbind (first_group m) (\<lambda>g.
        (case mk (digits_value g) of
           None \<Rightarrow> Inl (ValueError ''date'')
         | Some d \<Rightarrow> Inr [(key, PStr (isoformat d))])))"

fun region_filter :: "(ustr \<times> ustr) list \<Rightarrow> ustr \<Rightarrow> pydict" where
  "region_filter [] s = []"
| "region_filter ((alias, canonical) # t) s =
    (if contains s alias then [(''region'', PStr canonical)] else region_filter t s)"

definition infer_filters :: "ustr \<Rightarrow> exn + pydict" where
  "infer_filters q =
    rbind (date_bound ''publish_date_gte'' after_year (\<lambda>y. mk_date (y + 1) 1 1) q) (\<lambda>lo.
    rbind (date_bound ''publish_date_lte'' before_year (\<lambda>y. mk_date (y - 1) 12 31) q) (\<lambda>hi.
    Inr (lo @ hi @ region_filter regions (lower q))))"

definition query_terms :: "ustr \<Rightarrow> ustr list" where
  "query_terms s = map lower (re_findall token_rx s)"

definition normalize_space :: "ustr \<Rightarrow> ustr" where
  "normalize_space s = strip (re_sub (rplus Space) [32] s)"

definition analyze :: "ustr \<Rightarrow> pydict \<Rightarrow> exn + query_analysis" where
  "analyze q supplied =
    (let normalized = normalize_space q in
     if normalized = [] then Inl (ValueError ''query must not be empty'')
     else rbind (infer_filters normalized) (\<lambda>inferred.
       if \<exists>k \<in> set (dkeys supplied). k \<notin> set allowed_filters
       then Inl (ValueError ''unsupported metadata filters'')
       else Inr \<lparr>qa_original = q, qa_normalized = normalized,
         qa_terms = nub (query_terms normalized), qa_inferred = inferred,
         qa_applied = dmerge inferred supplied\<rparr>))"

subsection \<open>Inference never raises\<close>

definition is_year :: "ustr \<Rightarrow> bool" where
  "is_year w \<longleftrightarrow> 2000 \<le> digits_value w \<and> digits_value w \<le> 2099"

lemma lang_year: "lang year_rx w ds \<Longrightarrow> is_year w \<and> ds = []"
proof -
  assume "lang year_rx w ds"
  then obtain ws where w: "w = asc ''20'' @ concat (map fst ws)" "ds = concat (map snd (rev ws))"
    "\<forall>(u, d) \<in> set ws. lang Digit u d" "length ws = 2" by (auto simp: year_rx_def lang_lit)
  then obtain a b where "w = asc ''20'' @ [a, b]" "is_decimal a" "is_decimal b" "ds = []"
    by (auto simp: length_Suc_conv numeral_2_eq_2)
  then show ?thesis
    using digit_value_bounds [of a] digit_value_bounds [of b]
    by (auto simp: is_year_def digits_value_def asc_def digit_value_def [of 50] digit_value_def [of 48])
qed

fun no_grp :: "rx \<Rightarrow> bool" where
  "no_grp (Seq r s) = (no_grp r \<and> no_grp s)"
| "no_grp (Alt r s) = (no_grp r \<and> no_grp s)"
| "no_grp (Rep g lo hi r) = no_grp r"
| "no_grp (Grp n r) = False"
| "no_grp (Ahead r) = no_grp r"
| "no_grp r = True"

lemma lang_no_grp: "no_grp r \<Longrightarrow> lang r w ds \<Longrightarrow> ds = []"
  by (induction r arbitrary: w ds) fastforce+

lemma no_grp_seqs [simp]: "no_grp (seqs rs) = list_all no_grp rs"
  by (induction rs rule: seqs.induct) simp_all

lemma no_grp_alts [simp]: "no_grp (alts rs) = list_all no_grp rs"
  by (induction rs rule: alts.induct) simp_all

lemma no_grp_lit [simp]: "no_grp (lit s)"
  by (induction s rule: lit.induct) simp_all

lemma no_grp_words [simp]: "no_grp (iwords ws)" "no_grp (rwords ws)"
  by (simp_all add: iwords_def rwords_def ilit_def list_all_iff)

lemma lang_year_alts:
  assumes "lang (alts [seqs [iwords ws, rstar Space, Grp ''1'' year_rx],
      seqs [Grp ''2'' year_rx, rstar Space, rwords vs]]) w ds"
  shows "\<exists>g. is_year g \<and> (ds = [(''1'', g)] \<or> ds = [(''2'', g)])"
proof -
  have sp: "lang (rstar Space) u d \<Longrightarrow> d = []" for u d
    using lang_no_grp [of "rstar Space" u d] by simp
  have iw: "lang (iwords ws) u d \<Longrightarrow> d = []" for u d
    using lang_no_grp [of "iwords ws" u d] by simp
  have rw: "lang (rwords vs) u d \<Longrightarrow> d = []" for u d
    using lang_no_grp [of "rwords vs" u d] by simp
  consider (a) "lang (seqs [iwords ws, rstar Space, Grp ''1'' year_rx]) w ds"
    | (b) "lang (seqs [Grp ''2'' year_rx, rstar Space, rwords vs]) w ds"
    using assms unfolding alts.simps lang.simps(9) by blast
  then show ?thesis
  proof cases
    case a
    then show ?thesis
      unfolding seqs.simps lang.simps(8,11) by (auto simp del: lang.simps dest!: sp iw lang_year)
  next
    case b
    then show ?thesis
      unfolding seqs.simps lang.simps(8,11) by (auto simp del: lang.simps dest!: sp rw lang_year)
  qed
qed

lemma first_group_year:
  assumes "re_search r s = Some m" "r = after_year \<or> r = before_year"
  shows "\<exists>g. first_group m = Inr g \<and> is_year g"
proof -
  have "lang r (m_text m) (m_caps m)" using re_search_in [OF assms(1)] by (simp add: found_in_def)
  then obtain g where "is_year g" "m_caps m = [(''1'', g)] \<or> m_caps m = [(''2'', g)]"
    using assms(2) lang_year_alts unfolding after_year_def before_year_def by blast
  then show ?thesis by (auto simp: first_group_def m_group_def)
qed

definition bound_ok :: "string \<Rightarrow> (int \<Rightarrow> date) \<Rightarrow> pydict \<Rightarrow> bool" where
  "bound_ok key d f \<longleftrightarrow> f = [] \<or> (\<exists>y. 2000 \<le> y \<and> y \<le> 2099 \<and> f = [(key, PStr (isoformat (d y)))])"

lemma date_bound_total:
  assumes "r = after_year \<or> r = before_year"
    and "\<And>y. 2000 \<le> y \<Longrightarrow> y \<le> 2099 \<Longrightarrow> mk y = Some (d y)"
  shows "\<exists>f. date_bound key r mk s = Inr f \<and> bound_ok key d f"
proof (cases "re_search r s")
  case None
  then show ?thesis by (simp add: date_bound_def bound_ok_def)
next
  case (Some m)
  then obtain g where "first_group m = Inr g" "is_year g" using first_group_year assms(1) by blast
  then show ?thesis using Some assms(2) by (auto simp: date_bound_def bound_ok_def is_year_def)
qed

lemma region_filter_cases:
  "region_filter rs s = [] \<or> (\<exists>v \<in> snd ` set rs. region_filter rs s = [(''region'', PStr v)])"
  by (induction rs s rule: region_filter.induct) auto

definition inferred_ok :: "pydict \<Rightarrow> bool" where
  "inferred_ok f \<longleftrightarrow> (\<exists>lo hi rg. f = lo @ hi @ rg
    \<and> bound_ok ''publish_date_gte'' (\<lambda>y. Date (y + 1) 1 1) lo
    \<and> bound_ok ''publish_date_lte'' (\<lambda>y. Date (y - 1) 12 31) hi
    \<and> (rg = [] \<or> (\<exists>v \<in> snd ` set regions. rg = [(''region'', PStr v)])))"

lemma infer_filters_total: "\<exists>f. infer_filters q = Inr f \<and> inferred_ok f"
proof -
  obtain lo where lo: "date_bound ''publish_date_gte'' after_year (\<lambda>y. mk_date (y + 1) 1 1) q = Inr lo"
    "bound_ok ''publish_date_gte'' (\<lambda>y. Date (y + 1) 1 1) lo"
    using date_bound_total [of after_year "\<lambda>y. mk_date (y + 1) 1 1" "\<lambda>y. Date (y + 1) 1 1"]
    by (auto simp: mk_date_def valid_date_def days_in_month_def)
  obtain hi where hi: "date_bound ''publish_date_lte'' before_year (\<lambda>y. mk_date (y - 1) 12 31) q = Inr hi"
    "bound_ok ''publish_date_lte'' (\<lambda>y. Date (y - 1) 12 31) hi"
    using date_bound_total [of before_year "\<lambda>y. mk_date (y - 1) 12 31" "\<lambda>y. Date (y - 1) 12 31"]
    by (auto simp: mk_date_def valid_date_def days_in_month_def)
  show ?thesis
    using lo hi region_filter_cases [of regions "lower q"]
    unfolding infer_filters_def inferred_ok_def by auto
qed

lemma inferred_keys: "inferred_ok f \<Longrightarrow> distinct (dkeys f) \<and> set (dkeys f) \<subseteq> set allowed_filters"
  unfolding inferred_ok_def bound_ok_def by (auto simp: allowed_filters_def)

lemma dmerge_keys: "fst ` set (dmerge a b) = fst ` set a \<union> fst ` set b"
  unfolding dmerge_def
proof (induction b arbitrary: a)
  case (Cons kv b)
  then show ?case by (cases kv) (simp add: fst_set_dset)
qed simp

lemma normalize_space_Nil: "normalize_space q = [] \<longleftrightarrow> (\<forall>c \<in> set (re_sub (rplus Space) [32] q). is_space c)"
  by (simp add: normalize_space_def strip_eq_Nil)

section \<open>The router\<close>

datatype query_type = SQL | RAG | COMPOSITE

record route =
  rt_type :: query_type
  rt_filters :: pydict
  rt_reason :: string

definition corpus_nouns :: rx where
  "corpus_nouns = rwords [[25919, 31574], [25991, 20214], [25991, 26723], [36890, 30693], [25991, 31456], [36164, 26009], [26448, 26009], [35760, 24405], [26469, 28304], [31449, 28857]]"

definition corpus_count_intent :: rx where
  "corpus_count_intent = alts [
     seqs [ropt (alts [lit [26377], lit [20849, 26377], lit [20849], seqs [lit [21457, 24067], ropt (lit [20102])], lit [25910, 24405], lit [26816, 32034, 21040]]),
       rstar Space, rwords [[22810, 23569], [20960]], rstar Space, ropt (rwords [[20221], [31687], [26465], [20010], [39033]]),
       rstar Space, corpus_nouns],
     seqs [corpus_nouns, rstar Space, ropt (rwords [[20849, 26377], [26377]]), rstar Space, rwords [[22810, 23569], [20960]],
       rstar Space, ropt (rwords [[20221], [31687], [20010]]),
       Ahead (seqs [rstar Space, rstar (any_of (asc ''?!'' @ [65311, 12290, 65281])), Eol])],
     seqs [corpus_nouns, rstar Space, rwords [[24635, 25968], [25968, 37327], [32479, 35745]]],
     seqs [iwords [asc ''count'', asc ''how many'', asc ''total''], rplus Space,
       alts [seqs [ilit (asc ''polic''), iwords [asc ''y'', asc ''ies'']],
         seqs [ilit (asc ''document''), ropt (ilit (asc ''s''))],
         seqs [ilit (asc ''article''), ropt (ilit (asc ''s''))],
         seqs [ilit (asc ''record''), ropt (ilit (asc ''s''))],
         seqs [ilit (asc ''source''), ropt (ilit (asc ''s''))]]]]"

definition fact_value_terms :: rx where
  "fact_value_terms = Grp ''1'' (alts [
     rwords [[37329, 39069], [32602, 27454], [27604, 20363], [30334, 20998, 27604], [21344, 27604], [26085, 26399], [26102, 38388], [26399, 38480], [39069, 24230], [26631, 20934], [20215, 26684], [36153, 29992], [21033, 29575],
       [34917, 21161], [36164, 21161], [22870, 21169]],
     ilit (asc ''amount''), seqs [ilit (asc ''percent''), ropt (ilit (asc ''age''))],
     iwords [asc ''date'', asc ''time'', asc ''deadline'', asc ''price'', asc ''fee'', asc ''rate'']])"

definition semantic_terms :: rx where
  "semantic_terms = Grp ''1'' (alts [
     rwords [[24635, 32467], [27010, 25324], [20849, 21516], [25514, 26045], [35201, 27714], [21407, 22240], [24433, 21709]],
     seqs [ilit (asc ''summari''), Cls False (ci_class 115 @ ci_class 122), ilit (asc ''e'')],
     iwords [asc ''common'', asc ''explain'']])"

definition route_query :: "ustr \<Rightarrow> pydict \<Rightarrow> exn + route" where
  "route_query query explicit =
    (let t = strip query in
     if t = [] then Inl (ValueError ''query must not be empty'')
     else
       let aggregate = re_found corpus_count_intent t \<and> \<not> re_found fact_value_terms t;
           semantic = re_found semantic_terms t in
       rbind (analyze t explicit) (\<lambda>a.
         let filters = qa_applied a in
         if aggregate \<and> \<not> semantic then
           Inr \<lparr>rt_type = SQL, rt_filters = filters,
             rt_reason = ''aggregate query with structured filters''\<rparr>
         else if semantic \<and> (filters \<noteq> [] \<or> aggregate) then
           Inr \<lparr>rt_type = COMPOSITE, rt_filters = filters,
             rt_reason = ''semantic answer over a structured subset''\<rparr>
         else Inr \<lparr>rt_type = RAG, rt_filters = filters, rt_reason = ''content-oriented question''\<rparr>))"

section \<open>Properties\<close>

theorem analyze_total:
  assumes "distinct (dkeys supplied)"
  shows "if normalize_space q = [] \<or> \<not> set (dkeys supplied) \<subseteq> set allowed_filters
    then \<exists>e. analyze q supplied = Inl (ValueError e)
    else \<exists>a. analyze q supplied = Inr a \<and> inferred_ok (qa_inferred a)
      \<and> set (dkeys (qa_applied a)) \<subseteq> set allowed_filters \<and> distinct (qa_terms a)
      \<and> (\<forall>k. dget (qa_applied a) k =
           (case dget supplied k of Some v \<Rightarrow> Some v | None \<Rightarrow> dget (qa_inferred a) k))"
proof -
  obtain f where f: "infer_filters (normalize_space q) = Inr f" "inferred_ok f"
    using infer_filters_total by blast
  show ?thesis
    using f inferred_keys [OF f(2)] assms
    by (simp add: analyze_def Let_def dmerge_keys dget_dmerge_distinct subset_iff
      cong: option.case_cong) blast
qed

lemma analyze_total_witness:
  "\<exists>a. analyze (asc ''rules after 2020 in Beijing'') [(''region'', PStr (asc ''x''))] = Inr a
     \<and> dget (qa_applied a) ''region'' = Some (PStr (asc ''x''))"
proof -
  have "normalize_space (asc ''rules after 2020 in Beijing'') \<noteq> []" by code_simp
  then show ?thesis
    using analyze_total [of "[(''region'', PStr (asc ''x''))]" "asc ''rules after 2020 in Beijing''"]
    by (auto simp: allowed_filters_def)
qed

end
