(* ===== verification/PyJson.thy ===== *)
theory PyJson
  imports PyRegexLang PyValues
begin

text \<open>
  Decoded JSON documents, as \<open>response.json()\<close> and \<open>json.loads\<close> return them, and the numeric
  tests the program makes on them.
\<close>

datatype json =
    JNull
  | JBool bool
  | JInt int
  | JFloat pyfloat
  | JStr ustr
  | JList "json list"
  | JObj "(ustr \<times> json) list"

text \<open>\<open>d.get(k)\<close>: \<open>None\<close> where the key is missing.\<close>

definition jget :: "(ustr \<times> json) list \<Rightarrow> ustr \<Rightarrow> json" where
  "jget d k = dget_or d k JNull"

text \<open>
  \<open>isinstance(x, (int, float)) and not isinstance(x, bool)\<close>, and \<open>float(x)\<close>, which overflows on
  integers that round beyond the largest float.
\<close>

fun is_number :: "json \<Rightarrow> bool" where
  "is_number (JInt k) = True"
| "is_number (JFloat x) = True"
| "is_number _ = False"

definition float_limit :: int where
  "float_limit = 2 ^ 1024 - 2 ^ 970"

fun to_float :: "json \<Rightarrow> exn + pyfloat" where
  "to_float (JInt k) =
    (if \<bar>k\<bar> < float_limit then Inr (Fin (of_int k)) else Inl (OtherError ''OverflowError''))"
| "to_float (JFloat x) = Inr x"
| "to_float (JBool b) = Inr (Fin (if b then 1 else 0))"
| "to_float _ = Inl (OtherError ''TypeError'')"

fun json_truthy :: "json \<Rightarrow> bool" where
  "json_truthy JNull = False"
| "json_truthy (JBool b) = b"
| "json_truthy (JInt k) = (k \<noteq> 0)"
| "json_truthy (JFloat x) = (x \<noteq> Fin 0)"
| "json_truthy (JStr s) = (s \<noteq> [])"
| "json_truthy (JList js) = (js \<noteq> [])"
| "json_truthy (JObj d) = (d \<noteq> [])"

text \<open>\<open>int(text)\<close> and \<open>int(x)\<close>: a signed numeral with single underscores between digits; numbers are cut
  towards zero.\<close>

definition signed_digits :: "ustr \<Rightarrow> int" where
  "signed_digits s = (case s of [] \<Rightarrow> 0 | c # t \<Rightarrow>
     if c = 45 then - digits_value t else if c = 43 then digits_value t else digits_value s)"

definition int_rx :: rx where
  "int_rx = seqs [ropt (any_of (asc ''-+'')), rplus Digit, rstar (seqs [lit (asc ''_''), rplus Digit])]"

definition int_text :: "ustr \<Rightarrow> exn + int" where
  "int_text s =
    (let t = strip s in
     if re_fullmatch int_rx t then Inr (signed_digits (filter (\<lambda>c. c \<noteq> 95) t))
     else Inl (ValueError ''invalid literal for int()''))"

fun json_int :: "json \<Rightarrow> exn + int" where
  "json_int (JInt k) = Inr k"
| "json_int (JBool b) = Inr (if b then 1 else 0)"
| "json_int (JFloat (Fin x)) = Inr (if 0 \<le> x then \<lfloor>x\<rfloor> else \<lceil>x\<rceil>)"
| "json_int (JFloat NaN) = Inl (ValueError ''cannot convert float NaN to integer'')"
| "json_int (JFloat x) = Inl (OtherError ''OverflowError'')"
| "json_int (JStr s) = int_text s"
| "json_int _ = Inl (OtherError ''TypeError'')"

text \<open>Class names, for the code that reports an exception by its type.\<close>

fun exn_class :: "exn \<Rightarrow> string" where
  "exn_class (ValueError m) = ''ValueError''"
| "exn_class (KeyError m) = ''KeyError''"
| "exn_class (NotFoundError m) = ''NotFoundError''"
| "exn_class (ConflictError m) = ''ConflictError''"
| "exn_class (AppError c s) = ''AppError''"
| "exn_class (ProviderUnavailableError p r) = ''ProviderUnavailableError''"
| "exn_class (ProviderResponseError p r) = ''ProviderResponseError''"
| "exn_class (CodedError c k r) = c"
| "exn_class (OtherError n) = n"

text \<open>Decimal numerals as program strings.\<close>

definition show_string :: "int \<Rightarrow> string" where
  "show_string k = map (char_of \<circ> nat) (show_int k)"

end
