(* ===== verification/Rerank.thy ===== *)
theory Rerank
  imports QueryAnalysis PyJson
begin

text \<open>
  \<open>backend/app/rerank/providers.py\<close>: the disabled, the deterministic and the remote reranker. The
  HTTP exchange of the remote one is a parameter that returns one of the outcomes \<open>httpx\<close> can
  have; what the code does with each, the validation of the payload and the usage counters that
  are kept are modelled.
\<close>

record rerank_result =
  rk_index :: int
  rk_score :: pyfloat

datatype cost_measurement = Reported | NotAvailable | NotApplicable

record rerank_response =
  rs_results :: "rerank_result list"
  rs_usage :: "(ustr, json) dict"
  rs_cost :: "rat option"
  rs_measure :: cost_measurement

datatype rerank_output = RankList "rerank_result list" | RankResponse rerank_response

section \<open>Local providers\<close>

definition no_rerank :: "ustr \<Rightarrow> ustr list \<Rightarrow> int \<Rightarrow> rerank_result list" where
  "no_rerank q docs top_k =
    map (\<lambda>i. \<lparr>rk_index = int i, rk_score = Fin (of_int (int (length docs) - int i))\<rparr>)
      [0..<nat (min top_k (int (length docs)))]"

definition rerank_terms :: "ustr \<Rightarrow> ustr set" where
  "rerank_terms s = set (map lower (re_findall token_rx s))"

definition overlap_score :: "ustr \<Rightarrow> ustr \<Rightarrow> rat" where
  "overlap_score q d =
    (let qt = rerank_terms q; dt = rerank_terms d; n = card (qt \<union> dt) in
     of_nat (card (qt \<inter> dt)) / of_nat (if n = 0 then 1 else n))"

definition deterministic_rerank :: "ustr \<Rightarrow> ustr list \<Rightarrow> int \<Rightarrow> rerank_result list" where
  "deterministic_rerank q docs top_k =
    py_take top_k (sort_key (\<lambda>r. (- fin_val (rk_score r), rk_index r))
      (map (\<lambda>(i, d). \<lparr>rk_index = int i, rk_score = Fin (overlap_score q d)\<rparr>) (enum_from 0 docs)))"

section \<open>The remote provider\<close>

fun validate_result :: "nat \<Rightarrow> int list \<Rightarrow> json \<Rightarrow> exn + rerank_result" where
  "validate_result n seen (JObj d) =
    (case jget d (asc ''index'') of
       JInt index \<Rightarrow>
         if index \<in> set seen \<or> \<not> (0 \<le> index \<and> index < int n) then
           Inl (ProviderResponseError ''remote_rerank'' ''invalid_result_index'')
         else
           let score = jget d (asc ''relevance_score'') in
           if \<not> is_number score then
             Inl (ProviderResponseError ''remote_rerank'' ''invalid_result_score'')
           else rbind (to_float score) (\<lambda>s.
             if \<not> isfinite s \<or> \<not> unit_interval s then
               Inl (ProviderResponseError ''remote_rerank'' ''invalid_result_score'')
             else Inr \<lparr>rk_index = index, rk_score = s\<rparr>)
     | _ \<Rightarrow> Inl (ProviderResponseError ''remote_rerank'' ''invalid_result_index''))"
| "validate_result n seen _ = Inl (ProviderResponseError ''remote_rerank'' ''invalid_result_shape'')"

fun validate_items :: "nat \<Rightarrow> int list \<Rightarrow> json list \<Rightarrow> exn + rerank_result list" where
  "validate_items n seen [] = Inr []"
| "validate_items n seen (x # xs) =
    rbind (validate_result n seen x) (\<lambda>r.
    rbind (validate_items n (rk_index r # seen) xs) (\<lambda>rs. Inr (r # rs)))"

definition validate_results :: "json list \<Rightarrow> nat \<Rightarrow> int \<Rightarrow> exn + rerank_result list" where
  "validate_results raw n top_k =
    (if raw = [] then Inl (ProviderResponseError ''remote_rerank'' ''empty_results'')
     else if min (int n) top_k < int (length raw) then
       Inl (ProviderResponseError ''remote_rerank'' ''too_many_results'')
     else validate_items n [] raw)"

text \<open>The billing counters that are kept: finite numbers only; \<open>setdefault\<close> for the second table.\<close>

definition counter_ok :: "json \<Rightarrow> exn + bool" where
  "counter_ok v = (if is_number v then rbind (to_float v) (\<lambda>x. Inr (isfinite x)) else Inr False)"

fun add_counters :: "bool \<Rightarrow> (ustr \<times> json) list \<Rightarrow> (ustr, json) dict \<Rightarrow> exn + (ustr, json) dict" where
  "add_counters overwrite [] usage = Inr usage"
| "add_counters overwrite ((k, v) # t) usage =
    rbind (counter_ok v) (\<lambda>keep.
      add_counters overwrite t
        (if keep \<and> (overwrite \<or> dget usage k = None) then dset k v usage else usage))"

definition safe_usage :: "(ustr \<times> json) list \<Rightarrow> exn + (ustr, json) dict" where
  "safe_usage payload =
    rbind (case jget payload (asc ''meta'') of
        JObj meta \<Rightarrow> (case jget meta (asc ''billed_units'') of
            JObj units \<Rightarrow> add_counters True units [] | _ \<Rightarrow> Inr [])
      | _ \<Rightarrow> Inr []) (\<lambda>usage.
    case jget payload (asc ''usage'') of
      JObj raw \<Rightarrow> add_counters False raw usage | _ \<Rightarrow> Inr usage)"

text \<open>What one POST comes to.\<close>

datatype http_outcome =
    HttpTimeout
  | HttpTransportError
  | HttpStatus int                \<comment> \<open>an error status, for which \<open>raise_for_status\<close> raises\<close>
  | HttpNotJson
  | HttpJson json

definition raise_response :: "string \<Rightarrow> exn + 'a" where
  "raise_response reason = Inl (ProviderResponseError ''remote_rerank'' reason)"

definition raise_unavailable :: "string \<Rightarrow> exn + 'a" where
  "raise_unavailable reason = Inl (ProviderUnavailableError ''remote_rerank'' reason)"

fun remote_payload :: "nat \<Rightarrow> int \<Rightarrow> json \<Rightarrow> exn + rerank_response" where
  "remote_payload n top_k (JObj payload) =
    (case jget payload (asc ''results'') of
       JList raw \<Rightarrow>
         rbind (validate_results raw n top_k) (\<lambda>rs.
         rbind (safe_usage payload) (\<lambda>usage.
         Inr \<lparr>rs_results = rs, rs_usage = usage, rs_cost = None, rs_measure = NotAvailable\<rparr>))
     | _ \<Rightarrow> raise_response ''invalid_response_shape'')"
| "remote_payload n top_k _ = raise_response ''invalid_response_shape''"

definition remote_rerank :: "(ustr \<Rightarrow> ustr list \<Rightarrow> int \<Rightarrow> http_outcome) \<Rightarrow> ustr option \<Rightarrow>
    ustr \<Rightarrow> ustr list \<Rightarrow> int \<Rightarrow> exn + rerank_response" where
  "remote_rerank post api_key q docs top_k =
    (if docs = [] then
       Inr \<lparr>rs_results = [], rs_usage = [], rs_cost = None, rs_measure = NotApplicable\<rparr>
     else if top_k \<le> 0 then Inl (ValueError ''top_k must be positive'')
     else if api_key = None then raise_unavailable ''API key is not configured''
     else case post q docs top_k of
       HttpTimeout \<Rightarrow> raise_unavailable ''request_timeout''
     | HttpStatus status \<Rightarrow> raise_unavailable (''http_status_'' @ show_string status)
     | HttpTransportError \<Rightarrow> raise_unavailable ''transport_error''
     | HttpNotJson \<Rightarrow> raise_response ''invalid_json''
     | HttpJson payload \<Rightarrow> remote_payload (length docs) top_k payload)"

section \<open>What a validated result list is\<close>

definition valid_ranking :: "nat \<Rightarrow> rerank_result list \<Rightarrow> bool" where
  "valid_ranking n rs \<longleftrightarrow> distinct (map rk_index rs)
    \<and> (\<forall>r \<in> set rs. 0 \<le> rk_index r \<and> rk_index r < int n \<and> unit_interval (rk_score r))"

lemma validate_result_ok:
  "validate_result n seen x = Inr r \<Longrightarrow>
    rk_index r \<notin> set seen \<and> 0 \<le> rk_index r \<and> rk_index r < int n \<and> unit_interval (rk_score r)"
  by (cases "(n, seen, x)" rule: validate_result.cases)
    (auto simp: Let_def rbind_Inr split: json.splits if_splits)

lemma validate_items_ok:
  "validate_items n seen xs = Inr rs \<Longrightarrow>
    valid_ranking n rs \<and> rk_index ` set rs \<inter> set seen = {} \<and> length rs = length xs"
proof (induction n seen xs arbitrary: rs rule: validate_items.induct)
  case (1 n seen)
  then show ?case by (simp add: valid_ranking_def)
next
  case (2 n seen x xs)
  then obtain r rs' where r: "validate_result n seen x = Inr r"
    and rs: "validate_items n (rk_index r # seen) xs = Inr rs'" "rs = r # rs'"
    by (auto simp: rbind_Inr)
  show ?case
    using "2.IH" [OF rs(1)] rs(2) validate_result_ok [OF r] by (auto simp: valid_ranking_def)
qed

lemma validate_results_ok:
  "validate_results raw n top_k = Inr rs \<Longrightarrow>
    valid_ranking n rs \<and> rs \<noteq> [] \<and> int (length rs) \<le> min (int n) top_k"
  using validate_items_ok [of n "[]" raw rs]
  by (auto simp: validate_results_def split: if_splits)

lemma overlap_unit: "0 \<le> overlap_score q d \<and> overlap_score q d \<le> 1"
proof -
  have "card (rerank_terms q \<inter> rerank_terms d) \<le> card (rerank_terms q \<union> rerank_terms d)"
    by (rule card_mono) (auto simp: rerank_terms_def)
  then show ?thesis by (auto simp: overlap_score_def Let_def divide_le_eq_1)
qed

lemma deterministic_rerank_ok:
  "valid_ranking (length docs) (deterministic_rerank q docs k)
    \<and> sorted (map (\<lambda>r. - fin_val (rk_score r)) (deterministic_rerank q docs k))"
proof -
  let ?rs = "map (\<lambda>(i, d). \<lparr>rk_index = int i, rk_score = Fin (overlap_score q d)\<rparr>) (enum_from 0 docs)"
  let ?key = "\<lambda>r. (- fin_val (rk_score r), rk_index r)"
  obtain n where "py_take k (sort_key ?key ?rs) = take n (sort_key ?key ?rs)"
    using py_take_take by blast
  then have n: "deterministic_rerank q docs k = take n (sort_key ?key ?rs)"
    by (simp only: deterministic_rerank_def)
  have "map rk_index ?rs = map int [0..<length docs]"
    by (rule nth_equalityI) (simp_all add: enumerate_eq_zip case_prod_beta)
  then have "distinct (map rk_index ?rs)" by (simp add: distinct_map)
  then have d: "distinct (map rk_index (sort_key ?key ?rs))"
    by (metis (no_types, lifting) distinct_map distinct_sort set_sort)
  have mem: "0 \<le> rk_index r \<and> rk_index r < int (length docs) \<and> unit_interval (rk_score r)"
    if r: "r \<in> set ?rs" for r
  proof -
    obtain i e where "(i, e) \<in> set (enum_from 0 docs)"
      "r = \<lparr>rk_index = int i, rk_score = Fin (overlap_score q e)\<rparr>" using r by auto
    then show ?thesis using overlap_unit by (simp add: in_set_enumerate_eq)
  qed
  have "sorted (map ?key (sort_key ?key ?rs))" by simp
  then have "sorted_wrt (\<lambda>a b. ?key a \<le> ?key b) (sort_key ?key ?rs)" unfolding sorted_map .
  then have "sorted_wrt (\<lambda>a b. - fin_val (rk_score a) \<le> - fin_val (rk_score b)) (sort_key ?key ?rs)"
    by (rule sorted_wrt_mono_rel [rotated]) (auto simp: less_eq_prod_def)
  then have "sorted (map (\<lambda>r. - fin_val (rk_score r)) (take n (sort_key ?key ?rs)))"
    by (simp only: sorted_map sorted_wrt_take)
  moreover have "valid_ranking (length docs) (take n (sort_key ?key ?rs))"
    unfolding valid_ranking_def
  proof (intro conjI ballI)
    show "distinct (map rk_index (take n (sort_key ?key ?rs)))"
      using d by (simp only: distinct_take flip: take_map)
  qed (use mem in \<open>auto dest!: in_set_takeD simp del: set_map\<close>)
  ultimately show ?thesis unfolding n by simp
qed

section \<open>Properties\<close>

theorem remote_rerank_validated:
  assumes "docs \<noteq> []"
  shows "case remote_rerank post api_key q docs top_k of
      Inl e \<Rightarrow> True
    | Inr r \<Rightarrow> valid_ranking (length docs) (rs_results r) \<and> rs_results r \<noteq> []
        \<and> int (length (rs_results r)) \<le> min (int (length docs)) top_k \<and> api_key \<noteq> None"
proof (cases "remote_rerank post api_key q docs top_k")
  case (Inr r)
  then obtain payload where p: "remote_payload (length docs) top_k payload = Inr r" "api_key \<noteq> None"
    using assms
    by (auto simp: remote_rerank_def raise_unavailable_def raise_response_def
        split: if_splits http_outcome.splits)
  then obtain raw where "validate_results raw (length docs) top_k = Inr (rs_results r)"
    by (cases "(length docs, top_k, payload)" rule: remote_payload.cases)
      (auto simp: raise_response_def rbind_Inr split: json.splits)
  then show ?thesis using Inr p validate_results_ok by auto
qed simp

lemma remote_rerank_validated_witness:
  "rs_results (projr (remote_rerank
      (\<lambda>q docs k. HttpJson (JObj [(asc ''results'', JList [JObj [(asc ''index'', JInt 0),
        (asc ''relevance_score'', JFloat (Fin (1 / 2)))]])]))
      (Some (asc ''k'')) (asc ''q'') [asc ''d''] 1)) \<noteq> []"
proof -
  let ?r = "remote_rerank
      (\<lambda>q docs k. HttpJson (JObj [(asc ''results'', JList [JObj [(asc ''index'', JInt 0),
        (asc ''relevance_score'', JFloat (Fin (1 / 2)))]])]))
      (Some (asc ''k'')) (asc ''q'') [asc ''d''] 1"
  have "isl ?r = False" by code_simp
  then obtain r where "?r = Inr r" by (cases ?r) auto
  then show ?thesis
    using remote_rerank_validated [where docs = "[asc ''d'']" and q = "asc ''q''" and top_k = 1
      and api_key = "Some (asc ''k'')" and post = "\<lambda>q docs k. HttpJson (JObj [(asc ''results'', JList [JObj [(asc ''index'', JInt 0),
        (asc ''relevance_score'', JFloat (Fin (1 / 2)))]])])"] by simp
qed

theorem deterministic_rerank_sound:
  "valid_ranking (length docs) (deterministic_rerank q docs k)
    \<and> sorted (map (\<lambda>r. - fin_val (rk_score r)) (deterministic_rerank q docs k))"
  by (rule deterministic_rerank_ok)

end
