(* ===== verification/Engine.thy ===== *)
theory Engine
  imports Rerank
begin

text \<open>
  \<open>backend/app/retrieval/engine.py\<close>: the retrieval pipeline of one question. Every stage is a
  function that returns the metric events it records and either an exception or its result; the
  pipeline is their sequence. The embedding, vector and rerank providers are arguments of the
  model (record \<open>engine\<close>). Timings and the random trace id are left out, and so is the recorder
  itself: the code discards whatever it raises.

  The locale \<open>engine_sources\<close> states what the pipeline gets from two hit sources, and is interpreted
  for the BM25 index with the in-memory vector store.
\<close>

section \<open>Configuration\<close>

datatype retrieval_mode = BM25Mode | VectorMode | HybridMode | HybridRerankMode

datatype failure_policy = Open | Closed

record retrieval_config =
  rc_bm25 :: int
  rc_vector :: int
  rc_rrf :: int
  rc_rerank :: int
  rc_final :: int
  rc_threshold :: rat
  rc_policy :: failure_policy

fun parse_policy :: "string \<Rightarrow> failure_policy option" where
  "parse_policy p = (if p = ''open'' then Some Open else if p = ''closed'' then Some Closed else None)"

fun policy_value :: "failure_policy \<Rightarrow> string" where
  "policy_value Open = ''open''"
| "policy_value Closed = ''closed''"

definition mk_config :: "int \<Rightarrow> int \<Rightarrow> int \<Rightarrow> int \<Rightarrow> int \<Rightarrow> rat \<Rightarrow> string \<Rightarrow> exn + retrieval_config" where
  "mk_config b v r rr f threshold policy =
    (if list_ex (\<lambda>x. x \<le> 0) [b, v, r, rr, f] then
       Inl (ValueError ''retrieval limits and rrf_k must be positive'')
     else if threshold < 0 then Inl (ValueError ''score_threshold must be non-negative'')
     else case parse_policy policy of
       None \<Rightarrow> Inl (ValueError ''rerank_failure_policy must be open or closed'')
     | Some p \<Rightarrow> Inr \<lparr>rc_bm25 = b, rc_vector = v, rc_rrf = r, rc_rerank = rr, rc_final = f,
         rc_threshold = threshold, rc_policy = p\<rparr>)"

definition config_ok :: "retrieval_config \<Rightarrow> bool" where
  "config_ok c \<longleftrightarrow> 0 < rc_bm25 c \<and> 0 < rc_vector c \<and> 0 < rc_rrf c \<and> 0 < rc_rerank c \<and> 0 < rc_final c
    \<and> 0 \<le> rc_threshold c"

lemma mk_config_ok: "mk_config b v r rr f t p = Inr c \<Longrightarrow> config_ok c"
  by (auto simp: mk_config_def config_ok_def split: if_splits option.splits)

section \<open>The engine and its trace\<close>


datatype outcome = Success | Error | Skipped
datatype event = Stage string outcome | Provider string outcome

type_synonym 'a logged = "event list \<times> (exn + 'a)"

fun lbind :: "'a logged \<Rightarrow> ('a \<Rightarrow> 'b logged) \<Rightarrow> 'b logged" where
  "lbind (es, Inl e) f = (es, Inl e)"
| "lbind (es, Inr a) f = (case f a of (fs, r) \<Rightarrow> (es @ fs, r))"

lemma snd_lbind: "snd (lbind m f) = rbind (snd m) (\<lambda>a. snd (f a))"
  by (cases "(m, f)" rule: lbind.cases) (auto split: prod.splits)

lemma lbind_Inr: "snd (lbind m f) = Inr b \<longleftrightarrow> (\<exists>a. snd m = Inr a \<and> snd (f a) = Inr b)"
  by (cases "(m, f)" rule: lbind.cases) (auto split: prod.splits)

record engine =
  en_bm25 :: "ustr \<Rightarrow> int \<Rightarrow> pydict \<Rightarrow> exn + hit list"
  en_embed :: "ustr \<Rightarrow> exn + rat list"
  en_vector :: "rat list \<Rightarrow> int \<Rightarrow> pydict \<Rightarrow> exn + hit list"
  en_rerank :: "ustr \<Rightarrow> ustr list \<Rightarrow> int \<Rightarrow> exn + rerank_output"
  en_provider :: string
  en_model :: string
  en_config :: retrieval_config

record rerank_meta =
  rm_applied :: bool
  rm_provider :: string
  rm_model :: string
  rm_policy :: string
  rm_error :: "string option"
  rm_candidates :: nat
  rm_reranked :: nat
  rm_usage :: "(ustr, json) dict"
  rm_cost :: "rat option"
  rm_measure :: cost_measurement

record trace =
  tr_mode :: retrieval_mode
  tr_analysis :: query_analysis
  tr_config :: retrieval_config
  tr_bm25 :: "hit list"
  tr_vector :: "hit list"
  tr_fusion :: "hit list"
  tr_rerank :: "hit list"
  tr_final :: "hit list"
  tr_meta :: rerank_meta
  tr_warnings :: "string list"

section \<open>Error codes\<close>

text \<open>\<open>re.sub(r"(?<!^)(?=[A-Z])", "_", name).lower()\<close> on an ASCII class name.\<close>

definition upper_ascii :: "char \<Rightarrow> bool" where
  "upper_ascii c \<longleftrightarrow> CHR ''A'' \<le> c \<and> c \<le> CHR ''Z''"

fun snake :: "string \<Rightarrow> string" where
  "snake [] = []"
| "snake (c # cs) = (if upper_ascii c then [CHR ''_'', c] else [c]) @ snake cs"

definition class_name :: "string \<Rightarrow> string" where
  "class_name n = map (\<lambda>c. char_of (hd (lower_char (of_char c)) :: int))
    (case n of [] \<Rightarrow> [] | c # cs \<Rightarrow> c # snake cs)"

definition status_rx :: rx where
  "status_rx = seqs [lit (asc ''http_status_''), Cls False [(49, 53)], Cls False [(48, 57)], Cls False [(48, 57)]]"

definition reason_rx :: rx where
  "reason_rx = Seq (Cls False [(97, 122)]) (rtimes 0 63 (Cls False [(97, 122), (48, 57), (95, 95)]))"

fun rerank_error_code :: "exn \<Rightarrow> string" where
  "rerank_error_code (ProviderUnavailableError p reason) =
    (if reason = ''API key is not configured'' then ''missing_credentials''
     else if re_fullmatch status_rx (asc reason) then reason
     else if reason = ''request_timeout'' \<or> reason = ''transport_error'' then reason
     else ''provider_unavailable'')"
| "rerank_error_code (ProviderResponseError p reason) =
    (if re_fullmatch reason_rx (asc reason) then reason else ''invalid_response'')"
| "rerank_error_code e = ''unexpected_'' @ class_name (exn_class e)"

section \<open>The stages\<close>

definition uses_bm25 :: "retrieval_mode \<Rightarrow> bool" where
  "uses_bm25 m \<longleftrightarrow> m = BM25Mode \<or> m = HybridMode \<or> m = HybridRerankMode"

definition uses_vector :: "retrieval_mode \<Rightarrow> bool" where
  "uses_vector m \<longleftrightarrow> m = VectorMode \<or> m = HybridMode \<or> m = HybridRerankMode"

definition bm25_stage :: "engine \<Rightarrow> retrieval_mode \<Rightarrow> ustr \<Rightarrow> int \<Rightarrow> pydict \<Rightarrow> hit list logged" where
  "bm25_stage en mode q k fs =
    (if uses_bm25 mode then
       (case en_bm25 en q k fs of
          Inl e \<Rightarrow> ([Stage ''bm25'' Error], Inl e)
        | Inr hs \<Rightarrow> ([Stage ''bm25'' Success], Inr hs))
     else ([], Inr []))"

definition vector_stage :: "engine \<Rightarrow> retrieval_mode \<Rightarrow> ustr \<Rightarrow> int \<Rightarrow> pydict \<Rightarrow> hit list logged" where
  "vector_stage en mode q k fs =
    (if uses_vector mode then
       (case en_embed en q of
          Inl e \<Rightarrow> ([Provider ''embed_query'' Error, Stage ''embedding'' Error], Inl e)
        | Inr v \<Rightarrow>
            lbind ([Provider ''embed_query'' Success, Stage ''embedding'' Success], Inr v) (\<lambda>v.
              case en_vector en v k fs of
                Inl e \<Rightarrow> ([Provider ''vector_search'' Error, Stage ''vector_retrieval'' Error], Inl e)
              | Inr hs \<Rightarrow> ([Provider ''vector_search'' Success, Stage ''vector_retrieval'' Success], Inr hs)))
     else ([], Inr []))"

definition fusion_stage ::
    "engine \<Rightarrow> retrieval_mode \<Rightarrow> int \<Rightarrow> hit list \<Rightarrow> hit list \<Rightarrow> hit list logged" where
  "fusion_stage en mode limit bm vs =
    (case mode of
       BM25Mode \<Rightarrow> ([], Inr bm)
     | VectorMode \<Rightarrow> ([], Inr vs)
     | _ \<Rightarrow>
       (case reciprocal_rank_fusion (rc_rrf (en_config en)) (Some limit) [bm, vs] of
          Inl e \<Rightarrow> ([Stage ''hybrid'' Error], Inl e)
        | Inr hs \<Rightarrow> ([Stage ''hybrid'' Success], Inr hs)))"

fun validated_items :: "hit list \<Rightarrow> int list \<Rightarrow> nat \<Rightarrow> rerank_result list \<Rightarrow> exn + hit list" where
  "validated_items fused seen r [] = Inr []"
| "validated_items fused seen r (item # items) =
    (if rk_index item \<in> set seen \<or> \<not> (0 \<le> rk_index item \<and> rk_index item < int (length fused)) then
       Inl (ProviderResponseError ''rerank'' ''invalid_result_index'')
     else if \<not> isfinite (rk_score item) \<or> \<not> unit_interval (rk_score item) then
       Inl (ProviderResponseError ''rerank'' ''invalid_result_score'')
     else
       rbind (validated_items fused (rk_index item # seen) (Suc r) items) (\<lambda>hs.
         Inr (with_score (fused ! nat (rk_index item)) (fin_val (rk_score item)) r (asc ''rerank'') # hs)))"

definition validated_rerank :: "hit list \<Rightarrow> rerank_result list \<Rightarrow> exn + hit list" where
  "validated_rerank fused ranking =
    rbind (validated_items fused [] 1 ranking) (\<lambda>hs.
      if hs = [] then Inl (ProviderResponseError ''rerank'' ''empty_results'') else Inr hs)"

definition local_measure :: "string \<Rightarrow> cost_measurement" where
  "local_measure provider =
    (if provider = ''deterministic'' \<or> provider = ''none'' then NotApplicable else NotAvailable)"

fun unpack_output :: "string \<Rightarrow> rerank_output \<Rightarrow>
    rerank_result list \<times> (ustr, json) dict \<times> rat option \<times> cost_measurement" where
  "unpack_output p (RankResponse r) = (rs_results r, rs_usage r, rs_cost r, rs_measure r)"
| "unpack_output p (RankList l) = (l, [], None, local_measure p)"

definition initial_meta :: "engine \<Rightarrow> hit list \<Rightarrow> rerank_meta" where
  "initial_meta en fused =
    \<lparr>rm_applied = False, rm_provider = en_provider en, rm_model = en_model en,
     rm_policy = policy_value (rc_policy (en_config en)), rm_error = None,
     rm_candidates = length fused, rm_reranked = 0, rm_usage = [], rm_cost = None,
     rm_measure = NotApplicable\<rparr>"

text \<open>The stage gives the candidates, the reranked hits, the metadata and the warnings.\<close>

definition rerank_stage :: "engine \<Rightarrow> retrieval_mode \<Rightarrow> ustr \<Rightarrow> int \<Rightarrow> hit list \<Rightarrow>
    (hit list \<times> hit list \<times> rerank_meta \<times> string list) logged" where
  "rerank_stage en mode q k fused =
    (let m = initial_meta en fused in
     if mode = HybridRerankMode \<and> fused \<noteq> [] then
       if en_model en = ''disabled'' then
         ([Stage ''rerank'' Skipped], Inr (fused, [], m, [''rerank_provider_disabled'']))
       else
         (case rbind (en_rerank en q (map h_content fused) k) (\<lambda>out.
            case unpack_output (en_provider en) out of (ranking, usage, cost, cm) \<Rightarrow>
            rbind (validated_rerank fused ranking) (\<lambda>hs. Inr (hs, usage, cost, cm))) of
            Inr (hs, usage, cost, cm) \<Rightarrow>
              ([Provider ''rerank'' Success, Stage ''rerank'' Success],
               Inr (hs, hs, m\<lparr>rm_applied := True, rm_reranked := length hs, rm_usage := usage,
                 rm_cost := cost, rm_measure := cm\<rparr>, []))
          | Inl e \<Rightarrow>
              (let code = rerank_error_code e;
                   m' = m\<lparr>rm_error := Some code, rm_measure := local_measure (en_provider en)\<rparr> in
               ([Provider ''rerank'' Error, Stage ''rerank'' Error],
                if rc_policy (en_config en) = Closed then Inl e
                else Inr (fused, [], m', [''rerank_failed_open:'' @ code]))))
     else ([], Inr (fused, [], m, [])))"

definition final_hits :: "rat \<Rightarrow> int \<Rightarrow> hit list \<Rightarrow> hit list" where
  "final_hits threshold k candidates = py_take k (filter (\<lambda>h. threshold \<le> h_score h) candidates)"

text \<open>A limit of the request widens the limits of the configuration, never narrows them.\<close>

definition effective_config :: "retrieval_config \<Rightarrow> int option \<Rightarrow> retrieval_config" where
  "effective_config c top_k =
    (case top_k of
       None \<Rightarrow> c
     | Some k \<Rightarrow> c\<lparr>rc_bm25 := max (rc_bm25 c) k, rc_vector := max (rc_vector c) k,
         rc_rerank := max (rc_rerank c) k, rc_final := k\<rparr>)"

fun bad_limit :: "int option \<Rightarrow> bool" where
  "bad_limit None = False"
| "bad_limit (Some k) = (\<not> (1 \<le> k \<and> k \<le> 200))"

definition engine_search ::
    "engine \<Rightarrow> ustr \<Rightarrow> retrieval_mode \<Rightarrow> pydict \<Rightarrow> int option \<Rightarrow> trace logged" where
  "engine_search en query mode filters top_k =
    (if bad_limit top_k then
       ([], Inl (ValueError ''top_k must be between 1 and 200''))
     else
       let c = en_config en;
           final_k = (case top_k of None \<Rightarrow> rc_final c | Some k \<Rightarrow> k);
           rerank_k = max (rc_rerank c) final_k in
       lbind ([], analyze query filters) (\<lambda>a.
       lbind (bm25_stage en mode (qa_normalized a) (max (rc_bm25 c) final_k) (qa_applied a)) (\<lambda>bm.
       lbind (vector_stage en mode (qa_normalized a) (max (rc_vector c) final_k) (qa_applied a)) (\<lambda>vs.
       lbind (fusion_stage en mode (max rerank_k final_k) bm vs) (\<lambda>fused.
       lbind (rerank_stage en mode (qa_normalized a) rerank_k fused) (\<lambda>(cands, reranked, meta, warnings).
       ([], Inr \<lparr>tr_mode = mode, tr_analysis = a, tr_config = effective_config c top_k,
         tr_bm25 = bm, tr_vector = vs, tr_fusion = fused, tr_rerank = reranked,
         tr_final = final_hits (rc_threshold c) final_k cands, tr_meta = meta,
         tr_warnings = warnings\<rparr>)))))))"

section \<open>Reranking keeps the candidates\<close>

lemma validated_items_ok:
  "validated_items fused seen r items = Inr hs \<Longrightarrow>
    length hs = length items \<and> distinct (map rk_index items) \<and> rk_index ` set items \<inter> set seen = {}
    \<and> (\<forall>item \<in> set items. 0 \<le> rk_index item \<and> rk_index item < int (length fused))
    \<and> map h_chunk hs = map (\<lambda>item. h_chunk (fused ! nat (rk_index item))) items
    \<and> map h_rank hs = [r..<r + length hs]
    \<and> (\<forall>h \<in> set hs. 0 \<le> h_score h \<and> h_score h \<le> 1 \<and> (\<exists>g \<in> set fused. same_chunk h g))"
proof (induction fused seen r items arbitrary: hs rule: validated_items.induct)
  case (1 fused seen r)
  then show ?case by simp
next
  case (2 fused seen r item items)
  let ?g = "fused ! nat (rk_index item)"
  from "2.prems" have i: "rk_index item \<notin> set seen" "0 \<le> rk_index item" "rk_index item < int (length fused)"
    and u: "unit_interval (rk_score item)"
    by (auto split: if_splits)
  from "2.prems" obtain hs' where rec: "validated_items fused (rk_index item # seen) (Suc r) items = Inr hs'"
    and hs: "hs = with_score ?g (fin_val (rk_score item)) r (asc ''rerank'') # hs'"
    by (auto simp: rbind_Inr split: if_splits)
  have mem: "?g \<in> set fused" using i by (simp add: nat_less_iff)
  have s: "0 \<le> fin_val (rk_score item) \<and> fin_val (rk_score item) \<le> 1"
    using u by (cases "rk_score item") auto
  have fin: "isfinite (rk_score item)" using u by (cases "rk_score item") auto
  have same: "\<exists>g \<in> set fused. same_chunk (with_score ?g s r src) g" for s r src
    using mem same_chunk_with_score by blast
  note IH = "2.IH" [OF _ _ rec]
  show ?case using IH i u s fin same hs by (auto simp: upt_conv_Cons simp del: upt_Suc)
qed

lemma validated_rerank_ok:
  assumes "validated_rerank fused ranking = Inr hs" "distinct (map h_chunk fused)"
  shows "hs \<noteq> [] \<and> distinct (map h_chunk hs) \<and> map h_rank hs = [1..<Suc (length hs)]
    \<and> (\<forall>h \<in> set hs. 0 \<le> h_score h \<and> h_score h \<le> 1 \<and> (\<exists>g \<in> set fused. same_chunk h g))"
proof -
  have v: "validated_items fused [] 1 ranking = Inr hs" "hs \<noteq> []"
    using assms(1) by (auto simp: validated_rerank_def rbind_Inr split: if_splits)
  note ok = validated_items_ok [OF v(1)]
  let ?f = "\<lambda>item. nat (rk_index item)"
  have "inj_on ?f (set ranking)"
    using ok by (intro inj_onI) (metis distinct_map eq_nat_nat_iff inj_onD)
  then have "distinct (map ?f ranking)" using ok by (simp add: distinct_map)
  moreover have "\<forall>i \<in> set (map ?f ranking). i < length (map h_chunk fused)"
    using ok by (auto simp: nat_less_iff)
  ultimately have "distinct (map (\<lambda>i. map h_chunk fused ! i) (map ?f ranking))"
    using assms(2) inj_on_nth [of "map h_chunk fused" "set (map ?f ranking)"]
    by (subst distinct_map) blast
  moreover have "map (\<lambda>i. map h_chunk fused ! i) (map ?f ranking) = map h_chunk hs"
    using ok by (auto simp: nat_less_iff)
  ultimately have "distinct (map h_chunk hs)" by (simp only:)
  then show ?thesis using ok v(2) by auto
qed

lemma same_chunk_refl [simp]: "same_chunk h h"
  by (simp add: same_chunk_def)

lemma same_chunk_trans: "same_chunk a b \<Longrightarrow> same_chunk b c \<Longrightarrow> same_chunk a c"
  by (simp add: same_chunk_def)

text \<open>Either the fused hits go on unchanged, or a validated reranking of them.\<close>

lemma rerank_stage_cases:
  assumes "snd (rerank_stage en mode q k fused) = Inr (cands, reranked, meta, ws)"
  shows "cands = fused \<or> (\<exists>ranking. validated_rerank fused ranking = Inr cands)"
  using assms
  by (auto simp: rerank_stage_def Let_def rbind_Inr case_prod_beta split: if_splits sum.splits)

lemma rerank_stage_ok:
  assumes "snd (rerank_stage en mode q k fused) = Inr (cands, reranked, meta, ws)"
    and "distinct (map h_chunk fused)"
  shows "distinct (map h_chunk cands) \<and> (\<forall>h \<in> set cands. \<exists>g \<in> set fused. same_chunk h g)"
  using rerank_stage_cases [OF assms(1)]
proof
  assume "cands = fused"
  then show ?thesis using assms(2) same_chunk_refl by blast
next
  assume "\<exists>ranking. validated_rerank fused ranking = Inr cands"
  then obtain ranking where "validated_rerank fused ranking = Inr cands" by blast
  from validated_rerank_ok [OF this assms(2)] show ?thesis by blast
qed

lemma final_hits_ok:
  assumes "0 \<le> k"
  shows "int (length (final_hits t k hs)) \<le> k \<and> set (final_hits t k hs) \<subseteq> set hs
    \<and> (\<forall>h \<in> set (final_hits t k hs). t \<le> h_score h)
    \<and> (distinct (map h_chunk hs) \<longrightarrow> distinct (map h_chunk (final_hits t k hs)))"
  using assms
  by (auto simp: final_hits_def distinct_map_filter distinct_take take_map [symmetric]
      dest!: in_set_takeD)


section \<open>The pipeline over two hit sources\<close>

locale engine_sources = keyword: hit_source kinv kfind kadm + dense: hit_source dinv dfind dadm
  for kinv :: "'s \<Rightarrow> bool" and kfind :: "'s \<Rightarrow> 'q \<Rightarrow> int \<Rightarrow> pydict \<Rightarrow> exn + hit list"
    and kadm :: "pydict \<Rightarrow> hit \<Rightarrow> bool"
    and dinv :: "'t \<Rightarrow> bool" and dfind :: "'t \<Rightarrow> 'p \<Rightarrow> int \<Rightarrow> pydict \<Rightarrow> exn + hit list"
    and dadm :: "pydict \<Rightarrow> hit \<Rightarrow> bool" +
  assumes kadm_same: "same_chunk h g \<Longrightarrow> kadm fs g \<Longrightarrow> kadm fs h"
    and dadm_same: "same_chunk h g \<Longrightarrow> dadm fs g \<Longrightarrow> dadm fs h"
begin

lemma bm25_stage_ok:
  assumes "snd (bm25_stage en mode q k fs) = Inr hs" "en_bm25 en q k fs = kfind s q' k fs" "kinv s"
  shows "distinct (map h_chunk hs) \<and> (\<forall>h \<in> set hs. kadm fs h)"
  using assms keyword.found_distinct [of s q' k fs hs] keyword.found_admitted [of s q' k fs hs]
  by (auto simp: bm25_stage_def split: if_splits sum.splits)

lemma vector_stage_ok:
  assumes "snd (vector_stage en mode q k fs) = Inr hs" "dinv s"
    and "\<And>v. \<exists>q'. en_vector en v k fs = dfind s q' k fs"
  shows "distinct (map h_chunk hs) \<and> (\<forall>h \<in> set hs. dadm fs h)"
proof (cases "hs = []")
  case False
  then obtain v where "en_vector en v k fs = Inr hs"
    using assms(1) by (auto simp: vector_stage_def lbind_Inr split: if_splits sum.splits)
  then obtain q' where "dfind s q' k fs = Inr hs" using assms(3) by metis
  then show ?thesis using assms(2) dense.found_distinct dense.found_admitted by blast
qed simp

lemma fusion_stage_ok:
  assumes "snd (fusion_stage en mode k bm vs) = Inr fused" "0 < rc_rrf (en_config en)"
    and "distinct (map h_chunk bm) \<and> (\<forall>h \<in> set bm. kadm fs h)"
    and "distinct (map h_chunk vs) \<and> (\<forall>h \<in> set vs. dadm fs h)"
  shows "distinct (map h_chunk fused) \<and> (\<forall>h \<in> set fused. kadm fs h \<or> dadm fs h)"
proof (cases "fused = bm \<or> fused = vs")
  case False
  then have "reciprocal_rank_fusion (rc_rrf (en_config en)) (Some k) [bm, vs] = Inr fused"
    using assms(1)
    by (auto simp: fusion_stage_def split: retrieval_mode.splits sum.splits)
  from rrf_result(1) [OF assms(2) this] have f: "distinct (map h_chunk fused)"
    "\<forall>h \<in> set fused. \<exists>g \<in> set bm \<union> set vs. same_chunk h g"
    by (auto simp: fused_ok_def)
  then show ?thesis using assms(3,4) kadm_same dadm_same by blast
qed (use assms in blast)

lemma search_sound:
  assumes r: "snd (engine_search en query mode filters top_k) = Inr t"
    and c: "config_ok (en_config en)" and inv: "kinv s" "dinv d"
    and k: "\<And>q k fs. 0 < k \<Longrightarrow> \<exists>q'. en_bm25 en q k fs = kfind s q' k fs"
    and v: "\<And>v k fs. 0 < k \<Longrightarrow> \<exists>q'. en_vector en v k fs = dfind d q' k fs"
  shows "distinct (map h_chunk (tr_final t))
    \<and> int (length (tr_final t)) \<le> (case top_k of None \<Rightarrow> rc_final (en_config en) | Some k \<Rightarrow> k)
    \<and> (\<forall>h \<in> set (tr_final t). rc_threshold (en_config en) \<le> h_score h
        \<and> (kadm (qa_applied (tr_analysis t)) h \<or> dadm (qa_applied (tr_analysis t)) h))"
proof -
  define fk where "fk = (case top_k of None \<Rightarrow> rc_final (en_config en) | Some k \<Rightarrow> k)"
  have fk: "0 < fk" using r c
    by (auto simp: fk_def engine_search_def config_ok_def split: option.splits if_splits)
  from r obtain a bm vs fused cands reranked meta ws where
    bm: "snd (bm25_stage en mode (qa_normalized a) (max (rc_bm25 (en_config en)) fk) (qa_applied a)) = Inr bm" and
    vs: "snd (vector_stage en mode (qa_normalized a) (max (rc_vector (en_config en)) fk) (qa_applied a)) = Inr vs" and
    fused: "snd (fusion_stage en mode (max (max (rc_rerank (en_config en)) fk) fk) bm vs) = Inr fused" and
    cands: "snd (rerank_stage en mode (qa_normalized a) (max (rc_rerank (en_config en)) fk) fused)
      = Inr (cands, reranked, meta, ws)" and
    t: "tr_final t = final_hits (rc_threshold (en_config en)) fk cands" "tr_analysis t = a"
    by (auto simp: engine_search_def Let_def lbind_Inr fk_def split: if_splits)
  have pos: "0 < max (rc_bm25 (en_config en)) fk" "0 < max (rc_vector (en_config en)) fk" using fk by auto
  obtain q' where "en_bm25 en (qa_normalized a) (max (rc_bm25 (en_config en)) fk) (qa_applied a)
      = kfind s q' (max (rc_bm25 (en_config en)) fk) (qa_applied a)" using k [OF pos(1)] by blast
  note b = bm25_stage_ok [OF bm this inv(1)] and d = vector_stage_ok [OF vs inv(2) v [OF pos(2)]]
  have f: "distinct (map h_chunk fused) \<and> (\<forall>h \<in> set fused. kadm (qa_applied a) h \<or> dadm (qa_applied a) h)"
    using fusion_stage_ok [OF fused _ b d] c by (simp add: config_ok_def)
  with rerank_stage_ok [OF cands] have "distinct (map h_chunk cands)"
    "\<forall>h \<in> set cands. kadm (qa_applied a) h \<or> dadm (qa_applied a) h"
    using kadm_same dadm_same by blast+
  then show ?thesis
    using final_hits_ok [of fk "rc_threshold (en_config en)" cands] fk t unfolding fk_def by auto
qed

end

interpretation sources: engine_sources bm25_inv
    "\<lambda>idx (get_scores, q) k fs. Inr (bm25_search get_scores idx q k fs)"
    "\<lambda>fs h. matches (h_meta h) fs" vs_inv vs_find vs_admits
  by unfold_locales (auto simp: same_chunk_def vs_admits_def)

text \<open>The engine of the program: the BM25 snapshot and the in-memory vector store.\<close>

definition program_engine :: "(ustr list list \<Rightarrow> ustr list \<Rightarrow> rat list) \<Rightarrow> (rat \<Rightarrow> rat) \<Rightarrow>
    (ustr \<Rightarrow> exn + rat list) \<Rightarrow> (ustr \<Rightarrow> ustr list \<Rightarrow> int \<Rightarrow> exn + rerank_output) \<Rightarrow>
    string \<Rightarrow> string \<Rightarrow> retrieval_config \<Rightarrow> bm25_index \<Rightarrow> vstore \<Rightarrow> engine" where
  "program_engine get_scores fsqrt embed_q rerank provider model c idx store =
    \<lparr>en_bm25 = \<lambda>q k fs. Inr (bm25_search get_scores idx q k fs), en_embed = embed_q,
     en_vector = vs_search fsqrt store, en_rerank = rerank, en_provider = provider,
     en_model = model, en_config = c\<rparr>"

section \<open>The failure policy of reranking\<close>

lemma stages_same_mode:
  "bm25_stage en HybridRerankMode q k fs = bm25_stage en HybridMode q k fs"
  "vector_stage en HybridRerankMode q k fs = vector_stage en HybridMode q k fs"
  "fusion_stage en HybridRerankMode n bm vs = fusion_stage en HybridMode n bm vs"
  by (simp_all add: bm25_stage_def vector_stage_def fusion_stage_def uses_bm25_def uses_vector_def)

lemma rerank_stage_hybrid:
  "rerank_stage en HybridMode q k fused = ([], Inr (fused, [], initial_meta en fused, []))"
  by (simp add: rerank_stage_def Let_def)

lemma rerank_stage_open:
  assumes "rc_policy (en_config en) = Open"
  shows "\<exists>cands reranked meta ws. snd (rerank_stage en mode q k fused) = Inr (cands, reranked, meta, ws)
    \<and> (rm_applied meta \<or> cands = fused)"
  using assms
  by (auto simp: rerank_stage_def Let_def initial_meta_def split: sum.splits prod.splits)

section \<open>Error codes carry no provider text\<close>

definition code_char :: "char \<Rightarrow> bool" where
  "code_char c \<longleftrightarrow> in_ranges (of_char c) [(97, 122), (48, 57), (95, 95)]"

definition bounded_code :: "string \<Rightarrow> bool" where
  "bounded_code s \<longleftrightarrow> s \<noteq> [] \<and> length s \<le> 64 \<and> list_all code_char s"

lemma lang_reason:
  assumes "lang reason_rx (asc s) ds"
  shows "bounded_code s"
proof -
  obtain c w ws where w: "asc s = c # w" "w = concat (map fst ws)" "97 \<le> c \<and> c \<le> 122"
    "\<forall>(u, d) \<in> set ws. lang (Cls False [(97, 122), (48, 57), (95, 95)]) u d" "length ws \<le> 63"
    using assms by (fastforce simp: reason_rx_def in_ranges_def)
  from w(4) have one: "\<forall>u \<in> fst ` set ws. \<exists>c. u = [c] \<and> in_ranges c [(97, 122), (48, 57), (95, 95)]"
    by auto
  then have "length (concat (map fst ws)) = length ws" by (induction ws) auto
  moreover have "\<forall>c \<in> set (concat (map fst ws)). in_ranges c [(97, 122), (48, 57), (95, 95)]"
    using one by fastforce
  ultimately have "length (asc s) \<le> 64" "\<forall>c \<in> set (asc s). in_ranges c [(97, 122), (48, 57), (95, 95)]"
    "asc s \<noteq> []"
    using w by (auto simp: in_ranges_def)
  then show ?thesis by (auto simp: bounded_code_def list_all_iff code_char_def asc_def)
qed

lemma lang_status:
  assumes "lang status_rx (asc s) ds"
  shows "bounded_code s"
proof -
  obtain a b c where "asc s = asc ''http_status_'' @ [a, b, c]" "49 \<le> a" "a \<le> 53" "48 \<le> b" "b \<le> 57"
    "48 \<le> c" "c \<le> 57"
    using assms by (auto simp: status_rx_def lang_lit in_ranges_def)
  then have "length (asc s) = 15" "\<forall>c \<in> set (asc s). in_ranges c [(97, 122), (48, 57), (95, 95)]"
    by (auto simp: asc_def in_ranges_def)
  then show ?thesis by (auto simp: bounded_code_def list_all_iff code_char_def asc_def)
qed

section \<open>Properties\<close>


definition sample_engine :: "failure_policy \<Rightarrow> engine" where
  "sample_engine p = program_engine (\<lambda>corpus q. [1, 2]) id (\<lambda>q. Inr [1])
     (\<lambda>q ds k. Inl (ProviderUnavailableError ''remote_rerank'' ''request_timeout'')) ''remote'' ''m''
     \<lparr>rc_bm25 = 20, rc_vector = 20, rc_rrf = 60, rc_rerank = 8, rc_final = 5, rc_threshold = 0, rc_policy = p\<rparr>
     (rebuild [sample_doc ''a'' ''x'', sample_doc ''b'' ''x y'']) \<lparr>vs_points = [], vs_dim = None\<rparr>"

lemma sample_search:
  "\<not> isl (snd (engine_search (sample_engine Open) (asc ''x'') HybridRerankMode [] None))
    \<and> rm_error (tr_meta (projr (snd (engine_search (sample_engine Open) (asc ''x'') HybridRerankMode [] None))))
        = Some ''request_timeout''
    \<and> isl (snd (engine_search (sample_engine Closed) (asc ''x'') HybridRerankMode [] None))"
  by code_simp


theorem rerank_failure_policy:
  assumes "snd (engine_search en query HybridMode filters top_k) = Inr th"
  shows "if rc_policy (en_config en) = Open
    then \<exists>t. snd (engine_search en query HybridRerankMode filters top_k) = Inr t
      \<and> (rm_applied (tr_meta t) \<or> tr_final t = tr_final th)
    else tr_fusion th \<noteq> [] \<and> en_model en \<noteq> ''disabled''
      \<and> (\<forall>docs k. en_rerank en (qa_normalized (tr_analysis th)) docs k = Inl e)
      \<longrightarrow> snd (engine_search en query HybridRerankMode filters top_k) = Inl e"
proof -
  define fk where "fk = (case top_k of None \<Rightarrow> rc_final (en_config en) | Some k \<Rightarrow> k)"
  define rk where "rk = max (rc_rerank (en_config en)) fk"
  have range: "\<not> bad_limit top_k"
    using assms by (simp add: engine_search_def split: if_splits)
  obtain a bm vs fused where
    a: "analyze query filters = Inr a" and
    bm: "snd (bm25_stage en HybridMode (qa_normalized a) (max (rc_bm25 (en_config en)) fk) (qa_applied a)) = Inr bm" and
    vs: "snd (vector_stage en HybridMode (qa_normalized a) (max (rc_vector (en_config en)) fk) (qa_applied a)) = Inr vs" and
    fused: "snd (fusion_stage en HybridMode (max rk fk) bm vs) = Inr fused" and
    th: "tr_fusion th = fused" "tr_final th = final_hits (rc_threshold (en_config en)) fk fused" "tr_analysis th = a"
    using assms range
    by (auto simp: engine_search_def Let_def lbind_Inr fk_def rk_def rerank_stage_hybrid split: if_splits)
  have run: "snd (engine_search en query HybridRerankMode filters top_k) =
      snd (lbind (rerank_stage en HybridRerankMode (qa_normalized a) rk fused)
        (\<lambda>(cands, reranked, meta, warnings).
       ([], Inr \<lparr>tr_mode = HybridRerankMode, tr_analysis = a, tr_config = effective_config (en_config en) top_k,
         tr_bm25 = bm, tr_vector = vs, tr_fusion = fused, tr_rerank = reranked,
         tr_final = final_hits (rc_threshold (en_config en)) fk cands, tr_meta = meta,
         tr_warnings = warnings\<rparr>)))"
    using range a bm vs fused
    by (simp add: engine_search_def Let_def stages_same_mode fk_def rk_def snd_lbind del: lbind.simps)
  show ?thesis
  proof (cases "rc_policy (en_config en) = Open")
    case True
    then show ?thesis
      using rerank_stage_open [OF True, of HybridRerankMode "qa_normalized a" rk fused] th
      by (auto simp: run snd_lbind simp del: lbind.simps)
  next
    case False
    then show ?thesis using th
      by (auto simp: run snd_lbind rerank_stage_def Let_def intro: failure_policy.exhaust simp del: lbind.simps)
  qed
qed

lemma rerank_failure_policy_witness:
  "\<exists>t. snd (engine_search (sample_engine Open) (asc ''x'') HybridRerankMode [] None) = Inr t
     \<and> (rm_applied (tr_meta t) \<or> length (tr_final t) = 2)"
proof -
  have ok: "\<not> isl (snd (engine_search (sample_engine Open) (asc ''x'') HybridMode [] None))
      \<and> length (tr_final (projr (snd (engine_search (sample_engine Open) (asc ''x'') HybridMode [] None)))) = 2"
    by code_simp
  then obtain th where th: "snd (engine_search (sample_engine Open) (asc ''x'') HybridMode [] None) = Inr th"
    by (cases "snd (engine_search (sample_engine Open) (asc ''x'') HybridMode [] None)") auto
  have "rc_policy (en_config (sample_engine Open)) = Open" by (simp add: sample_engine_def program_engine_def)
  then show ?thesis using rerank_failure_policy [OF th] th ok by auto
qed

theorem rerank_code_bounded:
  "bounded_code (rerank_error_code (ProviderUnavailableError p reason))
    \<and> bounded_code (rerank_error_code (ProviderResponseError p reason))"
proof
  have fixed: "bounded_code ''missing_credentials''" "bounded_code ''request_timeout''"
    "bounded_code ''transport_error''" "bounded_code ''provider_unavailable''" "bounded_code ''invalid_response''"
    by code_simp+
  show "bounded_code (rerank_error_code (ProviderUnavailableError p reason))"
    using fixed re_fullmatch_lang lang_status by auto
  show "bounded_code (rerank_error_code (ProviderResponseError p reason))"
    using fixed re_fullmatch_lang lang_reason by auto
qed

end
