(* ===== verification/PyRegexSplit.thy ===== *)
theory PyRegexSplit
  imports PyRegexLang
begin

text \<open>
  \<open>re.split\<close> and \<open>re.sub\<close> only touch what they match: when the matches hold no character of
  interest, neither does what is cut out of the text.
\<close>

lemma search_at_split:
  assumes "search_at r must pre rest = Some (pre', z)"
  obtains u w where "pre' = rev u @ pre" "zpre z = rev w @ pre'" "rest = u @ w @ zrest z"
    "lang r w (zcaps z)"
proof -
  from search_at_adv [OF assms] obtain rest' where
    a: "adv (Z pre rest []) (Z pre' rest' [])" "adv (Z pre' rest' []) z" by auto
  from search_at_reads [OF assms] obtain w where w: "zpre z = rev w @ pre'" "lang r w (zcaps z)" by blast
  from a(1) obtain u where u: "pre' = rev u @ pre" "rest = u @ rest'" by (auto simp: adv_def)
  from a(2) w have "rest' = w @ zrest z" by (auto simp: adv_def)
  with u w that show ?thesis by simp
qed

text \<open>The matches of a text in order, as the gaps before them and what follows the last.\<close>

lemma iter_at_pieces:
  "\<forall>w ds. lang r w ds \<longrightarrow> filter p w = [] \<Longrightarrow>
    filter p (concat (split_from (length pre) (iter_at r must pre rest) rest)) = filter p rest
    \<and> (filter p repl = [] \<longrightarrow>
        filter p (sub_from repl (length pre) (iter_at r must pre rest) rest) = filter p rest)"
proof (induction r must pre rest rule: iter_at.induct)
  case (1 r must pre rest)
  show ?case
  proof (cases "search_at r must pre rest")
    case None
    then show ?thesis by (simp add: iter_at.simps)
  next
    case (Some pz)
    obtain pre' z where pz: "pz = (pre', z)" by (cases pz)
    obtain u w where s: "pre' = rev u @ pre" "zpre z = rev w @ pre'" "rest = u @ w @ zrest z"
      "lang r w (zcaps z)"
      using search_at_split [OF Some [unfolded pz]] by blast
    note IH = "1.IH" [OF Some pz [symmetric] "1.prems"]
    have it: "iter_at r must pre rest =
        mk_found pre' z # iter_at r (length (zpre z) = length pre') (zpre z) (zrest z)"
      using Some pz by (simp add: iter_at.simps [of r must pre rest])
    have "filter p w = []" using "1.prems" s(4) by blast
    moreover have "take (m_start (mk_found pre' z) - length pre) rest = u"
      "drop (m_end (mk_found pre' z) - length pre) rest = zrest z"
      "m_end (mk_found pre' z) = length (zpre z)"
      using s by (simp_all add: mk_found_def)
    ultimately show ?thesis using IH s(3) unfolding it by simp
  qed
qed

lemma filter_re_split:
  "(\<And>w ds. lang r w ds \<Longrightarrow> filter p w = []) \<Longrightarrow> filter p (concat (re_split r s)) = filter p s"
  using iter_at_pieces [of r p "[]" False s] by (simp add: re_split_def re_finditer_def)

lemma filter_re_sub:
  "(\<And>w ds. lang r w ds \<Longrightarrow> filter p w = []) \<Longrightarrow> filter p repl = [] \<Longrightarrow>
    filter p (re_sub r repl s) = filter p s"
  using iter_at_pieces [of r p "[]" False s repl] by (simp add: re_sub_def re_finditer_def)

text \<open>The visible characters of a text.\<close>

definition visible :: "ustr \<Rightarrow> ustr" where
  "visible s = filter (\<lambda>c. \<not> is_space c) s"

lemma visible_append [simp]: "visible (s @ t) = visible s @ visible t"
  by (simp add: visible_def)

lemma visible_Nil [simp]: "visible [] = []"
  by (simp add: visible_def)

lemma visible_Nil_iff: "visible s = [] \<longleftrightarrow> (\<forall>c \<in> set s. is_space c)"
  by (simp add: visible_def filter_empty_conv)

lemma visible_dropWhile: "visible (dropWhile is_space s) = visible s"
  by (induction s) (auto simp: visible_def)

lemma visible_rev: "visible (rev s) = rev (visible s)"
  by (simp add: visible_def rev_filter)

lemma visible_lstrip [simp]: "visible (lstrip s) = visible s"
  by (simp add: lstrip_def lstrip_if_def visible_dropWhile)

lemma visible_strip [simp]: "visible (strip s) = visible s"
  by (simp add: strip_def strip_if_def lstrip_if_def rstrip_if_def visible_rev visible_dropWhile)

lemma strip_Nil_visible: "strip s = [] \<longleftrightarrow> visible s = []"
  by (simp add: strip_eq_Nil visible_Nil_iff)

text \<open>\<open>re.sub(r"\s+", repl, s)\<close> and \<open>re.split(r"\n\s*\n", s)\<close> keep the visible characters.\<close>

definition spaces_rx :: rx where
  "spaces_rx = rplus Space"

definition blank_line_rx :: rx where
  "blank_line_rx = seqs [lit [10], rstar Space, lit [10]]"

lemma lang_rep_space: "lang (Rep g lo hi Space) w ds \<Longrightarrow> \<forall>c \<in> set w. is_space c"
  by fastforce

lemma visible_spaces: "lang spaces_rx w ds \<Longrightarrow> visible w = []"
  unfolding spaces_rx_def visible_Nil_iff by (rule lang_rep_space)

lemma visible_blank_line: "lang blank_line_rx w ds \<Longrightarrow> visible w = []"
proof -
  assume "lang blank_line_rx w ds"
  then obtain u d where w: "w = [10] @ u @ [10]" and u: "lang (rstar Space) u d"
    unfolding blank_line_rx_def seqs.simps lang.simps(8) lang_lit by blast
  have "visible u = []" using lang_rep_space [OF u] by (simp add: visible_Nil_iff)
  then show ?thesis by (simp add: w visible_def is_space_def)
qed

lemma visible_re_split: "visible (concat (re_split blank_line_rx s)) = visible s"
  unfolding visible_def by (rule filter_re_split [OF visible_blank_line [unfolded visible_def]])

lemma visible_re_sub: "visible repl = [] \<Longrightarrow> visible (re_sub spaces_rx repl s) = visible s"
  unfolding visible_def by (rule filter_re_sub [OF visible_spaces [unfolded visible_def]])

end
