(* ===== verification/Documents.thy ===== *)
theory Documents
  imports Search PyRegexSplit "HOL-Library.Multiset"
begin

unbundle bit_operations_syntax

text \<open>
  What happens to the text of a document before it is stored: cleaning
  (\<open>backend/app/cleaners/text.py\<close>), fingerprints and the choice between duplicates
  (\<open>backend/app/deduplication/core.py\<close>), and the rule filter (\<open>backend/app/filters/rules.py\<close>).
  \<open>unicodedata.normalize("NFKC", .)\<close> (a data table of the runtime) is the parameter \<open>nfkc\<close>, and
  SHA-256, as the integer of its digest, the parameter \<open>sha\<close>.
\<close>

section \<open>Cleaning\<close>

definition boilerplate :: "rx list" where
  "boilerplate = [
     seqs [Bol, lit [25171, 21360, 26412, 39029], Eol],
     seqs [Bol, lit [20851, 38381, 31383, 21475], Eol],
     seqs [Bol, lit [36131, 20219, 32534, 36753], any_of [58, 65306], rplus (AnyChar False), Eol],
     seqs [Bol, lit [25195, 19968, 25195, 22312, 25163, 26426, 25171, 24320, 24403, 21069, 39029], Eol]]"

definition fingerprint :: "ustr \<Rightarrow> ustr" where
  "fingerprint p = re_sub spaces_rx [] p"

definition paragraphs :: "ustr \<Rightarrow> ustr list" where
  "paragraphs s = filter (\<lambda>p. p \<noteq> []) (map strip (re_split blank_line_rx s))"

definition remove_duplicate_paragraphs :: "ustr \<Rightarrow> ustr" where
  "remove_duplicate_paragraphs s = join [10, 10] (nub_by fingerprint [] (paragraphs s))"

definition line_value :: "ustr \<Rightarrow> ustr" where
  "line_value line = strip (re_sub (rplus (any_of [9, 32, 12288])) [32] line)"

definition clean_step :: "rx list \<Rightarrow> ustr list \<Rightarrow> ustr \<Rightarrow> ustr list" where
  "clean_step patterns lines line =
    (let v = line_value line in
     if v \<noteq> [] \<and> \<not> list_ex (\<lambda>r. re_match r v) patterns then lines @ [v]
     else if v = [] \<and> lines \<noteq> [] \<and> last lines \<noteq> [] then lines @ [[]]
     else lines)"

definition unify_newlines :: "ustr \<Rightarrow> ustr" where
  "unify_newlines s = replace_all [13] [10] (replace_all [13, 10] [10] s)"

definition clean_text :: "(ustr \<Rightarrow> ustr) \<Rightarrow> rx list \<Rightarrow> ustr \<Rightarrow> ustr" where
  "clean_text nfkc patterns s =
    strip (remove_duplicate_paragraphs
      (join [10] (foldl (clean_step patterns) [] (splitlines (unify_newlines (nfkc s))))))"

definition clean_lines_ok :: "rx list \<Rightarrow> ustr list \<Rightarrow> bool" where
  "clean_lines_ok patterns ls \<longleftrightarrow>
    (\<forall>l \<in> set ls. strip l = l \<and> (l \<noteq> [] \<longrightarrow> \<not> list_ex (\<lambda>r. re_match r l) patterns))
    \<and> (\<forall>i. Suc i < length ls \<longrightarrow> ls ! i \<noteq> [] \<or> ls ! Suc i \<noteq> [])
    \<and> (ls \<noteq> [] \<longrightarrow> hd ls \<noteq> [])"

lemma clean_lines_ok_snoc:
  assumes "clean_lines_ok ps ls" "strip l = l"
    and "l \<noteq> [] \<Longrightarrow> \<not> list_ex (\<lambda>r. re_match r l) ps" and "l = [] \<Longrightarrow> ls \<noteq> [] \<and> last ls \<noteq> []"
  shows "clean_lines_ok ps (ls @ [l])"
proof -
  have "(ls @ [l]) ! i \<noteq> [] \<or> (ls @ [l]) ! Suc i \<noteq> []" if "Suc i < length (ls @ [l])" for i
  proof (cases "Suc i < length ls")
    case True
    then show ?thesis using assms(1) by (auto simp: clean_lines_ok_def nth_append)
  next
    case False
    with that have "Suc i = length ls" by simp
    then have "i = length ls - 1" "ls \<noteq> []" by auto
    then show ?thesis using assms(4) by (auto simp: nth_append last_conv_nth)
  qed
  moreover have "hd (ls @ [l]) \<noteq> []"
    using assms(1,4) by (cases ls) (auto simp: clean_lines_ok_def)
  moreover have "\<forall>m \<in> set (ls @ [l]). strip m = m \<and>
      (m \<noteq> [] \<longrightarrow> \<not> list_ex (\<lambda>r. re_match r m) ps)"
    using assms unfolding clean_lines_ok_def by auto
  ultimately show ?thesis unfolding clean_lines_ok_def by blast
qed

lemma clean_step_ok:
  assumes "clean_lines_ok ps ls"
  shows "clean_lines_ok ps (clean_step ps ls line)"
proof -
  let ?v = "line_value line"
  have st: "strip ?v = ?v" by (simp add: line_value_def)
  consider (keep) "?v \<noteq> []" "\<not> list_ex (\<lambda>r. re_match r ?v) ps" "clean_step ps ls line = ls @ [?v]"
    | (blank) "?v = []" "ls \<noteq> []" "last ls \<noteq> []" "clean_step ps ls line = ls @ [?v]"
    | (skip) "clean_step ps ls line = ls"
    unfolding clean_step_def Let_def by (metis (full_types))
  then show ?thesis
  proof cases
    case keep
    then show ?thesis using clean_lines_ok_snoc [OF assms st] by simp
  next
    case blank
    then show ?thesis using clean_lines_ok_snoc [OF assms st] by simp
  next
    case skip
    then show ?thesis using assms by simp
  qed
qed

lemma clean_fold_ok: "clean_lines_ok ps ls \<Longrightarrow> clean_lines_ok ps (foldl (clean_step ps) ls lines)"
  by (induction lines arbitrary: ls) (simp_all add: clean_step_ok)

lemma paragraphs_stripped: "p \<in> set (paragraphs s) \<Longrightarrow> strip p = p \<and> p \<noteq> []"
  by (auto simp: paragraphs_def)

lemma strip_join:
  assumes "\<And>p. p \<in> set ps \<Longrightarrow> strip p = p \<and> p \<noteq> []"
  shows "strip (join sep ps) = join sep ps"
proof (cases "ps = []")
  case False
  have ends: "\<not> is_space (hd p) \<and> \<not> is_space (last p) \<and> p \<noteq> []" if "p \<in> set ps" for p
    using assms [OF that] strip_if_ends [of is_space p] by (simp add: strip_def)
  have j: "join sep ps \<noteq> [] \<and> hd (join sep ps) = hd (hd ps) \<and> last (join sep ps) = last (last ps)"
    using False ends
  proof (induction ps rule: list_nonempty_induct)
    case (single p)
    then show ?case by simp
  next
    case (cons p ps)
    then show ?case by (cases ps) auto
  qed
  then show ?thesis
    using ends False unfolding strip_def by (intro strip_if_id) (metis hd_in_set last_in_set)
qed simp

section \<open>Fingerprints\<close>

definition content_hash :: "(ustr \<Rightarrow> int) \<Rightarrow> ustr \<Rightarrow> int" where
  "content_hash sha s = sha (re_sub spaces_rx [] s)"

definition simhash_weights :: "(ustr \<Rightarrow> int) \<Rightarrow> nat \<Rightarrow> ustr list \<Rightarrow> int list" where
  "simhash_weights sha bits tokens =
    foldl (\<lambda>ws t. map (\<lambda>(i, w). if bit (sha t) i then w + 1 else w - 1) (enum_from 0 ws))
      (replicate bits 0) tokens"

definition simhash :: "(ustr \<Rightarrow> int) \<Rightarrow> int \<Rightarrow> ustr \<Rightarrow> exn + int" where
  "simhash sha bits s =
    (if bits \<le> 0 \<or> 256 < bits then Inl (ValueError ''bits must be between 1 and 256'')
     else
       let tokens = re_findall token_rx (lower s) in
       if tokens = [] then Inr 0
       else Inr (foldl (\<lambda>r (i, w). if 0 \<le> w then r OR push_bit i 1 else r) 0
         (enum_from 0 (simhash_weights sha (nat bits) tokens))))"

text \<open>\<open>int.bit_count\<close> counts the ones of the absolute value.\<close>

fun popcount :: "nat \<Rightarrow> nat" where
  "popcount n = (if n = 0 then 0 else n mod 2 + popcount (n div 2))"

declare popcount.simps [simp del]

definition hamming_distance :: "int \<Rightarrow> int \<Rightarrow> nat" where
  "hamming_distance a b = popcount (nat \<bar>a XOR b\<bar>)"

definition is_near_duplicate :: "(ustr \<Rightarrow> int) \<Rightarrow> nat \<Rightarrow> ustr \<Rightarrow> ustr \<Rightarrow> exn + bool" where
  "is_near_duplicate sha max_distance l r =
    rbind (simhash sha 64 l) (\<lambda>a. rbind (simhash sha 64 r) (\<lambda>b.
      Inr (hamming_distance a b \<le> max_distance)))"

lemma length_simhash_weights [simp]: "length (simhash_weights sha bits tokens) = bits"
  unfolding simhash_weights_def
  by (induction tokens rule: rev_induct) simp_all

definition majority :: "(ustr \<Rightarrow> int) \<Rightarrow> ustr list \<Rightarrow> nat \<Rightarrow> int" where
  "majority sha tokens i =
    int (count_if (\<lambda>t. bit (sha t) i) tokens) - int (count_if (\<lambda>t. \<not> bit (sha t) i) tokens)"

lemma simhash_weights_nth: "i < bits \<Longrightarrow> simhash_weights sha bits tokens ! i = majority sha tokens i"
proof (induction tokens rule: rev_induct)
  case Nil
  then show ?case by (simp add: simhash_weights_def majority_def count_if_def)
next
  case (snoc t tokens)
  have "simhash_weights sha bits (tokens @ [t]) =
      map (\<lambda>(i, w). if bit (sha t) i then w + 1 else w - 1) (enum_from 0 (simhash_weights sha bits tokens))"
    by (simp add: simhash_weights_def)
  then show ?case using snoc by (simp add: nth_enumerate_eq majority_def count_if_def)
qed

lemma bit_or_fold:
  "bit (foldl (\<lambda>r (i, w). if 0 \<le> w then r OR push_bit i 1 else r) r0 (enum_from n ws) :: int) j \<longleftrightarrow>
    bit r0 j \<or> (n \<le> j \<and> j < n + length ws \<and> 0 \<le> (ws ! (j - n) :: int))"
proof (induction ws arbitrary: n r0)
  case Nil
  then show ?case by auto
next
  case (Cons w ws)
  show ?case
    unfolding enumerate_simps foldl_Cons Cons.IH
    by (auto simp: bit_or_iff bit_exp_iff nth_Cons' Suc_le_eq le_less diff_Suc less_Suc_eq
        split: nat.splits)
qed

lemma simhash_bit:
  assumes "simhash sha bits s = Inr h"
  shows "bit h i \<longleftrightarrow> re_findall token_rx (lower s) \<noteq> [] \<and> i < nat bits
    \<and> 0 \<le> majority sha (re_findall token_rx (lower s)) i"
proof (cases "re_findall token_rx (lower s) = []")
  case True
  then show ?thesis using assms by (auto simp: simhash_def split: if_splits)
next
  case False
  then have "h = foldl (\<lambda>r (i, w). if 0 \<le> w then r OR push_bit i 1 else r) 0
         (enum_from 0 (simhash_weights sha (nat bits) (re_findall token_rx (lower s))))"
    using assms by (auto simp: simhash_def Let_def split: if_splits)
  then show ?thesis using False by (auto simp: bit_or_fold simhash_weights_nth)
qed

lemma simhash_total: "0 < bits \<Longrightarrow> bits \<le> 256 \<Longrightarrow> \<exists>h. simhash sha bits s = Inr h"
  by (simp add: simhash_def Let_def)

lemma or_fold_nonneg:
  "0 \<le> r0 \<Longrightarrow> 0 \<le> (foldl (\<lambda>r (i, w). if 0 \<le> w then r OR push_bit i 1 else r) r0 ws :: int)"
proof (induction ws arbitrary: r0)
  case (Cons iw ws)
  obtain i w where iw: "iw = (i, w)" by (cases iw)
  have "0 \<le> (if 0 \<le> w then r0 OR push_bit i 1 else r0)"
    using Cons.prems by (simp add: or_nonnegative_int_iff)
  from Cons.IH [OF this] show ?case by (simp only: iw foldl_Cons prod.case)
qed simp

lemma simhash_nonneg: "simhash sha bits s = Inr h \<Longrightarrow> 0 \<le> h"
  by (auto simp: simhash_def Let_def or_fold_nonneg split: if_splits)

subsection \<open>The Hamming distance is a metric\<close>

lemma bits_finite: "finite {i. bit (n :: nat) i}"
proof -
  have "\<not> bit n i" if "n \<le> i" for i
    using that less_exp [of i] by (simp add: bit_iff_odd div_less le_less_trans)
  then have "{i. bit n i} \<subseteq> {..<n}" by (auto simp: not_le [symmetric])
  then show ?thesis by (rule finite_subset) simp
qed

lemma popcount_card: "popcount n = card {i. bit n i}"
proof (induction n rule: popcount.induct)
  case (1 n)
  show ?case
  proof (cases "n = 0")
    case True
    then show ?thesis by (simp add: popcount.simps)
  next
    case False
    have split: "{i. bit n i} = (if odd n then {0} else {}) \<union> Suc ` {i. bit (n div 2) i}"
    proof (rule set_eqI)
      fix i
      show "i \<in> {i. bit n i} \<longleftrightarrow> i \<in> (if odd n then {0} else {}) \<union> Suc ` {i. bit (n div 2) i}"
        by (cases i) (auto simp: bit_0 bit_Suc)
    qed
    have "card (Suc ` {i. bit (n div 2) i}) = popcount (n div 2)"
      using "1.IH" [OF False] by (simp add: card_image)
    then have "card {i. bit n i} = n mod 2 + popcount (n div 2)"
      unfolding split using bits_finite [of "n div 2"]
      by (auto simp: card_insert_if odd_iff_mod_2_eq_one even_iff_mod_2_eq_zero)
    then show ?thesis using False by (simp add: popcount.simps [of n])
  qed
qed

lemma hamming_card:
  assumes "0 \<le> a" "0 \<le> b"
  shows "hamming_distance a b = card {i. bit a i \<noteq> bit b i} \<and> finite {i. bit a i \<noteq> bit b i}"
proof -
  have pos: "0 \<le> a XOR b" using assms by (simp add: xor_nonnegative_int_iff)
  then have "bit (nat (a XOR b)) i \<longleftrightarrow> bit a i \<noteq> bit b i" for i
    by (simp add: bit_nat_iff bit_xor_iff)
  then show ?thesis
    using pos popcount_card [of "nat (a XOR b)"] bits_finite [of "nat (a XOR b)"]
    by (simp add: hamming_distance_def)
qed

section \<open>Which of the duplicates is kept\<close>

record duplicate =
  dc_id :: ustr
  dc_official :: bool
  dc_priority :: int
  dc_date :: "date option"
  dc_words :: int

definition dc_key :: "duplicate \<Rightarrow> bool \<times> int \<times> date \<times> int \<times> ustr" where
  "dc_key c = (dc_official c, dc_priority c,
    (case dc_date c of None \<Rightarrow> Date 1 1 1 | Some d \<Rightarrow> d), dc_words c, dc_id c)"

fun first_max :: "('a \<Rightarrow> 'k::linorder) \<Rightarrow> 'a \<Rightarrow> 'a list \<Rightarrow> 'a" where
  "first_max f m [] = m"
| "first_max f m (x # xs) = first_max f (if f m < f x then x else m) xs"

fun choose_authoritative :: "duplicate list \<Rightarrow> exn + duplicate" where
  "choose_authoritative [] = Inl (ValueError ''at least one duplicate candidate is required'')"
| "choose_authoritative (c # cs) = Inr (first_max dc_key c cs)"

lemma first_max_props:
  "first_max f m xs \<in> set (m # xs) \<and> (\<forall>x \<in> set (m # xs). f x \<le> f (first_max f m xs))"
proof (induction f m xs rule: first_max.induct)
  case (1 f m)
  then show ?case by simp
next
  case (2 f m x xs)
  then show ?case by (cases "f m < f x") (auto dest: order.strict_trans1)
qed

section \<open>The rule filter\<close>

datatype filter_decision = Accept | Review | Reject

record filter_config =
  fc_hard_min :: int
  fc_soft_min :: int
  fc_accept :: rat
  fc_reject :: rat
  fc_title_reject :: "rx list"
  fc_content_reject :: "rx list"
  fc_keywords :: "ustr list"
  fc_short_penalty :: rat
  fc_keyword_penalty :: rat
  fc_unofficial_penalty :: rat

definition unit :: "rat \<Rightarrow> bool" where
  "unit x \<longleftrightarrow> 0 \<le> x \<and> x \<le> 1"

definition filter_config_ok :: "filter_config \<Rightarrow> bool" where
  "filter_config_ok c \<longleftrightarrow> 0 \<le> fc_hard_min c \<and> 0 \<le> fc_soft_min c \<and> unit (fc_accept c) \<and> unit (fc_reject c)
    \<and> unit (fc_short_penalty c) \<and> unit (fc_keyword_penalty c) \<and> unit (fc_unofficial_penalty c)"

record filter_result =
  fr_decision :: filter_decision
  fr_score :: rat
  fr_reasons :: "string list"

text \<open>Each soft rule gives the penalty it subtracts and the reason it reports, if it applies.\<close>

definition soft_rules :: "filter_config \<Rightarrow> ustr \<Rightarrow> ustr \<Rightarrow> bool \<Rightarrow> (rat \<times> string) list" where
  "soft_rules c title content official =
    (if int (length (strip content)) < fc_soft_min c then [(fc_short_penalty c, ''content_too_short_soft'')] else [])
    @ (if fc_keywords c \<noteq> [] \<and> \<not> list_ex (\<lambda>k. contains (lower (title @ [10] @ content)) (lower k)) (fc_keywords c)
       then [(fc_keyword_penalty c, ''relevance_keyword_missing'')] else [])
    @ (if \<not> official then [(fc_unofficial_penalty c, ''source_not_official'')] else [])"

definition decide :: "filter_config \<Rightarrow> rat \<Rightarrow> filter_decision" where
  "decide c s = (if s \<le> fc_reject c then Reject else if s < fc_accept c then Review else Accept)"

definition evaluate :: "filter_config \<Rightarrow> ustr \<Rightarrow> ustr \<Rightarrow> bool \<Rightarrow> filter_result" where
  "evaluate c title content official =
    (if int (length (strip content)) < fc_hard_min c then \<lparr>fr_decision = Reject, fr_score = 0, fr_reasons = [''content_too_short_hard'']\<rparr>
     else if list_ex (\<lambda>r. re_found r title) (fc_title_reject c) then
       \<lparr>fr_decision = Reject, fr_score = 0, fr_reasons = [''title_reject_pattern'']\<rparr>
     else if list_ex (\<lambda>r. re_found r content) (fc_content_reject c) then
       \<lparr>fr_decision = Reject, fr_score = 0, fr_reasons = [''content_reject_pattern'']\<rparr>
     else
       let rules = soft_rules c title content official;
           score = py_round 4 (max 0 (min 1 (1 - (\<Sum>r\<leftarrow>rules. fst r)))) in
       \<lparr>fr_decision = decide c score, fr_score = score, fr_reasons = map snd rules\<rparr>)"

fun decision_rank :: "filter_decision \<Rightarrow> nat" where
  "decision_rank Reject = 0"
| "decision_rank Review = 1"
| "decision_rank Accept = 2"

lemma decide_mono: "s \<le> t \<Longrightarrow> decision_rank (decide c s) \<le> decision_rank (decide c t)"
  by (auto simp: decide_def)

definition soft_penalty :: "filter_config \<Rightarrow> ustr \<Rightarrow> ustr \<Rightarrow> bool \<Rightarrow> rat" where
  "soft_penalty c title content official = (\<Sum>r\<leftarrow>soft_rules c title content official. fst r)"

lemma soft_penalty_official:
  "filter_config_ok c \<Longrightarrow> soft_penalty c title content True \<le> soft_penalty c title content False"
  by (simp add: soft_penalty_def soft_rules_def filter_config_ok_def unit_def)

section \<open>Properties\<close>

theorem clean_lines_normal:
  "clean_lines_ok patterns (foldl (clean_step patterns) [] (splitlines (unify_newlines (nfkc s))))"
  by (rule clean_fold_ok) (simp add: clean_lines_ok_def)

theorem cleaned_paragraphs_distinct:
  "\<exists>src ps. src = join [10] (foldl (clean_step patterns) [] (splitlines (unify_newlines (nfkc s))))
    \<and> clean_text nfkc patterns s = join [10, 10] ps \<and> distinct (map fingerprint ps)
    \<and> (\<forall>p \<in> set ps. strip p = p \<and> p \<noteq> [])
    \<and> fingerprint ` set ps = fingerprint ` {p \<in> strip ` set (re_split blank_line_rx src). p \<noteq> []}"
proof -
  define src where "src = join [10] (foldl (clean_step patterns) [] (splitlines (unify_newlines (nfkc s))))"
  let ?ps = "nub_by fingerprint [] (paragraphs src)"
  have st: "\<forall>p \<in> set ?ps. strip p = p \<and> p \<noteq> []"
    using set_nub_by [of fingerprint "[]" "paragraphs src"] paragraphs_stripped by blast
  have "clean_text nfkc patterns s = join [10, 10] ?ps"
    using strip_join [of ?ps "[10, 10]"] st
    by (simp add: clean_text_def src_def remove_duplicate_paragraphs_def)
  moreover have "fingerprint ` set ?ps = fingerprint ` {p \<in> strip ` set (re_split blank_line_rx src). p \<noteq> []}"
    unfolding nub_by_set_keys by (simp add: paragraphs_def)
  ultimately show ?thesis
    using st distinct_nub_by [of fingerprint "paragraphs src"] unfolding src_def by blast
qed

lemma cleaned_paragraphs_witness:
  "\<exists>ps. clean_text id boilerplate (asc ''a'') = join [10, 10] ps \<and> distinct (map fingerprint ps)"
  using cleaned_paragraphs_distinct [of boilerplate id "asc ''a''"] by blast

theorem simhash_token_order:
  assumes "mset (re_findall token_rx (lower s)) = mset (re_findall token_rx (lower t))"
  shows "simhash sha bits s = simhash sha bits t"
proof (cases "simhash sha bits s")
  case (Inl e)
  then show ?thesis by (auto simp: simhash_def Let_def split: if_splits)
next
  case (Inr h)
  then have b: "0 < bits" "bits \<le> 256" by (auto simp: simhash_def split: if_splits)
  obtain h' where h': "simhash sha bits t = Inr h'" using simhash_total [OF b] by blast
  have "count_if P (re_findall token_rx (lower s)) = count_if P (re_findall token_rx (lower t))" for P
    unfolding count_if_def using assms by (metis mset_filter size_mset)
  then have "majority sha (re_findall token_rx (lower s)) i = majority sha (re_findall token_rx (lower t)) i" for i
    by (simp add: majority_def)
  moreover have "re_findall token_rx (lower s) = [] \<longleftrightarrow> re_findall token_rx (lower t) = []"
    using assms by (metis mset_zero_iff)
  ultimately have "h = h'"
    using simhash_bit [OF Inr] simhash_bit [OF h'] by (intro bit_eqI) auto
  with Inr h' show ?thesis by simp
qed

lemma simhash_token_order_witness:
  "simhash (\<lambda>t. int (length t)) 8 (asc ''ab, c'') = simhash (\<lambda>t. int (length t)) 8 (asc ''C   ab'')"
proof -
  have "re_findall token_rx (lower (asc ''ab, c'')) = [asc ''ab'', asc ''c'']"
    "re_findall token_rx (lower (asc ''C   ab'')) = [asc ''c'', asc ''ab'']" by code_simp+
  then show ?thesis by (intro simhash_token_order) simp
qed

theorem hamming_metric:
  assumes "0 \<le> a" "0 \<le> b" "0 \<le> c"
  shows "hamming_distance a b = hamming_distance b a
    \<and> (hamming_distance a b = 0 \<longleftrightarrow> a = b)
    \<and> hamming_distance a c \<le> hamming_distance a b + hamming_distance b c"
proof (intro conjI)
  show "hamming_distance a b = hamming_distance b a"
    using hamming_card [OF assms(1,2)] hamming_card [OF assms(2,1)] by (simp add: eq_commute)
  show "hamming_distance a b = 0 \<longleftrightarrow> a = b"
    using hamming_card [OF assms(1,2)] by (auto intro: bit_eqI)
  have "{i. bit a i \<noteq> bit c i} \<subseteq> {i. bit a i \<noteq> bit b i} \<union> {i. bit b i \<noteq> bit c i}" by auto
  then have "card {i. bit a i \<noteq> bit c i} \<le> card ({i. bit a i \<noteq> bit b i} \<union> {i. bit b i \<noteq> bit c i})"
    using hamming_card [OF assms(1,2)] hamming_card [OF assms(2,3)] by (intro card_mono) auto
  also have "\<dots> \<le> card {i. bit a i \<noteq> bit b i} + card {i. bit b i \<noteq> bit c i}" by (rule card_Un_le)
  finally show "hamming_distance a c \<le> hamming_distance a b + hamming_distance b c"
    using hamming_card [OF assms(1,2)] hamming_card [OF assms(2,3)] hamming_card [OF assms(1,3)] by simp
qed

lemma hamming_metric_witness: "hamming_distance 5 6 = hamming_distance 6 5"
  using hamming_metric [of 5 6 0] by simp

theorem authoritative_duplicate:
  assumes "cs \<noteq> []"
  shows "\<exists>d. choose_authoritative cs = Inr d \<and> d \<in> set cs
    \<and> ((\<exists>c \<in> set cs. dc_official c) \<longrightarrow> dc_official d)
    \<and> (\<forall>c \<in> set cs. dc_official c = dc_official d \<longrightarrow> dc_priority c \<le> dc_priority d)"
proof -
  obtain c cs' where cs: "cs = c # cs'" using assms by (cases cs) auto
  let ?d = "first_max dc_key c cs'"
  have "?d \<in> set cs" "\<And>x. x \<in> set cs \<Longrightarrow> dc_key x \<le> dc_key ?d"
    using first_max_props [of dc_key c cs'] cs by auto
  moreover have "(dc_official x \<longrightarrow> dc_official ?d)
      \<and> (dc_official x = dc_official ?d \<longrightarrow> dc_priority x \<le> dc_priority ?d)"
    if "dc_key x \<le> dc_key ?d" for x
    using that by (auto simp: dc_key_def less_eq_prod_def)
  ultimately show ?thesis using cs by auto
qed

lemma authoritative_duplicate_witness:
  "\<exists>d. choose_authoritative [\<lparr>dc_id = asc ''a'', dc_official = False, dc_priority = 9, dc_date = None, dc_words = 5\<rparr>,
      \<lparr>dc_id = asc ''b'', dc_official = True, dc_priority = 1, dc_date = None, dc_words = 1\<rparr>] = Inr d \<and> dc_official d"
  using authoritative_duplicate [of "[\<lparr>dc_id = asc ''a'', dc_official = False, dc_priority = 9, dc_date = None, dc_words = 5\<rparr>,
      \<lparr>dc_id = asc ''b'', dc_official = True, dc_priority = 1, dc_date = None, dc_words = 1\<rparr>]"] by auto

theorem filter_sound:
  assumes "filter_config_ok c"
  shows "unit (fr_score (evaluate c title content official))
    \<and> (fr_decision (evaluate c title content official) = Accept \<longrightarrow>
        fc_accept c \<le> fr_score (evaluate c title content official)
        \<and> fc_reject c < fr_score (evaluate c title content official)
        \<and> fc_hard_min c \<le> int (length (strip content))
        \<and> \<not> list_ex (\<lambda>r. re_found r title) (fc_title_reject c)
        \<and> \<not> list_ex (\<lambda>r. re_found r content) (fc_content_reject c))
    \<and> decision_rank (fr_decision (evaluate c title content False))
        \<le> decision_rank (fr_decision (evaluate c title content True))"
proof (intro conjI)
  have u: "unit (py_round 4 (max 0 (min 1 x)))" for x
    using py_round_unit [of "max 0 (min 1 x)" 4] by (simp add: unit_def)
  then show "unit (fr_score (evaluate c title content official))"
    by (simp add: evaluate_def Let_def unit_def)
  show "fr_decision (evaluate c title content official) = Accept \<longrightarrow>
        fc_accept c \<le> fr_score (evaluate c title content official)
        \<and> fc_reject c < fr_score (evaluate c title content official)
        \<and> fc_hard_min c \<le> int (length (strip content))
        \<and> \<not> list_ex (\<lambda>r. re_found r title) (fc_title_reject c)
        \<and> \<not> list_ex (\<lambda>r. re_found r content) (fc_content_reject c)"
    by (auto simp: evaluate_def Let_def decide_def split: if_splits)
  have "py_round 4 (max 0 (min 1 (1 - soft_penalty c title content False)))
      \<le> py_round 4 (max 0 (min 1 (1 - soft_penalty c title content True)))"
    using soft_penalty_official [OF assms, of title content] by (intro py_round_mono) auto
  then have m: "decision_rank (decide c (py_round 4 (max 0 (min 1 (1 - soft_penalty c title content False)))))
      \<le> decision_rank (decide c (py_round 4 (max 0 (min 1 (1 - soft_penalty c title content True)))))"
    by (rule decide_mono)
  then show "decision_rank (fr_decision (evaluate c title content False))
        \<le> decision_rank (fr_decision (evaluate c title content True))"
    by (simp add: evaluate_def Let_def soft_penalty_def)
qed

definition sample_filter :: filter_config where
  "sample_filter = \<lparr>fc_hard_min = 1, fc_soft_min = 2, fc_accept = 65 / 100, fc_reject = 25 / 100,
     fc_title_reject = [], fc_content_reject = [], fc_keywords = [asc ''k''], fc_short_penalty = 35 / 100,
     fc_keyword_penalty = 25 / 100, fc_unofficial_penalty = 1 / 10\<rparr>"

lemma filter_sound_witness:
  "unit (fr_score (evaluate sample_filter (asc ''K'') (asc ''text'') True))"
proof -
  have "filter_config_ok sample_filter" by (simp add: filter_config_ok_def sample_filter_def unit_def)
  from filter_sound [OF this] show ?thesis by blast
qed

end
