(* ===== verification/Chunking.thy ===== *)
theory Chunking
  imports PyRegexSplit PyValues
begin

text \<open>
  \<open>backend/app/chunking/heading.py\<close>: sections by headings, paragraphs packed into chunks with an
  overlap, and the fallback that cuts a paragraph that is too long. Lengths count code points,
  as \<open>len\<close> does.
\<close>

section \<open>Configuration\<close>

record chunking_config =
  ck_target :: nat
  ck_min :: nat
  ck_max :: nat
  ck_overlap :: nat

definition mk_chunking :: "int \<Rightarrow> int \<Rightarrow> int \<Rightarrow> int \<Rightarrow> exn + chunking_config" where
  "mk_chunking target mn mx overlap =
    (if \<not> (0 \<le> overlap \<and> overlap < target) then
       Inl (ValueError ''overlap_chars must be non-negative and below target_chars'')
     else if \<not> (0 < mn \<and> mn \<le> target \<and> target \<le> mx) then
       Inl (ValueError ''expected min_chars <= target_chars <= max_chars'')
     else Inr \<lparr>ck_target = nat target, ck_min = nat mn, ck_max = nat mx, ck_overlap = nat overlap\<rparr>)"

record chunk_draft =
  cd_index :: nat
  cd_content :: ustr
  cd_path :: "ustr list"
  cd_title :: "ustr option"
  cd_count :: nat

definition cn_digits :: ustr where
  "cn_digits = [19968, 20108, 19977, 22235, 20116, 20845, 19971, 20843, 20061, 21313, 30334, 21315, 19975, 38646, 12295, 20004]"

definition heading_rx :: rx where
  "heading_rx = seqs [Bol, alts [
     seqs [rtimes 1 6 (lit [35]), rplus Space, rplus (AnyChar False)],
     seqs [lit [31532], rplus (Word False (map (\<lambda>c. (c, c)) cn_digits)), any_of [31456, 33410, 26465, 32534, 37096, 20998], rstar Space,
       rstar (AnyChar False)],
     seqs [rplus (any_of cn_digits), lit [12289], rstar Space, rplus (AnyChar False)],
     seqs [rplus Digit, rstar (seqs [lit [46], rplus Digit]), any_of ([12289] @ asc ''.)''), rstar Space,
       rplus (AnyChar False)]], Eol]"

section \<open>Sections\<close>

record section_state =
  ss_done :: "(ustr list \<times> ustr option \<times> ustr) list"
  ss_stack :: "ustr list"
  ss_title :: "ustr option"
  ss_body :: "ustr list"

definition close_section :: "section_state \<Rightarrow> (ustr list \<times> ustr option \<times> ustr) list" where
  "close_section st = ss_done st @ [(ss_stack st, ss_title st, strip (join [10] (ss_body st)))]"

definition strip_hashes :: "ustr \<Rightarrow> ustr" where
  "strip_hashes s = lstrip_if (\<lambda>c. c = 35) s"

definition section_line :: "section_state \<Rightarrow> ustr \<Rightarrow> section_state" where
  "section_line st line =
    (let s = strip line in
     if s \<noteq> [] \<and> re_match heading_rx s then
       let done = (if ss_title st \<noteq> None \<or> ss_body st \<noteq> [] then close_section st else ss_done st);
           level = (if starts_with s [35] then length s - length (strip_hashes s) else 1);
           clean_title = strip (strip_hashes s)
       in \<lparr>ss_done = done, ss_stack = take (level - 1) (ss_stack st) @ [clean_title],
           ss_title = Some clean_title, ss_body = []\<rparr>
     else st\<lparr>ss_body := ss_body st @ [line]\<rparr>)"

definition sections :: "ustr \<Rightarrow> (ustr list \<times> ustr option \<times> ustr) list" where
  "sections s = close_section (foldl section_line
     \<lparr>ss_done = [], ss_stack = [], ss_title = None, ss_body = []\<rparr> (splitlines s))"

section \<open>Splitting a long paragraph\<close>

definition separators :: ustr where
  "separators = [10] @ [12290, 65281, 65311, 65307] @ asc '';'' @ [65292] @ asc '', ''"

text \<open>\<open>boundary = -1\<close> is \<open>None\<close>; all separators have length 1.\<close>

definition best_boundary :: "ustr \<Rightarrow> nat \<Rightarrow> nat option" where
  "best_boundary window lo =
    foldl (\<lambda>b sep. case rfind_char window sep lo of
        None \<Rightarrow> b
      | Some c \<Rightarrow> (case b of None \<Rightarrow> Some c | Some b' \<Rightarrow> if b' < c then Some c else b))
      None separators"

definition cut_point :: "nat \<Rightarrow> ustr \<Rightarrow> nat" where
  "cut_point limit remaining =
    (case best_boundary (take (limit + 1) remaining) (max 1 (limit div 3)) of
       Some b \<Rightarrow> if max 1 (limit div 3) \<le> b then b + 1 else limit
     | None \<Rightarrow> limit)"

text \<open>The limit is at least 1; \<open>l\<close> is the limit minus one.\<close>

function cut_loop :: "nat \<Rightarrow> ustr \<Rightarrow> ustr list" where
  "cut_loop l remaining =
    (if length remaining \<le> Suc l then (if remaining = [] then [] else [remaining])
     else
       let cut = cut_point (Suc l) remaining; piece = strip (take cut remaining) in
       (if piece = [] then [] else [piece]) @ cut_loop l (strip (drop cut remaining)))"
  by pat_completeness auto
termination
proof (relation "measure (\<lambda>(l, r). length r)", goal_cases)
  case 1
  show ?case by simp
next
  case (2 l remaining x xa)
  have "0 < cut_point (Suc l) remaining" by (auto simp: cut_point_def split: option.splits)
  then have "length (drop (cut_point (Suc l) remaining) remaining) < length remaining" using 2(1) by simp
  then show ?case using length_strip [of "drop (cut_point (Suc l) remaining) remaining"] 2(2) by simp
qed

declare cut_loop.simps [simp del]

definition separator_fallback :: "nat \<Rightarrow> ustr \<Rightarrow> ustr list" where
  "separator_fallback limit s = cut_loop (limit - 1) (strip s)"

definition piece_limit :: "chunking_config \<Rightarrow> nat" where
  "piece_limit c = nat (max 1 (int (ck_max c) - int (ck_overlap c) - (if ck_overlap c \<noteq> 0 then 2 else 0)))"

definition hard_split :: "chunking_config \<Rightarrow> ustr \<Rightarrow> ustr list" where
  "hard_split c s =
    (if length s \<le> piece_limit c then [s] else separator_fallback (piece_limit c) s)"

section \<open>Packing the parts\<close>

definition overlap_of :: "chunking_config \<Rightarrow> ustr \<Rightarrow> ustr" where
  "overlap_of c current =
    (if ck_overlap c = 0 then [] else lstrip (drop (length current - ck_overlap c) current))"

fun pack_part :: "chunking_config \<Rightarrow> ustr list \<times> ustr \<Rightarrow> ustr \<Rightarrow> ustr list \<times> ustr" where
  "pack_part c (chunks, current) part =
    (let candidate = (if current \<noteq> [] then strip (current @ [10, 10] @ part) else part);
         flush = ck_max c < length candidate
           \<or> ck_target c < length candidate \<and> ck_min c \<le> length current in
     if current \<noteq> [] \<and> flush then
       (chunks @ [current], strip (overlap_of c current @ [10, 10] @ part))
     else (chunks, candidate))"

definition body_parts :: "chunking_config \<Rightarrow> ustr \<Rightarrow> ustr list" where
  "body_parts c body =
    (let ps = filter (\<lambda>p. p \<noteq> []) (map strip (re_split blank_line_rx body));
         ps' = (if ps = [] then [strip body] else ps) in
     concat (map (hard_split c) ps'))"

definition split_body :: "chunking_config \<Rightarrow> ustr \<Rightarrow> ustr list" where
  "split_body c body =
    (case foldl (pack_part c) ([], []) (body_parts c body) of (chunks, current) \<Rightarrow>
       if current \<noteq> [] then chunks @ [current] else chunks)"

definition section_text :: "ustr option \<Rightarrow> ustr \<Rightarrow> ustr" where
  "section_text title body =
    (case title of Some t \<Rightarrow> if t \<noteq> [] then t @ [10] @ body else body | None \<Rightarrow> body)"

definition raw_chunks :: "chunking_config \<Rightarrow> ustr \<Rightarrow> (ustr \<times> ustr list \<times> ustr option) list" where
  "raw_chunks c s = concat (map (\<lambda>(path, title, body).
     map (\<lambda>piece. (piece, path, title)) (split_body c (section_text title body))) (sections s))"

definition chunk :: "chunking_config \<Rightarrow> ustr \<Rightarrow> chunk_draft list" where
  "chunk c s =
    (let normalized = strip (replace_all [13] [10] (replace_all [13, 10] [10] s)) in
     if normalized = [] then []
     else map (\<lambda>(i, content, path, title).
         \<lparr>cd_index = i, cd_content = content, cd_path = path, cd_title = title, cd_count = length content\<rparr>)
       (filter (\<lambda>(i, content, path, title). strip content \<noteq> []) (enum_from 0 (raw_chunks c normalized))))"

section \<open>The cuts\<close>

lemma best_boundary_Some:
  assumes "best_boundary window lo = Some b"
  shows "lo \<le> b \<and> b < length window"
proof -
  have "foldl (\<lambda>b sep. case rfind_char window sep lo of
        None \<Rightarrow> b
      | Some c \<Rightarrow> (case b of None \<Rightarrow> Some c | Some b' \<Rightarrow> if b' < c then Some c else b)) b0 seps = Some b
    \<Longrightarrow> b0 = None \<or> (\<exists>x. b0 = Some x \<and> lo \<le> x \<and> x < length window) \<Longrightarrow> lo \<le> b \<and> b < length window" for b0 seps
    by (induction seps arbitrary: b0)
      (auto dest!: rfind_char_Some split: option.splits if_splits)
  then show ?thesis using assms unfolding best_boundary_def by blast
qed

lemma cut_point_bounds: "0 < limit \<Longrightarrow> 0 < cut_point limit r \<and> cut_point limit r \<le> limit + 1"
  by (auto simp: cut_point_def dest!: best_boundary_Some split: option.splits)

definition piece_ok :: "nat \<Rightarrow> ustr \<Rightarrow> bool" where
  "piece_ok n p \<longleftrightarrow> strip p = p \<and> p \<noteq> [] \<and> length p \<le> n"

lemma cut_loop_ok:
  "strip r = r \<Longrightarrow> (\<forall>p \<in> set (cut_loop l r). piece_ok (Suc l + 1) p)
    \<and> visible (concat (cut_loop l r)) = visible r"
proof (induction l r rule: cut_loop.induct)
  case (1 l r)
  show ?case
  proof (cases "length r \<le> Suc l")
    case True
    with "1.prems" show ?thesis by (auto simp: cut_loop.simps [of l r] piece_ok_def)
  next
    case False
    let ?cut = "cut_point (Suc l) r"
    let ?piece = "strip (take ?cut r)"
    note IH = "1.IH" [OF False refl refl strip_idem]
    have "length ?piece \<le> Suc l + 1"
      using cut_point_bounds [of "Suc l" r] length_strip [of "take ?cut r"] by simp
    then have p: "?piece = [] \<or> piece_ok (Suc l + 1) ?piece" by (simp add: piece_ok_def)
    have "visible r = visible (take ?cut r) @ visible (drop ?cut r)"
      by (simp flip: visible_append)
    moreover have "cut_loop l r = (if ?piece = [] then [] else [?piece]) @ cut_loop l (strip (drop ?cut r))"
      using False by (simp add: cut_loop.simps [of l r] Let_def)
    moreover have "visible (concat (if ?piece = [] then [] else [?piece])) = visible (take ?cut r)"
      by (simp add: strip_Nil_visible)
    ultimately show ?thesis using IH p by (auto simp del: strip_idem)
  qed
qed

lemma piece_limit_pos: "0 < piece_limit c"
  by (simp add: piece_limit_def)

lemma hard_split_ok:
  assumes "strip s = s" "s \<noteq> []"
  shows "(\<forall>p \<in> set (hard_split c s). piece_ok (piece_limit c + 1) p)
    \<and> visible (concat (hard_split c s)) = visible s"
proof (cases "length s \<le> piece_limit c")
  case True
  then show ?thesis using assms by (simp add: hard_split_def piece_ok_def)
next
  case False
  then show ?thesis
    using cut_loop_ok [of s "piece_limit c - 1"] assms piece_limit_pos [of c]
    by (simp add: hard_split_def separator_fallback_def)
qed

lemma visible_filter_blank: "visible (concat (filter (\<lambda>p. p \<noteq> []) (map strip ps))) = visible (concat ps)"
  by (induction ps) (auto simp: strip_Nil_visible)

lemma hard_split_all:
  "(\<And>p. p \<in> set ps \<Longrightarrow> strip p = p \<and> p \<noteq> []) \<Longrightarrow>
    (\<forall>p \<in> set (concat (map (hard_split c) ps)). piece_ok (piece_limit c + 1) p)
    \<and> visible (concat (concat (map (hard_split c) ps))) = visible (concat ps)"
proof (induction ps)
  case (Cons p ps)
  have "strip p = p" "p \<noteq> []" using Cons.prems [of p] by simp_all
  from hard_split_ok [OF this] Cons show ?case by auto
qed simp

lemma body_parts_ok:
  "(body_parts c body = [[]] \<and> visible body = []
      \<or> (\<forall>p \<in> set (body_parts c body). piece_ok (piece_limit c + 1) p))
    \<and> visible (concat (body_parts c body)) = visible body"
proof -
  let ?ps = "filter (\<lambda>p. p \<noteq> []) (map strip (re_split blank_line_rx body))"
  have v: "visible (concat ?ps) = visible body"
    by (simp only: visible_filter_blank visible_re_split)
  show ?thesis
  proof (cases "?ps = []")
    case True
    then have "visible body = []" using v by simp
    then have "strip body = []" by (simp add: strip_Nil_visible)
    then show ?thesis using True \<open>visible body = []\<close>
      by (simp add: body_parts_def hard_split_def)
  next
    case False
    then have "body_parts c body = concat (map (hard_split c) ?ps)" by (simp add: body_parts_def Let_def)
    moreover have st: "strip p = p \<and> p \<noteq> []" if "p \<in> set ?ps" for p using that by auto
    note h = hard_split_all [of ?ps c, OF st]
    ultimately show ?thesis using h v by metis
  qed
qed

section \<open>The packing loop\<close>

lemma contains_suffix: "contains (a @ b) b"
  by (rule contains_appendI2 [OF contains_refl])

lemma dropWhile_hd: "p \<noteq> [] \<Longrightarrow> \<not> P (hd p) \<Longrightarrow> dropWhile P p = p"
  by (cases p) auto

lemma visible_break [simp]: "visible (10 # s) = visible s"
  by (simp add: visible_def is_space_def)

lemma strip_keeps_suffix:
  assumes "strip p = p" "p \<noteq> []"
  shows "\<exists>a. strip (x @ p) = a @ p"
proof -
  have l: "\<not> is_space (last p)" using assms strip_if_ends [of is_space p] by (simp add: strip_def)
  have r: "rstrip_if is_space y = y" if "y \<noteq> []" "last y = last p" for y
    unfolding rstrip_if_def using that l
    by (metis dropWhile_eq_self_iff hd_rev rev_rev_ident)
  have drop: "\<exists>a. lstrip_if is_space (x @ p) = a @ p"
  proof (cases "\<forall>c \<in> set x. is_space c")
    case True
    moreover have "\<not> is_space (hd p)" using assms strip_if_ends [of is_space p] by (simp add: strip_def)
    ultimately show ?thesis using assms(2)
      by (intro exI [of _ "[]"]) (simp add: lstrip_if_def dropWhile_append dropWhile_hd)
  next
    case False
    then show ?thesis by (auto simp: lstrip_if_def dropWhile_append)
  qed
  then obtain a where a: "lstrip_if is_space (x @ p) = a @ p" by blast
  have "rstrip_if is_space (a @ p) = a @ p" using assms(2) by (intro r) auto
  then show ?thesis unfolding strip_def strip_if_def a by blast
qed

definition chunk_bound :: "chunking_config \<Rightarrow> nat" where
  "chunk_bound c = max (ck_max c) (piece_limit c + 1 + ck_overlap c + (if ck_overlap c = 0 then 0 else 2))"

definition pack_ok :: "chunking_config \<Rightarrow> ustr list \<Rightarrow> ustr list \<times> ustr \<Rightarrow> bool" where
  "pack_ok c parts st \<longleftrightarrow>
    (\<forall>x \<in> set (fst st). piece_ok (chunk_bound c) x) \<and> (snd st = [] \<or> piece_ok (chunk_bound c) (snd st))
    \<and> (\<forall>p \<in> set parts. (\<exists>x \<in> set (fst st). contains x p) \<or> contains (snd st) p)
    \<and> (ck_overlap c = 0 \<longrightarrow> visible (concat (fst st)) @ visible (snd st) = visible (concat parts))"

lemma length_overlap: "length (overlap_of c x) \<le> ck_overlap c"
  unfolding overlap_of_def using length_lstrip [of "drop (length x - ck_overlap c) x"] by auto

lemma next_chunk_length:
  assumes "piece_ok n part"
  shows "length (strip (overlap_of c cur @ [10, 10] @ part))
    \<le> n + ck_overlap c + (if ck_overlap c = 0 then 0 else 2)"
proof (cases "overlap_of c cur = []")
  case True
  have "strip ([10, 10] @ part) = part"
  proof -
    have ends: "\<not> is_space (hd part)" "\<not> is_space (last part)" "part \<noteq> []"
      using assms strip_if_ends [of is_space part] by (auto simp: piece_ok_def strip_def)
    have "is_space 10" by (simp add: is_space_def)
    then have "strip ([10, 10] @ part) = rstrip_if is_space part"
      using dropWhile_hd [of part is_space] ends by (simp add: strip_def strip_if_def lstrip_if_def)
    also have "\<dots> = part"
      using ends unfolding rstrip_if_def by (metis dropWhile_eq_self_iff hd_rev rev_rev_ident)
    finally show ?thesis .
  qed
  then show ?thesis using True assms by (simp add: piece_ok_def)
next
  case False
  then have "ck_overlap c \<noteq> 0" unfolding overlap_of_def by metis
  then show ?thesis
    using length_strip [of "overlap_of c cur @ [10, 10] @ part"] length_overlap [of c cur] assms
    by (simp add: piece_ok_def)
qed

lemma piece_okI: "strip p = p \<Longrightarrow> p \<noteq> [] \<Longrightarrow> length p \<le> n \<Longrightarrow> piece_ok n p"
  by (simp add: piece_ok_def)

lemma piece_ok_strip: "strip p \<noteq> [] \<Longrightarrow> length (strip p) \<le> n \<Longrightarrow> piece_ok n (strip p)"
  by (simp add: piece_ok_def)

lemma piece_ok_mono: "piece_ok m p \<Longrightarrow> m \<le> n \<Longrightarrow> piece_ok n p"
  by (simp add: piece_ok_def)

lemma join_pieces:
  assumes "piece_ok m p" "piece_ok n q"
  shows "strip (p @ [10, 10] @ q) = p @ [10, 10] @ q"
proof -
  have "p \<noteq> []" "q \<noteq> []" "\<not> is_space (hd p)" "\<not> is_space (last q)"
    using assms strip_if_ends [of is_space p] strip_if_ends [of is_space q]
    by (simp_all add: piece_ok_def strip_def)
  then show ?thesis unfolding strip_def by (intro strip_if_id) simp
qed

lemma pack_part_ok:
  assumes inv: "pack_ok c parts (chunks, cur)" and part: "piece_ok (piece_limit c + 1) part"
  shows "pack_ok c (parts @ [part]) (pack_part c (chunks, cur) part)"
proof -
  have chunks: "\<forall>x \<in> set chunks. piece_ok (chunk_bound c) x"
    and cur: "cur = [] \<or> piece_ok (chunk_bound c) cur"
    and old: "\<forall>p \<in> set parts. (\<exists>x \<in> set chunks. contains x p) \<or> contains cur p"
    and vis: "ck_overlap c = 0 \<longrightarrow> visible (concat chunks) @ visible cur = visible (concat parts)"
    using inv unfolding pack_ok_def by simp_all
  have part': "piece_ok (chunk_bound c) part"
    using part by (rule piece_ok_mono) (simp add: chunk_bound_def)
  consider (first) "cur = []" "pack_part c (chunks, cur) part = (chunks, part)"
    | (join) "cur \<noteq> []" "pack_part c (chunks, cur) part = (chunks, strip (cur @ [10, 10] @ part))"
        "length (strip (cur @ [10, 10] @ part)) \<le> ck_max c"
    | (flush) "cur \<noteq> []"
        "pack_part c (chunks, cur) part = (chunks @ [cur], strip (overlap_of c cur @ [10, 10] @ part))"
    by (cases "cur = []"; cases "ck_max c < length (strip (cur @ [10, 10] @ part))
        \<or> ck_target c < length (strip (cur @ [10, 10] @ part)) \<and> ck_min c \<le> length cur")
      (simp_all add: Let_def not_less)
  then show ?thesis
  proof cases
    case first
    have "contains [] p \<Longrightarrow> p = []" for p by (simp add: contains_iff)
    then have "contains x p \<Longrightarrow> x = [] \<Longrightarrow> contains y p" for x p y by fastforce
    then have "\<forall>p \<in> set (parts @ [part]). (\<exists>x \<in> set chunks. contains x p) \<or> contains part p"
      using old first(1) by auto
    then show ?thesis
      using first chunks part' vis unfolding pack_ok_def by simp
  next
    case join
    have eq: "strip (cur @ [10, 10] @ part) = cur @ [10, 10] @ part"
      using cur join(1) part' join_pieces by blast
    have "piece_ok (chunk_bound c) (strip (cur @ [10, 10] @ part))"
      by (rule piece_ok_strip) (use eq join(1,3) in \<open>simp_all add: chunk_bound_def\<close>)
    moreover have "\<forall>p \<in> set (parts @ [part]). (\<exists>x \<in> set chunks. contains x p)
        \<or> contains (cur @ [10, 10] @ part) p"
      using old contains_appendI1 [of cur] contains_suffix [of "cur @ [10, 10]" part] by auto
    ultimately show ?thesis using join(2) chunks vis unfolding pack_ok_def by (simp add: eq [simplified])
  next
    case flush
    let ?next = "strip (overlap_of c cur @ [10, 10] @ part)"
    have p: "strip part = part" "part \<noteq> []" using part by (simp_all add: piece_ok_def)
    obtain a where a: "?next = a @ part"
      using strip_keeps_suffix [OF p, of "overlap_of c cur @ [10, 10]"] by auto
    have "piece_ok (chunk_bound c) ?next"
      by (rule piece_ok_strip)
        (use a p next_chunk_length [OF part, of c cur] in \<open>simp_all add: chunk_bound_def\<close>)
    moreover have "\<forall>p \<in> set (parts @ [part]). (\<exists>x \<in> set (chunks @ [cur]). contains x p) \<or> contains ?next p"
      using old contains_suffix [of a part] unfolding a by auto
    moreover have "ck_overlap c = 0 \<longrightarrow> visible ?next = visible part"
      by (simp add: overlap_of_def)
    ultimately show ?thesis
      using flush chunks cur vis unfolding pack_ok_def by simp
  qed
qed

lemma pack_fold_ok:
  "(\<forall>p \<in> set parts. piece_ok (piece_limit c + 1) p) \<Longrightarrow> pack_ok c parts (foldl (pack_part c) ([], []) parts)"
proof (induction parts rule: rev_induct)
  case Nil
  then show ?case by (simp add: pack_ok_def)
next
  case (snoc p parts)
  obtain chunks cur where "foldl (pack_part c) ([], []) parts = (chunks, cur)" by fastforce
  with snoc pack_part_ok [of c parts chunks cur p] show ?case by simp
qed


lemma split_body_ok:
  "(\<forall>x \<in> set (split_body c body). piece_ok (chunk_bound c) x)
    \<and> (\<forall>p \<in> set (body_parts c body). p \<noteq> [] \<longrightarrow> (\<exists>x \<in> set (split_body c body). contains x p))
    \<and> (ck_overlap c = 0 \<longrightarrow> visible (concat (split_body c body)) = visible body)"
proof (cases "body_parts c body = [[]] \<and> visible body = []")
  case True
  then show ?thesis by (simp add: split_body_def)
next
  case False
  then have "\<forall>p \<in> set (body_parts c body). piece_ok (piece_limit c + 1) p"
    using body_parts_ok [of c body] by blast
  from pack_fold_ok [OF this]
  obtain chunks cur where f: "foldl (pack_part c) ([], []) (body_parts c body) = (chunks, cur)"
    and ok: "pack_ok c (body_parts c body) (chunks, cur)" by (metis surj_pair)
  have s: "split_body c body = (if cur \<noteq> [] then chunks @ [cur] else chunks)"
    by (simp add: split_body_def f)
  have "contains [] p \<longleftrightarrow> p = []" for p by (simp add: contains_iff)
  then show ?thesis
    using ok body_parts_ok [of c body] unfolding pack_ok_def s by auto
qed

section \<open>The drafts\<close>

lemma raw_chunks_ok:
  "x \<in> set (raw_chunks c s) \<Longrightarrow> piece_ok (chunk_bound c) (fst x)"
  using split_body_ok unfolding raw_chunks_def by fastforce

lemma chunk_raw:
  "chunk c s = [] \<or> (\<exists>t. chunk c s = map (\<lambda>(i, content, path, title).
      \<lparr>cd_index = i, cd_content = content, cd_path = path, cd_title = title, cd_count = length content\<rparr>)
        (enum_from 0 (raw_chunks c t)))"
proof -
  have "filter (\<lambda>(i, content, path, title). strip content \<noteq> []) (enum_from 0 (raw_chunks c t))
      = enum_from 0 (raw_chunks c t)" for t
  proof (rule filter_True, rule ballI)
    fix x assume "x \<in> set (enum_from 0 (raw_chunks c t))"
    then have "snd x \<in> set (raw_chunks c t)" by (rule snd_set_enumerate)
    then have "piece_ok (chunk_bound c) (fst (snd x))" by (rule raw_chunks_ok)
    then show "case x of (i, content, path, title) \<Rightarrow> strip content \<noteq> []"
      by (cases x) (auto simp: piece_ok_def)
  qed
  then show ?thesis unfolding chunk_def Let_def by metis
qed

section \<open>Properties\<close>

text \<open>
  C30. Splitting the body of a section loses no text: every part (a paragraph, or a piece of one
  that is too long) is contained in a chunk, and without overlap the visible characters of the
  chunks, in order, are exactly those of the body.
\<close>

theorem split_body_lossless:
  "(\<forall>p \<in> set (body_parts c body). p \<noteq> [] \<longrightarrow> (\<exists>x \<in> set (split_body c body). contains x p))
    \<and> visible (concat (body_parts c body)) = visible body
    \<and> (ck_overlap c = 0 \<longrightarrow> visible (concat (split_body c body)) = visible body)"
  using split_body_ok body_parts_ok by blast

lemma split_body_lossless_witness:
  "visible (concat (split_body \<lparr>ck_target = 4, ck_min = 2, ck_max = 6, ck_overlap = 0\<rparr> (asc ''ab cd ef'')))
    = asc ''abcdef''"
proof -
  have "visible (asc ''ab cd ef'') = asc ''abcdef''" by code_simp
  then show ?thesis
    using split_body_lossless [of "\<lparr>ck_target = 4, ck_min = 2, ck_max = 6, ck_overlap = 0\<rparr>"
      "asc ''ab cd ef''"] by simp
qed

theorem chunk_drafts_sound:
  assumes "mk_chunking target mn mx overlap = Inr c" "overlap + 3 \<le> mx"
  shows "map cd_index (chunk c s) = [0..<length (chunk c s)]
    \<and> (\<forall>d \<in> set (chunk c s). strip (cd_content d) = cd_content d \<and> cd_content d \<noteq> []
        \<and> cd_count d = length (cd_content d) \<and> int (cd_count d) \<le> mx + 1)"
proof (cases "chunk c s = []")
  case True
  then show ?thesis by simp
next
  case False
  then obtain t where t: "chunk c s = map (\<lambda>(i, content, path, title).
      \<lparr>cd_index = i, cd_content = content, cd_path = path, cd_title = title, cd_count = length content\<rparr>)
        (enum_from 0 (raw_chunks c t))" using chunk_raw by blast
  have "int (chunk_bound c) \<le> mx + 1"
    using assms by (auto simp: mk_chunking_def chunk_bound_def piece_limit_def split: if_splits)
  moreover have "piece_ok (chunk_bound c) (cd_content d) \<and> cd_count d = length (cd_content d)"
    if d: "d \<in> set (chunk c s)" for d
  proof -
    obtain i x where "(i, x) \<in> set (enum_from 0 (raw_chunks c t))" "cd_content d = fst x"
      "cd_count d = length (fst x)" using d unfolding t by auto
    then show ?thesis using raw_chunks_ok snd_set_enumerate by fastforce
  qed
  moreover have "map cd_index (chunk c s) = [0..<length (chunk c s)]"
    unfolding t by (rule nth_equalityI) (simp_all add: nth_enumerate_eq split_beta)
  ultimately show ?thesis by (force simp: piece_ok_def)
qed

lemma chunk_drafts_sound_witness:
  "map cd_index (chunk \<lparr>ck_target = 4, ck_min = 2, ck_max = 6, ck_overlap = 1\<rparr> (asc ''ab cd ef''))
    = [0..<length (chunk \<lparr>ck_target = 4, ck_min = 2, ck_max = 6, ck_overlap = 1\<rparr> (asc ''ab cd ef''))]"
proof -
  have "mk_chunking 4 2 6 1 = Inr \<lparr>ck_target = 4, ck_min = 2, ck_max = 6, ck_overlap = 1\<rparr>" by code_simp
  then show ?thesis using chunk_drafts_sound [of 4 2 6 1] by simp
qed

theorem chunk_exceeds_max:
  "mk_chunking 4 2 4 0 = Inr \<lparr>ck_target = 4, ck_min = 2, ck_max = 4, ck_overlap = 0\<rparr>
    \<and> map cd_count (chunk \<lparr>ck_target = 4, ck_min = 2, ck_max = 4, ck_overlap = 0\<rparr> (asc ''abcd,efg'')) = [5, 3]"
  by code_simp

end
