(* ===== verification/Versions.thy ===== *)
theory Versions
  imports Documents
begin

text \<open>
  Documents and their version history: the rows of \<open>backend/app/models/document.py\<close> that the
  program writes, and \<open>backend/app/services/versioning.py\<close>. The attributes the code reads and
  writes by name (\<open>getattr\<close>, \<open>setattr\<close>) are a dictionary. SHA-256 gives a hexadecimal text here;
  \<open>sha_num\<close> is the same digest as an integer, for the simhash.

  Two services append versions: this one and the recrawl of \<open>services/crawl.py\<close> (theory
  \<open>CrawlDocuments\<close>). The locale \<open>versioned_update\<close> is the contract they share.
\<close>

section \<open>Rows\<close>

record document =
  dm_id :: int
  dm_source :: int
  dm_column :: "int option"
  dm_canonical :: ustr
  dm_attrs :: pydict
  dm_quality :: "rat option"
  dm_rule :: string
  dm_llm :: string
  dm_manual :: string
  dm_final :: string
  dm_index :: string
  dm_version :: nat
  dm_last_crawl :: int

record version_row =
  vr_id :: int
  vr_document :: int
  vr_version :: nat
  vr_hash :: ustr
  vr_content :: ustr
  vr_metadata :: pydict
  vr_changed :: "string list"

record lineage_row =
  ln_task :: "int option"
  ln_source :: int
  ln_document :: int
  ln_version :: "int option"
  ln_attachment :: "int option"

record doc_store =
  ds_docs :: "(int, document) dict"
  ds_versions :: "version_row list"
  ds_lineage :: "lineage_row list"
  ds_next :: int
  ds_stale_chunks :: "int list"

definition attr :: "document \<Rightarrow> string \<Rightarrow> pyval" where
  "attr d k = pget (dm_attrs d) k"

definition set_attr :: "string \<Rightarrow> pyval \<Rightarrow> document \<Rightarrow> document" where
  "set_attr k v d = d\<lparr>dm_attrs := dset k v (dm_attrs d)\<rparr>"

definition set_attrs :: "pydict \<Rightarrow> document \<Rightarrow> document" where
  "set_attrs kvs d = fold (\<lambda>(k, v). set_attr k v) kvs d"

fun text_of :: "pyval \<Rightarrow> ustr" where
  "text_of (PStr s) = s"
| "text_of _ = []"

abbreviation content_of :: "document \<Rightarrow> ustr" where
  "content_of d \<equiv> text_of (attr d ''content'')"

lemma attr_set_attr [simp]: "attr (set_attr k v d) k' = (if k' = k then v else attr d k')"
  by (simp add: attr_def set_attr_def pget_def dget_or_def dget_dset)

lemma set_attr_keeps [simp]:
  "dm_id (set_attr k v d) = dm_id d" "dm_version (set_attr k v d) = dm_version d"
  "dm_index (set_attr k v d) = dm_index d" "dm_canonical (set_attr k v d) = dm_canonical d"
  by (simp_all add: set_attr_def)

lemma set_attrs_keeps [simp]:
  "dm_id (set_attrs kvs d) = dm_id d" "dm_version (set_attrs kvs d) = dm_version d"
  "dm_index (set_attrs kvs d) = dm_index d" "dm_canonical (set_attrs kvs d) = dm_canonical d"
  unfolding set_attrs_def by (induction kvs arbitrary: d) auto

lemma attr_set_attrs:
  "attr (set_attrs kvs d) k = (case dget (rev kvs) k of Some v \<Rightarrow> v | None \<Rightarrow> attr d k)"
  unfolding set_attrs_def
  by (induction kvs arbitrary: d) (auto simp: map_add_def split: option.splits)

section \<open>Snapshots\<close>

definition isoformat_or_none :: "pyval \<Rightarrow> pyval" where
  "isoformat_or_none v = (case v of PDate d \<Rightarrow> PStr (isoformat d) | _ \<Rightarrow> PNone)"

definition snapshot_metadata :: "document \<Rightarrow> pydict" where
  "snapshot_metadata d =
    [(''title'', attr d ''title''), (''publish_date'', isoformat_or_none (attr d ''publish_date'')),
     (''issuing_authority'', attr d ''issuing_authority''), (''document_number'', attr d ''document_number''),
     (''region'', attr d ''region''), (''document_type'', attr d ''document_type'')]"

text \<open>The hash of the row, or the one of the content when the row has none.\<close>

definition snapshot :: "(ustr \<Rightarrow> ustr) \<Rightarrow> string list \<Rightarrow> int \<Rightarrow> document \<Rightarrow> version_row" where
  "snapshot hash changed i d =
    \<lparr>vr_id = i, vr_document = dm_id d, vr_version = dm_version d,
     vr_hash = (if text_of (attr d ''content_hash'') \<noteq> [] then text_of (attr d ''content_hash'')
       else hash (content_of d)),
     vr_content = content_of d, vr_metadata = snapshot_metadata d, vr_changed = changed\<rparr>"

definition versions_of :: "int \<Rightarrow> doc_store \<Rightarrow> version_row list" where
  "versions_of i st = filter (\<lambda>v. vr_document v = i) (ds_versions st)"

definition version_count :: "int \<Rightarrow> doc_store \<Rightarrow> nat" where
  "version_count i st = length (versions_of i st)"

definition add_version :: "(ustr \<Rightarrow> ustr) \<Rightarrow> string list \<Rightarrow> document \<Rightarrow> doc_store \<Rightarrow> doc_store" where
  "add_version hash changed d st =
    st\<lparr>ds_versions := ds_versions st @ [snapshot hash changed (ds_next st) d], ds_next := ds_next st + 1\<rparr>"

text \<open>
  The sequence both services run on a change: a first snapshot of the document as it was if it
  has none, the next version number, the new attributes, the stale mark, and the snapshot of the
  new version.
\<close>

definition bump :: "(ustr \<Rightarrow> ustr) \<Rightarrow> pydict \<Rightarrow> string list \<Rightarrow> document \<Rightarrow> doc_store \<Rightarrow> doc_store \<times> document" where
  "bump hash values changed d st =
    (let st1 = (if version_count (dm_id d) st = 0 then add_version hash [] d st else st);
         d' = set_attrs values (d\<lparr>dm_version := dm_version d + 1, dm_index := ''stale''\<rparr>)
     in (add_version hash changed d' st1, d'))"

definition put_doc :: "document \<Rightarrow> doc_store \<Rightarrow> doc_store" where
  "put_doc d st = st\<lparr>ds_docs := dset (dm_id d) d (ds_docs st)\<rparr>"

definition add_lineage :: "int option \<Rightarrow> int option \<Rightarrow> document \<Rightarrow> int option \<Rightarrow> doc_store \<Rightarrow> doc_store" where
  "add_lineage task attachment d ver st =
    st\<lparr>ds_lineage := ds_lineage st @ [\<lparr>ln_task = task, ln_source = dm_source d, ln_document = dm_id d,
       ln_version = ver, ln_attachment = attachment\<rparr>]\<rparr>"

definition last_version_id :: "doc_store \<Rightarrow> int option" where
  "last_version_id st = (if ds_versions st = [] then None else Some (vr_id (last (ds_versions st))))"

section \<open>The history of a document\<close>

text \<open>
  Version numbers increase, and the last snapshot is the document as it stands: same number and
  same content.
\<close>

definition history_ok :: "document \<Rightarrow> version_row list \<Rightarrow> bool" where
  "history_ok d vs \<longleftrightarrow> sorted_wrt (<) (map vr_version vs)
    \<and> (vs \<noteq> [] \<longrightarrow> vr_version (last vs) = dm_version d \<and> vr_content (last vs) = content_of d)"

definition store_ok :: "doc_store \<Rightarrow> bool" where
  "store_ok st \<longleftrightarrow> (\<forall>(i, d) \<in> set (ds_docs st). dm_id d = i \<and> history_ok d (versions_of i st))
    \<and> distinct (dkeys (ds_docs st))"

lemma versions_of_add_version:
  "versions_of i (add_version hash ch d st) =
    (if dm_id d = i then versions_of i st @ [snapshot hash ch (ds_next st) d] else versions_of i st)"
  by (simp add: versions_of_def add_version_def snapshot_def)

lemma add_version_docs [simp]: "ds_docs (add_version hash ch d st) = ds_docs st"
  by (simp add: add_version_def)

lemma versions_of_put [simp]: "versions_of i (put_doc d st) = versions_of i st"
  by (simp add: versions_of_def put_doc_def)

lemma versions_of_lineage [simp]: "versions_of i (add_lineage t a d v st) = versions_of i st"
  by (simp add: versions_of_def add_lineage_def)

lemma add_lineage_docs [simp]: "ds_docs (add_lineage t a d v st) = ds_docs st"
  by (simp add: add_lineage_def)

lemma store_okD: "store_ok st \<Longrightarrow> dget (ds_docs st) i = Some d \<Longrightarrow> dm_id d = i \<and> history_ok d (versions_of i st)"
  unfolding store_ok_def by (drule map_of_SomeD) auto

lemma bump_docs [simp]: "ds_docs (fst (bump hash vals ch d st)) = ds_docs st"
  by (simp add: bump_def Let_def)

lemma bump_id [simp]: "dm_id (snd (bump hash vals ch d st)) = dm_id d"
  by (simp add: bump_def Let_def)

lemma bump_others: "i \<noteq> dm_id d \<Longrightarrow> versions_of i (fst (bump hash vals ch d st)) = versions_of i st"
  by (simp add: bump_def Let_def versions_of_add_version)

lemma sorted_last: "sorted_wrt (<) xs \<Longrightarrow> x \<in> set xs \<Longrightarrow> x \<le> (last xs :: nat)"
  by (induction xs rule: rev_induct) (auto simp: sorted_wrt_append less_imp_le)

text \<open>What was there stays there, and the new snapshot comes last.\<close>

definition extends :: "document \<Rightarrow> version_row list \<Rightarrow> version_row list \<Rightarrow> bool" where
  "extends d vs ws \<longleftrightarrow> (\<exists>base v. ws = base @ [v] \<and> prefix vs base \<and> base \<noteq> []
    \<and> vr_content (last base) = content_of d \<and> vr_version (last base) = dm_version d)"

lemma bump_history:
  assumes "history_ok d (versions_of (dm_id d) st)"
  shows "history_ok (snd (bump hash vals ch d st)) (versions_of (dm_id d) (fst (bump hash vals ch d st)))
    \<and> extends d (versions_of (dm_id d) st) (versions_of (dm_id d) (fst (bump hash vals ch d st)))
    \<and> dm_version (snd (bump hash vals ch d st)) = dm_version d + 1
    \<and> dm_index (snd (bump hash vals ch d st)) = ''stale''"
proof (cases "versions_of (dm_id d) st = []")
  case True
  let ?d = "set_attrs vals (d\<lparr>dm_version := dm_version d + 1, dm_index := ''stale''\<rparr>)"
  have v: "versions_of (dm_id d) (fst (bump hash vals ch d st)) =
      [snapshot hash [] (ds_next st) d] @ [snapshot hash ch (ds_next st + 1) ?d]"
    using True by (simp add: bump_def Let_def version_count_def versions_of_add_version add_version_def)
      (simp add: versions_of_def snapshot_def)
  show ?thesis
    unfolding v extends_def history_ok_def using True
    by (auto simp: bump_def Let_def snapshot_def)
next
  case False
  let ?d = "set_attrs vals (d\<lparr>dm_version := dm_version d + 1, dm_index := ''stale''\<rparr>)"
  have v: "versions_of (dm_id d) (fst (bump hash vals ch d st)) =
      versions_of (dm_id d) st @ [snapshot hash ch (ds_next st) ?d]"
    using False by (simp add: bump_def Let_def version_count_def versions_of_add_version)
  have s: "sorted_wrt (<) (map vr_version (versions_of (dm_id d) st))"
    and l: "vr_version (last (versions_of (dm_id d) st)) = dm_version d"
      "vr_content (last (versions_of (dm_id d) st)) = content_of d"
    using assms False by (auto simp: history_ok_def)
  have "vr_version x \<le> dm_version d" if "x \<in> set (versions_of (dm_id d) st)" for x
    using sorted_last [OF s, of "vr_version x"] that l(1) False by (simp add: last_map)
  then have lt: "\<forall>x \<in> set (versions_of (dm_id d) st). vr_version x < dm_version d + 1"
    by (simp add: less_Suc_eq_le)
  show ?thesis
    unfolding v extends_def history_ok_def using False s l lt
    by (auto simp: bump_def Let_def snapshot_def sorted_wrt_append)
qed


lemma bump_store_ok:
  assumes "store_ok st" "dget (ds_docs st) (dm_id d) = Some d" "bump hash vals ch d st = (st', d')"
  shows "store_ok (put_doc d' st')"
proof -
  have d: "history_ok d (versions_of (dm_id d) st)" using store_okD [OF assms(1,2)] by simp
  have b: "st' = fst (bump hash vals ch d st)" "d' = snd (bump hash vals ch d st)" using assms(3) by simp_all
  have "dm_id x = i \<and> history_ok x (versions_of i st')" if "(i, x) \<in> set (dset (dm_id d) d' (ds_docs st))" for i x
  proof (cases "i = dm_id d")
    case True
    have "distinct (dkeys (dset (dm_id d) d' (ds_docs st)))"
      using assms(1) by (simp add: store_ok_def distinct_update)
    then have "x = d'" using that True by (metis Some_eq_map_of_iff dget_dset option.inject)
    then show ?thesis using True bump_history [OF d, of hash vals ch] b by simp
  next
    case False
    have "distinct (dkeys (dset (dm_id d) d' (ds_docs st)))"
      using assms(1) by (simp add: store_ok_def distinct_update)
    then have "dget (dset (dm_id d) d' (ds_docs st)) i = Some x" using that by simp
    then have "dget (ds_docs st) i = Some x" using False by (simp add: dget_dset)
    then have "dm_id x = i \<and> history_ok x (versions_of i st)" by (rule store_okD [OF assms(1)])
    then show ?thesis using bump_others [OF False] b by simp
  qed
  moreover have "distinct (dkeys (dset (dm_id d) d' (ds_docs st)))"
    using assms(1) by (simp add: store_ok_def distinct_update)
  ultimately show ?thesis using b by (auto simp: store_ok_def put_doc_def versions_of_def)
qed

lemma store_ok_lineage [simp]: "store_ok (add_lineage t a d v st) = store_ok st"
  by (simp add: store_ok_def)

section \<open>The contract of an update\<close>

text \<open>Updates one after the other, stopping at the first error.\<close>

fun run_updates :: "('a \<Rightarrow> int \<Rightarrow> doc_store \<Rightarrow> exn + doc_store \<times> 'r) \<Rightarrow> ('a \<times> int) list \<Rightarrow> doc_store \<Rightarrow>
    exn + doc_store" where
  "run_updates upd [] st = Inr st"
| "run_updates upd ((a, i) # us) st = rbind (upd a i st) (\<lambda>(st', r). run_updates upd us st')"

locale versioned_update =
  fixes upd :: "'a \<Rightarrow> int \<Rightarrow> doc_store \<Rightarrow> exn + doc_store \<times> 'r"
    and changed :: "'r \<Rightarrow> bool"
  assumes missing: "dget (ds_docs st) i = None \<Longrightarrow> upd a i st = Inl (NotFoundError ''Document'')"
    and keeps_ok: "store_ok st \<Longrightarrow> upd a i st = Inr (st', r) \<Longrightarrow> store_ok st'"
    and others: "upd a i st = Inr (st', r) \<Longrightarrow> j \<noteq> i \<Longrightarrow> store_ok st \<Longrightarrow>
      dget (ds_docs st') j = dget (ds_docs st) j \<and> versions_of j st' = versions_of j st"
    and quiet: "upd a i st = Inr (st', r) \<Longrightarrow> \<not> changed r \<Longrightarrow> ds_versions st' = ds_versions st"
    and recorded: "store_ok st \<Longrightarrow> upd a i st = Inr (st', r) \<Longrightarrow> changed r \<Longrightarrow>
      \<exists>d. dget (ds_docs st) i = Some d \<and> extends d (versions_of i st) (versions_of i st')"
begin

lemma append_only: "store_ok st \<Longrightarrow> upd a i st = Inr (st', r) \<Longrightarrow> prefix (versions_of j st) (versions_of j st')"
proof -
  assume ok: "store_ok st" and u: "upd a i st = Inr (st', r)"
  consider "j \<noteq> i" | "j = i" "\<not> changed r" | "j = i" "changed r" by blast
  then show ?thesis
  proof cases
    case 1
    then show ?thesis using others [OF u 1 ok] by simp
  next
    case 2
    then show ?thesis using quiet [OF u] by (simp add: versions_of_def)
  next
    case 3
    then show ?thesis using recorded [OF ok u] unfolding extends_def by (auto simp: prefix_def)
  qed
qed

lemma history_append_only:
  "store_ok st \<Longrightarrow> run_updates upd us st = Inr st' \<Longrightarrow>
    store_ok st' \<and> (\<forall>j. prefix (versions_of j st) (versions_of j st'))"
proof (induction us arbitrary: st)
  case Nil
  then show ?case by simp
next
  case (Cons u us)
  obtain a i where u: "u = (a, i)" by (cases u)
  obtain st1 r where s1: "upd a i st = Inr (st1, r)" "run_updates upd us st1 = Inr st'"
    using Cons.prems(2) u by (auto simp: rbind_Inr)
  have "store_ok st1" using keeps_ok Cons.prems(1) s1(1) by blast
  from Cons.IH [OF this s1(2)] show ?case
    using append_only [OF Cons.prems(1) s1(1)] prefix_order.trans by blast
qed

end

section \<open>The versioning service\<close>

record versioning_result =
  vg_changed :: bool
  vg_version :: nat
  vg_fields :: "string list"
  vg_version_id :: "int option"

definition updatable_fields :: "string list" where
  "updatable_fields = [''title'', ''subtitle'', ''publish_date'', ''author'', ''issuing_authority'',
     ''document_number'', ''region'', ''city'', ''document_type'', ''language'']"

definition changed_fields :: "document \<Rightarrow> ustr \<Rightarrow> pydict \<Rightarrow> string list" where
  "changed_fields d new_content updates =
    (if content_of d \<noteq> new_content then [''content''] else [])
    @ map fst (filter (\<lambda>(k, v). k \<in> set updatable_fields \<and> \<not> py_eq (attr d k) v) updates)"

fun hex_of :: "nat \<Rightarrow> ustr" where
  "hex_of n = (if n < 16 then [if n < 10 then 48 + int n else 87 + int n]
     else hex_of (n div 16) @ [if n mod 16 < 10 then 48 + int (n mod 16) else 87 + int (n mod 16)])"

declare hex_of.simps [simp del]

text \<open>\<open>f"{value:016x}"\<close>\<close>

definition hex16 :: "int \<Rightarrow> ustr" where
  "hex16 k = replicate (16 - length (hex_of (nat k))) 48 @ hex_of (nat k)"

record parsed_update =
  pu_text :: ustr
  pu_metadata :: pydict
  pu_task :: "int option"
  pu_attachment :: "int option"

record hashes =
  hs_nfkc :: "ustr \<Rightarrow> ustr"
  hs_hex :: "ustr \<Rightarrow> ustr"          \<comment> \<open>SHA-256 as hexadecimal text\<close>
  hs_num :: "ustr \<Rightarrow> int"           \<comment> \<open>SHA-256 as an integer\<close>

definition canonical_hash :: "hashes \<Rightarrow> ustr \<Rightarrow> ustr" where
  "canonical_hash h s = hs_hex h (re_sub spaces_rx [] s)"

definition apply_parsed_update ::
    "hashes \<Rightarrow> parsed_update \<Rightarrow> int \<Rightarrow> doc_store \<Rightarrow> exn + doc_store \<times> versioning_result" where
  "apply_parsed_update h u i st =
    (case dget (ds_docs st) i of
       None \<Rightarrow> Inl (NotFoundError ''Document'')
     | Some d \<Rightarrow>
       (let new_content = clean_text (hs_nfkc h) boilerplate (pu_text u);
            new_hash = canonical_hash h new_content in
        if py_eq (attr d ''content_hash'') (PStr new_hash) then
          Inr (st, \<lparr>vg_changed = False, vg_version = dm_version d, vg_fields = [], vg_version_id = None\<rparr>)
        else
          let changes = changed_fields d new_content (pu_metadata u) in
          rbind (simhash (hs_num h) 64 new_content) (\<lambda>sim.
          case bump (canonical_hash h)
              ([(''content'', PStr new_content), (''content_hash'', PStr new_hash), (''simhash'', PStr (hex16 sim)),
                (''word_count'', PInt (int (length new_content)))]
               @ filter (\<lambda>(k, v). k \<in> set updatable_fields) (pu_metadata u))
              changes d st of
            (st', d') \<Rightarrow>
              Inr (add_lineage (pu_task u) (pu_attachment u) d' (last_version_id st') (put_doc d' st'),
                \<lparr>vg_changed = True, vg_version = dm_version d', vg_fields = changes,
                 vg_version_id = last_version_id st'\<rparr>))))"

definition apply_metadata_update ::
    "hashes \<Rightarrow> pydict \<Rightarrow> int \<Rightarrow> doc_store \<Rightarrow> exn + doc_store \<times> versioning_result" where
  "apply_metadata_update h metadata i st =
    (case dget (ds_docs st) i of
       None \<Rightarrow> Inl (NotFoundError ''Document'')
     | Some d \<Rightarrow>
       (let updates = filter (\<lambda>(k, v). k \<in> set updatable_fields \<and> \<not> py_eq (attr d k) v) metadata in
        if updates = [] then
          Inr (st, \<lparr>vg_changed = False, vg_version = dm_version d, vg_fields = [], vg_version_id = None\<rparr>)
        else
          case bump (canonical_hash h) updates (dkeys updates) d st of
            (st', d') \<Rightarrow>
              Inr (add_lineage None None d' (last_version_id st') (put_doc d' st'),
                \<lparr>vg_changed = True, vg_version = dm_version d', vg_fields = dkeys updates,
                 vg_version_id = last_version_id st'\<rparr>)))"

lemma put_doc_get: "dget (ds_docs (put_doc d st)) j = (if j = dm_id d then Some d else dget (ds_docs st) j)"
  by (simp add: put_doc_def dget_dset)

text \<open>Both operations leave the store alone or run the common sequence.\<close>

definition bumped :: "(ustr \<Rightarrow> ustr) \<Rightarrow> int \<Rightarrow> doc_store \<Rightarrow> doc_store \<Rightarrow> bool" where
  "bumped hash i st st' \<longleftrightarrow> (\<exists>d vals ch t a v. dget (ds_docs st) i = Some d
    \<and> st' = add_lineage t a (snd (bump hash vals ch d st)) v
        (put_doc (snd (bump hash vals ch d st)) (fst (bump hash vals ch d st))))"

lemma bumpedI: "dget (ds_docs st) i = Some d \<Longrightarrow> bumped hash i st
    (add_lineage t a (snd (bump hash vals ch d st)) v
      (put_doc (snd (bump hash vals ch d st)) (fst (bump hash vals ch d st))))"
  unfolding bumped_def by blast

lemma apply_parsed_cases:
  assumes "apply_parsed_update h u i st = Inr (st', r)"
  shows "if vg_changed r then bumped (canonical_hash h) i st st' else st' = st"
proof (cases "dget (ds_docs st) i")
  case None
  then show ?thesis using assms by (simp add: apply_parsed_update_def)
next
  case (Some d)
  then show ?thesis using assms
    unfolding apply_parsed_update_def Let_def
    by (auto simp: rbind_Inr case_prod_beta split: if_splits intro: bumpedI)
qed

lemma apply_metadata_cases:
  assumes "apply_metadata_update h u i st = Inr (st', r)"
  shows "if vg_changed r then bumped (canonical_hash h) i st st' else st' = st"
proof (cases "dget (ds_docs st) i")
  case None
  then show ?thesis using assms by (simp add: apply_metadata_update_def)
next
  case (Some d)
  then show ?thesis using assms
    unfolding apply_metadata_update_def Let_def
    by (auto simp: case_prod_beta split: if_splits intro: bumpedI)
qed

lemma bumped_update:
  assumes "bumped hash i st st'" "store_ok st"
  shows "store_ok st'
    \<and> (\<forall>j. j \<noteq> i \<longrightarrow> dget (ds_docs st') j = dget (ds_docs st) j \<and> versions_of j st' = versions_of j st)
    \<and> (\<exists>d. dget (ds_docs st) i = Some d \<and> extends d (versions_of i st) (versions_of i st'))"
proof -
  obtain d vals ch t a v where d: "dget (ds_docs st) i = Some d" and
    st': "st' = add_lineage t a (snd (bump hash vals ch d st)) v
        (put_doc (snd (bump hash vals ch d st)) (fst (bump hash vals ch d st)))"
    using assms(1) unfolding bumped_def by blast
  have i: "dm_id d = i" "history_ok d (versions_of i st)" using store_okD [OF assms(2) d] by auto
  have "store_ok st'"
    using bump_store_ok [OF assms(2), of d hash vals ch] d i unfolding st' by simp
  moreover have "\<forall>j. j \<noteq> i \<longrightarrow> dget (ds_docs st') j = dget (ds_docs st) j \<and> versions_of j st' = versions_of j st"
    using bump_others [of _ d hash vals ch st] i(1) unfolding st' by (simp add: put_doc_get)
  moreover have "extends d (versions_of i st) (versions_of i st')"
    using bump_history [of d st hash vals ch] i unfolding st' by simp
  ultimately show ?thesis using d by blast
qed

interpretation parsed: versioned_update "apply_parsed_update h" vg_changed for h
proof
  fix st i a st' r j
  show "dget (ds_docs st) i = None \<Longrightarrow> apply_parsed_update h a i st = Inl (NotFoundError ''Document'')"
    by (simp add: apply_parsed_update_def)
  assume "apply_parsed_update h a i st = Inr (st', r)"
  note u = apply_parsed_cases [OF this]
  show "store_ok st'" if "store_ok st"
    using u that bumped_update by (metis (full_types))
  show "dget (ds_docs st') j = dget (ds_docs st) j \<and> versions_of j st' = versions_of j st" if "j \<noteq> i" "store_ok st"
    using u that bumped_update by (metis (full_types))
  show "ds_versions st' = ds_versions st" if "\<not> vg_changed r"
    using u that by simp
  show "\<exists>d. dget (ds_docs st) i = Some d \<and> extends d (versions_of i st) (versions_of i st')"
    if "store_ok st" "vg_changed r"
    using u that bumped_update by (metis (full_types))
qed

interpretation metadata: versioned_update "apply_metadata_update h" vg_changed for h
proof
  fix st i a st' r j
  show "dget (ds_docs st) i = None \<Longrightarrow> apply_metadata_update h a i st = Inl (NotFoundError ''Document'')"
    by (simp add: apply_metadata_update_def)
  assume "apply_metadata_update h a i st = Inr (st', r)"
  note u = apply_metadata_cases [OF this]
  show "store_ok st'" if "store_ok st"
    using u that bumped_update by (metis (full_types))
  show "dget (ds_docs st') j = dget (ds_docs st) j \<and> versions_of j st' = versions_of j st" if "j \<noteq> i" "store_ok st"
    using u that bumped_update by (metis (full_types))
  show "ds_versions st' = ds_versions st" if "\<not> vg_changed r"
    using u that by simp
  show "\<exists>d. dget (ds_docs st) i = Some d \<and> extends d (versions_of i st) (versions_of i st')"
    if "store_ok st" "vg_changed r"
    using u that bumped_update by (metis (full_types))
qed

section \<open>Properties\<close>

text \<open>
  C24. Any sequence of parsed updates or of metadata edits keeps every document's history:
  version numbers strictly increase, the last snapshot has the current number and content, and
  no snapshot is ever removed or rewritten.
\<close>

theorem version_history:
  assumes "store_ok st"
    and "run_updates (apply_parsed_update h) us st = Inr st' \<or> run_updates (apply_metadata_update h) ms st = Inr st'"
  shows "store_ok st' \<and> (\<forall>j. prefix (versions_of j st) (versions_of j st'))"
  using assms parsed.history_append_only metadata.history_append_only by blast

definition sample_store :: doc_store where
  "sample_store = \<lparr>ds_docs = [(1, \<lparr>dm_id = 1, dm_source = 1, dm_column = None, dm_canonical = [],
       dm_attrs = [(''title'', PStr (asc ''t'')), (''content'', PStr (asc ''old''))], dm_quality = None,
       dm_rule = ''pending'', dm_llm = ''pending'', dm_manual = ''pending'', dm_final = ''pending'',
       dm_index = ''pending'', dm_version = 1, dm_last_crawl = 0\<rparr>)],
     ds_versions = [], ds_lineage = [], ds_next = 1, ds_stale_chunks = []\<rparr>"

definition sample_hashes :: hashes where
  "sample_hashes = \<lparr>hs_nfkc = id, hs_hex = id, hs_num = (\<lambda>s. int (length s))\<rparr>"

lemma sample_store_ok: "store_ok sample_store"
  by (simp add: store_ok_def sample_store_def history_ok_def versions_of_def)

lemma version_history_witness:
  "\<exists>st'. run_updates (apply_metadata_update sample_hashes) [([(''title'', PStr (asc ''new''))], 1)] sample_store = Inr st'
    \<and> store_ok st'"
proof -
  have "\<not> isl (run_updates (apply_metadata_update sample_hashes) [([(''title'', PStr (asc ''new''))], 1)] sample_store)"
    by code_simp
  then obtain st' where
    r: "run_updates (apply_metadata_update sample_hashes) [([(''title'', PStr (asc ''new''))], 1)] sample_store = Inr st'"
    by (metis sum.collapse(2))
  then show ?thesis using version_history [OF sample_store_ok] by blast
qed

theorem parsed_update_drops_metadata:
  assumes "dget (ds_docs st) i = Some d"
    and "attr d ''content_hash'' = PStr (canonical_hash h (clean_text (hs_nfkc h) boilerplate (pu_text u)))"
  shows "\<exists>r. apply_parsed_update h u i st = Inr (st, r) \<and> \<not> vg_changed r"
  using assms by (simp add: apply_parsed_update_def Let_def)

lemma parsed_update_drops_metadata_witness:
  "\<exists>r. apply_parsed_update sample_hashes
      \<lparr>pu_text = asc ''same'', pu_metadata = [(''title'', PStr (asc ''new''))], pu_task = None, pu_attachment = None\<rparr> 1
      (sample_store\<lparr>ds_docs := [(1, (snd (hd (ds_docs sample_store)))\<lparr>dm_attrs := [(''content_hash'', PStr (asc ''same''))]\<rparr>)]\<rparr>)
    = Inr (sample_store\<lparr>ds_docs := [(1, (snd (hd (ds_docs sample_store)))\<lparr>dm_attrs := [(''content_hash'', PStr (asc ''same''))]\<rparr>)]\<rparr>, r)
    \<and> \<not> vg_changed r"
proof (rule parsed_update_drops_metadata)
  have "canonical_hash sample_hashes (clean_text (hs_nfkc sample_hashes) boilerplate (asc ''same'')) = asc ''same''"
    by code_simp
  then show "attr ((snd (hd (ds_docs sample_store)))\<lparr>dm_attrs := [(''content_hash'', PStr (asc ''same''))]\<rparr>) ''content_hash''
      = PStr (canonical_hash sample_hashes (clean_text (hs_nfkc sample_hashes) boilerplate
          (pu_text \<lparr>pu_text = asc ''same'', pu_metadata = [(''title'', PStr (asc ''new''))], pu_task = None, pu_attachment = None\<rparr>)))"
    by (simp add: attr_def pget_def dget_or_def)
qed simp

end
