(* ===== verification/CrawlState.thy ===== *)
theory CrawlState
  imports PyValues
begin

text \<open>
  The life cycle of a crawl task: the state machine of \<open>backend/app/crawler/state.py\<close> and the
  statements of \<open>backend/app/repositories/crawl.py\<close> that change the status of a row. Timestamps
  are integers and the clock is an argument. An \<open>UPDATE ... WHERE status = expected\<close> is a
  partial function on the row: \<open>None\<close> when the row count is not 1.

  The second half is about interleaving: workers and users run in different transactions, so the
  step relation \<open>task_step\<close> interleaves the atomic statements of several workers with cancellation,
  retry and recovery.
\<close>

section \<open>Tasks\<close>

datatype crawl_status = SPending | SQueued | SRunning | SCalling | SCozeRunning | SNormalizing
  | SSaving | SWaiting | SPartial | SFailed | SCancelled | SCompleted

fun status_name :: "crawl_status \<Rightarrow> string" where
  "status_name SPending = ''pending''"
| "status_name SQueued = ''queued''"
| "status_name SRunning = ''running''"
| "status_name SCalling = ''calling_coze''"
| "status_name SCozeRunning = ''coze_running''"
| "status_name SNormalizing = ''normalizing''"
| "status_name SSaving = ''saving_documents''"
| "status_name SWaiting = ''waiting_review''"
| "status_name SPartial = ''partial_failed''"
| "status_name SFailed = ''failed''"
| "status_name SCancelled = ''cancelled''"
| "status_name SCompleted = ''completed''"

record counters =
  ct_discovered :: int
  ct_fetched :: int
  ct_success :: int
  ct_url_dup :: int
  ct_content_dup :: int
  ct_semantic_dup :: int
  ct_failed :: int
  ct_accepted :: int
  ct_rejected :: int
  ct_pending_review :: int

record crawl_task =
  tk_id :: int
  tk_column :: int
  tk_status :: crawl_status
  tk_stage :: "string option"
  tk_provider :: string
  tk_contract :: "string option"
  tk_retries :: int
  tk_started :: "int option"
  tk_finished :: "int option"
  tk_completed :: "int option"
  tk_next_retry :: "int option"
  tk_error :: "string option"
  tk_provider_status :: "string option"
  tk_provider_code :: "string option"
  tk_provider_message :: "string option"
  tk_provider_task :: "string option"
  tk_execution :: "string option"
  tk_counts :: counters

definition reset_progress :: counters where
  "reset_progress = \<lparr>ct_discovered = 0, ct_fetched = 0, ct_success = 0, ct_url_dup = 0,
     ct_content_dup = 0, ct_semantic_dup = 0, ct_failed = 0, ct_accepted = 0, ct_rejected = 0,
     ct_pending_review = 0\<rparr>"

section \<open>The state machine\<close>

fun transitions :: "crawl_status \<Rightarrow> crawl_status list" where
  "transitions SPending = [SQueued, SRunning, SFailed, SCancelled]"
| "transitions SQueued = [SRunning, SCalling, SFailed, SCancelled]"
| "transitions SRunning = [SCalling, SSaving, SCompleted, SFailed, SCancelled]"
| "transitions SCalling = [SCozeRunning, SNormalizing, SFailed, SCancelled]"
| "transitions SCozeRunning = [SNormalizing, SFailed, SCancelled]"
| "transitions SNormalizing = [SSaving, SFailed, SCancelled]"
| "transitions SSaving = [SWaiting, SCompleted, SPartial, SFailed]"
| "transitions SWaiting = [SCompleted, SPartial, SFailed, SCancelled]"
| "transitions SPartial = [SPending, SWaiting, SCompleted]"
| "transitions SFailed = [SPending]"
| "transitions SCancelled = [SPending]"
| "transitions SCompleted = []"

fun enter_status :: "int \<Rightarrow> string option \<Rightarrow> crawl_status \<Rightarrow> crawl_task \<Rightarrow> crawl_task" where
  "enter_status now err SRunning t = t\<lparr>tk_started := Some now, tk_finished := None, tk_error := None\<rparr>"
| "enter_status now err SWaiting t = t\<lparr>tk_finished := None, tk_completed := None,
     tk_provider_code := None, tk_provider_message := None, tk_next_retry := None\<rparr>"
| "enter_status now err SPending t = t\<lparr>tk_started := None, tk_finished := None, tk_error := None,
     tk_provider_code := None, tk_provider_message := None, tk_next_retry := None,
     tk_completed := None, tk_stage := Some ''pending'', tk_counts := reset_progress,
     tk_provider_status := None, tk_provider_task := None, tk_execution := None\<rparr>"
| "enter_status now err s t =
    (if s \<in> {SCompleted, SPartial, SFailed, SCancelled}
     then t\<lparr>tk_finished := Some now, tk_completed := Some now, tk_error := err\<rparr> else t)"

definition transition ::
    "int \<Rightarrow> string option \<Rightarrow> crawl_status \<Rightarrow> crawl_task \<Rightarrow> exn + crawl_task" where
  "transition now err target t =
    (if target \<notin> set (transitions (tk_status t)) then Inl (OtherError ''InvalidTaskTransitionError'')
     else Inr (enter_status now err target
       (t\<lparr>tk_status := target, tk_stage := Some (status_name target)\<rparr>)))"

lemma enter_status_keeps [simp]:
  "tk_status (enter_status now err s t) = tk_status t"
  "tk_id (enter_status now err s t) = tk_id t"
  "tk_retries (enter_status now err s t) = tk_retries t"
  "tk_column (enter_status now err s t) = tk_column t"
  by (cases s; simp)+

lemma transition_Inr:
  "transition now err target t = Inr t' \<Longrightarrow>
    target \<in> set (transitions (tk_status t)) \<and> tk_status t' = target \<and> tk_id t' = tk_id t
      \<and> tk_retries t' = tk_retries t"
  by (auto simp: transition_def split: if_splits)

section \<open>Rows: conditional updates\<close>

definition claim_row :: "int \<Rightarrow> crawl_task \<Rightarrow> crawl_task option" where
  "claim_row now t =
    (if tk_status t \<in> {SPending, SQueued} then
       Some (t\<lparr>tk_status := SRunning, tk_stage := Some ''running'', tk_started := Some now,
         tk_finished := None, tk_completed := None, tk_error := None\<rparr>)
     else None)"

definition advance_row :: "crawl_status \<Rightarrow> crawl_status \<Rightarrow> string \<Rightarrow> string option \<Rightarrow>
    crawl_task \<Rightarrow> crawl_task option" where
  "advance_row expected target provider_status stage t =
    (if tk_status t = expected then
       Some (t\<lparr>tk_status := target,
         tk_stage := Some (case stage of Some s \<Rightarrow> if s \<noteq> [] then s else status_name target
           | None \<Rightarrow> status_name target),
         tk_provider_status := Some provider_status\<rparr>)
     else None)"

definition cancel_row :: "int \<Rightarrow> crawl_status \<Rightarrow> string \<Rightarrow> string option \<Rightarrow>
    crawl_task \<Rightarrow> crawl_task option" where
  "cancel_row now expected provider_status message t =
    (if tk_status t = expected then
       Some (t\<lparr>tk_status := SCancelled, tk_stage := Some ''cancelled'',
         tk_provider_status := Some provider_status, tk_provider_message := message,
         tk_finished := Some now, tk_completed := Some now, tk_error := None\<rparr>)
     else None)"

section \<open>Recovery of lost workers\<close>

definition active_statuses :: "crawl_status list" where
  "active_statuses = [SRunning, SCalling, SCozeRunning, SNormalizing, SSaving]"

definition stale :: "int \<Rightarrow> crawl_task \<Rightarrow> bool" where
  "stale cutoff t \<longleftrightarrow> tk_status t \<in> set active_statuses
    \<and> (case tk_started t of None \<Rightarrow> False | Some s \<Rightarrow> s < cutoff)"

definition recover_row :: "int \<Rightarrow> int \<Rightarrow> crawl_task \<Rightarrow> crawl_task" where
  "recover_row now max_attempts t =
    (if max_attempts \<le> tk_retries t then
       t\<lparr>tk_status := SFailed, tk_stage := Some ''failed'', tk_finished := Some now,
         tk_completed := Some now,
         tk_counts := (tk_counts t)\<lparr>ct_failed := ct_failed (tk_counts t) + 1\<rparr>,
         tk_error := Some ''WORKER_LOST_MAX_RECOVERIES'',
         tk_provider_code := Some ''WORKER_LOST_MAX_RECOVERIES'',
         tk_provider_message := Some ''Worker recovery attempts were exhausted''\<rparr>
     else
       t\<lparr>tk_status := SPending, tk_stage := Some ''pending'', tk_started := None,
         tk_finished := None, tk_completed := None, tk_error := Some ''WORKER_LOST_RECOVERED'',
         tk_provider_status := Some ''recovered_for_retry'', tk_provider_code := None,
         tk_provider_message := None, tk_provider_task := None, tk_execution := None,
         tk_next_retry := None, tk_retries := tk_retries t + 1, tk_counts := reset_progress\<rparr>)"

definition stale_order :: "crawl_task \<Rightarrow> int \<times> int" where
  "stale_order t = (case tk_started t of None \<Rightarrow> 0 | Some s \<Rightarrow> s, tk_id t)"

definition select_stale :: "int \<Rightarrow> nat \<Rightarrow> crawl_task list \<Rightarrow> int list" where
  "select_stale cutoff limit tasks = take limit (map tk_id (sort_key stale_order (filter (stale cutoff) tasks)))"

definition recover_stale_tasks ::
    "int \<Rightarrow> int \<Rightarrow> int \<Rightarrow> nat \<Rightarrow> crawl_task list \<Rightarrow> crawl_task list \<times> int list \<times> int list" where
  "recover_stale_tasks now cutoff max_attempts limit tasks =
    (let ids = select_stale cutoff limit tasks;
         lost = (\<lambda>i. \<exists>t \<in> set tasks. tk_id t = i \<and> max_attempts \<le> tk_retries t) in
     (map (\<lambda>t. if tk_id t \<in> set ids then recover_row now max_attempts t else t) tasks,
      filter (\<lambda>i. \<not> lost i) ids, filter lost ids))"

definition list_pending_task_ids :: "(crawl_task \<Rightarrow> int) \<Rightarrow> nat \<Rightarrow> crawl_task list \<Rightarrow> int list" where
  "list_pending_task_ids created limit tasks =
    take limit (map tk_id (sort_key (\<lambda>t. (created t, tk_id t)) (filter (\<lambda>t. tk_status t = SPending) tasks)))"

text \<open>What is left of a task before it is given up for good.\<close>

definition recoveries_left :: "int \<Rightarrow> crawl_task \<Rightarrow> nat" where
  "recoveries_left max_attempts t = nat (max_attempts - tk_retries t)"

lemma recover_row_status:
  "tk_status (recover_row now m t) = (if m \<le> tk_retries t then SFailed else SPending)"
  "tk_id (recover_row now m t) = tk_id t"
  "recoveries_left m (recover_row now m t) =
    (if m \<le> tk_retries t then recoveries_left m t else recoveries_left m t - 1)"
  by (auto simp: recover_row_def recoveries_left_def)

section \<open>Workers, users and recovery, interleaved\<close>

text \<open>
  Where a worker of \<open>CrawlService.execute\<close> stands: what it last wrote (or read) of the row. All
  status writes of a worker up to \<open>saving_documents\<close> are conditional updates; from there on it
  writes through the copy it loaded, which says \<open>saving_documents\<close> whatever the row says now. A
  provider error is handled on a row just read.
\<close>

datatype worker_at = Idle | AtRunning | AtCalling | AtCozeRunning | AtNormalizing | AtSaving

fun at_status :: "worker_at \<Rightarrow> crawl_status" where
  "at_status AtRunning = SRunning"
| "at_status AtCalling = SCalling"
| "at_status AtCozeRunning = SCozeRunning"
| "at_status AtNormalizing = SNormalizing"
| "at_status AtSaving = SSaving"
| "at_status Idle = SPending"

definition hops :: "(worker_at \<times> worker_at) list" where
  "hops = [(AtRunning, AtRunning), (AtRunning, AtCalling), (AtRunning, AtSaving),
     (AtCalling, AtCozeRunning), (AtCozeRunning, AtNormalizing), (AtNormalizing, AtSaving)]"

record task_system =
  sy_task :: crawl_task
  sy_worker :: "nat \<Rightarrow> worker_at"

datatype action = Claim nat | Advance nat | GiveUp nat | ProviderError nat | Finish nat
  | CancelTask | RetryTask | Enqueue | EnqueueFailed | ReviewDone | Recover

definition all_idle :: "task_system \<Rightarrow> bool" where
  "all_idle s \<longleftrightarrow> (\<forall>w. sy_worker s w = Idle)"

text \<open>
  \<open>fenced\<close> says that a task is retried or recovered only once no worker holds it any more. The
  code does not check this.
\<close>

inductive task_step :: "bool \<Rightarrow> task_system \<Rightarrow> action \<Rightarrow> task_system \<Rightarrow> bool" for fenced where
  claim: "sy_worker s w = Idle \<Longrightarrow> claim_row now (sy_task s) = Some t
    \<Longrightarrow> task_step fenced s (Claim w) (s\<lparr>sy_task := t, sy_worker := (sy_worker s)(w := AtRunning)\<rparr>)"
| advance: "sy_worker s w = a \<Longrightarrow> (a, b) \<in> set hops
    \<Longrightarrow> advance_row (at_status a) (at_status b) ps stage (sy_task s) = Some t
    \<Longrightarrow> task_step fenced s (Advance w) (s\<lparr>sy_task := t, sy_worker := (sy_worker s)(w := b)\<rparr>)"
| give_up: "sy_worker s w = a \<Longrightarrow> (a, b) \<in> set hops
    \<Longrightarrow> advance_row (at_status a) (at_status b) ps stage (sy_task s) = None
    \<Longrightarrow> task_step fenced s (GiveUp w) (s\<lparr>sy_worker := (sy_worker s)(w := Idle)\<rparr>)"
| provider_error: "sy_worker s w \<in> {AtRunning, AtCalling, AtCozeRunning, AtNormalizing}
    \<Longrightarrow> tk_status (sy_task s) \<noteq> SCancelled \<Longrightarrow> transition now (Some e) SFailed (sy_task s) = Inr t
    \<Longrightarrow> task_step fenced s (ProviderError w) (s\<lparr>sy_task := t, sy_worker := (sy_worker s)(w := Idle)\<rparr>)"
| finish: "sy_worker s w = AtSaving \<Longrightarrow> target \<in> {SWaiting, SCompleted, SPartial, SFailed}
    \<Longrightarrow> transition now e target ((sy_task s)\<lparr>tk_status := SSaving\<rparr>) = Inr t
    \<Longrightarrow> task_step fenced s (Finish w) (s\<lparr>sy_task := t, sy_worker := (sy_worker s)(w := Idle)\<rparr>)"
| cancel: "SCancelled \<in> set (transitions observed)
    \<Longrightarrow> cancel_row now observed ps msg (sy_task s) = Some t
    \<Longrightarrow> task_step fenced s CancelTask (s\<lparr>sy_task := t\<rparr>)"
| retry: "fenced \<Longrightarrow> all_idle s \<Longrightarrow> transition now None SPending (sy_task s) = Inr t
    \<Longrightarrow> task_step fenced s RetryTask (s\<lparr>sy_task := t\<lparr>tk_retries := tk_retries t + 1\<rparr>\<rparr>)"
| retry_unfenced: "\<not> fenced \<Longrightarrow> transition now None SPending (sy_task s) = Inr t
    \<Longrightarrow> task_step fenced s RetryTask (s\<lparr>sy_task := t\<lparr>tk_retries := tk_retries t + 1\<rparr>\<rparr>)"
| enqueue: "advance_row SPending SQueued ''queued'' None (sy_task s) = Some t
    \<Longrightarrow> task_step fenced s Enqueue (s\<lparr>sy_task := t\<rparr>)"
| enqueue_failed: "tk_status (sy_task s) \<in> {SPending, SQueued}
    \<Longrightarrow> transition now (Some e) SFailed (sy_task s) = Inr t
    \<Longrightarrow> task_step fenced s EnqueueFailed (s\<lparr>sy_task := t\<rparr>)"
| review_done: "tk_status (sy_task s) \<in> {SWaiting, SPartial} \<Longrightarrow> target \<in> {SWaiting, SCompleted}
    \<Longrightarrow> transition now None target (sy_task s) = Inr t
    \<Longrightarrow> task_step fenced s ReviewDone (s\<lparr>sy_task := t\<rparr>)"
| recover: "fenced \<longrightarrow> all_idle s \<Longrightarrow> stale cutoff (sy_task s)
    \<Longrightarrow> task_step fenced s Recover (s\<lparr>sy_task := recover_row now m (sy_task s)\<rparr>)"

inductive reachable :: "bool \<Rightarrow> crawl_task \<Rightarrow> task_system \<Rightarrow> bool" for fenced t0 where
  start: "reachable fenced t0 \<lparr>sy_task = t0, sy_worker = \<lambda>_. Idle\<rparr>"
| step: "reachable fenced t0 s \<Longrightarrow> task_step fenced s a s' \<Longrightarrow> reachable fenced t0 s'"

inductive_cases task_stepE: "task_step fenced s a s'"

text \<open>A worker sits on the status it last wrote, or the task was cancelled under it before it saves.\<close>

definition system_ok :: "task_system \<Rightarrow> bool" where
  "system_ok s \<longleftrightarrow>
    (\<forall>w v. sy_worker s w \<noteq> Idle \<longrightarrow> sy_worker s v \<noteq> Idle \<longrightarrow> w = v)
    \<and> (\<forall>w. sy_worker s w \<noteq> Idle \<longrightarrow> tk_status (sy_task s) = at_status (sy_worker s w)
        \<or> tk_status (sy_task s) = SCancelled \<and> sy_worker s w \<noteq> AtSaving)"

lemma claim_row_Some: "claim_row now t = Some t' \<longleftrightarrow>
    tk_status t \<in> {SPending, SQueued} \<and> t' = t\<lparr>tk_status := SRunning, tk_stage := Some ''running'',
      tk_started := Some now, tk_finished := None, tk_completed := None, tk_error := None\<rparr>"
  by (auto simp: claim_row_def)

lemma advance_row_Some:
  "advance_row e g ps st t = Some t' \<Longrightarrow> tk_status t = e \<and> tk_status t' = g \<and> tk_retries t' = tk_retries t"
  by (auto simp: advance_row_def split: if_splits)

lemma cancel_row_Some:
  "cancel_row now e ps m t = Some t' \<Longrightarrow> tk_status t = e \<and> tk_status t' = SCancelled \<and> tk_retries t' = tk_retries t"
  by (auto simp: cancel_row_def split: if_splits)

lemma busy_status:
  assumes "system_ok s" "sy_worker s w \<noteq> Idle"
  shows "tk_status (sy_task s) \<in> {SRunning, SCalling, SCozeRunning, SNormalizing, SSaving, SCancelled}"
proof -
  have "tk_status (sy_task s) = at_status (sy_worker s w) \<or> tk_status (sy_task s) = SCancelled"
    using assms unfolding system_ok_def by blast
  then show ?thesis using assms(2) by (cases "sy_worker s w") auto
qed

lemma all_idleI:
  "system_ok s \<Longrightarrow> tk_status (sy_task s) \<notin> {SRunning, SCalling, SCozeRunning, SNormalizing, SSaving, SCancelled}
    \<Longrightarrow> all_idle s"
  using busy_status unfolding all_idle_def by blast

lemma system_ok_idle: "all_idle s \<Longrightarrow> system_ok (s\<lparr>sy_task := t\<rparr>)"
  by (simp add: system_ok_def all_idle_def)

lemma system_ok_move:
  assumes "system_ok s" "sy_worker s w \<noteq> Idle \<or> all_idle s" "b = Idle \<or> tk_status t = at_status b"
  shows "system_ok (s\<lparr>sy_task := t, sy_worker := (sy_worker s)(w := b)\<rparr>)"
proof -
  have "sy_worker s v = Idle" if "v \<noteq> w" for v
    using assms(1,2) that unfolding system_ok_def all_idle_def by blast
  then show ?thesis using assms(3) by (auto simp: system_ok_def)
qed

lemma system_ok_leave: "system_ok s \<Longrightarrow> system_ok (s\<lparr>sy_worker := (sy_worker s)(w := Idle)\<rparr>)"
  unfolding system_ok_def by auto

lemma hops_busy: "(a, b) \<in> set hops \<Longrightarrow> a \<noteq> Idle \<and> b \<noteq> Idle"
  by (auto simp: hops_def)

lemma saving_status: "system_ok s \<Longrightarrow> sy_worker s w = AtSaving \<Longrightarrow> tk_status (sy_task s) = SSaving"
  unfolding system_ok_def by (metis at_status.simps(5) worker_at.distinct(9))

lemma step_ok: "task_step True s a s' \<Longrightarrow> system_ok s \<Longrightarrow> system_ok s'"
proof (induction rule: task_step.induct)
  case (claim s w now t)
  then have "tk_status (sy_task s) \<in> {SPending, SQueued}" "tk_status t = SRunning"
    by (auto simp: claim_row_Some)
  with claim show ?case by (intro system_ok_move) (auto intro!: all_idleI)
next
  case (advance s w a b ps stage t)
  then show ?case using hops_busy advance_row_Some by (intro system_ok_move) blast+
next
  case (give_up s w a b ps stage)
  then show ?case by (simp add: system_ok_leave)
next
  case (provider_error s w now e t)
  then show ?case by (intro system_ok_move) auto
next
  case (finish s w target now e t)
  then show ?case by (intro system_ok_move) auto
next
  case (cancel observed now ps msg s t)
  note c = cancel_row_Some [OF cancel(2)]
  have "sy_worker s w \<noteq> AtSaving" for w
    using cancel(1) c saving_status [OF cancel(3), of w] by auto
  then show ?case using cancel(3) c by (auto simp: system_ok_def)
next
  case (retry s now t)
  then show ?case by (simp add: system_ok_idle)
next
  case (retry_unfenced s now t)
  then show ?case by simp
next
  case (enqueue s t)
  then have "tk_status (sy_task s) = SPending" using advance_row_Some by blast
  then show ?case using enqueue by (intro system_ok_idle all_idleI) auto
next
  case (enqueue_failed s now e t)
  then show ?case by (intro system_ok_idle all_idleI) auto
next
  case (review_done s target now t)
  then show ?case by (intro system_ok_idle all_idleI) auto
next
  case (recover s cutoff now m)
  then show ?case by (intro system_ok_idle) simp
qed

lemma reachable_ok:
  "reachable True t0 s \<Longrightarrow> system_ok s"
proof (induction rule: reachable.induct)
  case start
  show ?case by (rule system_ok_idle [of "\<lparr>sy_task = t0, sy_worker = \<lambda>_. Idle\<rparr>" t0, simplified])
      (simp add: all_idle_def)
next
  case (step s a s')
  then show ?case using step_ok by blast
qed

text \<open>Only a retry takes a cancelled task out of its state.\<close>

lemma cancelled_stays:
  assumes "task_step True s a s'" "system_ok s" "tk_status (sy_task s) = SCancelled" "a \<noteq> RetryTask"
  shows "sy_task s' = sy_task s"
  using assms
proof (cases rule: task_step.cases)
  case (advance w a b ps stage t)
  then have "at_status a = SCancelled" using assms(3) advance_row_Some by metis
  then show ?thesis by (cases a) auto
next
  case (provider_error w now e t)
  then show ?thesis using assms(3) by simp
next
  case (finish w target now e t)
  have "tk_status (sy_task s) = SSaving"
    using saving_status [OF assms(2) finish(3)] .
  then show ?thesis using assms(3) by simp
next
  case (cancel observed now ps msg t)
  then have "observed = SCancelled" using assms(3) cancel_row_Some by metis
  then show ?thesis using cancel by simp
next
  case (recover cutoff now m)
  then show ?thesis using assms(3) by (simp add: stale_def active_statuses_def)
qed (auto simp: claim_row_Some dest: advance_row_Some)

section \<open>A worker that outlives its run\<close>

definition fresh_task :: crawl_task where
  "fresh_task = \<lparr>tk_id = 1, tk_column = 1, tk_status = SPending, tk_stage = None, tk_provider = ''coze'',
     tk_contract = Some ''batch_crawl'', tk_retries = 0, tk_started = None, tk_finished = None,
     tk_completed = None, tk_next_retry = None, tk_error = None, tk_provider_status = None,
     tk_provider_code = None, tk_provider_message = None, tk_provider_task = None,
     tk_execution = None, tk_counts = reset_progress\<rparr>"


definition visits :: "bool \<Rightarrow> crawl_status \<Rightarrow> (nat \<Rightarrow> worker_at) \<Rightarrow> bool" where
  "visits fenced st f \<longleftrightarrow>
    (\<exists>s. reachable fenced fresh_task s \<and> tk_status (sy_task s) = st \<and> sy_worker s = f)"

lemma visits_start: "visits fenced SPending (\<lambda>_. Idle)"
  unfolding visits_def
  by (rule exI [of _ "\<lparr>sy_task = fresh_task, sy_worker = \<lambda>_. Idle\<rparr>"]) (simp add: reachable.start fresh_task_def)

lemma visits_claim: "visits fenced SPending f \<Longrightarrow> f w = Idle \<Longrightarrow> visits fenced SRunning (f(w := AtRunning))"
proof -
  assume "visits fenced SPending f" "f w = Idle"
  then obtain s where s: "reachable fenced fresh_task s" "tk_status (sy_task s) = SPending" "sy_worker s = f"
    by (auto simp: visits_def)
  then obtain t where t: "claim_row 0 (sy_task s) = Some t" "tk_status t = SRunning"
    by (simp add: claim_row_def)
  have "task_step fenced s (Claim w) (s\<lparr>sy_task := t, sy_worker := (sy_worker s)(w := AtRunning)\<rparr>)"
    using s \<open>f w = Idle\<close> t by (intro task_step.claim) auto
  from reachable.step [OF s(1) this] show ?thesis unfolding visits_def using s t by fastforce
qed

lemma visits_advance:
  "visits fenced (at_status a) f \<Longrightarrow> f w = a \<Longrightarrow> (a, b) \<in> set hops \<Longrightarrow> visits fenced (at_status b) (f(w := b))"
proof -
  assume a: "visits fenced (at_status a) f" "f w = a" "(a, b) \<in> set hops"
  then obtain s where s: "reachable fenced fresh_task s" "tk_status (sy_task s) = at_status a" "sy_worker s = f"
    by (auto simp: visits_def)
  then obtain t where t: "advance_row (at_status a) (at_status b) ''x'' None (sy_task s) = Some t"
    "tk_status t = at_status b" by (simp add: advance_row_def)
  have "task_step fenced s (Advance w) (s\<lparr>sy_task := t, sy_worker := (sy_worker s)(w := b)\<rparr>)"
    using s a t by (intro task_step.advance [OF _ a(3) t(1)]) auto
  from reachable.step [OF s(1) this] show ?thesis unfolding visits_def using s t by fastforce
qed

lemma visits_cancel: "visits fenced st f \<Longrightarrow> SCancelled \<in> set (transitions st) \<Longrightarrow> visits fenced SCancelled f"
proof -
  assume "visits fenced st f" and c: "SCancelled \<in> set (transitions st)"
  then obtain s where s: "reachable fenced fresh_task s" "tk_status (sy_task s) = st" "sy_worker s = f"
    by (auto simp: visits_def)
  then obtain t where t: "cancel_row 0 st ''x'' None (sy_task s) = Some t" "tk_status t = SCancelled"
    by (simp add: cancel_row_def)
  from reachable.step [OF s(1) task_step.cancel [OF c t(1)]] show ?thesis
    unfolding visits_def using s t by fastforce
qed

lemma visits_retry: "visits False SCancelled f \<Longrightarrow> visits False SPending f"
proof -
  assume "visits False SCancelled f"
  then obtain s where s: "reachable False fresh_task s" "tk_status (sy_task s) = SCancelled" "sy_worker s = f"
    by (auto simp: visits_def)
  then obtain t where t: "transition 0 None SPending (sy_task s) = Inr t" by (simp add: transition_def)
  from reachable.step [OF s(1) task_step.retry_unfenced [OF _ t]] show ?thesis
    unfolding visits_def using s transition_Inr [OF t] by fastforce
qed

lemma visits_error:
  "visits fenced SSaving f \<Longrightarrow> f w = AtCozeRunning \<Longrightarrow> visits fenced SFailed (f(w := Idle))"
proof -
  assume "visits fenced SSaving f" "f w = AtCozeRunning"
  then obtain s where s: "reachable fenced fresh_task s" "tk_status (sy_task s) = SSaving" "sy_worker s = f"
    "f w = AtCozeRunning" by (auto simp: visits_def)
  then obtain t where t: "transition 0 (Some ''x'') SFailed (sy_task s) = Inr t" by (simp add: transition_def)
  have "task_step fenced s (ProviderError w) (s\<lparr>sy_task := t, sy_worker := (sy_worker s)(w := Idle)\<rparr>)"
    using s t by (intro task_step.provider_error) auto
  from reachable.step [OF s(1) this] show ?thesis
    unfolding visits_def using s transition_Inr [OF t] by fastforce
qed

section \<open>Recovery in bulk\<close>

lemma select_stale_ok:
  assumes "i \<in> set (select_stale cutoff limit tasks)"
  shows "\<exists>t \<in> set tasks. tk_id t = i \<and> stale cutoff t"
proof -
  from assms have "i \<in> set (map tk_id (sort_key stale_order (filter (stale cutoff) tasks)))"
    unfolding select_stale_def by (rule in_set_takeD)
  then show ?thesis by auto
qed

lemma same_id: "distinct (map tk_id tasks) \<Longrightarrow> t \<in> set tasks \<Longrightarrow> u \<in> set tasks \<Longrightarrow> tk_id t = tk_id u \<Longrightarrow> t = u"
  by (auto simp: distinct_map inj_on_def)

section \<open>Properties\<close>



theorem retry_without_fence:
  "\<exists>s s'. reachable False fresh_task s \<and> tk_status (sy_task s) = SFailed \<and> sy_worker s 1 = AtSaving
    \<and> task_step False s (Finish 1) s' \<and> tk_status (sy_task s') = SCompleted
    \<and> SCompleted \<notin> set (transitions SFailed)"
proof -
  let ?f = "(\<lambda>_. Idle)(0 := AtCozeRunning)" and ?g = "(\<lambda>_. Idle)(0 := AtCozeRunning, 1 := AtSaving)"
  have "visits False (at_status AtRunning) ((\<lambda>_. Idle)(0 := AtRunning))"
    using visits_claim [OF visits_start, where w = 0] by simp
  then have "visits False (at_status AtCalling) ((\<lambda>_. Idle)(0 := AtRunning, 0 := AtCalling))"
    by (rule visits_advance) (simp_all add: hops_def)
  then have "visits False (at_status AtCozeRunning)
      ((\<lambda>_. Idle)(0 := AtRunning, 0 := AtCalling, 0 := AtCozeRunning))"
    by (rule visits_advance) (simp_all add: hops_def)
  then have "visits False SCancelled ?f" by (simp add: visits_cancel)
  then have "visits False SPending ?f" by (rule visits_retry)
  then have "visits False (at_status AtRunning) (?f(1 := AtRunning))"
    using visits_claim [of False ?f 1] by simp
  then have "visits False (at_status AtCalling) (?f(1 := AtRunning, 1 := AtCalling))"
    by (rule visits_advance) (simp_all add: hops_def)
  then have "visits False (at_status AtCozeRunning) (?f(1 := AtRunning, 1 := AtCalling, 1 := AtCozeRunning))"
    by (rule visits_advance) (simp_all add: hops_def)
  then have "visits False (at_status AtNormalizing)
      (?f(1 := AtRunning, 1 := AtCalling, 1 := AtCozeRunning, 1 := AtNormalizing))"
    by (rule visits_advance) (simp_all add: hops_def)
  then have "visits False (at_status AtSaving)
      (?f(1 := AtRunning, 1 := AtCalling, 1 := AtCozeRunning, 1 := AtNormalizing, 1 := AtSaving))"
    by (rule visits_advance) (simp_all add: hops_def)
  then have "visits False SSaving ?g" by simp
  then have "visits False SFailed (?g(0 := Idle))" by (rule visits_error) simp
  then obtain s where s: "reachable False fresh_task s" "tk_status (sy_task s) = SFailed" "sy_worker s 1 = AtSaving"
    by (auto simp: visits_def)
  obtain t where t: "transition 0 None SCompleted ((sy_task s)\<lparr>tk_status := SSaving\<rparr>) = Inr t"
    by (simp add: transition_def)
  have "task_step False s (Finish 1) (s\<lparr>sy_task := t, sy_worker := (sy_worker s)(1 := Idle)\<rparr>)"
    by (rule task_step.finish [OF s(3) _ t]) simp
  moreover have "tk_status t = SCompleted" using transition_Inr [OF t] by simp
  ultimately show ?thesis using s by fastforce
qed

text \<open>
  C40. One recovery pass touches at most limit tasks, all of them active and older than the
  cutoff; each is either put back to pending with one recovery less left and its counters
  cleared, or, when none is left, failed; so a task is recovered at most max_recovery_attempts
  times.
\<close>

theorem recovery_bounded:
  assumes "distinct (map tk_id tasks)" "recover_stale_tasks now cutoff m limit tasks = (tasks', recovered, exhausted)"
  shows "length recovered + length exhausted \<le> limit
    \<and> list_all2 (\<lambda>t t'. tk_id t' = tk_id t \<and>
        (if tk_id t \<in> set recovered then
           stale cutoff t \<and> tk_status t' = SPending \<and> tk_counts t' = reset_progress
             \<and> Suc (recoveries_left m t') = recoveries_left m t
         else if tk_id t \<in> set exhausted then
           stale cutoff t \<and> tk_status t' = SFailed \<and> recoveries_left m t = 0
         else t' = t)) tasks tasks'"
proof -
  let ?ids = "select_stale cutoff limit tasks"
  let ?lost = "\<lambda>i. \<exists>t \<in> set tasks. tk_id t = i \<and> m \<le> tk_retries t"
  have r: "tasks' = map (\<lambda>t. if tk_id t \<in> set ?ids then recover_row now m t else t) tasks"
    "recovered = filter (\<lambda>i. \<not> ?lost i) ?ids" "exhausted = filter ?lost ?ids"
    using assms(2) by (auto simp: recover_stale_tasks_def Let_def)
  have "length recovered + length exhausted = length ?ids"
    unfolding r(2,3) using sum_length_filter_compl [of ?lost ?ids] by simp
  also have "\<dots> \<le> limit" by (simp add: select_stale_def)
  finally have len: "length recovered + length exhausted \<le> limit" .
  have st: "stale cutoff t" if "t \<in> set tasks" "tk_id t \<in> set ?ids" for t
    using select_stale_ok [OF that(2)] same_id [OF assms(1)] that(1) by blast
  have lost: "?lost (tk_id t) \<longleftrightarrow> m \<le> tk_retries t" if "t \<in> set tasks" for t
    using same_id [OF assms(1)] that by blast
  have "list_all2 (\<lambda>t t'. tk_id t' = tk_id t \<and>
        (if tk_id t \<in> set recovered then
           stale cutoff t \<and> tk_status t' = SPending \<and> tk_counts t' = reset_progress
             \<and> Suc (recoveries_left m t') = recoveries_left m t
         else if tk_id t \<in> set exhausted then
           stale cutoff t \<and> tk_status t' = SFailed \<and> recoveries_left m t = 0
         else t' = t)) tasks tasks'"
    unfolding r(1) list.rel_map(2)
  proof (rule list.rel_refl_strong)
    fix t assume t: "t \<in> set tasks"
    show "tk_id (if tk_id t \<in> set ?ids then recover_row now m t else t) = tk_id t \<and>
        (if tk_id t \<in> set recovered then
           stale cutoff t \<and> tk_status (if tk_id t \<in> set ?ids then recover_row now m t else t) = SPending
             \<and> tk_counts (if tk_id t \<in> set ?ids then recover_row now m t else t) = reset_progress
             \<and> Suc (recoveries_left m (if tk_id t \<in> set ?ids then recover_row now m t else t)) = recoveries_left m t
         else if tk_id t \<in> set exhausted then
           stale cutoff t \<and> tk_status (if tk_id t \<in> set ?ids then recover_row now m t else t) = SFailed
             \<and> recoveries_left m t = 0
         else (if tk_id t \<in> set ?ids then recover_row now m t else t) = t)"
    proof (cases "tk_id t \<in> set ?ids")
      case False
      then show ?thesis unfolding r(2,3) by simp
    next
      case ids: True
      have rec: "tk_id t \<in> set recovered \<longleftrightarrow> \<not> m \<le> tk_retries t"
        "tk_id t \<in> set exhausted \<longleftrightarrow> m \<le> tk_retries t"
        using ids lost [OF t] unfolding r(2,3) by auto
      show ?thesis
        using ids st [OF t ids] unfolding rec
        by (cases "m \<le> tk_retries t") (simp_all add: recover_row_status recover_row_def recoveries_left_def)
    qed
  qed
  with len show ?thesis by blast
qed

lemma recovery_bounded_witness:
  "length (fst (snd (recover_stale_tasks 100 50 3 10 [fresh_task\<lparr>tk_status := SRunning, tk_started := Some 1\<rparr>]))) \<le> 10"
proof -
  obtain ts r e where x: "recover_stale_tasks 100 50 3 10 [fresh_task\<lparr>tk_status := SRunning, tk_started := Some 1\<rparr>] = (ts, r, e)"
    by (cases "recover_stale_tasks 100 50 3 10 [fresh_task\<lparr>tk_status := SRunning, tk_started := Some 1\<rparr>]")
  from recovery_bounded [OF _ x] show ?thesis unfolding x by simp
qed

end
