(* ===== verification/CrawlDocuments.thy ===== *)
theory CrawlDocuments
  imports Versions CrawlState
begin

text \<open>
  What a crawl writes besides its task row (\<open>backend/app/services/crawl.py\<close> and
  \<open>backend/app/repositories/crawl.py\<close>): documents, their reviews, lineage and attachments, the table
  of failed URLs, and the counters of a batch. \<open>normalize_url\<close> and SHA-256 are arguments.
  Identifiers drawn at random (\<open>uuid4\<close>) are left out.
\<close>

section \<open>Articles of a batch\<close>

datatype article_decision = ArtAccepted | ArtRejected | ArtPending | ArtFailed

fun decision_name :: "article_decision \<Rightarrow> string" where
  "decision_name ArtAccepted = ''accepted''"
| "decision_name ArtRejected = ''rejected''"
| "decision_name ArtPending = ''pending_review''"
| "decision_name ArtFailed = ''failed''"

record batch_attachment =
  ba_name :: ustr
  ba_url :: ustr
  ba_text :: "ustr option"
  ba_status :: string
  ba_error :: "ustr option"

text \<open>\<open>ar_json\<close> is the rendering \<open>article.model_dump_json()\<close>.\<close>

record article =
  ar_title :: ustr
  ar_url :: ustr
  ar_published :: "date option"
  ar_region :: "ustr option"
  ar_content :: ustr
  ar_attachments :: "batch_attachment list"
  ar_method :: string
  ar_needs_ocr :: bool
  ar_decision :: article_decision
  ar_quality :: "rat option"
  ar_reason :: ustr
  ar_warnings :: "ustr list"
  ar_type :: "ustr option"
  ar_summary :: "ustr option"
  ar_keywords :: "ustr list"
  ar_json :: ustr

record failed_url =
  fu_url :: ustr
  fu_stage :: string
  fu_code :: string
  fu_message :: ustr
  fu_retryable :: bool

record batch_stats =
  bs_discovered :: nat
  bs_fetched :: nat
  bs_accepted :: nat
  bs_rejected :: nat
  bs_pending :: nat
  bs_failed :: nat

record batch =
  bt_success :: bool
  bt_task_id :: ustr
  bt_stats :: batch_stats
  bt_articles :: "article list"
  bt_failed :: "failed_url list"
  bt_warnings :: "ustr list"

definition decided :: "article_decision \<Rightarrow> article list \<Rightarrow> nat" where
  "decided x as = count_if (\<lambda>a. ar_decision a = x) as"

definition validate_statistics :: "batch \<Rightarrow> exn + batch" where
  "validate_statistics b =
    (let s = bt_stats b; as = bt_articles b in
     if decided ArtAccepted as \<noteq> bs_accepted s then
       Inl (ValueError ''accepted article count does not match statistics'')
     else if decided ArtRejected as \<noteq> bs_rejected s then
       Inl (ValueError ''rejected article count does not match statistics'')
     else if decided ArtPending as \<noteq> bs_pending s then
       Inl (ValueError ''pending_review article count does not match statistics'')
     else if decided ArtFailed as + length (bt_failed b) \<noteq> bs_failed s then
       Inl (ValueError ''article decision counts do not match statistics'')
     else if bs_fetched s \<noteq> length as then Inl (ValueError ''articles_fetched must equal articles length'')
     else Inr b)"

section \<open>The store\<close>

record review_row =
  rw_document :: int
  rw_type :: string
  rw_reviewer :: string
  rw_decision :: string
  rw_quality :: "rat option"
  rw_doc_type :: "ustr option"
  rw_summary :: "ustr option"
  rw_reasons :: "ustr list"
  rw_raw :: ustr

record stored_file =
  sf_path :: ustr
  sf_mime :: ustr
  sf_size :: int
  sf_hash :: ustr

record attachment_row =
  at_document :: int
  at_name :: ustr
  at_url :: ustr
  at_status :: string
  at_text :: "ustr option"
  at_method :: "string option"
  at_ocr :: bool
  at_error :: "ustr option"
  at_extension :: "ustr option"
  at_file :: "stored_file option"

record failure =
  fl_id :: int
  fl_task :: int
  fl_url :: ustr
  fl_stage :: string
  fl_code :: string
  fl_message :: ustr
  fl_retryable :: bool
  fl_status :: string
  fl_retries :: nat
  fl_next_retry :: "int option"
  fl_resolved :: "int option"

record crawl_store =
  cs_docs :: doc_store
  cs_reviews :: "review_row list"
  cs_attachments :: "attachment_row list"
  cs_failures :: "failure list"

record source_column =
  sc_id :: int
  sc_source :: int
  sc_source_region :: "ustr option"

section \<open>Documents\<close>

definition or_else :: "ustr option \<Rightarrow> ustr option \<Rightarrow> ustr option" where
  "or_else a b = (case a of Some x \<Rightarrow> if x \<noteq> [] then a else b | None \<Rightarrow> b)"

definition opt_str :: "ustr option \<Rightarrow> pyval" where
  "opt_str x = (case x of None \<Rightarrow> PNone | Some s \<Rightarrow> PStr s)"

definition language_of :: "ustr \<Rightarrow> pyval" where
  "language_of s = PStr (if re_found (Cls False cjk_class) s then asc ''zh'' else asc ''unknown'')"

definition article_values :: "(ustr \<Rightarrow> ustr) \<Rightarrow> source_column \<Rightarrow> article \<Rightarrow> pydict" where
  "article_values sha col a =
    [(''title'', PStr (ar_title a)), (''source_url'', PStr (ar_url a)),
     (''publish_date'', (case ar_published a of None \<Rightarrow> PNone | Some d \<Rightarrow> PDate d)),
     (''region'', opt_str (or_else (ar_region a) (sc_source_region col))),
     (''content'', PStr (ar_content a)), (''raw_content'', PStr (ar_content a)),
     (''content_hash'', PStr (sha (ar_content a))), (''word_count'', PInt (int (length (ar_content a)))),
     (''language'', language_of (ar_content a)), (''document_type'', opt_str (ar_type a))]"

definition final_of :: "article_decision \<Rightarrow> string" where
  "final_of x = (case x of ArtAccepted \<Rightarrow> ''pending_manual_review'' | ArtPending \<Rightarrow> ''pending_manual_review''
     | ArtRejected \<Rightarrow> ''rejected'' | ArtFailed \<Rightarrow> ''failed'')"

definition manual_of :: "article_decision \<Rightarrow> string" where
  "manual_of x = (if x = ArtAccepted \<or> x = ArtPending then ''pending'' else decision_name x)"

definition quality_of :: "article \<Rightarrow> rat option" where
  "quality_of a = map_option (\<lambda>q. q / 100) (ar_quality a)"

definition article_review :: "bool \<Rightarrow> int \<Rightarrow> article \<Rightarrow> review_row" where
  "article_review is_local i a =
    \<lparr>rw_document = i, rw_type = (if is_local then ''local_extraction'' else ''coze_quality''),
     rw_reviewer = (if is_local then ''local_crawler'' else ''coze_workflow''),
     rw_decision = decision_name (ar_decision a), rw_quality = quality_of a, rw_doc_type = ar_type a,
     rw_summary = ar_summary a, rw_reasons = ar_reason a # ar_warnings a, rw_raw = ar_json a\<rparr>"

definition has_text :: "ustr option \<Rightarrow> bool" where
  "has_text t = (case t of None \<Rightarrow> False | Some s \<Rightarrow> strip s \<noteq> [])"

definition attachment_of :: "int \<Rightarrow> article \<Rightarrow> batch_attachment \<Rightarrow> attachment_row" where
  "attachment_of i a b =
    \<lparr>at_document = i, at_name = ba_name b, at_url = ba_url b,
     at_status = (if ba_status b = ''completed'' \<and> has_text (ba_text b) then ''completed''
       else if ba_status b = ''failed'' then ''failed'' else ''pending''),
     at_text = ba_text b,
     at_method = (if has_text (ba_text b) then Some ''upstream_extracted_text'' else None),
     at_ocr = ar_needs_ocr a, at_error = ba_error b, at_extension = None, at_file = None\<rparr>"

definition find_document :: "int \<Rightarrow> ustr \<Rightarrow> doc_store \<Rightarrow> document option" where
  "find_document col url st = find (\<lambda>d. dm_column d = Some col \<and> dm_canonical d = url) (map snd (ds_docs st))"

definition latest_review :: "int \<Rightarrow> string \<Rightarrow> crawl_store \<Rightarrow> review_row option" where
  "latest_review i ty st = find (\<lambda>r. rw_document r = i \<and> rw_type r = ty) (rev (cs_reviews st))"

definition ensure_lineage :: "int \<Rightarrow> document \<Rightarrow> int option \<Rightarrow> doc_store \<Rightarrow> doc_store" where
  "ensure_lineage task d ver st =
    (if \<exists>l \<in> set (ds_lineage st). ln_task l = Some task \<and> ln_document l = dm_id d then
       (case ver of
          None \<Rightarrow> st
        | Some v \<Rightarrow> st\<lparr>ds_lineage :=
            (let (before, rest) = (takeWhile (\<lambda>l. \<not> (ln_task l = Some task \<and> ln_document l = dm_id d)) (ds_lineage st),
                 dropWhile (\<lambda>l. \<not> (ln_task l = Some task \<and> ln_document l = dm_id d)) (ds_lineage st))
             in before @ (hd rest)\<lparr>ln_version := Some v\<rparr> # tl rest)\<rparr>)
     else add_lineage (Some task) None d ver st)"

definition changed_values :: "document \<Rightarrow> pydict \<Rightarrow> string list" where
  "changed_values d values = dkeys (filter (\<lambda>(k, v). \<not> py_eq (attr d k) v) values)"

text \<open>The version of the row that a refresh writes: the bump of the history when values changed.\<close>

definition refresh_document :: "(ustr \<Rightarrow> ustr) \<Rightarrow> int \<Rightarrow> bool \<Rightarrow> int \<Rightarrow> source_column \<Rightarrow>
    document \<Rightarrow> article \<Rightarrow> crawl_store \<Rightarrow> crawl_store" where
  "refresh_document sha now is_local task col d a st =
    (let values = article_values sha col a;
         changed = changed_values d values;
         review = article_review is_local (dm_id d) a;
         review_changed = (case latest_review (dm_id d) (rw_type review) st of
            None \<Rightarrow> True | Some r \<Rightarrow> rw_raw r \<noteq> rw_raw review);
         ds = cs_docs st in
     if changed = [] \<and> \<not> review_changed then
       st\<lparr>cs_docs := ensure_lineage task d None (put_doc (d\<lparr>dm_last_crawl := now\<rparr>) ds)\<rparr>
     else
       let (ds1, d1) = (if changed \<noteq> [] then bump sha values changed d ds else (ds, d));
           ds2 = (if changed \<noteq> [] then ds1\<lparr>ds_stale_chunks := dm_id d # ds_stale_chunks ds1\<rparr> else ds1);
           status = (if is_local then ''pending'' else decision_name (ar_decision a));
           d2 = d1\<lparr>dm_quality := quality_of a, dm_rule := status, dm_llm := status\<rparr>;
           d3 = (if changed \<noteq> [] \<or> dm_manual d \<notin> {''approve'', ''reject''}
                 then d2\<lparr>dm_manual := manual_of (ar_decision a), dm_final := final_of (ar_decision a)\<rparr> else d2);
           d4 = d3\<lparr>dm_last_crawl := now\<rparr>
       in st\<lparr>cs_docs := ensure_lineage task d4 (if changed \<noteq> [] then last_version_id ds1 else None) (put_doc d4 ds2),
             cs_reviews := cs_reviews st @ [review]\<rparr>)"

definition new_document :: "(ustr \<Rightarrow> ustr) \<Rightarrow> int \<Rightarrow> bool \<Rightarrow> source_column \<Rightarrow> ustr \<Rightarrow> int \<Rightarrow> article \<Rightarrow> document" where
  "new_document sha now is_local col canonical i a =
    \<lparr>dm_id = i, dm_source = sc_source col, dm_column = Some (sc_id col), dm_canonical = canonical,
     dm_attrs = article_values sha col a, dm_quality = quality_of a,
     dm_rule = (if is_local then ''pending'' else decision_name (ar_decision a)),
     dm_llm = (if is_local then ''pending'' else decision_name (ar_decision a)),
     dm_manual = manual_of (ar_decision a), dm_final = final_of (ar_decision a), dm_index = ''pending'',
     dm_version = 1, dm_last_crawl = now\<rparr>"

text \<open>The flag of the result says that the URL was known (\<open>url_duplicate_count\<close>).\<close>

definition save_article :: "(ustr \<Rightarrow> exn + ustr) \<Rightarrow> (ustr \<Rightarrow> ustr) \<Rightarrow> int \<Rightarrow> bool \<Rightarrow> int \<Rightarrow> source_column \<Rightarrow>
    article \<Rightarrow> crawl_store \<Rightarrow> exn + crawl_store \<times> bool" where
  "save_article canon sha now is_local task col a st =
    rbind (canon (ar_url a)) (\<lambda>canonical.
    case find_document (sc_id col) canonical (cs_docs st) of
      Some d \<Rightarrow> Inr (refresh_document sha now is_local task col d a st, True)
    | None \<Rightarrow>
      (let i = ds_next (cs_docs st);
           d = new_document sha now is_local col canonical i a;
           ds = put_doc d ((cs_docs st)\<lparr>ds_next := i + 1\<rparr>)
       in Inr (st\<lparr>cs_docs := add_lineage (Some task) None d None ds,
                  cs_reviews := cs_reviews st @ [article_review is_local i a],
                  cs_attachments := cs_attachments st @ map (attachment_of i a) (ar_attachments a)\<rparr>, False)))"

section \<open>Failed URLs\<close>

definition same_failure :: "failure \<Rightarrow> failure \<Rightarrow> bool" where
  "same_failure f g \<longleftrightarrow> fl_task f = fl_task g \<and> fl_url f = fl_url g \<and> fl_stage f = fl_stage g
    \<and> fl_code f = fl_code g"

definition add_failure :: "failure \<Rightarrow> failure list \<Rightarrow> failure list" where
  "add_failure f fs =
    (if \<exists>g \<in> set fs. same_failure f g then
       map (\<lambda>g. if same_failure f g then
           g\<lparr>fl_message := fl_message f, fl_retryable := fl_retryable f,
             fl_status := (if fl_status g \<in> {''succeeded'', ''retrying''} then fl_status g else fl_status f)\<rparr>
         else g) fs
     else fs @ [f\<lparr>fl_id := int (length fs)\<rparr>])"

definition count_unresolved :: "int \<Rightarrow> failure list \<Rightarrow> nat" where
  "count_unresolved task fs =
    count_if (\<lambda>f. fl_task f = task \<and> fl_status f \<notin> {''succeeded'', ''skipped''}) fs"

definition new_failure :: "int \<Rightarrow> ustr \<Rightarrow> string \<Rightarrow> string \<Rightarrow> ustr \<Rightarrow> bool \<Rightarrow> failure" where
  "new_failure task url stage code msg retryable =
    \<lparr>fl_id = 0, fl_task = task, fl_url = url, fl_stage = stage, fl_code = code, fl_message = msg,
     fl_retryable = retryable, fl_status = ''pending'', fl_retries = 0, fl_next_retry = None, fl_resolved = None\<rparr>"

definition failures_ok :: "failure list \<Rightarrow> bool" where
  "failures_ok fs \<longleftrightarrow> distinct (map (\<lambda>f. (fl_task f, fl_url f, fl_stage f, fl_code f)) fs)"

lemma same_failure_key:
  "same_failure f g \<longleftrightarrow> (fl_task f, fl_url f, fl_stage f, fl_code f) = (fl_task g, fl_url g, fl_stage g, fl_code g)"
  by (simp add: same_failure_def)

lemma add_failure_ok: "failures_ok fs \<Longrightarrow> failures_ok (add_failure f fs)"
proof (cases "\<exists>g \<in> set fs. same_failure f g")
  case True
  assume ok: "failures_ok fs"
  have "map (\<lambda>f. (fl_task f, fl_url f, fl_stage f, fl_code f)) (add_failure f fs) =
      map (\<lambda>f. (fl_task f, fl_url f, fl_stage f, fl_code f)) fs"
    using True by (auto simp: add_failure_def)
  then show ?thesis using ok by (simp only: failures_ok_def)
next
  case False
  assume ok: "failures_ok fs"
  then show ?thesis using False by (auto simp: add_failure_def failures_ok_def same_failure_key)
qed


section \<open>A batch\<close>

definition provider_code :: "bool \<Rightarrow> string \<Rightarrow> string" where
  "provider_code is_local ending = (if is_local then ''LOCAL'' else ''COZE'') @ ending"

definition persist_failures :: "int \<Rightarrow> failed_url list \<Rightarrow> failure list \<Rightarrow> failure list" where
  "persist_failures task urls fs = foldl (\<lambda>fs u. add_failure
     (new_failure task (fu_url u) (fu_stage u) (fu_code u) (fu_message u) (fu_retryable u)) fs) fs urls"

definition persist_failed_article :: "bool \<Rightarrow> int \<Rightarrow> article \<Rightarrow> failure list \<Rightarrow> failure list" where
  "persist_failed_article is_local task a fs = add_failure
     (new_failure task (ar_url a) (ar_method a) (provider_code is_local ''_ARTICLE_FAILED'') (ar_reason a) True) fs"

fun uncount :: "article_decision \<Rightarrow> counters \<Rightarrow> counters" where
  "uncount ArtAccepted c = c\<lparr>ct_accepted := max 0 (ct_accepted c - 1), ct_success := max 0 (ct_accepted c - 1)\<rparr>"
| "uncount ArtRejected c = c\<lparr>ct_rejected := max 0 (ct_rejected c - 1)\<rparr>"
| "uncount ArtPending c = c\<lparr>ct_pending_review := max 0 (ct_pending_review c - 1)\<rparr>"
| "uncount ArtFailed c = c"

definition persist_article :: "(ustr \<Rightarrow> exn + ustr) \<Rightarrow> (ustr \<Rightarrow> ustr) \<Rightarrow> int \<Rightarrow> bool \<Rightarrow> int \<Rightarrow>
    source_column \<Rightarrow> crawl_store \<times> counters \<Rightarrow> article \<Rightarrow> crawl_store \<times> counters" where
  "persist_article canon sha now is_local task col sc a =
    (case sc of (st, c) \<Rightarrow>
     if ar_decision a = ArtFailed then
       (st\<lparr>cs_failures := persist_failed_article is_local task a (cs_failures st)\<rparr>, c)
     else case save_article canon sha now is_local task col a st of
       Inr (st', dup) \<Rightarrow> (st', if dup then c\<lparr>ct_url_dup := ct_url_dup c + 1\<rparr> else c)
     | Inl e \<Rightarrow>
         (st\<lparr>cs_failures := add_failure (new_failure task (ar_url a) ''saving_documents''
              (provider_code is_local ''_DOCUMENT_SAVE_FAILED'') [] True) (cs_failures st)\<rparr>,
          uncount (ar_decision a) (c\<lparr>ct_failed := ct_failed c + 1\<rparr>)))"

definition batch_counters :: "bool \<Rightarrow> batch_stats \<Rightarrow> counters \<Rightarrow> counters" where
  "batch_counters is_local s c = c\<lparr>ct_discovered := int (bs_discovered s), ct_fetched := int (bs_fetched s),
     ct_failed := int (bs_failed s), ct_success := (if is_local then 0 else int (bs_accepted s)),
     ct_accepted := int (bs_accepted s), ct_rejected := int (bs_rejected s),
     ct_pending_review := int (bs_pending s)\<rparr>"

definition persist_batch :: "(ustr \<Rightarrow> exn + ustr) \<Rightarrow> (ustr \<Rightarrow> ustr) \<Rightarrow> int \<Rightarrow> bool \<Rightarrow> int \<Rightarrow>
    source_column \<Rightarrow> batch \<Rightarrow> crawl_store \<times> counters \<Rightarrow> crawl_store \<times> counters" where
  "persist_batch canon sha now is_local task col b sc =
    (case sc of (st, c) \<Rightarrow>
     foldl (persist_article canon sha now is_local task col)
       (st\<lparr>cs_failures := persist_failures task (bt_failed b) (cs_failures st)\<rparr>,
        batch_counters is_local (bt_stats b) c) (bt_articles b))"

definition count_pending_documents :: "int \<Rightarrow> doc_store \<Rightarrow> nat" where
  "count_pending_documents task st =
    (let ids = nub (map ln_document (filter (\<lambda>l. ln_task l = Some task) (ds_lineage st))) in
     count_if (\<lambda>d. dm_id d \<in> set ids \<and> dm_final d \<notin> {''approved'', ''rejected''}) (map snd (ds_docs st)))"

section \<open>Refreshing keeps the history and the manual decision\<close>

lemma refresh_unchanged:
  assumes "changed_values d (article_values sha col a) = []"
    and "latest_review (dm_id d) (rw_type (article_review is_local (dm_id d) a)) st = Some r"
    and "rw_raw r = ar_json a"
  shows "refresh_document sha now is_local task col d a st =
    st\<lparr>cs_docs := ensure_lineage task d None (put_doc (d\<lparr>dm_last_crawl := now\<rparr>) (cs_docs st))\<rparr>"
  using assms by (simp add: refresh_document_def Let_def article_review_def)

lemma ensure_lineage_keeps [simp]:
  "ds_docs (ensure_lineage task d v st) = ds_docs st"
  "ds_versions (ensure_lineage task d v st) = ds_versions st"
  "ds_next (ensure_lineage task d v st) = ds_next st"
  by (auto simp: ensure_lineage_def add_lineage_def Let_def split: option.splits)

lemma store_ok_cong:
  "ds_docs st = ds_docs st' \<Longrightarrow> ds_versions st = ds_versions st' \<Longrightarrow> store_ok st = store_ok st'"
  by (simp add: store_ok_def versions_of_def)

lemma history_ok_same:
  "dm_version d' = dm_version d \<Longrightarrow> content_of d' = content_of d \<Longrightarrow> history_ok d' vs = history_ok d vs"
  by (simp add: history_ok_def)

lemma put_same_ok:
  assumes "store_ok st" "history_ok d (versions_of (dm_id d) st)"
  shows "store_ok (put_doc d st)"
proof -
  have dist: "distinct (dkeys (dset (dm_id d) d (ds_docs st)))"
    using assms(1) by (simp add: store_ok_def distinct_update)
  have "dm_id x = i \<and> history_ok x (versions_of i st)" if "(i, x) \<in> set (dset (dm_id d) d (ds_docs st))" for i x
  proof -
    have "dget (dset (dm_id d) d (ds_docs st)) i = Some x" using that dist by simp
    then show ?thesis using assms store_okD [OF assms(1)] by (auto simp: dget_dset split: if_splits)
  qed
  then show ?thesis using dist by (auto simp: store_ok_def put_doc_def versions_of_def)
qed

lemma dm_attrs_update_simps [simp]:
  "attr (d\<lparr>dm_quality := q\<rparr>) k = attr d k" "attr (d\<lparr>dm_rule := r\<rparr>) k = attr d k"
  "attr (d\<lparr>dm_llm := r\<rparr>) k = attr d k" "attr (d\<lparr>dm_manual := r\<rparr>) k = attr d k"
  "attr (d\<lparr>dm_final := r\<rparr>) k = attr d k" "attr (d\<lparr>dm_last_crawl := n\<rparr>) k = attr d k"
  by (simp_all add: attr_def)

definition refreshed :: "(ustr \<Rightarrow> ustr) \<Rightarrow> source_column \<Rightarrow> article \<Rightarrow> document \<Rightarrow> doc_store \<Rightarrow> doc_store \<Rightarrow> bool" where
  "refreshed sha col a d st st' \<longleftrightarrow>
    (if changed_values d (article_values sha col a) = [] then
       ds_versions st' = ds_versions st
     else extends d (versions_of (dm_id d) st) (versions_of (dm_id d) st'))
    \<and> (\<forall>j. j \<noteq> dm_id d \<longrightarrow> dget (ds_docs st') j = dget (ds_docs st) j \<and> versions_of j st' = versions_of j st)
    \<and> (\<exists>d'. dget (ds_docs st') (dm_id d) = Some d'
        \<and> (changed_values d (article_values sha col a) = [] \<longrightarrow>
            dm_version d' = dm_version d \<and> dm_attrs d' = dm_attrs d
            \<and> (dm_manual d \<in> {''approve'', ''reject''} \<longrightarrow> dm_manual d' = dm_manual d \<and> dm_final d' = dm_final d))
        \<and> (changed_values d (article_values sha col a) \<noteq> [] \<longrightarrow>
            dm_version d' = dm_version d + 1 \<and> dm_index d' = ''stale''
            \<and> dm_manual d' = manual_of (ar_decision a) \<and> dm_final d' = final_of (ar_decision a)
            \<and> (\<forall>(k, v) \<in> set (article_values sha col a). attr d' k = v)))"

lemma values_get: "(k, v) \<in> set (article_values sha col a) \<Longrightarrow> dget (rev (article_values sha col a)) k = Some v"
  by (subst map_of_eq_Some_iff) (auto simp: article_values_def)

lemma bump_attrs:
  "attr (snd (bump hash vals ch d st)) k = (case dget (rev vals) k of Some v \<Rightarrow> v | None \<Rightarrow> attr d k)"
  by (simp add: bump_def Let_def attr_set_attrs) (simp add: attr_def split: option.split)

lemma ensure_lineage_versions [simp]: "versions_of j (ensure_lineage t d v st) = versions_of j st"
  by (simp add: versions_of_def)

lemma ensure_lineage_ok [simp]: "store_ok (ensure_lineage t d v st) = store_ok st"
  by (rule store_ok_cong) simp_all

lemma versions_of_stale [simp]: "versions_of j (st\<lparr>ds_stale_chunks := x\<rparr>) = versions_of j st"
  by (simp add: versions_of_def)

lemma put_stale_mark:
  "versions_of j (put_doc d (st\<lparr>ds_stale_chunks := x\<rparr>)) = versions_of j st"
  "dget (ds_docs (put_doc d (st\<lparr>ds_stale_chunks := x\<rparr>))) j = (if j = dm_id d then Some d else dget (ds_docs st) j)"
  "store_ok (put_doc d (st\<lparr>ds_stale_chunks := x\<rparr>)) = store_ok (put_doc d st)"
  by (simp_all add: versions_of_def put_doc_def store_ok_def dget_dset)

text \<open>What a refresh leaves in the document table, by what changed.\<close>

definition settled :: "bool \<Rightarrow> article \<Rightarrow> int \<Rightarrow> bool \<Rightarrow> document \<Rightarrow> document" where
  "settled is_local a now redecide d =
    (let status = (if is_local then ''pending'' else decision_name (ar_decision a));
         d2 = d\<lparr>dm_quality := quality_of a, dm_rule := status, dm_llm := status\<rparr>;
         d3 = (if redecide then d2\<lparr>dm_manual := manual_of (ar_decision a), dm_final := final_of (ar_decision a)\<rparr> else d2)
     in d3\<lparr>dm_last_crawl := now\<rparr>)"

lemma settled_simps [simp]:
  "dm_id (settled l a now b d) = dm_id d" "dm_version (settled l a now b d) = dm_version d"
  "dm_attrs (settled l a now b d) = dm_attrs d" "attr (settled l a now b d) k = attr d k"
  "dm_index (settled l a now b d) = dm_index d" "dm_canonical (settled l a now b d) = dm_canonical d"
  "dm_column (settled l a now b d) = dm_column d"
  "dm_manual (settled l a now b d) = (if b then manual_of (ar_decision a) else dm_manual d)"
  "dm_final (settled l a now b d) = (if b then final_of (ar_decision a) else dm_final d)"
  by (simp_all add: settled_def Let_def attr_def)

lemma refresh_cases:
  obtains (quiet) "changed_values d (article_values sha col a) = []"
      "cs_docs (refresh_document sha now is_local task col d a st) =
        ensure_lineage task d None (put_doc (d\<lparr>dm_last_crawl := now\<rparr>) (cs_docs st))"
  | (review) "changed_values d (article_values sha col a) = []"
      "cs_docs (refresh_document sha now is_local task col d a st) = ensure_lineage task
        (settled is_local a now (dm_manual d \<notin> {''approve'', ''reject''}) d) None
        (put_doc (settled is_local a now (dm_manual d \<notin> {''approve'', ''reject''}) d) (cs_docs st))"
  | (changed) d1 ds1 v x where "changed_values d (article_values sha col a) \<noteq> []"
      "bump sha (article_values sha col a) (changed_values d (article_values sha col a)) d (cs_docs st) = (ds1, d1)"
      "cs_docs (refresh_document sha now is_local task col d a st) = ensure_lineage task
        (settled is_local a now True d1) v (put_doc (settled is_local a now True d1) (ds1\<lparr>ds_stale_chunks := x\<rparr>))"
proof (cases "changed_values d (article_values sha col a) = []")
  case True
  show ?thesis
  proof (cases "case latest_review (dm_id d) (rw_type (article_review is_local (dm_id d) a)) st of
      None \<Rightarrow> True | Some r \<Rightarrow> rw_raw r \<noteq> rw_raw (article_review is_local (dm_id d) a)")
    case True': True
    show ?thesis
      by (rule review) (use True True' in \<open>simp_all add: refresh_document_def Let_def settled_def\<close>)
  next
    case False
    show ?thesis
      by (rule quiet) (use True False in \<open>simp_all add: refresh_document_def Let_def\<close>)
  qed
next
  case False
  obtain ds1 d1 where b: "bump sha (article_values sha col a)
      (changed_values d (article_values sha col a)) d (cs_docs st) = (ds1, d1)"
    by (metis surj_pair)
  show ?thesis
    by (rule changed [OF False b]) (use False b in \<open>simp add: refresh_document_def Let_def settled_def\<close>)
qed

lemma history_ok_settled [simp]: "history_ok (settled l a now b d) vs = history_ok d vs"
  by (rule history_ok_same) simp_all

lemma put_twice: "dm_id d' = dm_id d \<Longrightarrow> put_doc d' (put_doc d st) = put_doc d' st"
  by (simp add: put_doc_def update_last)

lemma put_settled_ok: "store_ok (put_doc d st) \<Longrightarrow> store_ok (put_doc (settled l a now b d) st)"
proof -
  assume ok: "store_ok (put_doc d st)"
  have "history_ok d (versions_of (dm_id d) (put_doc d st))"
    using store_okD [OF ok, of "dm_id d" d] by (simp add: put_doc_get)
  then have "store_ok (put_doc (settled l a now b d) (put_doc d st))"
    by (intro put_same_ok [OF ok]) simp
  then show ?thesis by (simp add: put_twice)
qed

lemma refresh_ok:
  assumes "store_ok (cs_docs st)" "dget (ds_docs (cs_docs st)) (dm_id d) = Some d"
  shows "store_ok (cs_docs (refresh_document sha now is_local task col d a st))"
proof -
  have h: "history_ok d (versions_of (dm_id d) (cs_docs st))" using store_okD [OF assms] by simp
  show ?thesis
  proof (cases rule: refresh_cases [of d sha col a now is_local task st])
    case quiet
    have "history_ok (d\<lparr>dm_last_crawl := now\<rparr>) (versions_of (dm_id d) (cs_docs st))"
      using h by (subst history_ok_same) simp_all
    then show ?thesis unfolding quiet(2) using assms(1) by (simp add: put_same_ok)
  next
    case review
    then show ?thesis using assms(1) h by (simp add: put_same_ok)
  next
    case (changed d1 ds1 v x)
    have "store_ok (put_doc d1 ds1)" by (rule bump_store_ok [OF assms changed(2)])
    then show ?thesis unfolding changed(3) by (simp add: put_stale_mark put_settled_ok)
  qed
qed

lemma refresh_refreshed:
  assumes "store_ok (cs_docs st)" "dget (ds_docs (cs_docs st)) (dm_id d) = Some d"
  shows "refreshed sha col a d (cs_docs st) (cs_docs (refresh_document sha now is_local task col d a st))"
proof (cases rule: refresh_cases [of d sha col a now is_local task st])
  case quiet
  then show ?thesis unfolding refreshed_def quiet(2) by (simp add: put_doc_get) (simp add: put_doc_def)
next
  case review
  then show ?thesis unfolding refreshed_def review(2) by (simp add: put_doc_get) (simp add: put_doc_def)
next
  case (changed d1 ds1 v x)
  have h: "history_ok d (versions_of (dm_id d) (cs_docs st))" using store_okD [OF assms] by simp
  note b = bump_history [OF h, of sha "article_values sha col a" "changed_values d (article_values sha col a)",
      unfolded changed(2) fst_conv snd_conv]
  have docs: "ds_docs ds1 = ds_docs (cs_docs st)" and i: "dm_id d1 = dm_id d"
    using bump_docs bump_id changed(2) by (metis fst_conv, metis snd_conv)
  have vers: "j \<noteq> dm_id d \<Longrightarrow> versions_of j ds1 = versions_of j (cs_docs st)" for j
    using bump_others changed(2) by (metis fst_conv)
  have vals: "attr d1 k = w" if "(k, w) \<in> set (article_values sha col a)" for k w
    using bump_attrs [of sha "article_values sha col a" "changed_values d (article_values sha col a)" d "cs_docs st" k]
      values_get [OF that] changed(2) by simp
  show ?thesis
    unfolding refreshed_def changed(3) using changed(1) b docs i vers vals
    by (simp add: put_stale_mark case_prod_beta)
qed

section \<open>The invariant of a crawl\<close>

text \<open>
  What the tables keep over a batch: histories, one document per column and canonical URL, one
  failure per task, URL, stage and code, and fresh numbers.
\<close>

definition url_unique :: "doc_store \<Rightarrow> bool" where
  "url_unique ds \<longleftrightarrow> (\<forall>i j d e. dget (ds_docs ds) i = Some d \<and> dget (ds_docs ds) j = Some e
     \<and> dm_column d = dm_column e \<and> dm_canonical d = dm_canonical e \<longrightarrow> i = j)"

definition ids_fresh :: "doc_store \<Rightarrow> bool" where
  "ids_fresh ds \<longleftrightarrow> (\<forall>i \<in> set (dkeys (ds_docs ds)). i < ds_next ds)
    \<and> (\<forall>v \<in> set (ds_versions ds). vr_document v < ds_next ds)"

definition crawl_ok :: "crawl_store \<Rightarrow> bool" where
  "crawl_ok st \<longleftrightarrow> store_ok (cs_docs st) \<and> url_unique (cs_docs st) \<and> ids_fresh (cs_docs st)
    \<and> failures_ok (cs_failures st)"

lemma find_document_Some:
  assumes "find_document col url ds = Some d" "store_ok ds"
  shows "dget (ds_docs ds) (dm_id d) = Some d \<and> dm_column d = Some col \<and> dm_canonical d = url"
proof -
  from assms(1) have d: "d \<in> set (map snd (ds_docs ds))" "dm_column d = Some col" "dm_canonical d = url"
    unfolding find_document_def find_Some_iff by auto
  then obtain i where i: "(i, d) \<in> set (ds_docs ds)" by auto
  then have "dm_id d = i" "dget (ds_docs ds) i = Some d" using assms(2) by (auto simp: store_ok_def)
  then show ?thesis using d by simp
qed

lemma find_document_None:
  "find_document col url ds = None \<Longrightarrow> dget (ds_docs ds) i = Some d \<Longrightarrow>
    \<not> (dm_column d = Some col \<and> dm_canonical d = url)"
  unfolding find_document_def find_None_iff by (drule map_of_SomeD) force

lemma bump_next: "ds_next st \<le> ds_next (fst (bump h vals ch d st))"
  by (simp add: bump_def add_version_def Let_def)

lemma bump_fresh: "ids_fresh st \<Longrightarrow> dm_id d < ds_next st \<Longrightarrow> ids_fresh (fst (bump h vals ch d st))"
  by (auto simp: ids_fresh_def bump_def add_version_def snapshot_def Let_def less_Suc_eq)

lemma put_fresh: "ids_fresh st \<Longrightarrow> dm_id d < ds_next st \<Longrightarrow> ids_fresh (put_doc d st)"
  unfolding ids_fresh_def put_doc_def by (simp add: set_dkeys_dset del: set_map)

lemma refresh_fresh:
  assumes "ids_fresh (cs_docs st)" "dm_id d < ds_next (cs_docs st)"
  shows "ids_fresh (cs_docs (refresh_document sha now is_local task col d a st))"
proof -
  have e: "ids_fresh (ensure_lineage t x v s) = ids_fresh s" for t x v s by (simp add: ids_fresh_def)
  have m: "ids_fresh (s\<lparr>ds_stale_chunks := x\<rparr>) = ids_fresh s" for s x by (simp add: ids_fresh_def)
  show ?thesis
  proof (cases rule: refresh_cases [of d sha col a now is_local task st])
    case quiet
    then show ?thesis using assms by (simp add: e put_fresh)
  next
    case review
    then show ?thesis using assms by (simp add: e put_fresh)
  next
    case (changed d1 ds1 v x)
    have "ids_fresh ds1" "dm_id d1 < ds_next ds1"
      using bump_fresh [OF assms] bump_next [of "cs_docs st"] bump_id assms(2) changed(2)
      by (metis fst_conv, metis fst_conv order_less_le_trans snd_conv)
    then show ?thesis unfolding changed(3) e by (intro put_fresh) (simp_all add: m)
  qed
qed

lemma set_attrs_column [simp]: "dm_column (set_attrs kvs d) = dm_column d"
  unfolding set_attrs_def by (induction kvs arbitrary: d) (auto simp: set_attr_def)

lemma refresh_identity:
  "\<exists>d'. dm_id d' = dm_id d \<and> dm_column d' = dm_column d \<and> dm_canonical d' = dm_canonical d
    \<and> (\<forall>j. dget (ds_docs (cs_docs (refresh_document sha now is_local task col d a st))) j =
        (if j = dm_id d then Some d' else dget (ds_docs (cs_docs st)) j))"
proof (cases rule: refresh_cases [of d sha col a now is_local task st])
  case quiet
  show ?thesis by (rule exI [of _ "d\<lparr>dm_last_crawl := now\<rparr>"]) (simp add: quiet(2) put_doc_get)
next
  case review
  show ?thesis
    by (rule exI [of _ "settled is_local a now (dm_manual d \<notin> {''approve'', ''reject''}) d"])
      (simp only: review(2) ensure_lineage_keeps put_doc_get settled_simps, simp)
next
  case (changed d1 ds1 v x)
  have d1: "d1 = snd (bump sha (article_values sha col a) (changed_values d (article_values sha col a)) d (cs_docs st))"
    and "ds_docs ds1 = ds_docs (cs_docs st)" using changed(2) bump_docs by (metis snd_conv, metis fst_conv)
  moreover have "dm_id d1 = dm_id d \<and> dm_column d1 = dm_column d \<and> dm_canonical d1 = dm_canonical d"
    unfolding d1 by (simp add: bump_def Let_def)
  ultimately show ?thesis
    by (intro exI [of _ "settled is_local a now True d1"])
      (simp only: changed(3) ensure_lineage_keeps put_stale_mark settled_simps, simp)
qed

lemma refresh_failures [simp]:
  "cs_failures (refresh_document sha now is_local task col d a st) = cs_failures st"
  by (simp add: refresh_document_def Let_def case_prod_beta)

lemma refresh_crawl_ok:
  assumes "crawl_ok st" "dget (ds_docs (cs_docs st)) (dm_id d) = Some d"
  shows "crawl_ok (refresh_document sha now is_local task col d a st)"
proof -
  have ok: "store_ok (cs_docs st)" "url_unique (cs_docs st)" "ids_fresh (cs_docs st)"
    using assms(1) by (simp_all add: crawl_ok_def)
  have "dm_id d \<in> set (dkeys (ds_docs (cs_docs st)))" using assms(2) by (force dest: map_of_SomeD)
  then have "dm_id d < ds_next (cs_docs st)" using ok(3) unfolding ids_fresh_def by blast
  note fresh = refresh_fresh [OF ok(3) this]
  obtain d' where d': "dm_id d' = dm_id d" "dm_column d' = dm_column d" "dm_canonical d' = dm_canonical d"
    "\<And>j. dget (ds_docs (cs_docs (refresh_document sha now is_local task col d a st))) j =
        (if j = dm_id d then Some d' else dget (ds_docs (cs_docs st)) j)"
    using refresh_identity [of d sha now is_local task col a st] by blast
  have "url_unique (cs_docs (refresh_document sha now is_local task col d a st))"
    using ok(2) assms(2) d' unfolding url_unique_def by (auto split: if_splits; metis)
  then show ?thesis using refresh_ok [OF ok(1) assms(2)] fresh assms(1) by (simp add: crawl_ok_def)
qed

lemma fresh_versions: "ids_fresh st \<Longrightarrow> versions_of (ds_next st) st = []"
  unfolding ids_fresh_def versions_of_def filter_empty_conv by fastforce

lemma fresh_id: "ids_fresh st \<Longrightarrow> dget (ds_docs st) (ds_next st) = None"
  unfolding ids_fresh_def by (metis map_of_eq_None_iff order_less_irrefl set_map)

lemma new_document_simps [simp]:
  "dm_id (new_document sha now l col u i a) = i" "dm_column (new_document sha now l col u i a) = Some (sc_id col)"
  "dm_canonical (new_document sha now l col u i a) = u" "dm_version (new_document sha now l col u i a) = 1"
  "dm_final (new_document sha now l col u i a) = final_of (ar_decision a)"
  by (simp_all add: new_document_def)

lemma insert_doc_ok:
  assumes "crawl_ok st" "find_document col u (cs_docs st) = None"
    and d: "dm_id d = ds_next (cs_docs st)" "dm_column d = Some col" "dm_canonical d = u"
  shows "crawl_ok (st\<lparr>cs_docs := add_lineage t am d v
      (put_doc d ((cs_docs st)\<lparr>ds_next := ds_next (cs_docs st) + 1\<rparr>)), cs_reviews := rs, cs_attachments := as\<rparr>)"
proof -
  let ?s = "(cs_docs st)\<lparr>ds_next := ds_next (cs_docs st) + 1\<rparr>"
  have ok: "store_ok (cs_docs st)" "url_unique (cs_docs st)" "ids_fresh (cs_docs st)"
    using assms(1) by (simp_all add: crawl_ok_def)
  have s: "store_ok ?s" by (rule iffD1 [OF store_ok_cong ok(1)]) simp_all
  have v: "versions_of (ds_next (cs_docs st)) ?s = []"
    using fresh_versions [OF ok(3)] by (simp add: versions_of_def)
  have 1: "store_ok (put_doc d ?s)" using s v d by (intro put_same_ok) (simp_all add: history_ok_def)
  have "ids_fresh ?s" using ok(3) unfolding ids_fresh_def by fastforce
  then have 2: "ids_fresh (put_doc d ?s)" using d by (intro put_fresh) simp_all
  have 3: "url_unique (put_doc d ?s)"
    using ok(2) find_document_None [OF assms(2)] d
    unfolding url_unique_def by (auto simp: put_doc_get split: if_splits; metis)
  have "ids_fresh (add_lineage t am d w s) = ids_fresh s" "url_unique (add_lineage t am d w s) = url_unique s" for d w s
    by (simp_all add: ids_fresh_def add_lineage_def url_unique_def)
  with 1 2 3 show ?thesis using assms(1) by (simp add: crawl_ok_def)
qed

lemma touch_doc_ok:
  assumes "crawl_ok st" "find_document col u (cs_docs st) = Some d"
  shows "crawl_ok (st\<lparr>cs_docs := put_doc (d\<lparr>dm_last_crawl := now\<rparr>) (cs_docs st)\<rparr>)"
proof -
  have ok: "store_ok (cs_docs st)" "url_unique (cs_docs st)" "ids_fresh (cs_docs st)"
    using assms(1) by (simp_all add: crawl_ok_def)
  have d: "dget (ds_docs (cs_docs st)) (dm_id d) = Some d" using find_document_Some [OF assms(2) ok(1)] by simp
  have "history_ok (d\<lparr>dm_last_crawl := now\<rparr>) (versions_of (dm_id d) (cs_docs st))"
    using store_okD [OF ok(1) d] by (subst history_ok_same) simp_all
  then have 1: "store_ok (put_doc (d\<lparr>dm_last_crawl := now\<rparr>) (cs_docs st))" using ok(1) by (intro put_same_ok) simp_all
  have "dm_id d \<in> set (dkeys (ds_docs (cs_docs st)))" using d by (force dest: map_of_SomeD)
  then have "dm_id d < ds_next (cs_docs st)" using ok(3) unfolding ids_fresh_def by blast
  then have 2: "ids_fresh (put_doc (d\<lparr>dm_last_crawl := now\<rparr>) (cs_docs st))" using ok(3) by (intro put_fresh) simp_all
  have 3: "url_unique (put_doc (d\<lparr>dm_last_crawl := now\<rparr>) (cs_docs st))"
    using ok(2) d unfolding url_unique_def by (auto simp: put_doc_get split: if_splits; metis)
  show ?thesis using 1 2 3 assms(1) by (simp add: crawl_ok_def)
qed

lemma save_article_ok:
  assumes "crawl_ok st" "save_article canon sha now l task col a st = Inr (st', dup)"
  shows "crawl_ok st' \<and> cs_failures st' = cs_failures st"
proof -
  obtain u where u: "canon (ar_url a) = Inr u" using assms(2) by (auto simp: save_article_def rbind_Inr)
  show ?thesis
  proof (cases "find_document (sc_id col) u (cs_docs st)")
    case None
    then have "st' = st\<lparr>cs_docs := add_lineage (Some task) None (new_document sha now l col u (ds_next (cs_docs st)) a) None
      (put_doc (new_document sha now l col u (ds_next (cs_docs st)) a)
        ((cs_docs st)\<lparr>ds_next := ds_next (cs_docs st) + 1\<rparr>)),
      cs_reviews := cs_reviews st @ [article_review l (ds_next (cs_docs st)) a],
      cs_attachments := cs_attachments st @ map (attachment_of (ds_next (cs_docs st)) a) (ar_attachments a)\<rparr>"
      using assms(2) u by (simp add: save_article_def Let_def)
    then show ?thesis using insert_doc_ok [OF assms(1) None] by simp
  next
    case (Some d)
    then have st': "st' = refresh_document sha now l task col d a st"
      using assms(2) u by (simp add: save_article_def)
    have "dget (ds_docs (cs_docs st)) (dm_id d) = Some d"
      using find_document_Some [OF Some] assms(1) by (simp add: crawl_ok_def)
    then show ?thesis unfolding st' using refresh_crawl_ok [OF assms(1)] by simp
  qed
qed

lemma save_article_error: "save_article canon sha now l task col a st = Inl e \<longleftrightarrow> canon (ar_url a) = Inl e"
  by (cases "canon (ar_url a)") (auto simp: save_article_def Let_def split: option.splits)

lemma failures_crawl_ok: "crawl_ok st \<Longrightarrow> failures_ok fs \<Longrightarrow> crawl_ok (st\<lparr>cs_failures := fs\<rparr>)"
  by (simp add: crawl_ok_def)

lemma crawl_ok_failures: "crawl_ok st \<Longrightarrow> failures_ok (cs_failures st)"
  by (simp add: crawl_ok_def)

lemma persist_article_ok:
  "crawl_ok (fst sc) \<Longrightarrow> crawl_ok (fst (persist_article canon sha now l task col sc a))"
proof -
  assume ok: "crawl_ok (fst sc)"
  note add = failures_crawl_ok [OF ok add_failure_ok [OF crawl_ok_failures [OF ok]]]
  show ?thesis
    using ok add save_article_ok [OF ok]
    by (cases sc) (auto simp: persist_article_def persist_failed_article_def split: sum.splits)
qed

lemma persist_failures_ok: "failures_ok fs \<Longrightarrow> failures_ok (persist_failures task us fs)"
  unfolding persist_failures_def by (induction us arbitrary: fs) (simp_all add: add_failure_ok)

lemma persist_batch_ok: "crawl_ok st \<Longrightarrow> crawl_ok (fst (persist_batch canon sha now l task col b (st, c)))"
proof -
  assume ok: "crawl_ok st"
  have "crawl_ok (fst (foldl (persist_article canon sha now l task col) sc as))" if "crawl_ok (fst sc)" for sc as
    using that by (induction as arbitrary: sc) (simp_all add: persist_article_ok)
  then show ?thesis using failures_crawl_ok [OF ok persist_failures_ok [OF crawl_ok_failures [OF ok]]]
    by (simp add: persist_batch_def)
qed

section \<open>The counters\<close>

definition unsaved :: "(ustr \<Rightarrow> exn + ustr) \<Rightarrow> article_decision \<Rightarrow> article list \<Rightarrow> nat" where
  "unsaved canon x as = count_if (\<lambda>a. ar_decision a = x \<and> isl (canon (ar_url a))) as"

lemma unsaved_simps [simp]:
  "unsaved canon x [] = 0"
  "unsaved canon x (a # as) = (if ar_decision a = x \<and> isl (canon (ar_url a)) then 1 else 0) + unsaved canon x as"
  by (simp_all add: unsaved_def count_if_def)

lemma decided_simps [simp]:
  "decided x [] = 0" "decided x (a # as) = (if ar_decision a = x then 1 else 0) + decided x as"
  by (simp_all add: decided_def count_if_def)

lemma unsaved_le: "unsaved canon x as \<le> decided x as"
  by (induction as) auto

text \<open>The counters after \<open>as\<close>, from counters that cover at least the articles of each decision.\<close>

definition counted :: "(ustr \<Rightarrow> exn + ustr) \<Rightarrow> article list \<Rightarrow> counters \<Rightarrow> counters \<Rightarrow> bool" where
  "counted canon as c c' \<longleftrightarrow>
    ct_accepted c' = ct_accepted c - int (unsaved canon ArtAccepted as)
    \<and> ct_rejected c' = ct_rejected c - int (unsaved canon ArtRejected as)
    \<and> ct_pending_review c' = ct_pending_review c - int (unsaved canon ArtPending as)
    \<and> ct_failed c' = ct_failed c + int (unsaved canon ArtAccepted as + unsaved canon ArtRejected as
        + unsaved canon ArtPending as)
    \<and> ct_success c' = (if unsaved canon ArtAccepted as = 0 then ct_success c else ct_accepted c')"

lemma persist_article_counted:
  assumes "int (decided ArtAccepted [a]) \<le> ct_accepted c" "int (decided ArtRejected [a]) \<le> ct_rejected c"
    "int (decided ArtPending [a]) \<le> ct_pending_review c"
  shows "counted canon [a] c (snd (persist_article canon sha now l task col (st, c) a))"
proof (cases "canon (ar_url a)")
  case (Inl e)
  then have "save_article canon sha now l task col a st = Inl e" by (simp add: save_article_error)
  then show ?thesis using assms Inl
    by (cases "ar_decision a") (auto simp: counted_def persist_article_def)
next
  case (Inr u)
  then obtain r where "save_article canon sha now l task col a st = Inr r"
    using save_article_error [of canon sha now l task col a st] by (cases "save_article canon sha now l task col a st") auto
  then show ?thesis using Inr
    by (cases r; cases "ar_decision a") (auto simp: counted_def persist_article_def)
qed

lemma counted_Cons: "counted canon [a] c c1 \<Longrightarrow> counted canon as c1 c2 \<Longrightarrow> counted canon (a # as) c c2"
  by (cases "ar_decision a"; cases "isl (canon (ar_url a))") (auto simp: counted_def)

lemma counted_fold:
  assumes "int (decided ArtAccepted as) \<le> ct_accepted c" "int (decided ArtRejected as) \<le> ct_rejected c"
    "int (decided ArtPending as) \<le> ct_pending_review c"
  shows "counted canon as c (snd (foldl (persist_article canon sha now l task col) (st, c) as))"
  using assms
proof (induction as arbitrary: st c)
  case Nil
  then show ?case by (simp add: counted_def)
next
  case (Cons a as)
  obtain st1 c1 where p: "persist_article canon sha now l task col (st, c) a = (st1, c1)"
    by (metis surj_pair)
  have c1: "counted canon [a] c c1"
    using persist_article_counted [of a c canon sha now l task col st] p Cons.prems
    by (simp split: if_splits)
  have "counted canon as c1 (snd (foldl (persist_article canon sha now l task col) (st1, c1) as))"
    using c1 Cons.prems by (intro Cons.IH) (auto simp: counted_def split: if_splits)
  then show ?case using counted_Cons [OF c1] p by simp
qed

lemma validated:
  "validate_statistics b = Inr b' \<Longrightarrow> b' = b
    \<and> decided ArtAccepted (bt_articles b) = bs_accepted (bt_stats b)
    \<and> decided ArtRejected (bt_articles b) = bs_rejected (bt_stats b)
    \<and> decided ArtPending (bt_articles b) = bs_pending (bt_stats b)
    \<and> decided ArtFailed (bt_articles b) + length (bt_failed b) = bs_failed (bt_stats b)
    \<and> length (bt_articles b) = bs_fetched (bt_stats b)"
  by (auto simp: validate_statistics_def Let_def split: if_splits)

lemma decided_total:
  "decided ArtAccepted as + decided ArtRejected as + decided ArtPending as + decided ArtFailed as = length as"
proof (induction as)
  case (Cons a as)
  then show ?case by (cases "ar_decision a") auto
qed simp

section \<open>Properties\<close>

text \<open>
  C20. A recrawl of a known document keeps the histories of the store: if no stored value
  differs, the version, the attributes, every snapshot and an approve or reject of a reviewer
  stay; otherwise the version is one higher, the index is stale, the old snapshots stay and a
  new one follows them, all values are the article's, and the document has to be reviewed again;
  no other document or history changes.
\<close>

theorem recrawl_history:
  assumes "store_ok (cs_docs st)" "dget (ds_docs (cs_docs st)) (dm_id d) = Some d"
  shows "store_ok (cs_docs (refresh_document sha now is_local task col d a st))
    \<and> refreshed sha col a d (cs_docs st) (cs_docs (refresh_document sha now is_local task col d a st))"
  using refresh_ok [OF assms] refresh_refreshed [OF assms] by blast

definition sample_article :: article where
  "sample_article = \<lparr>ar_title = asc ''t'', ar_url = asc ''u'', ar_published = None, ar_region = None,
     ar_content = asc ''c'', ar_attachments = [], ar_method = ''html'', ar_needs_ocr = False,
     ar_decision = ArtAccepted, ar_quality = Some 90, ar_reason = [], ar_warnings = [], ar_type = None,
     ar_summary = None, ar_keywords = [], ar_json = asc ''{}''\<rparr>"

definition sample_column :: source_column where
  "sample_column = \<lparr>sc_id = 7, sc_source = 3, sc_source_region = None\<rparr>"

definition empty_crawl :: crawl_store where
  "empty_crawl = \<lparr>cs_docs = \<lparr>ds_docs = [], ds_versions = [], ds_lineage = [], ds_next = 1, ds_stale_chunks = []\<rparr>,
     cs_reviews = [], cs_attachments = [], cs_failures = []\<rparr>"

lemma recrawl_history_witness:
  "store_ok (cs_docs (refresh_document id 5 False 1 sample_column (snd (hd (ds_docs sample_store))) sample_article
    (empty_crawl\<lparr>cs_docs := sample_store\<rparr>)))"
  by (rule conjunct1 [OF recrawl_history]) (simp add: sample_store_ok, simp add: sample_store_def)

lemma empty_crawl_ok: "crawl_ok empty_crawl"
  by (simp add: crawl_ok_def empty_crawl_def store_ok_def url_unique_def ids_fresh_def failures_ok_def)

text \<open>
  C25. Persisting a batch whose statistics validate keeps the tables in order (histories, one
  document per column and canonical URL, one failure per task, URL, stage and code) and its
  counters exact: an article whose URL cannot be normalised moves from its decision to failed,
  every other count is the batch's, and accepted, rejected, pending and failed add up to the
  articles and failed URLs of the batch.
\<close>

theorem batch_persisted:
  assumes "crawl_ok st" "validate_statistics b = Inr b'"
    and "persist_batch canon sha now is_local task col b (st, c) = (st', c')"
  shows "crawl_ok st'
    \<and> ct_accepted c' = int (decided ArtAccepted (bt_articles b) - unsaved canon ArtAccepted (bt_articles b))
    \<and> ct_rejected c' = int (decided ArtRejected (bt_articles b) - unsaved canon ArtRejected (bt_articles b))
    \<and> ct_pending_review c' = int (decided ArtPending (bt_articles b) - unsaved canon ArtPending (bt_articles b))
    \<and> ct_accepted c' + ct_rejected c' + ct_pending_review c' + ct_failed c' =
        int (length (bt_articles b) + length (bt_failed b))"
proof -
  note v = validated [OF assms(2)]
  have "counted canon (bt_articles b) (batch_counters is_local (bt_stats b) c) c'"
    using counted_fold [of "bt_articles b" "batch_counters is_local (bt_stats b) c" canon sha now is_local task col
        "st\<lparr>cs_failures := persist_failures task (bt_failed b) (cs_failures st)\<rparr>"] assms(3) v
    by (simp add: persist_batch_def batch_counters_def)
  moreover have "crawl_ok st'" using persist_batch_ok [OF assms(1)] assms(3) by (metis fst_conv)
  ultimately show ?thesis
    using v decided_total [of "bt_articles b"] unsaved_le [of canon ArtAccepted "bt_articles b"]
      unsaved_le [of canon ArtRejected "bt_articles b"] unsaved_le [of canon ArtPending "bt_articles b"]
    by (simp add: counted_def batch_counters_def of_nat_diff)
qed

definition sample_batch :: batch where
  "sample_batch = \<lparr>bt_success = True, bt_task_id = asc ''1'',
     bt_stats = \<lparr>bs_discovered = 2, bs_fetched = 2, bs_accepted = 2, bs_rejected = 0, bs_pending = 0, bs_failed = 0\<rparr>,
     bt_articles = [sample_article, sample_article\<lparr>ar_url := []\<rparr>], bt_failed = [], bt_warnings = []\<rparr>"

lemma batch_persisted_witness:
  "ct_accepted (snd (persist_batch (\<lambda>u. if u = [] then Inl (ValueError ''url'') else Inr u) id 5 False 1 sample_column
      sample_batch (empty_crawl, reset_progress))) = 1"
proof -
  let ?canon = "\<lambda>u. if u = [] then Inl (ValueError ''url'') else Inr u"
  have "validate_statistics sample_batch = Inr sample_batch"
    by (simp add: validate_statistics_def sample_batch_def sample_article_def)
  moreover obtain st' c' where p: "persist_batch ?canon id 5 False 1 sample_column sample_batch (empty_crawl, reset_progress)
      = (st', c')" by (rule prod.exhaust)
  ultimately have "ct_accepted c' = int (decided ArtAccepted (bt_articles sample_batch)
      - unsaved ?canon ArtAccepted (bt_articles sample_batch))"
    using batch_persisted [OF empty_crawl_ok _ p] by blast
  then show ?thesis unfolding p by (simp add: sample_batch_def sample_article_def asc_def)
qed

end
