(* ===== verification/CrawlService.thy ===== *)
theory CrawlService
  imports CrawlDocuments PyJson
begin

text \<open>
  \<open>backend/app/services/crawl.py\<close>: the runs of a crawl task, from the claim to its final status.
  A run is one process among others: between its database statements other transactions may
  change the row of the task. \<open>env\<close> gives what they do before each point where the code awaits
  (\<open>await_point\<close>); the conditional updates decide on the row they find. The provider's answer,
  URL normalisation and the digest are arguments.

  An exception that leaves a function is \<open>Some\<close> in the second component of its outcome; the
  first component is the database after the roll back.
\<close>

section \<open>The state of a run\<close>

datatype await_point = BeforeClaim | BeforeStart | BeforeRemote | DuringRemote | BeforeNormalize
  | BeforeSave | InHandler

record source_info =
  so_last_crawl :: "int option"
  so_last_success :: "int option"
  so_coze_status :: "string option"
  so_coze_count :: nat
  so_coze_error :: "string option"

record invocation =
  iv_status :: string
  iv_http :: "nat option"
  iv_attempts :: nat
  iv_retries :: nat
  iv_code :: "string option"

record run =
  rn_task :: crawl_task
  rn_store :: crawl_store
  rn_source :: source_info
  rn_invoke :: "invocation option"

type_synonym env = "await_point \<Rightarrow> crawl_task \<Rightarrow> crawl_task"
type_synonym outcome = "run \<times> exn option"

text \<open>A conditional update of the row, on what the other transactions left of it.\<close>

definition hop :: "env \<Rightarrow> await_point \<Rightarrow> crawl_status \<Rightarrow> crawl_status \<Rightarrow> string \<Rightarrow> string option \<Rightarrow>
    run \<Rightarrow> run \<times> bool" where
  "hop env p expected target ps stage r =
    (let row = env p (rn_task r) in
     case advance_row expected target ps stage row of
       None \<Rightarrow> (r\<lparr>rn_task := row\<rparr>, False)
     | Some t \<Rightarrow> (r\<lparr>rn_task := t\<rparr>, True))"

definition finish_cancelled :: "string \<Rightarrow> run \<Rightarrow> outcome" where
  "finish_cancelled ps r =
    (if tk_status (rn_task r) \<noteq> SCancelled then (r, Some (AppError ''TASK_STATE_CHANGED'' 409))
     else (r\<lparr>rn_task := (rn_task r)\<lparr>tk_provider_status := Some ps, tk_stage := Some ''cancelled''\<rparr>\<rparr>, None))"

definition add_failed :: "crawl_task \<Rightarrow> crawl_task" where
  "add_failed t = t\<lparr>tk_counts := (tk_counts t)\<lparr>ct_failed := ct_failed (tk_counts t) + 1\<rparr>\<rparr>"

text \<open>\<open>state.transition\<close> followed by a commit.\<close>

definition move :: "int \<Rightarrow> string option \<Rightarrow> crawl_status \<Rightarrow> run \<Rightarrow> outcome" where
  "move now err target r =
    (case transition now err target (rn_task r) of
       Inl e \<Rightarrow> (r, Some e)
     | Inr t \<Rightarrow> (r\<lparr>rn_task := t\<rparr>, None))"

section \<open>Saving a batch\<close>

definition no_articles :: "batch \<Rightarrow> counters \<Rightarrow> bool" where
  "no_articles b c \<longleftrightarrow> bs_discovered (bt_stats b) = 0 \<and> bs_fetched (bt_stats b) = 0 \<and> ct_failed c = 0
    \<and> (bt_success b \<or> asc ''NO_ARTICLES'' \<in> set (bt_warnings b))"

definition partial_failed :: "batch \<Rightarrow> counters \<Rightarrow> bool" where
  "partial_failed b c \<longleftrightarrow> \<not> no_articles b c \<and> (ct_failed c \<noteq> 0 \<or> \<not> bt_success b)"

definition conclude :: "int \<Rightarrow> bool \<Rightarrow> batch \<Rightarrow> run \<Rightarrow> outcome" where
  "conclude now is_local b r =
    (let t = rn_task r; c = tk_counts t in
     if partial_failed b c then
       move now (Some (provider_code is_local ''_PARTIAL_FAILED'')) SPartial
         (r\<lparr>rn_task := t\<lparr>tk_provider_status := Some ''partial_failed''\<rparr>\<rparr>)
     else if ct_pending_review c \<noteq> 0 then
       move now None SWaiting (r\<lparr>rn_task := t\<lparr>tk_provider_status := Some ''waiting_review''\<rparr>\<rparr>)
     else
       move now None SCompleted (r\<lparr>rn_task := t\<lparr>tk_provider_status :=
         Some (if no_articles b c then ''no_articles'' else ''completed'')\<rparr>\<rparr>))"

definition source_after :: "int \<Rightarrow> bool \<Rightarrow> batch \<Rightarrow> counters \<Rightarrow> source_info \<Rightarrow> source_info" where
  "source_after now is_local b c so =
    (let so1 = so\<lparr>so_last_crawl := Some now,
           so_last_success := (if partial_failed b c then so_last_success so else Some now)\<rparr> in
     if is_local then so1
     else so1\<lparr>so_coze_status := Some (if partial_failed b c then ''partial_failed''
           else if no_articles b c then ''no_articles'' else ''completed''),
         so_coze_count := length (bt_articles b),
         so_coze_error := (if partial_failed b c then Some ''COZE_PARTIAL_FAILED'' else None)\<rparr>)"

definition save_batch :: "(ustr \<Rightarrow> exn + ustr) \<Rightarrow> (ustr \<Rightarrow> ustr) \<Rightarrow> int \<Rightarrow> bool \<Rightarrow> source_column \<Rightarrow> batch \<Rightarrow>
    run \<Rightarrow> outcome" where
  "save_batch canon sha now is_local col b r =
    (let t = rn_task r;
         (st, c) = persist_batch canon sha now is_local (tk_id t) col b (rn_store r, tk_counts t);
         c' = c\<lparr>ct_pending_review := int (count_pending_documents (tk_id t) (cs_docs st))\<rparr>
     in conclude now is_local b
       (r\<lparr>rn_store := st, rn_source := source_after now is_local b c' (rn_source r),
          rn_task := t\<lparr>tk_counts := c', tk_provider_code := None, tk_provider_message := None\<rparr>\<rparr>))"

section \<open>The local provider\<close>

definition local_failed :: "int \<Rightarrow> run \<Rightarrow> run" where
  "local_failed now r =
    (if tk_status (rn_task r) \<in> {SRunning, SSaving} then
       fst (move now (Some ''LOCAL_PROVIDER_FAILED'') SFailed
         (r\<lparr>rn_task := (add_failed (rn_task r))\<lparr>tk_provider_status := Some ''failed''\<rparr>\<rparr>))
     else r)"

text \<open>The response is the provider's batch before the validator of its statistics.\<close>

definition execute_local :: "env \<Rightarrow> (ustr \<Rightarrow> exn + ustr) \<Rightarrow> (ustr \<Rightarrow> ustr) \<Rightarrow> int \<Rightarrow> source_column \<Rightarrow>
    exn + batch \<Rightarrow> run \<Rightarrow> outcome" where
  "execute_local env canon sha now col response r =
    (case hop env BeforeStart SRunning SRunning ''local_running'' (Some ''local_running'') r of
       (r, False) \<Rightarrow> finish_cancelled ''local_cancelled_before_start'' r
     | (r, True) \<Rightarrow>
       (case
          (case rbind response validate_statistics of
             Inl e \<Rightarrow> (r\<lparr>rn_task := env DuringRemote (rn_task r)\<rparr>, Some e)
           | Inr b \<Rightarrow>
             (case hop env BeforeSave SRunning SSaving ''saving_documents'' None r of
                (r, False) \<Rightarrow> finish_cancelled ''local_completed_discarded_cancelled'' r
              | (r, True) \<Rightarrow> save_batch canon sha now True col b r))
        of
          (r, None) \<Rightarrow> (r, None)
        | (r, Some e) \<Rightarrow> (local_failed now r, Some e)))"

section \<open>The Coze provider\<close>

record coze_settings =
  cz_enabled :: bool
  cz_test :: bool
  cz_batch_url :: ustr
  cz_legacy_url :: ustr
  cz_default :: string

text \<open>The answer of the deployment: \<open>rp_batch\<close> is the strict parse of the body, before its validator.\<close>

record reply =
  rp_http :: nat
  rp_attempts :: nat
  rp_batch :: "exn + batch"
  rp_object :: bool

datatype coze_exn = ProviderError string string nat "nat option" | Raised exn

definition normalize_result :: "string \<Rightarrow> reply \<Rightarrow> coze_exn + batch option" where
  "normalize_result contract rpl =
    (if contract = ''batch_crawl'' then
       (case rbind (rp_batch rpl) validate_statistics of
          Inr b \<Rightarrow> Inr (Some b)
        | Inl e \<Rightarrow> Inl (ProviderError ''COZE_CONTRACT_MISMATCH''
            ''Coze response does not match the configured contract'' 1 None))
     else if rp_object rpl then Inr None
     else Inl (ProviderError ''COZE_CONTRACT_MISMATCH''
            ''Coze response does not match the configured contract'' 1 None))"

definition refuse :: "int \<Rightarrow> string \<Rightarrow> string \<Rightarrow> bool \<Rightarrow> run \<Rightarrow> outcome" where
  "refuse now code msg mark r =
    (let t = add_failed (rn_task r) in
     move now (Some code) SFailed (r\<lparr>rn_task := t\<lparr>tk_provider_code := Some code, tk_provider_message := Some msg,
       tk_provider_status := (if mark then Some ''failed'' else tk_provider_status t)\<rparr>\<rparr>))"

definition set_invoke :: "string \<Rightarrow> run \<Rightarrow> run" where
  "set_invoke s r = r\<lparr>rn_invoke := map_option (\<lambda>i. i\<lparr>iv_status := s\<rparr>) (rn_invoke r)\<rparr>"

text \<open>The end of the \<open>try\<close> block where the row was not as expected.\<close>

definition discard :: "string \<Rightarrow> string \<Rightarrow> run \<Rightarrow> run \<times> coze_exn option" where
  "discard ivs ps r =
    (case finish_cancelled ps (set_invoke ivs r) of (r', e) \<Rightarrow> (r', map_option Raised e))"

definition coze_save :: "env \<Rightarrow> (ustr \<Rightarrow> exn + ustr) \<Rightarrow> (ustr \<Rightarrow> ustr) \<Rightarrow> int \<Rightarrow> source_column \<Rightarrow> string \<Rightarrow>
    reply \<Rightarrow> run \<Rightarrow> run \<times> coze_exn option" where
  "coze_save env canon sha now col contract rpl r =
    (case normalize_result contract rpl of
       Inl e \<Rightarrow> (r, Some e)
     | Inr None \<Rightarrow> (set_invoke ''completed'' r, Some (ProviderError ''COZE_BATCH_CONTRACT_REQUIRED''
         ''batch_crawl requires a strict batch response'' 1 None))
     | Inr (Some b) \<Rightarrow>
         if bt_task_id b \<noteq> show_int (tk_id (rn_task r)) then
           (set_invoke ''completed'' r, Some (ProviderError ''COZE_TASK_ID_MISMATCH''
             ''Coze response task_id does not match the request'' 1 None))
         else
           (case hop env BeforeSave SNormalizing SSaving ''saving_documents'' None (set_invoke ''completed'' r) of
              (r, False) \<Rightarrow> discard ''completed_discarded_cancelled''
                ''remote_completed_local_processing_cancelled'' r
            | (r, True) \<Rightarrow> (case save_batch canon sha now False col b r of
                (r', e) \<Rightarrow> (r', map_option Raised e))))"

definition coze_body :: "env \<Rightarrow> (ustr \<Rightarrow> exn + ustr) \<Rightarrow> (ustr \<Rightarrow> ustr) \<Rightarrow> int \<Rightarrow> source_column \<Rightarrow> string \<Rightarrow>
    coze_exn + reply \<Rightarrow> run \<Rightarrow> run \<times> coze_exn option" where
  "coze_body env canon sha now col contract response r =
    (case hop env BeforeRemote SCalling SCozeRunning ''coze_running'' None r of
       (r, False) \<Rightarrow> discard ''cancelled_before_remote_call'' ''remote_cancelled_before_start'' r
     | (r, True) \<Rightarrow>
       (let r = r\<lparr>rn_task := env DuringRemote (rn_task r)\<rparr> in
        case response of
          Inl e \<Rightarrow> (r, Some e)
        | Inr rpl \<Rightarrow>
          (let r = r\<lparr>rn_invoke := map_option (\<lambda>i. i\<lparr>iv_status := ''response_received'',
                 iv_http := Some (rp_http rpl), iv_attempts := rp_attempts rpl,
                 iv_retries := rp_attempts rpl - 1\<rparr>) (rn_invoke r)\<rparr> in
           if tk_status (rn_task r) = SCancelled then
             discard ''completed_discarded_cancelled'' ''remote_completed_local_processing_cancelled'' r
           else
             (case hop env BeforeNormalize SCozeRunning SNormalizing ''normalizing'' None r of
                (r, False) \<Rightarrow> discard ''completed_discarded_cancelled''
                  ''remote_completed_local_processing_cancelled'' r
              | (r, True) \<Rightarrow> coze_save env canon sha now col contract rpl r))))"

fun error_code_of :: "coze_exn \<Rightarrow> string" where
  "error_code_of (ProviderError code msg n http) = code"
| "error_code_of (Raised (AppError code status)) = code"
| "error_code_of (Raised e) = ''COZE_INTERNAL_ERROR''"

text \<open>The text stored with an error: the message of a provider error, else its code or class.\<close>

fun error_text_of :: "coze_exn \<Rightarrow> string" where
  "error_text_of (ProviderError code msg n http) = msg"
| "error_text_of (Raised (AppError code status)) = code"
| "error_text_of (Raised e) = exn_class e"

definition failed_invocation :: "coze_exn \<Rightarrow> invocation \<Rightarrow> invocation" where
  "failed_invocation x i =
    (case x of
       ProviderError code msg n http \<Rightarrow>
         i\<lparr>iv_status := ''failed'', iv_code := Some code, iv_attempts := max (iv_attempts i) n,
           iv_retries := max (iv_attempts i) n - 1,
           iv_http := (case http of None \<Rightarrow> iv_http i | Some s \<Rightarrow> Some s)\<rparr>
     | Raised e \<Rightarrow> i\<lparr>iv_status := ''failed'', iv_code := Some (error_code_of x)\<rparr>)"

definition coze_handler :: "env \<Rightarrow> int \<Rightarrow> run \<times> coze_exn option \<Rightarrow> outcome" where
  "coze_handler env now out =
    (case out of
       (r, None) \<Rightarrow> (r, None)
     | (r, Some x) \<Rightarrow>
       (let r = r\<lparr>rn_task := env InHandler (rn_task r),
              rn_invoke := map_option (failed_invocation x) (rn_invoke r)\<rparr> in
        if tk_status (rn_task r) = SCancelled then finish_cancelled ''remote_failed_after_local_cancel'' r
        else
          let code = error_code_of x;
              t = (add_failed (rn_task r))\<lparr>tk_provider_code := Some code,
                tk_provider_message := Some (error_text_of x), tk_provider_status := Some ''failed'',
                tk_error := Some (case x of ProviderError c m n h \<Rightarrow> m | Raised e \<Rightarrow> code)\<rparr>;
              r = r\<lparr>rn_task := t, rn_source := (rn_source r)\<lparr>so_coze_status := Some ''failed'',
                so_coze_error := Some code\<rparr>\<rparr>
          in if tk_status t \<in> {SFailed, SCompleted, SPartial} then (r, None)
             else move now (Some code) SFailed r))"

definition execute_coze :: "env \<Rightarrow> (ustr \<Rightarrow> exn + ustr) \<Rightarrow> (ustr \<Rightarrow> ustr) \<Rightarrow> coze_settings \<Rightarrow> int \<Rightarrow>
    source_column \<Rightarrow> coze_exn + reply \<Rightarrow> run \<Rightarrow> outcome" where
  "execute_coze env canon sha cfg now col response r =
    (if \<not> cz_enabled cfg then refuse now ''COZE_NOT_CONFIGURED'' ''Coze crawling is disabled'' True r
     else
       let contract = (case tk_contract (rn_task r) of
             Some c \<Rightarrow> if c \<noteq> [] then c else cz_default cfg | None \<Rightarrow> cz_default cfg);
           endpoint = (if contract = ''batch_crawl'' then cz_batch_url cfg else cz_legacy_url cfg)
       in if endpoint = [] then
            refuse now (if contract = ''batch_crawl'' then ''COZE_BATCH_WORKFLOW_NOT_PUBLISHED''
              else ''COZE_LEGACY_WORKFLOW_NOT_CONFIGURED'') ''The selected Coze workflow is not published'' False r
          else
            (case hop env BeforeStart SRunning SCalling ''calling_coze'' None r of
               (r, False) \<Rightarrow> finish_cancelled ''remote_cancelled_before_start'' r
             | (r, True) \<Rightarrow>
                 coze_handler env now (coze_body env canon sha now col contract response
                   (r\<lparr>rn_task := (rn_task r)\<lparr>tk_contract := Some contract\<rparr>,
                      rn_invoke := Some \<lparr>iv_status = ''calling'', iv_http = None, iv_attempts = 0,
                        iv_retries = 0, iv_code = None\<rparr>\<rparr>))))"

section \<open>The crawler adapters of the test environment\<close>

text \<open>
  Reached only for a Coze task in the test environment with Coze disabled. The stored file is what
  fetching and saving an attachment gives.
\<close>

record crawled =
  cw_title :: ustr
  cw_url :: ustr
  cw_date :: "ustr option"
  cw_text :: ustr
  cw_raw :: ustr
  cw_attachments :: "(ustr \<times> ustr) list"

definition crawl_date_rx :: rx where
  "crawl_date_rx = seqs [Grp ''1'' (seqs [lit (asc ''20''), rtimes 2 2 Digit]), any_of (asc ''-/.'' @ [24180]),
     Grp ''2'' (rtimes 1 2 Digit), any_of (asc ''-/.'' @ [26376]), Grp ''3'' (rtimes 1 2 Digit)]"

definition parse_date :: "ustr option \<Rightarrow> date option" where
  "parse_date v =
    (case v of
       None \<Rightarrow> None
     | Some s \<Rightarrow>
         if s = [] then None
         else
           let t = replace_all [26085] [] (replace_all [26376] (asc ''-'') (replace_all [24180] (asc ''-'') s))
           in (case re_search crawl_date_rx t of
                 None \<Rightarrow> None
               | Some m \<Rightarrow>
                   (case (m_group m ''1'', m_group m ''2'', m_group m ''3'') of
                      (Some y, Some mo, Some d) \<Rightarrow> mk_date (digits_value y) (digits_value mo) (digits_value d)
                    | _ \<Rightarrow> None)))"

definition url_extension :: "ustr \<Rightarrow> ustr option" where
  "url_extension url =
    (if 46 \<in> set (last (split_on 47 url)) then Some (46 # lower (last (split_on 46 url))) else None)"

definition download_attachment :: "(ustr \<Rightarrow> exn + stored_file) \<Rightarrow> int \<Rightarrow> ustr \<times> ustr \<Rightarrow> attachment_row" where
  "download_attachment fetch i nu =
    (case nu of (name, url) \<Rightarrow>
     let base = \<lparr>at_document = i, at_name = name, at_url = url, at_status = ''pending'', at_text = None,
       at_method = None, at_ocr = False, at_error = None, at_extension = url_extension url, at_file = None\<rparr> in
     case fetch url of
       Inr f \<Rightarrow> base\<lparr>at_status := ''completed'', at_file := Some f\<rparr>
     | Inl e \<Rightarrow> base\<lparr>at_status := ''failed'', at_error := Some (asc (exn_class e))\<rparr>)"

record source_place =
  sp_region :: "ustr option"
  sp_city :: "ustr option"

definition crawled_document :: "(ustr \<Rightarrow> ustr) \<Rightarrow> int \<Rightarrow> source_column \<Rightarrow> source_place \<Rightarrow> ustr \<Rightarrow> int \<Rightarrow>
    crawled \<Rightarrow> document" where
  "crawled_document sha now col place canonical i w =
    \<lparr>dm_id = i, dm_source = sc_source col, dm_column = Some (sc_id col), dm_canonical = canonical,
     dm_attrs = [(''title'', PStr (cw_title w)), (''source_url'', PStr (cw_url w)),
       (''publish_date'', (case parse_date (cw_date w) of None \<Rightarrow> PNone | Some d \<Rightarrow> PDate d)),
       (''region'', opt_str (sp_region place)), (''city'', opt_str (sp_city place)),
       (''content'', PStr (cw_text w)), (''raw_content'', PStr (cw_raw w)),
       (''content_hash'', PStr (sha (cw_text w))), (''word_count'', PInt (int (length (cw_text w)))),
       (''language'', language_of (cw_text w))],
     dm_quality = None, dm_rule = ''pending'', dm_llm = ''pending'', dm_manual = ''pending'',
     dm_final = ''pending'', dm_index = ''pending'', dm_version = 1, dm_last_crawl = now\<rparr>"

fun save_crawled :: "(ustr \<Rightarrow> exn + ustr) \<Rightarrow> (ustr \<Rightarrow> ustr) \<Rightarrow> (ustr \<Rightarrow> exn + stored_file) \<Rightarrow> int \<Rightarrow> int \<Rightarrow>
    source_column \<Rightarrow> source_place \<Rightarrow> crawled list \<Rightarrow> crawl_store \<times> counters \<Rightarrow> exn + crawl_store \<times> counters" where
  "save_crawled canon sha fetch now task col place [] sc = Inr sc"
| "save_crawled canon sha fetch now task col place (w # ws) (st, c) =
    (let c = c\<lparr>ct_fetched := ct_fetched c + 1\<rparr> in
     rbind (canon (cw_url w)) (\<lambda>u.
     case find_document (sc_id col) u (cs_docs st) of
       Some d \<Rightarrow> save_crawled canon sha fetch now task col place ws
         (st\<lparr>cs_docs := put_doc (d\<lparr>dm_last_crawl := now\<rparr>) (cs_docs st)\<rparr>, c\<lparr>ct_url_dup := ct_url_dup c + 1\<rparr>)
     | None \<Rightarrow>
       (let i = ds_next (cs_docs st);
            d = crawled_document sha now col place u i w;
            ds = put_doc d ((cs_docs st)\<lparr>ds_next := i + 1\<rparr>)
        in save_crawled canon sha fetch now task col place ws
          (st\<lparr>cs_docs := add_lineage (Some task) None d None ds,
              cs_attachments := cs_attachments st @ map (download_attachment fetch i) (cw_attachments w)\<rparr>,
           c\<lparr>ct_success := ct_success c + 1\<rparr>))))"

definition execute_adapter :: "env \<Rightarrow> (ustr \<Rightarrow> exn + ustr) \<Rightarrow> (ustr \<Rightarrow> ustr) \<Rightarrow> (ustr \<Rightarrow> exn + stored_file) \<Rightarrow> int \<Rightarrow>
    source_column \<Rightarrow> source_place \<Rightarrow> exn + crawled list \<Rightarrow> run \<Rightarrow> outcome" where
  "execute_adapter env canon sha fetch now col place response r =
    (case response of
       Inl e \<Rightarrow> (r\<lparr>rn_task := env DuringRemote (rn_task r)\<rparr>, Some e)
     | Inr ws \<Rightarrow>
       (case hop env BeforeSave SRunning SSaving ''saving_documents'' None r of
          (r, False) \<Rightarrow> finish_cancelled ''crawl_completed_discarded_cancelled'' r
        | (r, True) \<Rightarrow>
          (let t = rn_task r in
           case save_crawled canon sha fetch now (tk_id t) col place ws
               (rn_store r, (tk_counts t)\<lparr>ct_discovered := int (length ws)\<rparr>) of
             Inl e \<Rightarrow> (r, Some e)
           | Inr (st, c) \<Rightarrow>
               move now None SCompleted
                 (r\<lparr>rn_store := st,
                    rn_source := (rn_source r)\<lparr>so_last_crawl := Some now, so_last_success := Some now\<rparr>,
                    rn_task := t\<lparr>tk_counts := c\<lparr>ct_pending_review := ct_success c\<rparr>\<rparr>\<rparr>))))"

section \<open>The claim\<close>

record answers =
  an_local :: "exn + batch"
  an_coze :: "coze_exn + reply"
  an_adapter :: "exn + crawled list"

text \<open>The handler around the providers.\<close>

definition run_failed :: "int \<Rightarrow> outcome \<Rightarrow> outcome" where
  "run_failed now out =
    (case out of
       (r, None) \<Rightarrow> (r, None)
     | (r, Some e) \<Rightarrow>
         (if tk_status (rn_task r) \<in> {SRunning, SSaving} then
            fst (move now (Some (exn_class e)) SFailed (r\<lparr>rn_task := add_failed (rn_task r)\<rparr>))
          else r, Some e))"

definition execute :: "env \<Rightarrow> (ustr \<Rightarrow> exn + ustr) \<Rightarrow> (ustr \<Rightarrow> ustr) \<Rightarrow> (ustr \<Rightarrow> exn + stored_file) \<Rightarrow>
    coze_settings \<Rightarrow> int \<Rightarrow> source_column \<Rightarrow> source_place \<Rightarrow> answers \<Rightarrow> run \<Rightarrow> outcome" where
  "execute env canon sha fetch cfg now col place an r =
    (let row = env BeforeClaim (rn_task r) in
     case claim_row now row of
       None \<Rightarrow> (r\<lparr>rn_task := row\<rparr>, Some (AppError ''TASK_ALREADY_CLAIMED'' 409))
     | Some t \<Rightarrow>
         run_failed now
           (let r = r\<lparr>rn_task := t\<rparr> in
            if tk_provider t = ''local'' then execute_local env canon sha now col (an_local an) r
            else if tk_provider t = ''coze'' \<and> (cz_enabled cfg \<or> \<not> cz_test cfg) then
              execute_coze env canon sha cfg now col (an_coze an) r
            else execute_adapter env canon sha fetch now col place (an_adapter an) r))"

section \<open>What a run leaves behind\<close>

lemma move_legal:
  "target \<in> set (transitions (tk_status (rn_task r))) \<Longrightarrow>
    \<exists>t. move now e target r = (r\<lparr>rn_task := t\<rparr>, None) \<and> tk_status t = target"
  by (rule exI [of _ "enter_status now e target
      ((rn_task r)\<lparr>tk_status := target, tk_stage := Some (status_name target)\<rparr>)"])
    (simp add: move_def transition_def)

lemma move_store [simp]: "rn_store (fst (move now e target r)) = rn_store r"
  by (simp add: move_def split: sum.splits)

lemma hop_cases:
  obtains (ok) t where "advance_row a b ps st (env p (rn_task r)) = Some t"
      "hop env p a b ps st r = (r\<lparr>rn_task := t\<rparr>, True)" "tk_status t = b" "tk_status (env p (rn_task r)) = a"
  | (refused) "hop env p a b ps st r = (r\<lparr>rn_task := env p (rn_task r)\<rparr>, False)"
      "tk_status (env p (rn_task r)) \<noteq> a"
  by (cases "tk_status (env p (rn_task r)) = a") (auto simp: hop_def Let_def advance_row_def)

lemma finish_cancelled_store [simp]: "rn_store (fst (finish_cancelled ps r)) = rn_store r"
  by (simp add: finish_cancelled_def)

lemma discard_store [simp]: "rn_store (fst (discard i ps r)) = rn_store r"
  by (simp add: discard_def set_invoke_def case_prod_beta)

text \<open>
  A function of a run either leaves the documents, reviews, attachments and failures as they are,
  or it saved: then it raises nothing, the task is in a final status of saving, and the tables are
  in order.
\<close>

definition saved_or_same :: "crawl_store \<Rightarrow> (crawl_task \<Rightarrow> bool) \<Rightarrow> run \<times> 'x option \<Rightarrow> bool" where
  "saved_or_same st may out \<longleftrightarrow> rn_store (fst out) = st
    \<or> snd out = None \<and> tk_status (rn_task (fst out)) \<in> {SWaiting, SCompleted, SPartial}
      \<and> (crawl_ok st \<longrightarrow> crawl_ok (rn_store (fst out))) \<and> (\<exists>t. may t)"

lemma same_store: "rn_store (fst out) = st \<Longrightarrow> saved_or_same st may out"
  by (simp add: saved_or_same_def)

lemma conclude_status:
  assumes "tk_status (rn_task r) = SSaving"
  shows "snd (conclude now l b r) = None
    \<and> tk_status (rn_task (fst (conclude now l b r))) =
      (if partial_failed b (tk_counts (rn_task r)) then SPartial
       else if ct_pending_review (tk_counts (rn_task r)) \<noteq> 0 then SWaiting else SCompleted)
    \<and> rn_store (fst (conclude now l b r)) = rn_store r"
  using assms by (simp add: conclude_def Let_def move_def transition_def)

lemma save_batch_saved:
  assumes "tk_status (rn_task r) = SSaving" "rn_store r = st" "may t"
  shows "saved_or_same st may (save_batch canon sha now l col b r)"
proof -
  obtain st' c where p: "persist_batch canon sha now l (tk_id (rn_task r)) col b (rn_store r, tk_counts (rn_task r)) = (st', c)"
    by (rule prod.exhaust)
  let ?r = "r\<lparr>rn_store := st', rn_source := source_after now l b
      (c\<lparr>ct_pending_review := int (count_pending_documents (tk_id (rn_task r)) (cs_docs st'))\<rparr>) (rn_source r),
      rn_task := (rn_task r)\<lparr>tk_counts := c\<lparr>ct_pending_review := int (count_pending_documents (tk_id (rn_task r)) (cs_docs st'))\<rparr>,
      tk_provider_code := None, tk_provider_message := None\<rparr>\<rparr>"
  have s: "save_batch canon sha now l col b r = conclude now l b ?r"
    using p by (simp add: save_batch_def Let_def)
  have "crawl_ok st \<longrightarrow> crawl_ok st'" using persist_batch_ok [of st canon sha now l "tk_id (rn_task r)" col b] p assms(2)
    by (metis fst_conv)
  then show ?thesis unfolding s saved_or_same_def using conclude_status [of ?r now l b] assms by auto
qed

lemma saved_after_error: "saved_or_same st may (r, Some e) \<Longrightarrow> rn_store r = st"
  by (simp add: saved_or_same_def)

lemma local_failed_store [simp]: "rn_store (local_failed now r) = rn_store r"
  by (simp add: local_failed_def)

text \<open>\<open>unspoilt env\<close> are the rows that let the last conditional update through.\<close>

definition unspoilt :: "env \<Rightarrow> crawl_task \<Rightarrow> bool" where
  "unspoilt env t \<longleftrightarrow> tk_status (env BeforeSave t) \<in> {SRunning, SNormalizing}"

lemma save_step:
  assumes "rn_store x = st"
  shows "saved_or_same st (unspoilt env)
      (case hop env BeforeSave SRunning SSaving ''saving_documents'' None x of
        (r, False) \<Rightarrow> finish_cancelled ps r
      | (r, True) \<Rightarrow> save_batch canon sha now l col b r)"
proof (cases rule: hop_cases [of SRunning SSaving "''saving_documents''" None env BeforeSave x])
  case (ok t)
  then have "unspoilt env (rn_task x)" by (simp add: unspoilt_def)
  then have "saved_or_same st (unspoilt env) (save_batch canon sha now l col b (x\<lparr>rn_task := t\<rparr>))"
    using ok(3) assms by (intro save_batch_saved) simp_all
  then show ?thesis using ok(2) by simp
next
  case refused
  then show ?thesis using assms by (simp add: saved_or_same_def)
qed

lemma local_wrap:
  "saved_or_same st may out \<Longrightarrow>
    saved_or_same st may (case out of (r, None) \<Rightarrow> (r, None) | (r, Some e) \<Rightarrow> (local_failed now r, Some (e :: exn)))"
  by (cases out; cases "snd out") (auto simp: same_store dest: saved_after_error)

lemma execute_local_saved:
  assumes "rn_store r = st"
  shows "saved_or_same st (unspoilt env) (execute_local env canon sha now col response r)"
proof (cases rule: hop_cases [of SRunning SRunning "''local_running''" "Some ''local_running''" env BeforeStart r])
  case (ok t)
  let ?x = "r\<lparr>rn_task := t\<rparr>"
  have "saved_or_same st (unspoilt env)
      (case rbind response validate_statistics of
         Inl e \<Rightarrow> (?x\<lparr>rn_task := env DuringRemote (rn_task ?x)\<rparr>, Some e)
       | Inr b \<Rightarrow>
         (case hop env BeforeSave SRunning SSaving ''saving_documents'' None ?x of
            (r, False) \<Rightarrow> finish_cancelled ''local_completed_discarded_cancelled'' r
          | (r, True) \<Rightarrow> save_batch canon sha now True col b r))"
    using assms save_step [of "r\<lparr>rn_task := t\<rparr>" st]
    by (cases "rbind response validate_statistics") (simp_all add: saved_or_same_def)
  from local_wrap [OF this, of now] show ?thesis
    by (simp only: execute_local_def ok(2) prod.case bool.case)
next
  case refused
  then show ?thesis using assms by (simp add: execute_local_def saved_or_same_def)
qed

lemma saved_map_error: "saved_or_same st may (r, map_option f e) = saved_or_same st may (r, e)"
  by (simp add: saved_or_same_def)

lemma coze_save_saved:
  assumes "rn_store r = st"
  shows "saved_or_same st (unspoilt env) (coze_save env canon sha now col contract rpl r)"
proof -
  let ?r = "set_invoke ''completed'' r"
  have "saved_or_same st (unspoilt env)
      (case hop env BeforeSave SNormalizing SSaving ''saving_documents'' None ?r of
        (r, False) \<Rightarrow> discard ''completed_discarded_cancelled'' ''remote_completed_local_processing_cancelled'' r
      | (r, True) \<Rightarrow> (case save_batch canon sha now False col b r of (r', e) \<Rightarrow> (r', map_option Raised e)))" for b
  proof (cases rule: hop_cases [of SNormalizing SSaving "''saving_documents''" None env BeforeSave ?r])
    case (ok t)
    then have "unspoilt env (rn_task ?r)" by (simp add: unspoilt_def)
    then have "saved_or_same st (unspoilt env) (save_batch canon sha now False col b (?r\<lparr>rn_task := t\<rparr>))"
      using ok(3) assms by (intro save_batch_saved) (simp_all add: set_invoke_def)
    then show ?thesis using ok(2) by (simp add: case_prod_beta saved_map_error)
  next
    case refused
    then show ?thesis using assms by (simp add: saved_or_same_def set_invoke_def)
  qed
  then show ?thesis using assms
    by (simp add: coze_save_def saved_or_same_def set_invoke_def split: sum.splits option.splits)
qed

lemma coze_body_saved:
  assumes "rn_store r = st"
  shows "saved_or_same st (unspoilt env) (coze_body env canon sha now col contract response r)"
proof (cases rule: hop_cases [of SCalling SCozeRunning "''coze_running''" None env BeforeRemote r])
  case refused
  then show ?thesis using assms by (simp add: coze_body_def saved_or_same_def)
next
  case (ok t)
  show ?thesis
  proof (cases response)
    case (Inl e)
    then show ?thesis using assms ok(2) by (simp add: coze_body_def saved_or_same_def)
  next
    case (Inr rpl)
    let ?r = "r\<lparr>rn_task := env DuringRemote t,
      rn_invoke := map_option (\<lambda>i. i\<lparr>iv_status := ''response_received'', iv_http := Some (rp_http rpl),
        iv_attempts := rp_attempts rpl, iv_retries := rp_attempts rpl - 1\<rparr>) (rn_invoke r)\<rparr>"
    show ?thesis
    proof (cases rule: hop_cases [of SCozeRunning SNormalizing "''normalizing''" None env BeforeNormalize ?r])
      case refused
      then show ?thesis using assms ok(2) Inr by (simp add: coze_body_def Let_def saved_or_same_def)
    next
      case ok': (ok t')
      have "saved_or_same st (unspoilt env) (coze_save env canon sha now col contract rpl (?r\<lparr>rn_task := t'\<rparr>))"
        using assms by (intro coze_save_saved) simp
      then show ?thesis using assms ok(2) ok'(2) Inr
        by (simp add: coze_body_def Let_def) (simp add: saved_or_same_def)
    qed
  qed
qed

lemma coze_handler_saved: "saved_or_same st may out \<Longrightarrow> saved_or_same st may (coze_handler env now out)"
proof (cases out)
  case (Pair r e)
  assume s: "saved_or_same st may out"
  show ?thesis
  proof (cases e)
    case None
    then show ?thesis using s Pair by (simp add: coze_handler_def saved_or_same_def)
  next
    case (Some x)
    then have "rn_store r = st" using s Pair by (simp add: saved_or_same_def)
    then show ?thesis using Pair Some by (intro same_store) (simp add: coze_handler_def Let_def)
  qed
qed

lemma refuse_store [simp]: "rn_store (fst (refuse now code msg m r)) = rn_store r"
  by (simp add: refuse_def Let_def)

lemma execute_coze_saved:
  assumes "rn_store r = st"
  shows "saved_or_same st (unspoilt env) (execute_coze env canon sha cfg now col response r)"
proof -
  have "saved_or_same st (unspoilt env)
     (case hop env BeforeStart SRunning SCalling ''calling_coze'' None r of
       (r, False) \<Rightarrow> finish_cancelled ''remote_cancelled_before_start'' r
     | (r, True) \<Rightarrow> coze_handler env now (coze_body env canon sha now col contract response (f r)))"
    if "\<And>r. rn_store (f r) = rn_store r" for f contract
  proof (cases rule: hop_cases [of SRunning SCalling "''calling_coze''" None env BeforeStart r])
    case (ok t)
    then show ?thesis using assms that by (simp add: coze_handler_saved coze_body_saved)
  next
    case refused
    then show ?thesis using assms by (simp add: saved_or_same_def)
  qed
  then show ?thesis using assms by (simp add: execute_coze_def Let_def saved_or_same_def)
qed

lemma save_crawled_ok:
  "crawl_ok (fst sc) \<Longrightarrow> save_crawled canon sha fetch now task col place ws sc = Inr sc' \<Longrightarrow> crawl_ok (fst sc')"
proof (induction canon sha fetch now task col place ws sc rule: save_crawled.induct)
  case (1 canon sha fetch now task col place sc)
  then show ?case by simp
next
  case (2 canon sha fetch now task col place w ws st c)
  obtain u where u: "canon (cw_url w) = Inr u" using "2.prems"(2) by (auto simp: Let_def rbind_Inr)
  show ?case
  proof (cases "find_document (sc_id col) u (cs_docs st)")
    case None
    have "crawl_ok (st\<lparr>cs_docs := add_lineage (Some task) None (crawled_document sha now col place u (ds_next (cs_docs st)) w) None
        (put_doc (crawled_document sha now col place u (ds_next (cs_docs st)) w)
          ((cs_docs st)\<lparr>ds_next := ds_next (cs_docs st) + 1\<rparr>)),
        cs_reviews := cs_reviews st,
        cs_attachments := cs_attachments st @ map (download_attachment fetch (ds_next (cs_docs st))) (cw_attachments w)\<rparr>)"
      using "2.prems"(1) None by (intro insert_doc_ok) (simp_all add: crawled_document_def)
    then show ?thesis using 2(1) [OF refl None refl refl refl] "2.prems"(2) u None by (simp add: Let_def)
  next
    case (Some d)
    then show ?thesis using 2(2) [OF refl Some] "2.prems" u touch_doc_ok [OF _ Some] by (simp add: Let_def)
  qed
qed

lemma execute_adapter_saved:
  assumes "rn_store r = st"
  shows "saved_or_same st (unspoilt env) (execute_adapter env canon sha fetch now col place response r)"
proof (cases response)
  case (Inl e)
  then show ?thesis using assms by (simp add: execute_adapter_def saved_or_same_def)
next
  case (Inr ws)
  show ?thesis
  proof (cases rule: hop_cases [of SRunning SSaving "''saving_documents''" None env BeforeSave r])
    case refused
    then show ?thesis using Inr assms by (simp add: execute_adapter_def saved_or_same_def)
  next
    case (ok t)
    show ?thesis
    proof (cases "save_crawled canon sha fetch now (tk_id t) col place ws
        (st, (tk_counts t)\<lparr>ct_discovered := int (length ws)\<rparr>)")
      case (Inl e)
      then show ?thesis using Inr ok(2) assms by (simp add: execute_adapter_def saved_or_same_def)
    next
      case s: (Inr sc)
      have "crawl_ok st \<longrightarrow> crawl_ok (fst sc)" using save_crawled_ok [OF _ s] by simp
      moreover have "unspoilt env (rn_task r)" using ok(4) by (simp add: unspoilt_def)
      ultimately show ?thesis using Inr ok(2,3) s assms
        by (cases sc) (auto simp: execute_adapter_def saved_or_same_def move_def transition_def)
    qed
  qed
qed

lemma run_failed_saved: "saved_or_same st may out \<Longrightarrow> saved_or_same st may (run_failed now out)"
proof (cases out)
  case (Pair r e)
  assume s: "saved_or_same st may out"
  show ?thesis
  proof (cases e)
    case None
    then show ?thesis using s Pair by (simp add: run_failed_def saved_or_same_def)
  next
    case (Some x)
    then have "rn_store r = st" using s Pair by (simp add: saved_or_same_def)
    then show ?thesis using Pair Some by (intro same_store) (simp add: run_failed_def)
  qed
qed

section \<open>Where an undisturbed run ends\<close>

abbreviation calm :: env where "calm \<equiv> \<lambda>p t. t"

definition ended :: "crawl_status \<Rightarrow> bool" where
  "ended s \<longleftrightarrow> s \<in> {SWaiting, SCompleted, SPartial, SFailed}"

lemma hop_calm: "tk_status (rn_task r) = a \<Longrightarrow>
    \<exists>t. hop calm p a b ps st r = (r\<lparr>rn_task := t\<rparr>, True) \<and> tk_status t = b"
  by (cases rule: hop_cases [of a b ps st calm p r]) auto

lemma save_batch_ends:
  "tk_status (rn_task r) = SSaving \<Longrightarrow>
    snd (save_batch canon sha now l col b r) = None \<and> ended (tk_status (rn_task (fst (save_batch canon sha now l col b r))))"
  by (simp add: save_batch_def Let_def case_prod_beta conclude_status ended_def)

lemma move_ends: "target \<in> set (transitions (tk_status (rn_task r))) \<Longrightarrow> ended target \<Longrightarrow>
    ended (tk_status (rn_task (fst (move now e target r))))"
  using move_legal [of target r now e] by auto

lemma move_failed_ends: "SFailed \<in> set (transitions (tk_status (rn_task r))) \<Longrightarrow>
    ended (tk_status (rn_task (fst (move now e SFailed r))))"
  by (rule move_ends) (simp_all add: ended_def)

lemma local_ends:
  assumes "tk_status (rn_task r) = SRunning"
  shows "ended (tk_status (rn_task (fst (execute_local calm canon sha now col response r))))"
proof -
  obtain t where t: "hop calm BeforeStart SRunning SRunning ''local_running'' (Some ''local_running'') r
      = (r\<lparr>rn_task := t\<rparr>, True)" "tk_status t = SRunning" using hop_calm [OF assms] by blast
  show ?thesis
  proof (cases "rbind response validate_statistics")
    case (Inl e)
    then show ?thesis using t move_ends [of SFailed] by (simp add: execute_local_def local_failed_def add_failed_def ended_def)
  next
    case (Inr b)
    let ?r = "r\<lparr>rn_task := t\<rparr>"
    have "tk_status (rn_task ?r) = SRunning" using t(2) by simp
    then obtain t' where t': "hop calm BeforeSave SRunning SSaving ''saving_documents'' None ?r
        = (?r\<lparr>rn_task := t'\<rparr>, True)" "tk_status t' = SSaving" using hop_calm by blast
    have "snd (save_batch canon sha now True col b (?r\<lparr>rn_task := t'\<rparr>)) = None
        \<and> ended (tk_status (rn_task (fst (save_batch canon sha now True col b (?r\<lparr>rn_task := t'\<rparr>)))))"
      using t'(2) by (intro save_batch_ends) simp
    then show ?thesis using t(1) t'(1) Inr by (simp add: execute_local_def case_prod_beta)
  qed
qed

lemma add_failed_status [simp]: "tk_status (add_failed t) = tk_status t"
  by (simp add: add_failed_def)

lemma refuse_ends: "tk_status (rn_task r) = SRunning \<Longrightarrow> ended (tk_status (rn_task (fst (refuse now code msg m r))))"
  unfolding refuse_def Let_def by (rule move_ends) (simp_all add: ended_def)

text \<open>Undisturbed, the handler of the Coze run gets the task of a step before the end of the run.\<close>

lemma handler_ends:
  assumes "snd out = None \<longrightarrow> ended (tk_status (rn_task (fst out)))"
    and "snd out \<noteq> None \<longrightarrow> tk_status (rn_task (fst out)) \<in> {SRunning, SCalling, SCozeRunning, SNormalizing, SSaving}"
  shows "ended (tk_status (rn_task (fst (coze_handler calm now out))))"
proof (cases out)
  case (Pair r e)
  show ?thesis
  proof (cases e)
    case None
    then show ?thesis using assms(1) Pair by (simp add: coze_handler_def)
  next
    case (Some x)
    have "tk_status (rn_task r) \<in> {SRunning, SCalling, SCozeRunning, SNormalizing, SSaving}"
      using assms(2) Pair Some by simp
    then have st: "tk_status (rn_task r) \<noteq> SCancelled" "tk_status (rn_task r) \<notin> {SFailed, SCompleted, SPartial}"
      "SFailed \<in> set (transitions (tk_status (rn_task r)))" by auto
    then show ?thesis using Pair Some by (simp add: coze_handler_def Let_def move_failed_ends)
  qed
qed

lemma coze_ends:
  assumes "tk_status (rn_task r) = SRunning"
  shows "ended (tk_status (rn_task (fst (execute_coze calm canon sha cfg now col response r))))"
proof -
  have save: "snd (coze_save calm canon sha now col contract rpl x) = None
        \<longrightarrow> ended (tk_status (rn_task (fst (coze_save calm canon sha now col contract rpl x))))"
    "snd (coze_save calm canon sha now col contract rpl x) \<noteq> None
        \<longrightarrow> tk_status (rn_task (fst (coze_save calm canon sha now col contract rpl x))) = SNormalizing"
    if "tk_status (rn_task x) = SNormalizing" for x contract rpl
  proof -
    have "tk_status (rn_task (set_invoke s x)) = SNormalizing" for s using that by (simp add: set_invoke_def)
    then obtain t where "hop calm BeforeSave SNormalizing SSaving ''saving_documents'' None (set_invoke ''completed'' x)
        = ((set_invoke ''completed'' x)\<lparr>rn_task := t\<rparr>, True)" "tk_status t = SSaving" using hop_calm by blast
    then show "snd (coze_save calm canon sha now col contract rpl x) = None
        \<longrightarrow> ended (tk_status (rn_task (fst (coze_save calm canon sha now col contract rpl x))))"
      "snd (coze_save calm canon sha now col contract rpl x) \<noteq> None
        \<longrightarrow> tk_status (rn_task (fst (coze_save calm canon sha now col contract rpl x))) = SNormalizing"
      using that save_batch_ends [of "(set_invoke ''completed'' x)\<lparr>rn_task := t\<rparr>"]
      by (auto simp: coze_save_def set_invoke_def case_prod_beta split: sum.splits option.splits)
  qed
  have body: "snd (coze_body calm canon sha now col contract response x) = None
        \<longrightarrow> ended (tk_status (rn_task (fst (coze_body calm canon sha now col contract response x))))"
    "snd (coze_body calm canon sha now col contract response x) \<noteq> None
        \<longrightarrow> tk_status (rn_task (fst (coze_body calm canon sha now col contract response x))) \<in> {SCozeRunning, SNormalizing}"
    if x: "tk_status (rn_task x) = SCalling" for x contract
  proof -
    obtain t where t: "hop calm BeforeRemote SCalling SCozeRunning ''coze_running'' None x = (x\<lparr>rn_task := t\<rparr>, True)"
      "tk_status t = SCozeRunning" using hop_calm [OF x] by blast
    have hop: "\<exists>t'. hop calm BeforeNormalize SCozeRunning SNormalizing ''normalizing'' None (x\<lparr>rn_task := t, rn_invoke := i\<rparr>)
        = ((x\<lparr>rn_task := t, rn_invoke := i\<rparr>)\<lparr>rn_task := t'\<rparr>, True) \<and> tk_status t' = SNormalizing" for i
      by (rule hop_calm) (simp add: t(2))
    show "snd (coze_body calm canon sha now col contract response x) = None
        \<longrightarrow> ended (tk_status (rn_task (fst (coze_body calm canon sha now col contract response x))))"
      "snd (coze_body calm canon sha now col contract response x) \<noteq> None
        \<longrightarrow> tk_status (rn_task (fst (coze_body calm canon sha now col contract response x))) \<in> {SCozeRunning, SNormalizing}"
    proof (induction response)
      case (Inl e)
      show "snd (coze_body calm canon sha now col contract (Inl e) x) = None
        \<longrightarrow> ended (tk_status (rn_task (fst (coze_body calm canon sha now col contract (Inl e) x))))"
        "snd (coze_body calm canon sha now col contract (Inl e) x) \<noteq> None
        \<longrightarrow> tk_status (rn_task (fst (coze_body calm canon sha now col contract (Inl e) x))) \<in> {SCozeRunning, SNormalizing}"
        using t by (simp_all add: coze_body_def Let_def)
    next
      case (Inr rpl)
      obtain t' where t': "hop calm BeforeNormalize SCozeRunning SNormalizing ''normalizing'' None
          (x\<lparr>rn_task := t, rn_invoke := map_option (\<lambda>i. i\<lparr>iv_status := ''response_received'', iv_http := Some (rp_http rpl),
            iv_attempts := rp_attempts rpl, iv_retries := rp_attempts rpl - 1\<rparr>) (rn_invoke x)\<rparr>)
        = ((x\<lparr>rn_task := t, rn_invoke := map_option (\<lambda>i. i\<lparr>iv_status := ''response_received'', iv_http := Some (rp_http rpl),
            iv_attempts := rp_attempts rpl, iv_retries := rp_attempts rpl - 1\<rparr>) (rn_invoke x)\<rparr>)\<lparr>rn_task := t'\<rparr>, True)"
        "tk_status t' = SNormalizing" using hop by blast
      show "snd (coze_body calm canon sha now col contract (Inr rpl) x) = None
        \<longrightarrow> ended (tk_status (rn_task (fst (coze_body calm canon sha now col contract (Inr rpl) x))))"
        "snd (coze_body calm canon sha now col contract (Inr rpl) x) \<noteq> None
        \<longrightarrow> tk_status (rn_task (fst (coze_body calm canon sha now col contract (Inr rpl) x))) \<in> {SCozeRunning, SNormalizing}"
        using t t' save by (simp_all add: coze_body_def Let_def)
    qed
  qed
  obtain t where t: "hop calm BeforeStart SRunning SCalling ''calling_coze'' None r = (r\<lparr>rn_task := t\<rparr>, True)"
    "tk_status t = SCalling" using hop_calm [OF assms] by blast
  have "ended (tk_status (rn_task (fst (coze_handler calm now (coze_body calm canon sha now col contract response
      (r\<lparr>rn_task := t\<lparr>tk_contract := Some contract\<rparr>, rn_invoke := i\<rparr>))))))" for contract i
    using body [of "r\<lparr>rn_task := t\<lparr>tk_contract := Some contract\<rparr>, rn_invoke := i\<rparr>"] t(2) by (intro handler_ends) auto
  then show ?thesis using refuse_ends [OF assms] t(1) by (simp add: execute_coze_def Let_def)
qed

lemma adapter_ends:
  assumes "tk_status (rn_task r) = SRunning"
  shows "(if snd (execute_adapter calm canon sha fetch now col place response r) = None
      then ended (tk_status (rn_task (fst (execute_adapter calm canon sha fetch now col place response r))))
      else tk_status (rn_task (fst (execute_adapter calm canon sha fetch now col place response r))) \<in> {SRunning, SSaving})"
proof (cases response)
  case (Inl e)
  then show ?thesis using assms by (simp add: execute_adapter_def)
next
  case (Inr ws)
  obtain t where t: "hop calm BeforeSave SRunning SSaving ''saving_documents'' None r = (r\<lparr>rn_task := t\<rparr>, True)"
    "tk_status t = SSaving" using hop_calm [OF assms] by blast
  then show ?thesis using Inr
    by (cases "save_crawled canon sha fetch now (tk_id t) col place ws
        (rn_store r, (tk_counts t)\<lparr>ct_discovered := int (length ws)\<rparr>)")
      (auto simp: execute_adapter_def move_def transition_def ended_def)
qed

lemma run_failed_ends:
  assumes "snd out = None \<longrightarrow> ended (tk_status (rn_task (fst out)))"
    and "snd out \<noteq> None \<longrightarrow> tk_status (rn_task (fst out)) \<in> {SRunning, SSaving} \<or> ended (tk_status (rn_task (fst out)))"
  shows "ended (tk_status (rn_task (fst (run_failed now out))))"
proof (cases out)
  case (Pair r e)
  show ?thesis
  proof (cases "tk_status (rn_task r) \<in> {SRunning, SSaving}")
    case True
    then have "SFailed \<in> set (transitions (tk_status (rn_task r)))" by auto
    then have "ended (tk_status (rn_task (fst (move now (Some (exn_class x)) SFailed (r\<lparr>rn_task := add_failed (rn_task r)\<rparr>)))))" for x
      by (intro move_failed_ends) simp
    then show ?thesis using True assms(1) Pair by (cases e) (simp_all add: run_failed_def)
  next
    case False
    then show ?thesis using assms Pair by (cases e) (simp_all add: run_failed_def)
  qed
qed

section \<open>Properties of a run\<close>


text \<open>
  C2. A run of a pending or queued task that no other transaction disturbs always takes the task
  out of its active states: whatever the provider answers or raises, the task ends waiting for
  review, completed, partially failed or failed.
\<close>

theorem undisturbed_run_ends:
  assumes "tk_status (rn_task r) \<in> {SPending, SQueued}"
  shows "tk_status (rn_task (fst (execute calm canon sha fetch cfg now col place an r)))
    \<in> {SWaiting, SCompleted, SPartial, SFailed}"
proof -
  obtain t where t: "claim_row now (rn_task r) = Some t" "tk_status t = SRunning"
    using assms by (simp add: claim_row_def)
  let ?r = "r\<lparr>rn_task := t\<rparr>"
  have r: "tk_status (rn_task ?r) = SRunning" using t(2) by simp
  have "ended (tk_status (rn_task (fst (run_failed now (execute_local calm canon sha now col (an_local an) ?r)))))"
    using local_ends [OF r] by (intro run_failed_ends) simp_all
  moreover have "ended (tk_status (rn_task (fst (run_failed now (execute_coze calm canon sha cfg now col (an_coze an) ?r)))))"
    using coze_ends [OF r] by (intro run_failed_ends) simp_all
  moreover have "ended (tk_status (rn_task (fst (run_failed now (execute_adapter calm canon sha fetch now col place (an_adapter an) ?r)))))"
    using adapter_ends [OF r, of canon sha fetch now col place "an_adapter an"]
    by (intro run_failed_ends) (auto split: if_splits)
  ultimately have "ended (tk_status (rn_task (fst (execute calm canon sha fetch cfg now col place an r))))"
    using t(1) by (simp add: execute_def Let_def)
  then show ?thesis by (simp add: ended_def)
qed

definition sample_source :: source_info where
  "sample_source = \<lparr>so_last_crawl = None, so_last_success = None, so_coze_status = None, so_coze_count = 0,
     so_coze_error = None\<rparr>"

lemma undisturbed_run_ends_witness:
  "tk_status (rn_task (fst (execute calm Inr id (\<lambda>u. Inl (OtherError ''FetchError''))
      \<lparr>cz_enabled = True, cz_test = False, cz_batch_url = asc ''https'', cz_legacy_url = [], cz_default = ''batch_crawl''\<rparr>
      9 sample_column \<lparr>sp_region = None, sp_city = None\<rparr>
      \<lparr>an_local = Inl (OtherError ''x''), an_coze = Inl (ProviderError ''COZE_TIMEOUT'' ''timed out'' 3 None),
        an_adapter = Inr []\<rparr>
      \<lparr>rn_task = fresh_task, rn_store = empty_crawl, rn_source = sample_source, rn_invoke = None\<rparr>)))
    \<in> {SWaiting, SCompleted, SPartial, SFailed}"
  by (rule undisturbed_run_ends) (simp add: fresh_task_def)

end
