(* ===== verification/CrawlQueue.thy ===== *)
theory CrawlQueue
  imports CrawlService
begin

text \<open>
  The other operations of \<open>backend/app/services/crawl.py\<close>: creating and cancelling a task, handing
  it to the queue, retrying it as a whole, and retrying one failed URL with its back-off.
\<close>

section \<open>Creating a task\<close>

record column_row =
  cl_id :: int
  cl_enabled :: bool
  cl_source_enabled :: bool
  cl_provider :: string
  cl_contract :: "string option"

record task_request =
  tr_column :: int
  tr_provider :: "string option"
  tr_contract_mode :: "string option"
  tr_provider_contract :: "string option"

definition str_or :: "string option \<Rightarrow> string \<Rightarrow> string" where
  "str_or a b = (case a of Some x \<Rightarrow> if x \<noteq> [] then x else b | None \<Rightarrow> b)"

definition new_task :: "int \<Rightarrow> int \<Rightarrow> string \<Rightarrow> string \<Rightarrow> crawl_task" where
  "new_task i col provider contract =
    \<lparr>tk_id = i, tk_column = col, tk_status = SPending, tk_stage = None, tk_provider = provider,
     tk_contract = Some contract, tk_retries = 0, tk_started = None, tk_finished = None,
     tk_completed = None, tk_next_retry = None, tk_error = None, tk_provider_status = None,
     tk_provider_code = None, tk_provider_message = None, tk_provider_task = None,
     tk_execution = None, tk_counts = reset_progress\<rparr>"

definition create_task :: "string \<Rightarrow> column_row list \<Rightarrow> int \<Rightarrow> task_request \<Rightarrow> exn + crawl_task" where
  "create_task default_contract columns i q =
    (case find (\<lambda>c. cl_id c = tr_column q) columns of
       None \<Rightarrow> Inl (NotFoundError ''SourceColumn'')
     | Some c \<Rightarrow>
       if \<not> cl_enabled c \<or> \<not> cl_source_enabled c then Inl (AppError ''SOURCE_DISABLED'' 409)
       else
         let provider = str_or (tr_provider q) (cl_provider c);
             requested = (case tr_contract_mode q of
               Some m \<Rightarrow> if m \<noteq> [] then Some m else tr_provider_contract q | None \<Rightarrow> tr_provider_contract q)
         in if provider = ''playwright'' then Inl (AppError ''CRAWL_PROVIDER_NOT_IMPLEMENTED'' 422)
            else if provider = ''local'' then
              (if requested = Some ''legacy_single_article'' then Inl (AppError ''LOCAL_CONTRACT_UNSUPPORTED'' 422)
               else Inr (new_task i (tr_column q) provider ''batch_crawl''))
            else
              let contract = str_or requested (str_or (cl_contract c) default_contract) in
              if provider = ''coze'' \<and> contract = ''legacy_single_article''
              then Inl (AppError ''COZE_LEGACY_SINGLE_ARTICLE_ONLY'' 422)
              else Inr (new_task i (tr_column q) provider contract))"

section \<open>Retry, queue, cancellation\<close>

definition retry_task :: "int \<Rightarrow> crawl_task \<Rightarrow> exn + crawl_task" where
  "retry_task now t =
    (case transition now None SPending t of
       Inl e \<Rightarrow> Inl (AppError ''INVALID_TASK_STATE'' 409)
     | Inr t' \<Rightarrow> Inr (t'\<lparr>tk_retries := tk_retries t' + 1\<rparr>))"

definition mark_queue_failure :: "int \<Rightarrow> string \<Rightarrow> crawl_task \<Rightarrow> exn + crawl_task" where
  "mark_queue_failure now error_type t =
    (if tk_status t \<notin> {SPending, SQueued} then Inr t
     else rbind (transition now (Some (''TASK_QUEUE_UNAVAILABLE:'' @ error_type)) SFailed t) (\<lambda>t'.
       Inr ((add_failed t')\<lparr>tk_provider_code := Some ''TASK_QUEUE_UNAVAILABLE'',
         tk_provider_message := Some (''Crawl task could not be queued: '' @ error_type),
         tk_provider_status := Some ''failed''\<rparr>)))"

definition mark_queued :: "crawl_task \<Rightarrow> crawl_task" where
  "mark_queued t = (case advance_row SPending SQueued ''queued'' None t of Some t' \<Rightarrow> t' | None \<Rightarrow> t)"

definition cancel_note :: "crawl_task \<Rightarrow> string \<times> string option" where
  "cancel_note t =
    (if tk_status t \<in> {SCalling, SCozeRunning, SNormalizing} then
       (''cancel_requested_local_only'', Some (''The synchronous Coze request cannot be cancelled remotely; ''
          @ ''local normalization and document saving will be skipped.''))
     else if tk_status t = SRunning \<and> tk_provider_status t = Some ''local_running'' then
       (''cancel_requested_local_only'', Some (''The local crawl cannot interrupt an in-flight fetch; ''
          @ ''document saving will be skipped when it returns.''))
     else (''cancelled_before_start'', None))"

text \<open>
  \<open>others (2 * n + 1)\<close> is what other transactions do before the row is read with \<open>n\<close> attempts left
  after this one, \<open>others (2 * n)\<close> what they do between the read and the conditional update.
\<close>

fun cancel_attempts :: "(nat \<Rightarrow> crawl_task \<Rightarrow> crawl_task) \<Rightarrow> int \<Rightarrow> nat \<Rightarrow> crawl_task \<Rightarrow> crawl_task \<times> exn option" where
  "cancel_attempts others now 0 t = (t, Some (AppError ''TASK_STATE_CHANGED'' 409))"
| "cancel_attempts others now (Suc n) t =
    (let seen = others (2 * n + 1) t in
     if SCancelled \<notin> set (transitions (tk_status seen)) then (seen, Some (AppError ''INVALID_TASK_STATE'' 409))
     else
       let row = others (2 * n) seen in
       case cancel_row now (tk_status seen) (fst (cancel_note seen)) (snd (cancel_note seen)) row of
         Some t' \<Rightarrow> (t', None)
       | None \<Rightarrow> cancel_attempts others now n row)"

definition cancel_task :: "(nat \<Rightarrow> crawl_task \<Rightarrow> crawl_task) \<Rightarrow> int \<Rightarrow> crawl_task \<Rightarrow> crawl_task \<times> exn option" where
  "cancel_task others now t = cancel_attempts others now 3 t"

section \<open>Retrying one failed URL\<close>

definition get_failure :: "int \<Rightarrow> failure list \<Rightarrow> failure option" where
  "get_failure i fs = find (\<lambda>f. fl_id f = i) fs"

definition set_failure :: "failure \<Rightarrow> failure list \<Rightarrow> failure list" where
  "set_failure f fs = map (\<lambda>g. if fl_id g = fl_id f then f else g) fs"

definition queue_failure_retry :: "int \<Rightarrow> int \<Rightarrow> failure list \<Rightarrow> exn + failure list" where
  "queue_failure_retry task i fs =
    (case get_failure i fs of
       None \<Rightarrow> Inl (NotFoundError ''CrawlTaskFailure'')
     | Some f \<Rightarrow>
       if fl_task f \<noteq> task then Inl (NotFoundError ''CrawlTaskFailure'')
       else if \<not> fl_retryable f then Inl (AppError ''CRAWL_FAILURE_NOT_RETRYABLE'' 409)
       else if fl_status f \<in> {''queued'', ''retrying'', ''succeeded''} then
         Inl (AppError ''CRAWL_FAILURE_ALREADY_HANDLED'' 409)
       else Inr (set_failure (f\<lparr>fl_status := ''queued'', fl_next_retry := None\<rparr>) fs))"

definition mark_failure_queue_error :: "int \<Rightarrow> string \<Rightarrow> int \<Rightarrow> failure list \<Rightarrow> failure list" where
  "mark_failure_queue_error now error_type i fs =
    (case get_failure i fs of
       None \<Rightarrow> fs
     | Some f \<Rightarrow> set_failure (f\<lparr>fl_status := ''failed'',
         fl_message := asc (''TASK_QUEUE_UNAVAILABLE:'' @ error_type), fl_next_retry := Some (now + 60)\<rparr>) fs)"

definition retry_delay :: "nat \<Rightarrow> int" where
  "retry_delay n = min 3600 (60 * 2 ^ min n 6)"

definition fail_failure_retry :: "int \<Rightarrow> string \<Rightarrow> failure \<Rightarrow> run \<Rightarrow> run" where
  "fail_failure_retry now code f r =
    (let f' = f\<lparr>fl_status := ''failed'', fl_code := code,
           fl_next_retry := Some (now + retry_delay (fl_retries f))\<rparr>
     in r\<lparr>rn_store := (rn_store r)\<lparr>cs_failures := set_failure f' (cs_failures (rn_store r))\<rparr>,
          rn_task := (rn_task r)\<lparr>tk_next_retry := fl_next_retry f', tk_stage := Some ''failed_url_retry_failed''\<rparr>\<rparr>)"

text \<open>
  Each article in a savepoint of its own: the articles before the one that raises stay. The
  result is the exception, if any.
\<close>

fun save_retried :: "(ustr \<Rightarrow> exn + ustr) \<Rightarrow> (ustr \<Rightarrow> ustr) \<Rightarrow> int \<Rightarrow> bool \<Rightarrow> int \<Rightarrow> source_column \<Rightarrow> article list \<Rightarrow>
    crawl_store \<times> counters \<Rightarrow> (crawl_store \<times> counters) \<times> exn option" where
  "save_retried canon sha now is_local task col [] sc = (sc, None)"
| "save_retried canon sha now is_local task col (a # as) (st, c) =
    (case save_article canon sha now is_local task col a st of
       Inl e \<Rightarrow> ((st, c), Some e)
     | Inr (st', dup) \<Rightarrow> save_retried canon sha now is_local task col as
         (st', if dup then c\<lparr>ct_url_dup := ct_url_dup c + 1\<rparr> else c))"

definition retry_succeeded :: "int \<Rightarrow> failure \<Rightarrow> batch \<Rightarrow> run \<Rightarrow> run" where
  "retry_succeeded now f b r =
    (let st = (rn_store r)\<lparr>cs_failures := set_failure (f\<lparr>fl_status := ''succeeded'', fl_resolved := Some now,
           fl_next_retry := None\<rparr>) (cs_failures (rn_store r))\<rparr>;
         t = rn_task r; c = tk_counts t;
         c' = c\<lparr>ct_failed := max 0 (ct_failed c - 1), ct_accepted := ct_accepted c + int (bs_accepted (bt_stats b)),
           ct_rejected := ct_rejected c + int (bs_rejected (bt_stats b)),
           ct_pending_review := int (count_pending_documents (tk_id t) (cs_docs st))\<rparr>;
         t' = t\<lparr>tk_counts := c', tk_stage := Some ''failed_url_retry_completed''\<rparr>;
         r' = r\<lparr>rn_store := st, rn_task := t'\<rparr>
     in if count_unresolved (tk_id t) (cs_failures st) \<noteq> 0 then r'
        else
          let u = t'\<lparr>tk_next_retry := None\<rparr> in
          if tk_status u \<noteq> SPartial then r'\<lparr>rn_task := u\<rparr>
          else if ct_pending_review c' \<noteq> 0 then
            fst (move now None SWaiting (r'\<lparr>rn_task := u\<lparr>tk_provider_status := Some ''waiting_review''\<rparr>\<rparr>))
          else fst (move now None SCompleted (r'\<lparr>rn_task := u\<lparr>tk_provider_status := Some ''completed''\<rparr>\<rparr>)))"

definition retry_task_id :: "crawl_task \<Rightarrow> failure \<Rightarrow> ustr" where
  "retry_task_id t f = show_int (tk_id t) @ asc '':failure:'' @ show_int (fl_id f)"

definition unresolved_answer :: "batch option \<Rightarrow> bool" where
  "unresolved_answer ob = (case ob of None \<Rightarrow> True
     | Some b \<Rightarrow> bt_failed b \<noteq> [] \<or> bt_articles b = [] \<or> (\<exists>a \<in> set (bt_articles b). ar_decision a = ArtFailed))"

definition run_failure_retry :: "(ustr \<Rightarrow> exn + ustr) \<Rightarrow> (ustr \<Rightarrow> ustr) \<Rightarrow> int \<Rightarrow> source_column \<Rightarrow>
    coze_exn + reply \<Rightarrow> failure \<Rightarrow> run \<Rightarrow> run" where
  "run_failure_retry canon sha now col response f r =
    (case response of
       Inl e \<Rightarrow> fail_failure_retry now
         (case e of ProviderError code m n h \<Rightarrow> code | Raised x \<Rightarrow> ''LOCAL_FAILED_URL_RETRY_ERROR'') f r
     | Inr rpl \<Rightarrow>
       (case normalize_result ''batch_crawl'' rpl of
          Inl e \<Rightarrow> fail_failure_retry now (error_code_of e) f r
        | Inr ob \<Rightarrow>
          if (case ob of None \<Rightarrow> False | Some b \<Rightarrow> bt_task_id b \<noteq> retry_task_id (rn_task r) f) then
            fail_failure_retry now ''COZE_TASK_ID_MISMATCH'' f r
          else if unresolved_answer ob then fail_failure_retry now ''COZE_RETRY_UNRESOLVED'' f r
          else
            (case ob of None \<Rightarrow> r | Some b \<Rightarrow>
              (case save_retried canon sha now (tk_provider (rn_task r) = ''local'') (tk_id (rn_task r)) col
                  (bt_articles b) (rn_store r, tk_counts (rn_task r)) of
                 ((st, c), e) \<Rightarrow>
                   (let r' = r\<lparr>rn_store := st, rn_task := (rn_task r)\<lparr>tk_counts := c\<rparr>\<rparr> in
                    if e = None then retry_succeeded now f b r'
                    else fail_failure_retry now ''LOCAL_FAILED_URL_RETRY_ERROR'' f r')))))"

definition execute_failed_url :: "(ustr \<Rightarrow> exn + ustr) \<Rightarrow> (ustr \<Rightarrow> ustr) \<Rightarrow> coze_settings \<Rightarrow> int \<Rightarrow> source_column \<Rightarrow>
    coze_exn + reply \<Rightarrow> int \<Rightarrow> run \<Rightarrow> exn + run" where
  "execute_failed_url canon sha cfg now col response i r =
    (case get_failure i (cs_failures (rn_store r)) of
       None \<Rightarrow> Inl (NotFoundError ''CrawlTaskFailure'')
     | Some f \<Rightarrow>
       if fl_status f \<notin> {''queued'', ''pending'', ''failed''} \<or> \<not> fl_retryable f then
         Inl (AppError ''CRAWL_FAILURE_ALREADY_HANDLED'' 409)
       else
         let f1 = f\<lparr>fl_status := ''retrying'', fl_retries := fl_retries f + 1\<rparr>;
             r1 = r\<lparr>rn_store := (rn_store r)\<lparr>cs_failures := set_failure f1 (cs_failures (rn_store r))\<rparr>,
               rn_task := (rn_task r)\<lparr>tk_stage := Some ''retrying_failed_url''\<rparr>\<rparr>
         in if \<not> cz_enabled cfg \<or> cz_batch_url cfg = [] then
              Inr (fail_failure_retry now ''COZE_BATCH_WORKFLOW_NOT_PUBLISHED'' f1 r1)
            else Inr (run_failure_retry canon sha now col response f1 r1))"

section \<open>Lemmas\<close>

lemma retry_delay_bounds: "0 < n \<Longrightarrow> 120 \<le> retry_delay n \<and> retry_delay n \<le> 3600"
proof -
  assume "0 < n"
  then have "(2 :: int) ^ 1 \<le> 2 ^ min n 6" by (intro power_increasing) simp_all
  then show ?thesis by (simp add: retry_delay_def)
qed

lemma retry_delay_mono: "m \<le> n \<Longrightarrow> retry_delay m \<le> retry_delay n"
proof -
  assume "m \<le> n"
  then have "(2 :: int) ^ min m 6 \<le> 2 ^ min n 6" by (intro power_increasing) auto
  then have "60 * (2 :: int) ^ min m 6 \<le> 60 * 2 ^ min n 6" by (rule mult_left_mono) simp
  then show ?thesis unfolding retry_delay_def by (rule min.mono [OF order_refl])
qed

lemma get_set_failure:
  "get_failure i (set_failure f fs) =
    (if i = fl_id f then map_option (\<lambda>_. f) (get_failure i fs) else get_failure i fs)"
  unfolding get_failure_def set_failure_def by (induction fs) auto

lemma get_failure_id: "get_failure i fs = Some f \<Longrightarrow> fl_id f = i \<and> f \<in> set fs"
  by (auto simp: get_failure_def find_Some_iff)

lemma save_article_failures: "save_article canon sha now l task col a st = Inr (st', dup) \<Longrightarrow> cs_failures st' = cs_failures st"
  by (auto simp: save_article_def rbind_Inr Let_def split: option.splits)

lemma save_retried_failures:
  "cs_failures (fst (fst (save_retried canon sha now l task col as sc))) = cs_failures (fst sc)
    \<and> ct_failed (snd (fst (save_retried canon sha now l task col as sc))) = ct_failed (snd sc)"
proof (induction canon sha now l task col as sc rule: save_retried.induct)
  case (2 canon sha now l task col a as st c)
  show ?case
  proof (cases "save_article canon sha now l task col a st")
    case (Inr p)
    obtain st' dup where p: "p = (st', dup)" by (cases p)
    show ?thesis using 2 [OF Inr p [symmetric]] Inr p save_article_failures by fastforce
  qed simp
qed simp

lemma fail_retry_simps [simp]:
  "get_failure (fl_id f) (cs_failures (rn_store (fail_failure_retry now code f r))) =
    map_option (\<lambda>_. f\<lparr>fl_status := ''failed'', fl_code := code,
      fl_next_retry := Some (now + retry_delay (fl_retries f))\<rparr>) (get_failure (fl_id f) (cs_failures (rn_store r)))"
  "tk_status (rn_task (fail_failure_retry now code f r)) = tk_status (rn_task r)"
  "tk_next_retry (rn_task (fail_failure_retry now code f r)) = Some (now + retry_delay (fl_retries f))"
  "ct_failed (tk_counts (rn_task (fail_failure_retry now code f r))) = ct_failed (tk_counts (rn_task r))"
  by (simp_all add: fail_failure_retry_def Let_def get_set_failure)

text \<open>What a retry reports, for the failure and for the task.\<close>

definition retry_failed :: "int \<Rightarrow> failure \<Rightarrow> run \<Rightarrow> run \<Rightarrow> bool" where
  "retry_failed now f r r' \<longleftrightarrow>
    (\<exists>code. get_failure (fl_id f) (cs_failures (rn_store r')) =
       Some (f\<lparr>fl_retries := fl_retries f + 1, fl_status := ''failed'', fl_code := code,
         fl_next_retry := Some (now + retry_delay (fl_retries f + 1))\<rparr>))
    \<and> tk_status (rn_task r') = tk_status (rn_task r)
    \<and> ct_failed (tk_counts (rn_task r')) = ct_failed (tk_counts (rn_task r))"

definition retry_solved :: "int \<Rightarrow> failure \<Rightarrow> run \<Rightarrow> run \<Rightarrow> bool" where
  "retry_solved now f r r' \<longleftrightarrow>
    get_failure (fl_id f) (cs_failures (rn_store r')) =
       Some (f\<lparr>fl_retries := fl_retries f + 1, fl_status := ''succeeded'', fl_resolved := Some now, fl_next_retry := None\<rparr>)
    \<and> ct_failed (tk_counts (rn_task r')) = max 0 (ct_failed (tk_counts (rn_task r)) - 1)
    \<and> (if count_unresolved (tk_id (rn_task r)) (cs_failures (rn_store r')) = 0 \<and> tk_status (rn_task r) = SPartial
       then tk_status (rn_task r') \<in> {SWaiting, SCompleted} else tk_status (rn_task r') = tk_status (rn_task r))"

lemma enter_counts: "target \<in> {SWaiting, SCompleted} \<Longrightarrow> tk_counts (enter_status now e target t) = tk_counts t"
  by auto

lemma retry_succeeded_solved:
  assumes "get_failure (fl_id f) (cs_failures (rn_store r)) = Some g"
  shows "get_failure (fl_id f) (cs_failures (rn_store (retry_succeeded now f b r))) =
       Some (f\<lparr>fl_status := ''succeeded'', fl_resolved := Some now, fl_next_retry := None\<rparr>)
    \<and> ct_failed (tk_counts (rn_task (retry_succeeded now f b r))) = max 0 (ct_failed (tk_counts (rn_task r)) - 1)
    \<and> (if count_unresolved (tk_id (rn_task r)) (cs_failures (rn_store (retry_succeeded now f b r))) = 0
         \<and> tk_status (rn_task r) = SPartial
       then tk_status (rn_task (retry_succeeded now f b r)) \<in> {SWaiting, SCompleted}
       else tk_status (rn_task (retry_succeeded now f b r)) = tk_status (rn_task r))"
  using assms by (simp add: retry_succeeded_def Let_def get_set_failure move_def transition_def)

lemma execute_failed_url_outcome:
  assumes "get_failure i (cs_failures (rn_store r)) = Some f"
    and "execute_failed_url canon sha cfg now col response i r = Inr r'"
  shows "retry_failed now f r r' \<or> retry_solved now f r r'"
proof -
  let ?f = "f\<lparr>fl_status := ''retrying'', fl_retries := fl_retries f + 1\<rparr>"
  let ?r = "r\<lparr>rn_store := (rn_store r)\<lparr>cs_failures := set_failure ?f (cs_failures (rn_store r))\<rparr>,
      rn_task := (rn_task r)\<lparr>tk_stage := Some ''retrying_failed_url''\<rparr>\<rparr>"
  have i: "fl_id f = i" using get_failure_id [OF assms(1)] by simp
  have g: "get_failure (fl_id ?f) (cs_failures (rn_store ?r)) = Some ?f"
    using assms(1) i by (simp add: get_set_failure)
  have failed: "retry_failed now f r (fail_failure_retry now code ?f x)"
    if "cs_failures (rn_store x) = cs_failures (rn_store ?r)" "tk_status (rn_task x) = tk_status (rn_task r)"
      "ct_failed (tk_counts (rn_task x)) = ct_failed (tk_counts (rn_task r))" for code x
  proof -
    have "get_failure (fl_id ?f) (cs_failures (rn_store (fail_failure_retry now code ?f x))) =
        Some (?f\<lparr>fl_status := ''failed'', fl_code := code, fl_next_retry := Some (now + retry_delay (fl_retries ?f))\<rparr>)"
      unfolding fail_retry_simps(1) that(1) g by simp
    then have "\<exists>c. get_failure (fl_id f) (cs_failures (rn_store (fail_failure_retry now code ?f x))) =
        Some (f\<lparr>fl_retries := fl_retries f + 1, fl_status := ''failed'', fl_code := c,
          fl_next_retry := Some (now + retry_delay (fl_retries f + 1))\<rparr>)"
      by (intro exI [of _ code]) simp
    then show ?thesis using that unfolding retry_failed_def by simp
  qed
  have solved: "retry_solved now f r (retry_succeeded now ?f b x)"
    if "cs_failures (rn_store x) = cs_failures (rn_store ?r)" "tk_status (rn_task x) = tk_status (rn_task r)"
      "ct_failed (tk_counts (rn_task x)) = ct_failed (tk_counts (rn_task r))" "tk_id (rn_task x) = tk_id (rn_task r)" for b x
  proof -
    have "get_failure (fl_id ?f) (cs_failures (rn_store x)) = Some ?f" using g that(1) by simp
    from retry_succeeded_solved [OF this, of now b] show ?thesis
      unfolding retry_solved_def that(2-4) by (simp cong: if_cong)
  qed
  have run: "retry_failed now f r (run_failure_retry canon sha now col response ?f ?r)
      \<or> retry_solved now f r (run_failure_retry canon sha now col response ?f ?r)"
  proof (cases response)
    case (Inl e)
    then show ?thesis using failed [of ?r] by (simp add: run_failure_retry_def)
  next
    case (Inr rpl)
    show ?thesis
    proof (cases "normalize_result ''batch_crawl'' rpl")
      case (Inl e)
      then show ?thesis using Inr failed [of ?r] by (simp add: run_failure_retry_def)
    next
      case ob: (Inr ob)
      show ?thesis
      proof (cases "unresolved_answer ob \<or> (case ob of None \<Rightarrow> False | Some b \<Rightarrow> bt_task_id b \<noteq> retry_task_id (rn_task ?r) ?f)")
        case True
        then show ?thesis using Inr ob failed [of ?r] by (auto simp: run_failure_retry_def split: option.splits)
      next
        case False
        then obtain b where b: "ob = Some b" by (cases ob) (simp_all add: unresolved_answer_def)
        obtain st c e where sv: "save_retried canon sha now (tk_provider (rn_task ?r) = ''local'') (tk_id (rn_task ?r)) col
            (bt_articles b) (rn_store ?r, tk_counts (rn_task ?r)) = ((st, c), e)" by (metis surj_pair)
        then have keep: "cs_failures st = cs_failures (rn_store ?r)" "ct_failed c = ct_failed (tk_counts (rn_task ?r))"
          using save_retried_failures by (metis fst_conv, metis fst_conv snd_conv)
        show ?thesis
          using Inr ob b sv False failed [of "?r\<lparr>rn_store := st, rn_task := (rn_task ?r)\<lparr>tk_counts := c\<rparr>\<rparr>"]
            solved [of "?r\<lparr>rn_store := st, rn_task := (rn_task ?r)\<lparr>tk_counts := c\<rparr>\<rparr>" b] keep
          by (simp add: run_failure_retry_def Let_def)
      qed
    qed
  qed
  show ?thesis
    using assms(2) run failed [of ?r] assms(1)
    by (auto simp: execute_failed_url_def Let_def split: if_splits)
qed

text \<open>The rows the other transactions leave while a cancellation tries.\<close>

fun foreign :: "(nat \<Rightarrow> crawl_task \<Rightarrow> crawl_task) \<Rightarrow> nat \<Rightarrow> crawl_task \<Rightarrow> crawl_task list" where
  "foreign others 0 t = [t]"
| "foreign others (Suc n) t = t # others (2 * n + 1) t # foreign others n (others (2 * n) (others (2 * n + 1) t))"

lemma cancel_attempts_outcome:
  "cancel_attempts others now n t = (t', e) \<Longrightarrow>
    (if e = None then tk_status t' = SCancelled else t' \<in> set (foreign others n t))"
proof (induction others now n t rule: cancel_attempts.induct)
  case (2 others now n t)
  then show ?case
    by (auto simp: Let_def split: if_splits option.splits dest: cancel_row_Some)
qed auto

section \<open>Properties\<close>

theorem cancel_decides:
  assumes "cancel_task others now t = (t', e)"
  shows "(e = None \<longrightarrow> tk_status t' = SCancelled)
    \<and> (e \<noteq> None \<longrightarrow> t' \<in> set (foreign others 3 t))
    \<and> ((\<forall>k u. others k u = u) \<longrightarrow>
        (if SCancelled \<in> set (transitions (tk_status t)) then e = None
         else e = Some (AppError ''INVALID_TASK_STATE'' 409) \<and> t' = t))"
proof -
  have "if e = None then tk_status t' = SCancelled else t' \<in> set (foreign others 3 t)"
    using assms cancel_attempts_outcome unfolding cancel_task_def by blast
  moreover have "if SCancelled \<in> set (transitions (tk_status t)) then e = None
         else e = Some (AppError ''INVALID_TASK_STATE'' 409) \<and> t' = t" if "\<forall>k u. others k u = u"
    using assms that by (auto simp: cancel_task_def eval_nat_numeral cancel_row_def split: if_splits)
  ultimately show ?thesis by (simp split: if_splits)
qed

lemma cancel_decides_witness:
  "snd (cancel_task (\<lambda>k u. u) 4 fresh_task) = None \<and> tk_status (fst (cancel_task (\<lambda>k u. u) 4 fresh_task)) = SCancelled"
  using cancel_decides [of "\<lambda>k u. u" 4 fresh_task, OF surjective_pairing] by (simp add: fresh_task_def)


definition failed_page :: failure where
  "failed_page = new_failure 1 (asc ''u'') ''html'' ''COZE_ARTICLE_FAILED'' [] True"

definition failed_run :: run where
  "failed_run = \<lparr>rn_task = fresh_task\<lparr>tk_status := SPartial\<rparr>, rn_store = empty_crawl\<lparr>cs_failures := [failed_page]\<rparr>,
     rn_source = sample_source, rn_invoke = None\<rparr>"


theorem retry_code_collision:
  assumes "f \<in> set (cs_failures (rn_store r))" "g \<in> set (cs_failures (rn_store r))" "fl_id g \<noteq> fl_id f"
    and "fl_task g = fl_task f" "fl_url g = fl_url f" "fl_stage g = fl_stage f" "fl_code g = code"
  shows "\<not> failures_ok (cs_failures (rn_store (fail_failure_retry now code f r)))"
proof -
  let ?f = "f\<lparr>fl_status := ''failed'', fl_code := code, fl_next_retry := Some (now + retry_delay (fl_retries f))\<rparr>"
  let ?fs = "cs_failures (rn_store r)" and ?key = "\<lambda>f. (fl_task f, fl_url f, fl_stage f, fl_code f)"
  have fs: "cs_failures (rn_store (fail_failure_retry now code f r)) = set_failure ?f ?fs"
    by (simp add: fail_failure_retry_def Let_def)
  have "?f \<in> set (set_failure ?f ?fs)" using assms(1) by (force simp: set_failure_def)
  moreover have "g \<in> set (set_failure ?f ?fs)" using assms(2,3) by (force simp: set_failure_def)
  moreover have "?f \<noteq> g" using assms(3) by auto
  moreover have "?key ?f = ?key g" using assms(4-7) by simp
  ultimately show ?thesis unfolding fs failures_ok_def distinct_map inj_on_def by metis
qed

lemma retry_code_collision_witness:
  "\<not> failures_ok (cs_failures (rn_store (fail_failure_retry 9 ''COZE_RETRY_UNRESOLVED'' failed_page
    (failed_run\<lparr>rn_store := empty_crawl\<lparr>cs_failures :=
      [failed_page, failed_page\<lparr>fl_id := 1, fl_code := ''COZE_RETRY_UNRESOLVED''\<rparr>]\<rparr>\<rparr>))))"
  by (rule retry_code_collision [of failed_page _ "failed_page\<lparr>fl_id := 1, fl_code := ''COZE_RETRY_UNRESOLVED''\<rparr>"])
    (simp_all add: failed_page_def new_failure_def)

end
