(* ===== verification/RateLimit.thy ===== *)
theory RateLimit
  imports PyValues
begin

text \<open>
  \<open>backend/app/rate_limit.py\<close>: the fixed-window limiters and the middleware in front of the API.
  The in-memory limiter keeps a dictionary from keys to a window number and a count; the Redis
  limiter decides on the reply of its script, the count of the window's key after \<open>INCR\<close> and the
  time to live. Clocks are rationals. The parser of IP addresses is an argument.

  The locale \<open>window_counter\<close> is what both rest on: a store that knows how many requests a key has
  made in the current window.
\<close>

section \<open>Decisions\<close>

record decision =
  rd_allowed :: bool
  rd_limit :: nat
  rd_remaining :: nat
  rd_reset :: int

definition window_of :: "nat \<Rightarrow> rat \<Rightarrow> int" where
  "window_of ws now = \<lfloor>now / of_nat ws\<rfloor>"

definition reset_after :: "nat \<Rightarrow> rat \<Rightarrow> int" where
  "reset_after ws now = max 1 \<lceil>of_int (window_of ws now + 1) * of_nat ws - now\<rceil>"

lemma reset_after_bounds: "0 < ws \<Longrightarrow> 1 \<le> reset_after ws now \<and> reset_after ws now \<le> int ws"
proof -
  assume ws: "0 < ws"
  let ?w = "window_of ws now"
  have "of_int ?w \<le> now / of_nat ws" by (simp add: window_of_def)
  then have "of_int ?w * of_nat ws \<le> now" using ws by (simp add: pos_le_divide_eq)
  then have "of_int (?w + 1) * of_nat ws - now \<le> (of_nat ws :: rat)" by (simp add: algebra_simps)
  then have "\<lceil>of_int (?w + 1) * of_nat ws - now\<rceil> \<le> int ws" by (simp add: ceiling_le_iff)
  then show ?thesis using ws by (simp add: reset_after_def)
qed

section \<open>The limiter in memory\<close>

type_synonym entries = "(ustr, int \<times> nat) dict"

definition stored_count :: "entries \<Rightarrow> ustr \<Rightarrow> int \<Rightarrow> nat" where
  "stored_count es key w = (case dget es key of None \<Rightarrow> 0 | Some (w', c) \<Rightarrow> if w' = w then c else 0)"

text \<open>The part under the lock: the verdict, the count it leaves and the new entries.\<close>

definition memory_step :: "ustr \<Rightarrow> nat \<Rightarrow> int \<Rightarrow> entries \<Rightarrow> bool \<times> entries" where
  "memory_step key limit w es =
    (let count = stored_count es key w in
     if limit \<le> count then (False, es)
     else
       let es' = dset key (w, count + 1) es
       in (True, if 10000 < length es' then filter (\<lambda>(k, e). fst e = w) es' else es'))"

definition memory_check :: "ustr \<Rightarrow> nat \<Rightarrow> nat \<Rightarrow> rat \<Rightarrow> entries \<Rightarrow> decision \<times> entries" where
  "memory_check key limit ws now es =
    (let w = window_of ws now in
     case memory_step key limit w es of
       (ok, es') \<Rightarrow>
         (\<lparr>rd_allowed = ok, rd_limit = limit,
           rd_remaining = (if ok then limit - (stored_count es key w + 1) else 0),
           rd_reset = reset_after ws now\<rparr>, es'))"

section \<open>The limiter on Redis\<close>

text \<open>The script's reply; \<open>None\<close> when the call raises or the reply is not two integers.\<close>

definition redis_check :: "nat \<Rightarrow> nat \<Rightarrow> rat \<Rightarrow> (int \<times> int) option \<Rightarrow> exn + decision" where
  "redis_check limit ws now reply =
    (case reply of
       None \<Rightarrow> Inl (OtherError ''RateLimitBackendUnavailable'')
     | Some (count, ttl) \<Rightarrow>
       (let reset = (if 0 < ttl then ttl else reset_after ws now) in
        if int limit < count then
          Inr \<lparr>rd_allowed = False, rd_limit = limit, rd_remaining = 0, rd_reset = reset\<rparr>
        else Inr \<lparr>rd_allowed = True, rd_limit = limit, rd_remaining = nat (max 0 (int limit - count)),
            rd_reset = reset\<rparr>))"

definition redis_key :: "ustr \<Rightarrow> nat \<Rightarrow> rat \<Rightarrow> ustr \<Rightarrow> ustr" where
  "redis_key base ws now key =
    base @ [58] @ show_int (int ws) @ [58] @ show_int (window_of ws now) @ [58] @ key"

section \<open>The contract\<close>

text \<open>The verdicts of a check on a list of requests, a key and a window each.\<close>

fun verdicts :: "(ustr \<Rightarrow> nat \<Rightarrow> int \<Rightarrow> 's \<Rightarrow> bool \<times> 's) \<Rightarrow> (ustr \<Rightarrow> nat) \<Rightarrow> 's \<Rightarrow> (ustr \<times> int) list \<Rightarrow> bool list" where
  "verdicts check lm s [] = []"
| "verdicts check lm s ((k, w) # rs) =
    fst (check k (lm k) w s) # verdicts check lm (snd (check k (lm k) w s)) rs"

text \<open>The specification: a request passes when fewer than the limit came before it in its window.\<close>

fun quota :: "(ustr \<Rightarrow> nat) \<Rightarrow> (ustr \<times> int) list \<Rightarrow> (ustr \<times> int) list \<Rightarrow> bool list" where
  "quota lm past [] = []"
| "quota lm past (r # rs) = (count_if ((=) r) past < lm (fst r)) # quota lm (r # past) rs"

text \<open>
  \<open>check\<close> decides a request in window \<open>w\<close> and \<open>spent\<close> counts, for every key, how much of its limit
  it has used in a window. \<open>current s w\<close>: the store \<open>s\<close> has seen no window after \<open>w\<close>.
\<close>

locale window_counter =
  fixes check :: "ustr \<Rightarrow> nat \<Rightarrow> int \<Rightarrow> 's \<Rightarrow> bool \<times> 's"
    and spent :: "'s \<Rightarrow> ustr \<Rightarrow> int \<Rightarrow> nat"
    and current :: "'s \<Rightarrow> int \<Rightarrow> bool"
  assumes verdict: "current s w \<Longrightarrow> fst (check k l w s) \<longleftrightarrow> spent s k w < l"
    and count: "current s w \<Longrightarrow> min l (spent (snd (check k l w s)) k w) = min l (spent s k w + 1)"
    and frame: "current s w \<Longrightarrow> k' \<noteq> k \<Longrightarrow> spent (snd (check k l w s)) k' w = spent s k' w"
    and fresh: "current s w \<Longrightarrow> w < w' \<Longrightarrow> current s w' \<and> spent s k w' = 0"
    and keeps: "current s w \<Longrightarrow> current (snd (check k l w s)) w"
begin

lemma verdicts_quota:
  assumes "sorted (w0 # map snd rs)" "current s w0"
    and "\<And>k. min (lm k) (spent s k w0) = min (lm k) (count_if ((=) (k, w0)) past)"
    and "\<And>r. r \<in> set past \<Longrightarrow> snd r \<le> w0"
  shows "verdicts check lm s rs = quota lm past rs"
  using assms
proof (induction rs arbitrary: s w0 past)
  case Nil
  then show ?case by simp
next
  case (Cons r rs)
  obtain k w where r: "r = (k, w)" by (cases r)
  have le: "w0 \<le> w" and srt: "sorted (w # map snd rs)" using Cons.prems(1) r by auto
  have cur: "current s w" using fresh [OF Cons.prems(2)] Cons.prems(2) le by (cases "w = w0") auto
  have use: "min (lm j) (spent s j w) = min (lm j) (count_if ((=) (j, w)) past)" for j
  proof (cases "w = w0")
    case True
    then show ?thesis using Cons.prems(3) by simp
  next
    case False
    then have "w0 < w" using le by simp
    moreover from this have "count_if ((=) (j, w)) past = 0"
      using Cons.prems(4) by (force simp: count_if_def filter_empty_conv)
    ultimately show ?thesis using fresh [OF Cons.prems(2)] by simp
  qed
  let ?s = "snd (check k (lm k) w s)"
  have "verdicts check lm ?s rs = quota lm (r # past) rs"
  proof (rule Cons.IH [OF srt keeps [OF cur]])
    show "min (lm j) (spent ?s j w) = min (lm j) (count_if ((=) (j, w)) (r # past))" for j
    proof (cases "j = k")
      case True
      then have "min (lm j) (spent ?s j w) = min (lm j) (spent s j w + 1)" using count [OF cur] by simp
      then show ?thesis using use [of j] True r by (simp add: count_if_def)
    next
      case False
      then show ?thesis using frame [OF cur False] use [of j] r by (simp add: count_if_def)
    qed
    show "snd q \<le> w" if "q \<in> set (r # past)" for q
      using that Cons.prems(4) [of q] le r by (cases "q = r") auto
  qed
  moreover have "fst (check k (lm k) w s) \<longleftrightarrow> count_if ((=) r) past < lm k"
    using verdict [OF cur] use [of k] r by (simp add: min_def split: if_splits)
  ultimately show ?case using r by simp
qed

end

section \<open>Both limiters keep it\<close>

definition seen_upto :: "entries \<Rightarrow> int \<Rightarrow> bool" where
  "seen_upto es w \<longleftrightarrow> distinct (dkeys es) \<and> (\<forall>(k, w', c) \<in> set es. w' \<le> w)"

lemma filter_window_get:
  assumes "distinct (dkeys es)"
  shows "stored_count (filter (\<lambda>(k, e). fst e = w) es) k w = stored_count es k w"
proof -
  have "dget (filter (\<lambda>(k, e). fst e = w) es) k =
      (case dget es k of None \<Rightarrow> None | Some e \<Rightarrow> if fst e = w then Some e else None)"
    using assms
  proof (induction es)
    case (Cons x es)
    have "k \<notin> fst ` set es \<Longrightarrow> dget (filter (\<lambda>(k, e). fst e = w) es) k = None"
      by (force simp: map_of_eq_None_iff)
    with Cons show ?case by (cases x) (auto split: option.splits)
  qed simp
  then show ?thesis by (auto simp: stored_count_def split: option.splits)
qed

lemma stored_count_dset:
  "stored_count (dset k (w, n) es) k' w = (if k' = k then n else stored_count es k' w)"
  by (simp add: stored_count_def dget_dset)

lemma stored_count_fresh: "seen_upto es w \<Longrightarrow> w < w' \<Longrightarrow> stored_count es k w' = 0"
  by (auto simp: stored_count_def seen_upto_def split: option.splits dest!: map_of_SomeD)

lemma dset_upto: "seen_upto es w \<Longrightarrow> seen_upto (dset k (w, n) es) w"
proof -
  assume u: "seen_upto es w"
  have d: "distinct (dkeys (dset k (w, n) es))" using u by (simp add: seen_upto_def distinct_dkeys_dset)
  have "w' \<le> w" if "(j, w', c) \<in> set (dset k (w, n) es)" for j w' c
  proof -
    have "dget (dset k (w, n) es) j = Some (w', c)" using that d by simp
    then show ?thesis using u by (auto simp: dget_dset seen_upto_def split: if_splits dest: map_of_SomeD)
  qed
  then show ?thesis using d by (auto simp: seen_upto_def)
qed

lemma filter_upto: "seen_upto es w \<Longrightarrow> seen_upto (filter P es) w"
  by (auto simp: seen_upto_def distinct_map_filter)

interpretation memory: window_counter memory_step stored_count seen_upto
proof
  fix s w k k' w' and l :: nat
  assume cur: "seen_upto s w"
  have d: "distinct (dkeys (dset k (w, n) s))" for n using dset_upto [OF cur] by (simp add: seen_upto_def)
  show "fst (memory_step k l w s) \<longleftrightarrow> stored_count s k w < l"
    by (auto simp: memory_step_def Let_def)
  show "min l (stored_count (snd (memory_step k l w s)) k w) = min l (stored_count s k w + 1)"
    using filter_window_get [OF d] by (auto simp: memory_step_def Let_def stored_count_dset)
  show "stored_count (snd (memory_step k l w s)) k' w = stored_count s k' w" if "k' \<noteq> k"
    using that filter_window_get [OF d] by (auto simp: memory_step_def Let_def stored_count_dset)
  show "seen_upto s w' \<and> stored_count s k w' = 0" if "w < w'"
    using cur that stored_count_fresh by (fastforce simp: seen_upto_def)
  show "seen_upto (snd (memory_step k l w s)) w"
    using cur dset_upto filter_upto by (simp add: memory_step_def Let_def)
qed

text \<open>
  The script's counters: \<open>INCR\<close> replies with the number of calls for the key, which names the
  window, so with the requests of the key in that window. The state is the list of all requests.
\<close>

definition redis_step :: "nat \<Rightarrow> int \<Rightarrow> ustr \<Rightarrow> nat \<Rightarrow> int \<Rightarrow> (ustr \<times> int) list \<Rightarrow> bool \<times> (ustr \<times> int) list" where
  "redis_step ws ttl key limit w past =
    (let past' = (key, w) # past in
     (case redis_check limit ws (of_int w * of_nat ws) (Some (int (count_if ((=) (key, w)) past'), ttl)) of
        Inl e \<Rightarrow> False | Inr d \<Rightarrow> rd_allowed d, past'))"

lemma redis_step: "redis_step ws ttl k l w past = (count_if ((=) (k, w)) past < l, (k, w) # past)"
  by (simp add: redis_step_def redis_check_def Let_def count_if_def)

interpretation redis: window_counter "redis_step ws ttl" "\<lambda>past k w. count_if ((=) (k, w)) past"
    "\<lambda>past w. \<forall>r \<in> set past. snd r \<le> w" for ws ttl
proof
  fix past :: "(ustr \<times> int) list" and w w' :: int and k k' :: ustr and l :: nat
  assume cur: "\<forall>r \<in> set past. snd r \<le> w"
  show "(\<forall>r \<in> set past. snd r \<le> w') \<and> count_if ((=) (k, w')) past = 0" if "w < w'"
    using cur that by (force simp: count_if_def filter_empty_conv)
qed (auto simp: redis_step count_if_def)

section \<open>The middleware\<close>

record limit_settings =
  ls_prefix :: ustr
  ls_enabled :: bool
  ls_window :: nat
  ls_auth :: nat
  ls_expensive :: nat
  ls_default :: nat

record http_request =
  hr_method :: string
  hr_path :: ustr
  hr_client :: "ustr option"
  hr_forwarded :: ustr

definition profile :: "http_request \<Rightarrow> limit_settings \<Rightarrow> string \<times> nat" where
  "profile q cfg =
    (let p = ls_prefix cfg in
     if hr_method q = ''POST'' \<and> hr_path q \<in> {p @ asc ''/auth/login'', p @ asc ''/auth/refresh''} then
       (''auth'', ls_auth cfg)
     else if hr_method q \<notin> {''GET'', ''HEAD''} \<and>
         ((\<exists>e \<in> set [''/chat'', ''/search'', ''/evaluations'', ''/experiments'', ''/source-discovery''].
             starts_with (hr_path q) (p @ asc e))
          \<or> (\<exists>e \<in> set [''/test'', ''/reindex'', ''/reparse'', ''/run'']. ends_with (hr_path q) (asc e))) then
       (''expensive'', ls_expensive cfg)
     else (''default'', ls_default cfg))"

definition identity :: "(ustr \<Rightarrow> 'ip option) \<Rightarrow> ('ip \<Rightarrow> ustr) \<Rightarrow> ('ip \<Rightarrow> bool) \<Rightarrow> http_request \<Rightarrow> ustr" where
  "identity parse_ip compressed trusted q =
    (let host = (case hr_client q of Some h \<Rightarrow> h | None \<Rightarrow> asc ''unknown'') in
     case parse_ip host of
       None \<Rightarrow> asc ''ip:'' @ host
     | Some peer \<Rightarrow>
       if \<not> trusted peer then asc ''ip:'' @ compressed peer
       else
         (case filter (\<lambda>v. v \<noteq> []) (map strip (split_on 44 (hr_forwarded q))) of
            [v] \<Rightarrow> (case parse_ip v of Some a \<Rightarrow> asc ''ip:'' @ compressed a | None \<Rightarrow> asc ''ip:'' @ compressed peer)
          | _ \<Rightarrow> asc ''ip:'' @ compressed peer))"

datatype 'r answer = Handler 'r | WithHeaders 'r decision | Unavailable | TooMany string decision

text \<open>The limiter's verdict is asked for only where the request is limited; \<open>None\<close> when Redis fails.\<close>

definition dispatch :: "(ustr \<Rightarrow> 'ip option) \<Rightarrow> ('ip \<Rightarrow> ustr) \<Rightarrow> ('ip \<Rightarrow> bool) \<Rightarrow> limit_settings \<Rightarrow>
    (ustr \<Rightarrow> nat \<Rightarrow> nat \<Rightarrow> 's \<Rightarrow> (exn + decision) \<times> 's) \<Rightarrow> (http_request \<Rightarrow> 'r) \<Rightarrow> http_request \<Rightarrow> 's \<Rightarrow> 'r answer \<times> 's" where
  "dispatch parse_ip compressed trusted cfg check call_next q s =
    (if hr_path q \<in> {asc ''/health/live'', asc ''/health/ready'', asc ''/metrics''} then (Handler (call_next q), s)
     else if \<not> ls_enabled cfg \<or> hr_method q = ''OPTIONS'' then (Handler (call_next q), s)
     else
       case profile q cfg of
         (name, limit) \<Rightarrow>
           (case check (asc name @ [58] @ identity parse_ip compressed trusted q) limit (ls_window cfg) s of
              (Inl e, s') \<Rightarrow> (Unavailable, s')
            | (Inr d, s') \<Rightarrow> (if rd_allowed d then WithHeaders (call_next q) d else TooMany name d, s')))"

section \<open>Properties\<close>

definition passed :: "ustr \<times> int \<Rightarrow> (ustr \<times> int) list \<Rightarrow> bool list \<Rightarrow> nat" where
  "passed r rs vs = count_if (\<lambda>(q, ok). ok \<and> q = r) (zip rs vs)"

lemma passed_quota:
  "passed r rs (quota lm past rs) + min (lm (fst r)) (count_if ((=) r) past) =
    min (lm (fst r)) (count_if ((=) r) past + count_if ((=) r) rs)"
proof (induction rs arbitrary: past)
  case Nil
  then show ?case by (simp add: passed_def count_if_def)
next
  case (Cons q rs)
  have p: "passed r (q # rs) (quota lm past (q # rs)) =
      (if q = r \<and> count_if ((=) q) past < lm (fst q) then 1 else 0) + passed r rs (quota lm (q # past) rs)"
    by (auto simp: passed_def count_if_def)
  show ?case
  proof (cases "q = r")
    case True
    then show ?thesis unfolding p using Cons [of "q # past"]
      by (cases "count_if ((=) r) past < lm (fst r)") (auto simp: count_if_def min_def split: if_splits)
  next
    case False
    then have "count_if ((=) r) (q # past) = count_if ((=) r) past" "count_if ((=) r) (q # rs) = count_if ((=) r) rs"
      by (simp_all add: count_if_def)
    then show ?thesis unfolding p using Cons [of "q # past"] False by simp
  qed
qed



theorem middleware_verdict:
  assumes "0 < ls_window cfg"
    and "dispatch parse_ip compressed trusted cfg (\<lambda>k l w s. case memory_check k l w now s of (d, s') \<Rightarrow> (Inr d, s')) call_next q s = (a, s')"
  shows "if hr_path q \<in> {asc ''/health/live'', asc ''/health/ready'', asc ''/metrics''} \<or> \<not> ls_enabled cfg
      \<or> hr_method q = ''OPTIONS'' then a = Handler (call_next q) \<and> s' = s
    else \<exists>d. 1 \<le> rd_reset d \<and> rd_reset d \<le> int (ls_window cfg) \<and> rd_remaining d \<le> rd_limit d
      \<and> rd_limit d = snd (profile q cfg)
      \<and> (if stored_count s (asc (fst (profile q cfg)) @ [58] @ identity parse_ip compressed trusted q) (window_of (ls_window cfg) now)
            < snd (profile q cfg)
         then a = WithHeaders (call_next q) d else a = TooMany (fst (profile q cfg)) d \<and> s' = s)"
proof -
  obtain name limit where p: "profile q cfg = (name, limit)" by (rule prod.exhaust)
  let ?k = "asc name @ [58] @ identity parse_ip compressed trusted q"
  obtain d s1 where d: "memory_check ?k limit (ls_window cfg) now s = (d, s1)" by (rule prod.exhaust)
  have "1 \<le> rd_reset d \<and> rd_reset d \<le> int (ls_window cfg) \<and> rd_remaining d \<le> rd_limit d \<and> rd_limit d = limit"
    using d reset_after_bounds [OF assms(1), of now]
    by (auto simp: memory_check_def Let_def split: prod.splits)
  moreover have "rd_allowed d \<longleftrightarrow> stored_count s ?k (window_of (ls_window cfg) now) < limit"
    using d by (auto simp: memory_check_def memory_step_def Let_def split: if_splits)
  moreover have "\<not> rd_allowed d \<Longrightarrow> s1 = s"
    using d by (auto simp: memory_check_def memory_step_def Let_def split: if_splits)
  moreover have "dispatch parse_ip compressed trusted cfg
        (\<lambda>k l w s. case memory_check k l w now s of (d, s') \<Rightarrow> (Inr d, s')) call_next q s =
      (if hr_path q \<in> {asc ''/health/live'', asc ''/health/ready'', asc ''/metrics''} then (Handler (call_next q), s)
       else if \<not> ls_enabled cfg \<or> hr_method q = ''OPTIONS'' then (Handler (call_next q), s)
       else (if rd_allowed d then WithHeaders (call_next q) d else TooMany name d, s1))"
    unfolding dispatch_def p prod.case d by simp
  ultimately show ?thesis unfolding assms(2) p fst_conv snd_conv by (auto split: if_splits)
qed

lemma middleware_verdict_witness:
  "\<exists>d. fst (dispatch (\<lambda>h. Some h) id (\<lambda>h. False)
      \<lparr>ls_prefix = asc ''/api'', ls_enabled = True, ls_window = 60, ls_auth = 1, ls_expensive = 1, ls_default = 1\<rparr>
      (\<lambda>k l w s. case memory_check k l w 30 s of (d, s') \<Rightarrow> (Inr d, s')) (\<lambda>q. ())
      \<lparr>hr_method = ''GET'', hr_path = asc ''/x'', hr_client = None, hr_forwarded = []\<rparr> []) = WithHeaders () d"
proof -
  let ?cfg = "\<lparr>ls_prefix = asc ''/api'', ls_enabled = True, ls_window = 60, ls_auth = 1, ls_expensive = 1, ls_default = 1\<rparr>"
  let ?q = "\<lparr>hr_method = ''GET'', hr_path = asc ''/x'', hr_client = None, hr_forwarded = []\<rparr>"
  obtain a s' where x: "dispatch (\<lambda>h. Some h) id (\<lambda>h. False) ?cfg
      (\<lambda>k l w s. case memory_check k l w 30 s of (d, s') \<Rightarrow> (Inr d, s')) (\<lambda>q. ()) ?q [] = (a, s')" by (rule prod.exhaust)
  have "profile ?q ?cfg = (''default'', 1)" by (simp add: profile_def)
  with middleware_verdict [OF _ x] have "\<exists>d. a = WithHeaders () d" by (auto simp: stored_count_def asc_def)
  then show ?thesis unfolding x by simp
qed

theorem client_identity:
  assumes "hr_client q = Some host" "parse_ip host = Some peer"
  shows "(\<not> trusted peer \<longrightarrow> identity parse_ip compressed trusted (q\<lparr>hr_forwarded := x\<rparr>) =
        identity parse_ip compressed trusted q)
    \<and> (length (filter (\<lambda>v. v \<noteq> []) (map strip (split_on 44 (hr_forwarded q)))) \<noteq> 1 \<longrightarrow>
        identity parse_ip compressed trusted q = asc ''ip:'' @ compressed peer)"
  using assms by (auto simp: identity_def Let_def split: list.splits simp del: length_filter_map)

lemma client_identity_witness:
  "identity (\<lambda>h. Some h) id (\<lambda>h. True)
     \<lparr>hr_method = ''GET'', hr_path = [], hr_client = Some (asc ''1.2.3.4''), hr_forwarded = asc ''9.9.9.9, 8.8.8.8''\<rparr>
   = asc ''ip:'' @ asc ''1.2.3.4''"
proof -
  have "length (filter (\<lambda>v. v \<noteq> []) (map strip (split_on 44 (asc ''9.9.9.9, 8.8.8.8'')))) = 2" by code_simp
  then show ?thesis
    using client_identity [of "\<lparr>hr_method = ''GET'', hr_path = [], hr_client = Some (asc ''1.2.3.4''),
      hr_forwarded = asc ''9.9.9.9, 8.8.8.8''\<rparr>" "asc ''1.2.3.4''" "\<lambda>h. Some h"] by simp
qed

end
