(* ===== verification/Review.thy ===== *)
theory Review
  imports CrawlDocuments PyJson
begin

text \<open>
  The review of a document: \<open>backend/app/services/review.py\<close> with the store of prompts
  (\<open>services/prompts.py\<close>) and the reconciliation of crawl tasks (\<open>repositories/reviews.py\<close>). The
  language model is an argument: the answer, or the exception, of each successive call.
\<close>

section \<open>The store\<close>

record prompt_row =
  pr_name :: ustr
  pr_version :: ustr
  pr_hash :: ustr
  pr_content :: ustr
  pr_active :: bool

record knowledge_row =
  kn_document :: int
  kn_field :: string
  kn_value :: ustr
  kn_quote :: ustr
  kn_confidence :: rat
  kn_verified :: bool

record review_store =
  rs_crawl :: crawl_store
  rs_tasks :: "crawl_task list"
  rs_prompts :: "prompt_row list"
  rs_knowledge :: "knowledge_row list"

definition get_doc :: "int \<Rightarrow> review_store \<Rightarrow> document option" where
  "get_doc i st = dget (ds_docs (cs_docs (rs_crawl st))) i"

definition set_doc :: "document \<Rightarrow> review_store \<Rightarrow> review_store" where
  "set_doc d st = st\<lparr>rs_crawl := (rs_crawl st)\<lparr>cs_docs := put_doc d (cs_docs (rs_crawl st))\<rparr>\<rparr>"

definition add_review :: "review_row \<Rightarrow> review_store \<Rightarrow> review_store" where
  "add_review w st = st\<lparr>rs_crawl := (rs_crawl st)\<lparr>cs_reviews := cs_reviews (rs_crawl st) @ [w]\<rparr>\<rparr>"

section \<open>Prompts\<close>

definition get_prompt :: "ustr \<Rightarrow> ustr \<Rightarrow> prompt_row list \<Rightarrow> prompt_row option" where
  "get_prompt name ver ps = find (\<lambda>p. pr_name p = name \<and> pr_version p = ver) ps"

definition activate_prompt :: "prompt_row \<Rightarrow> prompt_row list \<Rightarrow> prompt_row list" where
  "activate_prompt p ps =
    map (\<lambda>q. if pr_name q = pr_name p \<and> pr_active q then q\<lparr>pr_active := False\<rparr> else q) ps @ [p\<lparr>pr_active := True\<rparr>]"

definition ensure_prompt :: "(ustr \<Rightarrow> ustr) \<Rightarrow> ustr \<Rightarrow> ustr \<Rightarrow> ustr \<Rightarrow> prompt_row list \<Rightarrow> exn + prompt_row list" where
  "ensure_prompt sha name ver content ps =
    (case get_prompt name ver ps of
       Some p \<Rightarrow> if pr_hash p \<noteq> sha content then
           Inl (ValueError ''stored prompt version content does not match configured content'')
         else Inr ps
     | None \<Rightarrow> Inr (activate_prompt \<lparr>pr_name = name, pr_version = ver, pr_hash = sha content, pr_content = content,
         pr_active = True\<rparr> ps))"

section \<open>Reconciliation of the crawl tasks\<close>

definition linked_documents :: "int \<Rightarrow> doc_store \<Rightarrow> document list" where
  "linked_documents task ds =
    filter (\<lambda>d. dm_id d \<in> set (map ln_document (filter (\<lambda>l. ln_task l = Some task) (ds_lineage ds)))) (map snd (ds_docs ds))"

definition linked_tasks :: "int \<Rightarrow> doc_store \<Rightarrow> int list" where
  "linked_tasks i ds = List.map_filter ln_task (filter (\<lambda>l. ln_document l = i) (ds_lineage ds))"

definition reconcile_task :: "int \<Rightarrow> doc_store \<Rightarrow> crawl_task \<Rightarrow> crawl_task" where
  "reconcile_task now ds t =
    (let docs = linked_documents (tk_id t) ds;
         accepted = count_if (\<lambda>d. dm_final d = ''approved'') docs;
         rejected = count_if (\<lambda>d. dm_final d = ''rejected'') docs;
         total = length docs;
         pending = max 0 (int total - int accepted - int rejected);
         t' = t\<lparr>tk_counts := (tk_counts t)\<lparr>ct_accepted := int accepted, ct_rejected := int rejected,
           ct_pending_review := pending\<rparr>\<rparr>
     in if 0 < total \<and> pending = 0 then
          t'\<lparr>tk_status := SCompleted, tk_stage := Some ''completed'', tk_provider_status := Some ''completed'',
             tk_finished := Some now, tk_completed := Some now, tk_error := None, tk_provider_code := None,
             tk_provider_message := None, tk_next_retry := None\<rparr>
        else t')"

definition reconcile :: "int \<Rightarrow> int \<Rightarrow> review_store \<Rightarrow> review_store" where
  "reconcile now i st =
    (let ds = cs_docs (rs_crawl st) in
     st\<lparr>rs_tasks := map (\<lambda>t. if tk_id t \<in> set (linked_tasks i ds) \<and> tk_status t = SWaiting
       then reconcile_task now ds t else t) (rs_tasks st)\<rparr>)"

section \<open>The model's answer\<close>

datatype llm_decision = Approve | RejectIt | ManualReview

fun llm_name :: "llm_decision \<Rightarrow> string" where
  "llm_name Approve = ''approve''"
| "llm_name RejectIt = ''reject''"
| "llm_name ManualReview = ''manual_review''"

text \<open>A raw field is \<open>None\<close> when it does not have the three keys of \<open>ExtractedField\<close> and their types.\<close>

record extracted_field =
  xf_value :: ustr
  xf_confidence :: rat
  xf_quote :: ustr

record review_result =
  rv_decision :: llm_decision
  rv_quality :: rat
  rv_doc_type :: "ustr option"
  rv_summary :: ustr
  rv_reasons :: "ustr list"
  rv_fields :: "(string, extracted_field option) dict"
  rv_raw :: ustr

definition allowed_fields :: "string list" where
  "allowed_fields = [''issuing_authority'', ''document_number'', ''policy_target'', ''support_measures'',
     ''application_conditions'', ''funding_amount'', ''deadline'', ''department'', ''region'', ''industry'',
     ''contact_information'', ''key_indicators'']"

fun validate_fields :: "ustr \<Rightarrow> (string, extracted_field option) dict \<Rightarrow> exn + (string, extracted_field) dict" where
  "validate_fields content [] = Inr []"
| "validate_fields content ((k, raw) # rest) =
    (if k \<notin> set allowed_fields then Inl (ProviderResponseError ''llm_review'' ''unsupported field'')
     else case raw of
       None \<Rightarrow> Inl (ProviderResponseError ''llm_review'' ''invalid field'')
     | Some x \<Rightarrow>
       if \<not> (0 \<le> xf_confidence x \<and> xf_confidence x \<le> 1) \<or> xf_quote x = [] then
         Inl (ProviderResponseError ''llm_review'' ''invalid field'')
       else if \<not> contains content (xf_quote x) then
         Inl (ProviderResponseError ''llm_review'' ''evidence quote is not present for field'')
       else rbind (validate_fields content rest) (\<lambda>xs. Inr ((k, x) # xs)))"

fun provider_error :: "exn \<Rightarrow> bool" where
  "provider_error (ProviderUnavailableError p r) = True"
| "provider_error (ProviderResponseError p r) = True"
| "provider_error _ = False"

text \<open>\<open>n\<close> attempts from the \<open>k\<close>th call on; the last error is raised again.\<close>

fun review_attempts :: "(nat \<Rightarrow> exn + review_result) \<Rightarrow> nat \<Rightarrow> nat \<Rightarrow> exn + review_result" where
  "review_attempts llm k 0 = Inl (OtherError ''RuntimeError'')"
| "review_attempts llm k (Suc n) =
    (case llm k of
       Inr x \<Rightarrow> Inr x
     | Inl e \<Rightarrow> if provider_error e \<and> 0 < n then review_attempts llm (Suc k) n else Inl e)"

section \<open>The pipeline\<close>

fun rule_name :: "filter_decision \<Rightarrow> string" where
  "rule_name Accept = ''accept''"
| "rule_name Review = ''review''"
| "rule_name Reject = ''reject''"

record pipeline_result =
  pp_rule :: filter_decision
  pp_score :: rat
  pp_llm :: "llm_decision option"
  pp_final :: string
  pp_fields :: "(string, extracted_field) dict"

definition plain_review :: "int \<Rightarrow> string \<Rightarrow> string \<Rightarrow> string \<Rightarrow> rat option \<Rightarrow> ustr list \<Rightarrow> review_row" where
  "plain_review i ty who decision quality reasons =
    \<lparr>rw_document = i, rw_type = ty, rw_reviewer = who, rw_decision = decision, rw_quality = quality,
     rw_doc_type = None, rw_summary = None, rw_reasons = reasons, rw_raw = []\<rparr>"

definition final_status :: "filter_decision \<Rightarrow> llm_decision \<Rightarrow> string" where
  "final_status rule llm =
    (if llm = RejectIt then ''rejected''
     else if llm = ManualReview \<or> rule = Review then ''pending_manual_review'' else ''approved'')"

definition knowledge_of :: "int \<Rightarrow> (string, extracted_field) dict \<Rightarrow> knowledge_row list" where
  "knowledge_of i fs = map (\<lambda>(k, x). \<lparr>kn_document = i, kn_field = k, kn_value = xf_value x,
     kn_quote = xf_quote x, kn_confidence = xf_confidence x, kn_verified = False\<rparr>) fs"

record review_setup =
  rt_filter :: filter_config
  rt_sha :: "ustr \<Rightarrow> ustr"
  rt_prompt :: ustr
  rt_version :: ustr
  rt_content :: ustr
  rt_model :: string

definition doc_title :: "document \<Rightarrow> ustr" where
  "doc_title d = text_of (attr d ''title'')"

text \<open>After the model's answer: the exception of the field check comes before anything is written.\<close>

definition record_answer :: "review_setup \<Rightarrow> int \<Rightarrow> document \<Rightarrow> filter_result \<Rightarrow> review_result \<Rightarrow> review_store \<Rightarrow>
    review_store \<times> (exn + pipeline_result)" where
  "record_answer cfg now d rule ans st =
    (case validate_fields (content_of d) (rv_fields ans) of
       Inl e \<Rightarrow> (st, Inl e)
     | Inr fs \<Rightarrow>
       (let final = final_status (fr_decision rule) (rv_decision ans);
            d' = d\<lparr>dm_llm := llm_name (rv_decision ans),
                   dm_attrs := (case rv_doc_type ans of Some t \<Rightarrow> if t \<noteq> []
                       then dset ''document_type'' (PStr t) (dm_attrs d) else dm_attrs d | None \<Rightarrow> dm_attrs d),
                   dm_final := final\<rparr>;
            st1 = add_review \<lparr>rw_document = dm_id d, rw_type = ''llm'', rw_reviewer = rt_model cfg,
                rw_decision = llm_name (rv_decision ans), rw_quality = Some (rv_quality ans),
                rw_doc_type = rv_doc_type ans, rw_summary = Some (rv_summary ans), rw_reasons = rv_reasons ans,
                rw_raw = rv_raw ans\<rparr> st;
            st2 = st1\<lparr>rs_knowledge := rs_knowledge st1 @ knowledge_of (dm_id d) fs\<rparr>
        in (reconcile now (dm_id d) (set_doc d' st2),
            Inr \<lparr>pp_rule = fr_decision rule, pp_score = fr_score rule, pp_llm = Some (rv_decision ans),
              pp_final = final, pp_fields = fs\<rparr>)))"

definition run_review :: "review_setup \<Rightarrow> int \<Rightarrow> bool \<Rightarrow> (nat \<Rightarrow> exn + review_result) \<Rightarrow> int \<Rightarrow> review_store \<Rightarrow>
    review_store \<times> (exn + pipeline_result)" where
  "run_review cfg now official llm i st =
    (case get_doc i st of
       None \<Rightarrow> (st, Inl (NotFoundError ''Document''))
     | Some d0 \<Rightarrow>
       (let rule = evaluate (rt_filter cfg) (doc_title d0) (content_of d0) official;
            d = d0\<lparr>dm_quality := Some (fr_score rule), dm_rule := rule_name (fr_decision rule)\<rparr>;
            st1 = add_review (plain_review i ''rule'' ''rule_filter'' (rule_name (fr_decision rule))
              (Some (fr_score rule)) (map asc (fr_reasons rule))) st
        in if fr_decision rule = Reject then
             (reconcile now i (set_doc (d\<lparr>dm_final := ''rejected''\<rparr>) st1),
              Inr \<lparr>pp_rule = Reject, pp_score = fr_score rule, pp_llm = None, pp_final = ''rejected'', pp_fields = []\<rparr>)
           else
             let st2 = set_doc d st1 in
             case ensure_prompt (rt_sha cfg) (rt_prompt cfg) (rt_version cfg) (rt_content cfg) (rs_prompts st2) of
               Inl e \<Rightarrow> (st2, Inl e)
             | Inr ps \<Rightarrow>
               (let st3 = st2\<lparr>rs_prompts := ps\<rparr> in
                case review_attempts llm 0 3 of
                  Inl e \<Rightarrow>
                    if provider_error e then
                      (set_doc (d\<lparr>dm_llm := ''unavailable'', dm_final := ''pending_llm''\<rparr>) st3, Inl e)
                    else (st3, Inl e)
                | Inr ans \<Rightarrow> record_answer cfg now d rule ans st3)))"

definition manual_decision :: "int \<Rightarrow> int \<Rightarrow> string \<Rightarrow> string \<Rightarrow> ustr option \<Rightarrow> ustr list \<Rightarrow> review_store \<Rightarrow>
    exn + review_store" where
  "manual_decision now i decision reviewer summary reasons st =
    (if decision \<notin> {''approve'', ''reject''} then Inl (ValueError ''manual decision must be approve or reject'')
     else case get_doc i st of
       None \<Rightarrow> Inl (NotFoundError ''Document'')
     | Some d \<Rightarrow>
         Inr (reconcile now i (add_review ((plain_review i ''manual'' reviewer decision None reasons)\<lparr>rw_summary := summary\<rparr>)
           (set_doc (d\<lparr>dm_manual := decision, dm_final := (if decision = ''approve'' then ''approved'' else ''rejected'')\<rparr>) st))))"

definition pending_documents :: "(document \<Rightarrow> int) \<Rightarrow> review_store \<Rightarrow> document list" where
  "pending_documents created st = sort_key (\<lambda>d. (created d, dm_id d))
     (filter (\<lambda>d. dm_final d \<in> {''pending'', ''pending_manual_review'', ''pending_llm''})
       (map snd (ds_docs (cs_docs (rs_crawl st)))))"

section \<open>Lemmas\<close>

lemma get_set_doc: "get_doc j (set_doc d st) = (if j = dm_id d then Some d else get_doc j st)"
  by (simp add: get_doc_def set_doc_def put_doc_get)

lemma set_doc_keeps [simp]:
  "rs_tasks (set_doc d st) = rs_tasks st" "rs_prompts (set_doc d st) = rs_prompts st"
  "rs_knowledge (set_doc d st) = rs_knowledge st"
  by (simp_all add: set_doc_def)

lemma add_review_keeps [simp]:
  "get_doc j (add_review w st) = get_doc j st" "rs_tasks (add_review w st) = rs_tasks st"
  "rs_prompts (add_review w st) = rs_prompts st" "rs_knowledge (add_review w st) = rs_knowledge st"
  by (simp_all add: add_review_def get_doc_def)

lemma update_keeps [simp]:
  "get_doc j (st\<lparr>rs_prompts := ps\<rparr>) = get_doc j st" "get_doc j (st\<lparr>rs_knowledge := ks\<rparr>) = get_doc j st"
  "get_doc j (reconcile now i st) = get_doc j st" "rs_knowledge (reconcile now i st) = rs_knowledge st"
  by (simp_all add: get_doc_def reconcile_def Let_def)

lemma validate_fields_Inr:
  "validate_fields content raw = Inr xs \<Longrightarrow> (k, x) \<in> set xs \<Longrightarrow>
    k \<in> set allowed_fields \<and> xf_quote x \<noteq> [] \<and> contains content (xf_quote x) \<and> 0 \<le> xf_confidence x \<and> xf_confidence x \<le> 1"
proof (induction content raw arbitrary: xs rule: validate_fields.induct)
  case (2 content k' raw rest)
  obtain y ys where y: "raw = Some y" "k' \<in> set allowed_fields" "0 \<le> xf_confidence y" "xf_confidence y \<le> 1"
    "xf_quote y \<noteq> []" "contains content (xf_quote y)" "validate_fields content rest = Inr ys" "xs = (k', y) # ys"
    using 2(2) by (auto simp: rbind_Inr split: if_splits option.splits)
  then show ?case using 2(1) [of y ys] 2(3) by auto
qed simp

lemma attempts_Inl:
  "review_attempts llm k n = Inl e \<Longrightarrow> 0 < n \<Longrightarrow> provider_error e \<Longrightarrow>
    (\<forall>j. k \<le> j \<and> j < k + n \<longrightarrow> (\<exists>e'. llm j = Inl e' \<and> provider_error e'))"
proof (induction llm k n rule: review_attempts.induct)
  case (2 llm k n)
  show ?case
  proof (cases "llm k")
    case (Inl e')
    show ?thesis
    proof (cases "provider_error e' \<and> 0 < n")
      case True
      then have "\<forall>j. Suc k \<le> j \<and> j < Suc k + n \<longrightarrow> (\<exists>e'. llm j = Inl e' \<and> provider_error e')"
        using 2(1) [OF Inl True] 2(2,4) Inl by simp
      then show ?thesis using Inl True by (metis Suc_leI add_Suc_shift le_neq_implies_less)
    next
      case False
      then have "e' = e" "n = 0" using 2(2,4) Inl by (auto split: if_splits)
      then have "j = k" if "k \<le> j" "j < k + Suc n" for j using that by simp
      then show ?thesis using Inl 2(4) \<open>e' = e\<close> by blast
    qed
  qed (use 2(2) in simp)
qed simp

lemma final_approved: "final_status rule llm = ''approved'' \<longleftrightarrow> rule \<noteq> Review \<and> llm = Approve"
  by (cases llm) (auto simp: final_status_def)

text \<open>What holds of the reviewed document after a run.\<close>

definition reviewed :: "int \<Rightarrow> (nat \<Rightarrow> exn + review_result) \<Rightarrow> document \<Rightarrow> review_store \<Rightarrow> review_store \<Rightarrow>
    exn + pipeline_result \<Rightarrow> bool" where
  "reviewed i llm d st st' out \<longleftrightarrow>
    (\<forall>j. j \<noteq> i \<longrightarrow> get_doc j st' = get_doc j st)
    \<and> (\<exists>d'. get_doc i st' = Some d' \<and>
      (case out of
         Inr p \<Rightarrow> dm_final d' = pp_final p
           \<and> (pp_final p = ''approved'' \<longleftrightarrow> pp_rule p = Accept \<and> pp_llm p = Some Approve)
           \<and> rs_knowledge st' = rs_knowledge st @ knowledge_of i (pp_fields p)
           \<and> (\<forall>(k, x) \<in> set (pp_fields p). k \<in> set allowed_fields \<and> xf_quote x \<noteq> [] \<and> contains (content_of d) (xf_quote x))
       | Inl e \<Rightarrow> rs_knowledge st' = rs_knowledge st \<and> rs_tasks st' = rs_tasks st
           \<and> (dm_final d' = dm_final d \<or>
              dm_final d' = ''pending_llm'' \<and> (\<forall>k < 3. \<exists>e'. llm k = Inl e' \<and> provider_error e'))))"

lemma record_answer_reviewed:
  assumes "get_doc i st = Some d" "dm_id d = i" "fr_decision rule \<noteq> Reject"
    and "record_answer cfg now d rule ans st = (st', out)"
  shows "reviewed i llm d st st' out"
proof (cases "validate_fields (content_of d) (rv_fields ans)")
  case (Inl e)
  then show ?thesis using assms by (auto simp: record_answer_def reviewed_def)
next
  case (Inr xs)
  have "fr_decision rule \<noteq> Review \<longleftrightarrow> fr_decision rule = Accept" using assms(3) by (cases "fr_decision rule") auto
  then show ?thesis
    using assms Inr validate_fields_Inr [OF Inr]
    by (auto simp: record_answer_def Let_def reviewed_def get_set_doc final_approved)
qed

lemma reviewed_base:
  assumes "\<And>j. j \<noteq> i \<Longrightarrow> get_doc j s = get_doc j st" "rs_knowledge s = rs_knowledge st" "rs_tasks s = rs_tasks st"
    "content_of d' = content_of d" "dm_final d' = dm_final d" "reviewed i llm d' s st' out"
  shows "reviewed i llm d st st' out"
  using assms unfolding reviewed_def by (cases out) auto

lemma run_review_reviewed:
  assumes "get_doc i st = Some d" "dm_id d = i" "run_review cfg now official llm i st = (st', out)"
  shows "reviewed i llm d st st' out"
proof -
  let ?rule = "evaluate (rt_filter cfg) (doc_title d) (content_of d) official"
  let ?d = "d\<lparr>dm_quality := Some (fr_score ?rule), dm_rule := rule_name (fr_decision ?rule)\<rparr>"
  let ?s1 = "add_review (plain_review i ''rule'' ''rule_filter'' (rule_name (fr_decision ?rule))
      (Some (fr_score ?rule)) (map asc (fr_reasons ?rule))) st"
  let ?s2 = "set_doc ?d ?s1"
  have c: "content_of ?d = content_of d" by (simp add: attr_def)
  have s2: "get_doc i ?s2 = Some ?d" "\<And>j. j \<noteq> i \<Longrightarrow> get_doc j ?s2 = get_doc j st"
    using assms(2) by (simp_all add: get_set_doc)
  show ?thesis
  proof (cases "fr_decision ?rule = Reject")
    case True
    then show ?thesis using assms
      by (auto simp: run_review_def Let_def reviewed_def get_set_doc knowledge_of_def)
  next
    case False
    show ?thesis
    proof (cases "ensure_prompt (rt_sha cfg) (rt_prompt cfg) (rt_version cfg) (rt_content cfg) (rs_prompts st)")
      case (Inl e)
      then show ?thesis using assms False
        by (auto simp: run_review_def Let_def reviewed_def get_set_doc)
    next
      case (Inr ps)
      let ?s3 = "?s2\<lparr>rs_prompts := ps\<rparr>"
      show ?thesis
      proof (cases "review_attempts llm 0 3")
        case e: (Inl e)
        show ?thesis
        proof (cases "provider_error e")
          case True
          then have "\<forall>k < 3. \<exists>e'. llm k = Inl e' \<and> provider_error e'" using attempts_Inl [OF e] by simp
          then show ?thesis using assms False Inr e True
            by (auto simp: run_review_def Let_def reviewed_def get_set_doc)
        next
          case no: False
          then show ?thesis using assms False Inr e
            by (auto simp: run_review_def Let_def reviewed_def get_set_doc)
        qed
      next
        case ans: (Inr ans)
        have "record_answer cfg now ?d ?rule ans ?s3 = (st', out)"
          using assms False Inr ans by (simp add: run_review_def Let_def)
        then have "reviewed i llm ?d ?s3 st' out"
          using s2 assms(2) False by (intro record_answer_reviewed [where cfg = cfg and now = now and rule = ?rule and ans = ans]) simp_all
        then show ?thesis using s2 c by (intro reviewed_base [of i ?s3 st ?d d]) simp_all
      qed
    qed
  qed
qed

lemma count_split:
  "int (length xs) - int (count_if P xs) - int (count_if Q xs) = int (count_if (\<lambda>x. \<not> P x \<and> \<not> Q x) xs)"
  if "\<And>x. P x \<Longrightarrow> \<not> Q x"
  using that by (induction xs) (auto simp: count_if_def)

lemma count_filter: "count_if P (filter Q xs) = count_if (\<lambda>x. Q x \<and> P x) xs"
  by (simp add: count_if_def conj_commute)

lemma pending_count:
  "int (count_pending_documents task ds) =
    int (length (linked_documents task ds)) - int (count_if (\<lambda>d. dm_final d = ''approved'') (linked_documents task ds))
      - int (count_if (\<lambda>d. dm_final d = ''rejected'') (linked_documents task ds))"
  by (subst count_split) (simp_all add: count_pending_documents_def linked_documents_def count_filter Let_def)

section \<open>Properties\<close>

text \<open>
  C31. A review run approves a document only when the rules accept it and the model approves it,
  and then every field it stores is one of the allowed ones with a quote that occurs in the
  document; when the run raises, no field is stored, no task is closed and the document keeps
  its final status, unless the model failed on all three attempts, which leaves it pending for
  the model; no other document changes.
\<close>

theorem review_gate:
  assumes "get_doc i st = Some d" "dm_id d = i"
    and "run_review cfg now official llm i st = (st', out)"
  shows "reviewed i llm d st st' out"
  by (rule run_review_reviewed [OF assms])

definition review_sample :: review_store where
  "review_sample = \<lparr>rs_crawl = empty_crawl\<lparr>cs_docs := sample_store\<rparr>, rs_tasks = [], rs_prompts = [], rs_knowledge = []\<rparr>"

definition review_sample_setup :: review_setup where
  "review_sample_setup = \<lparr>rt_filter = \<lparr>fc_hard_min = 0, fc_soft_min = 0, fc_accept = 1/2, fc_reject = 0,
     fc_title_reject = [], fc_content_reject = [], fc_keywords = [], fc_short_penalty = 0, fc_keyword_penalty = 0,
     fc_unofficial_penalty = 0\<rparr>, rt_sha = id, rt_prompt = [], rt_version = [], rt_content = [], rt_model = ''m''\<rparr>"

lemma review_gate_witness:
  "\<exists>d. reviewed 1 (\<lambda>k. Inl (ProviderUnavailableError ''direct_llm'' ''down'')) d review_sample
    (fst (run_review review_sample_setup 9 True (\<lambda>k. Inl (ProviderUnavailableError ''direct_llm'' ''down'')) 1 review_sample))
    (snd (run_review review_sample_setup 9 True (\<lambda>k. Inl (ProviderUnavailableError ''direct_llm'' ''down'')) 1 review_sample))"
proof -
  obtain d where d: "get_doc 1 review_sample = Some d" "dm_id d = 1"
    by (simp add: get_doc_def review_sample_def sample_store_def)
  from review_gate [OF d, of review_sample_setup 9 True _ "fst (run_review review_sample_setup 9 True
      (\<lambda>k. Inl (ProviderUnavailableError ''direct_llm'' ''down'')) 1 review_sample)", OF surjective_pairing]
  show ?thesis using review_gate [OF d] by (metis surjective_pairing)
qed

definition task_settled :: "doc_store \<Rightarrow> crawl_task \<Rightarrow> crawl_task \<Rightarrow> bool" where
  "task_settled ds t t' \<longleftrightarrow>
    (let docs = linked_documents (tk_id t) ds in
     ct_accepted (tk_counts t') = int (count_if (\<lambda>d. dm_final d = ''approved'') docs)
     \<and> ct_rejected (tk_counts t') = int (count_if (\<lambda>d. dm_final d = ''rejected'') docs)
     \<and> ct_pending_review (tk_counts t') = int (count_pending_documents (tk_id t) ds)
     \<and> ct_accepted (tk_counts t') + ct_rejected (tk_counts t') + ct_pending_review (tk_counts t') = int (length docs)
     \<and> tk_status t' = (if docs \<noteq> [] \<and> count_pending_documents (tk_id t) ds = 0 then SCompleted else SWaiting))"

theorem reconcile_exact:
  "list_all2 (\<lambda>t t'. if tk_id t \<in> set (linked_tasks i (cs_docs (rs_crawl st))) \<and> tk_status t = SWaiting
      then task_settled (cs_docs (rs_crawl st)) t t' else t' = t)
    (rs_tasks st) (rs_tasks (reconcile now i st))"
proof -
  let ?ds = "cs_docs (rs_crawl st)"
  have "task_settled ?ds t (reconcile_task now ?ds t)" if "tk_status t = SWaiting" for t
  proof -
    let ?docs = "linked_documents (tk_id t) ?ds"
    have p: "int (length ?docs) - int (count_if (\<lambda>d. dm_final d = ''approved'') ?docs)
        - int (count_if (\<lambda>d. dm_final d = ''rejected'') ?docs) = int (count_pending_documents (tk_id t) ?ds)"
      using pending_count [of "tk_id t" ?ds] by simp
    then have q: "int (count_if (\<lambda>d. dm_final d = ''approved'') ?docs) + int (count_if (\<lambda>d. dm_final d = ''rejected'') ?docs)
        + int (count_pending_documents (tk_id t) ?ds) = int (length ?docs)" by linarith
    show ?thesis using that q unfolding task_settled_def reconcile_task_def Let_def p
      by (cases "0 < length ?docs \<and> count_pending_documents (tk_id t) ?ds = 0")
        (simp_all del: length_greater_0_conv, auto)
  qed
  then show ?thesis
    by (simp add: reconcile_def Let_def list.rel_map(2) list.rel_refl_strong)
qed

end
