(* ===== verification/Evaluation.thy ===== *)
theory Evaluation
  imports Prelude PyText "HOL-Library.FSet"
begin

text \<open>
  \<open>backend/app/evaluation/metrics.py\<close>: the metrics of one evaluated question and their aggregate.
  A frozen set is an \<open>fset\<close>, a float an exact rational; \<open>lg n\<close> stands for \<open>math.log2(n)\<close>.
\<close>

section \<open>Samples\<close>

record sample =
  sm_retrieved :: "ustr list"
  sm_relevant :: "ustr fset"
  sm_points :: "ustr fset"
  sm_covered :: "ustr fset"
  sm_expected :: "ustr fset"
  sm_cited :: "ustr fset"
  sm_should_refuse :: bool
  sm_refused :: bool
  sm_hallucinated :: nat
  sm_claims :: nat
  sm_latency :: rat
  sm_tokens :: nat
  sm_cost :: rat
  sm_retrieved_docs :: "ustr list"
  sm_relevant_docs :: "ustr fset"
  sm_cited_docs :: "ustr fset"
  sm_grounding :: "bool option"
  sm_failed :: bool

record sample_metrics =
  mt_document_hit :: rat
  mt_chunk_hit :: rat
  mt_recall_1 :: rat
  mt_recall_5 :: rat
  mt_recall_10 :: rat
  mt_rr :: rat
  mt_ndcg_10 :: rat
  mt_points :: rat
  mt_citation_accuracy :: rat
  mt_citation_completeness :: rat
  mt_doc_accuracy :: rat
  mt_doc_completeness :: rat
  mt_refusal_correct :: rat
  mt_hallucination :: rat
  mt_grounded :: rat
  mt_unsupported :: rat
  mt_success :: rat

definition flag :: "bool \<Rightarrow> rat" where
  "flag b = (if b then 1 else 0)"

definition ratio :: "nat \<Rightarrow> nat \<Rightarrow> rat" where
  "ratio a b = of_nat a / of_nat b"

section \<open>The metrics of a question\<close>

definition ranking_sets :: "sample \<Rightarrow> ustr list \<times> ustr fset" where
  "ranking_sets s = (if sm_relevant s \<noteq> {||} then (sm_retrieved s, sm_relevant s)
     else (sm_retrieved_docs s, sm_relevant_docs s))"

definition citation_sets :: "sample \<Rightarrow> ustr fset \<times> ustr fset" where
  "citation_sets s = (if sm_expected s \<noteq> {||} \<or> sm_should_refuse s then (sm_cited s, sm_expected s)
     else if sm_relevant_docs s \<noteq> {||} then (sm_cited_docs s, sm_relevant_docs s)
     else (sm_cited s, sm_expected s))"

definition hit_value :: "ustr list \<Rightarrow> ustr fset \<Rightarrow> rat" where
  "hit_value retrieved relevant = (if relevant = {||} then 1 else flag (\<exists>x \<in> set retrieved. x |\<in>| relevant))"

definition recall_at :: "sample \<Rightarrow> nat \<Rightarrow> rat" where
  "recall_at s k =
    (case ranking_sets s of (retrieved, relevant) \<Rightarrow>
     if relevant = {||} then 1
     else ratio (fcard (fset_of_list (take k retrieved) |\<inter>| relevant)) (fcard relevant))"

fun first_rank :: "ustr list \<Rightarrow> ustr fset \<Rightarrow> nat \<Rightarrow> nat option" where
  "first_rank [] relevant n = None"
| "first_rank (x # xs) relevant n = (if x |\<in>| relevant then Some n else first_rank xs relevant (Suc n))"

definition reciprocal_rank :: "sample \<Rightarrow> rat" where
  "reciprocal_rank s =
    (case ranking_sets s of (retrieved, relevant) \<Rightarrow>
     case first_rank (nub retrieved) relevant 1 of
       Some r \<Rightarrow> 1 / of_nat r
     | None \<Rightarrow> if relevant = {||} then 1 else 0)"

definition gain_sum :: "(nat \<Rightarrow> rat) \<Rightarrow> rat list \<Rightarrow> rat" where
  "gain_sum lg gains = (\<Sum>(rank, gain)\<leftarrow>enum_from 1 gains. gain / lg (rank + 1))"

definition ndcg :: "(nat \<Rightarrow> rat) \<Rightarrow> sample \<Rightarrow> nat \<Rightarrow> rat" where
  "ndcg lg s k =
    (case ranking_sets s of (retrieved, relevant) \<Rightarrow>
     let ranked = take k (nub retrieved);
         dcg = gain_sum lg (map (\<lambda>x. if x |\<in>| relevant then 1 else 0) ranked);
         idcg = (\<Sum>rank\<leftarrow>[1..<min k (fcard relevant) + 1]. 1 / lg (rank + 1))
     in if idcg \<noteq> 0 then dcg / idcg else 1)"

definition set_precision :: "ustr fset \<Rightarrow> ustr fset \<Rightarrow> rat" where
  "set_precision actual expected = (if actual = {||} then 0 else ratio (fcard (actual |\<inter>| expected)) (fcard actual))"

definition set_recall :: "ustr fset \<Rightarrow> ustr fset \<Rightarrow> rat" where
  "set_recall actual expected = (if expected = {||} then 1 else ratio (fcard (actual |\<inter>| expected)) (fcard expected))"

definition citation_recall :: "ustr fset \<Rightarrow> ustr fset \<Rightarrow> rat" where
  "citation_recall actual expected = (if expected = {||} then 0 else ratio (fcard (actual |\<inter>| expected)) (fcard expected))"

definition answer_grounded :: "sample \<Rightarrow> ustr fset \<Rightarrow> rat" where
  "answer_grounded s cited =
    (if sm_refused s then 0
     else case sm_grounding s of
       Some b \<Rightarrow> flag b
     | None \<Rightarrow> if cited = {||} then 0 else if 0 < sm_claims s then flag (sm_hallucinated s = 0) else 1)"

definition evaluate_sample :: "(nat \<Rightarrow> rat) \<Rightarrow> sample \<Rightarrow> sample_metrics" where
  "evaluate_sample lg s =
    (case citation_sets s of (cited, expected) \<Rightarrow>
     \<lparr>mt_document_hit = hit_value (sm_retrieved_docs s) (sm_relevant_docs s),
      mt_chunk_hit = hit_value (sm_retrieved s) (sm_relevant s),
      mt_recall_1 = recall_at s 1, mt_recall_5 = recall_at s 5, mt_recall_10 = recall_at s 10,
      mt_rr = reciprocal_rank s, mt_ndcg_10 = ndcg lg s 10,
      mt_points = set_recall (sm_covered s) (sm_points s),
      mt_citation_accuracy = set_precision cited expected,
      mt_citation_completeness = citation_recall cited expected,
      mt_doc_accuracy = set_precision (sm_cited_docs s) (sm_relevant_docs s),
      mt_doc_completeness = citation_recall (sm_cited_docs s) (sm_relevant_docs s),
      mt_refusal_correct = flag (\<not> sm_failed s \<and> sm_refused s = sm_should_refuse s),
      mt_hallucination = (if 0 < sm_claims s then ratio (sm_hallucinated s) (sm_claims s) else 0),
      mt_grounded = answer_grounded s cited,
      mt_unsupported = flag (\<not> sm_failed s \<and> sm_should_refuse s \<and> \<not> sm_refused s),
      mt_success = flag (\<not> sm_failed s)\<rparr>)"

section \<open>The aggregate\<close>

definition avg :: "rat list \<Rightarrow> rat" where
  "avg xs = (if xs = [] then 0 else sum_list xs / of_nat (length xs))"

definition percentile :: "rat list \<Rightarrow> rat \<Rightarrow> rat" where
  "percentile xs q = (if xs = [] then 0 else xs ! nat (max 0 (\<lceil>q * of_nat (length xs)\<rceil> - 1)))"

record aggregate =
  ag_count :: nat
  ag_recall_1 :: rat
  ag_recall_5 :: rat
  ag_recall_10 :: rat
  ag_mrr :: rat
  ag_ndcg :: rat
  ag_points :: rat
  ag_refusal_accuracy :: rat
  ag_hallucination :: rat
  ag_citation_precision :: rat
  ag_citation_recall :: rat
  ag_emitted_precision :: rat
  ag_emitted_recall :: rat
  ag_doc_precision :: rat
  ag_doc_recall :: rat
  ag_emitted_doc_precision :: rat
  ag_emitted_doc_recall :: rat
  ag_grounding :: rat
  ag_unsupported :: rat
  ag_refusal_precision :: rat
  ag_refusal_recall :: rat
  ag_supported_recall :: rat
  ag_p50 :: rat
  ag_p95 :: rat
  ag_tokens :: rat
  ag_cost :: rat
  ag_document_hit :: rat
  ag_chunk_hit :: rat
  ag_claims :: nat
  ag_claim_questions :: nat
  ag_citation_questions :: nat
  ag_answered :: nat
  ag_refusal_cases :: nat
  ag_errors :: nat
  ag_scored :: nat

definition or_zero :: "nat \<Rightarrow> nat \<Rightarrow> rat" where
  "or_zero a b = (if b = 0 then 0 else ratio a b)"

definition evaluate_samples :: "(nat \<Rightarrow> rat) \<Rightarrow> sample list \<Rightarrow> aggregate" where
  "evaluate_samples lg samples =
    (let m = evaluate_sample lg;
         scored = filter (\<lambda>s. \<not> sm_failed s) samples;
         answered = filter (\<lambda>s. \<not> sm_refused s) scored;
         refusal_cases = filter sm_should_refuse scored;
         citation = filter (\<lambda>s. \<not> (sm_should_refuse s \<and> sm_refused s)) scored;
         claimed = filter (\<lambda>s. 0 < sm_claims s) samples;
         latencies = sort (map sm_latency samples)
     in
     \<lparr>ag_count = length samples,
      ag_recall_1 = avg (map (mt_recall_1 \<circ> m) scored), ag_recall_5 = avg (map (mt_recall_5 \<circ> m) scored),
      ag_recall_10 = avg (map (mt_recall_10 \<circ> m) scored), ag_mrr = avg (map (mt_rr \<circ> m) scored),
      ag_ndcg = avg (map (mt_ndcg_10 \<circ> m) scored), ag_points = avg (map (mt_points \<circ> m) scored),
      ag_refusal_accuracy = avg (map (mt_refusal_correct \<circ> m) scored),
      ag_hallucination = or_zero (\<Sum>s\<leftarrow>claimed. sm_hallucinated s) (\<Sum>s\<leftarrow>claimed. sm_claims s),
      ag_citation_precision = avg (map (mt_citation_accuracy \<circ> m) citation),
      ag_citation_recall = avg (map (mt_citation_completeness \<circ> m) citation),
      ag_emitted_precision = avg (map (mt_citation_accuracy \<circ> m) answered),
      ag_emitted_recall = avg (map (mt_citation_completeness \<circ> m) answered),
      ag_doc_precision = avg (map (mt_doc_accuracy \<circ> m) citation),
      ag_doc_recall = avg (map (mt_doc_completeness \<circ> m) citation),
      ag_emitted_doc_precision = avg (map (mt_doc_accuracy \<circ> m) answered),
      ag_emitted_doc_recall = avg (map (mt_doc_completeness \<circ> m) answered),
      ag_grounding = avg (map (mt_grounded \<circ> m) answered),
      ag_unsupported = avg (map (mt_unsupported \<circ> m) refusal_cases),
      ag_refusal_precision = or_zero (count_if (\<lambda>s. sm_refused s \<and> sm_should_refuse s) scored) (count_if sm_refused scored),
      ag_refusal_recall = or_zero (count_if (\<lambda>s. sm_refused s \<and> sm_should_refuse s) scored) (count_if sm_should_refuse scored),
      ag_supported_recall = or_zero (count_if (\<lambda>s. \<not> sm_should_refuse s \<and> \<not> sm_refused s) scored)
        (count_if (\<lambda>s. \<not> sm_should_refuse s) scored),
      ag_p50 = percentile latencies (1/2), ag_p95 = percentile latencies (95/100),
      ag_tokens = avg (map (of_nat \<circ> sm_tokens) samples), ag_cost = avg (map sm_cost samples),
      ag_document_hit = avg (map (mt_document_hit \<circ> m) scored), ag_chunk_hit = avg (map (mt_chunk_hit \<circ> m) scored),
      ag_claims = (\<Sum>s\<leftarrow>claimed. sm_claims s), ag_claim_questions = length claimed,
      ag_citation_questions = length citation, ag_answered = length answered,
      ag_refusal_cases = length refusal_cases, ag_errors = count_if sm_failed samples, ag_scored = length scored\<rparr>)"

section \<open>Rates are between 0 and 1\<close>

definition unit_rate :: "rat \<Rightarrow> bool" where
  "unit_rate x \<longleftrightarrow> 0 \<le> x \<and> x \<le> 1"

named_theorems unit_rates

lemma unit_flag [unit_rates]: "unit_rate (flag b)"
  by (simp add: unit_rate_def flag_def)

lemma unit_bits [unit_rates]: "unit_rate 0" "unit_rate 1"
  by (simp_all add: unit_rate_def)

lemma unit_ratio: "a \<le> b \<Longrightarrow> unit_rate (ratio a b)"
  by (cases "b = 0") (simp_all add: unit_rate_def ratio_def)

lemma unit_or_zero: "a \<le> b \<Longrightarrow> unit_rate (or_zero a b)"
  by (simp add: or_zero_def unit_ratio unit_rates)

lemma unit_sum: "(\<And>x. x \<in> set xs \<Longrightarrow> unit_rate x) \<Longrightarrow> 0 \<le> sum_list xs \<and> sum_list xs \<le> of_nat (length xs)"
proof (induction xs)
  case (Cons x xs)
  then have "unit_rate x" "0 \<le> sum_list xs \<and> sum_list xs \<le> of_nat (length xs)" by simp_all
  then show ?case by (simp add: unit_rate_def)
qed simp

lemma unit_avg: "(\<And>x. x \<in> set xs \<Longrightarrow> unit_rate x) \<Longrightarrow> unit_rate (avg xs)"
  using unit_sum [of xs] by (auto simp: avg_def unit_rate_def divide_le_eq)

lemma fcard_inter1: "fcard (A |\<inter>| B) \<le> fcard A"
  by (intro fcard_mono) auto

lemma fcard_inter2: "fcard (A |\<inter>| B) \<le> fcard B"
  by (intro fcard_mono) auto

lemma unit_hit [unit_rates]: "unit_rate (hit_value xs r)"
  by (simp add: hit_value_def unit_rates)

lemma unit_recall [unit_rates]: "unit_rate (recall_at s k)"
  by (simp add: recall_at_def unit_rates unit_ratio fcard_inter2 split: prod.split)

lemma unit_set_precision [unit_rates]: "unit_rate (set_precision a e)"
  by (simp add: set_precision_def unit_rates unit_ratio fcard_inter1)

lemma unit_set_recall [unit_rates]: "unit_rate (set_recall a e)"
  by (simp add: set_recall_def unit_rates unit_ratio fcard_inter2)

lemma unit_citation_recall [unit_rates]: "unit_rate (citation_recall a e)"
  by (simp add: citation_recall_def unit_rates unit_ratio fcard_inter2)

lemma first_rank_ge: "first_rank xs r n = Some m \<Longrightarrow> n \<le> m"
  by (induction xs r n rule: first_rank.induct) (auto split: if_splits)

lemma first_rank_None: "first_rank xs r n = None \<longleftrightarrow> (\<forall>x \<in> set xs. x |\<notin>| r)"
  by (induction xs r n rule: first_rank.induct) auto

lemma unit_rr [unit_rates]: "unit_rate (reciprocal_rank s)"
proof -
  have "unit_rate (1 / of_nat m)" if "first_rank xs r 1 = Some m" for xs r m
    using first_rank_ge [OF that] by (simp add: unit_rate_def)
  then show ?thesis by (auto simp: reciprocal_rank_def unit_rates split: prod.splits option.splits)
qed

lemma unit_grounded [unit_rates]: "unit_rate (answer_grounded s c)"
  by (simp add: answer_grounded_def unit_rates split: option.split)

section \<open>The discounted gain\<close>

definition log_like :: "(nat \<Rightarrow> rat) \<Rightarrow> bool" where
  "log_like lg \<longleftrightarrow> (\<forall>n. 2 \<le> n \<longrightarrow> 0 < lg n) \<and> (\<forall>m n. 2 \<le> m \<and> m \<le> n \<longrightarrow> lg m \<le> lg n)"

definition ideal :: "(nat \<Rightarrow> rat) \<Rightarrow> nat \<Rightarrow> nat \<Rightarrow> rat" where
  "ideal lg r c = (\<Sum>i\<leftarrow>[r..<r + c]. 1 / lg (i + 1))"

definition gain_from :: "(nat \<Rightarrow> rat) \<Rightarrow> nat \<Rightarrow> rat list \<Rightarrow> rat" where
  "gain_from lg r gains = (\<Sum>(rank, gain)\<leftarrow>enum_from r gains. gain / lg (rank + 1))"

lemma gain_from_simps [simp]:
  "gain_from lg r [] = 0" "gain_from lg r (g # gs) = g / lg (r + 1) + gain_from lg (Suc r) gs"
  by (simp_all add: gain_from_def upt_conv_Cons)

lemma ideal_Suc: "ideal lg r (Suc c) = 1 / lg (r + 1) + ideal lg (Suc r) c"
  by (simp add: ideal_def upt_conv_Cons del: upt_Suc)

lemma ideal_0 [simp]: "ideal lg r 0 = 0"
  by (simp add: ideal_def)

lemma ideal_pos: "log_like lg \<Longrightarrow> 1 \<le> r \<Longrightarrow> 0 \<le> ideal lg r c"
proof (induction c arbitrary: r)
  case (Suc c)
  then have "0 < lg (r + 1)" "0 \<le> ideal lg (Suc r) c" by (simp_all add: log_like_def)
  then show ?case by (simp add: ideal_Suc)
qed simp

lemma discount_anti: "log_like lg \<Longrightarrow> 1 \<le> r \<Longrightarrow> r \<le> k \<Longrightarrow> 1 / lg (k + 1) \<le> 1 / lg (r + 1)"
  by (intro divide_left_mono mult_pos_pos) (simp_all add: log_like_def)

lemma ideal_shift: "log_like lg \<Longrightarrow> 1 \<le> r \<Longrightarrow> ideal lg (Suc r) c \<le> ideal lg r c"
proof (induction c arbitrary: r)
  case (Suc c)
  have "1 / lg (Suc r + 1) \<le> 1 / lg (r + 1)" using Suc.prems by (intro discount_anti) simp_all
  then show ?case using Suc by (simp add: ideal_Suc add_mono)
qed simp

lemma ideal_mono: "log_like lg \<Longrightarrow> 1 \<le> r \<Longrightarrow> c \<le> d \<Longrightarrow> ideal lg r c \<le> ideal lg r d"
proof (induction c arbitrary: r d)
  case 0
  then show ?case by (simp add: ideal_pos)
next
  case (Suc c)
  then obtain d' where "d = Suc d'" by (cases d) auto
  then show ?case using Suc by (simp add: ideal_Suc)
qed

text \<open>No order of the hits gains more than the relevant ones first.\<close>

lemma gain_le_ideal:
  assumes "log_like lg"
  shows "1 \<le> r \<Longrightarrow> 0 \<le> gain_from lg r (map (\<lambda>x. if P x then 1 else 0) xs)
    \<and> gain_from lg r (map (\<lambda>x. if P x then 1 else 0) xs) \<le> ideal lg r (count_if P xs)"
proof (induction xs arbitrary: r)
  case Nil
  then show ?case by (simp add: count_if_def)
next
  case (Cons x xs)
  have IH: "0 \<le> gain_from lg (Suc r) (map (\<lambda>x. if P x then 1 else 0) xs)"
    "gain_from lg (Suc r) (map (\<lambda>x. if P x then 1 else 0) xs) \<le> ideal lg (Suc r) (count_if P xs)"
    using Cons.IH [of "Suc r"] by simp_all
  have pos: "0 < lg (r + 1)" using assms Cons.prems by (simp add: log_like_def)
  show ?case
  proof (cases "P x")
    case True
    then have "count_if P (x # xs) = Suc (count_if P xs)" by (simp add: count_if_def)
    then show ?thesis using True IH pos by (simp add: ideal_Suc)
  next
    case False
    then have "count_if P (x # xs) = count_if P xs" by (simp add: count_if_def)
    then show ?thesis using False IH ideal_shift [OF assms Cons.prems, of "count_if P xs"] by simp
  qed
qed

lemma count_relevant: "distinct xs \<Longrightarrow> count_if (\<lambda>x. x |\<in>| r) xs \<le> fcard r"
proof -
  assume d: "distinct xs"
  have "count_if (\<lambda>x. x |\<in>| r) xs = card (set (filter (\<lambda>x. x |\<in>| r) xs))"
    using d by (simp add: count_if_def distinct_card del: set_filter)
  also have "\<dots> \<le> card (fset r)" by (intro card_mono) auto
  finally show ?thesis by (simp add: fcard.rep_eq)
qed

lemma ndcg_ideal:
  "ndcg lg s k = (case ranking_sets s of (retrieved, relevant) \<Rightarrow>
     if ideal lg 1 (min k (fcard relevant)) \<noteq> 0
     then gain_from lg 1 (map (\<lambda>x. if x |\<in>| relevant then 1 else 0) (take k (nub retrieved))) / ideal lg 1 (min k (fcard relevant))
     else 1)"
  by (simp only: ndcg_def gain_sum_def gain_from_def ideal_def Let_def add.commute)

lemma unit_ndcg: "log_like lg \<Longrightarrow> unit_rate (ndcg lg s k)"
proof -
  assume lg: "log_like lg"
  obtain retrieved relevant where r: "ranking_sets s = (retrieved, relevant)" by (cases "ranking_sets s")
  let ?xs = "take k (nub retrieved)" and ?P = "\<lambda>x. x |\<in>| relevant"
  let ?g = "gain_from lg 1 (map (\<lambda>x. if ?P x then 1 else 0) ?xs)" and ?i = "ideal lg 1 (min k (fcard relevant))"
  have "count_if ?P ?xs \<le> min k (fcard relevant)"
    using count_relevant [of ?xs relevant] count_if_le [of ?P ?xs] by simp
  then have "?g \<le> ?i" "0 \<le> ?g"
    using gain_le_ideal [OF lg, of 1 ?P ?xs] ideal_mono [OF lg, of 1 "count_if ?P ?xs" "min k (fcard relevant)"] by auto
  moreover have "0 \<le> ?i" using lg by (simp add: ideal_pos)
  ultimately show ?thesis unfolding ndcg_ideal r prod.case unit_rate_def by (auto simp: divide_le_eq)
qed

section \<open>Bounds of all metrics\<close>

definition unit_metrics :: "sample_metrics \<Rightarrow> bool" where
  "unit_metrics m \<longleftrightarrow> list_all (\<lambda>f. unit_rate (f m)) [mt_document_hit, mt_chunk_hit, mt_recall_1, mt_recall_5,
     mt_recall_10, mt_rr, mt_ndcg_10, mt_points, mt_citation_accuracy, mt_citation_completeness, mt_doc_accuracy,
     mt_doc_completeness, mt_refusal_correct, mt_hallucination, mt_grounded, mt_unsupported, mt_success]"

definition unit_aggregate :: "aggregate \<Rightarrow> bool" where
  "unit_aggregate a \<longleftrightarrow> list_all (\<lambda>f. unit_rate (f a)) [ag_recall_1, ag_recall_5, ag_recall_10, ag_mrr, ag_ndcg,
     ag_points, ag_refusal_accuracy, ag_hallucination, ag_citation_precision, ag_citation_recall,
     ag_emitted_precision, ag_emitted_recall, ag_doc_precision, ag_doc_recall, ag_emitted_doc_precision,
     ag_emitted_doc_recall, ag_grounding, ag_unsupported, ag_refusal_precision, ag_refusal_recall,
     ag_supported_recall, ag_document_hit, ag_chunk_hit]"

lemma unit_evaluate: "log_like lg \<Longrightarrow> sm_hallucinated s \<le> sm_claims s \<Longrightarrow> unit_metrics (evaluate_sample lg s)"
  by (simp add: unit_metrics_def evaluate_sample_def unit_rates unit_ratio unit_ndcg split: prod.split)

lemma sum_hallucinated:
  "(\<And>s. s \<in> set xs \<Longrightarrow> sm_hallucinated s \<le> sm_claims s) \<Longrightarrow>
    (\<Sum>s\<leftarrow>xs. sm_hallucinated s) \<le> (\<Sum>s\<leftarrow>xs. sm_claims s)"
  by (induction xs) (simp_all add: add_mono)

lemma count_if_mono: "(\<And>x. P x \<Longrightarrow> Q x) \<Longrightarrow> count_if P xs \<le> count_if Q xs"
  by (induction xs) (auto simp: count_if_def)

lemma unit_evaluate_samples:
  assumes "log_like lg" "\<And>s. s \<in> set samples \<Longrightarrow> sm_hallucinated s \<le> sm_claims s"
  shows "unit_aggregate (evaluate_samples lg samples)"
proof -
  have u: "unit_metrics (evaluate_sample lg s)" if "s \<in> set samples" for s
    using unit_evaluate [OF assms(1) assms(2) [OF that]] .
  have f: "unit_rate (avg (map (f \<circ> evaluate_sample lg) (filter P samples)))"
    if "\<And>m. unit_metrics m \<Longrightarrow> unit_rate (f m)" for f P
    using that u by (intro unit_avg) auto
  have g: "unit_rate (avg (map (f \<circ> evaluate_sample lg) (filter P (filter Q samples))))"
    if "\<And>m. unit_metrics m \<Longrightarrow> unit_rate (f m)" for f P Q
    using that u by (intro unit_avg) auto
  have h: "(\<Sum>s\<leftarrow>filter P samples. sm_hallucinated s) \<le> (\<Sum>s\<leftarrow>filter P samples. sm_claims s)" for P
    using assms(2) by (intro sum_hallucinated) auto
  show ?thesis
    unfolding unit_aggregate_def evaluate_samples_def Let_def list.pred_inject aggregate.simps
    by (intro conjI TrueI f g unit_or_zero h count_if_mono) (simp_all add: unit_metrics_def)
qed

section \<open>Percentiles\<close>

lemma sorted_count_le:
  "sorted xs \<Longrightarrow> i < length xs \<Longrightarrow> Suc i \<le> count_if (\<lambda>x. x \<le> xs ! i) xs"
proof -
  assume s: "sorted xs" and i: "i < length xs"
  have "\<forall>x \<in> set (take (Suc i) xs). x \<le> xs ! i"
    using s i by (auto simp: in_set_conv_nth sorted_iff_nth_mono)
  then have "filter (\<lambda>x. x \<le> xs ! i) (take (Suc i) xs) = take (Suc i) xs" by (simp add: filter_id_conv)
  then have "filter (\<lambda>x. x \<le> xs ! i) xs = take (Suc i) xs @ filter (\<lambda>x. x \<le> xs ! i) (drop (Suc i) xs)"
    by (metis append_take_drop_id filter_append)
  then have "count_if (\<lambda>x. x \<le> xs ! i) xs = length (take (Suc i) xs) + length (filter (\<lambda>x. x \<le> xs ! i) (drop (Suc i) xs))"
    by (simp add: count_if_def)
  then show ?thesis using i by simp
qed

lemma sorted_count_less: "sorted xs \<Longrightarrow> i < length xs \<Longrightarrow> count_if (\<lambda>x. x < xs ! i) xs \<le> i"
proof -
  assume s: "sorted xs" and i: "i < length xs"
  have "\<forall>x \<in> set (drop i xs). \<not> x < xs ! i"
    using s i by (auto simp: in_set_conv_nth sorted_iff_nth_mono not_less)
  then have "filter (\<lambda>x. x < xs ! i) (drop i xs) = []" by (simp add: filter_empty_conv)
  then have "filter (\<lambda>x. x < xs ! i) xs = filter (\<lambda>x. x < xs ! i) (take i xs)"
    by (metis append_Nil2 append_take_drop_id filter_append)
  then have "count_if (\<lambda>x. x < xs ! i) xs \<le> length (take i xs)"
    unfolding count_if_def by (simp only: length_filter_le)
  then show ?thesis by simp
qed

lemma count_if_sort: "count_if P (sort xs) = count_if P xs"
  unfolding count_if_def by (metis filter_sort length_sort)

lemma percentile_rank:
  assumes "xs \<noteq> []" "0 < q" "q \<le> 1"
  shows "percentile (sort xs) q \<in> set xs
    \<and> q * of_nat (length xs) \<le> of_nat (count_if (\<lambda>x. x \<le> percentile (sort xs) q) xs)
    \<and> of_nat (count_if (\<lambda>x. x < percentile (sort xs) q) xs) < q * of_nat (length xs)"
proof -
  let ?n = "length xs" let ?c = "\<lceil>q * of_nat ?n\<rceil>" let ?i = "nat (?c - 1)"
  have pos: "0 < q * of_nat ?n" using assms(1,2) by simp
  then have c: "1 \<le> ?c" by (simp add: less_ceiling_iff one_le_ceiling)
  have "q * of_nat ?n \<le> of_nat ?n" using assms(3) mult_right_mono [of q 1 "of_nat ?n"] by simp
  then have "?c \<le> int ?n" by (simp add: ceiling_le_iff)
  then have i: "?i < length (sort xs)" using c unfolding length_sort by linarith
  have p: "percentile (sort xs) q = sort xs ! ?i"
  proof -
    have "sort xs \<noteq> []" using i by (cases "sort xs") simp_all
    then show ?thesis using c by (simp add: percentile_def)
  qed
  have "q * of_nat ?n \<le> of_int ?c" by (rule le_of_int_ceiling)
  also have "of_int ?c = (of_nat (Suc ?i) :: rat)" using c by (simp add: of_nat_nat)
  also have "\<dots> \<le> of_nat (count_if (\<lambda>x. x \<le> sort xs ! ?i) (sort xs))"
    using sorted_count_le [OF sorted_sort i] by (simp only: of_nat_le_iff)
  finally have 1: "q * of_nat ?n \<le> of_nat (count_if (\<lambda>x. x \<le> sort xs ! ?i) xs)" by (simp add: count_if_sort)
  have "of_nat (count_if (\<lambda>x. x < sort xs ! ?i) (sort xs)) \<le> (of_nat ?i :: rat)"
    using sorted_count_less [OF sorted_sort i] by (simp only: of_nat_le_iff)
  also have "\<dots> = of_int (?c - 1)" using c by (simp add: of_nat_nat)
  also have "\<dots> < q * of_nat ?n" by (simp add: of_int_less_iff ceiling_less_iff) linarith
  finally have 2: "of_nat (count_if (\<lambda>x. x < sort xs ! ?i) xs) < q * of_nat ?n" by (simp add: count_if_sort)
  show ?thesis unfolding p using 1 2 nth_mem [OF i] by simp
qed

section \<open>Ranking\<close>

lemma recall_mono: "j \<le> k \<Longrightarrow> recall_at s j \<le> recall_at s k"
proof -
  assume jk: "j \<le> k"
  obtain xs r where r: "ranking_sets s = (xs, r)" by (cases "ranking_sets s")
  have "fset_of_list (take j xs) |\<inter>| r |\<subseteq>| fset_of_list (take k xs) |\<inter>| r"
    using set_take_subset_set_take [OF jk, of xs] by (auto simp: fset_of_list_elem)
  then have "fcard (fset_of_list (take j xs) |\<inter>| r) \<le> fcard (fset_of_list (take k xs) |\<inter>| r)"
    by (rule fcard_mono)
  then show ?thesis by (simp add: recall_at_def r ratio_def divide_right_mono)
qed

lemma first_rank_some: "first_rank xs r n \<noteq> None \<longleftrightarrow> (\<exists>x \<in> set xs. x |\<in>| r)"
  unfolding first_rank_None by blast

lemma rr_pos: "0 < reciprocal_rank s \<longleftrightarrow>
    (case ranking_sets s of (xs, r) \<Rightarrow> r = {||} \<or> (\<exists>x \<in> set xs. x |\<in>| r))"
proof -
  obtain xs r where r: "ranking_sets s = (xs, r)" by (cases "ranking_sets s")
  show ?thesis
  proof (cases "first_rank (nub xs) r 1")
    case None
    then have "\<forall>x \<in> set xs. x |\<notin>| r" using first_rank_None [of "nub xs" r 1] by simp
    then show ?thesis using None by (simp add: reciprocal_rank_def r)
  next
    case (Some m)
    then have "\<exists>x \<in> set xs. x |\<in>| r" "1 \<le> m" using first_rank_some [of "nub xs" r 1] first_rank_ge [OF Some] by auto
    then show ?thesis using Some by (simp add: reciprocal_rank_def r)
  qed
qed

lemma gain_all: "gain_from lg r (map (\<lambda>x. 1) xs) = ideal lg r (length xs)"
  by (induction xs arbitrary: r) (simp_all add: ideal_Suc)

lemma gain_ideal_first:
  assumes "log_like lg" "1 \<le> r" "\<forall>x \<in> set (take c xs). P x" "c \<le> length xs"
  shows "ideal lg r c \<le> gain_from lg r (map (\<lambda>x. if P x then 1 else 0) xs)"
  using assms(2-)
proof (induction c arbitrary: r xs)
  case 0
  then show ?case using gain_le_ideal [OF assms(1), of r P xs] by simp
next
  case (Suc c)
  then obtain x ys where x: "xs = x # ys" by (cases xs) auto
  have "ideal lg (Suc r) c \<le> gain_from lg (Suc r) (map (\<lambda>x. if P x then 1 else 0) ys)"
    using Suc.prems x by (intro Suc.IH) auto
  then show ?case using Suc.prems x by (simp add: ideal_Suc)
qed

section \<open>Properties\<close>

theorem metrics_in_unit:
  assumes "log_like lg" "\<And>s. s \<in> set samples \<Longrightarrow> sm_hallucinated s \<le> sm_claims s"
  shows "(\<forall>s \<in> set samples. unit_metrics (evaluate_sample lg s)) \<and> unit_aggregate (evaluate_samples lg samples)"
  using unit_evaluate [OF assms(1)] unit_evaluate_samples [OF assms] assms(2) by blast

definition sample_question :: sample where
  "sample_question = \<lparr>sm_retrieved = [asc ''a'', asc ''b''], sm_relevant = {|asc ''b''|}, sm_points = {||}, sm_covered = {||},
     sm_expected = {||}, sm_cited = {||}, sm_should_refuse = False, sm_refused = False, sm_hallucinated = 1,
     sm_claims = 2, sm_latency = 3, sm_tokens = 4, sm_cost = 0, sm_retrieved_docs = [], sm_relevant_docs = {||},
     sm_cited_docs = {||}, sm_grounding = None, sm_failed = False\<rparr>"

lemma metrics_in_unit_witness: "unit_aggregate (evaluate_samples of_nat [sample_question])"
  by (rule conjunct2 [OF metrics_in_unit]) (auto simp: log_like_def sample_question_def)

theorem ranking_metrics:
  assumes "log_like lg"
  shows "recall_at s 1 \<le> recall_at s 5 \<and> recall_at s 5 \<le> recall_at s 10
    \<and> (0 < reciprocal_rank s \<longleftrightarrow> snd (ranking_sets s) = {||}
        \<or> (\<exists>x \<in> set (fst (ranking_sets s)). x |\<in>| snd (ranking_sets s)))
    \<and> (min k (fcard (snd (ranking_sets s))) \<le> length (nub (fst (ranking_sets s)))
        \<and> (\<forall>x \<in> set (take (min k (fcard (snd (ranking_sets s)))) (nub (fst (ranking_sets s)))). x |\<in>| snd (ranking_sets s))
        \<longrightarrow> ndcg lg s k = 1)"
proof -
  obtain xs r where r: "ranking_sets s = (xs, r)" by (cases "ranking_sets s")
  let ?m = "min k (fcard r)" and ?xs = "take k (nub xs)"
  let ?g = "gain_from lg 1 (map (\<lambda>x. if x |\<in>| r then 1 else 0) ?xs)"
  have "ndcg lg s k = 1" if "?m \<le> length (nub xs)" "\<forall>x \<in> set (take ?m (nub xs)). x |\<in>| r"
  proof -
    have "ideal lg 1 ?m \<le> ?g" using that by (intro gain_ideal_first [OF assms]) (simp_all add: min_def)
    moreover have "?g \<le> ideal lg 1 (count_if (\<lambda>x. x |\<in>| r) ?xs)" using gain_le_ideal [OF assms, of 1 _ ?xs] by simp
    moreover have "count_if (\<lambda>x. x |\<in>| r) ?xs \<le> ?m"
      using count_relevant [of ?xs r] count_if_le [of "\<lambda>x. x |\<in>| r" ?xs] by simp
    ultimately have "?g = ideal lg 1 ?m" using ideal_mono [OF assms, of 1 "count_if (\<lambda>x. x |\<in>| r) ?xs" ?m] by simp
    then show ?thesis by (simp only: ndcg_ideal r prod.case) simp
  qed
  then show ?thesis using rr_pos [of s] recall_mono [of 1 5 s] recall_mono [of 5 10 s] r by simp
qed

lemma ranking_metrics_witness: "0 < reciprocal_rank sample_question"
proof -
  have "log_like of_nat" by (auto simp: log_like_def)
  from ranking_metrics [OF this, of sample_question 10] show ?thesis
    by (simp add: ranking_sets_def sample_question_def)
qed

theorem nearest_rank:
  assumes "samples \<noteq> []"
  shows "ag_p95 (evaluate_samples lg samples) \<in> set (map sm_latency samples)
    \<and> 95 * length samples \<le> 100 * count_if (\<lambda>x. x \<le> ag_p95 (evaluate_samples lg samples)) (map sm_latency samples)
    \<and> 100 * count_if (\<lambda>x. x < ag_p95 (evaluate_samples lg samples)) (map sm_latency samples) < 95 * length samples
    \<and> ag_p50 (evaluate_samples lg samples) \<in> set (map sm_latency samples)
    \<and> ag_p50 (evaluate_samples lg samples) \<le> ag_p95 (evaluate_samples lg samples)"
proof -
  let ?xs = "map sm_latency samples"
  have p: "ag_p95 (evaluate_samples lg samples) = percentile (sort ?xs) (95/100)"
    "ag_p50 (evaluate_samples lg samples) = percentile (sort ?xs) (1/2)"
    by (simp_all add: evaluate_samples_def Let_def)
  have r: "?xs \<noteq> []" using assms by simp
  note a = percentile_rank [OF r, of "95/100"] and b = percentile_rank [OF r, of "1/2"]
  have "percentile (sort ?xs) (1/2) \<le> percentile (sort ?xs) (95/100)"
  proof (rule ccontr)
    assume "\<not> ?thesis"
    then have "count_if (\<lambda>x. x \<le> percentile (sort ?xs) (95/100)) ?xs \<le> count_if (\<lambda>x. x < percentile (sort ?xs) (1/2)) ?xs"
      by (intro count_if_mono) simp
    then have "(of_nat (count_if (\<lambda>x. x \<le> percentile (sort ?xs) (95/100)) ?xs) :: rat)
        \<le> of_nat (count_if (\<lambda>x. x < percentile (sort ?xs) (1/2)) ?xs)" by (simp only: of_nat_le_iff)
    then have "95/100 * (of_nat (length ?xs) :: rat) < 1/2 * of_nat (length ?xs)" using a b by linarith
    then show False by simp
  qed
  moreover have "95 * length samples \<le> 100 * count_if (\<lambda>x. x \<le> percentile (sort ?xs) (95/100)) ?xs"
    if "95/100 * of_nat (length ?xs) \<le> (of_nat (count_if (\<lambda>x. x \<le> percentile (sort ?xs) (95/100)) ?xs) :: rat)"
  proof -
    have "of_nat (95 * length samples) \<le> (of_nat (100 * count_if (\<lambda>x. x \<le> percentile (sort ?xs) (95/100)) ?xs) :: rat)"
      using that by simp
    then show ?thesis by (simp only: of_nat_le_iff)
  qed
  moreover have "100 * count_if (\<lambda>x. x < percentile (sort ?xs) (95/100)) ?xs < 95 * length samples"
    if "(of_nat (count_if (\<lambda>x. x < percentile (sort ?xs) (95/100)) ?xs) :: rat) < 95/100 * of_nat (length ?xs)"
  proof -
    have "(of_nat (100 * count_if (\<lambda>x. x < percentile (sort ?xs) (95/100)) ?xs) :: rat) < of_nat (95 * length samples)"
      using that by simp
    then show ?thesis by (simp only: of_nat_less_iff)
  qed
  ultimately show ?thesis unfolding p using a b by simp
qed

lemma nearest_rank_witness: "ag_p50 (evaluate_samples of_nat [sample_question]) \<in> set (map sm_latency [sample_question])"
  using nearest_rank [of "[sample_question]" of_nat] by blast

end
