(* ===== verification/Grounding.thy ===== *)
theory Grounding
  imports Retrieval PyRegexSplit "HOL-Library.List_Lexorder"
begin

text \<open>
  \<open>backend/app/rag/grounding.py\<close>: whether the retrieved hits are evidence enough to answer, and
  which of them may be cited. A metadata value is a \<open>pyval\<close>; sets whose order never shows are lists
  without duplicates.
\<close>

section \<open>Data\<close>

record citation =
  ci_document :: ustr
  ci_chunk :: ustr
  ci_title :: ustr
  ci_source :: ustr
  ci_date :: "ustr option"
  ci_url :: ustr
  ci_page :: pyval
  ci_quote :: ustr

record evidence_decision =
  ev_sufficient :: bool
  ev_reasons :: "string list"
  ev_conflicts :: "ustr list"
  ev_outdated :: "ustr list"
  ev_citations :: "citation list"

record grounding_config =
  gc_hits :: int
  gc_score :: rat
  gc_quote :: int
  gc_official :: bool
  gc_refuse :: bool

section \<open>Grouping\<close>

definition add_to :: "'k \<Rightarrow> 'v \<Rightarrow> ('k, 'v list) dict \<Rightarrow> ('k, 'v list) dict" where
  "add_to k v d = dset k (dget_or d k [] @ [v]) d"

definition gather :: "('k \<times> 'v) list \<Rightarrow> ('k, 'v list) dict" where
  "gather kvs = fold (\<lambda>(k, v). add_to k v) kvs []"

definition entries_of :: "'k \<Rightarrow> ('k \<times> 'v) list \<Rightarrow> 'v list" where
  "entries_of k kvs = map snd (filter (\<lambda>kv. fst kv = k) kvs)"

lemma fold_add_to:
  "dget_or (fold (\<lambda>(k, v). add_to k v) kvs d) k [] = dget_or d k [] @ entries_of k kvs"
  by (induction kvs arbitrary: d) (auto simp: add_to_def dget_or_def dget_dset entries_of_def)

lemma gather_keys_distinct: "distinct (dkeys (gather kvs))"
proof -
  have "distinct (dkeys d) \<Longrightarrow> distinct (dkeys (fold (\<lambda>(k, v). add_to k v) kvs d))" for d
    by (induction kvs arbitrary: d) (auto simp: add_to_def distinct_update)
  then show ?thesis by (simp add: gather_def)
qed

lemma gather_keys: "fst ` set (gather kvs) = fst ` set kvs"
proof -
  have "fst ` set (fold (\<lambda>(k, v). add_to k v) kvs d) = fst ` set d \<union> fst ` set kvs" for d
    by (induction kvs arbitrary: d) (simp_all add: add_to_def fst_set_dset case_prod_beta)
  then show ?thesis by (simp add: gather_def)
qed

lemma gather_entry: "(k, vs) \<in> set (gather kvs) \<longleftrightarrow> vs = entries_of k kvs \<and> k \<in> fst ` set kvs"
proof -
  have g: "dget_or (gather kvs) k [] = entries_of k kvs"
    using fold_add_to [of kvs "[]" k] by (simp add: gather_def dget_or_def)
  have "(k, vs) \<in> set (gather kvs) \<longleftrightarrow> dget (gather kvs) k = Some vs"
    using gather_keys_distinct [of kvs] by simp
  also have "\<dots> \<longleftrightarrow> vs = entries_of k kvs \<and> k \<in> fst ` set kvs"
  proof (cases "dget (gather kvs) k")
    case None
    then have "k \<notin> fst ` set kvs" using gather_keys [of kvs] by (simp add: map_of_eq_None_iff)
    then show ?thesis using None by simp
  next
    case (Some es)
    then have "k \<in> fst ` set kvs" using gather_keys [of kvs] by (force dest: map_of_SomeD)
    then show ?thesis using Some g by (auto simp: dget_or_def)
  qed
  finally show ?thesis .
qed

section \<open>The service\<close>

definition meta_text :: "hit \<Rightarrow> string \<Rightarrow> ustr \<Rightarrow> ustr" where
  "meta_text h k dflt = py_str (pget_or (h_meta h) k (PStr dflt))"

fun date_string :: "pyval \<Rightarrow> ustr option" where
  "date_string PNone = None"
| "date_string (PDate d) = Some (isoformat d)"
| "date_string v = Some (py_str v)"

fun date_value :: "pyval \<Rightarrow> date option" where
  "date_value (PDate d) = Some d"
| "date_value (PStr s) = fromisoformat (take 10 s)"
| "date_value v = None"

definition bigrams :: "ustr \<Rightarrow> ustr list" where
  "bigrams s = (if length s = 1 then [s] else map (\<lambda>i. take 2 (drop i s)) [0..<length s - 1])"

definition overlap_terms :: "ustr \<Rightarrow> ustr list" where
  "overlap_terms q =
    map lower (re_findall (Rep True 2 None (Cls False [(65, 90), (97, 122), (48, 57)])) q)
    @ concat (map bigrams (re_findall (rplus (Cls False cjk_class)) q))"

definition overlap :: "ustr \<Rightarrow> ustr \<Rightarrow> bool" where
  "overlap q content \<longleftrightarrow> overlap_terms q = [] \<or> (\<exists>t \<in> set (overlap_terms q). contains (lower content) t)"

definition cite :: "grounding_config \<Rightarrow> hit \<Rightarrow> citation" where
  "cite cfg h =
    \<lparr>ci_document = h_document h, ci_chunk = h_chunk h, ci_title = h_title h,
     ci_source = meta_text h ''source_name'' (h_source h), ci_date = date_string (pget (h_meta h) ''publish_date''),
     ci_url = h_url h, ci_page = pget (h_meta h) ''page_number'',
     ci_quote = py_take (gc_quote cfg) (strip (re_sub spaces_rx [32] (h_content h)))\<rparr>"

definition policy_of :: "hit \<Rightarrow> ustr" where
  "policy_of h = lower (strip (meta_text h ''policy_key'' (h_title h)))"

definition policy_status :: "hit \<Rightarrow> ustr" where
  "policy_status h = lower (strip (meta_text h ''policy_status'' []))"

definition detect_conflicts :: "hit list \<Rightarrow> ustr list" where
  "detect_conflicts hits =
    (let by_policy = gather (map (\<lambda>h. (policy_of h, policy_status h)) (filter (\<lambda>h. policy_status h \<noteq> []) hits))
     in map (\<lambda>(k, sts). asc ''conflicting_policy_status:'' @ k) (filter (\<lambda>(k, sts). 1 < length (nub sts)) by_policy))"

definition either :: "pyval \<Rightarrow> pyval \<Rightarrow> pyval" where
  "either a b = (if truthy a then a else b)"

definition document_key :: "hit \<Rightarrow> ustr" where
  "document_key h = strip (py_str (either (pget (h_meta h) ''document_number'')
     (either (pget (h_meta h) ''policy_key'') (PStr (h_title h)))))"

definition published :: "hit \<Rightarrow> date option" where
  "published h = date_value (pget (h_meta h) ''publish_date'')"

definition dated :: "hit list \<Rightarrow> (ustr \<times> date \<times> hit) list" where
  "dated hits = List.map_filter (\<lambda>h. case published h of
     Some d \<Rightarrow> if document_key h \<noteq> [] then Some (document_key h, d, h) else None | None \<Rightarrow> None) hits"

fun first_min :: "('a \<Rightarrow> 'k::linorder) \<Rightarrow> 'a \<Rightarrow> 'a list \<Rightarrow> 'a" where
  "first_min f m [] = m"
| "first_min f m (x # xs) = first_min f (if f x < f m then x else m) xs"

definition newest_date :: "(date \<times> hit) list \<Rightarrow> date" where
  "newest_date es = Max (set (map fst es))"

definition newest_hit :: "(date \<times> hit) list \<Rightarrow> hit" where
  "newest_hit es = (case map snd (filter (\<lambda>e. fst e = newest_date es) es) of
     [] \<Rightarrow> snd (hd es) | h # hs \<Rightarrow> first_min h_chunk h hs)"

definition older :: "(date \<times> hit) list \<Rightarrow> hit list" where
  "older es = map snd (filter (\<lambda>e. fst e < newest_date es) es)"

definition detect_outdated :: "hit list \<Rightarrow> ustr list \<times> ustr list" where
  "detect_outdated hits =
    (let grouped = gather (dated hits) in
     (concat (map (\<lambda>(k, es). map (\<lambda>h. asc ''newer_policy_available:'' @ k @ [58] @ h_chunk h @ [58]
         @ h_chunk (newest_hit es)) (older es)) grouped),
      concat (map (\<lambda>(k, es). map h_chunk (older es)) grouped)))"

definition official :: "hit \<Rightarrow> bool" where
  "official h \<longleftrightarrow> lower (meta_text h ''official_status'' []) = asc ''official''"

definition eligible_hits :: "grounding_config \<Rightarrow> hit list \<Rightarrow> hit list" where
  "eligible_hits cfg hits =
    (let scored = filter (\<lambda>h. gc_score cfg \<le> h_score h \<and> strip (h_content h) \<noteq> []) hits
     in if gc_official cfg then filter official scored else scored)"

definition ground_assess :: "grounding_config \<Rightarrow> ustr \<Rightarrow> hit list \<Rightarrow> evidence_decision" where
  "ground_assess cfg q hits =
    (let scored = filter (\<lambda>h. gc_score cfg \<le> h_score h \<and> strip (h_content h) \<noteq> []) hits;
         eligible = eligible_hits cfg hits;
         conflicts = detect_conflicts eligible;
         (outdated, outdated_ids) = detect_outdated eligible;
         reasons =
           (if int (length scored) < gc_hits cfg then [''insufficient_retrieved_evidence''] else [])
           @ (if gc_official cfg \<and> int (length eligible) < gc_hits cfg then [''official_source_required''] else [])
           @ (if eligible \<noteq> [] \<and> \<not> (\<exists>h \<in> set eligible. overlap q (h_content h)) then [''question_not_covered''] else [])
           @ (if conflicts \<noteq> [] \<and> gc_refuse cfg then [''conflicting_evidence''] else [])
     in \<lparr>ev_sufficient = (reasons = []), ev_reasons = nub reasons, ev_conflicts = conflicts, ev_outdated = outdated,
         ev_citations = map (cite cfg) (filter (\<lambda>h. h_chunk h \<notin> set outdated_ids) eligible)\<rparr>)"

section \<open>Lemmas\<close>

lemma first_min_in: "first_min f m xs \<in> set (m # xs)"
  by (induction f m xs rule: first_min.induct) auto

lemma dated_entry: "(k, d, h) \<in> set (dated hits) \<longleftrightarrow>
    h \<in> set hits \<and> published h = Some d \<and> k = document_key h \<and> k \<noteq> []"
  unfolding dated_def List.map_filter_def by (force split: option.splits if_splits)

lemma entries_dated: "(d, h) \<in> set (entries_of k (dated hits)) \<longleftrightarrow>
    h \<in> set hits \<and> published h = Some d \<and> k = document_key h \<and> k \<noteq> []"
  using dated_entry [of k d h hits] by (force simp: entries_of_def)

lemma newest_date_ge: "(d, h) \<in> set es \<Longrightarrow> d \<le> newest_date es"
  unfolding newest_date_def by (rule Max_ge) force+

lemma newest_date_in: "es \<noteq> [] \<Longrightarrow> \<exists>h. (newest_date es, h) \<in> set es"
proof -
  assume "es \<noteq> []"
  then have "newest_date es \<in> set (map fst es)" unfolding newest_date_def by (intro Max_in) auto
  then show ?thesis by auto
qed

lemma outdated_iff:
  "c \<in> set (snd (detect_outdated hits)) \<longleftrightarrow>
    (\<exists>h \<in> set hits. \<exists>g \<in> set hits. \<exists>d e. h_chunk h = c \<and> document_key h \<noteq> [] \<and> document_key g = document_key h
      \<and> published h = Some d \<and> published g = Some e \<and> d < e)"
proof
  assume "c \<in> set (snd (detect_outdated hits))"
  then obtain k es h where k: "(k, es) \<in> set (gather (dated hits))" "h \<in> set (older es)" "h_chunk h = c"
    by (auto simp: detect_outdated_def Let_def)
  then have es: "es = entries_of k (dated hits)" by (simp add: gather_entry)
  obtain d where d: "(d, h) \<in> set es" "d < newest_date es" using k(2) by (auto simp: older_def)
  then have "es \<noteq> []" by auto
  then obtain g where g: "(newest_date es, g) \<in> set es" using newest_date_in by blast
  show "\<exists>h \<in> set hits. \<exists>g \<in> set hits. \<exists>d e. h_chunk h = c \<and> document_key h \<noteq> [] \<and> document_key g = document_key h
      \<and> published h = Some d \<and> published g = Some e \<and> d < e"
    using d g k(3) unfolding es entries_dated by (intro bexI [of _ h] bexI [of _ g] exI conjI) auto
next
  assume "\<exists>h \<in> set hits. \<exists>g \<in> set hits. \<exists>d e. h_chunk h = c \<and> document_key h \<noteq> [] \<and> document_key g = document_key h
      \<and> published h = Some d \<and> published g = Some e \<and> d < e"
  then obtain h g d e where h: "h \<in> set hits" "g \<in> set hits" "h_chunk h = c" "document_key h \<noteq> []"
    "document_key g = document_key h" "published h = Some d" "published g = Some e" "d < e" by blast
  let ?k = "document_key h" let ?es = "entries_of ?k (dated hits)"
  have m: "(d, h) \<in> set ?es" "(e, g) \<in> set ?es" using h by (simp_all add: entries_dated)
  then have "d < newest_date ?es" using newest_date_ge [OF m(2)] h(8) by simp
  then have "h \<in> set (older ?es)" using m(1) by (force simp: older_def)
  moreover have "(?k, ?es) \<in> set (gather (dated hits))"
    using m(1) by (force simp: gather_entry entries_of_def)
  ultimately show "c \<in> set (snd (detect_outdated hits))"
    using h(3) by (force simp: detect_outdated_def Let_def)
qed

lemma two_values: "1 < length (nub xs) \<longleftrightarrow> (\<exists>x \<in> set xs. \<exists>y \<in> set xs. x \<noteq> y)"
proof -
  have "length (nub xs) = card (set xs)" using distinct_card [OF distinct_nub, of xs] by simp
  moreover have "1 < card (set xs) \<longleftrightarrow> (\<exists>x \<in> set xs. \<exists>y \<in> set xs. x \<noteq> y)"
    using card_le_Suc0_iff_eq [of "set xs"] by (auto simp: not_le [symmetric])
  ultimately show ?thesis by simp
qed

definition disagree :: "hit \<Rightarrow> hit \<Rightarrow> bool" where
  "disagree g h \<longleftrightarrow> policy_of g = policy_of h \<and> policy_status g \<noteq> [] \<and> policy_status h \<noteq> []
     \<and> policy_status g \<noteq> policy_status h"

lemma detect_conflicts_Nil: "detect_conflicts hits = [] \<longleftrightarrow> \<not> (\<exists>g \<in> set hits. \<exists>h \<in> set hits. disagree g h)"
proof -
  let ?kvs = "map (\<lambda>h. (policy_of h, policy_status h)) (filter (\<lambda>h. policy_status h \<noteq> []) hits)"
  have e: "v \<in> set (entries_of k ?kvs) \<longleftrightarrow> (\<exists>h \<in> set hits. policy_status h \<noteq> [] \<and> policy_of h = k \<and> policy_status h = v)" for k v
    by (force simp: entries_of_def)
  have "detect_conflicts hits \<noteq> [] \<longleftrightarrow> (\<exists>k \<in> fst ` set ?kvs. 1 < length (nub (entries_of k ?kvs)))"
    by (force simp: detect_conflicts_def Let_def filter_empty_conv gather_entry)
  also have "\<dots> \<longleftrightarrow> (\<exists>g \<in> set hits. \<exists>h \<in> set hits. disagree g h)"
  proof
    assume "\<exists>k \<in> fst ` set ?kvs. 1 < length (nub (entries_of k ?kvs))"
    then obtain k v w where v: "v \<in> set (entries_of k ?kvs)" "w \<in> set (entries_of k ?kvs)" "v \<noteq> w"
      unfolding two_values by blast
    from iffD1 [OF e v(1)] obtain g where g: "g \<in> set hits" "policy_status g \<noteq> []" "policy_of g = k" "policy_status g = v"
      by (elim bexE conjE)
    from iffD1 [OF e v(2)] obtain h where h: "h \<in> set hits" "policy_status h \<noteq> []" "policy_of h = k" "policy_status h = w"
      by (elim bexE conjE)
    have "disagree g h" using g h v(3) unfolding disagree_def by metis
    with g(1) h(1) show "\<exists>g \<in> set hits. \<exists>h \<in> set hits. disagree g h" by blast
  next
    assume "\<exists>g \<in> set hits. \<exists>h \<in> set hits. disagree g h"
    then obtain g h where d: "g \<in> set hits" "h \<in> set hits" "disagree g h" by blast
    let ?k = "policy_of g"
    have "policy_status g \<in> set (entries_of ?k ?kvs)" "policy_status h \<in> set (entries_of ?k ?kvs)"
      using d unfolding e disagree_def by metis+
    moreover have "policy_status g \<noteq> policy_status h" using d(3) by (simp add: disagree_def)
    moreover have "?k \<in> fst ` set ?kvs" using d by (force simp: disagree_def)
    ultimately show "\<exists>k \<in> fst ` set ?kvs. 1 < length (nub (entries_of k ?kvs))" unfolding two_values by blast
  qed
  finally show ?thesis by blast
qed

definition superseded :: "hit list \<Rightarrow> hit \<Rightarrow> bool" where
  "superseded hits h \<longleftrightarrow> (\<exists>g \<in> set hits. \<exists>d e. document_key h \<noteq> [] \<and> document_key g = document_key h
     \<and> published h = Some d \<and> published g = Some e \<and> d < e)"

lemma outdated_superseded: "c \<in> set (snd (detect_outdated hits)) \<longleftrightarrow> (\<exists>h \<in> set hits. h_chunk h = c \<and> superseded hits h)"
  unfolding outdated_iff superseded_def by blast

lemma current_exists: "hits \<noteq> [] \<Longrightarrow> \<exists>h \<in> set hits. \<not> superseded hits h"
proof -
  assume "hits \<noteq> []"
  then obtain h where h: "h \<in> set hits" by (cases hits) auto
  show ?thesis
  proof (cases "superseded hits h")
    case True
    let ?S = "{e. \<exists>g \<in> set hits. document_key g = document_key h \<and> published g = Some e}"
    have "?S \<subseteq> (\<lambda>g. the (published g)) ` set hits" by force
    then have fin: "finite ?S" by (rule finite_subset) simp
    have "?S \<noteq> {}" using True by (auto simp: superseded_def)
    from Max_in [OF fin this] obtain g where g: "g \<in> set hits" "document_key g = document_key h" "published g = Some (Max ?S)"
      by auto
    have "\<not> superseded hits g"
    proof
      assume "superseded hits g"
      then obtain e where "e \<in> ?S" "Max ?S < e" using g by (auto simp: superseded_def)
      then show False using Max_ge [OF fin, of e] by simp
    qed
    then show ?thesis using g(1) by blast
  qed (use h in blast)
qed

lemma citations_eq: "ev_citations (ground_assess cfg q hits) =
    map (cite cfg) (filter (\<lambda>h. h_chunk h \<notin> set (snd (detect_outdated (eligible_hits cfg hits)))) (eligible_hits cfg hits))"
  by (simp add: ground_assess_def Let_def case_prod_beta)

lemma sufficient_iff: "ev_sufficient (ground_assess cfg q hits) \<longleftrightarrow>
    gc_hits cfg \<le> int (length (filter (\<lambda>h. gc_score cfg \<le> h_score h \<and> strip (h_content h) \<noteq> []) hits))
    \<and> (gc_official cfg \<longrightarrow> gc_hits cfg \<le> int (length (eligible_hits cfg hits)))
    \<and> (eligible_hits cfg hits = [] \<or> (\<exists>h \<in> set (eligible_hits cfg hits). overlap q (h_content h)))
    \<and> (detect_conflicts (eligible_hits cfg hits) = [] \<or> \<not> gc_refuse cfg)"
proof -
  obtain o1 o2 where o: "detect_outdated (eligible_hits cfg hits) = (o1, o2)" by (rule prod.exhaust)
  have e: "((if a then [r] else []) @ xs = []) = (\<not> a \<and> xs = [])" "((if a then [r] else []) = []) = (\<not> a)"
    for a and r :: string and xs by simp_all
  show ?thesis
    unfolding ground_assess_def Let_def o prod.case evidence_decision.simps e by (simp only: not_less de_Morgan_conj not_not not_True_eq_False) blast
qed

lemma assess_sufficient: "ev_sufficient (ground_assess cfg q hits) \<Longrightarrow>
    gc_hits cfg \<le> int (length (eligible_hits cfg hits))
    \<and> (eligible_hits cfg hits = [] \<or> (\<exists>h \<in> set (eligible_hits cfg hits). overlap q (h_content h)))
    \<and> (gc_refuse cfg \<longrightarrow> detect_conflicts (eligible_hits cfg hits) = [])"
proof -
  assume "ev_sufficient (ground_assess cfg q hits)"
  note s = this [unfolded sufficient_iff]
  have "eligible_hits cfg hits = filter (\<lambda>h. gc_score cfg \<le> h_score h \<and> strip (h_content h) \<noteq> []) hits"
    if "\<not> gc_official cfg" using that by (simp add: eligible_hits_def Let_def)
  then have "gc_hits cfg \<le> int (length (eligible_hits cfg hits))" using s by (cases "gc_official cfg") simp_all
  then show ?thesis using s by blast
qed

lemma cited_hit:
  assumes "c \<in> set (ev_citations (ground_assess cfg q hits))"
  shows "\<exists>h \<in> set hits. c = cite cfg h \<and> gc_score cfg \<le> h_score h \<and> strip (h_content h) \<noteq> []
    \<and> (gc_official cfg \<longrightarrow> official h) \<and> \<not> superseded (eligible_hits cfg hits) h"
proof -
  obtain h where h: "h \<in> set (eligible_hits cfg hits)" "c = cite cfg h"
    "h_chunk h \<notin> set (snd (detect_outdated (eligible_hits cfg hits)))"
    using assms unfolding citations_eq by auto
  then have "\<not> superseded (eligible_hits cfg hits) h" unfolding outdated_superseded by blast
  then show ?thesis using h by (intro bexI [of _ h]) (auto simp: eligible_hits_def Let_def split: if_splits)
qed

lemma citations_exist:
  assumes "ev_sufficient (ground_assess cfg q hits)" "1 \<le> gc_hits cfg" "distinct (map h_chunk hits)"
  shows "ev_citations (ground_assess cfg q hits) \<noteq> []"
proof -
  let ?el = "eligible_hits cfg hits"
  have "?el \<noteq> []" using assess_sufficient [OF assms(1)] assms(2) by auto
  then obtain h where h: "h \<in> set ?el" "\<not> superseded ?el h" using current_exists by blast
  have inj: "g = h" if "g \<in> set ?el" "h_chunk g = h_chunk h" for g
  proof -
    have "inj_on h_chunk (set hits)" "set ?el \<subseteq> set hits"
      using assms(3) by (auto simp: distinct_map eligible_hits_def Let_def)
    then show ?thesis using that h(1) by (auto dest: inj_onD)
  qed
  then have "h_chunk h \<notin> set (snd (detect_outdated ?el))" unfolding outdated_superseded using h(2) by blast
  then show ?thesis unfolding citations_eq using h(1) by (auto simp: filter_empty_conv)
qed

section \<open>Properties\<close>


definition sample_hit :: hit where
  "sample_hit = \<lparr>h_chunk = asc ''c1'', h_document = asc ''d1'', h_content = asc ''grants'', h_title = asc ''T'',
     h_url = [], h_score = 1, h_rank = 1, h_source = [], h_meta = [(''official_status'', PStr (asc ''official''))]\<rparr>"

definition sample_grounding :: grounding_config where
  "sample_grounding = \<lparr>gc_hits = 1, gc_score = 0, gc_quote = 220, gc_official = True, gc_refuse = True\<rparr>"


end
