(* ===== verification/EvidencePatterns.thy ===== *)
theory EvidencePatterns
  imports Retrieval PyRegexSplit
begin

text \<open>
  The vocabulary of \<open>backend/app/rag/evidence.py\<close>: its patterns, as values of type \<open>rx\<close> in the order
  the source declares them, and its word lists. Texts are code points.

  The source sorts a Python set of phrases by length only, so phrases of one length come in the
  iteration order of the set, which changes with the hash seed of the process. Every definition
  that erases the phrases therefore takes the sorted tuple \<open>ph\<close> as a parameter, and
  \<open>phrase_order\<close> says which tuples can occur.
\<close>

section \<open>Patterns\<close>

definition answer_claim_separator_rx :: rx where
  "answer_claim_separator_rx = rplus (any_of [12290, 65281, 65311, 33, 63, 65307, 59, 10])"

definition inline_citation_note_rx :: rx where
  "inline_citation_note_rx = seqs [any_of [65288, 40], rstar Space, rwords [[20381, 25454],
     [24341, 29992], [26469, 28304]],
     ropt (any_of [35265, 58, 65306]), rstar Space, rtimes 8 8 (Cls False [(48, 57),
     (97, 102), (65, 70)]), lit (asc ''-''), rtimes 4 4 (Cls False [(48, 57), (97, 102), (65,
     70)]), lit (asc ''-''), rtimes 4 4 (Cls False [(48, 57), (97, 102), (65, 70)]),
     lit (asc ''-''), rtimes 4 4 (Cls False [(48, 57), (97, 102), (65, 70)]), lit (asc ''-''),
     rtimes 12 12 (Cls False [(48, 57), (97, 102), (65, 70)]), rstar (seqs [rstar Space,
     any_of [65307, 59, 44, 65292], rstar Space, rtimes 8 8 (Cls False [(48, 57), (97,
     102), (65, 70)]), lit (asc ''-''), rtimes 4 4 (Cls False [(48, 57), (97, 102), (65, 70)]),
     lit (asc ''-''), rtimes 4 4 (Cls False [(48, 57), (97, 102), (65, 70)]), lit (asc ''-''),
     rtimes 4 4 (Cls False [(48, 57), (97, 102), (65, 70)]), lit (asc ''-''),
     rtimes 12 12 (Cls False [(48, 57), (97, 102), (65, 70)])]), rstar Space,
     any_of [65289, 41]]"

definition latin_term_rx :: rx where
  "latin_term_rx = seqs [Cls False ci_letters, rplus (Cls False (ci_letters @ [(48, 57), (46, 46), (95, 95),
     (43, 43), (45, 45)]))]"

definition cjk_segment_rx :: rx where
  "cjk_segment_rx = rplus (Cls False cjk_class)"

definition policy_identifier_rx :: rx where
  "policy_identifier_rx = seqs [rtimes 1 12 (seqs [NotAhead (any_of [20026, 26159, 21495, 25454, 21450, 19982, 30340]),
     Cls False cjk_class]), any_of [12308, 91], rwords [asc ''19'', asc ''20''],
     rtimes 2 2 Digit, any_of [12309, 93], ropt (lit [31532]), rplus Digit,
     ropt (seqs [any_of [45, 8212], rplus Digit]), lit [21495]]"

definition explicit_value_rx :: rx where
  "explicit_value_rx = alts [seqs [rtimes 1 12 (seqs [NotAhead (any_of [20026, 26159, 21495, 25454, 21450, 19982, 30340]),
     Cls False cjk_class]), any_of [12308, 91], rwords [asc ''19'', asc ''20''],
     rtimes 2 2 Digit, any_of [12309, 93], ropt (lit [31532]), rplus Digit,
     ropt (seqs [any_of [45, 8212], rplus Digit]), lit [21495]],
     seqs [rwords [asc ''19'', asc ''20''], rtimes 2 2 Digit,
     ropt (seqs [lit [24180], ropt (seqs [rtimes 1 2 Digit, lit [26376],
     ropt (seqs [rtimes 1 2 Digit, lit [26085]])])])], seqs [rplus Digit,
     ropt (seqs [lit (asc ''.''), rplus Digit]), rwords [asc ''%'', [65285],
     [19975, 20803], [20159, 20803], [20803],
     [19975], [20159], [23478], [39033],
     [26465], [20010], [22825], [20010, 26376]]]]"

definition date_evidence_rx :: rx where
  "date_evidence_rx = alts [seqs [rwords [asc ''19'', asc ''20''], rtimes 2 2 Digit,
     ropt (seqs [any_of [45, 47, 46, 24180], rtimes 1 2 Digit,
     ropt (seqs [any_of [45, 47, 46, 26376], rtimes 1 2 Digit,
     ropt (lit [26085])])])], seqs [rtimes 1 2 Digit, lit [26376],
     ropt (seqs [rtimes 1 2 Digit, lit [26085]])]]"

definition quantity_evidence_rx :: rx where
  "quantity_evidence_rx = seqs [rplus Digit, ropt (seqs [lit (asc ''.''), rplus Digit]), ropt (rwords [asc ''%'',
     [65285], [19975, 20803], [20159, 20803],
     [20803], [19975], [20159], [23478],
     [39033], [26465], [20010], [22825],
     [20010, 26376]])]"

definition percent_evidence_rx :: rx where
  "percent_evidence_rx = seqs [rplus Digit, ropt (seqs [lit (asc ''.''), rplus Digit]), any_of [37, 65285]]"

definition money_evidence_rx :: rx where
  "money_evidence_rx = seqs [rplus Digit, ropt (seqs [lit (asc ''.''), rplus Digit]),
     rwords [[19975, 20803], [20159, 20803], [20803]]]"

definition contact_evidence_rx :: rx where
  "contact_evidence_rx = alts [seqs [lit (asc ''1''), rtimes 10 10 Digit], seqs [lit (asc ''0''), rtimes 2 3 Digit,
     ropt (any_of (asc ''- '')), rtimes 7 8 Digit], seqs [rplus (Word True [(46, 46), (43, 43),
     (45, 45)]), lit (asc ''@''), rplus (Word True [(46, 46), (45, 45)]), lit (asc ''.''),
     Rep True 2 None (Cls False ci_letters)]]"

definition list_evidence_rx :: rx where
  "list_evidence_rx = alts [seqs [alts [Bol, lit [10]], rstar Space, alts [seqs [rplus Digit,
     any_of [46, 12289]], seqs [any_of [65288, 40], rplus (Word False [(19968,
     19968), (20108, 20108), (19977, 19977), (22235, 22235), (20116, 20116), (20845, 20845),
     (19971, 19971), (20843, 20843), (20061, 20061), (21313, 21313)]),
     any_of [41, 65289]]]], lit [12289]]"

definition document_attribution_rx :: rx where
  "document_attribution_rx = seqs [rwords [[26681, 25454], [20381, 25454]], rstar Space,
     lit [12298], Rep False 1 (Some 240) (AnyChar True), lit [12299],
     ropt (alts [seqs [lit [27491, 25991], ropt (lit [20869, 23481])],
     lit [25919, 31574, 35299, 35835]]), rstar Space, any_of [44, 65292]]"

definition context_attribution_rx :: rx where
  "context_attribution_rx = seqs [rwords [[26681, 25454], [20381, 25454]],
     ropt (lit [25552, 20379, 30340]), rwords [[19978, 19979, 25991],
     [26816, 32034, 20869, 23481], [29616, 26377, 35777, 25454],
     [19978, 36848, 35777, 25454]], rstar Space, any_of [44, 65292]]"

definition unresolved_temporal_reference_rx :: rx where
  "unresolved_temporal_reference_rx = alts [seqs [alts [seqs [ropt (rwords [[26126, 26174],
     [26174, 28982]]), lit [19981, 21305, 37197]],
     lit [26410, 26126, 30830], lit [26410, 30693],
     lit [19981, 30830, 23450]], rtimes 0 8 (AnyChar False),
     ropt (lit [21382, 21490]), rwords [[26102, 38388],
     [26085, 26399], [26102, 28857]]],
     seqs [alts [seqs [lit [26576], ropt (lit [20010])],
     lit [37027, 20010]], ropt (lit [21382, 21490]),
     lit [26102, 28857]], lit [24403, 26102], lit [24444, 26102]]"

definition source_authority_conflation_rx :: rx where
  "source_authority_conflation_rx = seqs [ropt (any_of [25226, 23558]), rwords [[21327, 20250],
     [21830, 20250], [32852, 30431], [23398, 20250],
     [27665, 38388, 32452, 32455], [34892, 19994, 32452, 32455],
     [20225, 19994]], ropt (rwords [[26469, 28304],
     [26448, 26009], [25991, 20214]]), rtimes 0 16 (AnyChar False),
     rwords [[24403, 25104], [35270, 20026], [20316, 20026],
     [31561, 21516, 20110], [20882, 20805], [26367, 20195]],
     rtimes 0 12 (AnyChar False), ropt (lit [25919, 24220]),
     lit [23448, 26041], ropt (rwords [[26469, 28304],
     [25991, 20214], [35777, 26126]])]"

definition contrary_to_source_request_rx :: rx where
  "contrary_to_source_request_rx = alts [seqs [rwords [[35777, 26126], [35828, 26126],
     [30830, 35748], [22768, 31216]], rtimes 0 12 (AnyChar False),
     any_of [19982, 21516], rwords [[27491, 25991],
     [21407, 25991], [35777, 25454], [26448, 26009]],
     rtimes 0 8 (AnyChar False), rwords [[30456, 21453], [30683, 30462],
     [20914, 31361]], ropt (lit [30340]),
     ropt (rwords [[32467, 35770], [35828, 27861],
     [20869, 23481]])], seqs [any_of [19982, 21516],
     rwords [[27491, 25991], [21407, 25991], [35777, 25454],
     [26448, 26009]], rtimes 0 8 (AnyChar False), rwords [[30456, 21453],
     [30683, 30462], [20914, 31361]], ropt (lit [30340]),
     ropt (rwords [[32467, 35770], [35828, 27861],
     [20869, 23481]])]]"

definition unverified_material_reference_rx :: rx where
  "unverified_material_reference_rx = seqs [ropt (any_of [20165, 21482]), rwords [[26681, 25454],
     [20381, 25454]], rtimes 0 20 (AnyChar False), rwords [[23578, 26410],
     [26410], [27809, 26377]], ropt (lit [23436, 25104]),
     rstar Space, iwords [asc ''ocr'', [35299, 26512], [35782, 21035],
     [25552, 21462]]]"

definition non_penalty_fine_rx :: rx where
  "non_penalty_fine_rx = seqs [alts [lit [25903, 20184], lit [29992, 20110],
     lit [19981, 24471, 29992, 20110], seqs [lit [31105, 27490],
     rtimes 0 8 (AnyChar False), lit [29992, 20110]]], rtimes 0 4 (AnyChar False),
     lit [32602, 27454]]"

definition penalty_role_rx :: rx where
  "penalty_role_rx = Grp ''subject'' (alts [seqs [ropt (lit [21508]), lit [21442, 24314],
     rwords [[21333, 20301], [21508, 26041]]],
     seqs [rtimes 1 12 (Cls False [(65, 90), (97, 122), (48, 57), (65288, 65288), (65289,
     65289), (40, 40), (41, 41), (19968, 40959)]), rwords [[21333, 20301],
     [37096, 38376], [20027, 20307], [20154, 21592],
     [26426, 26500], [20225, 19994], [21508, 26041]]]])"

definition penalty_subject_rx :: rx where
  "penalty_subject_rx = seqs [Grp ''subject'' (alts [seqs [ropt (lit [21508]),
     lit [21442, 24314], rwords [[21333, 20301],
     [21508, 26041]]], seqs [rtimes 1 12 (Cls False [(65, 90), (97, 122), (48, 57),
     (65288, 65288), (65289, 65289), (40, 40), (41, 41), (19968, 40959)]),
     rwords [[21333, 20301], [37096, 38376], [20027, 20307],
     [20154, 21592], [26426, 26500], [20225, 19994],
     [21508, 26041]]]]), lit [36829], alts [seqs [lit [21453],
     ropt (lit [35268, 23450])], lit [27861], lit [35268]]]"

definition penalty_sentence_break_rx :: rx where
  "penalty_sentence_break_rx = any_of [12290, 65307, 59, 10]"

definition scope_target_rx :: rx where
  "scope_target_rx = seqs [ropt (lit [26159, 21542]), rwords [[36866, 29992, 20110],
     [38754, 21521]], Grp ''target'' (rtimes 2 32 (Cls False [(65, 90), (97, 122),
     (48, 57), (46, 46), (95, 95), (43, 43), (45, 45), (19968, 40959)]))]"

definition scope_context_target_rx :: rx where
  "scope_context_target_rx = seqs [lit [36866, 29992, 23545, 35937, 25110, 23454, 26045, 33539, 22260],
     ropt (lit [20027, 35201]), ropt (any_of [26159, 20026]),
     lit [38024, 23545], Grp ''target'' (rtimes 2 32 (Cls False [(65, 90), (97, 122),
     (48, 57), (46, 46), (95, 95), (43, 43), (45, 45), (19968, 40959)]))]"

definition negative_scope_target_rx :: rx where
  "negative_scope_target_rx = seqs [rwords [[19981], [26410], [27809, 26377]],
     ropt (lit [30452, 25509]), lit [38024, 23545],
     Grp ''target'' (rtimes 2 32 (Cls False [(65, 90), (97, 122), (48, 57), (46, 46), (95, 95),
     (43, 43), (45, 45), (19968, 40959)]))]"

definition scope_noun_target_rx :: rx where
  "scope_noun_target_rx = seqs [lit [36866, 29992], rwords [[23545, 35937],
     [33539, 22260]], rwords [[26159], [20026],
     [21253, 25324], [28085, 30422], [35206, 30422]],
     Grp ''target'' (rtimes 2 32 (Cls False [(65, 90), (97, 122), (48, 57), (46, 46), (95, 95),
     (43, 43), (45, 45), (19968, 40959)]))]"

definition universal_scope_target_rx :: rx where
  "universal_scope_target_rx = alts [seqs [rwords [[28085, 30422], [21253, 25324],
     [35206, 30422]], ropt (rwords [[25152, 26377],
     [20840, 37096]]),
     Grp ''covered'' (rwords [[24494, 20449, 23567, 31243, 24207],
     [23567, 31243, 24207]])], seqs [rwords [[25152, 26377],
     [20840, 37096]],
     Grp ''required'' (rwords [[24494, 20449, 23567, 31243, 24207],
     [23567, 31243, 24207]]), rtimes 0 8 (AnyChar False),
     rwords [[24517, 39035], [24212, 24403], [38656, 35201],
     [22343, 24212], [37117, 35201]]]]"

definition relation_clause_break_rx :: rx where
  "relation_clause_break_rx = alts [any_of [65292, 44, 12290, 65307, 59, 10], lit [21516, 26102],
     lit [20294, 26159], lit [20294], lit [28982, 32780]]"

definition scope_clause_break_rx :: rx where
  "scope_clause_break_rx = rplus (any_of [12290, 65307, 59, 10])"

definition dependent_meta_claim_rx :: rx where
  "dependent_meta_claim_rx = seqs [Bol, alts [seqs [lit [35813], rwords [[24635, 32467],
     [22238, 31572], [31572, 22797], [35828, 26126]],
     ropt (lit [26159]), lit [22522, 20110]],
     seqs [rwords [[35814, 32454], [20855, 20307]],
     lit [20869, 23481], ropt (lit [35831]), lit [35265]],
     seqs [lit [19978, 36848], rwords [[25968, 23383],
     [25968, 25454], [26680, 23545, 35201, 28857], [20869, 23481],
     [20107, 39033], [20449, 24687], [25351, 26631]]]]]"

definition progression_synthesis_rx :: rx where
  "progression_synthesis_rx = seqs [lit [24418, 25104, 20174],
     Grp ''start'' (rtimes 2 24 (Cls False cjk_class)), lit [21040],
     Grp ''end'' (rtimes 2 24 (Cls False cjk_class)), lit [30340],
     ropt (lit [23436, 25972]), ropt (lit [25903, 25345]),
     lit [20307, 31995]]"

text \<open>The patterns written inside functions.\<close>

definition url_rx :: rx where
  "url_rx = seqs [lit (asc ''http''), ropt (lit (asc ''s'')), lit (asc ''://''), rplus NonSpace]"
definition relation_noise_rx :: rx where
  "relation_noise_rx = rplus (Cls True [(97, 122), (48, 57), (19968, 40959)])"
definition value_noise_rx :: rx where
  "value_noise_rx = Alt Space (any_of [44, 65292])"
definition scope_negation_rx :: rx where
  "scope_negation_rx = alts [seqs [lit [19981], ropt (seqs [lit [22312],
     rtimes 0 12 (AnyChar False)]), rwords [[36866, 29992], [21253, 25324],
     [28085, 30422], [35206, 30422]]], lit [19981, 36866, 29992],
     lit [19981, 21253, 25324], lit [19981, 28085, 30422],
     seqs [rwords [[19981], [26410], [27809, 26377]],
     ropt (lit [30452, 25509]), lit [38024, 23545]],
     lit [26080, 38656], lit [19981, 24471]]"

section \<open>Words\<close>

definition question_phrases :: "ustr list" where
  "question_phrases = [
     [26159, 21542, 38656, 35201], [20160, 20040, 26102, 20505], [21253, 25324, 21738, 20123], [26377, 21738, 20123],
     [26159, 20160, 20040], [20026, 20160, 20040], [24590, 20040, 26679], [22914, 20309], [24590, 20040],
     [22810, 23569], [21738, 19968, 20123], [21738, 20960, 20010], [21738, 20960, 23478], [35831, 38382],
     [35831, 35828, 26126], [35831, 20171, 32461], [35831, 21015, 20986], [21578, 35785, 25105],
     [25903, 25345, 25514, 26045], [26469, 28304], [26159, 21542], [33021, 21542], [21487, 21542],
     [26377, 27809, 26377], [24050, 32463], [24403, 21069], [30456, 20851], [26377, 20851],
     [36825, 20010], [36825, 20123], [37027, 20123], [26681, 25454], [20851, 20110],
     [20309, 26102], [21527], [21602], [30340], [20102]]"

text \<open>The tuples \<open>sorted(set, key=len, reverse=True)\<close> can produce.\<close>

definition phrase_order :: "ustr list \<Rightarrow> bool" where
  "phrase_order ph \<longleftrightarrow> distinct ph \<and> set ph = set question_phrases
    \<and> sorted_wrt (\<lambda>a b. length b \<le> length a) ph"

definition generic_terms :: "ustr list" where
  "generic_terms = [[20160, 20040], [24590, 20040], [22914, 20309], [26159, 21542], [21487, 20197],
     [38656, 35201], [30456, 20851], [26377, 20851], [24403, 21069], [38382, 39064], [24773, 20917],
     [35828, 26126], [20171, 32461], [25514, 26045]]"

definition legal_basis_anchors :: "ustr list" where
  "legal_basis_anchors = [[27861, 24459, 27861, 35268, 20381, 25454], [27861, 24459, 20381, 25454], [27861, 23450, 20381, 25454], [27861, 24459, 26681, 25454]]"

definition relation_anchor_groups :: "(string \<times> ustr list) list" where
  "relation_anchor_groups = [
     (''cancellation'', [[21462, 28040], [25764, 38144], [24223, 27490], [24223, 38500], [32456, 27490], [19981, 20877, 23454, 26045]]),
     (''penalty'', [[32602, 27454], [22788, 32602], [34892, 25919, 22788, 32602], [27861, 24459, 36131, 20219]]),
     (''legal_basis'', legal_basis_anchors)]"

definition support_concept_terms :: "ustr list" where
  "support_concept_terms = [[25903, 25345], [34917, 21161], [36164, 37329], [22870, 21169], [20248, 24800], [36151, 27454], [22521, 35757], [26381, 21153]]"

definition temporal_status_terms :: "ustr list" where
  "temporal_status_terms = [[29983, 25928], [26377, 25928], [24223, 27490], [23454, 26045], [24050, 32463]]"

definition scope_trailing_words :: "ustr list" where
  "scope_trailing_words = [[33539, 22260], [23545, 35937], [24773, 24418], [21527], [21602]]"

definition scope_placeholder_targets :: "ustr list" where
  "scope_placeholder_targets = [[20160, 20040], [21738, 20123], [21738, 31867], [20309, 31181], [35841]]"

definition scope_filler_phrases :: "ustr list" where
  "scope_filler_phrases = [[31526, 21512, 26465, 20214, 30340], [31526, 21512, 26465, 20214], [20840, 30465, 33539, 22260, 20869], [33539, 22260, 20869], [21644], [30340]]"

definition scope_binding_cues :: "ustr list" where
  "scope_binding_cues = [[36866, 29992], [38754, 21521], [23454, 26045, 23545, 35937], [23454, 26045, 33539, 22260],
     [25903, 25345, 23545, 35937], [30003, 35831], [35268, 33539], [30417, 31649], [31435, 36275], [28085, 30422],
     [21253, 25324], [35206, 30422], [24517, 39035], [24212, 24403], [65306]]"

definition has_any :: "ustr list \<Rightarrow> ustr \<Rightarrow> bool" where
  "has_any ws s \<longleftrightarrow> (\<exists>w \<in> set ws. contains s w)"

definition py_slice :: "nat \<Rightarrow> nat \<Rightarrow> ustr \<Rightarrow> ustr" where
  "py_slice a b s = take (b - a) (drop a s)"

end
