(* ===== verification/Evidence.thy ===== *)
theory Evidence
  imports EvidencePatterns
begin

text \<open>
  The text analysis of \<open>backend/app/rag/evidence.py\<close>: the aspects of a question, the claims of an
  answer, weighted terms and their coverage, exact values, and the relation and scope checks. The
  functions are in the order of their dependencies; \<open>ph\<close> is the tuple of question phrases of the
  running process.
\<close>

section \<open>Cleaning\<close>

definition display_strip :: ustr where
  "display_strip = [32, 44, 65292, 58, 65306]"

definition clean_display :: "ustr \<Rightarrow> ustr" where
  "clean_display v = strip_chars display_strip (re_sub spaces_rx [32] v)"

definition clean_for_matching :: "ustr list \<Rightarrow> ustr \<Rightarrow> ustr" where
  "clean_for_matching ph v =
    strip (re_sub spaces_rx [32] (fold (\<lambda>p. replace_all p [32]) ph (re_sub url_rx [32] (lower v))))"

definition normalize_relation_text :: "ustr \<Rightarrow> ustr" where
  "normalize_relation_text v = re_sub relation_noise_rx [] (lower v)"

definition normalize_value :: "ustr \<Rightarrow> ustr" where
  "normalize_value v = lower (re_sub value_noise_rx [] v)"

definition terminators :: ustr where
  "terminators = [63, 65311, 12290, 33, 65281, 59, 65307] @ [10]"

text \<open>
  \<open>_query_aspects\<close>: \<open>cur\<close> is \<open>query[start:index]\<close> reversed, \<open>depth\<close> the nesting of book titles.
\<close>

definition aspect_of :: "ustr \<Rightarrow> ustr list" where
  "aspect_of cur = (let cleaned = clean_display (rev cur) in if cleaned \<noteq> [] then [cleaned] else [])"

fun aspects_from :: "nat \<Rightarrow> ustr \<Rightarrow> ustr \<Rightarrow> ustr list" where
  "aspects_from depth cur [] = aspect_of cur"
| "aspects_from depth cur (c # s) =
    (if c = 12298 then aspects_from (Suc depth) (c # cur) s
     else if c = 12299 then aspects_from (depth - 1) (c # cur) s
     else if depth = 0 \<and> c \<in> set terminators then aspect_of cur @ aspects_from depth [] s
     else aspects_from depth (c # cur) s)"

definition query_aspects :: "ustr \<Rightarrow> ustr list" where
  "query_aspects q = aspects_from 0 [] q"

definition answer_claims :: "ustr \<Rightarrow> ustr list" where
  "answer_claims a =
    filter (\<lambda>c. c \<noteq> []) (map clean_display
      (re_split answer_claim_separator_rx (re_sub inline_citation_note_rx [32] a)))"

section \<open>Weighted terms\<close>

type_synonym weights = "(ustr, rat) dict"

definition add_weight :: "ustr \<Rightarrow> rat \<Rightarrow> weights \<Rightarrow> weights" where
  "add_weight t w d = dset t (max (dget_or d t 0) w) d"

definition windows :: "nat \<Rightarrow> ustr \<Rightarrow> ustr list" where
  "windows n s = map (\<lambda>i. take n (drop i s)) [0..<Suc (length s) - n]"

definition size_weights :: "ustr \<Rightarrow> nat \<times> rat \<Rightarrow> weights \<Rightarrow> weights" where
  "size_weights seg sw d =
    (if length seg < fst sw then d
     else fold (\<lambda>t d. if t \<in> set generic_terms then d else add_weight t (snd sw) d) (windows (fst sw) seg) d)"

definition segment_weights :: "ustr \<Rightarrow> weights \<Rightarrow> weights" where
  "segment_weights seg d =
    (if length seg < 2 then d
     else let d = fold (size_weights seg) [(2, 1), (3, 2), (4, 3)] d in
       if length seg \<le> 6 \<and> seg \<notin> set generic_terms
       then add_weight seg (of_nat (min 5 (length seg))) d else d)"

definition weighted_terms :: "ustr \<Rightarrow> weights" where
  "weighted_terms v =
    fold segment_weights (re_findall cjk_segment_rx v)
      (fold (\<lambda>t. add_weight (lower t) (min 4 (of_nat (length (lower t)) / 2))) (re_findall latin_term_rx v) [])"

definition total_weight :: "weights \<Rightarrow> rat" where
  "total_weight ts = (\<Sum>(t, w)\<leftarrow>ts. w)"

definition found_weight :: "weights \<Rightarrow> ustr \<Rightarrow> rat" where
  "found_weight ts s = (\<Sum>(t, w)\<leftarrow>filter (\<lambda>(t, w). contains s t) ts. w)"

definition coverage :: "weights \<Rightarrow> ustr \<Rightarrow> rat" where
  "coverage ts s = (if total_weight ts \<le> 0 then 0 else found_weight ts s / total_weight ts)"

definition strong_match_count :: "weights \<Rightarrow> ustr \<Rightarrow> nat" where
  "strong_match_count ts s =
    count_if (\<lambda>t. contains s t \<and> (3 \<le> length t \<or> re_fullmatch latin_term_rx t)) (dkeys ts)"

section \<open>Exact values and book titles\<close>

definition explicit_values :: "ustr \<Rightarrow> ustr list" where
  "explicit_values v = nub (re_findall explicit_value_rx v)"

definition filter_boundary :: "ustr \<Rightarrow> found \<Rightarrow> bool" where
  "filter_boundary v m =
    (let front = lower (py_slice (m_start m - 8) (m_start m) v);
         back = lower (py_slice (m_end m) (m_end m + 4) v)
     in (\<exists>w \<in> set [[20043, 21518], [20197, 21518], [20197, 26469], [20043, 21069], [20197, 21069]]. starts_with back w)
       \<or> (\<exists>w \<in> set [[25130, 33267], [26202, 20110], [26089, 20110], asc ''after'', asc ''since'', asc ''before''].
            ends_with front w))"

definition query_constraints :: "ustr \<Rightarrow> ustr list" where
  "query_constraints v =
    nub (map m_text (filter (\<lambda>m. \<not> filter_boundary v m) (re_finditer explicit_value_rx v)))"

text \<open>\<open>_book_title_values\<close>: \<open>i\<close> is the index of the next character, \<open>stack\<close> the open brackets.\<close>

fun titles_from :: "ustr \<Rightarrow> nat list \<Rightarrow> nat \<Rightarrow> ustr \<Rightarrow> ustr list" where
  "titles_from v stack i [] = []"
| "titles_from v stack i (c # s) =
    (if c = 12298 then titles_from v (i # stack) (Suc i) s
     else if c = 12299 then
       (case stack of
          [] \<Rightarrow> titles_from v [] (Suc i) s
        | start # rest \<Rightarrow>
            (let title = strip (py_slice (Suc start) i v) in
             (if title \<noteq> [] then [title] else []) @ titles_from v rest (Suc i) s))
     else titles_from v stack (Suc i) s)"

definition book_title_values :: "ustr \<Rightarrow> ustr list" where
  "book_title_values v = nub (titles_from v [] 0 v)"

section \<open>Occurrences\<close>

function find_all_from :: "ustr \<Rightarrow> ustr \<Rightarrow> nat \<Rightarrow> nat list" where
  "find_all_from s n start =
    (case find_from s n start of
       None \<Rightarrow> []
     | Some i \<Rightarrow> i # find_all_from s n (i + max 1 (length n)))"
  by pat_completeness auto
termination
proof (relation "measure (\<lambda>(s, n, start). Suc (length s) - start)", goal_cases)
  case (2 s n start i)
  then have "start \<le> length s" "start \<le> i"
    using find_at_Some [of n "drop start s" start i] by (auto simp: find_from_def split: if_splits)
  then show ?case by simp
qed simp

declare find_all_from.simps [simp del]

definition find_all :: "ustr \<Rightarrow> ustr \<Rightarrow> nat list" where
  "find_all s n = find_all_from s n 0"

type_synonym occurrence = "ustr \<times> nat"

definition add_occurrence :: "ustr \<Rightarrow> nat \<Rightarrow> occurrence list \<times> (nat \<times> nat) list \<Rightarrow> occurrence list \<times> (nat \<times> nat) list" where
  "add_occurrence a i st =
    (let e = i + length a in
     if \<exists>b \<in> set (snd st). fst b \<le> i \<and> e \<le> snd b then st
     else (fst st @ [(a, i)], snd st @ [(i, e)]))"

definition relation_occurrences :: "ustr \<Rightarrow> ustr list \<Rightarrow> occurrence list" where
  "relation_occurrences v anchors =
    sort_key snd (fst (fold (\<lambda>a. fold (add_occurrence a) (find_all v a))
      (sort_key (\<lambda>a. - int (length a)) anchors) ([], [])))"

definition inside_match :: "rx \<Rightarrow> ustr \<Rightarrow> nat \<Rightarrow> bool" where
  "inside_match r v i \<longleftrightarrow> (\<exists>m \<in> set (re_finditer r v). m_start m \<le> i \<and> i < m_end m)"

definition inside_document_attribution :: "ustr \<Rightarrow> nat \<Rightarrow> bool" where
  "inside_document_attribution v i = inside_match document_attribution_rx v i"

definition inside_non_penalty_fine :: "ustr \<Rightarrow> nat \<Rightarrow> bool" where
  "inside_non_penalty_fine v i = inside_match non_penalty_fine_rx v i"

text \<open>The stretch between the breaks around \<open>[i, j)\<close>.\<close>

definition stretch_start :: "rx \<Rightarrow> ustr \<Rightarrow> nat \<Rightarrow> nat" where
  "stretch_start r v i = fold max (filter (\<lambda>e. e \<le> i) (map m_end (re_finditer r v))) 0"

definition stretch_end :: "rx \<Rightarrow> ustr \<Rightarrow> nat \<Rightarrow> nat" where
  "stretch_end r v j =
    (case filter (\<lambda>b. j \<le> b) (map m_start (re_finditer r v)) of
       [] \<Rightarrow> length v
     | b # bs \<Rightarrow> fold min bs b)"

definition penalty_sentence :: "ustr \<Rightarrow> nat \<Rightarrow> nat \<Rightarrow> ustr" where
  "penalty_sentence v i n =
    py_slice (stretch_start penalty_sentence_break_rx v i) (stretch_end penalty_sentence_break_rx v (i + n)) v"

definition relation_clause :: "ustr \<Rightarrow> nat \<Rightarrow> nat \<Rightarrow> ustr" where
  "relation_clause v i n =
    py_slice (stretch_start relation_clause_break_rx v i) (stretch_end relation_clause_break_rx v (i + n)) v"

section \<open>Relations\<close>

definition relation_terms :: "ustr list \<Rightarrow> ustr \<Rightarrow> ustr list" where
  "relation_terms ph v =
    (let cleaned = clean_for_matching ph v in
     nub (map lower (re_findall latin_term_rx cleaned)
       @ concat (map (\<lambda>seg.
           if 2 \<le> length seg \<and> length seg \<le> 6 \<and> seg \<notin> set generic_terms then [lower seg]
           else if 6 < length seg then [lower (take 6 seg), lower (drop (length seg - 6) seg)]
           else []) (re_findall cjk_segment_rx cleaned))))"

definition relation_target_terms :: "ustr list \<Rightarrow> ustr \<Rightarrow> ustr \<Rightarrow> nat \<Rightarrow> ustr list" where
  "relation_target_terms ph claim anchor i =
    (let j = i + length anchor;
         back = clean_for_matching ph (py_slice j (stretch_end relation_clause_break_rx claim j) claim);
         front = clean_for_matching ph (py_slice (stretch_start relation_clause_break_rx claim i) i claim)
     in relation_terms ph (if relation_terms ph back \<noteq> [] then back else front))"

definition strict_relation_target_terms :: "ustr list \<Rightarrow> ustr \<Rightarrow> ustr list \<Rightarrow> ustr list" where
  "strict_relation_target_terms ph claim anchors =
    relation_terms ph (fold (\<lambda>a. replace_all a [32]) anchors (clean_for_matching ph claim))"

fun nearest_to :: "nat \<Rightarrow> nat \<Rightarrow> nat list \<Rightarrow> nat" where
  "nearest_to i best [] = best"
| "nearest_to i best (j # js) =
    nearest_to i (if \<bar>int j - int i\<bar> < \<bar>int best - int i\<bar> then j else best) js"

definition near_anchor :: "ustr \<Rightarrow> nat \<Rightarrow> int \<Rightarrow> ustr \<Rightarrow> nat list" where
  "near_anchor evidence i radius t = filter (\<lambda>j. \<bar>int j - int i\<bar> \<le> radius) (find_all evidence t)"

definition unbroken :: "ustr \<Rightarrow> ustr \<Rightarrow> nat \<Rightarrow> ustr \<Rightarrow> nat \<Rightarrow> bool" where
  "unbroken evidence anchor i t j =
    (\<not> re_found relation_clause_break_rx
       (py_slice (min i j) (max (i + length anchor) (j + length t)) evidence))"

fun target_loop :: "ustr \<Rightarrow> ustr \<Rightarrow> nat \<Rightarrow> int \<Rightarrow> bool \<Rightarrow> nat \<Rightarrow> ustr list \<Rightarrow> nat option" where
  "target_loop evidence anchor i radius all k [] = Some k"
| "target_loop evidence anchor i radius all k (t # ts) =
    (case near_anchor evidence i radius t of
       [] \<Rightarrow> if all then None else target_loop evidence anchor i radius all k ts
     | c # cs \<Rightarrow>
         if unbroken evidence anchor i t (nearest_to i c cs)
         then target_loop evidence anchor i radius all (Suc k) ts
         else if all then None else target_loop evidence anchor i radius all k ts)"

definition relation_occurrence_supported :: "ustr \<Rightarrow> ustr \<Rightarrow> nat \<Rightarrow> ustr list \<Rightarrow> int \<Rightarrow> bool \<Rightarrow> bool" where
  "relation_occurrence_supported evidence anchor i targets radius all =
    (targets = [] \<or>
     (case target_loop evidence anchor i radius all 0 targets of
        None \<Rightarrow> False
      | Some k \<Rightarrow> if all then k = length targets else 0 < k))"

definition legal_basis_supported :: "ustr \<Rightarrow> ustr \<Rightarrow> occurrence list \<Rightarrow> bool" where
  "legal_basis_supported claim evidence occs =
    list_all (\<lambda>(anchor, i).
      let titles = book_title_values (relation_clause claim i (length anchor)) in
      if titles \<noteq> [] then
        list_all (\<lambda>t. contains (normalize_relation_text evidence) (normalize_relation_text t)) titles
      else has_any legal_basis_anchors evidence) occs"

fun strip_role :: "ustr \<Rightarrow> ustr list \<Rightarrow> ustr" where
  "strip_role s [] = s"
| "strip_role s (w # ws) =
    (if ends_with s w \<and> length w < length s then
       (let candidate = take (length s - length w) s in if 2 \<le> length candidate then candidate else s)
     else strip_role s ws)"

definition normalize_penalty_subject :: "ustr \<Rightarrow> ustr" where
  "normalize_penalty_subject v =
    (let s = normalize_relation_text v in
     strip_role (if starts_with s [21508] then drop 1 s else s)
       [[21333, 20301], [21508, 26041], [20027, 20307], [20154, 21592], [26426, 26500], [37096, 38376], [20225, 19994]])"

text \<open>A \<open>frozenset\<close> as a list; it has at most one element.\<close>

definition penalty_subject_keys :: "ustr \<Rightarrow> ustr list" where
  "penalty_subject_keys v =
    (let violation = has_any [[36829, 21453], [36829, 27861], [36829, 35268]] v;
         liability = contains v [27861, 24459, 36131, 20219] \<and> has_any [[25215, 25285], [36861, 31350], [26126, 30830], [36127, 26377]] v;
         direct = re_finditer penalty_subject_rx v;
         matches = (if direct \<noteq> [] then direct else re_finditer penalty_role_rx v)
     in if has_any [[21442, 24314, 21333, 20301], [21442, 24314, 21508, 26041]] v \<and> (violation \<or> liability) then [[21442, 24314]]
        else if matches = [] \<or> \<not> (violation \<or> liability) then []
        else (case m_group (last matches) ''subject'' of
                Some s \<Rightarrow> [normalize_penalty_subject s]
              | None \<Rightarrow> [normalize_penalty_subject (asc ''None'')]))"

definition penalty_occurrence_is_relational :: "ustr \<Rightarrow> ustr \<Rightarrow> nat \<Rightarrow> bool" where
  "penalty_occurrence_is_relational claim anchor i =
    (anchor \<in> set [[32602, 27454], [34892, 25919, 22788, 32602], [27861, 24459, 36131, 20219]]
     \<or> penalty_subject_keys (penalty_sentence claim i (length anchor)) \<noteq> [])"

definition penalty_relation_supported ::
  "ustr list \<Rightarrow> ustr \<Rightarrow> ustr \<Rightarrow> occurrence list \<Rightarrow> ustr list \<Rightarrow> bool" where
  "penalty_relation_supported ph claim evidence occs anchors =
    (let ev = relation_occurrences evidence anchors in
     list_all (\<lambda>(anchor, i).
       let keys = penalty_subject_keys (penalty_sentence claim i (length anchor)) in
       if keys \<noteq> [] then
         (\<exists>(a, j) \<in> set ev. \<exists>k \<in> set (penalty_subject_keys (penalty_sentence evidence j (length a))). k \<in> set keys)
       else
         (\<exists>(a, j) \<in> set ev.
            relation_occurrence_supported evidence a j (relation_target_terms ph claim anchor i) 24 True)) occs)"

definition active_occurrences :: "ustr \<Rightarrow> string \<Rightarrow> ustr list \<Rightarrow> occurrence list" where
  "active_occurrences claim relation anchors =
    filter (\<lambda>(anchor, i).
      \<not> inside_document_attribution claim i
      \<and> \<not> (relation = ''penalty'' \<and> anchor = [32602, 27454] \<and> inside_non_penalty_fine claim i)
      \<and> \<not> (relation = ''penalty'' \<and> \<not> penalty_occurrence_is_relational claim anchor i))
      (relation_occurrences claim anchors)"

definition group_supported :: "ustr list \<Rightarrow> ustr \<Rightarrow> ustr \<Rightarrow> string \<Rightarrow> ustr list \<Rightarrow> bool" where
  "group_supported ph claim evidence relation anchors =
    (let active = active_occurrences claim relation anchors in
     if active = [] then True
     else if relation = ''legal_basis'' then legal_basis_supported claim evidence active
     else if relation = ''penalty'' then penalty_relation_supported ph claim evidence active anchors
     else
       (\<exists>(a, j) \<in> set (relation_occurrences evidence anchors).
          relation_occurrence_supported evidence a j (strict_relation_target_terms ph claim anchors) 16 True))"

definition relation_failure :: "ustr list \<Rightarrow> ustr \<Rightarrow> ustr \<Rightarrow> string option" where
  "relation_failure ph claim evidence =
    (let c = re_sub context_attribution_rx [32] (lower claim); e = lower evidence in
     map_option fst (find (\<lambda>(relation, anchors). \<not> group_supported ph c e relation anchors) relation_anchor_groups))"

definition shared_relation :: "ustr \<Rightarrow> ustr \<Rightarrow> ustr \<Rightarrow> bool" where
  "shared_relation query answer evidence =
    (let q = lower query; a = lower answer; e = lower evidence in
     (\<exists>(r, anchors) \<in> set relation_anchor_groups. has_any anchors q \<and> has_any anchors a \<and> has_any anchors e)
     \<or> list_all (has_any support_concept_terms) [q, a, e])"

section \<open>Scope\<close>

definition group_or_empty :: "found \<Rightarrow> string \<Rightarrow> ustr" where
  "group_or_empty m n = (case m_group m n of Some g \<Rightarrow> g | None \<Rightarrow> [])"

definition raw_scope_target :: "ustr \<Rightarrow> ustr option" where
  "raw_scope_target v =
    (case re_search scope_target_rx v of Some m \<Rightarrow> Some (group_or_empty m ''target'')
     | None \<Rightarrow> (case re_search scope_context_target_rx v of Some m \<Rightarrow> Some (group_or_empty m ''target'')
     | None \<Rightarrow> (case re_search negative_scope_target_rx v of Some m \<Rightarrow> Some (group_or_empty m ''target'')
     | None \<Rightarrow> (case re_search scope_noun_target_rx v of Some m \<Rightarrow> Some (group_or_empty m ''target'')
     | None \<Rightarrow> (case re_search universal_scope_target_rx v of None \<Rightarrow> None
     | Some m \<Rightarrow> Some (if group_or_empty m ''covered'' \<noteq> [] then group_or_empty m ''covered''
                     else group_or_empty m ''required''))))))"

definition trim_trailing :: "ustr \<Rightarrow> ustr \<Rightarrow> ustr" where
  "trim_trailing w t =
    (if ends_with t w \<and> length w + 1 < length t then take (length t - length w) t else t)"

definition scope_target :: "ustr \<Rightarrow> ustr option" where
  "scope_target v =
    (case raw_scope_target v of
       None \<Rightarrow> None
     | Some raw \<Rightarrow>
         (let target = strip (fold trim_trailing scope_trailing_words raw) in
          if target = [] \<or> target \<in> set scope_placeholder_targets then None else Some target))"

definition normalize_scope_text :: "ustr \<Rightarrow> ustr" where
  "normalize_scope_text v =
    fold (\<lambda>p. replace_all p []) scope_filler_phrases
      (replace_all [30465, 20869] [30465] (normalize_relation_text v))"

definition scope_binding_clauses :: "ustr \<Rightarrow> ustr list" where
  "scope_binding_clauses v = filter (has_any scope_binding_cues) (re_split scope_clause_break_rx v)"

definition first_line :: "ustr \<Rightarrow> ustr" where
  "first_line e = (case filter (\<lambda>l. l \<noteq> []) (map strip (splitlines e)) of [] \<Rightarrow> [] | l # _ \<Rightarrow> l)"

definition scope_title_clause_composition :: "ustr \<Rightarrow> ustr \<Rightarrow> ustr \<Rightarrow> bool" where
  "scope_title_clause_composition target evidence binding =
    (let title = normalize_scope_text (first_line evidence); n = length target in
     if n < 7 \<or> binding = [] then False
     else if contains title target then True
     else (\<exists>k \<in> set [4..<min 8 (n - 2) + 1].
             contains title (take (n - k) target) \<and> contains binding (drop (n - k) target)))"

definition scope_supported :: "ustr \<Rightarrow> ustr \<Rightarrow> bool" where
  "scope_supported claim evidence =
    (case scope_target claim of
       None \<Rightarrow> True
     | Some target \<Rightarrow>
         (let e = lower evidence; t = lower target in
          (\<exists>i \<in> set (find_all e t). has_any scope_binding_cues (py_slice (i - 50) (i + length target + 50) e))
          \<or> (let nt = normalize_scope_text t;
                 nb = normalize_scope_text (join [10] (scope_binding_clauses e))
             in 2 \<le> length nt \<and> contains nb nt \<or> scope_title_clause_composition nt e nb)))"

definition scope_polarity :: "ustr \<Rightarrow> ustr \<Rightarrow> int" where
  "scope_polarity v target =
    (let l = lower v;
         ws = map (\<lambda>i. py_slice (i - 40) (i + length target + 40) l) (find_all l (lower target))
     in if ws = [] then 0
        else if \<exists>w \<in> set ws. re_found scope_negation_rx w then - 1
        else if \<exists>w \<in> set ws. has_any [[36866, 29992], [38754, 21521], [38024, 23545], [28085, 30422], [21253, 25324], [35206, 30422], [24517, 39035], [24212, 24403]] w then 1
        else 0)"

section \<open>Shapes and special claims\<close>

definition answer_shape_supported :: "ustr \<Rightarrow> ustr \<Rightarrow> bool" where
  "answer_shape_supported aspect evidence =
    (let l = lower aspect;
         numeric_alternative = list_all (contains l) [[25968, 37327], [27604, 20363], [32534, 21495], [25110]];
         numeric_alternative_missing = (numeric_alternative \<and> \<not> re_found quantity_evidence_rx evidence);
         date_missing = (has_any [[20160, 20040, 26102, 20505], [20309, 26102], [26102, 38388], [26085, 26399]] l
           \<and> \<not> re_found date_evidence_rx evidence);
         percentage_missing = (\<not> numeric_alternative
           \<and> has_any [[27604, 20363], [30334, 20998, 27604], [21344, 27604], [37], [65285]] l
           \<and> \<not> re_found percent_evidence_rx evidence);
         money_missing = (has_any [[37329, 39069], [32602, 27454], [34917, 21161, 36164, 37329], [36164, 37329, 39069, 24230]] l
           \<and> \<not> re_found money_evidence_rx evidence);
         quantity_missing = (\<not> numeric_alternative
           \<and> has_any [[22810, 23569], [25968, 37327], [20960, 23478], [20960, 20010]] l
           \<and> \<not> has_any [[27604, 20363], [37329, 39069], [32602, 27454]] l
           \<and> \<not> re_found quantity_evidence_rx evidence);
         contact_missing = (has_any [[32852, 31995, 20154], [32852, 31995, 30005, 35805], [32852, 31995, 26041, 24335], [37038, 31665]] l
           \<and> \<not> re_found contact_evidence_rx evidence);
         list_missing = (has_any [[21517, 21333], [21738, 20123, 21333, 20301], [21738, 20960, 23478], [21253, 25324, 21738, 20123]] l
           \<and> \<not> re_found list_evidence_rx evidence);
         support_missing = (contains l [25903, 25345, 25514, 26045]
           \<and> \<not> has_any [[34917, 21161], [36164, 37329], [22870, 21169], [20943, 20813], [20248, 24800],
               [36151, 27454], [22521, 35757], [26381, 21153], [25903, 25345]] evidence)
     in \<not> (date_missing \<or> percentage_missing \<or> money_missing \<or> quantity_missing \<or> contact_missing
       \<or> list_missing \<or> support_missing \<or> numeric_alternative_missing))"

definition requires_fail_closed_query :: "ustr \<Rightarrow> bool" where
  "requires_fail_closed_query v =
    (let l = lower v in
     re_found unresolved_temporal_reference_rx l \<and> has_any temporal_status_terms l
       \<and> \<not> re_found date_evidence_rx l
     \<or> re_found source_authority_conflation_rx l
     \<or> re_found unverified_material_reference_rx l
     \<or> re_found contrary_to_source_request_rx l)"

definition is_dependent_meta_claim :: "ustr \<Rightarrow> bool" where
  "is_dependent_meta_claim v =
    (let l = strip (lower v) in
     if \<not> re_found dependent_meta_claim_rx l then False
     else if explicit_values l \<noteq> [] \<or> book_title_values l \<noteq> [] then False
     else \<not> (\<exists>(r, anchors) \<in> set relation_anchor_groups. has_any anchors l))"

definition identifier_claim_supported :: "ustr \<Rightarrow> ustr \<Rightarrow> ustr \<Rightarrow> bool" where
  "identifier_claim_supported query claim evidence =
    (let ids = re_findall policy_identifier_rx claim in
     if ids = [] \<or> \<not> has_any [[32534, 21495], [25991, 21495]] (query @ [10] @ claim) then False
     else list_all (\<lambda>i. contains (normalize_value evidence) (normalize_value i)) ids)"

definition pairs_of :: "ustr \<Rightarrow> ustr list" where
  "pairs_of s = map (\<lambda>k. py_slice (2 * k) (2 * k + 2) s) [0..<length s div 2]"

definition endpoint_supported :: "ustr list \<Rightarrow> ustr \<Rightarrow> ustr \<Rightarrow> bool" where
  "endpoint_supported ph evidence g =
    (let endpoint = normalize_relation_text g;
         terms = weighted_terms (clean_for_matching ph endpoint);
         matched = count_if (contains evidence) (dkeys terms);
         pairs = pairs_of endpoint
     in coverage terms evidence \<ge> 35 / 100 \<and> 3 \<le> matched
        \<or> 2 \<le> length pairs \<and> list_all (contains evidence) pairs)"

definition progression_claim_supported :: "ustr list \<Rightarrow> ustr \<Rightarrow> ustr \<Rightarrow> bool" where
  "progression_claim_supported ph claim evidence =
    (if explicit_values claim \<noteq> [] \<or> book_title_values claim \<noteq> [] then False
     else case re_search progression_synthesis_rx claim of
       None \<Rightarrow> False
     | Some m \<Rightarrow>
         2 \<le> count_if (contains evidence) [[25919, 31574, 30446, 26631], [23454, 26045, 23545, 35937], [31034, 33539, 39033, 30446], [22521, 32946, 23545, 35937]]
         \<and> list_all (endpoint_supported ph evidence) [group_or_empty m ''start'', group_or_empty m ''end''])"

section \<open>Hits\<close>

fun is_text_value :: "pyval \<Rightarrow> bool" where
  "is_text_value (PStr s) = True"
| "is_text_value (PInt k) = True"
| "is_text_value (PFloat x r) = True"
| "is_text_value _ = False"

definition searchable_text :: "hit \<Rightarrow> ustr" where
  "searchable_text h =
    join [10] (h_title h # h_content h # map py_str (filter is_text_value (map snd (h_meta h))))"

definition unique_hits :: "hit list \<Rightarrow> hit list" where
  "unique_hits hits = nub_by h_chunk [] hits"

definition bounded :: "rat \<Rightarrow> rat" where
  "bounded x = py_round 6 (min 1 (max 0 x))"

end
