(* ===== verification/EvidenceGate.thy ===== *)
theory EvidenceGate
  imports Evidence
begin

text \<open>
  The decisions of \<open>EvidenceSufficiencyGate\<close> (\<open>backend/app/rag/evidence.py\<close>): whether the retrieved
  hits cover every aspect of a question (\<open>assess\<close>) and whether an answer stays within the hits it
  cites (\<open>validate_answer\<close>). What a caller may rely on is the locale \<open>sufficiency_gate\<close>.
\<close>

section \<open>Data\<close>

record sufficiency =
  su_sufficient :: bool
  su_confidence :: rat
  su_reason :: string
  su_supported :: "ustr list"
  su_unsupported :: "ustr list"

record aspect_assessment =
  as_aspect :: ustr
  as_supported :: bool
  as_confidence :: rat
  as_reason :: string
  as_ids :: "ustr list"

record gate =
  g_confidence :: rat
  g_contribution :: rat
  g_overlap :: rat

definition mk_gate :: "rat \<Rightarrow> rat \<Rightarrow> rat \<Rightarrow> exn + gate" where
  "mk_gate c h a =
    (if \<not> (0 < c \<and> c \<le> 1) then Inl (ValueError ''minimum_confidence must be in (0, 1]'')
     else if \<not> (0 < h \<and> h \<le> 1) then Inl (ValueError ''minimum_hit_contribution must be in (0, 1]'')
     else if \<not> (2 / 10 \<le> a \<and> a \<le> 1) then Inl (ValueError ''minimum_answer_overlap must be in [0.2, 1]'')
     else Inr \<lparr>g_confidence = c, g_contribution = h, g_overlap = a\<rparr>)"

definition gate_refuse :: "rat \<Rightarrow> string \<Rightarrow> ustr list \<Rightarrow> sufficiency" where
  "gate_refuse conf reason aspects =
    \<lparr>su_sufficient = False, su_confidence = conf, su_reason = reason, su_supported = [],
     su_unsupported = aspects\<rparr>"

definition gate_accept :: "rat \<Rightarrow> string \<Rightarrow> ustr list \<Rightarrow> sufficiency" where
  "gate_accept conf reason ids =
    \<lparr>su_sufficient = True, su_confidence = conf, su_reason = reason, su_supported = ids,
     su_unsupported = []\<rparr>"

lemma decision_simps [simp]:
  "su_sufficient (gate_refuse c r a) = False" "su_supported (gate_refuse c r a) = []" "su_confidence (gate_refuse c r a) = c"
  "su_sufficient (gate_accept c r i) = True" "su_supported (gate_accept c r i) = i" "su_confidence (gate_accept c r i) = c"
  "su_unsupported (gate_accept c r i) = []" "su_unsupported (gate_refuse c r a) = a"
  "su_reason (gate_refuse c r a) = r" "su_reason (gate_accept c r i) = r"
  by (simp_all add: gate_refuse_def gate_accept_def)

section \<open>One aspect\<close>

definition hits_text :: "hit list \<Rightarrow> ustr" where
  "hits_text hits = lower (join [10] (map searchable_text hits))"

definition relation_required :: "ustr list \<Rightarrow> ustr \<Rightarrow> bool" where
  "relation_required ph a \<longleftrightarrow> relation_failure ph a [] \<noteq> None"

definition relation_hits :: "ustr list \<Rightarrow> ustr \<Rightarrow> hit list \<Rightarrow> hit list" where
  "relation_hits ph a hits = filter (\<lambda>h. relation_failure ph a (lower (searchable_text h)) = None) hits"

definition scope_hits :: "ustr \<Rightarrow> hit list \<Rightarrow> hit list" where
  "scope_hits a hits = filter (\<lambda>h. scope_supported a (lower (searchable_text h))) hits"

text \<open>
  Membership in the source compares hits by value; the hits of an assessment have different chunk
  identifiers, so that is identity.
\<close>

definition constraint_hits :: "ustr list \<Rightarrow> ustr \<Rightarrow> hit list \<Rightarrow> hit list" where
  "constraint_hits ph a hits =
    filter (\<lambda>h. (\<not> relation_required ph a \<or> h \<in> set (relation_hits ph a hits))
      \<and> (scope_target a = None \<or> h \<in> set (scope_hits a hits))) hits"

definition checked_hits :: "ustr list \<Rightarrow> ustr \<Rightarrow> hit list \<Rightarrow> hit list" where
  "checked_hits ph a hits = (if constraint_hits ph a hits \<noteq> [] then constraint_hits ph a hits else hits)"

definition contribution :: "weights \<Rightarrow> ustr \<Rightarrow> rat" where
  "contribution ts s = found_weight ts s / (if total_weight ts \<noteq> 0 then total_weight ts else 1)"

definition supporting_ids :: "gate \<Rightarrow> weights \<Rightarrow> hit list \<Rightarrow> ustr list" where
  "supporting_ids g ts hits =
    map h_chunk (filter (\<lambda>h. g_contribution g \<le> contribution ts (lower (searchable_text h))
      \<and> 0 < strong_match_count ts (lower (searchable_text h))) hits)"

definition assess_aspect :: "gate \<Rightarrow> ustr list \<Rightarrow> hit list \<Rightarrow> ustr \<Rightarrow> aspect_assessment" where
  "assess_aspect g ph hits aspect =
    (let terms = weighted_terms (clean_for_matching ph aspect);
         failed = (\<lambda>conf reason. \<lparr>as_aspect = aspect, as_supported = False, as_confidence = conf,
                     as_reason = reason, as_ids = []\<rparr>)
     in if terms = [] then failed 0 ''query_aspect_has_no_anchor''
     else let combined = hits_text hits;
              answer_text = lower (join [10] (map (\<lambda>h. h_title h @ [10] @ h_content h) hits));
              confidence = coverage terms combined
     in if requires_fail_closed_query aspect then failed confidence ''evidence_constraint_mismatch''
     else if relation_required ph aspect \<and> relation_hits ph aspect hits = []
       then failed confidence ''evidence_missing_required_relation''
     else if scope_target aspect \<noteq> None \<and> scope_hits aspect hits = []
       then failed confidence ''evidence_missing_required_scope_target''
     else let constraint_text = hits_text (checked_hits ph aspect hits)
     in if \<exists>v \<in> set (query_constraints aspect).
            \<not> contains (normalize_value constraint_text) (normalize_value v)
       then failed confidence ''evidence_constraint_mismatch''
     else if \<not> answer_shape_supported aspect (if constraint_text \<noteq> [] then constraint_text else answer_text)
       then failed confidence ''evidence_missing_required_answer_shape''
     else if confidence < g_confidence g \<or> strong_match_count terms combined = 0
       then failed confidence ''insufficient_evidence_relevance''
     else let ids = supporting_ids g terms (checked_hits ph aspect hits)
     in if ids = [] then failed confidence ''insufficient_evidence_relevance''
     else \<lparr>as_aspect = aspect, as_supported = True, as_confidence = confidence,
            as_reason = ''evidence_aspect_supported'', as_ids = ids\<rparr>)"

section \<open>A question\<close>

fun min_of :: "rat \<Rightarrow> rat list \<Rightarrow> rat" where
  "min_of x [] = x"
| "min_of x (y # ys) = min_of (min x y) ys"

definition assess :: "gate \<Rightarrow> ustr list \<Rightarrow> ustr \<Rightarrow> hit list \<Rightarrow> sufficiency" where
  "assess g ph q hits =
    (if unique_hits hits = [] then gate_refuse 0 ''no_retrieved_evidence'' [clean_display q]
     else case query_aspects q of
       [] \<Rightarrow> gate_refuse 0 ''query_has_no_substantive_aspects'' [clean_display q]
     | a # as \<Rightarrow>
       (let first = assess_aspect g ph (unique_hits hits) a;
            others = map (assess_aspect g ph (unique_hits hits)) as;
            items = first # others;
            confidence = min_of (as_confidence first) (map as_confidence others);
            ids = nub (concat (map as_ids (filter as_supported items)))
        in case filter (\<lambda>i. \<not> as_supported i) items of
             u # us \<Rightarrow> gate_refuse (bounded confidence) (as_reason u) (map as_aspect (u # us))
           | [] \<Rightarrow> if ids = [] then gate_refuse (bounded confidence) ''insufficient_evidence_relevance'' (a # as)
                   else gate_accept (bounded confidence) ''evidence_covers_all_query_aspects'' ids))"

section \<open>An answer\<close>

definition evidence_text :: "hit list \<Rightarrow> ustr" where
  "evidence_text hits = hits_text hits"

definition claim_supported :: "gate \<Rightarrow> ustr list \<Rightarrow> ustr \<Rightarrow> ustr \<Rightarrow> ustr \<Rightarrow> bool" where
  "claim_supported g ph query evidence claim =
    (if is_dependent_meta_claim claim then True
     else let terms = weighted_terms (clean_for_matching ph claim) in
       if terms = [] then True
       else \<not> (coverage terms evidence < g_overlap g
         \<and> \<not> (shared_relation query claim evidence
               \<and> 1 \<le> count_if (\<lambda>t. 2 \<le> length t \<and> contains evidence t) (dkeys terms))
         \<and> \<not> identifier_claim_supported query claim evidence
         \<and> \<not> progression_claim_supported ph claim evidence))"

definition scope_polarity_failure :: "ustr \<Rightarrow> ustr \<Rightarrow> hit list \<Rightarrow> bool" where
  "scope_polarity_failure answer target hits =
    (let p = scope_polarity answer target;
         es = filter (\<lambda>e. e \<noteq> 0) (map (\<lambda>h. scope_polarity (lower (searchable_text h)) target) hits)
     in p = - 1 \<and> - 1 \<notin> set es \<or> p \<noteq> 0 \<and> es \<noteq> [] \<and> p \<notin> set es)"

definition unsupported_values :: "ustr \<Rightarrow> ustr \<Rightarrow> ustr list" where
  "unsupported_values answer known =
    filter (\<lambda>v. \<not> contains (normalize_value known) (normalize_value v)) (explicit_values answer)"

definition validate_answer :: "gate \<Rightarrow> ustr list \<Rightarrow> ustr \<Rightarrow> ustr \<Rightarrow> hit list \<Rightarrow> sufficiency" where
  "validate_answer g ph query answer hits =
    (let base = assess g ph query hits; evidence = evidence_text hits;
         terms = weighted_terms (clean_for_matching ph answer); overlap = coverage terms evidence
     in if \<not> su_sufficient base
       then gate_refuse (su_confidence base) ''citations_do_not_cover_query'' (su_unsupported base)
     else case find (\<lambda>f. f \<noteq> None) (map (\<lambda>c. relation_failure ph c evidence) (answer_claims answer)) of
       Some (Some r) \<Rightarrow> gate_refuse 0 ''answer_contains_unsupported_relation'' [asc r]
     | _ \<Rightarrow>
     if scope_target answer \<noteq> None
        \<and> \<not> (\<exists>h \<in> set hits. scope_supported answer (lower (searchable_text h)))
       then gate_refuse 0 ''answer_contains_unsupported_scope_target'' [the (scope_target answer)]
     else if scope_target answer \<noteq> None \<and> scope_polarity_failure answer (the (scope_target answer)) hits
       then gate_refuse 0 ''answer_contains_unsupported_scope_polarity'' [the (scope_target answer)]
     else if \<not> answer_shape_supported query (lower answer)
       then gate_refuse 0 ''answer_missing_required_shape'' [clean_display query]
     else if unsupported_values answer (evidence @ [10] @ lower query) \<noteq> []
       then gate_refuse 0 ''answer_contains_unsupported_exact_values''
              (unsupported_values answer (evidence @ [10] @ lower query))
     else case find (\<lambda>c. \<not> claim_supported g ph query evidence c) (answer_claims answer) of
       Some c \<Rightarrow> gate_refuse (bounded (coverage (weighted_terms (clean_for_matching ph c)) evidence))
                   ''answer_contains_unsupported_claim'' [clean_display c]
     | None \<Rightarrow>
     if terms \<noteq> [] \<and> overlap < g_overlap g
        \<and> \<not> (shared_relation query answer evidence
              \<and> 1 \<le> count_if (\<lambda>t. 2 \<le> length t \<and> contains evidence t) (dkeys terms))
       then gate_refuse (bounded overlap) ''answer_not_supported_by_citations'' [clean_display answer]
     else gate_accept (bounded (min (su_confidence base) (max overlap (1 / 2))))
            ''answer_supported_by_citations'' (su_supported base))"


section \<open>What a decision promises\<close>

definition decision_ok :: "hit list \<Rightarrow> sufficiency \<Rightarrow> bool" where
  "decision_ok hits d \<longleftrightarrow>
    0 \<le> su_confidence d \<and> su_confidence d \<le> 1
    \<and> distinct (su_supported d) \<and> set (su_supported d) \<subseteq> h_chunk ` set hits
    \<and> (su_sufficient d \<longrightarrow> su_supported d \<noteq> [] \<and> su_unsupported d = [])
    \<and> (\<not> su_sufficient d \<longrightarrow> su_supported d = [])"

lemma bounded_unit: "0 \<le> bounded x \<and> bounded x \<le> 1"
  unfolding bounded_def by (rule py_round_unit) auto

lemma decision_ok_refuse: "0 \<le> c \<Longrightarrow> c \<le> 1 \<Longrightarrow> decision_ok hits (gate_refuse c r a)"
  by (simp add: decision_ok_def)

lemma decision_ok_accept:
  "distinct ids \<Longrightarrow> ids \<noteq> [] \<Longrightarrow> set ids \<subseteq> h_chunk ` set hits \<Longrightarrow> decision_ok hits (gate_accept (bounded c) r ids)"
  by (simp add: decision_ok_def bounded_unit)

text \<open>What an aspect needs from a hit that supports it, and from the hits together.\<close>

definition aspect_terms :: "ustr list \<Rightarrow> ustr \<Rightarrow> weights" where
  "aspect_terms ph a = weighted_terms (clean_for_matching ph a)"

definition supports :: "gate \<Rightarrow> ustr list \<Rightarrow> ustr \<Rightarrow> hit \<Rightarrow> bool" where
  "supports g ph a h \<longleftrightarrow> g_contribution g \<le> contribution (aspect_terms ph a) (lower (searchable_text h))
     \<and> 0 < strong_match_count (aspect_terms ph a) (lower (searchable_text h))"

definition covered :: "gate \<Rightarrow> ustr list \<Rightarrow> hit list \<Rightarrow> ustr \<Rightarrow> bool" where
  "covered g ph hits a \<longleftrightarrow>
    \<not> requires_fail_closed_query a
    \<and> (relation_required ph a \<longrightarrow> (\<exists>h \<in> set hits. relation_failure ph a (lower (searchable_text h)) = None))
    \<and> (scope_target a \<noteq> None \<longrightarrow> (\<exists>h \<in> set hits. scope_supported a (lower (searchable_text h))))
    \<and> (\<forall>v \<in> set (query_constraints a).
          contains (normalize_value (hits_text (checked_hits ph a hits))) (normalize_value v))
    \<and> g_confidence g \<le> coverage (aspect_terms ph a) (hits_text hits)
    \<and> (\<exists>h \<in> set (checked_hits ph a hits). supports g ph a h)"

lemma checked_hits_subset: "set (checked_hits ph a hits) \<subseteq> set hits"
  by (auto simp: checked_hits_def constraint_hits_def)

lemma filter_not_Nil: "filter P xs \<noteq> [] \<longleftrightarrow> (\<exists>x \<in> set xs. P x)"
  by (auto simp: filter_empty_conv)

lemma aspect_covered:
  assumes "as_supported (assess_aspect g ph hits a)"
  shows "covered g ph hits a"
    and "as_ids (assess_aspect g ph hits a) = map h_chunk (filter (supports g ph a) (checked_hits ph a hits))"
proof -
  have ids: "supporting_ids g (weighted_terms (clean_for_matching ph a)) hs = map h_chunk (filter (supports g ph a) hs)" for hs
    by (simp add: supporting_ids_def supports_def [abs_def] aspect_terms_def)
  note s = assms [unfolded assess_aspect_def Let_def]
  from s have raw: "\<not> requires_fail_closed_query a" "\<not> (relation_required ph a \<and> relation_hits ph a hits = [])"
    "\<not> (scope_target a \<noteq> None \<and> scope_hits a hits = [])"
    "\<not> (\<exists>v \<in> set (query_constraints a).
        \<not> contains (normalize_value (hits_text (checked_hits ph a hits))) (normalize_value v))"
    "\<not> coverage (aspect_terms ph a) (hits_text hits) < g_confidence g"
    "filter (supports g ph a) (checked_hits ph a hits) \<noteq> []"
    by (simp_all only: ids aspect_terms_def list.map_disc_iff aspect_assessment.simps simp_thms split: if_splits)
      (simp_all only: de_Morgan_disj simp_thms)
  show "covered g ph hits a"
    unfolding covered_def using raw unfolding relation_hits_def scope_hits_def filter_empty_conv by (auto simp: not_less)
  from s show "as_ids (assess_aspect g ph hits a) = map h_chunk (filter (supports g ph a) (checked_hits ph a hits))"
    unfolding assess_aspect_def Let_def
    by (simp_all only: ids list.map_disc_iff aspect_assessment.simps simp_thms if_True if_False split: if_splits)
qed

lemma as_aspect_assess [simp]: "as_aspect (assess_aspect g ph hits a) = a"
  by (simp add: assess_aspect_def Let_def)

lemma set_unique_hits: "set (unique_hits hits) \<subseteq> set hits"
  unfolding unique_hits_def by (rule set_nub_by)

lemma assess_cases:
  obtains (none) "unique_hits hits = [] \<or> query_aspects q = []" "assess g ph q hits = gate_refuse 0 (su_reason (assess g ph q hits)) [clean_display q]"
  | (some) c r as where "assess g ph q hits = gate_refuse (bounded c) r as" "as \<noteq> []"
  | (all) c ids where "assess g ph q hits = gate_accept (bounded c) ''evidence_covers_all_query_aspects'' ids" "ids \<noteq> []"
      "query_aspects q \<noteq> []" "\<forall>a \<in> set (query_aspects q). as_supported (assess_aspect g ph (unique_hits hits) a)"
      "ids = nub (concat (map (\<lambda>a. as_ids (assess_aspect g ph (unique_hits hits) a)) (query_aspects q)))"
proof (cases "unique_hits hits = []")
  case True
  then show ?thesis by (intro none) (simp_all add: assess_def)
next
  case False
  show ?thesis
  proof (cases "query_aspects q")
    case Nil
    then show ?thesis using False by (intro none) (simp_all add: assess_def)
  next
    case (Cons a as)
    let ?f = "assess_aspect g ph (unique_hits hits)"
    let ?items = "map ?f (a # as)"
    let ?c = "min_of (as_confidence (?f a)) (map as_confidence (map ?f as))"
    let ?ids = "nub (concat (map as_ids (filter as_supported ?items)))"
    show ?thesis
    proof (cases "filter (\<lambda>i. \<not> as_supported i) ?items")
      case (Cons u us)
      then have "assess g ph q hits = gate_refuse (bounded ?c) (as_reason u) (map as_aspect (u # us))"
        using False \<open>query_aspects q = a # as\<close> by (simp add: assess_def Let_def)
      then show ?thesis by (rule some) simp
    next
      case Nil
      then have "\<forall>i \<in> set ?items. as_supported i" unfolding filter_empty_conv by blast
      then have sup: "\<forall>x \<in> set (a # as). as_supported (?f x)" by simp
      then have f: "filter as_supported ?items = ?items" by (intro filter_True) simp
      have eq: "assess g ph q hits = (if ?ids = [] then gate_refuse (bounded ?c) ''insufficient_evidence_relevance'' (a # as)
          else gate_accept (bounded ?c) ''evidence_covers_all_query_aspects'' ?ids)"
        using False Nil \<open>query_aspects q = a # as\<close> by (simp add: assess_def Let_def)
      show ?thesis
      proof (cases "?ids = []")
        case True
        with eq show ?thesis by (intro some [of ?c "''insufficient_evidence_relevance''" "a # as"]) simp_all
      next
        case False
        then have acc: "assess g ph q hits = gate_accept (bounded ?c) ''evidence_covers_all_query_aspects'' ?ids"
          using eq by (simp only: if_False)
        have ids: "?ids = nub (concat (map (\<lambda>a. as_ids (?f a)) (a # as)))"
          unfolding f by (simp only: map_map comp_def)
        show ?thesis by (rule all [OF acc False]) (use sup ids \<open>query_aspects q = a # as\<close> in simp_all)
      qed
    qed
  qed
qed

lemma assess_ids:
  assumes "c \<in> set (as_ids (assess_aspect g ph (unique_hits hits) a))"
    and "as_supported (assess_aspect g ph (unique_hits hits) a)"
  shows "\<exists>h \<in> set hits. h_chunk h = c \<and> supports g ph a h"
proof -
  from assms obtain h where "h \<in> set (checked_hits ph a (unique_hits hits))" "h_chunk h = c" "supports g ph a h"
    by (auto simp: aspect_covered(2))
  then show ?thesis using checked_hits_subset set_unique_hits by blast
qed

lemma assess_ok: "decision_ok hits (assess g ph q hits)"
proof (cases rule: assess_cases [of hits q g ph])
  case none
  then show ?thesis by (metis decision_ok_refuse zero_le_one order_refl)
next
  case some
  then show ?thesis using decision_ok_refuse bounded_unit by metis
next
  case (all c ids)
  have "set ids \<subseteq> h_chunk ` set hits"
  proof
    fix x assume "x \<in> set ids"
    then obtain a where "a \<in> set (query_aspects q)" "x \<in> set (as_ids (assess_aspect g ph (unique_hits hits) a))"
      unfolding all(5) by auto
    then show "x \<in> h_chunk ` set hits" using assess_ids all(4) by blast
  qed
  then show ?thesis using all by (auto intro!: decision_ok_accept)
qed

lemma assess_sufficientD:
  assumes "su_sufficient (assess g ph q hits)"
  shows "query_aspects q \<noteq> []"
    and "a \<in> set (query_aspects q) \<Longrightarrow> covered g ph (unique_hits hits) a"
    and "c \<in> set (su_supported (assess g ph q hits)) \<Longrightarrow>
      \<exists>h \<in> set hits. \<exists>a \<in> set (query_aspects q). h_chunk h = c \<and> supports g ph a h"
proof -
  obtain k ids where all: "assess g ph q hits = gate_accept (bounded k) ''evidence_covers_all_query_aspects'' ids"
      "query_aspects q \<noteq> []" "\<forall>a \<in> set (query_aspects q). as_supported (assess_aspect g ph (unique_hits hits) a)"
      "ids = nub (concat (map (\<lambda>a. as_ids (assess_aspect g ph (unique_hits hits) a)) (query_aspects q)))"
    by (cases rule: assess_cases [of hits q g ph]) (use assms in \<open>metis decision_simps(1)\<close>)+
  show "query_aspects q \<noteq> []" by (rule all(2))
  show "a \<in> set (query_aspects q) \<Longrightarrow> covered g ph (unique_hits hits) a"
    using all(3) aspect_covered(1) by blast
  assume "c \<in> set (su_supported (assess g ph q hits))"
  then obtain b where "b \<in> set (query_aspects q)" "c \<in> set (as_ids (assess_aspect g ph (unique_hits hits) b))"
    unfolding all(1) decision_simps all(4) by auto
  then show "\<exists>h \<in> set hits. \<exists>a \<in> set (query_aspects q). h_chunk h = c \<and> supports g ph a h"
    using assess_ids all(3) by blast
qed

section \<open>An accepted answer\<close>

definition stays_grounded :: "gate \<Rightarrow> ustr list \<Rightarrow> ustr \<Rightarrow> ustr \<Rightarrow> hit list \<Rightarrow> bool" where
  "stays_grounded g ph q a hits \<longleftrightarrow>
    (\<forall>c \<in> set (answer_claims a). relation_failure ph c (evidence_text hits) = None
        \<and> claim_supported g ph q (evidence_text hits) c)
    \<and> (\<forall>v \<in> set (explicit_values a).
        contains (normalize_value (evidence_text hits @ [10] @ lower q)) (normalize_value v))
    \<and> (\<forall>t. scope_target a = Some t \<longrightarrow>
        (\<exists>h \<in> set hits. scope_supported a (lower (searchable_text h)))
        \<and> (scope_polarity a t = - 1 \<longrightarrow> (\<exists>h \<in> set hits. scope_polarity (lower (searchable_text h)) t = - 1)))
    \<and> answer_shape_supported q (lower a)"

lemma find_Some_None: "find (\<lambda>f. f \<noteq> None) (map r xs) \<noteq> Some None"
  by (induction xs) auto

lemma find_None_all: "find P xs = None \<longleftrightarrow> (\<forall>x \<in> set xs. \<not> P x)"
  by (auto simp: find_None_iff)

lemma filter_Nil_all: "filter P xs = [] \<longleftrightarrow> (\<forall>x \<in> set xs. \<not> P x)"
  unfolding filter_empty_conv by blast

definition validated :: "gate \<Rightarrow> ustr list \<Rightarrow> ustr \<Rightarrow> ustr \<Rightarrow> hit list \<Rightarrow> sufficiency \<Rightarrow> bool" where
  "validated g ph q a hits d \<longleftrightarrow>
    (\<exists>c r as. d = gate_refuse c r as \<and> 0 \<le> c \<and> c \<le> 1)
    \<or> (\<exists>c. d = gate_accept (bounded c) ''answer_supported_by_citations'' (su_supported (assess g ph q hits))
         \<and> su_sufficient (assess g ph q hits) \<and> stays_grounded g ph q a hits)"

lemma validated_if:
  "(b \<Longrightarrow> validated g ph q a hits x) \<Longrightarrow> (\<not> b \<Longrightarrow> validated g ph q a hits y) \<Longrightarrow>
    validated g ph q a hits (if b then x else y)"
  by simp

lemma validated_case:
  "(r = None \<Longrightarrow> validated g ph q a hits x) \<Longrightarrow> (\<And>c. r = Some c \<Longrightarrow> validated g ph q a hits (y c)) \<Longrightarrow>
    validated g ph q a hits (case r of None \<Rightarrow> x | Some c \<Rightarrow> y c)"
  by (cases r) simp_all

lemma validated_refuse:
  "validated g ph q a hits (gate_refuse 0 r as)" "validated g ph q a hits (gate_refuse (bounded c) r as)"
  "validated g ph q a hits (gate_refuse (su_confidence (assess g ph q hits)) r as)"
  using bounded_unit assess_ok [of hits g ph q] unfolding validated_def decision_ok_def by (metis zero_le_one order_refl)+

lemma validated_accept:
  assumes "su_sufficient (assess g ph q hits)"
    and rel: "find (\<lambda>f. f \<noteq> None) (map (\<lambda>c. relation_failure ph c (evidence_text hits)) (answer_claims a)) = None"
    and "\<not> (scope_target a \<noteq> None \<and> \<not> (\<exists>h \<in> set hits. scope_supported a (lower (searchable_text h))))"
    and "\<not> (scope_target a \<noteq> None \<and> scope_polarity_failure a (the (scope_target a)) hits)"
    and "\<not> \<not> answer_shape_supported q (lower a)"
    and vals: "\<not> unsupported_values a (evidence_text hits @ [10] @ lower q) \<noteq> []"
    and cl: "find (\<lambda>c. \<not> claim_supported g ph q (evidence_text hits) c) (answer_claims a) = None"
  shows "validated g ph q a hits
    (gate_accept (bounded k) ''answer_supported_by_citations'' (su_supported (assess g ph q hits)))"
proof -
  have "stays_grounded g ph q a hits"
    unfolding stays_grounded_def
  proof (intro conjI allI impI ballI)
    fix c assume "c \<in> set (answer_claims a)"
    then show "relation_failure ph c (evidence_text hits) = None" "claim_supported g ph q (evidence_text hits) c"
      using rel cl unfolding find_None_all by auto
  next
    fix w assume "w \<in> set (explicit_values a)"
    then show "contains (normalize_value (evidence_text hits @ [10] @ lower q)) (normalize_value w)"
      using vals unfolding unsupported_values_def filter_Nil_all by blast
  next
    fix t assume t: "scope_target a = Some t"
    then show "\<exists>h \<in> set hits. scope_supported a (lower (searchable_text h))" using assms(3) by blast
    assume "scope_polarity a t = - 1"
    with assms(4) t show "\<exists>h \<in> set hits. scope_polarity (lower (searchable_text h)) t = - 1"
      by (auto simp: scope_polarity_failure_def Let_def)
  qed (use assms(5) in blast)
  then show ?thesis using assms(1) unfolding validated_def by blast
qed

lemma validated_answer: "validated g ph q a hits (validate_answer g ph q a hits)"
proof (cases "find (\<lambda>f. f \<noteq> None) (map (\<lambda>c. relation_failure ph c (evidence_text hits)) (answer_claims a))")
  case None
  show ?thesis
    unfolding validate_answer_def Let_def None option.case
    by (intro validated_if validated_case validated_refuse validated_accept None) blast+
next
  case (Some f)
  then obtain r where "f = Some r" using find_Some_None by (cases f) auto
  with Some show ?thesis
    unfolding validate_answer_def Let_def by (simp only: option.case) (intro validated_if validated_refuse)
qed

lemma validate_ok: "decision_ok hits (validate_answer g ph q a hits)"
  using validated_answer [of g ph q a hits] assess_ok [of hits g ph q]
  unfolding validated_def by (auto simp: decision_ok_def bounded_unit)

lemma validate_sufficientD:
  "su_sufficient (validate_answer g ph q a hits) \<Longrightarrow> su_sufficient (assess g ph q hits) \<and> stays_grounded g ph q a hits"
  using validated_answer [of g ph q a hits] unfolding validated_def by auto

section \<open>The contract of a gate\<close>

text \<open>
  What \<open>ChatService\<close> relies on: decisions are well formed, and an accepted answer cites hits that
  are themselves sufficient.
\<close>

locale sufficiency_gate =
  fixes decide :: "ustr \<Rightarrow> hit list \<Rightarrow> sufficiency"
    and check :: "ustr \<Rightarrow> ustr \<Rightarrow> hit list \<Rightarrow> sufficiency"
  assumes decide_ok: "decision_ok hits (decide q hits)"
    and check_ok: "decision_ok hits (check q a hits)"
    and check_decide: "su_sufficient (check q a hits) \<Longrightarrow> su_sufficient (decide q hits)"
begin

lemma supported_hits_nonempty:
  "su_sufficient (decide q hits) \<Longrightarrow>
    filter (\<lambda>h. h_chunk h \<in> set (su_supported (decide q hits))) hits \<noteq> []"
  using decide_ok [of hits q] by (auto simp: decision_ok_def filter_empty_conv neq_Nil_conv)

lemma checked_hits_nonempty: "su_sufficient (check q a hits) \<Longrightarrow> hits \<noteq> []"
  using check_ok [of hits q a] by (auto simp: decision_ok_def)

end

interpretation lexical: sufficiency_gate "assess g ph" "validate_answer g ph" for g ph
  by unfold_locales (simp_all add: assess_ok validate_ok validate_sufficientD)

end
