(* ===== verification/EvidenceProps.thy ===== *)
theory EvidenceProps
  imports EvidenceGate
begin

text \<open>
  Properties of the evidence gate of \<open>backend/app/rag/evidence.py\<close>: nothing of a question escapes
  the assessment, what an accepting decision guarantees, and two behaviours that its checks do not
  exclude.
\<close>

section \<open>Splitting a question loses no word\<close>

definition is_wordy :: "int \<Rightarrow> bool" where
  "is_wordy c \<longleftrightarrow> \<not> is_space c \<and> c \<notin> set terminators \<and> c \<notin> set display_strip"

lemma filter_dropWhile: "(\<And>c. P c \<Longrightarrow> \<not> p c) \<Longrightarrow> filter p (dropWhile P s) = filter p s"
  by (induction s) auto

lemma filter_strip_if: "(\<And>c. P c \<Longrightarrow> \<not> p c) \<Longrightarrow> filter p (strip_if P s) = filter p s"
  by (simp add: strip_if_def lstrip_if_def rstrip_if_def filter_dropWhile rev_filter [symmetric])

lemma wordy_display: "filter is_wordy (clean_display v) = filter is_wordy v"
proof -
  have "filter is_wordy w = []" if "lang spaces_rx w ds" for w ds
    using lang_rep_space [OF that [unfolded spaces_rx_def]] by (auto simp: filter_empty_conv is_wordy_def)
  moreover have "filter is_wordy [32] = []" by (simp add: is_wordy_def is_space_def)
  ultimately have "filter is_wordy (re_sub spaces_rx [32] v) = filter is_wordy v" by (rule filter_re_sub)
  then show ?thesis
    unfolding clean_display_def strip_chars_def by (subst filter_strip_if) (simp_all add: is_wordy_def)
qed

lemma wordy_aspect: "filter is_wordy (concat (aspect_of cur)) = filter is_wordy (rev cur)"
  using wordy_display [of "rev cur"] by (auto simp: aspect_of_def Let_def)

lemma wordy_aspects: "filter is_wordy (concat (aspects_from d cur s)) = filter is_wordy (rev cur @ s)"
proof (induction d cur s rule: aspects_from.induct)
  case (1 depth cur)
  then show ?case by (simp add: wordy_aspect)
next
  case (2 depth cur c s)
  have "\<not> is_wordy c" if "c \<in> set terminators" using that by (simp add: is_wordy_def)
  with 2 show ?case by (simp add: wordy_aspect)
qed

lemma aspects_nonempty: "a \<in> set (aspects_from d cur s) \<Longrightarrow> a \<noteq> []"
  by (induction d cur s rule: aspects_from.induct) (auto simp: aspect_of_def Let_def split: if_splits)

text \<open>A prefix of a title: inside it a terminator does not end the aspect.\<close>

lemma aspects_in_title:
  "12298 \<notin> set t \<Longrightarrow> 12299 \<notin> set t \<Longrightarrow>
    aspects_from (Suc d) cur (t @ s) = aspects_from (Suc d) (rev t @ cur) s"
  by (induction t arbitrary: cur) auto

section \<open>Properties\<close>

theorem aspects_lossless:
  "filter is_wordy (concat (query_aspects q)) = filter is_wordy q
    \<and> [] \<notin> set (query_aspects q)
    \<and> (12298 \<notin> set t \<and> 12299 \<notin> set t \<longrightarrow>
        query_aspects (12298 # t @ [12299] @ s) = aspects_from 0 (rev (12298 # t @ [12299])) s)"
  using wordy_aspects [of 0 "[]" q] aspects_nonempty [of "[]" 0 "[]" q]
  by (auto simp: query_aspects_def aspects_in_title)

definition sample_title :: ustr where
  "sample_title = [36130, 25919, 25903, 25345, 65281, 20851, 20110, 21452, 30899]"

lemma aspects_lossless_witness:
  "query_aspects (12298 # sample_title @ [12299] @ [30340, 35201, 27714, 65311]) = [12298 # sample_title @ [12299] @ [30340, 35201, 27714]]"
proof -
  have "query_aspects (12298 # sample_title @ [12299] @ [30340, 35201, 27714, 65311])
      = aspects_from 0 (rev (12298 # sample_title @ [12299])) [30340, 35201, 27714, 65311]"
    using aspects_lossless [where t = sample_title and s = "[30340, 35201, 27714, 65311]"] by (simp add: sample_title_def)
  also have "\<dots> = [12298 # sample_title @ [12299] @ [30340, 35201, 27714]]" by code_simp
  finally show ?thesis .
qed

definition default_gate :: gate where
  "default_gate = \<lparr>g_confidence = 45 / 100, g_contribution = 8 / 100, g_overlap = 2 / 10\<rparr>"

definition sample_order :: "ustr list" where
  "sample_order = sort_key (\<lambda>p. - int (length p)) question_phrases"

definition plain_hit :: "ustr \<Rightarrow> ustr \<Rightarrow> ustr \<Rightarrow> hit" where
  "plain_hit c t x = \<lparr>h_chunk = c, h_document = c, h_content = x, h_title = t, h_url = [], h_score = 1,
     h_rank = 1, h_source = [], h_meta = []\<rparr>"

text \<open>
  C22. Every decision has a confidence in the unit interval and names distinct chunks of the
  hits, some exactly when it is sufficient. A sufficient decision covers every aspect of the
  question: no aspect is of the kinds always refused, a relation or scope it asks for is stated
  by a hit, its exact values occur in the checked hits, its terms are covered up to the minimum
  and one of the checked hits contributes; and every chunk named contributes a strong term to an
  aspect.
\<close>

theorem evidence_sufficient:
  "decision_ok hits (assess g ph q hits)
    \<and> (su_sufficient (assess g ph q hits) \<longrightarrow>
        query_aspects q \<noteq> [] \<and> (\<forall>a \<in> set (query_aspects q). covered g ph (unique_hits hits) a)
        \<and> (\<forall>c \<in> set (su_supported (assess g ph q hits)).
             \<exists>h \<in> set hits. \<exists>a \<in> set (query_aspects q). h_chunk h = c \<and> supports g ph a h))"
  using assess_ok assess_sufficientD by blast

lemma evidence_sufficient_witness:
  "covered default_gate sample_order [plain_hit (asc ''c1'') [] (asc ''grants'')] (asc ''grants'')"
proof -
  have "su_sufficient (assess default_gate sample_order (asc ''grants'') [plain_hit (asc ''c1'') [] (asc ''grants'')])"
    by code_simp
  moreover have "asc ''grants'' \<in> set (query_aspects (asc ''grants''))"
    "unique_hits [plain_hit (asc ''c1'') [] (asc ''grants'')] = [plain_hit (asc ''c1'') [] (asc ''grants'')]"
    by code_simp+
  ultimately show ?thesis
    using evidence_sufficient [of "[plain_hit (asc ''c1'') [] (asc ''grants'')]" default_gate sample_order "asc ''grants''"]
    by simp
qed

text \<open>
  C23. An answer is accepted only when the hits it cites are sufficient for the question, no
  claim of it states a cancellation, penalty or legal basis the cited text does not, every claim
  that is not a mere reference to others is covered by the text or by one of the special rules,
  every exact value occurs in the normalised text of citations and question, its scope is stated
  by a cited hit (and denied by one if the answer denies it), and it has the shape the question
  asks for; the chunks it names are those of the question's decision.
\<close>

theorem answer_validated:
  "decision_ok hits (validate_answer g ph q a hits)
    \<and> (su_sufficient (validate_answer g ph q a hits) \<longrightarrow>
        su_sufficient (assess g ph q hits) \<and> stays_grounded g ph q a hits
        \<and> su_supported (validate_answer g ph q a hits) = su_supported (assess g ph q hits))"
  using validated_answer [of g ph q a hits] validate_ok [of hits g ph q a] unfolding validated_def by auto

lemma answer_validated_witness:
  "stays_grounded default_gate sample_order (asc ''grants'') (asc ''grants'') [plain_hit (asc ''c1'') [] (asc ''grants'')]"
proof -
  have "su_sufficient (validate_answer default_gate sample_order (asc ''grants'') (asc ''grants'')
      [plain_hit (asc ''c1'') [] (asc ''grants'')])" by code_simp
  then show ?thesis
    using answer_validated [of "[plain_hit (asc ''c1'') [] (asc ''grants'')]" default_gate sample_order
        "asc ''grants''" "asc ''grants''"] by simp
qed

text \<open>Two orders in which the set of question phrases may be sorted.\<close>

definition other_order :: "ustr list" where
  "other_order = sort_key (\<lambda>p. - int (length p)) (rev question_phrases)"

theorem verdict_depends_on_set_order:
  "phrase_order sample_order \<and> phrase_order other_order
    \<and> \<not> su_sufficient (assess default_gate sample_order [26377, 20851, 20110, 34917, 36148, 27454] [plain_hit (asc ''c1'') [] [34917, 36148, 27454]])
    \<and> su_sufficient (assess default_gate other_order [26377, 20851, 20110, 34917, 36148, 27454] [plain_hit (asc ''c1'') [] [34917, 36148, 27454]])"
proof (intro conjI)
  show "phrase_order sample_order" "phrase_order other_order" by code_simp+
qed code_simp+

definition joined_hits :: "hit list" where
  "joined_hits = [plain_hit (asc ''c1'') [] (asc ''grants 12''), plain_hit (asc ''c2'') [51, 23478] (asc ''grants'')]"

theorem value_across_hits_accepted:
  "su_sufficient (validate_answer default_gate sample_order (asc ''grants'') (asc ''grants '' @ [49, 50, 51, 23478]) joined_hits)
    \<and> explicit_values (asc ''grants '' @ [49, 50, 51, 23478]) = [[49, 50, 51, 23478]]
    \<and> \<not> (\<exists>h \<in> set joined_hits. contains (normalize_value (searchable_text h)) [49, 50, 51, 23478])
    \<and> \<not> contains (asc ''grants'') [49, 50, 51, 23478]"
proof (intro conjI)
  show "su_sufficient (validate_answer default_gate sample_order (asc ''grants'') (asc ''grants '' @ [49, 50, 51, 23478]) joined_hits)"
    by code_simp
  show "explicit_values (asc ''grants '' @ [49, 50, 51, 23478]) = [[49, 50, 51, 23478]]" by code_simp
  show "\<not> (\<exists>h \<in> set joined_hits. contains (normalize_value (searchable_text h)) [49, 50, 51, 23478])" by code_simp
qed code_simp

end
