(* ===== verification/Llm.thy ===== *)
theory Llm
  imports PyJson Retrieval
begin

text \<open>
  \<open>backend/app/llm/protocols.py\<close> and \<open>adapters.py\<close>: the answer of a language model and the two
  adapters that obtain it. The HTTP exchange is the parameter \<open>transport\<close>; decoding JSON text and
  validating a decoded object against a pydantic model are parameters too (\<open>None\<close> where they
  raise). The contract a caller gets from the direct adapter is the locale \<open>answer_provider\<close>.
\<close>

section \<open>Results\<close>

type_synonym usage = "(string, int) dict"

record answer_result =
  ar_answer :: ustr
  ar_cited :: "ustr list"
  ar_refusal :: bool
  ar_reason :: "ustr option"
  ar_usage :: usage
  ar_cost :: "rat option"

text \<open>
  The exchange: a decoded body, an \<open>httpx.HTTPError\<close> or \<open>ValueError\<close> with its message, or any
  other exception.
\<close>

datatype transport = Replied json | Failed string | Crashed exn

section \<open>Usage\<close>

fun as_mapping :: "json \<Rightarrow> (ustr \<times> json) list option" where
  "as_mapping (JObj d) = Some d"
| "as_mapping _ = None"

fun first_mapping :: "json list \<Rightarrow> (ustr \<times> json) list option" where
  "first_mapping [] = None"
| "first_mapping (j # js) = (case as_mapping j of Some d \<Rightarrow> Some d | None \<Rightarrow> first_mapping js)"

definition sub_get :: "json \<Rightarrow> string list \<Rightarrow> json list" where
  "sub_get j ks = (case as_mapping j of None \<Rightarrow> [] | Some d \<Rightarrow> map (\<lambda>k. jget d (asc k)) ks)"

fun first_count :: "(ustr \<times> json) list \<Rightarrow> string list \<Rightarrow> int option" where
  "first_count d [] = None"
| "first_count d (k # ks) =
    (case jget d (asc k) of JInt n \<Rightarrow> if 0 \<le> n then Some n else first_count d ks | _ \<Rightarrow> first_count d ks)"

definition usage_aliases :: "(string \<times> string list) list" where
  "usage_aliases = [
     (''prompt_tokens'', [''prompt_tokens'', ''input_tokens'', ''input'']),
     (''completion_tokens'', [''completion_tokens'', ''output_tokens'', ''output'']),
     (''total_tokens'', [''total_tokens'', ''tokens''])]"

definition counted :: "(ustr \<times> json) list \<Rightarrow> usage" where
  "counted d = List.map_filter (\<lambda>(target, names). map_option (Pair target) (first_count d names)) usage_aliases"

definition with_total :: "usage \<Rightarrow> usage" where
  "with_total n =
    (if dget n ''total_tokens'' = None then
       (case (dget n ''prompt_tokens'', dget n ''completion_tokens'') of
          (Some p, Some c) \<Rightarrow> dset ''total_tokens'' (p + c) n
        | _ \<Rightarrow> n)
     else n)"

definition extract_usage :: "(ustr \<times> json) list \<Rightarrow> usage" where
  "extract_usage payload =
    (case first_mapping (map (\<lambda>k. jget payload (asc k)) [''usage'', ''token_usage'']
        @ sub_get (jget payload (asc ''data'')) [''usage'', ''token_usage'']) of
       None \<Rightarrow> []
     | Some d \<Rightarrow> with_total (counted d))"

section \<open>Cost\<close>

text \<open>
  \<open>Decimal(text)\<close>: a numeral with an optional exponent, an infinity or a NaN, surrounding white
  space and underscores ignored; \<open>None\<close> where it raises \<open>InvalidOperation\<close>.
\<close>

definition decimal_rx :: rx where
  "decimal_rx = seqs [ropt (Grp ''sign'' (any_of (asc ''-+''))), alts [seqs [Grp ''int'' (rplus Digit),
     ropt (seqs [lit (asc ''.''), Grp ''frac'' (rstar Digit)])], seqs [lit (asc ''.''),
     Grp ''tail'' (rplus Digit)]], ropt (seqs [ilit (asc ''E''),
     Grp ''exp'' (seqs [ropt (any_of (asc ''-+'')), rplus Digit])]), Eol]"
definition decimal_special_rx :: rx where
  "decimal_special_rx = seqs [ropt (any_of (asc ''-+'')), Grp ''name'' (alts [seqs [ilit (asc ''Inf''),
     ropt (ilit (asc ''inity''))], seqs [ropt (ilit (asc ''s'')), ilit (asc ''NaN''),
     rstar Digit]]), Eol]"

definition pow10 :: "int \<Rightarrow> rat" where
  "pow10 k = (if 0 \<le> k then 10 ^ nat k else 1 / 10 ^ nat (- k))"

definition cap :: "found \<Rightarrow> string \<Rightarrow> ustr" where
  "cap m k = (case m_group m k of Some g \<Rightarrow> g | None \<Rightarrow> [])"

definition parse_decimal :: "ustr \<Rightarrow> pyfloat option" where
  "parse_decimal text =
    (let s = filter (\<lambda>c. c \<noteq> 95) (strip text) in
     case re_search decimal_rx s of
       Some m \<Rightarrow>
         if m_start m = 0 \<and> m_end m = length s then
           (let frac = cap m ''frac'' @ cap m ''tail'';
                v = of_int (digits_value (cap m ''int'' @ frac)) * pow10 (signed_digits (cap m ''exp'') - int (length frac))
            in Some (Fin (if cap m ''sign'' = [45] then - v else v)))
         else None
     | None \<Rightarrow>
         (case re_search decimal_special_rx s of
            Some m \<Rightarrow> if m_start m = 0 \<and> m_end m = length s then Some NaN else None
          | None \<Rightarrow> None))"

text \<open>\<open>Decimal(str(value))\<close>; a float is taken at its exact value. Special values only have to be told from finite ones.\<close>

fun to_decimal :: "json \<Rightarrow> pyfloat option" where
  "to_decimal (JInt k) = Some (Fin (of_int k))"
| "to_decimal (JFloat x) = Some x"
| "to_decimal (JStr s) = parse_decimal s"
| "to_decimal _ = None"

definition max_stored_cost :: rat where
  "max_stored_cost = 999999999999999999 / 100000000"

text \<open>\<open>quantize\<close> to eight places, half to even; the result fits the context's 28 digits.\<close>

definition quantize :: "rat \<Rightarrow> rat" where
  "quantize x = of_int (round_half_even (x * 100000000)) / 100000000"

fun usable_cost :: "json \<Rightarrow> rat option" where
  "usable_cost j =
    (case to_decimal j of
       Some (Fin x) \<Rightarrow> if x < 0 \<or> max_stored_cost < x then None else Some (quantize x)
     | _ \<Rightarrow> None)"

fun first_cost :: "json list \<Rightarrow> rat option" where
  "first_cost [] = None"
| "first_cost (j # js) = (case usable_cost j of Some x \<Rightarrow> Some x | None \<Rightarrow> first_cost js)"

text \<open>The usage passed in is \<open>_extract_usage\<close>'s, which never has the key \<open>cost\<close>.\<close>

definition extract_cost :: "(ustr \<times> json) list \<Rightarrow> usage \<Rightarrow> rat option" where
  "extract_cost payload usage =
    first_cost (map (\<lambda>k. jget payload (asc k)) [''cost'', ''total_cost'']
      @ (case dget usage ''cost'' of Some n \<Rightarrow> [JInt n] | None \<Rightarrow> [JNull])
      @ concat (map (\<lambda>k. sub_get (jget payload (asc k)) [''cost'', ''total_cost'']) [''usage'', ''token_usage''])
      @ sub_get (jget payload (asc ''data'')) [''cost'', ''total_cost'']
      @ (case as_mapping (jget payload (asc ''data'')) of
           None \<Rightarrow> []
         | Some d \<Rightarrow> concat (map (\<lambda>k. sub_get (jget d (asc k)) [''cost'', ''total_cost'']) [''usage'', ''token_usage''])))"

section \<open>The direct adapter\<close>

text \<open>\<open>payload["choices"][0]["message"]["content"]\<close>; any failure is a \<open>KeyError\<close>, \<open>IndexError\<close> or \<open>TypeError\<close>.\<close>

fun item :: "json \<Rightarrow> ustr \<Rightarrow> exn + json" where
  "item (JObj d) k = (case dget d k of Some j \<Rightarrow> Inr j | None \<Rightarrow> Inl (KeyError ''key''))"
| "item _ k = Inl (OtherError ''TypeError'')"

fun nth_item :: "json \<Rightarrow> exn + json" where
  "nth_item (JList []) = Inl (OtherError ''IndexError'')"
| "nth_item (JList (j # js)) = Inr j"
| "nth_item (JStr []) = Inl (OtherError ''IndexError'')"
| "nth_item (JStr (c # cs)) = Inr (JStr [c])"
| "nth_item (JObj d) = Inl (KeyError ''0'')"
| "nth_item _ = Inl (OtherError ''TypeError'')"

definition choice_content :: "json \<Rightarrow> exn + json" where
  "choice_content payload =
    rbind (item payload (asc ''choices'')) (\<lambda>cs. rbind (nth_item cs) (\<lambda>c.
    rbind (item c (asc ''message'')) (\<lambda>m. item m (asc ''content''))))"

fun decode_object :: "(ustr \<Rightarrow> json option) \<Rightarrow> json \<Rightarrow> exn + (ustr \<times> json) list" where
  "decode_object loads (JStr s) =
    (case loads s of
       None \<Rightarrow> Inl (ValueError ''invalid JSON'')
     | Some (JObj d) \<Rightarrow> Inr d
     | Some _ \<Rightarrow> Inl (OtherError ''TypeError''))"
| "decode_object loads _ = Inl (OtherError ''TypeError'')"

fun text_json :: "json \<Rightarrow> ustr" where
  "text_json (JStr s) = s"
| "text_json _ = []"

fun mapping_of :: "json \<Rightarrow> (ustr \<times> json) list" where
  "mapping_of (JObj d) = d"
| "mapping_of _ = []"

text \<open>
  \<open>_structured\<close> for a result type with the acceptance function \<open>ok\<close>; \<open>fin\<close> stores usage, cost and
  the raw content. Everything raised after the exchange is of the classes the handler turns into
  \<open>ProviderResponseError\<close>.
\<close>

definition direct_structured :: "ustr \<Rightarrow> transport \<Rightarrow> (ustr \<Rightarrow> json option)
    \<Rightarrow> ((ustr \<times> json) list \<Rightarrow> exn + 'a) \<Rightarrow> (ustr \<Rightarrow> usage \<Rightarrow> rat option \<Rightarrow> 'a \<Rightarrow> 'a) \<Rightarrow> exn + 'a" where
  "direct_structured api_key reply loads ok fin =
    (if api_key = [] then Inl (ProviderUnavailableError ''direct_llm'' ''API key is not configured'')
     else case reply of
       Failed why \<Rightarrow> Inl (ProviderUnavailableError ''direct_llm'' why)
     | Crashed e \<Rightarrow> Inl e
     | Replied payload \<Rightarrow>
        (case rbind (choice_content payload) (\<lambda>content. rbind (decode_object loads content) (\<lambda>decoded.
           rbind (ok decoded) (\<lambda>r. let p = mapping_of payload; u = extract_usage p in
             Inr (fin (text_json content) u (extract_cost p u) r)))) of
           Inl e \<Rightarrow> Inl (ProviderResponseError ''direct_llm'' ''invalid response'')
         | Inr r \<Rightarrow> Inr r))"

definition require_direct_answer_fields :: "(ustr \<times> json) list \<Rightarrow> exn + unit" where
  "require_direct_answer_fields decoded =
    (if dget decoded (asc ''answer'') = None \<or> dget decoded (asc ''cited_chunk_ids'') = None
     then Inl (ValueError ''AnswerResult is missing required field(s)'') else Inr ())"

definition blank :: "ustr \<Rightarrow> bool" where
  "blank s \<longleftrightarrow> strip s = []"

definition validate_direct_answer :: "answer_result \<Rightarrow> hit list \<Rightarrow> exn + unit" where
  "validate_direct_answer r context =
    (if blank (ar_answer r) then Inl (ValueError ''AnswerResult answer must be non-empty'')
     else if ar_refusal r \<and> ar_cited r \<noteq> []
       then Inl (ValueError ''AnswerResult cited_chunk_ids must be empty for a refusal'')
     else if ar_refusal r \<and> (case ar_reason r of None \<Rightarrow> True | Some s \<Rightarrow> blank s)
       then Inl (ValueError ''AnswerResult refusal_reason must be non-empty for a refusal'')
     else if \<not> ar_refusal r \<and> ar_cited r = []
       then Inl (ValueError ''AnswerResult cited_chunk_ids must not be empty for an answer'')
     else if \<not> ar_refusal r \<and> ar_reason r \<noteq> None
       then Inl (ValueError ''AnswerResult refusal_reason must be null for an answer'')
     else if \<exists>c \<in> set (ar_cited r). c \<notin> set (map h_chunk context)
       then Inl (ValueError ''AnswerResult cited_chunk_ids must come from the retrieval context'')
     else Inr ())"

definition store_usage :: "ustr \<Rightarrow> usage \<Rightarrow> rat option \<Rightarrow> answer_result \<Rightarrow> answer_result" where
  "store_usage raw u c r = r\<lparr>ar_usage := u, ar_cost := c\<rparr>"

definition accept_answer :: "((ustr \<times> json) list \<Rightarrow> answer_result option) \<Rightarrow> hit list
    \<Rightarrow> (ustr \<times> json) list \<Rightarrow> exn + answer_result" where
  "accept_answer validate context decoded =
    rbind (require_direct_answer_fields decoded) (\<lambda>u.
      case validate decoded of
        None \<Rightarrow> Inl (ValueError ''ValidationError'')
      | Some r \<Rightarrow> rbind (validate_direct_answer r context) (\<lambda>u. Inr r))"

definition direct_generate_answer :: "ustr \<Rightarrow> (ustr \<Rightarrow> hit list \<Rightarrow> transport) \<Rightarrow> (ustr \<Rightarrow> json option)
    \<Rightarrow> ((ustr \<times> json) list \<Rightarrow> answer_result option) \<Rightarrow> ustr \<Rightarrow> hit list \<Rightarrow> exn + answer_result" where
  "direct_generate_answer api_key post loads validate query context =
    direct_structured api_key (post query context) loads (accept_answer validate context) store_usage"

section \<open>The Coze adapter\<close>

text \<open>\<open>x.get(k)\<close> on a decoded value: an \<open>AttributeError\<close> unless it is an object.\<close>

fun get_attr :: "json \<Rightarrow> string \<Rightarrow> exn + json" where
  "get_attr (JObj d) k = Inr (jget d (asc k))"
| "get_attr _ k = Inl (OtherError ''AttributeError'')"

definition is_text :: "json \<Rightarrow> string \<Rightarrow> bool" where
  "is_text j s \<longleftrightarrow> j = JStr (asc s)"

text \<open>The loop over \<open>reversed(messages)\<close>; \<open>str(content)\<close> of a text is the text (\<open>render\<close> stands for \<open>str\<close> of other values).\<close>

fun answer_message :: "(json \<Rightarrow> ustr) \<Rightarrow> json list \<Rightarrow> exn + ustr" where
  "answer_message render [] = Inl (ValueError ''answer message is missing'')"
| "answer_message render (m # ms) =
    rbind (get_attr m ''type'') (\<lambda>t. rbind (get_attr m ''role'') (\<lambda>r.
      if is_text t ''answer'' \<or> is_text r ''assistant''
      then rbind (item m (asc ''content'')) (\<lambda>c. Inr (case c of JStr s \<Rightarrow> s | _ \<Rightarrow> render c))
      else answer_message render ms))"

fun reversed_list :: "json \<Rightarrow> exn + json list" where
  "reversed_list (JList js) = Inr (rev js)"
| "reversed_list (JStr s) = Inr (rev (map (\<lambda>c. JStr [c]) s))"
| "reversed_list (JObj d) = Inr (rev (map (\<lambda>(k, v). JStr k) d))"
| "reversed_list _ = Inl (OtherError ''TypeError'')"

definition coze_content :: "(json \<Rightarrow> ustr) \<Rightarrow> json \<Rightarrow> exn + ustr" where
  "coze_content render payload =
    rbind (case payload of
        JObj d \<Rightarrow> Inr (dget_or d (asc ''data'') (JObj []))
      | _ \<Rightarrow> Inl (OtherError ''AttributeError'')) (\<lambda>data.
    rbind (get_attr data ''messages'') (\<lambda>m.
    rbind (if json_truthy m then Inr m else get_attr payload ''messages'') (\<lambda>m'.
    rbind (if json_truthy m' then reversed_list m' else Inr []) (answer_message render))))"

text \<open>\<open>except (KeyError, TypeError, ValidationError, ValueError)\<close>.\<close>

fun coze_caught :: "exn \<Rightarrow> bool" where
  "coze_caught (KeyError k) = True"
| "coze_caught (ValueError m) = True"
| "coze_caught (OtherError n) = (n = ''TypeError'')"
| "coze_caught _ = False"

definition coze_invoke :: "ustr \<Rightarrow> ustr \<Rightarrow> transport \<Rightarrow> (json \<Rightarrow> ustr) \<Rightarrow> (ustr \<Rightarrow> 'a option)
    \<Rightarrow> (ustr \<Rightarrow> usage \<Rightarrow> rat option \<Rightarrow> 'a \<Rightarrow> 'a) \<Rightarrow> exn + 'a" where
  "coze_invoke token bot_id reply render validate fin =
    (if token = [] \<or> bot_id = [] then Inl (ProviderUnavailableError ''coze'' ''API token and bot_id ID are required'')
     else case reply of
       Failed why \<Rightarrow> Inl (ProviderUnavailableError ''coze'' why)
     | Crashed e \<Rightarrow> Inl e
     | Replied payload \<Rightarrow>
        (case rbind (coze_content render payload) (\<lambda>content.
           case validate content of
             None \<Rightarrow> Inl (ValueError ''ValidationError'')
           | Some r \<Rightarrow> let p = mapping_of payload; u = extract_usage p in Inr (fin content u (extract_cost p u) r)) of
           Inl e \<Rightarrow> Inl (if coze_caught e then ProviderResponseError ''coze'' ''invalid response'' else e)
         | Inr r \<Rightarrow> Inr r))"

section \<open>Usage and cost are in range\<close>

lemma first_count_nonneg: "first_count d ks = Some n \<Longrightarrow> 0 \<le> n"
  by (induction d ks rule: first_count.induct) (auto split: json.splits if_splits)

lemma map_filter_mem: "y \<in> set (List.map_filter f xs) \<Longrightarrow> \<exists>x \<in> set xs. f x = Some y"
  by (auto simp: List.map_filter_def)

lemma counted_nonneg: "(k, n) \<in> set (counted d) \<Longrightarrow> 0 \<le> n"
  unfolding counted_def by (drule map_filter_mem) (auto dest: first_count_nonneg simp del: first_count.simps)

lemma update_nonneg:
  "(\<And>x y. (x, y) \<in> set d \<Longrightarrow> 0 \<le> y) \<Longrightarrow> 0 \<le> v \<Longrightarrow> (j, m) \<in> set (dset k v d) \<Longrightarrow> (0::int) \<le> m"
  by (induction d) (auto split: if_splits)

lemma with_total_nonneg:
  assumes d: "\<And>x y. (x, y) \<in> set d \<Longrightarrow> 0 \<le> y" and m: "(k, n) \<in> set (with_total d)"
  shows "0 \<le> n"
proof (cases "with_total d = d")
  case True
  then show ?thesis using d m by simp
next
  case False
  then obtain p c where "dget d ''prompt_tokens'' = Some p" "dget d ''completion_tokens'' = Some c"
    and w: "with_total d = dset ''total_tokens'' (p + c) d"
    by (auto simp: with_total_def split: if_splits option.splits)
  then have "0 \<le> p + c" using d by (meson add_nonneg_nonneg map_of_SomeD)
  with m [unfolded w] show ?thesis by (intro update_nonneg [of d "p + c" k n]) (use d in auto)
qed

lemma extract_usage_nonneg: "(k, n) \<in> set (extract_usage p) \<Longrightarrow> 0 \<le> n"
  unfolding extract_usage_def by (auto split: option.splits intro: with_total_nonneg counted_nonneg)

lemma quantize_mono: "x \<le> y \<Longrightarrow> quantize x \<le> quantize y"
  unfolding quantize_def by (intro divide_right_mono) (auto intro!: round_half_even_mono mult_right_mono)

lemma quantize_max: "quantize max_stored_cost = max_stored_cost"
  using round_half_even_int [of 999999999999999999] by (simp add: quantize_def max_stored_cost_def)

lemma quantize_0: "quantize 0 = 0"
  using round_half_even_int [of 0] by (simp add: quantize_def)

lemma usable_cost_bounds: "usable_cost j = Some x \<Longrightarrow> 0 \<le> x \<and> x \<le> max_stored_cost \<and> (\<exists>k::int. x = of_int k / 100000000)"
  using quantize_mono [of 0] quantize_mono [of _ max_stored_cost]
  by (auto simp: quantize_0 quantize_max not_less split: option.splits pyfloat.splits if_splits)
    (auto simp: quantize_def)

lemma first_cost_bounds: "first_cost js = Some x \<Longrightarrow> 0 \<le> x \<and> x \<le> max_stored_cost \<and> (\<exists>k::int. x = of_int k / 100000000)"
proof (induction js)
  case (Cons j js)
  then show ?case using usable_cost_bounds by (cases "usable_cost j") (simp_all del: usable_cost.simps)
qed simp

lemma extract_cost_bounds: "extract_cost p u = Some x \<Longrightarrow> 0 \<le> x \<and> x \<le> max_stored_cost \<and> (\<exists>k::int. x = of_int k / 100000000)"
  unfolding extract_cost_def by (rule first_cost_bounds)

section \<open>The contract of an answer provider\<close>

definition answer_ok :: "hit list \<Rightarrow> answer_result \<Rightarrow> bool" where
  "answer_ok context r \<longleftrightarrow>
    \<not> blank (ar_answer r)
    \<and> (if ar_refusal r then ar_cited r = [] \<and> (\<exists>s. ar_reason r = Some s \<and> \<not> blank s)
       else ar_cited r \<noteq> [] \<and> ar_reason r = None \<and> set (ar_cited r) \<subseteq> h_chunk ` set context)"

definition accounted :: "answer_result \<Rightarrow> bool" where
  "accounted r \<longleftrightarrow> (\<forall>(k, n) \<in> set (ar_usage r). 0 \<le> n)
    \<and> (\<forall>x. ar_cost r = Some x \<longrightarrow> 0 \<le> x \<and> x \<le> max_stored_cost \<and> (\<exists>k::int. x = of_int k / 100000000))"

lemma store_usage_simps [simp]:
  "ar_answer (store_usage w u c r) = ar_answer r" "ar_cited (store_usage w u c r) = ar_cited r"
  "ar_refusal (store_usage w u c r) = ar_refusal r" "ar_reason (store_usage w u c r) = ar_reason r"
  "ar_usage (store_usage w u c r) = u" "ar_cost (store_usage w u c r) = c"
  by (simp_all add: store_usage_def)

lemma validated_direct: "validate_direct_answer r context = Inr u \<longleftrightarrow> answer_ok context r"
  by (auto simp: validate_direct_answer_def answer_ok_def subset_iff split: if_splits option.splits)

lemma accept_answer_ok: "accept_answer validate context decoded = Inr r \<Longrightarrow> answer_ok context r"
  by (auto simp: accept_answer_def rbind_Inr validated_direct split: option.splits)

lemma direct_structured_Inr:
  assumes "direct_structured key reply loads ok fin = Inr r"
  obtains payload decoded r' raw where "reply = Replied payload" "ok decoded = Inr r'"
    "r = fin raw (extract_usage (mapping_of payload))
          (extract_cost (mapping_of payload) (extract_usage (mapping_of payload))) r'"
  using assms by (auto simp: direct_structured_def rbind_Inr Let_def split: if_splits transport.splits sum.splits)

lemma direct_answer_ok:
  assumes "direct_generate_answer key post loads validate q context = Inr r"
  shows "answer_ok context r \<and> accounted r"
proof -
  obtain payload decoded r' raw where ok: "accept_answer validate context decoded = Inr r'"
    and r: "r = store_usage raw (extract_usage (mapping_of payload))
      (extract_cost (mapping_of payload) (extract_usage (mapping_of payload))) r'"
    using assms unfolding direct_generate_answer_def by (rule direct_structured_Inr)
  have "answer_ok context r" using accept_answer_ok [OF ok] by (simp add: r answer_ok_def)
  moreover have "accounted r"
    using extract_usage_nonneg extract_cost_bounds by (auto simp: r accounted_def)
  ultimately show ?thesis by blast
qed

locale answer_provider =
  fixes generate :: "ustr \<Rightarrow> hit list \<Rightarrow> exn + answer_result"
  assumes provided: "generate q context = Inr r \<Longrightarrow> answer_ok context r \<and> accounted r"
begin

lemma cited_in_context: "generate q context = Inr r \<Longrightarrow> set (ar_cited r) \<subseteq> h_chunk ` set context"
  using provided [of q "context" r] by (auto simp: answer_ok_def split: if_splits)

lemma answer_cites: "generate q context = Inr r \<Longrightarrow> \<not> ar_refusal r \<Longrightarrow> ar_cited r \<noteq> []"
  using provided [of q "context" r] by (auto simp: answer_ok_def)

end

interpretation direct: answer_provider "direct_generate_answer key post loads validate"
  for key post loads validate
  by unfold_locales (rule direct_answer_ok)

section \<open>Properties\<close>

text \<open>
  C38. Whatever the model service replies, an answer the direct adapter returns is not blank; a
  refusal cites nothing and has a reason, any other answer cites at least one chunk, only chunks
  of the context it was given, and has no reason; token counts are not negative and a cost lies
  between zero and the largest the database stores, in units of its last digit. Without a key it
  raises before any exchange.
\<close>

theorem direct_answer_contract:
  "(\<forall>r. direct_generate_answer key post loads validate q context = Inr r \<longrightarrow> answer_ok context r \<and> accounted r)
    \<and> direct_generate_answer [] post loads validate q context
        = Inl (ProviderUnavailableError ''direct_llm'' ''API key is not configured'')"
  using direct.provided by (auto simp: direct_generate_answer_def direct_structured_def)

definition sample_context :: "hit list" where
  "sample_context = [\<lparr>h_chunk = asc ''c1'', h_document = asc ''d1'', h_content = asc ''grants'', h_title = [],
     h_url = [], h_score = 1, h_rank = 1, h_source = [], h_meta = []\<rparr>]"

definition sample_validate :: "(ustr \<times> json) list \<Rightarrow> answer_result option" where
  "sample_validate d = Some \<lparr>ar_answer = text_json (jget d (asc ''answer'')), ar_cited = [asc ''c1''],
     ar_refusal = False, ar_reason = None, ar_usage = [], ar_cost = None\<rparr>"

definition sample_payload :: json where
  "sample_payload = JObj [(asc ''choices'', JList [JObj [(asc ''message'', JObj [(asc ''content'', JStr (asc ''x''))])]]),
     (asc ''usage'', JObj [(asc ''input_tokens'', JInt 3), (asc ''output'', JInt 4), (asc ''cost'', JStr (asc '' 1.5e-3''))])]"

definition sample_loads :: "ustr \<Rightarrow> json option" where
  "sample_loads s = Some (JObj [(asc ''answer'', JStr (asc ''grants'')), (asc ''cited_chunk_ids'', JList [JStr (asc ''c1'')])])"

definition sample_answer :: answer_result where
  "sample_answer = \<lparr>ar_answer = asc ''grants'', ar_cited = [asc ''c1''], ar_refusal = False, ar_reason = None,
     ar_usage = [(''prompt_tokens'', 3), (''completion_tokens'', 4), (''total_tokens'', 7)], ar_cost = Some (15 / 10000)\<rparr>"

lemma direct_answer_contract_witness: "answer_ok sample_context sample_answer \<and> accounted sample_answer"
proof -
  have "direct_generate_answer (asc ''k'') (\<lambda>q c. Replied sample_payload) sample_loads sample_validate [] sample_context
      = Inr sample_answer" by code_simp
  then show ?thesis using direct_answer_contract by blast
qed

theorem coze_null_data:
  "coze_invoke (asc ''t'') (asc ''b'') (Replied (JObj [(asc ''data'', JNull)])) render validate fin
      = Inl (OtherError ''AttributeError'')
    \<and> coze_invoke (asc ''t'') (asc ''b'') (Replied (JObj [])) render validate fin
      = Inl (ProviderResponseError ''coze'' ''invalid response'')"
  by (simp add: coze_invoke_def coze_content_def dget_or_def jget_def asc_def)

end
