(* ===== verification/Chat.thy ===== *)
theory Chat
  imports EvidenceGate Grounding Engine Llm Versions
begin

text \<open>
  \<open>backend/app/services/chat.py\<close> with \<open>repositories/chat.py\<close>: one question from routing to the
  stored trace. The gate and the model are functions of the environment, so that this theory
  depends only on their contracts (\<open>sufficiency_gate\<close>, \<open>answer_provider\<close>). Durations and the
  metrics recorder, whose failures the code swallows, are left out; the trace identifier is drawn
  by the caller.
\<close>

section \<open>Counting documents\<close>

text \<open>
  \<open>int(value)\<close>: an integral part for numbers, a signed numeral with single underscores between
  digits for a text, a \<open>TypeError\<close> for anything else.
\<close>

fun py_int :: "pyval \<Rightarrow> exn + int" where
  "py_int (PInt k) = Inr k"
| "py_int (PBool b) = Inr (if b then 1 else 0)"
| "py_int (PFloat x r) = Inr (if 0 \<le> x then \<lfloor>x\<rfloor> else \<lceil>x\<rceil>)"
| "py_int (PStr s) =
    int_text s"
| "py_int _ = Inl (OtherError ''TypeError'')"

type_synonym condition = "document \<Rightarrow> bool"

definition same_text :: "string \<Rightarrow> pyval \<Rightarrow> exn + condition" where
  "same_text k v = Inr (\<lambda>d. attr d k = PStr (py_str v))"

definition date_condition :: "pyval \<Rightarrow> (date \<Rightarrow> date \<Rightarrow> bool) \<Rightarrow> exn + condition" where
  "date_condition v rel =
    (case fromisoformat (py_str v) of
       None \<Rightarrow> Inl (ValueError ''Invalid isoformat string'')
     | Some b \<Rightarrow> Inr (\<lambda>d. case attr d ''publish_date'' of PDate x \<Rightarrow> rel x b | _ \<Rightarrow> False))"

definition filter_condition :: "string \<times> pyval \<Rightarrow> exn + condition" where
  "filter_condition kv =
    (let k = fst kv; v = snd kv in
     if k = ''source_id'' then rbind (py_int v) (\<lambda>n. Inr (\<lambda>d. dm_source d = n))
     else if k \<in> set [''document_id'', ''region'', ''city'', ''document_type'', ''issuing_authority''] then same_text k v
     else if k = ''publish_date_gte'' then date_condition v (\<lambda>x b. b \<le> x)
     else if k = ''publish_date_lte'' then date_condition v (\<lambda>x b. x \<le> b)
     else if k = ''document_version'' then rbind (py_int v) (\<lambda>n. Inr (\<lambda>d. int (dm_version d) = n))
     else Inl (ValueError ''unsupported structured filter''))"

definition count_approved_documents :: "document list \<Rightarrow> pydict \<Rightarrow> exn + int" where
  "count_approved_documents docs filters =
    rbind (rmap filter_condition filters) (\<lambda>cs.
      Inr (int (count_if (\<lambda>d. dm_final d = ''approved'' \<and> (\<forall>c \<in> set cs. c d)) docs)))"

section \<open>Data\<close>

type_synonym usage_report = "(string, pyval) dict"

record chat_result =
  ca_trace_id :: ustr
  ca_type :: query_type
  ca_answer :: ustr
  ca_refusal :: bool
  ca_reasons :: "ustr list"
  ca_conflicts :: "ustr list"
  ca_outdated :: "ustr list"
  ca_citations :: "citation list"
  ca_filters :: pydict
  ca_count :: "int option"
  ca_retrieval :: "trace option"
  ca_usage :: usage_report
  ca_cost :: rat
  ca_evidence :: "sufficiency option"
  ca_validated :: "bool option"
  ca_validation :: "sufficiency option"
  ca_generated :: "ustr option"
  ca_cited :: "ustr list"
  ca_context :: "ustr list"

record chat_env =
  ch_engine :: engine
  ch_decide :: "ustr \<Rightarrow> hit list \<Rightarrow> sufficiency"
  ch_check :: "ustr \<Rightarrow> ustr \<Rightarrow> hit list \<Rightarrow> sufficiency"
  ch_grounding :: grounding_config
  ch_llm :: "(ustr \<Rightarrow> hit list \<Rightarrow> exn + answer_result) option"
  ch_model :: ustr
  ch_prompt :: ustr
  ch_version :: ustr

record grounded =
  ga_answer :: ustr
  ga_citations :: "citation list"
  ga_refusal :: bool
  ga_reasons :: "ustr list"
  ga_usage :: usage_report
  ga_cost :: rat
  ga_validated :: "bool option"
  ga_validation :: "sufficiency option"
  ga_generated :: "ustr option"
  ga_cited :: "ustr list"
  ga_context :: "ustr list"

section \<open>The parts of an answer\<close>

definition refusal_text :: "ustr list \<Rightarrow> ustr" where
  "refusal_text reasons =
    (let r = join (asc '', '') reasons in
     [26080, 27861, 22522, 20110, 24403, 21069, 24050, 39564, 35777, 35777, 25454, 21487, 38752, 22238, 31572, 12290, 21407, 22240, 65306]
     @ (if r \<noteq> [] then r else asc ''evidence_not_sufficient'') @ [12290])"

definition validate_evidence_decision :: "sufficiency \<Rightarrow> hit list \<Rightarrow> exn + unit" where
  "validate_evidence_decision d hits =
    (if \<not> (0 \<le> su_confidence d \<and> su_confidence d \<le> 1)
       then Inl (ProviderResponseError ''evidence_gate'' ''confidence is outside [0, 1]'')
     else if \<not> distinct (su_supported d)
       then Inl (ProviderResponseError ''evidence_gate'' ''supported chunk IDs are duplicated'')
     else if \<exists>c \<in> set (su_supported d). c \<notin> set (map h_chunk hits)
       then Inl (ProviderResponseError ''evidence_gate'' ''supported chunk ID is not a final hit'')
     else if su_sufficient d \<and> (su_supported d = [] \<or> su_unsupported d \<noteq> [])
       then Inl (ProviderResponseError ''evidence_gate'' ''sufficient decision is inconsistent'')
     else if \<not> su_sufficient d \<and> su_supported d \<noteq> []
       then Inl (ProviderResponseError ''evidence_gate'' ''insufficient decision contains support'')
     else Inr ())"

definition not_available :: pyval where
  "not_available = PStr (asc ''not_available'')"

definition set_default :: "string \<Rightarrow> pyval \<Rightarrow> usage_report \<Rightarrow> usage_report" where
  "set_default k v d = (if dget d k = None then dset k v d else d)"

definition result_usage :: "answer_result \<Rightarrow> usage_report \<times> rat" where
  "result_usage r =
    (let u = map (\<lambda>(k, n). (k, PInt n)) (ar_usage r);
         u = (if u = [] then [(''measurement'', not_available)] else u)
     in case ar_cost r of
          None \<Rightarrow> (set_default ''cost_measurement'' not_available u, 0)
        | Some c \<Rightarrow> (set_default ''cost_measurement'' (PStr (asc ''provider_reported'')) u, c))"

definition answer_url_rx :: rx where
  "answer_url_rx = seqs [lit (asc ''http''), ropt (lit (asc ''s'')), lit (asc ''://''),
     rplus (Seq (NotAhead Space) (none_of (asc '')]}>'')))]"

definition extract_line :: "nat \<times> citation \<Rightarrow> ustr" where
  "extract_line nc = show_int (int (fst nc)) @ asc ''. '' @ ci_quote (snd nc) @ [65288, 26469, 28304, 65306, 12298] @ ci_title (snd nc) @ [12299, 65289]"

definition extractive_answer :: "evidence_decision \<Rightarrow> grounded" where
  "extractive_answer decision =
    (let selected = take 3 (ev_citations decision);
         extract = [26681, 25454, 26816, 32034, 21040, 30340, 23448, 26041, 25991, 20214, 65306] @ join [32] (map extract_line (enumerate 1 selected));
         ids = map ci_chunk selected
     in \<lparr>ga_answer = extract, ga_citations = selected, ga_refusal = False, ga_reasons = [],
         ga_usage = [(''measurement'', not_available), (''cost_measurement'', PStr (asc ''not_applicable''))],
         ga_cost = 0, ga_validated = Some True, ga_validation = None, ga_generated = Some extract,
         ga_cited = ids, ga_context = ids\<rparr>)"

text \<open>\<open>{citation.chunk_id: citation for ...}\<close>: the last citation of a chunk.\<close>

definition citation_by_chunk :: "evidence_decision \<Rightarrow> (ustr, citation) dict" where
  "citation_by_chunk decision = fold (\<lambda>c. dset (ci_chunk c) c) (ev_citations decision) []"

definition is_response_error :: "exn \<Rightarrow> bool" where
  "is_response_error e = (case e of ProviderResponseError p m \<Rightarrow> True | _ \<Rightarrow> False)"

definition model_answer :: "chat_env \<Rightarrow> ustr \<Rightarrow> hit list \<Rightarrow> (ustr, citation) dict \<Rightarrow> ustr list \<Rightarrow> answer_result \<Rightarrow> exn + grounded" where
  "model_answer env query finals by_chunk ctx r =
    (let cited = nub (ar_cited r);
         cites = map (\<lambda>c. the (dget by_chunk c)) cited;
         urls = re_findall answer_url_rx (ar_answer r);
         support = ch_check env query (ar_answer r) (filter (\<lambda>h. h_chunk h \<in> set cited) finals)
     in if ar_refusal r then
          Inr \<lparr>ga_answer = ar_answer r, ga_citations = [], ga_refusal = True,
            ga_reasons = [case ar_reason r of Some s \<Rightarrow> if s \<noteq> [] then s else asc ''model_refusal'' | None \<Rightarrow> asc ''model_refusal''],
            ga_usage = fst (result_usage r), ga_cost = snd (result_usage r), ga_validated = None, ga_validation = None,
            ga_generated = Some (ar_answer r), ga_cited = ar_cited r, ga_context = ctx\<rparr>
        else if cited = [] \<or> (\<exists>c \<in> set cited. dget by_chunk c = None)
          then Inl (ProviderResponseError ''grounded_answer'' ''citations are missing or invalid'')
        else if \<exists>u \<in> set urls. u \<notin> set (map ci_url cites)
          then Inl (ProviderResponseError ''grounded_answer'' ''answer contains an unknown URL'')
        else if \<not> su_sufficient support then
          Inr \<lparr>ga_answer = refusal_text [asc (su_reason support)], ga_citations = [], ga_refusal = True,
            ga_reasons = [asc (su_reason support)], ga_usage = fst (result_usage r), ga_cost = snd (result_usage r),
            ga_validated = Some False, ga_validation = Some support, ga_generated = Some (ar_answer r),
            ga_cited = cited, ga_context = ctx\<rparr>
        else
          Inr \<lparr>ga_answer = ar_answer r, ga_citations = cites, ga_refusal = False, ga_reasons = [],
            ga_usage = fst (result_usage r), ga_cost = snd (result_usage r), ga_validated = Some True,
            ga_validation = Some support, ga_generated = Some (ar_answer r), ga_cited = cited, ga_context = ctx\<rparr>)"

definition unmeasured :: usage_report where
  "unmeasured = [(''measurement'', not_available), (''cost_measurement'', not_available)]"

definition grounded_answer :: "chat_env \<Rightarrow> ustr \<Rightarrow> hit list \<Rightarrow> evidence_decision \<Rightarrow> exn + grounded" where
  "grounded_answer env query finals decision =
    (case ch_llm env of
       None \<Rightarrow> Inr (extractive_answer decision)
     | Some generate \<Rightarrow>
        (let by_chunk = citation_by_chunk decision;
             eligible = filter (\<lambda>h. dget by_chunk (h_chunk h) \<noteq> None) finals;
             ctx = map h_chunk eligible
         in case generate query eligible of
              Inl e \<Rightarrow>
                if is_response_error e then
                  Inr \<lparr>ga_answer = refusal_text [asc ''model_output_invalid''], ga_citations = [], ga_refusal = True,
                    ga_reasons = [asc ''model_output_invalid''], ga_usage = unmeasured, ga_cost = 0,
                    ga_validated = None, ga_validation = None, ga_generated = None, ga_cited = [], ga_context = ctx\<rparr>
                else Inl e
            | Inr r \<Rightarrow> model_answer env query finals by_chunk ctx r))"

section \<open>A question\<close>

definition refused :: "ustr list \<Rightarrow> grounded" where
  "refused reasons =
    \<lparr>ga_answer = refusal_text reasons, ga_citations = [], ga_refusal = True, ga_reasons = reasons,
     ga_usage = unmeasured, ga_cost = 0, ga_validated = None, ga_validation = None, ga_generated = None,
     ga_cited = [], ga_context = []\<rparr>"

definition clear_decision :: evidence_decision where
  "clear_decision = \<lparr>ev_sufficient = True, ev_reasons = [], ev_conflicts = [], ev_outdated = [], ev_citations = []\<rparr>"

definition evidence_answer :: "chat_env \<Rightarrow> ustr \<Rightarrow> hit list \<Rightarrow> exn + (sufficiency \<times> evidence_decision \<times> grounded)" where
  "evidence_answer env query finals =
    (let d = ch_decide env query finals in
     rbind (validate_evidence_decision d finals) (\<lambda>u.
       if \<not> su_sufficient d then Inr (d, clear_decision, refused [asc (su_reason d)])
       else let decision = ground_assess (ch_grounding env) query (filter (\<lambda>h. h_chunk h \<in> set (su_supported d)) finals) in
         if \<not> ev_sufficient decision then Inr (d, decision, refused (map asc (ev_reasons decision)))
         else rbind (grounded_answer env query finals decision) (\<lambda>g. Inr (d, decision, g))))"

definition composite_text :: "query_type \<Rightarrow> int option \<Rightarrow> grounded \<Rightarrow> ustr" where
  "composite_text ty n g =
    (if ty = COMPOSITE \<and> \<not> ga_refusal g
     then [22312, 31526, 21512, 31579, 36873, 26465, 20214, 30340, 32] @ show_int (the n) @ [32, 20221, 25991, 26723, 20013, 65292] @ ga_answer g
     else ga_answer g)"

definition structured_count :: "document list \<Rightarrow> route \<Rightarrow> exn + int option" where
  "structured_count docs r =
    (if rt_type r = RAG then Inr None
     else rbind (count_approved_documents docs (rt_filters r)) (\<lambda>n. Inr (Some n)))"

definition sql_result :: "ustr \<Rightarrow> route \<Rightarrow> int option \<Rightarrow> chat_result" where
  "sql_result tid r n =
    \<lparr>ca_trace_id = tid, ca_type = rt_type r,
     ca_answer = [25968, 25454, 24211, 20013, 31526, 21512, 26465, 20214, 19988, 24050, 23457, 26680, 36890, 36807, 30340, 25919, 31574, 25991, 26723, 20849, 32] @ show_int (the n) @ [32, 20221, 12290],
     ca_refusal = False, ca_reasons = [], ca_conflicts = [], ca_outdated = [], ca_citations = [],
     ca_filters = rt_filters r, ca_count = n, ca_retrieval = None, ca_usage = unmeasured, ca_cost = 0,
     ca_evidence = None, ca_validated = None, ca_validation = None, ca_generated = None, ca_cited = [],
     ca_context = []\<rparr>"

definition rag_result :: "ustr \<Rightarrow> route \<Rightarrow> int option \<Rightarrow> trace \<Rightarrow> sufficiency \<Rightarrow> evidence_decision \<Rightarrow> grounded \<Rightarrow> chat_result" where
  "rag_result tid r n t d decision g =
    \<lparr>ca_trace_id = tid, ca_type = rt_type r, ca_answer = composite_text (rt_type r) n g,
     ca_refusal = ga_refusal g, ca_reasons = ga_reasons g, ca_conflicts = ev_conflicts decision,
     ca_outdated = ev_outdated decision, ca_citations = ga_citations g, ca_filters = rt_filters r,
     ca_count = n, ca_retrieval = Some t, ca_usage = ga_usage g, ca_cost = ga_cost g, ca_evidence = Some d,
     ca_validated = ga_validated g, ca_validation = ga_validation g, ca_generated = ga_generated g,
     ca_cited = ga_cited g, ca_context = ga_context g\<rparr>"

definition chat_answer :: "chat_env \<Rightarrow> document list \<Rightarrow> ustr \<Rightarrow> ustr \<Rightarrow> pydict \<Rightarrow> retrieval_mode \<Rightarrow> int option
    \<Rightarrow> exn + chat_result" where
  "chat_answer env docs tid query explicit mode top_k =
    rbind (route_query query explicit) (\<lambda>r.
    rbind (structured_count docs r) (\<lambda>n.
    if rt_type r = SQL then Inr (sql_result tid r n)
    else
      rbind (snd (engine_search (ch_engine env) query mode (rt_filters r) top_k)) (\<lambda>t.
      rbind (evidence_answer env query (tr_final t)) (\<lambda>(d, decision, g).
      Inr (rag_result tid r n t d decision g)))))"

section \<open>The stored trace\<close>

record evidence_payload =
  ep_decision :: sufficiency
  ep_status :: string
  ep_candidates :: nat
  ep_supported :: nat
  ep_validated :: "bool option"
  ep_validation :: "sufficiency option"
  ep_reasons :: "ustr list"
  ep_context :: "ustr list"
  ep_generated :: "ustr option"
  ep_cited :: "ustr list"

record query_trace =
  qt_id :: int
  qt_created :: int
  qt_trace_id :: ustr
  qt_query :: ustr
  qt_type :: query_type
  qt_filters :: pydict
  qt_bm25 :: "hit list"
  qt_vector :: "hit list"
  qt_fusion :: "hit list"
  qt_rerank :: "hit list"
  qt_final :: "hit list"
  qt_meta :: "rerank_meta option"
  qt_version :: ustr
  qt_prompt :: "ustr \<times> string"
  qt_evidence :: "evidence_payload option"
  qt_model :: ustr
  qt_answer :: ustr
  qt_citations :: "citation list"
  qt_refusal :: bool
  qt_usage :: usage_report
  qt_cost :: rat

definition payload_of :: "chat_result \<Rightarrow> evidence_payload option" where
  "payload_of a = map_option (\<lambda>d.
    \<lparr>ep_decision = d, ep_status = (if su_sufficient d then ''passed'' else ''insufficient''),
     ep_candidates = (case ca_retrieval a of Some t \<Rightarrow> length (tr_final t) | None \<Rightarrow> 0),
     ep_supported = length (su_supported d), ep_validated = ca_validated a, ep_validation = ca_validation a,
     ep_reasons = ca_reasons a, ep_context = ca_context a, ep_generated = ca_generated a,
     ep_cited = ca_cited a\<rparr>) (ca_evidence a)"

definition hits_of :: "(trace \<Rightarrow> hit list) \<Rightarrow> chat_result \<Rightarrow> hit list" where
  "hits_of f a = (case ca_retrieval a of Some t \<Rightarrow> f t | None \<Rightarrow> [])"

definition trace_of :: "chat_env \<Rightarrow> int \<Rightarrow> int \<Rightarrow> ustr \<Rightarrow> chat_result \<Rightarrow> query_trace" where
  "trace_of env i now query a =
    \<lparr>qt_id = i, qt_created = now, qt_trace_id = ca_trace_id a, qt_query = query, qt_type = ca_type a,
     qt_filters = ca_filters a, qt_bm25 = hits_of tr_bm25 a, qt_vector = hits_of tr_vector a,
     qt_fusion = hits_of tr_fusion a, qt_rerank = hits_of tr_rerank a, qt_final = hits_of tr_final a,
     qt_meta = map_option tr_meta (ca_retrieval a), qt_version = ch_version env,
     qt_prompt = (ch_prompt env, if ch_llm env \<noteq> None then ''llm'' else ''extractive''),
     qt_evidence = payload_of a,
     qt_model = (if ch_llm env \<noteq> None then ch_model env else asc ''extractive-grounded-v1''),
     qt_answer = ca_answer a, qt_citations = ca_citations a, qt_refusal = ca_refusal a,
     qt_usage = ca_usage a, qt_cost = ca_cost a\<rparr>"

record chat_store =
  cs_docs :: "document list"
  cs_traces :: "query_trace list"
  cs_next :: int

definition ask :: "chat_env \<Rightarrow> chat_store \<Rightarrow> int \<Rightarrow> ustr \<Rightarrow> ustr \<Rightarrow> pydict \<Rightarrow> retrieval_mode \<Rightarrow> int option
    \<Rightarrow> chat_store \<times> (exn + chat_result)" where
  "ask env st now tid query explicit mode top_k =
    (case chat_answer env (cs_docs st) tid query explicit mode top_k of
       Inl e \<Rightarrow> (st, Inl e)
     | Inr a \<Rightarrow> (st\<lparr>cs_traces := cs_traces st @ [trace_of env (cs_next st) now query a], cs_next := cs_next st + 1\<rparr>, Inr a))"

definition get_trace :: "chat_store \<Rightarrow> ustr \<Rightarrow> query_trace option" where
  "get_trace st tid = find (\<lambda>t. qt_trace_id t = tid) (cs_traces st)"

definition list_traces :: "chat_store \<Rightarrow> nat \<Rightarrow> query_type option \<Rightarrow> bool option \<Rightarrow> query_trace list" where
  "list_traces st n ty refusal =
    take n (rev (sort_key (\<lambda>t. (qt_created t, qt_id t))
      (filter (\<lambda>t. (ty = None \<or> ty = Some (qt_type t)) \<and> (refusal = None \<or> refusal = Some (qt_refusal t)))
        (cs_traces st))))"

section \<open>Wiring\<close>

definition wired :: "chat_env \<Rightarrow> gate \<Rightarrow> ustr list \<Rightarrow> chat_env" where
  "wired env g ph = env\<lparr>ch_decide := assess g ph, ch_check := validate_answer g ph\<rparr>"

lemma wired_simps [simp]:
  "ch_decide (wired env g ph) = assess g ph" "ch_check (wired env g ph) = validate_answer g ph"
  "ch_llm (wired env g ph) = ch_llm env" "ch_grounding (wired env g ph) = ch_grounding env"
  "ch_engine (wired env g ph) = ch_engine env"
  by (simp_all add: wired_def)

section \<open>What the contracts give\<close>

lemma validate_decision: "validate_evidence_decision d hits = Inr u \<longleftrightarrow> decision_ok hits d"
  by (auto simp: validate_evidence_decision_def decision_ok_def subset_iff)

context sufficiency_gate
begin

lemma decision_passes: "validate_evidence_decision (decide q hits) hits = Inr ()"
  unfolding validate_decision by (rule decide_ok)

lemma evidence_answer_eq:
  "ch_decide env = decide \<Longrightarrow> evidence_answer env q finals =
    (if \<not> su_sufficient (decide q finals) then Inr (decide q finals, clear_decision, refused [asc (su_reason (decide q finals))])
     else let decision = ground_assess (ch_grounding env) q
                (filter (\<lambda>h. h_chunk h \<in> set (su_supported (decide q finals))) finals) in
       if \<not> ev_sufficient decision then Inr (decide q finals, decision, refused (map asc (ev_reasons decision)))
       else rbind (grounded_answer env q finals decision) (\<lambda>g. Inr (decide q finals, decision, g)))"
  by (simp add: evidence_answer_def Let_def decision_passes)

end

lemma citation_by_chunk_get:
  "dget (citation_by_chunk decision) k = Some c \<Longrightarrow> c \<in> set (ev_citations decision) \<and> ci_chunk c = k"
proof -
  have "c \<in> set cs \<and> ci_chunk c = k \<or> dget d k = Some c"
    if "dget (fold (\<lambda>c. dset (ci_chunk c) c) cs d) k = Some c" for cs d
    using that
  proof (induction cs arbitrary: d)
    case (Cons a cs)
    from Cons.IH [of "dset (ci_chunk a) a d"] Cons.prems show ?case by (auto simp: dget_dset split: if_splits)
  qed simp
  from this [of "ev_citations decision" "[]"] show "dget (citation_by_chunk decision) k = Some c \<Longrightarrow> ?thesis"
    by (simp add: citation_by_chunk_def)
qed

lemma model_answer_accepted:
  assumes "model_answer env q finals by_chunk ctx r = Inr g" "\<not> ga_refusal g"
  shows "ga_citations g = map (\<lambda>c. the (dget by_chunk c)) (nub (ar_cited r))" "ga_citations g \<noteq> []"
    "\<forall>c \<in> set (nub (ar_cited r)). dget by_chunk c \<noteq> None"
    "\<forall>u \<in> set (re_findall answer_url_rx (ar_answer r)). u \<in> ci_url ` set (ga_citations g)"
    "su_sufficient (ch_check env q (ar_answer r) (filter (\<lambda>h. h_chunk h \<in> set (ar_cited r)) finals))"
    "ga_answer g = ar_answer r"
  using assms by (auto simp: model_answer_def Let_def split: if_splits)

context answer_provider
begin

lemma model_answer_error:
  assumes "generate q (filter (\<lambda>h. dget by_chunk (h_chunk h) \<noteq> None) finals) = Inr r"
    and "model_answer env q finals by_chunk ctx r = Inl e"
  shows "e = ProviderResponseError ''grounded_answer'' ''answer contains an unknown URL''"
proof -
  have "\<not> (nub (ar_cited r) = [] \<or> (\<exists>c \<in> set (nub (ar_cited r)). dget by_chunk c = None))" if "\<not> ar_refusal r"
    using cited_in_context [OF assms(1)] answer_cites [OF assms(1) that] by auto
  then show ?thesis using assms(2) by (auto simp: model_answer_def Let_def split: if_splits)
qed

lemma grounded_answer_error:
  assumes "ch_llm env = Some generate" "grounded_answer env q finals decision = Inl e"
  shows "e = ProviderResponseError ''grounded_answer'' ''answer contains an unknown URL''
    \<or> (\<exists>ctx. generate q ctx = Inl e) \<and> \<not> is_response_error e"
  using assms model_answer_error [of q "citation_by_chunk decision" finals]
  by (auto simp: grounded_answer_def Let_def split: sum.splits if_splits)

end

section \<open>An answer that is no refusal\<close>

definition well_cited :: "chat_env \<Rightarrow> hit list \<Rightarrow> sufficiency \<Rightarrow> citation \<Rightarrow> bool" where
  "well_cited env finals d c \<longleftrightarrow> (\<exists>h \<in> set finals. c = cite (ch_grounding env) h \<and> h_chunk h \<in> set (su_supported d)
     \<and> gc_score (ch_grounding env) \<le> h_score h \<and> strip (h_content h) \<noteq> []
     \<and> (gc_official (ch_grounding env) \<longrightarrow> official h))"

lemma decision_well_cited:
  assumes "c \<in> set (ev_citations (ground_assess (ch_grounding env) q
      (filter (\<lambda>h. h_chunk h \<in> set (su_supported d)) finals)))"
  shows "well_cited env finals d c"
  using cited_hit [OF assms] unfolding well_cited_def by auto

definition model_checked :: "chat_env \<Rightarrow> ustr \<Rightarrow> hit list \<Rightarrow> grounded \<Rightarrow> bool" where
  "model_checked env q finals g \<longleftrightarrow>
    ga_citations g \<noteq> []
    \<and> (\<exists>cited. set (map ci_chunk (ga_citations g)) = set cited
         \<and> su_sufficient (ch_check env q (ga_answer g) (filter (\<lambda>h. h_chunk h \<in> set cited) finals)))
    \<and> set (re_findall answer_url_rx (ga_answer g)) \<subseteq> ci_url ` set (ga_citations g)"

lemma grounded_answer_accepted:
  assumes "grounded_answer env q finals decision = Inr g" "\<not> ga_refusal g"
  shows "set (ga_citations g) \<subseteq> set (ev_citations decision)"
    and "ch_llm env = None \<Longrightarrow> ga_citations g = take 3 (ev_citations decision)"
    and "ch_llm env \<noteq> None \<Longrightarrow> model_checked env q finals g"
proof -
  have "set (ga_citations g) \<subseteq> set (ev_citations decision) \<and> model_checked env q finals g" if "ch_llm env \<noteq> None"
  proof -
    from that assms obtain r where m: "model_answer env q finals (citation_by_chunk decision)
        (map h_chunk (filter (\<lambda>h. dget (citation_by_chunk decision) (h_chunk h) \<noteq> None) finals)) r = Inr g"
      by (auto simp: grounded_answer_def Let_def split: sum.splits if_splits)
    note a = model_answer_accepted [OF m assms(2)]
    have get: "\<exists>x. dget (citation_by_chunk decision) c = Some x" if "c \<in> set (ar_cited r)" for c using a(3) that by auto
    have sub: "set (ga_citations g) \<subseteq> set (ev_citations decision)"
      unfolding a(1) using get citation_by_chunk_get by fastforce
    have "map ci_chunk (ga_citations g) = nub (ar_cited r)"
      unfolding a(1) using get citation_by_chunk_get by (force intro: map_idI simp: comp_def)
    then have "set (map ci_chunk (ga_citations g)) = set (ar_cited r)" by simp
    then show ?thesis using a sub unfolding model_checked_def by (auto simp del: set_map)
  qed
  moreover have "ga_citations g = take 3 (ev_citations decision)" if "ch_llm env = None"
    using that assms by (auto simp: grounded_answer_def extractive_answer_def Let_def)
  ultimately show "set (ga_citations g) \<subseteq> set (ev_citations decision)"
    "ch_llm env = None \<Longrightarrow> ga_citations g = take 3 (ev_citations decision)"
    "ch_llm env \<noteq> None \<Longrightarrow> model_checked env q finals g"
    by (cases "ch_llm env"; auto dest: in_set_takeD)+
qed

lemma accepted_answer:
  assumes "evidence_answer (wired env g ph) q finals = Inr (d, decision, ga)" "\<not> ga_refusal ga"
  shows "d = assess g ph q finals" "su_sufficient d"
    "\<forall>c \<in> set (ga_citations ga). well_cited env finals d c"
    "ch_llm env = None \<Longrightarrow> 1 \<le> gc_hits (ch_grounding env) \<Longrightarrow> distinct (map h_chunk finals) \<Longrightarrow> ga_citations ga \<noteq> []"
    "ch_llm env \<noteq> None \<Longrightarrow> model_checked (wired env g ph) q finals ga"
proof -
  let ?d = "assess g ph q finals"
  let ?hits = "filter (\<lambda>h. h_chunk h \<in> set (su_supported ?d)) finals"
  let ?dec = "ground_assess (ch_grounding env) q ?hits"
  from assms have ok: "d = ?d" "su_sufficient ?d" "ev_sufficient ?dec"
    "grounded_answer (wired env g ph) q finals ?dec = Inr ga" "decision = ?dec"
    by (auto simp: lexical.evidence_answer_eq [of "wired env g ph" g ph] Let_def rbind_Inr refused_def split: if_splits)
  note a = grounded_answer_accepted [OF ok(4) assms(2)]
  show "d = ?d" "su_sufficient d" using ok by simp_all
  show "\<forall>c \<in> set (ga_citations ga). well_cited env finals d c"
    using a(1) decision_well_cited [of _ env q ?d finals] ok(1) by blast
  show "ch_llm env \<noteq> None \<Longrightarrow> model_checked (wired env g ph) q finals ga" using a(3) by simp
  assume l: "ch_llm env = None" "1 \<le> gc_hits (ch_grounding env)" "distinct (map h_chunk finals)"
  have "distinct (map h_chunk ?hits)" using l(3) by (simp add: distinct_map_filter)
  then show "ga_citations ga \<noteq> []" using citations_exist [OF ok(3) l(2)] a(2) l(1) by simp
qed

section \<open>Properties\<close>

lemma chat_answer_Inr:
  assumes "chat_answer env docs tid q explicit mode k = Inr a" "ca_type a \<noteq> SQL"
  obtains r n t d decision g where "evidence_answer env q (tr_final t) = Inr (d, decision, g)"
    "a = rag_result tid r n t d decision g"
  using assms by (auto simp: chat_answer_def rbind_Inr sql_result_def split: if_splits)

text \<open>
  C1. An answer over documents that is no refusal rests on a sufficient decision of the gate for
  the final hits; every citation is made from one of those hits, one the gate named, above the
  score limit, not blank and official where that is demanded. With a model, the answer has
  citations, the gate accepted its text against exactly the cited hits, and every URL in it is
  the URL of a citation. Without one, it still has a citation when the grounding demands a hit
  and the hits are distinct chunks.
\<close>

theorem chat_grounded:
  "chat_answer (wired env g ph) docs tid q explicit mode k = Inr a \<and> \<not> ca_refusal a \<and> ca_type a \<noteq> SQL \<longrightarrow>
    (\<exists>t ga. ca_retrieval a = Some t \<and> ca_evidence a = Some (assess g ph q (tr_final t))
      \<and> su_sufficient (assess g ph q (tr_final t))
      \<and> ca_answer a = composite_text (ca_type a) (ca_count a) ga \<and> ca_citations a = ga_citations ga
      \<and> (\<forall>c \<in> set (ca_citations a). well_cited env (tr_final t) (assess g ph q (tr_final t)) c)
      \<and> (ch_llm env \<noteq> None \<longrightarrow> model_checked (wired env g ph) q (tr_final t) ga)
      \<and> (ch_llm env = None \<and> 1 \<le> gc_hits (ch_grounding env) \<and> distinct (map h_chunk (tr_final t)) \<longrightarrow>
           ca_citations a \<noteq> []))"
proof
  assume a: "chat_answer (wired env g ph) docs tid q explicit mode k = Inr a \<and> \<not> ca_refusal a \<and> ca_type a \<noteq> SQL"
  then obtain r n t d decision ga where e: "evidence_answer (wired env g ph) q (tr_final t) = Inr (d, decision, ga)"
    "a = rag_result tid r n t d decision ga" by (elim conjE) (erule chat_answer_Inr)
  have "\<not> ga_refusal ga" using a e(2) by (simp add: rag_result_def)
  note f = accepted_answer [OF e(1) this]
  show "\<exists>t ga. ca_retrieval a = Some t \<and> ca_evidence a = Some (assess g ph q (tr_final t))
      \<and> su_sufficient (assess g ph q (tr_final t))
      \<and> ca_answer a = composite_text (ca_type a) (ca_count a) ga \<and> ca_citations a = ga_citations ga
      \<and> (\<forall>c \<in> set (ca_citations a). well_cited env (tr_final t) (assess g ph q (tr_final t)) c)
      \<and> (ch_llm env \<noteq> None \<longrightarrow> model_checked (wired env g ph) q (tr_final t) ga)
      \<and> (ch_llm env = None \<and> 1 \<le> gc_hits (ch_grounding env) \<and> distinct (map h_chunk (tr_final t)) \<longrightarrow>
           ca_citations a \<noteq> [])"
  proof (intro exI [of _ t] exI [of _ ga] conjI impI)
    show "ca_retrieval a = Some t" "ca_evidence a = Some (assess g ph q (tr_final t))"
      "ca_answer a = composite_text (ca_type a) (ca_count a) ga" "ca_citations a = ga_citations ga"
      unfolding e(2) rag_result_def by (simp_all add: f(1))
    show "su_sufficient (assess g ph q (tr_final t))" using f(1,2) by (simp only:)
    show "\<forall>c \<in> set (ca_citations a). well_cited env (tr_final t) (assess g ph q (tr_final t)) c"
      using f(3) unfolding e(2) rag_result_def by (simp add: f(1))
    show "model_checked (wired env g ph) q (tr_final t) ga" if "ch_llm env \<noteq> None" using that by (rule f(5))
    show "ca_citations a \<noteq> []" if "ch_llm env = None \<and> 1 \<le> gc_hits (ch_grounding env) \<and> distinct (map h_chunk (tr_final t))"
      using that f(4) unfolding e(2) rag_result_def by simp
  qed
qed

definition sample_env :: "(ustr \<Rightarrow> hit list \<Rightarrow> exn + answer_result) option \<Rightarrow> chat_env" where
  "sample_env llm = \<lparr>ch_engine =
       \<lparr>en_bm25 = (\<lambda>q k fs. Inr [Grounding.sample_hit]), en_embed = (\<lambda>q. Inr [1]), en_vector = (\<lambda>v k fs. Inr []),
        en_rerank = (\<lambda>q ds k. Inl (ValueError ''x'')), en_provider = ''none'', en_model = ''disabled'',
        en_config = \<lparr>rc_bm25 = 20, rc_vector = 20, rc_rrf = 60, rc_rerank = 8, rc_final = 5, rc_threshold = 0,
          rc_policy = Open\<rparr>\<rparr>,
     ch_decide = (\<lambda>q hs. gate_refuse 0 [] []), ch_check = (\<lambda>q a hs. gate_refuse 0 [] []),
     ch_grounding = sample_grounding, ch_llm = llm, ch_model = [], ch_prompt = [], ch_version = []\<rparr>"

definition sample_gate :: gate where
  "sample_gate = \<lparr>g_confidence = 45 / 100, g_contribution = 8 / 100, g_overlap = 2 / 10\<rparr>"

definition sample_llm :: "(ustr \<Rightarrow> hit list \<Rightarrow> exn + answer_result) option" where
  "sample_llm = Some (\<lambda>q hs. Inr sample_answer)"

definition sample_chat :: "(ustr \<Rightarrow> hit list \<Rightarrow> exn + answer_result) option \<Rightarrow> exn + chat_result" where
  "sample_chat llm = chat_answer (wired (sample_env llm) sample_gate question_phrases) [] (asc ''t'') (asc ''grants'') [] BM25Mode None"

lemma sample_chat_answers:
  assumes "llm = None \<or> llm = sample_llm"
  shows "\<exists>a. sample_chat llm = Inr a \<and> \<not> ca_refusal a \<and> ca_type a \<noteq> SQL"
proof -
  let ?env = "wired (sample_env llm) sample_gate question_phrases"
  have route: "route_query (asc ''grants'') []
      = Inr \<lparr>rt_type = RAG, rt_filters = [], rt_reason = ''content-oriented question''\<rparr>" by code_simp
  have "case snd (engine_search (ch_engine (sample_env None)) (asc ''grants'') BM25Mode [] None) of
      Inr t \<Rightarrow> tr_final t = [Grounding.sample_hit] | Inl e \<Rightarrow> False" by code_simp
  then obtain t where t: "snd (engine_search (ch_engine ?env) (asc ''grants'') BM25Mode [] None) = Inr t"
    "tr_final t = [Grounding.sample_hit]" by (auto simp: sample_env_def split: sum.splits)
  have "case evidence_answer (wired (sample_env None) sample_gate question_phrases) (asc ''grants'') [Grounding.sample_hit] of
      Inr (d, decision, g) \<Rightarrow> \<not> ga_refusal g | Inl e \<Rightarrow> False" by code_simp
  moreover have "case evidence_answer (wired (sample_env sample_llm) sample_gate question_phrases) (asc ''grants'')
      [Grounding.sample_hit] of Inr (d, decision, g) \<Rightarrow> \<not> ga_refusal g | Inl e \<Rightarrow> False" by code_simp
  ultimately have "case evidence_answer ?env (asc ''grants'') [Grounding.sample_hit] of
      Inr (d, decision, g) \<Rightarrow> \<not> ga_refusal g | Inl e \<Rightarrow> False" using assms by blast
  then obtain d decision g where "evidence_answer ?env (asc ''grants'') [Grounding.sample_hit] = Inr (d, decision, g)"
    "\<not> ga_refusal g" by (auto split: sum.splits)
  then show ?thesis
    unfolding sample_chat_def chat_answer_def route using t by (simp add: structured_count_def rag_result_def)
qed

lemma chat_grounded_witness: "ca_citations (projr (sample_chat sample_llm)) \<noteq> []"
proof -
  obtain a where a: "sample_chat sample_llm = Inr a" "\<not> ca_refusal a" "ca_type a \<noteq> SQL"
    using sample_chat_answers by blast
  have llm: "ch_llm (sample_env sample_llm) \<noteq> None" by (simp add: sample_env_def sample_llm_def)
  from chat_grounded [THEN mp, OF conjI [OF a(1) [unfolded sample_chat_def] conjI [OF a(2,3)]]]
  show ?thesis
  proof (elim exE conjE)
    fix t ga
    assume c: "ca_citations a = ga_citations ga" and m: "ch_llm (sample_env sample_llm) \<noteq> None \<longrightarrow>
      model_checked (wired (sample_env sample_llm) sample_gate question_phrases) (asc ''grants'') (tr_final t) ga"
    then have "ca_citations a \<noteq> []" using llm unfolding model_checked_def by simp
    then show ?thesis unfolding a(1) sum.sel .
  qed
qed

text \<open>
  C34. When the gate finds the final hits insufficient, or the grounding refuses the hits the
  gate named, the answer is the refusal with their reasons and no citation, whatever model is
  configured: its output cannot reach the user.
\<close>

theorem refused_before_model:
  "(\<not> su_sufficient (assess g ph q finals) \<longrightarrow>
      evidence_answer (wired (env\<lparr>ch_llm := llm\<rparr>) g ph) q finals
        = Inr (assess g ph q finals, clear_decision, refused [asc (su_reason (assess g ph q finals))]))
    \<and> (su_sufficient (assess g ph q finals)
        \<and> d = ground_assess (ch_grounding env) q (filter (\<lambda>h. h_chunk h \<in> set (su_supported (assess g ph q finals))) finals)
        \<and> \<not> ev_sufficient d \<longrightarrow>
      evidence_answer (wired (env\<lparr>ch_llm := llm\<rparr>) g ph) q finals
        = Inr (assess g ph q finals, d, refused (map asc (ev_reasons d))))"
  by (auto simp: lexical.evidence_answer_eq [of _ g ph] Let_def)

lemma refused_before_model_witness:
  "evidence_answer (wired ((sample_env None)\<lparr>ch_llm := sample_llm\<rparr>) sample_gate question_phrases) (asc ''loans'') [Grounding.sample_hit]
    = Inr (assess sample_gate question_phrases (asc ''loans'') [Grounding.sample_hit], clear_decision,
        refused [asc (su_reason (assess sample_gate question_phrases (asc ''loans'') [Grounding.sample_hit]))])"
proof -
  have "\<not> su_sufficient (assess sample_gate question_phrases (asc ''loans'') [Grounding.sample_hit])" by code_simp
  then show ?thesis
    using refused_before_model [where g = sample_gate and ph = question_phrases and q = "asc ''loans''"
        and finals = "[Grounding.sample_hit]" and env = "sample_env None" and llm = sample_llm] by blast
qed

text \<open>
  C35. With the gate of the program and the direct adapter, the only exceptions after retrieval
  are the one for an answer with a URL that no citation has and those the adapter itself raises
  other than for an invalid response: the checks on the gate's decision and on missing or
  foreign citations never fail, and an invalid response of the model becomes a refusal.
\<close>

theorem post_retrieval_errors:
  assumes "evidence_answer (wired (env\<lparr>ch_llm := Some (direct_generate_answer key post loads validate)\<rparr>) g ph) q finals = Inl e"
  shows "e = ProviderResponseError ''grounded_answer'' ''answer contains an unknown URL''
    \<or> (\<exists>ctx. direct_generate_answer key post loads validate q ctx = Inl e) \<and> \<not> is_response_error e"
  using assms direct.grounded_answer_error
    [of "wired (env\<lparr>ch_llm := Some (direct_generate_answer key post loads validate)\<rparr>) g ph" key post loads validate q finals]
  by (auto simp: lexical.evidence_answer_eq [of _ g ph] Let_def rbind_Inl split: if_splits)

lemma post_retrieval_errors_witness:
  "\<exists>ctx. direct_generate_answer [] (\<lambda>q c. Failed []) (\<lambda>s. None) (\<lambda>d. None) (asc ''grants'') ctx
    = Inl (ProviderUnavailableError ''direct_llm'' ''API key is not configured'')"
proof -
  have "evidence_answer (wired ((sample_env None)\<lparr>ch_llm :=
      Some (direct_generate_answer [] (\<lambda>q c. Failed []) (\<lambda>s. None) (\<lambda>d. None))\<rparr>) sample_gate question_phrases)
      (asc ''grants'') [Grounding.sample_hit] = Inl (ProviderUnavailableError ''direct_llm'' ''API key is not configured'')"
    by code_simp
  from post_retrieval_errors [OF this] show ?thesis by simp
qed

theorem trace_stored:
  "case ask env st now tid q explicit mode k of
     (st', Inl e) \<Rightarrow> st' = st
   | (st', Inr a) \<Rightarrow> cs_docs st' = cs_docs st
       \<and> (\<exists>t. cs_traces st' = cs_traces st @ [t] \<and> qt_query t = q \<and> qt_answer t = ca_answer a
            \<and> qt_citations t = ca_citations a \<and> qt_refusal t = ca_refusal a \<and> qt_trace_id t = tid
            \<and> qt_evidence t = payload_of a \<and> qt_final t = hits_of tr_final a
            \<and> (tid \<notin> qt_trace_id ` set (cs_traces st) \<longrightarrow> get_trace st' tid = Some t))"
proof -
  have new: "find (\<lambda>t. qt_trace_id t = tid) (ts @ [t]) = Some t"
    if "qt_trace_id t = tid" "tid \<notin> qt_trace_id ` set ts" for ts t
    using that by (induction ts) auto
  have tid: "ca_trace_id a = tid" if "chat_answer env (cs_docs st) tid q explicit mode k = Inr a" for a
    using that by (auto simp: chat_answer_def rbind_Inr sql_result_def rag_result_def split: if_splits)
  show ?thesis
    by (cases "chat_answer env (cs_docs st) tid q explicit mode k")
      (auto simp: ask_def trace_of_def get_trace_def tid intro!: new)
qed

definition empty_chat_store :: chat_store where
  "empty_chat_store = \<lparr>cs_docs = [], cs_traces = [], cs_next = 1\<rparr>"

lemma trace_stored_witness:
  "get_trace (fst (ask (wired (sample_env None) sample_gate question_phrases) empty_chat_store 0 (asc ''t'')
     (asc ''grants'') [] BM25Mode None)) (asc ''t'') \<noteq> None"
proof -
  let ?r = "ask (wired (sample_env None) sample_gate question_phrases) empty_chat_store 0 (asc ''t'')
     (asc ''grants'') [] BM25Mode None"
  obtain a where "chat_answer (wired (sample_env None) sample_gate question_phrases) []
      (asc ''t'') (asc ''grants'') [] BM25Mode None = Inr a"
    using sample_chat_answers [of None] unfolding sample_chat_def by blast
  then obtain st where r: "?r = (st, Inr a)" by (simp add: ask_def empty_chat_store_def)
  show ?thesis
    using trace_stored [where env = "wired (sample_env None) sample_gate question_phrases" and st = empty_chat_store
        and now = 0 and tid = "asc ''t''" and q = "asc ''grants''" and explicit = "[]" and mode = BM25Mode and k = None]
    unfolding r by (auto simp: empty_chat_store_def)
qed

end
