(* ===== verification/Embedding.thy ===== *)
theory Embedding
  imports PyJson Retrieval
begin

text \<open>
  \<open>backend/app/embedding/batcher.py\<close>, \<open>cached.py\<close>, the local provider of \<open>providers.py\<close> and the
  in-memory cache of \<open>cache/embedding.py\<close>. The cache and the provider are environments: the \<open>n\<close>th
  call of a run may raise or answer as the environment decides (a remote cache or model), so the
  results hold for every behaviour of them. The last part is the single flight of
  \<open>CachedQueryEmbeddingProvider\<close> as a step relation.
\<close>

section \<open>The local provider and the cache\<close>

type_synonym vec = "rat list"

definition mk_deterministic :: "int \<Rightarrow> exn + nat" where
  "mk_deterministic d = (if d < 4 then Inl (ValueError ''dimensions must be at least 4'') else Inr (nat d))"

definition deterministic_embed :: "(ustr \<Rightarrow> int list) \<Rightarrow> (rat \<Rightarrow> rat) \<Rightarrow> nat \<Rightarrow> ustr \<Rightarrow> vec" where
  "deterministic_embed digest fsqrt d t =
    (let seed = digest t;
         values = map (\<lambda>i. of_int (seed ! (i mod length seed)) / 255 * 2 - 1) [0..<d];
         r = fsqrt (\<Sum>x\<leftarrow>values. x * x); n = (if r = 0 then 1 else r)
     in map (\<lambda>x. x / n) values)"

type_synonym cache = "(ustr, vec) dict"

definition cache_get :: "ustr \<Rightarrow> cache \<Rightarrow> vec option" where
  "cache_get k c = dget c k"

definition cache_set :: "ustr \<Rightarrow> vec \<Rightarrow> cache \<Rightarrow> cache" where
  "cache_set k v c = dset k v c"

text \<open>What the code needs of a cache that does not raise.\<close>

locale vector_cache =
  fixes get :: "'k \<Rightarrow> 'c \<Rightarrow> 'v option" and set :: "'k \<Rightarrow> 'v \<Rightarrow> 'c \<Rightarrow> 'c"
  assumes get_set: "get k (set k' v c) = (if k = k' then Some v else get k c)"
begin

lemma get_fold_other: "k \<notin> fst ` List.set kvs \<Longrightarrow> get k (fold (\<lambda>(k, v). set k v) kvs c) = get k c"
  by (induction kvs arbitrary: c) (auto simp: get_set)

lemma get_fold_some:
  "k \<in> fst ` List.set kvs \<Longrightarrow> \<exists>v. (k, v) \<in> List.set kvs \<and> get k (fold (\<lambda>(k, v). set k v) kvs c) = Some v"
proof (induction kvs arbitrary: c)
  case (Cons kv kvs)
  obtain k' v' where kv: "kv = (k', v')" by (cases kv)
  show ?case
  proof (cases "k \<in> fst ` List.set kvs")
    case True
    from Cons.IH [OF this] kv show ?thesis by auto
  next
    case False
    then show ?thesis using Cons.prems get_fold_other [OF False] by (auto simp: kv get_set)
  qed
qed simp

end

interpretation memory_cache: vector_cache cache_get cache_set
  by unfold_locales (auto simp: cache_get_def cache_set_def dget_dset)

section \<open>The batcher\<close>

record emb_env =
  ee_get_fault :: "nat \<Rightarrow> exn option"
  ee_set_fault :: "nat \<Rightarrow> exn option"
  ee_provider :: "nat \<Rightarrow> ustr list \<Rightarrow> exn + vec list"

record emb_state =
  es_cache :: cache
  es_tick :: nat

record batcher =
  eb_size :: nat
  eb_cost :: rat
  eb_key :: "ustr \<Rightarrow> ustr"

record batch_result =
  br_vectors :: "vec list"
  br_hits :: nat
  br_embedded :: nat
  br_chars :: nat
  br_cost :: rat

definition mk_batcher :: "int \<Rightarrow> rat \<Rightarrow> (ustr \<Rightarrow> ustr) \<Rightarrow> exn + batcher" where
  "mk_batcher n cost key =
    (if n \<le> 0 then Inl (ValueError ''batch_size must be positive'')
     else Inr \<lparr>eb_size = nat n, eb_cost = cost, eb_key = key\<rparr>)"

definition batch_key :: "(ustr \<Rightarrow> ustr) \<Rightarrow> string \<Rightarrow> string \<Rightarrow> ustr \<Rightarrow> ustr \<Rightarrow> ustr" where
  "batch_key sha provider model version v =
    asc ''embedding:'' @ asc provider @ [58] @ asc model @ [58] @ version @ [58] @ sha v"

definition tick :: "emb_state \<Rightarrow> emb_state" where
  "tick s = s\<lparr>es_tick := es_tick s + 1\<rparr>"

definition do_get :: "emb_env \<Rightarrow> ustr \<Rightarrow> emb_state \<Rightarrow> emb_state \<times> (exn + vec option)" where
  "do_get env k s = (tick s, case ee_get_fault env (es_tick s) of Some e \<Rightarrow> Inl e | None \<Rightarrow> Inr (cache_get k (es_cache s)))"

definition do_set :: "emb_env \<Rightarrow> ustr \<Rightarrow> vec \<Rightarrow> emb_state \<Rightarrow> emb_state \<times> (exn + unit)" where
  "do_set env k v s = (case ee_set_fault env (es_tick s) of
     Some e \<Rightarrow> (tick s, Inl e)
   | None \<Rightarrow> ((tick s)\<lparr>es_cache := cache_set k v (es_cache s)\<rparr>, Inr ()))"

fun retryable_error :: "exn \<Rightarrow> bool" where
  "retryable_error (ProviderUnavailableError p r) = True"
| "retryable_error (ProviderResponseError p r) = True"
| "retryable_error _ = False"

text \<open>\<open>AsyncRetrying\<close> with \<open>n\<close> attempts left; the last error is raised again.\<close>

fun embed_with_retry :: "emb_env \<Rightarrow> nat \<Rightarrow> ustr list \<Rightarrow> emb_state \<Rightarrow> emb_state \<times> (exn + vec list)" where
  "embed_with_retry env 0 texts s = (s, Inl (OtherError ''RuntimeError''))"
| "embed_with_retry env (Suc n) texts s =
    (case ee_provider env (es_tick s) texts of
       Inr vs \<Rightarrow> (tick s, Inr vs)
     | Inl e \<Rightarrow> if retryable_error e \<and> 0 < n then embed_with_retry env n texts (tick s) else (tick s, Inl e))"

text \<open>The lookups: the vectors found, and the missing positions with key and text.\<close>

type_synonym missing = "nat \<times> ustr \<times> ustr"

fun lookup_all :: "emb_env \<Rightarrow> (ustr \<Rightarrow> ustr) \<Rightarrow> nat \<Rightarrow> ustr list \<Rightarrow> emb_state
    \<Rightarrow> emb_state \<times> (exn + vec option list \<times> missing list)" where
  "lookup_all env key i [] s = (s, Inr ([], []))"
| "lookup_all env key i (t # ts) s =
    (case do_get env (key t) s of
       (s1, Inl e) \<Rightarrow> (s1, Inl e)
     | (s1, Inr found) \<Rightarrow>
        (case lookup_all env key (Suc i) ts s1 of
           (s2, Inl e) \<Rightarrow> (s2, Inl e)
         | (s2, Inr (vs, ms)) \<Rightarrow> (s2, Inr (found # vs, if found = None then (i, key t, t) # ms else ms))))"

fun store_batch :: "emb_env \<Rightarrow> (missing \<times> vec) list \<Rightarrow> vec option list \<times> nat \<Rightarrow> emb_state
    \<Rightarrow> emb_state \<times> (exn + vec option list \<times> nat)" where
  "store_batch env [] acc s = (s, Inr acc)"
| "store_batch env (((i, k, t), v) # rest) acc s =
    (case do_set env k v s of
       (s1, Inl e) \<Rightarrow> (s1, Inl e)
     | (s1, Inr u) \<Rightarrow> store_batch env rest ((fst acc)[i := Some v], snd acc + 1) s1)"

function embed_batches :: "emb_env \<Rightarrow> nat \<Rightarrow> missing list \<Rightarrow> vec option list \<times> nat \<Rightarrow> emb_state
    \<Rightarrow> emb_state \<times> (exn + vec option list \<times> nat)" where
  "embed_batches env n ms acc s =
    (if ms = [] \<or> n = 0 then (s, Inr acc)
     else case embed_with_retry env 3 (map (\<lambda>m. snd (snd m)) (take n ms)) s of
       (s1, Inl e) \<Rightarrow> (s1, Inl e)
     | (s1, Inr vs) \<Rightarrow>
        if length vs \<noteq> length (take n ms)
        then (s1, Inl (ProviderResponseError ''embedding'' ''provider returned an unexpected count''))
        else (case store_batch env (zip (take n ms) vs) acc s1 of
          (s2, Inl e) \<Rightarrow> (s2, Inl e)
        | (s2, Inr acc') \<Rightarrow> embed_batches env n (drop n ms) acc' s2))"
  by pat_completeness auto
termination
  by (relation "measure (\<lambda>(env, n, ms, acc, s). length ms)") auto

declare embed_batches.simps [simp del]

definition vec_or_empty :: "vec option \<Rightarrow> vec" where
  "vec_or_empty v = (case v of Some x \<Rightarrow> x | None \<Rightarrow> [])"

definition embed :: "emb_env \<Rightarrow> batcher \<Rightarrow> ustr list \<Rightarrow> emb_state \<Rightarrow> emb_state \<times> (exn + batch_result)" where
  "embed env b texts s =
    (case lookup_all env (eb_key b) 0 texts s of
       (s1, Inl e) \<Rightarrow> (s1, Inl e)
     | (s1, Inr (found, missing)) \<Rightarrow>
        (case embed_batches env (eb_size b) missing (found, 0) s1 of
           (s2, Inl e) \<Rightarrow> (s2, Inl e)
         | (s2, Inr (vectors, n)) \<Rightarrow>
            if None \<in> set vectors
            then (s2, Inl (ProviderResponseError ''embedding'' ''one or more vectors are missing''))
            else (let chars = sum_list (map (\<lambda>m. length (snd (snd m))) missing) in
              (s2, Inr \<lparr>br_vectors = map vec_or_empty vectors, br_hits = length texts - length missing, br_embedded = n,
                 br_chars = chars, br_cost = py_round 8 (of_nat chars / 1000 * eb_cost b)\<rparr>))))"

section \<open>What a run of the batcher guarantees\<close>

lemma es_cache_tick [simp]: "es_cache (tick s) = es_cache s"
  by (simp add: tick_def)

lemma lookup_all_ok:
  "lookup_all env key i ts s = (s', Inr (vs, ms)) \<Longrightarrow>
    es_cache s' = es_cache s \<and> vs = map (\<lambda>t. cache_get (key t) (es_cache s)) ts
    \<and> ms = map (\<lambda>j. (i + j, key (ts ! j), ts ! j)) (filter (\<lambda>j. cache_get (key (ts ! j)) (es_cache s) = None) [0..<length ts])"
proof (induction env key i ts s arbitrary: s' vs ms rule: lookup_all.induct)
  case (1 env key i s)
  then show ?case by simp
next
  case (2 env key i t ts s)
  have up: "[0..<length (t # ts)] = 0 # map Suc [0..<length ts]" by (simp add: map_Suc_upt upt_conv_Cons del: upt_Suc)
  from "2.prems" obtain s1 found s2 vs' ms' where g: "do_get env (key t) s = (s1, Inr found)"
    and l: "lookup_all env key (Suc i) ts s1 = (s2, Inr (vs', ms'))"
    and r: "s' = s2" "vs = found # vs'" "ms = (if found = None then (i, key t, t) # ms' else ms')"
    by (auto split: prod.splits sum.splits)
  from g have f: "found = cache_get (key t) (es_cache s)" "es_cache s1 = es_cache s"
    by (auto simp: do_get_def split: option.splits)
  from "2.IH" [OF g [symmetric] refl l] show ?case
    unfolding r f up by (simp add: f filter_map comp_def)
qed

lemma do_set_ok: "do_set env k v s = (s', Inr u) \<Longrightarrow> es_cache s' = cache_set k v (es_cache s)"
  by (auto simp: do_set_def split: option.splits)

lemma store_batch_ok:
  "store_batch env ps acc s = (s', Inr acc') \<Longrightarrow>
    snd acc' = snd acc + length ps
    \<and> fst acc' = fold (\<lambda>(m, v) vs. vs[fst m := Some v]) ps (fst acc)
    \<and> es_cache s' = fold (\<lambda>(k, v). cache_set k v) (map (\<lambda>(m, v). (fst (snd m), v)) ps) (es_cache s)"
proof (induction env ps acc s arbitrary: s' acc' rule: store_batch.induct)
  case (2 env i k t v rest acc s)
  from "2.prems" obtain s1 where d: "do_set env k v s = (s1, Inr ())"
    and r: "store_batch env rest ((fst acc)[i := Some v], snd acc + 1) s1 = (s', Inr acc')"
    by (auto split: prod.splits sum.splits)
  from "2.IH" [OF d [symmetric] refl r] show ?case by (simp add: do_set_ok [OF d])
qed simp

text \<open>The vectors delivered for the missing texts, all batches together.\<close>

definition provides :: "emb_env \<Rightarrow> (ustr \<Rightarrow> vec) \<Rightarrow> bool" where
  "provides env f = (\<forall>n ts vs. ee_provider env n ts = Inr vs \<longrightarrow> vs = map f ts)"

lemma embed_with_retry_ok:
  "embed_with_retry env k ts s = (s', r) \<Longrightarrow>
    es_cache s' = es_cache s \<and> (\<forall>f vs. r = Inr vs \<longrightarrow> provides env f \<longrightarrow> vs = map f ts)"
  by (induction env k ts s arbitrary: s' rule: embed_with_retry.induct)
    (fastforce simp: provides_def split: sum.splits if_splits)+

lemma embed_batches_ok:
  "embed_batches env n ms acc s = (s', Inr acc') \<Longrightarrow> 0 < n \<Longrightarrow>
    \<exists>vs. length vs = length ms \<and> snd acc' = snd acc + length ms
    \<and> (\<forall>f. provides env f \<longrightarrow> vs = map (\<lambda>m. f (snd (snd m))) ms)
    \<and> fst acc' = fold (\<lambda>(m, v) vs. vs[fst m := Some v]) (zip ms vs) (fst acc)
    \<and> es_cache s' = fold (\<lambda>(k, v). cache_set k v) (zip (map (\<lambda>m. fst (snd m)) ms) vs) (es_cache s)"
proof (induction env n ms acc s arbitrary: s' acc' rule: embed_batches.induct)
  case (1 env n ms acc s)
  show ?case
  proof (cases "ms = []")
    case True
    then show ?thesis using "1.prems" by (auto simp: embed_batches.simps [of env n "[]" acc s])
  next
    case False
    with "1.prems" obtain s1 vs s2 acc1 where
      e: "embed_with_retry env 3 (map (\<lambda>m. snd (snd m)) (take n ms)) s = (s1, Inr vs)" and
      len: "length vs = length (take n ms)" and
      st: "store_batch env (zip (take n ms) vs) acc s1 = (s2, Inr acc1)" and
      rest: "embed_batches env n (drop n ms) acc1 s2 = (s', Inr acc')"
      by (subst (asm) embed_batches.simps) (auto split: prod.splits sum.splits if_splits)
    have cache: "es_cache s1 = es_cache s" and vs: "provides env f \<Longrightarrow> vs = map f (map (\<lambda>m. snd (snd m)) (take n ms))" for f
      using embed_with_retry_ok [OF e] by auto
    have nb: "\<not> (ms = [] \<or> n = 0)" using False "1.prems"(2) by simp
    obtain ws where w: "length ws = length (drop n ms)" "snd acc' = snd acc1 + length (drop n ms)"
      "\<And>f. provides env f \<Longrightarrow> ws = map (\<lambda>m. f (snd (snd m))) (drop n ms)"
      "fst acc' = fold (\<lambda>(m, v) vs. vs[fst m := Some v]) (zip (drop n ms) ws) (fst acc1)"
      "es_cache s' = fold (\<lambda>(k, v). cache_set k v) (zip (map (\<lambda>m. fst (snd m)) (drop n ms)) ws) (es_cache s2)"
      using "1.IH" [OF nb e [symmetric] refl _ st [symmetric] refl rest "1.prems"(2)] len by auto
    note b = store_batch_ok [OF st]
    have z: "zip ms (vs @ ws) = zip (take n ms) vs @ zip (drop n ms) ws"
      using len by (subst append_take_drop_id [of n ms, symmetric]) (simp only: zip_append)
    have zk: "zip (map (\<lambda>m. fst (snd m)) ms) (vs @ ws)
        = map (\<lambda>(m, v). (fst (snd m), v)) (zip (take n ms) vs) @ zip (map (\<lambda>m. fst (snd m)) (drop n ms)) ws"
      using len by (subst append_take_drop_id [of n ms, symmetric])
        (simp only: map_append zip_append length_map zip_map1)
    have f: "vs @ ws = map (\<lambda>m. f (snd (snd m))) ms" if "provides env f" for f
      using vs [OF that] w(3) [OF that] by (simp add: comp_def flip: map_append)
    show ?thesis
      by (rule exI [of _ "vs @ ws"]) (use w b len cache f in \<open>simp add: z zk\<close>)
  qed
qed

lemma updates_length: "length (fold (\<lambda>(m, v) xs. xs[fst m := Some v]) (ps :: ((nat \<times> 'b) \<times> 'a) list) xs) = length xs"
  by (induction ps arbitrary: xs) (auto split: prod.splits)

lemma updates_other:
  "i \<notin> fst ` fst ` set (ps :: ((nat \<times> 'b) \<times> 'a) list) \<Longrightarrow>
    fold (\<lambda>(m, v) xs. xs[fst m := Some v]) ps xs ! i = xs ! i"
  by (induction ps arbitrary: xs) (auto split: prod.splits)

lemma updates_at:
  "distinct (map (\<lambda>p. fst (fst p)) (ps :: ((nat \<times> 'b) \<times> 'a) list)) \<Longrightarrow> ((i, b), v) \<in> set ps \<Longrightarrow> i < length xs \<Longrightarrow>
    fold (\<lambda>(m, v) xs. xs[fst m := Some v]) ps xs ! i = Some v"
proof (induction ps arbitrary: xs)
  case (Cons p ps)
  obtain j c w where p: "p = ((j, c), w)" by (cases p) auto
  show ?case
  proof (cases "((i, b), v) \<in> set ps")
    case True
    then show ?thesis using Cons.IH [of "xs[j := Some w]"] Cons.prems by (simp add: p)
  next
    case False
    then have "i = j" "v = w" using Cons.prems(2) by (auto simp: p)
    moreover have "i \<notin> fst ` fst ` set ps" using Cons.prems(1) \<open>i = j\<close> by (force simp: p)
    ultimately show ?thesis using updates_other [of i ps "xs[j := Some w]"] Cons.prems(3) by (simp add: p)
  qed
qed simp

text \<open>The positions a lookup leaves open are distinct and in range.\<close>

definition open_positions :: "(ustr \<Rightarrow> ustr) \<Rightarrow> cache \<Rightarrow> ustr list \<Rightarrow> nat list" where
  "open_positions key c ts = filter (\<lambda>j. cache_get (key (ts ! j)) c = None) [0..<length ts]"

text \<open>The vectors after the lookups and the batches, and the shape of every successful run.\<close>

lemma vectors_shape:
  assumes l: "lookup_all env key 0 texts s = (s1, Inr (found, ms))"
    and e: "embed_batches env k ms (found, 0) s1 = (s', Inr (vectors, n))" and size: "0 < k"
  obtains vs where "length vs = length (open_positions key (es_cache s) texts)"
    "vectors = map (\<lambda>j. case map_of (zip (open_positions key (es_cache s) texts) vs) j of
        Some v \<Rightarrow> Some v | None \<Rightarrow> cache_get (key (texts ! j)) (es_cache s)) [0..<length texts]"
    "\<And>f. provides env f \<Longrightarrow> vs = map (\<lambda>j. f (texts ! j)) (open_positions key (es_cache s) texts)"
    "es_cache s' = fold (\<lambda>(k, v). cache_set k v)
       (zip (map (\<lambda>j. key (texts ! j)) (open_positions key (es_cache s) texts)) vs) (es_cache s)"
    "length ms = length (open_positions key (es_cache s) texts)" "n = length (open_positions key (es_cache s) texts)"
proof -
  let ?js = "open_positions key (es_cache s) texts"
  note lo = lookup_all_ok [OF l]
  have ms: "ms = map (\<lambda>j. (j, key (texts ! j), texts ! j)) ?js" and found: "found = map (\<lambda>t. cache_get (key t) (es_cache s)) texts"
    and s1: "es_cache s1 = es_cache s" using lo by (auto simp: open_positions_def)
  from embed_batches_ok [OF e size] obtain vs where v: "length vs = length ms" "n = length ms"
    "\<And>f. provides env f \<Longrightarrow> vs = map (\<lambda>m. f (snd (snd m))) ms"
    "vectors = fold (\<lambda>(m, v) vs. vs[fst m := Some v]) (zip ms vs) found"
    "es_cache s' = fold (\<lambda>(k, v). cache_set k v) (zip (map (\<lambda>m. fst (snd m)) ms) vs) (es_cache s1)" by auto
  have js: "distinct ?js" by (auto simp: open_positions_def)
  have len: "length ?js = length vs" using v(1) by (simp add: ms)
  have pos: "map (\<lambda>p. fst (fst p)) (zip ms vs) = ?js"
  proof -
    have "map (\<lambda>p. fst (fst p)) (zip ms vs) = map fst (map fst (zip ms vs))" by simp
    also have "\<dots> = ?js" using v(1) by (simp only: map_fst_zip ms map_map comp_def fst_conv map_ident)
    finally show ?thesis .
  qed
  have "vectors = map (\<lambda>j. case map_of (zip ?js vs) j of Some v \<Rightarrow> Some v
      | None \<Rightarrow> cache_get (key (texts ! j)) (es_cache s)) [0..<length texts]" (is "_ = ?R")
  proof (rule nth_equalityI)
    show "length vectors = length ?R" by (simp add: v updates_length found)
  next
    fix i assume "i < length vectors"
    then have i: "i < length texts" by (simp add: v updates_length found)
    show "vectors ! i = ?R ! i"
    proof (cases "map_of (zip ?js vs) i")
      case None
      then have "i \<notin> set ?js" using len by (simp add: map_of_zip_is_None)
      moreover have "fst ` fst ` set (zip ms vs) = set (map (\<lambda>p. fst (fst p)) (zip ms vs))"
        by (simp add: image_image)
      ultimately have "i \<notin> fst ` fst ` set (zip ms vs)" unfolding pos by simp
      then show ?thesis using i None by (simp add: v(4) updates_other found)
    next
      case (Some w)
      then obtain k where k: "k < length vs" "?js ! k = i" "vs ! k = w"
        by (metis (no_types, lifting) len in_set_zip map_of_SomeD fst_conv snd_conv)
      then have "(ms ! k, w) \<in> set (zip ms vs)" using v(1) by (force simp: in_set_zip)
      moreover have "ms ! k = (i, key (texts ! i), texts ! i)" using k len by (simp add: ms)
      ultimately show ?thesis using updates_at [of "zip ms vs" i _ w found] js(1) pos i Some
        by (simp add: v(4) found)
    qed
  qed
  then show ?thesis by (intro that [of vs]) (use v s1 in \<open>simp_all add: ms comp_def\<close>)
qed

lemma embed_ok:
  assumes run: "embed env b texts s = (s', Inr r)" and size: "0 < eb_size b"
  obtains vs where "length vs = length (open_positions (eb_key b) (es_cache s) texts)"
    "br_vectors r = map (\<lambda>j. vec_or_empty (case map_of (zip (open_positions (eb_key b) (es_cache s) texts) vs) j of
        Some v \<Rightarrow> Some v | None \<Rightarrow> cache_get (eb_key b (texts ! j)) (es_cache s))) [0..<length texts]"
    "\<And>f. provides env f \<Longrightarrow> vs = map (\<lambda>j. f (texts ! j)) (open_positions (eb_key b) (es_cache s) texts)"
    "es_cache s' = fold (\<lambda>(k, v). cache_set k v)
       (zip (map (\<lambda>j. eb_key b (texts ! j)) (open_positions (eb_key b) (es_cache s) texts)) vs) (es_cache s)"
    "br_hits r = length texts - length (open_positions (eb_key b) (es_cache s) texts)"
    "br_embedded r = length (open_positions (eb_key b) (es_cache s) texts)"
proof -
  from run obtain s1 found ms vectors n where
    l: "lookup_all env (eb_key b) 0 texts s = (s1, Inr (found, ms))" and
    e: "embed_batches env (eb_size b) ms (found, 0) s1 = (s', Inr (vectors, n))" and
    r: "br_vectors r = map vec_or_empty vectors" "br_hits r = length texts - length ms" "br_embedded r = n"
    by (auto simp: embed_def Let_def split: prod.splits sum.splits if_splits)
  show ?thesis
  proof (rule vectors_shape [OF l e size], goal_cases)
    case (1 vs)
    show ?case by (rule that [of vs]) (use 1 r in \<open>simp_all add: comp_def\<close>)
  qed
qed

lemma map_upt_nth: "(\<And>j. j < length xs \<Longrightarrow> g j = h (xs ! j)) \<Longrightarrow> map g [0..<length xs] = map h xs"
  by (rule nth_equalityI) auto

definition cache_agrees :: "(ustr \<Rightarrow> ustr) \<Rightarrow> (ustr \<Rightarrow> vec) \<Rightarrow> cache \<Rightarrow> bool" where
  "cache_agrees key f c = (\<forall>t v. cache_get (key t) c = Some v \<longrightarrow> v = f t)"

lemma cache_agrees_updates:
  assumes "cache_agrees key f c" and keys: "\<And>t u. key t = key u \<Longrightarrow> f t = f u"
  shows "cache_agrees key f (fold (\<lambda>(k, v). cache_set k v) (zip (map key ts) (map f ts)) c)"
  using assms(1)
proof (induction ts arbitrary: c)
  case (Cons t ts)
  have "cache_agrees key f (cache_set (key t) (f t) c)"
    unfolding cache_agrees_def memory_cache.get_set
  proof (intro allI impI)
    fix u v assume "(if key u = key t then Some (f t) else cache_get (key u) c) = Some v"
    then show "v = f u" using Cons.prems keys [of u t] by (cases "key u = key t") (auto simp: cache_agrees_def)
  qed
  from Cons.IH [OF this] show ?case by simp
qed simp

text \<open>
  C26. Caching is transparent. Let the provider, whenever it answers, answer with the vector f t
  of each text; let the cache hold nothing else, and let two texts with one cache key have one
  vector. Then a successful run returns exactly the vectors f gives the texts, in their order,
  whatever the batch size, the errors retried and the texts repeated; the cache still holds
  nothing else and now holds every text; and each text is counted once, as a hit or as embedded.
\<close>

theorem cached_embedding_transparent:
  assumes run: "embed env b texts s = (s', Inr r)" and size: "0 < eb_size b"
    and provider: "\<forall>n ts vs. ee_provider env n ts = Inr vs \<longrightarrow> vs = map f ts"
    and cache: "\<forall>t v. cache_get (eb_key b t) (es_cache s) = Some v \<longrightarrow> v = f t"
    and keys: "\<forall>t u. eb_key b t = eb_key b u \<longrightarrow> f t = f u"
  shows "br_vectors r = map f texts
    \<and> (\<forall>t v. cache_get (eb_key b t) (es_cache s') = Some v \<longrightarrow> v = f t)
    \<and> (\<forall>t \<in> set texts. cache_get (eb_key b t) (es_cache s') = Some (f t))
    \<and> br_hits r + br_embedded r = length texts
    \<and> br_hits r = length (filter (\<lambda>t. cache_get (eb_key b t) (es_cache s) \<noteq> None) texts)"
proof -
  let ?js = "open_positions (eb_key b) (es_cache s) texts"
  let ?c' = "fold (\<lambda>(k, v). cache_set k v) (zip (map (\<lambda>j. eb_key b (texts ! j)) ?js) (map (\<lambda>j. f (texts ! j)) ?js)) (es_cache s)"
  have pr: "provides env f" using provider by (simp add: provides_def)
  obtain vs where
    v: "br_vectors r = map (\<lambda>j. vec_or_empty (case map_of (zip ?js vs) j of
        Some v \<Rightarrow> Some v | None \<Rightarrow> cache_get (eb_key b (texts ! j)) (es_cache s))) [0..<length texts]"
      "vs = map (\<lambda>j. f (texts ! j)) ?js" "es_cache s' = ?c'"
      "br_hits r = length texts - length ?js" "br_embedded r = length ?js"
  proof (rule embed_ok [OF run size])
    fix vs assume "length vs = length ?js"
      "br_vectors r = map (\<lambda>j. vec_or_empty (case map_of (zip ?js vs) j of
        Some v \<Rightarrow> Some v | None \<Rightarrow> cache_get (eb_key b (texts ! j)) (es_cache s))) [0..<length texts]"
      and f: "\<And>f. provides env f \<Longrightarrow> vs = map (\<lambda>j. f (texts ! j)) ?js"
      and "es_cache s' = fold (\<lambda>(k, v). cache_set k v) (zip (map (\<lambda>j. eb_key b (texts ! j)) ?js) vs) (es_cache s)"
      "br_hits r = length texts - length ?js" "br_embedded r = length ?js"
    then show thesis using that [of vs] f [OF pr] by simp
  qed
  have agrees: "cache_agrees (eb_key b) f (es_cache s)" using cache by (simp add: cache_agrees_def)
  have c': "cache_agrees (eb_key b) f ?c'"
    using cache_agrees_updates [OF agrees keys [rule_format], of "map ((!) texts) ?js"] by (simp add: comp_def)
  have vec: "vec_or_empty (case map_of (zip ?js vs) j of Some v \<Rightarrow> Some v
      | None \<Rightarrow> cache_get (eb_key b (texts ! j)) (es_cache s)) = f (texts ! j)" if j: "j < length texts" for j
  proof (cases "j \<in> set ?js")
    case True
    then have "map_of (zip ?js vs) j = Some (f (texts ! j))" by (simp add: v(2) map_of_zip_map)
    then show ?thesis by (simp add: vec_or_empty_def)
  next
    case False
    then have "map_of (zip ?js vs) j = None" by (simp add: v(2) map_of_zip_map)
    moreover obtain w where "cache_get (eb_key b (texts ! j)) (es_cache s) = Some w"
      using False j by (auto simp: open_positions_def)
    ultimately show ?thesis using cache by (simp add: vec_or_empty_def)
  qed
  have filled: "cache_get (eb_key b t) ?c' = Some (f t)" if t: "t \<in> set texts" for t
  proof -
    obtain j where j: "j < length texts" "texts ! j = t" using t unfolding in_set_conv_nth by blast
    have "cache_get (eb_key b t) ?c' \<noteq> None"
    proof (cases "eb_key b t \<in> fst ` set (zip (map (\<lambda>j. eb_key b (texts ! j)) ?js) (map (\<lambda>j. f (texts ! j)) ?js))")
      case True
      from memory_cache.get_fold_some [OF this, of "es_cache s"] show ?thesis by auto
    next
      case False
      then have "eb_key b t \<notin> (\<lambda>j. eb_key b (texts ! j)) ` set ?js" by (simp add: zip_map_map zip_same_conv_map image_image)
      then have "j \<notin> set ?js" using j by auto
      then show ?thesis using memory_cache.get_fold_other [OF False, of "es_cache s"] j by (auto simp: open_positions_def)
    qed
    then show ?thesis using c' by (auto simp: cache_agrees_def)
  qed
  have count: "length ?js + length (filter (\<lambda>t. cache_get (eb_key b t) (es_cache s) \<noteq> None) texts) = length texts"
  proof -
    have "length ?js = length (filter (\<lambda>t. cache_get (eb_key b t) (es_cache s) = None) texts)"
      unfolding open_positions_def by (subst (3) map_nth [of texts, symmetric]) (simp add: filter_map comp_def)
    then show ?thesis using sum_length_filter_compl [of "\<lambda>t. cache_get (eb_key b t) (es_cache s) = None" texts] by simp
  qed
  have "br_vectors r = map f texts"
    unfolding v(1) using vec by (rule map_upt_nth)
  moreover have "br_hits r + br_embedded r = length texts"
    "br_hits r = length (filter (\<lambda>t. cache_get (eb_key b t) (es_cache s) \<noteq> None) texts)"
    using count unfolding v(4,5) by linarith+
  ultimately show ?thesis using filled c' unfolding v(3) cache_agrees_def by blast
qed

lemma cached_embedding_transparent_witness:
  "let env = \<lparr>ee_get_fault = (\<lambda>n. None), ee_set_fault = (\<lambda>n. None),
         ee_provider = (\<lambda>n ts. if n = 3 then Inl (ProviderUnavailableError ''embedding'' ''busy'')
           else Inr (map (\<lambda>t. [of_nat (length t)]) ts))\<rparr>;
       s = \<lparr>es_cache = [(asc ''ab'', [2])], es_tick = 0\<rparr>;
       (s', r) = embed env \<lparr>eb_size = 1, eb_cost = 1, eb_key = (\<lambda>t. t)\<rparr> [asc ''a'', asc ''ab'', asc ''a''] s
   in \<exists>x. r = Inr x \<and> br_vectors x = [[1], [2], [1]] \<and> br_hits x = 1"
proof -
  let ?env = "\<lparr>ee_get_fault = (\<lambda>n. None), ee_set_fault = (\<lambda>n. None),
         ee_provider = (\<lambda>n ts. if n = 3 then Inl (ProviderUnavailableError ''embedding'' ''busy'')
           else Inr (map (\<lambda>t. [of_nat (length t)]) ts))\<rparr>"
  let ?s = "\<lparr>es_cache = [(asc ''ab'', [2])], es_tick = 0\<rparr>"
  let ?b = "\<lparr>eb_size = 1, eb_cost = 1, eb_key = (\<lambda>t. t)\<rparr>"
  obtain s' r where e: "embed ?env ?b [asc ''a'', asc ''ab'', asc ''a''] ?s = (s', r)" by (rule prod.exhaust)
  have "isl (snd (embed ?env ?b [asc ''a'', asc ''ab'', asc ''a''] ?s)) = False" by code_simp
  then have "\<not> isl r" unfolding e by simp
  then obtain x where r: "r = Inr x" by (cases r) auto
  note x = e [unfolded r]
  have size: "0 < eb_size ?b" by simp
  have provider: "\<forall>n ts vs. ee_provider ?env n ts = Inr vs \<longrightarrow> vs = map (\<lambda>t. [of_nat (length t)]) ts" by simp
  have cache: "\<forall>t v. cache_get (eb_key ?b t) (es_cache ?s) = Some v \<longrightarrow> v = [of_nat (length t)]"
    by (auto simp: cache_get_def asc_def)
  have keys: "\<forall>t u. eb_key ?b t = eb_key ?b u \<longrightarrow> [of_nat (length t) :: rat] = [of_nat (length u)]" by simp
  have "br_vectors x = map (\<lambda>t. [of_nat (length t)]) [asc ''a'', asc ''ab'', asc ''a'']
      \<and> br_hits x = length (filter (\<lambda>t. cache_get (eb_key ?b t) (es_cache ?s) \<noteq> None) [asc ''a'', asc ''ab'', asc ''a''])"
    using cached_embedding_transparent [OF x size provider cache keys] by simp
  moreover have "asc ''a'' \<noteq> asc ''ab''" by (simp add: asc_def)
  ultimately have "br_vectors x = [[1], [2], [1]] \<and> br_hits x = 1" by (simp add: cache_get_def)
  then show ?thesis unfolding Let_def x by simp
qed

section \<open>Runs that return\<close>

text \<open>The provider recovers: every call is answered at the latest by its third attempt, and the
  attempts before it fail with an error that is retried.\<close>

definition recovers :: "emb_env \<Rightarrow> (ustr \<Rightarrow> vec) \<Rightarrow> bool" where
  "recovers env f = (\<forall>n ts. \<exists>k < 3. ee_provider env (n + k) ts = Inr (map f ts)
     \<and> (\<forall>j < k. \<exists>e. ee_provider env (n + j) ts = Inl e \<and> retryable_error e))"

lemma embed_with_retry_recovers:
  assumes "k < m" "ee_provider env (es_tick s + k) ts = Inr vs"
    "\<forall>j < k. \<exists>e. ee_provider env (es_tick s + j) ts = Inl e \<and> retryable_error e"
  shows "\<exists>s'. embed_with_retry env m ts s = (s', Inr vs)"
  using assms
proof (induction k arbitrary: m s)
  case 0
  then show ?case by (cases m) auto
next
  case (Suc k)
  obtain m' where m: "m = Suc m'" "k < m'" using Suc.prems(1) by (cases m) auto
  obtain e where e: "ee_provider env (es_tick s) ts = Inl e" "retryable_error e" using Suc.prems(3) by force
  have "\<exists>s'. embed_with_retry env m' ts (tick s) = (s', Inr vs)"
    by (rule Suc.IH) (use m Suc.prems in \<open>auto simp: tick_def\<close>)
  then show ?case using e m by auto
qed

lemma lookup_all_returns:
  "\<forall>n. ee_get_fault env n = None \<Longrightarrow> \<exists>s' x. lookup_all env key i ts s = (s', Inr x)"
proof (induction ts arbitrary: i s)
  case (Cons t ts)
  have "do_get env (key t) s = (tick s, Inr (cache_get (key t) (es_cache s)))" using Cons.prems by (simp add: do_get_def)
  moreover obtain s' x where "lookup_all env key (Suc i) ts (tick s) = (s', Inr x)" using Cons.IH [OF Cons.prems] by blast
  ultimately show ?case by (cases x) simp
qed simp

lemma store_batch_returns:
  "\<forall>n. ee_set_fault env n = None \<Longrightarrow> \<exists>s' acc'. store_batch env ps acc s = (s', Inr acc')"
  by (induction env ps acc s rule: store_batch.induct) (auto simp: do_set_def)

lemma embed_batches_returns:
  assumes "\<forall>n. ee_set_fault env n = None" "recovers env f"
  shows "\<exists>s' acc'. embed_batches env n ms acc s = (s', Inr acc')"
proof (induction ms arbitrary: acc s rule: length_induct)
  case (1 ms)
  show ?case
  proof (cases "ms = [] \<or> n = 0")
    case True
    then show ?thesis by (subst embed_batches.simps) auto
  next
    case False
    let ?ts = "map (\<lambda>m. snd (snd m)) (take n ms)"
    obtain s1 where e: "embed_with_retry env 3 ?ts s = (s1, Inr (map f ?ts))"
      using assms(2) embed_with_retry_recovers [of _ 3 env s ?ts "map f ?ts"] unfolding recovers_def by metis
    obtain s2 acc' where st: "store_batch env (zip (take n ms) (map f ?ts)) acc s1 = (s2, Inr acc')"
      using store_batch_returns [OF assms(1)] by blast
    have "length (drop n ms) < length ms" using False by (cases ms) auto
    then obtain s3 acc'' where "embed_batches env n (drop n ms) acc' s2 = (s3, Inr acc'')" using 1 by blast
    then show ?thesis using False e st by (subst embed_batches.simps) simp
  qed
qed

text \<open>
  C36. The batcher returns. Without cache errors, and with a provider that answers each call at
  the latest on its third attempt after errors that are retried, the run returns a result, and
  its vectors are the ones the provider computes for the texts that were not cached and the
  cached ones for the others.
\<close>

theorem batcher_returns:
  assumes faults: "\<forall>n. ee_get_fault env n = None" "\<forall>n. ee_set_fault env n = None"
    and provider: "recovers env f" "\<forall>n ts vs. ee_provider env n ts = Inr vs \<longrightarrow> vs = map f ts" and size: "0 < eb_size b"
  shows "\<exists>s' r. embed env b texts s = (s', Inr r)
    \<and> br_vectors r = map (\<lambda>t. case cache_get (eb_key b t) (es_cache s) of Some v \<Rightarrow> v | None \<Rightarrow> f t) texts"
proof -
  let ?js = "open_positions (eb_key b) (es_cache s) texts"
  obtain s1 found ms where l: "lookup_all env (eb_key b) 0 texts s = (s1, Inr (found, ms))"
    using lookup_all_returns [OF faults(1)] by (metis prod.collapse)
  obtain s2 vectors n where e: "embed_batches env (eb_size b) ms (found, 0) s1 = (s2, Inr (vectors, n))"
    using embed_batches_returns [OF faults(2) provider(1)] by (metis prod.collapse)
  have filled: "None \<notin> set vectors"
  proof (rule vectors_shape [OF l e size])
    fix vs assume "length vs = length ?js" and v: "vectors = map (\<lambda>j. case map_of (zip ?js vs) j of
        Some v \<Rightarrow> Some v | None \<Rightarrow> cache_get (eb_key b (texts ! j)) (es_cache s)) [0..<length texts]"
    have "(case map_of (zip ?js vs) j of Some v \<Rightarrow> Some v | None \<Rightarrow> cache_get (eb_key b (texts ! j)) (es_cache s)) \<noteq> None"
      if "j < length texts" for j
    proof (cases "j \<in> set ?js")
      case True
      then have "map_of (zip ?js vs) j \<noteq> None" using \<open>length vs = length ?js\<close> by (simp add: map_of_zip_is_None)
      then show ?thesis by auto
    next
      case False
      then show ?thesis using that by (auto simp: open_positions_def split: option.splits)
    qed
    then show ?thesis unfolding v by force
  qed
  obtain r where r: "embed env b texts s = (s2, Inr r)"
    using l e filled by (simp add: embed_def Let_def)
  show ?thesis
  proof (rule embed_ok [OF r size])
    fix vs assume v: "length vs = length ?js"
      "br_vectors r = map (\<lambda>j. vec_or_empty (case map_of (zip ?js vs) j of
        Some v \<Rightarrow> Some v | None \<Rightarrow> cache_get (eb_key b (texts ! j)) (es_cache s))) [0..<length texts]"
      and f: "\<And>f. provides env f \<Longrightarrow> vs = map (\<lambda>j. f (texts ! j)) ?js"
    have vs: "vs = map (\<lambda>j. f (texts ! j)) ?js" by (rule f) (use provider(2) in \<open>simp add: provides_def\<close>)
    have "vec_or_empty (case map_of (zip ?js vs) j of Some v \<Rightarrow> Some v | None \<Rightarrow> cache_get (eb_key b (texts ! j)) (es_cache s))
        = (case cache_get (eb_key b (texts ! j)) (es_cache s) of Some v \<Rightarrow> v | None \<Rightarrow> f (texts ! j))" if "j < length texts" for j
      using that by (auto simp: vs map_of_zip_map vec_or_empty_def open_positions_def split: option.splits)
    then have "br_vectors r = map (\<lambda>t. case cache_get (eb_key b t) (es_cache s) of Some v \<Rightarrow> v | None \<Rightarrow> f t) texts"
      unfolding v(2) by (rule map_upt_nth)
    then show ?thesis using r by blast
  qed
qed

lemma batcher_returns_witness:
  "let env = \<lparr>ee_get_fault = (\<lambda>n. None), ee_set_fault = (\<lambda>n. None), ee_provider = (\<lambda>n ts. Inr (map (\<lambda>t. [1]) ts))\<rparr>
   in \<exists>s' r. embed env \<lparr>eb_size = 2, eb_cost = 1, eb_key = (\<lambda>t. t)\<rparr> [asc ''a'', asc ''b''] \<lparr>es_cache = [(asc ''b'', [7])], es_tick = 0\<rparr>
        = (s', Inr r) \<and> br_vectors r = [[1], [7]]"
proof -
  let ?env = "\<lparr>ee_get_fault = (\<lambda>n. None), ee_set_fault = (\<lambda>n. None), ee_provider = (\<lambda>n ts. Inr (map (\<lambda>t. [1]) ts))\<rparr>"
  let ?s = "\<lparr>es_cache = [(asc ''b'', [7])], es_tick = 0\<rparr>"
  let ?b = "\<lparr>eb_size = 2, eb_cost = 1, eb_key = (\<lambda>t. t)\<rparr>"
  have rec: "recovers ?env (\<lambda>t. [1])" by (auto simp: recovers_def intro!: exI [of _ "0 :: nat"])
  have g: "\<forall>n. ee_get_fault ?env n = None" and w: "\<forall>n. ee_set_fault ?env n = None"
    and p: "\<forall>n ts vs. ee_provider ?env n ts = Inr vs \<longrightarrow> vs = map (\<lambda>t. [1]) ts" and size: "0 < eb_size ?b" by simp_all
  obtain s' r where "embed ?env ?b [asc ''a'', asc ''b''] ?s = (s', Inr r)" and v: "br_vectors r
      = map (\<lambda>t. case cache_get (eb_key ?b t) (es_cache ?s) of Some v \<Rightarrow> v | None \<Rightarrow> [1]) [asc ''a'', asc ''b'']"
    using batcher_returns [OF g w rec p size, of "[asc ''a'', asc ''b'']" ?s] by blast
  moreover have "br_vectors r = [[1], [7]]" unfolding v by (simp add: cache_get_def asc_def)
  ultimately show ?thesis unfolding Let_def by blast
qed

section \<open>The cached query provider\<close>

definition valid_vector :: "int option \<Rightarrow> pyfloat list \<Rightarrow> bool" where
  "valid_vector expected v =
    (if v = [] \<or> \<not> list_all isfinite v then False
     else (case expected of None \<Rightarrow> True | Some d \<Rightarrow> d \<le> 0 \<or> int (length v) = d))"

text \<open>
  The load of one query: what the cache read gave (an error or a vector), the provider's answer and
  whether the write raised. It returns the answer, whether the provider was called, and the vector
  written to the cache, when one was.
\<close>

definition load_or_embed :: "int option \<Rightarrow> exn + pyfloat list option \<Rightarrow> exn + pyfloat list \<Rightarrow> exn option
    \<Rightarrow> (exn + pyfloat list) \<times> bool \<times> pyfloat list option" where
  "load_or_embed expected read answer fault =
    (let cached = (case read of Inl e \<Rightarrow> None | Inr c \<Rightarrow> c) in
     case (case cached of Some v \<Rightarrow> if valid_vector expected v then Some v else None | None \<Rightarrow> None) of
       Some v \<Rightarrow> (Inr v, False, None)
     | None \<Rightarrow>
       (case answer of
          Inl e \<Rightarrow> (Inl e, True, None)
        | Inr v \<Rightarrow> (Inr v, True, (if fault = None then Some v else None))))"

text \<open>
  The single flight. A task is a load of one key and its result once it has one; \<open>fl_inflight\<close> is
  \<open>_inflight\<close>, \<open>fl_cleanups\<close> the clean-ups scheduled by done-callbacks. Each step runs under
  \<open>_inflight_lock\<close> without an await inside, so it is atomic.
\<close>

record flight =
  fl_tasks :: "(ustr \<times> (exn + pyfloat list) option) list"
  fl_inflight :: "(ustr, nat) dict"
  fl_cleanups :: "(ustr \<times> nat) list"

definition no_flight :: flight where
  "no_flight = \<lparr>fl_tasks = [], fl_inflight = [], fl_cleanups = []\<rparr>"

definition flight_request :: "ustr \<Rightarrow> flight \<Rightarrow> flight \<times> nat" where
  "flight_request k s =
    (case dget (fl_inflight s) k of
       Some i \<Rightarrow> (s, i)
     | None \<Rightarrow> (s\<lparr>fl_tasks := fl_tasks s @ [(k, None)], fl_inflight := dset k (length (fl_tasks s)) (fl_inflight s)\<rparr>,
               length (fl_tasks s)))"

definition flight_finish :: "nat \<Rightarrow> exn + pyfloat list \<Rightarrow> flight \<Rightarrow> flight" where
  "flight_finish i r s =
    (let k = fst (fl_tasks s ! i)
     in s\<lparr>fl_tasks := (fl_tasks s)[i := (k, Some r)], fl_cleanups := fl_cleanups s @ [(k, i)]\<rparr>)"

definition flight_clear :: "ustr \<times> nat \<Rightarrow> flight \<Rightarrow> flight" where
  "flight_clear c s =
    s\<lparr>fl_cleanups := remove1 c (fl_cleanups s),
      fl_inflight := (if dget (fl_inflight s) (fst c) = Some (snd c) then AList.delete (fst c) (fl_inflight s)
                      else fl_inflight s)\<rparr>"

inductive flight_step :: "flight \<Rightarrow> flight \<Rightarrow> bool" where
  request: "flight_step s (fst (flight_request k s))"
| finish: "i < length (fl_tasks s) \<Longrightarrow> snd (fl_tasks s ! i) = None \<Longrightarrow> flight_step s (flight_finish i r s)"
| clear: "c \<in> set (fl_cleanups s) \<Longrightarrow> flight_step s (flight_clear c s)"

definition flight_reachable :: "flight \<Rightarrow> bool" where
  "flight_reachable = flight_step\<^sup>*\<^sup>* no_flight"

definition flight_inv :: "flight \<Rightarrow> bool" where
  "flight_inv s \<longleftrightarrow>
    (\<forall>i < length (fl_tasks s). snd (fl_tasks s ! i) = None \<longrightarrow> dget (fl_inflight s) (fst (fl_tasks s ! i)) = Some i)
    \<and> (\<forall>k i. dget (fl_inflight s) k = Some i \<longrightarrow> i < length (fl_tasks s) \<and> fst (fl_tasks s ! i) = k
          \<and> (snd (fl_tasks s ! i) \<noteq> None \<longrightarrow> (k, i) \<in> set (fl_cleanups s)))
    \<and> (\<forall>(k, i) \<in> set (fl_cleanups s). i < length (fl_tasks s) \<and> fst (fl_tasks s ! i) = k \<and> snd (fl_tasks s ! i) \<noteq> None)
    \<and> distinct (fl_cleanups s)"

lemma flight_inv_running:
  "flight_inv s \<Longrightarrow> i < length (fl_tasks s) \<Longrightarrow> snd (fl_tasks s ! i) = None \<Longrightarrow> dget (fl_inflight s) (fst (fl_tasks s ! i)) = Some i"
  by (simp add: flight_inv_def)

lemma flight_inv_registered:
  "flight_inv s \<Longrightarrow> dget (fl_inflight s) k = Some i \<Longrightarrow>
    i < length (fl_tasks s) \<and> fst (fl_tasks s ! i) = k \<and> (snd (fl_tasks s ! i) \<noteq> None \<longrightarrow> (k, i) \<in> set (fl_cleanups s))"
  unfolding flight_inv_def by blast

lemma flight_inv_cleanup:
  "flight_inv s \<Longrightarrow> (k, i) \<in> set (fl_cleanups s) \<Longrightarrow> i < length (fl_tasks s) \<and> fst (fl_tasks s ! i) = k \<and> snd (fl_tasks s ! i) \<noteq> None"
  unfolding flight_inv_def by blast

lemma flight_inv_distinct: "flight_inv s \<Longrightarrow> distinct (fl_cleanups s)"
  unfolding flight_inv_def by blast

lemma flight_inv_request: "flight_inv s \<Longrightarrow> flight_inv (fst (flight_request k s))"
proof (cases "dget (fl_inflight s) k")
  case None
  assume inv: "flight_inv s"
  let ?n = "length (fl_tasks s)"
  have a: "fst (fl_tasks s ! i) \<noteq> k" if "i < ?n" "snd (fl_tasks s ! i) = None" for i
    using inv that None by (auto simp: flight_inv_def)
  show ?thesis
    using inv a unfolding flight_inv_def flight_request_def None
    by (simp add: dget_dset nth_append less_Suc_eq) (fastforce split: if_splits)
qed (simp add: flight_request_def)

lemma flight_inv_finish:
  assumes inv: "flight_inv s" and i: "i < length (fl_tasks s)" "snd (fl_tasks s ! i) = None"
  shows "flight_inv (flight_finish i r s)"
proof -
  have fresh: "(k, i) \<notin> set (fl_cleanups s)" for k using inv i by (auto simp: flight_inv_def)
  show ?thesis
    using inv i fresh unfolding flight_inv_def flight_finish_def Let_def
    by (simp add: nth_list_update) fastforce
qed

lemma flight_inv_clear:
  assumes inv: "flight_inv s" and c: "c \<in> set (fl_cleanups s)"
  shows "flight_inv (flight_clear c s)"
proof -
  obtain k i where ci: "c = (k, i)" by (cases c)
  note fin = flight_inv_cleanup [OF inv c [unfolded ci]]
  obtain d where d: "d = (if dget (fl_inflight s) k = Some i then AList.delete k (fl_inflight s) else fl_inflight s)"
    by blast
  have s': "fl_tasks (flight_clear c s) = fl_tasks s" "fl_inflight (flight_clear c s) = d"
    "fl_cleanups (flight_clear c s) = remove1 (k, i) (fl_cleanups s)"
    by (simp_all add: flight_clear_def ci d)
  have run: "dget d (fst (fl_tasks s ! j)) = Some j" if j: "j < length (fl_tasks s)" "snd (fl_tasks s ! j) = None" for j
  proof -
    have "j \<noteq> i" using j fin by auto
    with flight_inv_running [OF inv j] show ?thesis by (auto simp: d delete_conv')
  qed
  have reg: "(l, j) \<in> set (remove1 (k, i) (fl_cleanups s))" if "dget d l = Some j" "snd (fl_tasks s ! j) \<noteq> None" for l j
  proof -
    have g: "dget (fl_inflight s) l = Some j" using that(1) by (auto simp: d delete_conv' split: if_splits)
    have "(l, j) \<noteq> (k, i)" using that(1) by (auto simp: d delete_conv' split: if_splits)
    moreover have "(l, j) \<in> set (fl_cleanups s)" using flight_inv_registered [OF inv g] that(2) by blast
    ultimately show ?thesis by (simp add: in_set_remove1)
  qed
  have reg': "j < length (fl_tasks s) \<and> fst (fl_tasks s ! j) = l" if "dget d l = Some j" for l j
    using that flight_inv_registered [OF inv, of l j] by (auto simp: d delete_conv' split: if_splits)
  show ?thesis
    unfolding flight_inv_def s'
  proof (intro conjI allI impI ballI)
    show "distinct (remove1 (k, i) (fl_cleanups s))" using flight_inv_distinct [OF inv] by (rule distinct_remove1)
  next
    fix x assume "x \<in> set (remove1 (k, i) (fl_cleanups s))"
    then have "x \<in> set (fl_cleanups s)" using set_remove1_subset by fastforce
    then show "case x of (k, i) \<Rightarrow> i < length (fl_tasks s) \<and> fst (fl_tasks s ! i) = k \<and> snd (fl_tasks s ! i) \<noteq> None"
      using flight_inv_cleanup [OF inv, of "fst x" "snd x"] by (simp add: split_beta)
  qed (use run reg reg' in blast)+
qed

lemma flight_reachable_inv: "flight_reachable s \<Longrightarrow> flight_inv s"
  unfolding flight_reachable_def
proof (induction rule: rtranclp_induct)
  case base
  then show ?case by (simp add: flight_inv_def no_flight_def)
next
  case (step s t)
  from step(2,3) show ?case
    by cases (auto simp: flight_inv_request flight_inv_finish flight_inv_clear)
qed

text \<open>
  C39. One load per key at a time. In every reachable state two running loads have different
  keys; a request for a key joins the running load of that key when there is one, and in any
  case a load of that very key; and once every clean-up has run, only running loads are
  registered, so a finished load (or its error) is never handed to a later request.
\<close>

theorem single_flight:
  assumes "flight_reachable s"
  shows "(\<forall>i j k. i < length (fl_tasks s) \<longrightarrow> j < length (fl_tasks s) \<longrightarrow>
        fl_tasks s ! i = (k, None) \<longrightarrow> fl_tasks s ! j = (k, None) \<longrightarrow> i = j)
    \<and> (\<forall>i k. i < length (fl_tasks s) \<longrightarrow> fl_tasks s ! i = (k, None) \<longrightarrow> flight_request k s = (s, i))
    \<and> (\<forall>k. fst (fl_tasks (fst (flight_request k s)) ! snd (flight_request k s)) = k)
    \<and> (fl_cleanups s = [] \<longrightarrow> (\<forall>k i. dget (fl_inflight s) k = Some i \<longrightarrow> snd (fl_tasks s ! i) = None))"
proof -
  note inv = flight_reachable_inv [OF assms]
  have joined: "flight_request k s = (s, i)" if "i < length (fl_tasks s)" "fl_tasks s ! i = (k, None)" for i k
    using flight_inv_running [OF inv that(1)] that(2) by (simp add: flight_request_def)
  have "fst (fl_tasks (fst (flight_request k s)) ! snd (flight_request k s)) = k" for k
    using flight_inv_registered [OF inv, of k] by (auto simp: flight_request_def split: option.splits)
  moreover have "i = j" if "i < length (fl_tasks s)" "j < length (fl_tasks s)"
      "fl_tasks s ! i = (k, None)" "fl_tasks s ! j = (k, None)" for i j k
    using joined [OF that(1,3)] joined [OF that(2,4)] by simp
  moreover have "snd (fl_tasks s ! i) = None" if "fl_cleanups s = []" "dget (fl_inflight s) k = Some i" for k i
    using flight_inv_registered [OF inv that(2)] that(1) by auto
  ultimately show ?thesis using joined by blast
qed

lemma single_flight_witness:
  "flight_request (asc ''q'') (fst (flight_request (asc ''q'') no_flight)) = (fst (flight_request (asc ''q'') no_flight), 0)"
proof -
  have "flight_reachable (fst (flight_request (asc ''q'') no_flight))"
    unfolding flight_reachable_def by (rule r_into_rtranclp) (rule flight_step.request)
  from single_flight [OF this] show ?thesis by (simp add: flight_request_def no_flight_def)
qed

theorem query_cache_never_fails:
  "(fst (load_or_embed d read answer fault) = Inl e
      \<longleftrightarrow> fst (snd (load_or_embed d read answer fault)) \<and> answer = Inl e)
    \<and> (fst (snd (load_or_embed d read answer fault)) = (\<nexists>v. read = Inr (Some v) \<and> valid_vector d v))
    \<and> fst (load_or_embed d read answer fault) = fst (load_or_embed d read answer None)"
  by (cases read; cases answer) (auto simp: load_or_embed_def Let_def split: option.splits if_splits)

end
