(* ===== verification/Effects.thy ===== *)
theory Effects
  imports PyValues
begin

text \<open>
  Programs that work on a state and may raise: a computation maps a state to the state it leaves
  and a result or an exception. The state is not undone by an exception. \<open>wp\<close> is the weakest
  precondition for a condition on results and one on exceptions.
\<close>

type_synonym ('s, 'a) eff = "'s \<Rightarrow> 's \<times> (exn + 'a)"

definition ereturn :: "'a \<Rightarrow> ('s, 'a) eff" where
  "ereturn a w = (w, Inr a)"

definition eraise :: "exn \<Rightarrow> ('s, 'a) eff" where
  "eraise e w = (w, Inl e)"

definition ebind :: "('s, 'a) eff \<Rightarrow> ('a \<Rightarrow> ('s, 'b) eff) \<Rightarrow> ('s, 'b) eff" where
  "ebind m f w = (case m w of (w', Inl e) \<Rightarrow> (w', Inl e) | (w', Inr a) \<Rightarrow> f a w')"

definition ecatch :: "('s, 'a) eff \<Rightarrow> (exn \<Rightarrow> ('s, 'a) eff) \<Rightarrow> ('s, 'a) eff" where
  "ecatch m h w = (case m w of (w', Inl e) \<Rightarrow> h e w' | (w', Inr a) \<Rightarrow> (w', Inr a))"

definition eswallow :: "('s, 'a) eff \<Rightarrow> ('s, unit) eff" where
  "eswallow m w = (fst (m w), Inr ())"

definition elocal :: "('s \<Rightarrow> 's) \<Rightarrow> ('s, unit) eff" where
  "elocal f w = (f w, Inr ())"

definition elift :: "exn + 'a \<Rightarrow> ('s, 'a) eff" where
  "elift r w = (w, r)"

definition wp :: "('s, 'a) eff \<Rightarrow> ('a \<Rightarrow> 's \<Rightarrow> bool) \<Rightarrow> (exn \<Rightarrow> 's \<Rightarrow> bool) \<Rightarrow> 's \<Rightarrow> bool" where
  "wp m Q E w = (case m w of (w', Inr a) \<Rightarrow> Q a w' | (w', Inl e) \<Rightarrow> E e w')"

lemma wp_Inr: "wp m Q E w \<Longrightarrow> m w = (w', Inr a) \<Longrightarrow> Q a w'"
  by (simp add: wp_def)

lemma wp_Inl: "wp m Q E w \<Longrightarrow> m w = (w', Inl e) \<Longrightarrow> E e w'"
  by (simp add: wp_def)

lemma wp_return [simp]: "wp (ereturn a) Q E w = Q a w"
  by (simp add: wp_def ereturn_def)

lemma wp_raise [simp]: "wp (eraise e) Q E w = E e w"
  by (simp add: wp_def eraise_def)

lemma wp_local [simp]: "wp (elocal f) Q E w = Q () (f w)"
  by (simp add: wp_def elocal_def)

lemma wp_lift [simp]: "wp (elift r) Q E w = (case r of Inr a \<Rightarrow> Q a w | Inl e \<Rightarrow> E e w)"
  by (simp add: wp_def elift_def split: sum.splits)

lemma wp_bind [simp]: "wp (ebind m f) Q E w = wp m (\<lambda>a. wp (f a) Q E) E w"
  by (auto simp: wp_def ebind_def split: prod.splits sum.splits)

lemma wp_catch [simp]: "wp (ecatch m h) Q E w = wp m Q (\<lambda>e. wp (h e) Q E) w"
  by (auto simp: wp_def ecatch_def split: prod.splits sum.splits)

lemma wp_swallow [simp]: "wp (eswallow m) Q E w = wp m (\<lambda>a. Q ()) (\<lambda>e. Q ()) w"
  by (auto simp: wp_def eswallow_def split: prod.splits sum.splits)

lemma wp_ext:
  "wp (ebind m f) Q E = wp m (\<lambda>a. wp (f a) Q E) E"
  "wp (elocal g) R E = (\<lambda>w. R () (g w))"
  "wp (ereturn a) Q' E = Q' a"
  by (rule ext, simp)+

lemma wp_mono:
  assumes "wp m Q E w" "\<And>a w'. Q a w' \<Longrightarrow> Q' a w'" "\<And>e w'. E e w' \<Longrightarrow> E' e w'"
  shows "wp m Q' E' w"
  using assms by (auto simp: wp_def split: prod.splits sum.splits)

lemma wp_True [simp]: "wp m (\<lambda>a w. True) (\<lambda>e w. True) w"
  by (auto simp: wp_def split: prod.splits sum.splits)

text \<open>The exception as a value.\<close>

definition etry :: "('s, 'a) eff \<Rightarrow> ('s, exn + 'a) eff" where
  "etry m w = (case m w of (w', r) \<Rightarrow> (w', Inr r))"

lemma wp_try [simp]: "wp (etry m) Q E w = wp m (\<lambda>a. Q (Inr a)) (\<lambda>e. Q (Inl e)) w"
  by (auto simp: wp_def etry_def split: prod.splits sum.splits)

section \<open>What a program costs\<close>

text \<open>
  \<open>c\<close> reads a quantity off the state, such as the length of a log; \<open>costs c k m\<close> says that \<open>m\<close> raises it
  by at most \<open>k\<close>, however it ends.
\<close>

definition costs :: "('s \<Rightarrow> nat) \<Rightarrow> nat \<Rightarrow> ('s, 'a) eff \<Rightarrow> bool" where
  "costs c k m \<longleftrightarrow> (\<forall>w. c (fst (m w)) \<le> c w + k)"

lemma costs_pure [simp]: "costs c k (ereturn a)" "costs c k (eraise e)" "costs c k (elift r)"
  by (simp_all add: costs_def ereturn_def eraise_def elift_def)

lemma costs_le: "costs c k m \<Longrightarrow> m w = (w', r) \<Longrightarrow> c w' \<le> c w + k"
  unfolding costs_def by (metis fst_conv)

lemma costs_mono: "costs c j m \<Longrightarrow> j \<le> k \<Longrightarrow> costs c k m"
  unfolding costs_def by (meson add_left_mono le_trans)

lemma costs_bind:
  assumes "costs c j m" "\<And>w w' a. m w = (w', Inr a) \<Longrightarrow> costs c k (f a)"
  shows "costs c (j + k) (ebind m f)"
  unfolding costs_def
proof
  fix w
  obtain w' r where m: "m w = (w', r)" by (cases "m w")
  note j = costs_le [OF assms(1) m]
  show "c (fst (ebind m f w)) \<le> c w + (j + k)"
  proof (cases r)
    case (Inr a)
    then have "c (fst (f a w')) \<le> c w' + k" using assms(2) m unfolding costs_def by blast
    then show ?thesis using j m Inr by (simp add: ebind_def)
  qed (use j m in \<open>simp add: ebind_def\<close>)
qed

lemma costs_bind_last: "costs c k m \<Longrightarrow> (\<And>a. costs c 0 (f a)) \<Longrightarrow> costs c k (ebind m f)"
  using costs_bind [of c k m 0 f] by simp

lemma costs_bind0: "costs c 0 m \<Longrightarrow> (\<And>w w' a. m w = (w', Inr a) \<Longrightarrow> costs c k (f a)) \<Longrightarrow> costs c k (ebind m f)"
  using costs_bind [of c 0 m k f] by simp

lemma costs_catch0: "costs c k m \<Longrightarrow> (\<And>e. costs c 0 (h e)) \<Longrightarrow> costs c k (ecatch m h)"
  unfolding costs_def ecatch_def
proof (intro allI, goal_cases)
  case (1 w)
  obtain w' r where m: "m w = (w', r)" by (cases "m w")
  have k: "c w' \<le> c w + k" using 1(1) m by (metis fst_conv)
  have "c (fst (h e w')) \<le> c w'" for e using 1(2) [of e] by simp
  then show ?case using m k by (cases r) (simp_all, meson le_trans)
qed

lemma costs_try: "costs c k m \<Longrightarrow> costs c k (etry m)"
  unfolding costs_def etry_def by (auto split: prod.split) (metis fst_conv)

lemma costs_local: "(\<And>w. c (g w) = c w) \<Longrightarrow> costs c 0 (elocal g)"
  by (simp add: costs_def elocal_def)

lemma costs_if [intro]: "(b \<Longrightarrow> costs c k m) \<Longrightarrow> (\<not> b \<Longrightarrow> costs c k m') \<Longrightarrow> costs c k (if b then m else m')"
  by simp

end
