(* ===== verification/Indexing.thy ===== *)
theory Indexing
  imports Chunking Versions Search Embedding Effects
begin

text \<open>
  \<open>backend/app/services/indexing.py\<close> with \<open>repositories/indexing.py\<close>: the publication of an
  approved document to two stores that share no transaction, the database and the vector store.
  The database is what has been committed (\<open>iw_saved\<close>) and what the open transaction sees
  (\<open>iw_work\<close>). Every statement, commit and call of the vector store may raise, as the environment
  decides at the tick of the call; a call of the vector store that raises may have been carried
  out all the same. A commit that raises has committed nothing. The handler's calls have faults of
  their own. \<open>uuid5\<close> and the rendering of its name are the parameter \<open>sv_point_id\<close>, a function
  of the fields that are rendered.
\<close>

section \<open>Rows\<close>

record ix_chunk =
  ic_row :: int
  ic_id :: ustr
  ic_document :: int
  ic_attachment :: "int option"
  ic_index :: nat
  ic_path :: "ustr option"
  ic_title :: "ustr option"
  ic_page :: "nat option"
  ic_content :: ustr
  ic_hash :: ustr
  ic_chars :: nat
  ic_tokens :: nat
  ic_model :: ustr
  ic_version :: ustr
  ic_status :: string

record ix_lineage =
  il_source :: int
  il_task :: "int option"
  il_document :: int
  il_version :: "int option"
  il_attachment :: "int option"
  il_chunk :: "int option"
  il_point :: "ustr option"

record ix_attachment =
  ia_id :: int
  ia_document :: int
  ia_name :: ustr
  ia_text :: "ustr option"
  ia_pages :: "int option"
  ia_status :: string

record ix_db =
  xd_docs :: doc_store
  xd_chunks :: "ix_chunk list"
  xd_lineage :: "ix_lineage list"
  xd_attachments :: "ix_attachment list"
  xd_next :: int

section \<open>The repository\<close>

definition get_document :: "int \<Rightarrow> ix_db \<Rightarrow> document option" where
  "get_document i x = dget (ds_docs (xd_docs x)) i"

definition list_document_chunks :: "int \<Rightarrow> ix_db \<Rightarrow> ix_chunk list" where
  "list_document_chunks i x = sort_key ic_index (filter (\<lambda>c. ic_document c = i) (xd_chunks x))"

definition list_indexable_attachments :: "int \<Rightarrow> ix_db \<Rightarrow> ix_attachment list" where
  "list_indexable_attachments i x =
    filter (\<lambda>a. ia_text a \<noteq> Some [])
      (sort_key ia_id (filter (\<lambda>a. ia_document a = i \<and> ia_status a \<in> {''completed'', ''parsed''} \<and> ia_text a \<noteq> None)
        (xd_attachments x)))"

definition latest_version_id :: "int \<Rightarrow> nat \<Rightarrow> ix_db \<Rightarrow> int option" where
  "latest_version_id i v x =
    map_option vr_id (find (\<lambda>r. vr_document r = i \<and> vr_version r = v) (ds_versions (xd_docs x)))"

text \<open>Lineage rows are kept in the order of their creation.\<close>

definition latest_crawl_task_id :: "int \<Rightarrow> ix_db \<Rightarrow> int option" where
  "latest_crawl_task_id i x =
    (case find (\<lambda>l. il_document l = i \<and> il_task l \<noteq> None) (rev (xd_lineage x)) of
       Some l \<Rightarrow> il_task l
     | None \<Rightarrow> None)"

definition ensure_document_version :: "(ustr \<Rightarrow> ustr) \<Rightarrow> document \<Rightarrow> ix_db \<Rightarrow> ix_db \<times> int" where
  "ensure_document_version sha d x =
    (case latest_version_id (dm_id d) (dm_version d) x of
       Some i \<Rightarrow> (x, i)
     | None \<Rightarrow> (x\<lparr>xd_docs := add_version sha [] d (xd_docs x)\<rparr>, ds_next (xd_docs x)))"

text \<open>
  The flush numbers the new rows, and raises when a chunk id is taken (\<open>chunk_id\<close> is unique).
\<close>

definition numbered :: "int \<Rightarrow> ix_chunk list \<Rightarrow> ix_chunk list" where
  "numbered n cs = map (\<lambda>(k, c). c\<lparr>ic_row := n + int k\<rparr>) (enumerate 0 cs)"

definition replace_chunks :: "int \<Rightarrow> ix_chunk list \<Rightarrow> ix_db \<Rightarrow> exn + ix_db \<times> ix_chunk list" where
  "replace_chunks i cs x =
    (let old = map ic_row (filter (\<lambda>c. ic_document c = i) (xd_chunks x));
         rest = filter (\<lambda>c. ic_document c \<noteq> i) (xd_chunks x);
         rows = numbered (xd_next x) cs
     in if \<not> distinct (map ic_id (rest @ rows)) then Inl (OtherError ''IntegrityError'')
        else Inr (x\<lparr>xd_lineage := map (\<lambda>l. if (case il_chunk l of Some r \<Rightarrow> r \<in> set old | None \<Rightarrow> False)
               then l\<lparr>il_chunk := None\<rparr> else l) (xd_lineage x),
             xd_chunks := rest @ rows, xd_next := xd_next x + int (length cs)\<rparr>, rows))"

definition add_lineages :: "ix_lineage list \<Rightarrow> ix_db \<Rightarrow> ix_db" where
  "add_lineages ls x = x\<lparr>xd_lineage := xd_lineage x @ ls\<rparr>"

definition set_document_index_status :: "int \<Rightarrow> string \<Rightarrow> ix_db \<Rightarrow> ix_db" where
  "set_document_index_status i s x =
    x\<lparr>xd_docs := (xd_docs x)\<lparr>ds_docs := map (\<lambda>(k, d). (k, if k = i then d\<lparr>dm_index := s\<rparr> else d))
      (ds_docs (xd_docs x))\<rparr>\<rparr>"

definition set_chunk_vector_status :: "int \<Rightarrow> string \<Rightarrow> ix_db \<Rightarrow> ix_db" where
  "set_chunk_vector_status i s x =
    x\<lparr>xd_chunks := map (\<lambda>c. if ic_document c = i then c\<lparr>ic_status := s\<rparr> else c) (xd_chunks x)\<rparr>"

definition lineage_points :: "int \<Rightarrow> ix_db \<Rightarrow> ustr list" where
  "lineage_points i x = List.map_filter il_point (filter (\<lambda>l. il_document l = i) (xd_lineage x))"

definition orphaned_vector_point_ids :: "int \<Rightarrow> ustr list \<Rightarrow> ix_db \<Rightarrow> ustr list" where
  "orphaned_vector_point_ids i current x = nub (filter (\<lambda>p. p \<notin> set current) (lineage_points i x))"

definition vector_point_ids_for_document :: "int \<Rightarrow> ix_db \<Rightarrow> ustr list" where
  "vector_point_ids_for_document i x =
    nub (map ic_id (filter (\<lambda>c. ic_document c = i) (xd_chunks x)) @ lineage_points i x)"

section \<open>Drafts, chunks and points\<close>

record source_draft =
  sd_index :: nat
  sd_content :: ustr
  sd_path :: "ustr list"
  sd_title :: "ustr option"
  sd_chars :: nat
  sd_attachment :: "int option"
  sd_page :: "nat option"

text \<open>What \<open>document.source\<close> contributes: its name and official status.\<close>

record indexing_service =
  sv_chunking :: chunking_config
  sv_batcher :: batcher
  sv_provider :: ustr
  sv_model :: ustr
  sv_dim :: int
  sv_version :: ustr
  sv_sha :: "ustr \<Rightarrow> ustr"
  sv_point_id :: "pyval \<times> nat \<times> int option \<times> nat option \<times> nat \<times> ustr list \<times> ustr option
      \<times> ustr \<times> ustr \<times> ustr \<times> ustr \<Rightarrow> ustr"
  sv_source :: "int \<Rightarrow> (pyval \<times> pyval) option"

definition title_or :: "ustr option \<Rightarrow> ustr \<Rightarrow> ustr" where
  "title_or t n = (case t of Some s \<Rightarrow> if s \<noteq> [] then s else n | None \<Rightarrow> n)"

fun append_drafts :: "source_draft list \<Rightarrow> chunk_draft list \<Rightarrow> ix_attachment option \<Rightarrow> nat option \<Rightarrow> source_draft list" where
  "append_drafts out [] a page = out"
| "append_drafts out (c # cs) a page =
    append_drafts (out @ [\<lparr>sd_index = length out, sd_content = cd_content c,
        sd_path = (case a of Some x \<Rightarrow> ia_name x # cd_path c | None \<Rightarrow> cd_path c),
        sd_title = (case a of Some x \<Rightarrow> Some (title_or (cd_title c) (ia_name x)) | None \<Rightarrow> cd_title c),
        sd_chars = cd_count c, sd_attachment = map_option ia_id a, sd_page = page\<rparr>]) cs a page"

definition source_drafts :: "indexing_service \<Rightarrow> document \<Rightarrow> ix_attachment list \<Rightarrow> source_draft list" where
  "source_drafts sv d atts =
    fold (\<lambda>a out.
        let pages = split_on 12 (case ia_text a of Some t \<Rightarrow> t | None \<Rightarrow> []);
            has_pages = 1 < length pages \<or> ia_pages a \<noteq> None
        in fold (\<lambda>(k, page) out. append_drafts out (chunk (sv_chunking sv) page) (Some a)
              (if has_pages then Some k else None)) (enum_from 1 pages) out)
      atts (append_drafts [] (chunk (sv_chunking sv) (content_of d)) None None)"

definition ix_token_rx :: rx where
  "ix_token_rx = alts [rplus (Cls False [(65, 90), (97, 122), (48, 57)]), Cls False cjk_class]"

definition ix_token_count :: "ustr \<Rightarrow> nat" where
  "ix_token_count t = length (re_findall ix_token_rx t)"

definition new_chunk :: "indexing_service \<Rightarrow> document \<Rightarrow> source_draft \<Rightarrow> ix_chunk" where
  "new_chunk sv d s =
    (let digest = sv_sha sv (sd_content s); path = join (asc '' > '') (sd_path s) in
     \<lparr>ic_row = 0, ic_id = sv_point_id sv (attr d ''document_id'', dm_version d, sd_attachment s, sd_page s, sd_index s,
        sd_path s, sd_title s, sv_provider sv, sv_model sv, sv_version sv, digest),
      ic_document = dm_id d, ic_attachment = sd_attachment s, ic_index = sd_index s,
      ic_path = (if path \<noteq> [] then Some path else None), ic_title = sd_title s, ic_page = sd_page s,
      ic_content = sd_content s, ic_hash = digest, ic_chars = sd_chars s, ic_tokens = ix_token_count (sd_content s),
      ic_model = sv_model sv, ic_version = sv_version sv, ic_status = ''pending''\<rparr>)"

definition opt_str :: "ustr option \<Rightarrow> pyval" where
  "opt_str s = (case s of Some t \<Rightarrow> PStr t | None \<Rightarrow> PNone)"

definition ix_payload :: "indexing_service \<Rightarrow> document \<Rightarrow> ix_chunk \<Rightarrow> pydict" where
  "ix_payload sv d c = filter (\<lambda>(k, v). v \<noteq> PNone)
    [(''source_id'', PInt (dm_source d)),
     (''source_name'', case sv_source sv (dm_source d) of Some (n, s) \<Rightarrow> n | None \<Rightarrow> PNone),
     (''official_status'', case sv_source sv (dm_source d) of Some (n, s) \<Rightarrow> s | None \<Rightarrow> PNone),
     (''region'', attr d ''region''), (''city'', attr d ''city''), (''document_type'', attr d ''document_type''),
     (''issuing_authority'', attr d ''issuing_authority''), (''document_number'', attr d ''document_number''),
     (''publish_date'', isoformat_or_none (attr d ''publish_date'')),
     (''document_version'', PInt (int (dm_version d))), (''section_path'', opt_str (ic_path c)),
     (''section_title'', opt_str (ic_title c)),
     (''page_number'', case ic_page c of Some n \<Rightarrow> PInt (int n) | None \<Rightarrow> PNone),
     (''content_hash'', PStr (ic_hash c))]"

definition point_of :: "indexing_service \<Rightarrow> document \<Rightarrow> ix_chunk \<Rightarrow> vec \<Rightarrow> vpoint" where
  "point_of sv d c v = \<lparr>p_id = ic_id c, p_vector = v, p_document = text_of (attr d ''document_id''),
     p_content = ic_content c, p_title = text_of (attr d ''title''), p_url = text_of (attr d ''source_url''),
     p_payload = ix_payload sv d c\<rparr>"

definition replace_required :: "ix_chunk list \<Rightarrow> ix_chunk list \<Rightarrow> bool" where
  "replace_required existing desired =
    (if length existing \<noteq> length desired then True
     else \<exists>(e, d) \<in> set (zip existing desired).
       ic_id e \<noteq> ic_id d \<or> ic_model e \<noteq> ic_model d \<or> ic_version e \<noteq> ic_version d)"

section \<open>Programs with faults\<close>

text \<open>
  \<open>iw_switched\<close> and \<open>iw_new_only\<close> are the local variables \<open>database_switched\<close> and \<open>new_only_ids\<close>
  of the running call, which its handler reads.
\<close>

record ix_world =
  iw_saved :: ix_db
  iw_work :: ix_db
  iw_vectors :: vstore
  iw_emb :: emb_state
  iw_tick :: nat
  iw_switched :: bool
  iw_new_only :: "ustr list"

record ix_env =
  ie_fault :: "nat \<Rightarrow> (exn \<times> bool) option"
  ie_cleanup :: "nat \<Rightarrow> (exn \<times> bool) option"
  ie_emb :: emb_env

type_synonym 'a ix = "(ix_world, 'a) eff"

definition itick :: "ix_world \<Rightarrow> ix_world" where
  "itick w = w\<lparr>iw_tick := iw_tick w + 1\<rparr>"

type_synonym faults = "nat \<Rightarrow> (exn \<times> bool) option"

definition db_call :: "faults \<Rightarrow> (ix_db \<Rightarrow> exn + ix_db \<times> 'a) \<Rightarrow> 'a ix" where
  "db_call ft f w =
    (case ft (iw_tick w) of
       Some (e, done) \<Rightarrow> (itick w, Inl e)
     | None \<Rightarrow> (case f (iw_work w) of
         Inl e \<Rightarrow> (itick w, Inl e)
       | Inr (x, a) \<Rightarrow> (itick (w\<lparr>iw_work := x\<rparr>), Inr a)))"

definition vec_call :: "faults \<Rightarrow> (vstore \<Rightarrow> vstore \<times> (exn + 'a)) \<Rightarrow> 'a ix" where
  "vec_call ft f w =
    (case ft (iw_tick w) of
       Some (e, done) \<Rightarrow> (itick (w\<lparr>iw_vectors := if done then fst (f (iw_vectors w)) else iw_vectors w\<rparr>), Inl e)
     | None \<Rightarrow> (itick (w\<lparr>iw_vectors := fst (f (iw_vectors w))\<rparr>), snd (f (iw_vectors w))))"

definition icommit :: "faults \<Rightarrow> unit ix" where
  "icommit ft w =
    (case ft (iw_tick w) of
       Some (e, done) \<Rightarrow> (itick w, Inl e)
     | None \<Rightarrow> (itick (w\<lparr>iw_saved := iw_work w\<rparr>), Inr ()))"

definition irollback :: "faults \<Rightarrow> unit ix" where
  "irollback ft w =
    (case ft (iw_tick w) of
       Some (e, done) \<Rightarrow> (itick w, Inl e)
     | None \<Rightarrow> (itick (w\<lparr>iw_work := iw_saved w\<rparr>), Inr ()))"

definition emb_call :: "emb_env \<Rightarrow> batcher \<Rightarrow> ustr list \<Rightarrow> batch_result ix" where
  "emb_call env b texts w =
    (case embed env b texts (iw_emb w) of (s, r) \<Rightarrow> (w\<lparr>iw_emb := s\<rparr>, r))"

definition query :: "faults \<Rightarrow> (ix_db \<Rightarrow> 'a) \<Rightarrow> 'a ix" where
  "query ft f = db_call ft (\<lambda>x. Inr (x, f x))"

definition modify :: "faults \<Rightarrow> (ix_db \<Rightarrow> ix_db) \<Rightarrow> unit ix" where
  "modify ft f = db_call ft (\<lambda>x. Inr (f x, ()))"

section \<open>Indexing a document\<close>

record indexing_result =
  ir_document :: int
  ir_version :: nat
  ir_chunks :: nat
  ir_hits :: nat
  ir_embedded :: nat
  ir_model :: ustr
  ir_embedding_version :: ustr
  ir_cost :: rat
  ir_points :: "ustr list"

definition lineage_for :: "document \<Rightarrow> int \<Rightarrow> int option \<Rightarrow> ix_chunk \<Rightarrow> ix_lineage" where
  "lineage_for d version task c =
    \<lparr>il_source = dm_source d, il_task = task, il_document = dm_id d, il_version = Some version,
     il_attachment = ic_attachment c, il_chunk = Some (ic_row c), il_point = Some (ic_id c)\<rparr>"

definition switch_chunks :: "faults \<Rightarrow> indexing_service \<Rightarrow> document \<Rightarrow> ix_chunk list \<Rightarrow> unit ix" where
  "switch_chunks ft sv d chunks =
    ebind (db_call ft (replace_chunks (dm_id d) chunks)) (\<lambda>rows.
    ebind (db_call ft (\<lambda>x. Inr (ensure_document_version (sv_sha sv) d x))) (\<lambda>version.
    ebind (query ft (latest_crawl_task_id (dm_id d))) (\<lambda>task.
    modify ft (add_lineages (map (lineage_for d version task) rows)))))"

definition minus_ids :: "ustr list \<Rightarrow> ustr list \<Rightarrow> ustr list" where
  "minus_ids a b = filter (\<lambda>i. i \<notin> set b) (nub a)"

definition ensure_collection :: "int \<Rightarrow> vstore \<Rightarrow> vstore \<times> (exn + unit)" where
  "ensure_collection d s = (case vs_ensure d s of Inl e \<Rightarrow> (s, Inl e) | Inr s' \<Rightarrow> (s', Inr ()))"

definition delete_points :: "ustr list \<Rightarrow> vstore \<Rightarrow> vstore \<times> (exn + unit)" where
  "delete_points ids s = (vs_delete ids s, Inr ())"

definition retire_points :: "faults \<Rightarrow> document \<Rightarrow> ustr list \<Rightarrow> ustr list \<Rightarrow> unit ix" where
  "retire_points ft d existing_ids current =
    ebind (query ft (orphaned_vector_point_ids (dm_id d) current)) (\<lambda>orphans.
    let stale = nub (minus_ids existing_ids current @ orphans) in
    if stale \<noteq> [] then vec_call ft (delete_points (sort stale)) else ereturn ())"

definition publish :: "ix_env \<Rightarrow> indexing_service \<Rightarrow> document \<Rightarrow> source_draft list \<Rightarrow> ix_chunk list \<Rightarrow> indexing_result ix" where
  "publish env sv d drafts existing =
    (let ft = ie_fault env in
     ebind (emb_call (ie_emb env) (sv_batcher sv) (map sd_content drafts)) (\<lambda>em.
     if \<exists>v \<in> set (br_vectors em). int (length v) \<noteq> sv_dim sv then
       eraise (ProviderResponseError ''embedding'' ''vector dimensions do not match configured size'')
     else
     ebind (vec_call ft (ensure_collection (sv_dim sv))) (\<lambda>u.
     let chunks = map (new_chunk sv d) drafts;
         points = map (\<lambda>(c, v). point_of sv d c v) (zip chunks (br_vectors em));
         current = nub (map p_id points); existing_ids = nub (map ic_id existing) in
     ebind (elocal (\<lambda>w. w\<lparr>iw_new_only := minus_ids current existing_ids\<rparr>)) (\<lambda>u.
     ebind (vec_call ft (vs_upsert points)) (\<lambda>u.
     ebind (if replace_required existing chunks then switch_chunks ft sv d chunks else ereturn ()) (\<lambda>u.
     ebind (icommit ft) (\<lambda>u.
     ebind (elocal (\<lambda>w. w\<lparr>iw_switched := True\<rparr>)) (\<lambda>u.
     ebind (retire_points ft d existing_ids current) (\<lambda>u.
     ebind (modify ft (set_chunk_vector_status (dm_id d) ''indexed'')) (\<lambda>u.
     ebind (modify ft (set_document_index_status (dm_id d) ''indexed'')) (\<lambda>u.
     ebind (icommit ft) (\<lambda>u.
     ereturn \<lparr>ir_document = dm_id d, ir_version = dm_version d, ir_chunks = length chunks, ir_hits = br_hits em,
       ir_embedded = br_embedded em, ir_model = sv_model sv, ir_embedding_version = sv_version sv,
       ir_cost = br_cost em, ir_points = map ic_id chunks\<rparr>))))))))))))"

definition compensate :: "ix_env \<Rightarrow> int \<Rightarrow> exn \<Rightarrow> indexing_result ix" where
  "compensate env i e =
    (let ft = ie_cleanup env in
     ebind (irollback ft) (\<lambda>u.
     ebind (\<lambda>w. if iw_new_only w \<noteq> [] \<and> \<not> iw_switched w
              then eswallow (vec_call ft (delete_points (sort (iw_new_only w)))) w else ereturn () w) (\<lambda>u.
     ebind (modify ft (set_document_index_status i ''failed'')) (\<lambda>u.
     ebind (icommit ft) (\<lambda>u. eraise e)))))"

definition index_document :: "ix_env \<Rightarrow> indexing_service \<Rightarrow> int \<Rightarrow> indexing_result ix" where
  "index_document env sv i =
    (let ft = ie_fault env in
     ebind (query ft (get_document i)) (\<lambda>found.
     case found of
       None \<Rightarrow> eraise (NotFoundError ''Document'')
     | Some d \<Rightarrow>
       if dm_final d \<noteq> ''approved'' then eraise (ConflictError ''Only approved documents can be indexed'')
       else
       ebind (query ft (list_indexable_attachments (dm_id d))) (\<lambda>atts.
       let drafts = source_drafts sv d atts in
       if drafts = [] then eraise (ConflictError ''Document content did not produce any indexable chunks'')
       else
       ebind (query ft (list_document_chunks (dm_id d))) (\<lambda>existing.
       ebind (modify ft (set_document_index_status (dm_id d) ''indexing'')) (\<lambda>u.
       ebind (icommit ft) (\<lambda>u.
       ebind (elocal (\<lambda>w. w\<lparr>iw_switched := False, iw_new_only := []\<rparr>)) (\<lambda>u.
       ecatch (publish env sv d drafts existing) (compensate env (dm_id d)))))))))"

section \<open>Weakest preconditions\<close>

lemma wp_db:
  assumes "\<And>x a n. f (iw_work w) = Inr (x, a) \<Longrightarrow> Q a (w\<lparr>iw_work := x, iw_tick := n\<rparr>)"
    and "\<And>e n. E e (w\<lparr>iw_tick := n\<rparr>)"
  shows "wp (db_call ft f) Q E w"
  using assms by (auto simp: wp_def db_call_def itick_def split: option.splits sum.splits)

lemma wp_query:
  assumes "\<And>n. Q (f (iw_work w)) (w\<lparr>iw_tick := n\<rparr>)" and "\<And>e n. E e (w\<lparr>iw_tick := n\<rparr>)"
  shows "wp (query ft f) Q E w"
  using assms unfolding query_def wp_def db_call_def itick_def by (auto split: option.splits)

lemma wp_modify:
  assumes "\<And>n. Q () (w\<lparr>iw_work := f (iw_work w), iw_tick := n\<rparr>)"
    and "\<And>e n. ft (iw_tick w) \<noteq> None \<Longrightarrow> E e (w\<lparr>iw_tick := n\<rparr>)"
  shows "wp (modify ft f) Q E w"
  using assms unfolding modify_def wp_def db_call_def itick_def by (auto split: option.splits)

lemma wp_commit:
  assumes "\<And>n. Q () (w\<lparr>iw_saved := iw_work w, iw_tick := n\<rparr>)"
    and "\<And>e n. ft (iw_tick w) \<noteq> None \<Longrightarrow> E e (w\<lparr>iw_tick := n\<rparr>)"
  shows "wp (icommit ft) Q E w"
  using assms unfolding wp_def icommit_def itick_def by (auto split: option.splits)

lemma wp_rollback:
  assumes "\<And>n. Q () (w\<lparr>iw_work := iw_saved w, iw_tick := n\<rparr>)"
    and "\<And>e n. ft (iw_tick w) \<noteq> None \<Longrightarrow> E e (w\<lparr>iw_tick := n\<rparr>)"
  shows "wp (irollback ft) Q E w"
  using assms unfolding wp_def irollback_def itick_def by (auto split: option.splits)

lemma wp_vec:
  assumes "\<And>a v n. f (iw_vectors w) = (v, Inr a) \<Longrightarrow> Q a (w\<lparr>iw_vectors := v, iw_tick := n\<rparr>)"
    and "\<And>e v n. v = fst (f (iw_vectors w)) \<or> v = iw_vectors w \<Longrightarrow> E e (w\<lparr>iw_vectors := v, iw_tick := n\<rparr>)"
  shows "wp (vec_call ft f) Q E w"
proof (cases "ft (iw_tick w)")
  case None
  obtain v r where f: "f (iw_vectors w) = (v, r)" by (cases "f (iw_vectors w)") auto
  show ?thesis
    using assms(1) [of v] assms(2) [of v] f None by (cases r) (auto simp: wp_def vec_call_def itick_def)
next
  case (Some x)
  then show ?thesis
    using assms(2) [of "iw_vectors w"] assms(2) [of "fst (f (iw_vectors w))"]
    by (cases x) (auto simp: wp_def vec_call_def itick_def)
qed

lemma wp_emb:
  assumes "\<And>s r. embed env b texts (iw_emb w) = (s, Inr r) \<Longrightarrow> Q r (w\<lparr>iw_emb := s\<rparr>)"
    and "\<And>s e. E e (w\<lparr>iw_emb := s\<rparr>)"
  shows "wp (emb_call env b texts) Q E w"
  using assms by (auto simp: wp_def emb_call_def split: prod.splits sum.splits)

lemmas wp_rules = wp_query wp_modify wp_commit wp_rollback

section \<open>The vector store\<close>

definition point_ids :: "vstore \<Rightarrow> ustr set" where
  "point_ids v = set (dkeys (vs_points v))"

lemma point_ids_delete [simp]: "point_ids (vs_delete ids v) = point_ids v - set ids"
  by (force simp: point_ids_def vs_delete_def)

lemma dget_delete: "dget (vs_points (vs_delete ids v)) k = (if k \<in> set ids then None else dget (vs_points v) k)"
proof -
  have "map_of (filter (\<lambda>(k, p). k \<notin> set ids) xs) k = (if k \<in> set ids then None else map_of xs k)" for xs :: "(ustr \<times> vpoint) list"
    by (induction xs) auto
  then show ?thesis by (simp add: vs_delete_def)
qed

lemma dget_point_ids: "dget (vs_points v) k = Some p \<Longrightarrow> k \<in> point_ids v"
  by (force simp: point_ids_def dest: map_of_SomeD)

lemma ensure_points: "vs_points (fst (ensure_collection d v)) = vs_points v"
  by (auto simp: ensure_collection_def vs_ensure_def)

lemma ensure_ids [simp]: "point_ids (fst (ensure_collection d v)) = point_ids v"
  by (simp add: point_ids_def ensure_points)

lemma fold_dset_ids: "fst ` set (fold (\<lambda>p. dset (p_id p) p) ps d) = fst ` set d \<union> p_id ` set ps"
  by (induction ps arbitrary: d) (auto simp: fst_set_dset)

lemma fold_dset_some:
  "k \<in> p_id ` set ps \<Longrightarrow> \<exists>p \<in> set ps. p_id p = k \<and> dget (fold (\<lambda>p. dset (p_id p) p) ps d) k = Some p"
proof (induction ps arbitrary: d rule: rev_induct)
  case (snoc q ps)
  then show ?case by (cases "p_id q = k") (auto simp: dget_dset)
qed simp

lemma upsert_ids:
  assumes "vs_upsert ps v = (v', r)"
  shows "point_ids v \<subseteq> point_ids v' \<and> point_ids v' \<subseteq> point_ids v \<union> p_id ` set ps"
proof -
  obtain s ok where c: "vs_check ps v = (s, ok)" by (cases "vs_check ps v")
  show ?thesis
  proof (cases ok)
    case True
    then have "vs_points v' = fold (\<lambda>p. dset (p_id p) p) ps (vs_points v)"
      using assms c vs_check_props [OF c] by (auto simp: vs_upsert_def)
    then have "point_ids v' = point_ids v \<union> p_id ` set ps" by (simp only: point_ids_def set_map fold_dset_ids)
    then show ?thesis by simp
  next
    case False
    then have "vs_points v' = vs_points v" using assms c vs_check_props [OF c] by (auto simp: vs_upsert_def)
    then show ?thesis by (simp add: point_ids_def)
  qed
qed

lemma upsert_held:
  "vs_upsert ps v = (v', Inr u) \<Longrightarrow> k \<in> p_id ` set ps \<Longrightarrow> \<exists>p \<in> set ps. p_id p = k \<and> dget (vs_points v') k = Some p"
  by (auto simp: vs_upsert_def fold_dset_some split: prod.splits bool.splits)

section \<open>The phases of a publication\<close>

text \<open>
  \<open>S\<close> is the committed database once the document is marked as being indexed, \<open>V\<close> the vector store
  at that moment, \<open>ex\<close> the chunk ids the document has, \<open>ps\<close> the points to publish. Before the switch
  the database is \<open>S\<close> and the store has at most new points; afterwards the document's chunks are
  the published ones and the store holds them.
\<close>

definition unpublished :: "ix_db \<Rightarrow> vstore \<Rightarrow> ustr set \<Rightarrow> ustr set \<Rightarrow> ix_world \<Rightarrow> bool" where
  "unpublished S V ex new w \<longleftrightarrow> \<not> iw_switched w \<and> iw_saved w = S \<and> set (iw_new_only w) \<subseteq> new
    \<and> point_ids V \<subseteq> point_ids (iw_vectors w) \<and> point_ids (iw_vectors w) \<subseteq> point_ids V \<union> ex \<union> set (iw_new_only w)
    \<and> set (iw_new_only w) \<inter> ex = {}"

definition chunks_ok :: "int \<Rightarrow> ix_db \<Rightarrow> ustr list \<Rightarrow> ix_db \<Rightarrow> bool" where
  "chunks_ok i S ids x \<longleftrightarrow>
    map ic_id (list_document_chunks i x) = ids
    \<and> filter (\<lambda>c. ic_document c \<noteq> i) (xd_chunks x) = filter (\<lambda>c. ic_document c \<noteq> i) (xd_chunks S)
    \<and> set (lineage_points i x) \<subseteq> set (lineage_points i S) \<union> set ids
    \<and> set (lineage_points i S) \<subseteq> set (lineage_points i x)"

definition held :: "vpoint list \<Rightarrow> vstore \<Rightarrow> bool" where
  "held ps v \<longleftrightarrow> (\<forall>k \<in> p_id ` set ps. \<exists>p \<in> set ps. p_id p = k \<and> dget (vs_points v) k = Some p)"

definition published :: "int \<Rightarrow> ix_db \<Rightarrow> vstore \<Rightarrow> ustr set \<Rightarrow> vpoint list \<Rightarrow> ix_world \<Rightarrow> bool" where
  "published i S V ex ps w \<longleftrightarrow> iw_switched w
    \<and> chunks_ok i S (map p_id ps) (iw_saved w) \<and> chunks_ok i S (map p_id ps) (iw_work w)
    \<and> held ps (iw_vectors w)
    \<and> point_ids V - ex - set (lineage_points i S) \<subseteq> point_ids (iw_vectors w)
    \<and> point_ids (iw_vectors w) \<subseteq> point_ids V \<union> p_id ` set ps"

lemma chunks_ok_status [simp]: "chunks_ok i S ids (set_document_index_status k s x) = chunks_ok i S ids x"
  by (simp add: chunks_ok_def set_document_index_status_def list_document_chunks_def lineage_points_def)

lemma insort_key_map: "(\<And>c. g (f c) = g c) \<Longrightarrow> insort_key g (f c) (map f cs) = map f (insort_key g c cs)"
  by (induction cs) simp_all

lemma sort_key_map: "(\<And>c. g (f c) = g c) \<Longrightarrow> sort_key g (map f cs) = map f (sort_key g cs)"
  by (induction cs) (simp_all add: insort_key_map)

lemma chunks_ok_vector [simp]: "chunks_ok i S ids (set_chunk_vector_status i s x) = chunks_ok i S ids x"
proof -
  let ?f = "\<lambda>c. if ic_document c = i then c\<lparr>ic_status := s\<rparr> else c" and ?x = "set_chunk_vector_status i s x"
  have a: "list_document_chunks i ?x = map ?f (list_document_chunks i x)"
    by (simp add: list_document_chunks_def set_chunk_vector_status_def filter_map comp_def if_distrib sort_key_map cong: if_cong)
  have f: "filter (\<lambda>c. ic_document c \<noteq> i) (map ?f cs) = filter (\<lambda>c. ic_document c \<noteq> i) cs" for cs
    by (induction cs) auto
  have b: "filter (\<lambda>c. ic_document c \<noteq> i) (xd_chunks ?x) = filter (\<lambda>c. ic_document c \<noteq> i) (xd_chunks x)"
    using f by (simp add: set_chunk_vector_status_def)
  have c: "lineage_points i ?x = lineage_points i x" by (simp add: lineage_points_def set_chunk_vector_status_def)
  have d: "map ic_id (map ?f cs) = map ic_id cs" for cs by simp
  show ?thesis unfolding chunks_ok_def a b c d ..
qed

lemma unpublished_frame [simp]:
  "unpublished S V ex new (w\<lparr>iw_work := x\<rparr>) = unpublished S V ex new w"
  "unpublished S V ex new (w\<lparr>iw_tick := n\<rparr>) = unpublished S V ex new w"
  "unpublished S V ex new (w\<lparr>iw_emb := e\<rparr>) = unpublished S V ex new w"
  by (simp_all add: unpublished_def)

lemma iw_vectors_emb: "iw_vectors (w\<lparr>iw_emb := s\<rparr>) = iw_vectors w"
  by simp

lemma published_frame [simp]:
  "published i S V ex ps (w\<lparr>iw_tick := n\<rparr>) = published i S V ex ps w"
  by (simp add: published_def)

lemma lineage_map:
  "(\<And>l. il_document (f l) = il_document l) \<Longrightarrow> (\<And>l. il_point (f l) = il_point l) \<Longrightarrow>
    List.map_filter il_point (filter (\<lambda>l. il_document l = i) (map f ls)) = List.map_filter il_point (filter (\<lambda>l. il_document l = i) ls)"
  by (induction ls) (auto simp: map_filter_simps split: option.splits)

lemma replace_chunks_ok:
  assumes "replace_chunks i cs S = Inr (x, rows)" "\<forall>c \<in> set cs. ic_document c = i" "sorted (map ic_index cs)"
  shows "map ic_id (list_document_chunks i x) = map ic_id cs" "map ic_id rows = map ic_id cs"
    "filter (\<lambda>c. ic_document c \<noteq> i) (xd_chunks x) = filter (\<lambda>c. ic_document c \<noteq> i) (xd_chunks S)"
    "lineage_points i x = lineage_points i S"
proof -
  have rows: "rows = numbered (xd_next S) cs"
    and x: "xd_chunks x = filter (\<lambda>c. ic_document c \<noteq> i) (xd_chunks S) @ rows"
    and l: "\<exists>old. xd_lineage x = map (\<lambda>l. if (case il_chunk l of Some r \<Rightarrow> r \<in> set old | None \<Rightarrow> False)
               then l\<lparr>il_chunk := None\<rparr> else l) (xd_lineage S)"
    using assms(1) by (auto simp: replace_chunks_def Let_def split: if_splits)
  have keeps: "map f rows = map f cs" if "\<And>c n. f (c\<lparr>ic_row := n\<rparr>) = f c" for f :: "ix_chunk \<Rightarrow> 'a"
    unfolding rows numbered_def by (rule nth_equalityI) (simp_all add: that nth_enumerate_eq)
  show ids: "map ic_id rows = map ic_id cs" by (rule keeps) simp
  have docs: "map ic_document rows = map ic_document cs" and idx: "map ic_index rows = map ic_index cs"
    by (rule keeps, simp)+
  have all: "\<forall>c \<in> set rows. ic_document c = i"
  proof
    fix c assume "c \<in> set rows"
    then have "ic_document c \<in> set (map ic_document rows)" by simp
    then show "ic_document c = i" unfolding docs using assms(2) by auto
  qed
  have "list_document_chunks i x = rows"
    unfolding list_document_chunks_def x using all assms(3) idx by (simp add: filter_empty_conv sort_key_id_if_sorted)
  then show "map ic_id (list_document_chunks i x) = map ic_id cs" using ids by simp
  show "filter (\<lambda>c. ic_document c \<noteq> i) (xd_chunks x) = filter (\<lambda>c. ic_document c \<noteq> i) (xd_chunks S)"
    unfolding x using all by simp
  obtain old where l: "xd_lineage x = map (\<lambda>l. if (case il_chunk l of Some r \<Rightarrow> r \<in> set old | None \<Rightarrow> False)
               then l\<lparr>il_chunk := None\<rparr> else l) (xd_lineage S)" using l by blast
  show "lineage_points i x = lineage_points i S"
    unfolding lineage_points_def l by (rule lineage_map) (auto split: option.splits)
qed

lemma map_filter_append: "List.map_filter f (xs @ ys) = List.map_filter f xs @ List.map_filter f ys"
  by (simp add: List.map_filter_def)

lemma lineage_points_add:
  "lineage_points i (add_lineages ls x) = lineage_points i x @ List.map_filter il_point (filter (\<lambda>l. il_document l = i) ls)"
  by (simp add: lineage_points_def add_lineages_def map_filter_append)

lemma ensure_version_frame:
  "xd_chunks (fst (ensure_document_version sha d x)) = xd_chunks x"
  "xd_lineage (fst (ensure_document_version sha d x)) = xd_lineage x"
  by (auto simp: ensure_document_version_def split: option.splits)

lemma new_lineage_points:
  "set (List.map_filter il_point (filter (\<lambda>l. il_document l = i) (map (lineage_for d v t) rows))) \<subseteq> ic_id ` set rows"
  by (auto simp: List.map_filter_def lineage_for_def)

lemma list_chunks_cong: "xd_chunks x = xd_chunks y \<Longrightarrow> list_document_chunks i x = list_document_chunks i y"
  by (simp add: list_document_chunks_def)

lemma switched_chunks_ok:
  assumes r: "replace_chunks i chunks S = Inr (x, rows)" "\<forall>c \<in> set chunks. ic_document c = i" "sorted (map ic_index chunks)"
    and y: "xd_chunks y = xd_chunks x" "xd_lineage y = xd_lineage x"
  shows "chunks_ok i S (map ic_id chunks) (add_lineages (map (lineage_for d v t) rows) y)" (is "chunks_ok _ _ _ ?z")
proof -
  note r = replace_chunks_ok [OF r]
  have c: "xd_chunks ?z = xd_chunks x" by (simp add: add_lineages_def y)
  have "lineage_points i y = lineage_points i S" using r(4) by (simp add: lineage_points_def y)
  moreover have "ic_id ` set rows = set (map ic_id chunks)" using r(2) by (metis set_map)
  ultimately show ?thesis
    using r(1,3) new_lineage_points [of i d v t rows]
    by (auto simp: chunks_ok_def lineage_points_add list_chunks_cong [OF c] c)
qed

lemma switch_wp:
  assumes S: "iw_work w = S" and cs: "\<forall>c \<in> set chunks. ic_document c = dm_id d" "sorted (map ic_index chunks)"
    and Q: "\<And>x n. chunks_ok (dm_id d) S (map ic_id chunks) x \<Longrightarrow> Q () (w\<lparr>iw_work := x, iw_tick := n\<rparr>)"
    and E: "\<And>e x n. E e (w\<lparr>iw_work := x, iw_tick := n\<rparr>)"
  shows "wp (switch_chunks ft sv d chunks) Q E w"
proof -
  have E': "E e (w\<lparr>iw_tick := n\<rparr>)" for e n using E [where e = e and x = "iw_work w" and n = n] by simp
  show ?thesis
    unfolding switch_chunks_def wp_bind
  proof (rule wp_db)
    fix x rows n assume r: "replace_chunks (dm_id d) chunks (iw_work w) = Inr (x, rows)"
    show "wp (db_call ft (\<lambda>x. Inr (ensure_document_version (sv_sha sv) d x)))
        (\<lambda>version. wp (query ft (latest_crawl_task_id (dm_id d)))
           (\<lambda>task. wp (modify ft (add_lineages (map (lineage_for d version task) rows))) Q E) E) E
        (w\<lparr>iw_work := x, iw_tick := n\<rparr>)"
    proof (rule wp_db)
      fix y v m assume "Inr (ensure_document_version (sv_sha sv) d (iw_work (w\<lparr>iw_work := x, iw_tick := n\<rparr>))) = Inr (y, v)"
      then have y: "xd_chunks y = xd_chunks x" "xd_lineage y = xd_lineage x"
        using ensure_version_frame [of "sv_sha sv" d x] by auto
      have ok: "chunks_ok (dm_id d) S (map ic_id chunks) (add_lineages (map (lineage_for d v t) rows) y)" for t
        by (rule switched_chunks_ok [OF r [unfolded S] cs y])
      show "wp (query ft (latest_crawl_task_id (dm_id d)))
          (\<lambda>task. wp (modify ft (add_lineages (map (lineage_for d v task) rows))) Q E) E
          (w\<lparr>iw_work := x, iw_tick := n, iw_work := y, iw_tick := m\<rparr>)"
        by (rule wp_query, rule wp_modify) (simp_all add: Q [OF ok] E)
    qed (simp add: E)
  qed (rule E')
qed

lemma append_drafts_index:
  "map sd_index out = [0..<length out] \<Longrightarrow>
    map sd_index (append_drafts out cs a p) = [0..<length (append_drafts out cs a p)]"
  by (induction out cs a p rule: append_drafts.induct) simp_all

lemma fold_invariant: "P s \<Longrightarrow> (\<And>x t. P t \<Longrightarrow> P (f x t)) \<Longrightarrow> P (fold f xs s)"
  by (induction xs arbitrary: s) auto

lemma source_drafts_index: "map sd_index (source_drafts sv d atts) = [0..<length (source_drafts sv d atts)]"
  unfolding source_drafts_def
  by (rule fold_invariant [where P = "\<lambda>out. map sd_index out = [0..<length out]"])
    (auto simp: Let_def append_drafts_index split: prod.splits
      intro!: fold_invariant [where P = "\<lambda>out. map sd_index out = [0..<length out]"])

lemma get_document_status:
  "get_document i (set_document_index_status i s x) = map_option (\<lambda>d. d\<lparr>dm_index := s\<rparr>) (get_document i x)"
proof -
  have "map_of (map (\<lambda>(k, d). (k, if k = i then d\<lparr>dm_index := s\<rparr> else d)) xs) i = map_option (\<lambda>d. d\<lparr>dm_index := s\<rparr>) (map_of xs i)" for xs
    by (induction xs) auto
  then show ?thesis by (simp add: get_document_def set_document_index_status_def)
qed

lemma published_work:
  "published i S V ex ps w \<Longrightarrow> chunks_ok i S (map p_id ps) x \<Longrightarrow> published i S V ex ps (w\<lparr>iw_work := x, iw_tick := n\<rparr>)"
  by (simp add: published_def)

lemma published_commit:
  "published i S V ex ps w \<Longrightarrow> published i S V ex ps (w\<lparr>iw_saved := iw_work w, iw_tick := n\<rparr>)"
  by (simp add: published_def)

text \<open>The old points that the new version does not use.\<close>

definition retired :: "int \<Rightarrow> ix_db \<Rightarrow> ustr set \<Rightarrow> vpoint list \<Rightarrow> vstore \<Rightarrow> bool" where
  "retired i S ex ps v \<longleftrightarrow> point_ids v \<inter> (ex \<union> set (lineage_points i S) - p_id ` set ps) = {}"

lemma published_delete:
  assumes "published i S V ex ps w" "set ids \<subseteq> ex \<union> set (lineage_points i S)" "set ids \<inter> p_id ` set ps = {}"
  shows "published i S V ex ps (w\<lparr>iw_vectors := vs_delete ids (iw_vectors w), iw_tick := n\<rparr>)"
proof -
  have "held ps (vs_delete ids (iw_vectors w))"
    using assms(1,3) by (auto simp: published_def held_def dget_delete)
  then show ?thesis using assms by (auto simp: published_def)
qed

lemma retire_wp:
  assumes p: "published i S V ex ps w" and i: "dm_id d = i"
    and ids: "set existing_ids = ex" "set current = p_id ` set ps"
    and Q: "\<And>v n. published i S V ex ps (w\<lparr>iw_vectors := v, iw_tick := n\<rparr>) \<Longrightarrow> retired i S ex ps v \<Longrightarrow>
        Q () (w\<lparr>iw_vectors := v, iw_tick := n\<rparr>)"
    and E: "\<And>e v n. published i S V ex ps (w\<lparr>iw_vectors := v, iw_tick := n\<rparr>) \<Longrightarrow> E e (w\<lparr>iw_vectors := v, iw_tick := n\<rparr>)"
  shows "wp (retire_points ft d existing_ids current) Q E w"
proof -
  let ?o = "orphaned_vector_point_ids (dm_id d) current (iw_work w)"
  let ?stale = "nub (minus_ids existing_ids current @ ?o)"
  have lin: "set (lineage_points i S) \<subseteq> set (lineage_points i (iw_work w))"
    "set (lineage_points i (iw_work w)) \<subseteq> set (lineage_points i S) \<union> p_id ` set ps"
    using p by (auto simp: published_def chunks_ok_def)
  have o: "set ?o = set (lineage_points i (iw_work w)) - p_id ` set ps"
    by (auto simp: orphaned_vector_point_ids_def ids i)
  have m: "set (minus_ids existing_ids current) = ex - p_id ` set ps" by (auto simp: minus_ids_def ids)
  have stale: "set ?stale = ex \<union> set (lineage_points i S) - p_id ` set ps" using o m lin by auto
  have same: "w = w\<lparr>iw_vectors := iw_vectors w, iw_tick := iw_tick w\<rparr>" by simp
  have pt: "published i S V ex ps (w\<lparr>iw_tick := n\<rparr>)" for n using p by simp
  have E': "E e (w\<lparr>iw_tick := n\<rparr>)" for e n using E [where v = "iw_vectors w" and n = n and e = e] pt by simp
  show ?thesis
    unfolding retire_points_def wp_bind
  proof (rule wp_query)
    fix n
    let ?w = "w\<lparr>iw_tick := n\<rparr>"
    show "wp (let stale = ?stale in if stale \<noteq> [] then vec_call ft (delete_points (sort stale)) else ereturn ()) Q E ?w"
    proof (cases "?stale = []")
      case True
      then have "retired i S ex ps (iw_vectors w)" using stale by (auto simp: retired_def)
      then show ?thesis using True Q [where v = "iw_vectors w" and n = n] pt by (simp add: Let_def)
    next
      case False
      have del: "published i S V ex ps (w\<lparr>iw_vectors := vs_delete (sort ?stale) (iw_vectors w), iw_tick := m\<rparr>)" for m
        by (rule published_delete [OF p]) (use stale in auto)
      have ret: "retired i S ex ps (vs_delete (sort ?stale) (iw_vectors w))"
        using stale by (auto simp: retired_def)
      have "wp (vec_call ft (delete_points (sort ?stale))) Q E ?w"
        by (rule wp_vec) (use Q [OF del ret] E [OF del] E' in \<open>auto simp: delete_points_def\<close>)
      then show ?thesis using False by (simp add: Let_def)
    qed
  qed (rule E')
qed

definition fully_indexed :: "int \<Rightarrow> ix_db \<Rightarrow> bool" where
  "fully_indexed i x \<longleftrightarrow> (\<forall>c \<in> set (xd_chunks x). ic_document c = i \<longrightarrow> ic_status c = ''indexed'')
    \<and> (\<forall>d. get_document i x = Some d \<longrightarrow> dm_index d = ''indexed'')"

lemma set_statuses_indexed:
  "fully_indexed i (set_document_index_status i ''indexed'' (set_chunk_vector_status i ''indexed'' x))"
proof -
  have "\<forall>c \<in> set (xd_chunks (set_document_index_status i ''indexed'' (set_chunk_vector_status i ''indexed'' x))).
      ic_document c = i \<longrightarrow> ic_status c = ''indexed''"
  proof (intro ballI impI)
    fix c assume "c \<in> set (xd_chunks (set_document_index_status i ''indexed'' (set_chunk_vector_status i ''indexed'' x)))"
      and i: "ic_document c = i"
    moreover have "xd_chunks (set_document_index_status i ''indexed'' (set_chunk_vector_status i ''indexed'' x))
        = map (\<lambda>e. if ic_document e = i then e\<lparr>ic_status := ''indexed''\<rparr> else e) (xd_chunks x)"
      by (simp add: set_document_index_status_def set_chunk_vector_status_def)
    ultimately obtain e where "c = (if ic_document e = i then e\<lparr>ic_status := ''indexed''\<rparr> else e)"
      by (simp only: set_map) (erule imageE)
    then have "c = e\<lparr>ic_status := ''indexed''\<rparr> \<or> c = e \<and> ic_document e \<noteq> i" by metis
    then show "ic_status c = ''indexed''" using i by (elim disjE) (simp, blast)
  qed
  moreover have "dm_index d = ''indexed''"
    if "map_option (\<lambda>d. d\<lparr>dm_index := ''indexed''\<rparr>) y = Some d" for y :: "document option" and d
    using that by (cases y) auto
  ultimately show ?thesis unfolding fully_indexed_def get_document_status by blast
qed

lemma finish_wp:
  assumes p: "published i S V ex ps w" and i: "dm_id d = i"
    and ids: "set existing_ids = ex" "set current = p_id ` set ps"
    and Q: "\<And>w'. published i S V ex ps w' \<Longrightarrow> retired i S ex ps (iw_vectors w') \<Longrightarrow> fully_indexed i (iw_saved w') \<Longrightarrow> Q r w'"
    and E: "\<And>e w'. published i S V ex ps w' \<Longrightarrow> E e w'"
  shows "wp (retire_points ft d existing_ids current)
     (\<lambda>u. wp (modify ft (set_chunk_vector_status (dm_id d) ''indexed''))
       (\<lambda>u. wp (modify ft (set_document_index_status (dm_id d) ''indexed''))
         (\<lambda>u. wp (icommit ft) (\<lambda>u. Q r) E) E) E) E w"
proof (rule retire_wp [OF p i ids])
  fix v n assume p1: "published i S V ex ps (w\<lparr>iw_vectors := v, iw_tick := n\<rparr>)" (is "published _ _ _ _ _ ?w1")
    and ret: "retired i S ex ps v"
  have E1: "E e (?w1\<lparr>iw_tick := m\<rparr>)" for e m by (rule E) (use p1 in simp)
  have x1: "chunks_ok i S (map p_id ps) (set_chunk_vector_status i ''indexed'' (iw_work ?w1))"
    using p1 by (simp add: published_def)
  show "wp (modify ft (set_chunk_vector_status (dm_id d) ''indexed''))
       (\<lambda>u. wp (modify ft (set_document_index_status (dm_id d) ''indexed'')) (\<lambda>u. wp (icommit ft) (\<lambda>u. Q r) E) E) E ?w1"
  proof (rule wp_modify)
    fix m
    let ?w2 = "?w1\<lparr>iw_work := set_chunk_vector_status i ''indexed'' (iw_work ?w1), iw_tick := m\<rparr>"
    have p2: "published i S V ex ps ?w2" by (rule published_work [OF p1 x1])
    have E2: "E e (?w2\<lparr>iw_tick := k\<rparr>)" for e k by (rule E) (use p2 in simp)
    show "wp (modify ft (set_document_index_status (dm_id d) ''indexed'')) (\<lambda>u. wp (icommit ft) (\<lambda>u. Q r) E) E
        (?w1\<lparr>iw_work := set_chunk_vector_status (dm_id d) ''indexed'' (iw_work ?w1), iw_tick := m\<rparr>)"
      unfolding i
    proof (rule wp_modify)
      fix k
      let ?w3 = "?w2\<lparr>iw_work := set_document_index_status i ''indexed'' (iw_work ?w2), iw_tick := k\<rparr>"
      have p3: "published i S V ex ps ?w3" by (rule published_work [OF p2]) (use x1 in simp)
      have E3: "E e (?w3\<lparr>iw_tick := l\<rparr>)" for e l by (rule E) (use p3 in simp)
      show "wp (icommit ft) (\<lambda>u. Q r) E ?w3"
      proof (rule wp_commit)
        fix l
        show "Q r (?w3\<lparr>iw_saved := iw_work ?w3, iw_tick := l\<rparr>)"
        proof (rule Q)
          show "published i S V ex ps (?w3\<lparr>iw_saved := iw_work ?w3, iw_tick := l\<rparr>)" by (rule published_commit [OF p3])
        qed (use ret set_statuses_indexed [of i] in simp_all)
      qed (rule E3)
    qed (rule E2)
  qed (rule E1)
qed (rule E)

lemma replace_required_ids:
  "\<not> replace_required es ds \<Longrightarrow> map ic_id es = map ic_id ds"
proof -
  assume r: "\<not> replace_required es ds"
  then have "length es = length ds" by (auto simp: replace_required_def split: if_splits)
  then show ?thesis using r by (induction rule: list_induct2) (auto simp: replace_required_def split: if_splits)
qed

lemma new_chunk_simps [simp]:
  "ic_document (new_chunk sv d s) = dm_id d" "ic_index (new_chunk sv d s) = sd_index s"
  by (simp_all add: new_chunk_def Let_def)

lemma point_of_id [simp]: "p_id (point_of sv d c v) = ic_id c"
  by (simp add: point_of_def)

lemma map_points_id:
  "length vs = length cs \<Longrightarrow> map p_id (map (\<lambda>(c, v). point_of sv d c v) (zip cs vs)) = map ic_id cs"
  by (rule nth_equalityI) auto

lemma embed_count: "embed env b texts s = (s', Inr r) \<Longrightarrow> 0 < eb_size b \<Longrightarrow> length (br_vectors r) = length texts"
  by (erule embed_ok) auto

lemma set_minus_ids: "set (minus_ids a b) = set a - set b"
  by (auto simp: minus_ids_def)

lemma published_start:
  assumes "\<not> iw_switched w" "iw_saved w = S" "chunks_ok i S (map p_id ps) (iw_work w)" "held ps (iw_vectors w)"
    and "point_ids V \<subseteq> point_ids (iw_vectors w)" "point_ids (iw_vectors w) \<subseteq> point_ids V \<union> p_id ` set ps"
  shows "published i S V ex ps (w\<lparr>iw_saved := iw_work w, iw_tick := n, iw_switched := True\<rparr>)"
  using assms by (auto simp: published_def)

definition points_for :: "indexing_service \<Rightarrow> document \<Rightarrow> source_draft list \<Rightarrow> vpoint list \<Rightarrow> bool" where
  "points_for sv d drafts ps \<longleftrightarrow> (\<forall>p \<in> set ps. \<exists>s \<in> set drafts. p_id p = ic_id (new_chunk sv d s)
     \<and> p_content p = sd_content s \<and> p_document p = text_of (attr d ''document_id'') \<and> int (length (p_vector p)) = sv_dim sv)"

lemma points_for_zip:
  assumes "\<forall>v \<in> set vs. int (length v) = sv_dim sv"
  shows "points_for sv d drafts (map (\<lambda>(c, v). point_of sv d c v) (zip (map (new_chunk sv d) drafts) vs))"
  unfolding points_for_def
proof
  fix p assume "p \<in> set (map (\<lambda>(c, v). point_of sv d c v) (zip (map (new_chunk sv d) drafts) vs))"
  then obtain c v where cv: "(c, v) \<in> set (zip (map (new_chunk sv d) drafts) vs)" "p = point_of sv d c v" by auto
  then obtain s where "s \<in> set drafts" "c = new_chunk sv d s" "v \<in> set vs"
    using set_zip_leftD [OF cv(1)] set_zip_rightD [OF cv(1)] by auto
  then show "\<exists>s \<in> set drafts. p_id p = ic_id (new_chunk sv d s) \<and> p_content p = sd_content s
      \<and> p_document p = text_of (attr d ''document_id'') \<and> int (length (p_vector p)) = sv_dim sv"
    using assms cv(2) by (intro bexI [of _ s]) (auto simp: point_of_def new_chunk_def Let_def)
qed

lemma publish_wp:
  fixes sv d drafts
  defines "ids \<equiv> map (\<lambda>s. ic_id (new_chunk sv d s)) drafts"
  assumes w: "\<not> iw_switched w" "iw_new_only w = []" "iw_saved w = S" "iw_work w = S" "iw_vectors w = V"
    and i: "dm_id d = i" and drafts: "map sd_index drafts = [0..<length drafts]"
    and existing: "existing = list_document_chunks i S" and size: "0 < eb_size (sv_batcher sv)"
    and Q: "\<And>ps r w'. published i S V (ic_id ` set existing) ps w' \<Longrightarrow> map p_id ps = ids \<Longrightarrow> ir_points r = ids \<Longrightarrow>
        points_for sv d drafts ps \<Longrightarrow> retired i S (ic_id ` set existing) ps (iw_vectors w') \<Longrightarrow> fully_indexed i (iw_saved w') \<Longrightarrow> Q r w'"
    and E: "\<And>e w'. unpublished S V (ic_id ` set existing) (set ids) w' \<Longrightarrow> E e w'"
    and E': "\<And>e ps w'. published i S V (ic_id ` set existing) ps w' \<Longrightarrow> map p_id ps = ids \<Longrightarrow> E e w'"
  shows "wp (publish env sv d drafts existing) Q E w"
proof -
  let ?ex = "ic_id ` set existing" and ?cs = "map (new_chunk sv d) drafts" and ?ft = "ie_fault env"
  have un: "unpublished S V ?ex (set ids) w" using w by (simp add: unpublished_def)
  have idx: "map ic_index ?cs = [0..<length drafts]" using drafts by (simp add: comp_def)
  show ?thesis
    unfolding publish_def Let_def wp_bind
  proof (rule wp_emb)
    fix s r assume e: "embed (ie_emb env) (sv_batcher sv) (map sd_content drafts) (iw_emb w) = (s, Inr r)"
    let ?w1 = "w\<lparr>iw_emb := s\<rparr>"
    let ?ps = "map (\<lambda>(c, v). point_of sv d c v) (zip ?cs (br_vectors r))"
    let ?cur = "nub (map p_id ?ps)" and ?exl = "nub (map ic_id existing)"
    have pid: "map p_id ?ps = ids"
      using embed_count [OF e size] by (subst map_points_id) (simp_all add: ids_def comp_def)
    have setids: "set ids = p_id ` set ?ps" by (simp only: pid [symmetric] set_map)
    have eqids: "map ic_id ?cs = map p_id ?ps" by (simp only: pid) (simp only: ids_def map_map comp_def)
    show "wp (if \<exists>v \<in> set (br_vectors r). int (length v) \<noteq> sv_dim sv then
         eraise (ProviderResponseError ''embedding'' ''vector dimensions do not match configured size'')
       else ebind (vec_call ?ft (ensure_collection (sv_dim sv))) (\<lambda>u.
         ebind (elocal (\<lambda>w. w\<lparr>iw_new_only := minus_ids ?cur ?exl\<rparr>)) (\<lambda>u.
         ebind (vec_call ?ft (vs_upsert ?ps)) (\<lambda>u.
         ebind (if replace_required existing ?cs then switch_chunks ?ft sv d ?cs else ereturn ()) (\<lambda>u.
         ebind (icommit ?ft) (\<lambda>u.
         ebind (elocal (\<lambda>w. w\<lparr>iw_switched := True\<rparr>)) (\<lambda>u.
         ebind (retire_points ?ft d ?exl ?cur) (\<lambda>u.
         ebind (modify ?ft (set_chunk_vector_status (dm_id d) ''indexed'')) (\<lambda>u.
         ebind (modify ?ft (set_document_index_status (dm_id d) ''indexed'')) (\<lambda>u.
         ebind (icommit ?ft) (\<lambda>u.
         ereturn \<lparr>ir_document = dm_id d, ir_version = dm_version d, ir_chunks = length ?cs, ir_hits = br_hits r,
           ir_embedded = br_embedded r, ir_model = sv_model sv, ir_embedding_version = sv_version sv,
           ir_cost = br_cost r, ir_points = map ic_id ?cs\<rparr>))))))))))) Q E ?w1"
    proof (cases "\<exists>v \<in> set (br_vectors r). int (length v) \<noteq> sv_dim sv")
      case True
      then show ?thesis using E [of ?w1] un by simp
    next
      case False
      have pf: "points_for sv d drafts ?ps" by (rule points_for_zip) (use False in blast)
      have cur: "set ?cur = p_id ` set ?ps" "set ?exl = ?ex" by (simp_all only: set_nub set_map)
      have "wp (vec_call ?ft (ensure_collection (sv_dim sv)))
          (\<lambda>u. wp (vec_call ?ft (vs_upsert ?ps))
            (\<lambda>u. wp (if replace_required existing ?cs then switch_chunks ?ft sv d ?cs else ereturn ())
              (\<lambda>u. wp (icommit ?ft) (\<lambda>u w. wp (retire_points ?ft d ?exl ?cur)
                 (\<lambda>u. wp (modify ?ft (set_chunk_vector_status (dm_id d) ''indexed''))
                   (\<lambda>u. wp (modify ?ft (set_document_index_status (dm_id d) ''indexed''))
                     (\<lambda>u. wp (icommit ?ft) (\<lambda>u. Q \<lparr>ir_document = dm_id d, ir_version = dm_version d, ir_chunks = length ?cs,
                        ir_hits = br_hits r, ir_embedded = br_embedded r, ir_model = sv_model sv,
                        ir_embedding_version = sv_version sv, ir_cost = br_cost r, ir_points = map ic_id ?cs\<rparr>) E) E) E) E
                 (w\<lparr>iw_switched := True\<rparr>)) E) E) E
            \<circ> (\<lambda>w. w\<lparr>iw_new_only := minus_ids ?cur ?exl\<rparr>)) E ?w1" (is "wp _ (\<lambda>u. wp _ (\<lambda>u. wp _ (\<lambda>u. wp _ (\<lambda>u w. ?rest (w\<lparr>iw_switched := True\<rparr>)) E) E) E \<circ> _) E ?w1")
      proof (rule wp_vec)
        fix a v n assume v: "ensure_collection (sv_dim sv) (iw_vectors ?w1) = (v, Inr a)"
        let ?w2 = "?w1\<lparr>iw_vectors := v, iw_tick := n, iw_new_only := minus_ids ?cur ?exl\<rparr>"
        have pts: "point_ids v = point_ids V" using ensure_ids [of "sv_dim sv" V] v w by (metis fst_conv iw_vectors_emb)
        have new: "set (minus_ids ?cur ?exl) = p_id ` set ?ps - ?ex" unfolding set_minus_ids cur ..
        have "wp (vec_call ?ft (vs_upsert ?ps))
            (\<lambda>u. wp (if replace_required existing ?cs then switch_chunks ?ft sv d ?cs else ereturn ())
              (\<lambda>u. wp (icommit ?ft) (\<lambda>u w. ?rest (w\<lparr>iw_switched := True\<rparr>)) E) E) E ?w2"
        proof (rule wp_vec)
          fix a v3 m assume up: "vs_upsert ?ps (iw_vectors ?w2) = (v3, Inr a)"
          let ?w3 = "?w2\<lparr>iw_vectors := v3, iw_tick := m\<rparr>"
          have pts3: "point_ids V \<subseteq> point_ids v3" "point_ids v3 \<subseteq> point_ids V \<union> p_id ` set ?ps"
            using upsert_ids [OF up] pts by auto
          have held: "held ?ps v3" using upsert_held [OF up] by (auto simp: held_def)
          have un3: "unpublished S V ?ex (set ids) ?w3" using pts3 new w setids by (auto simp: unpublished_def)
          have switched: "wp (icommit ?ft) (\<lambda>u w. ?rest (w\<lparr>iw_switched := True\<rparr>)) E (?w3\<lparr>iw_work := x, iw_tick := k\<rparr>)"
            if x: "chunks_ok i S (map p_id ?ps) x" for x k
          proof (rule wp_commit)
            fix l
            let ?w4 = "?w3\<lparr>iw_work := x, iw_tick := k\<rparr>"
            have p: "published i S V ?ex ?ps (?w4\<lparr>iw_saved := iw_work ?w4, iw_tick := l, iw_switched := True\<rparr>)"
              by (rule published_start) (use w x held pts3 in simp_all)
            show "?rest (?w4\<lparr>iw_saved := iw_work ?w4, iw_tick := l, iw_switched := True\<rparr>)"
              by (rule finish_wp [OF p i cur(2,1)])
                (use Q [OF _ pid _ pf] E' [OF _ pid] in \<open>simp_all add: ids_def comp_def\<close>)
          qed (use E un3 in simp)
          show "wp (if replace_required existing ?cs then switch_chunks ?ft sv d ?cs else ereturn ())
              (\<lambda>u. wp (icommit ?ft) (\<lambda>u w. ?rest (w\<lparr>iw_switched := True\<rparr>)) E) E ?w3"
          proof (cases "replace_required existing ?cs")
            case True
            have "wp (switch_chunks ?ft sv d ?cs) (\<lambda>u. wp (icommit ?ft) (\<lambda>u w. ?rest (w\<lparr>iw_switched := True\<rparr>)) E) E ?w3"
            proof (rule switch_wp)
              fix x k assume "chunks_ok (dm_id d) S (map ic_id ?cs) x"
              then have "chunks_ok i S (map p_id ?ps) x" unfolding i eqids .
              then show "wp (icommit ?ft) (\<lambda>u w. ?rest (w\<lparr>iw_switched := True\<rparr>)) E (?w3\<lparr>iw_work := x, iw_tick := k\<rparr>)"
                by (rule switched)
            qed (use w idx E un3 in auto)
            then show ?thesis using True by simp
          next
            case False
            have "chunks_ok i S (map p_id ?ps) S"
              using replace_required_ids [OF False] unfolding existing chunks_ok_def eqids by simp
            then have "wp (icommit ?ft) (\<lambda>u w. ?rest (w\<lparr>iw_switched := True\<rparr>)) E (?w3\<lparr>iw_work := S, iw_tick := m\<rparr>)"
              by (rule switched)
            moreover have "?w3\<lparr>iw_work := S, iw_tick := m\<rparr> = ?w3" using w by simp
            ultimately show ?thesis using False by simp
          qed
        next
          fix e v3 m assume "v3 = fst (vs_upsert ?ps (iw_vectors ?w2)) \<or> v3 = iw_vectors ?w2"
          then have "point_ids V \<subseteq> point_ids v3" "point_ids v3 \<subseteq> point_ids V \<union> p_id ` set ?ps"
            using upsert_ids [of ?ps v v3 "snd (vs_upsert ?ps v)"] pts by auto
          then show "E e (?w2\<lparr>iw_vectors := v3, iw_tick := m\<rparr>)"
            using new w setids by (intro E) (auto simp: unpublished_def)
        qed
        then show "(wp (vec_call ?ft (vs_upsert ?ps))
            (\<lambda>u. wp (if replace_required existing ?cs then switch_chunks ?ft sv d ?cs else ereturn ())
              (\<lambda>u. wp (icommit ?ft) (\<lambda>u w. ?rest (w\<lparr>iw_switched := True\<rparr>)) E) E) E
            \<circ> (\<lambda>w. w\<lparr>iw_new_only := minus_ids ?cur ?exl\<rparr>)) (?w1\<lparr>iw_vectors := v, iw_tick := n\<rparr>)" by simp
      next
        fix e v n assume "v = fst (ensure_collection (sv_dim sv) (iw_vectors ?w1)) \<or> v = iw_vectors ?w1"
        then have "point_ids v = point_ids V" using w by auto
        then show "E e (?w1\<lparr>iw_vectors := v, iw_tick := n\<rparr>)" using w by (intro E) (auto simp: unpublished_def)
      qed
      then show ?thesis by (simp only: False if_False wp_ext comp_def)
    qed
  qed (use E un in simp)
qed

section \<open>The handler\<close>

lemma swallow_wp:
  assumes "\<And>v n. v = fst (f (iw_vectors w)) \<or> v = iw_vectors w \<and> (\<exists>n. ft n \<noteq> None) \<Longrightarrow> Q () (w\<lparr>iw_vectors := v, iw_tick := n\<rparr>)"
  shows "wp (eswallow (vec_call ft f)) Q E w"
proof (cases "ft (iw_tick w)")
  case None
  then show ?thesis using assms [of "fst (f (iw_vectors w))"] by (simp add: wp_def eswallow_def vec_call_def itick_def)
next
  case (Some x)
  then show ?thesis
    using assms [of "fst (f (iw_vectors w))"] assms [of "iw_vectors w"]
    by (cases x) (force simp: wp_def eswallow_def vec_call_def itick_def)
qed

lemma compensate_published:
  assumes p: "published i S V ex ps w"
    and E: "\<And>e' w'. published i S V ex ps w' \<Longrightarrow>
        (\<forall>n. ie_cleanup env n = None) \<longrightarrow> (\<forall>d. get_document i (iw_saved w') = Some d \<longrightarrow> dm_index d = ''failed'') \<Longrightarrow> E e' w'"
  shows "wp (compensate env i e) Q E w"
  unfolding compensate_def Let_def wp_bind
proof (rule wp_rollback)
  fix n
  let ?ft = "ie_cleanup env" and ?w1 = "w\<lparr>iw_work := iw_saved w, iw_tick := n\<rparr>"
  have p1: "published i S V ex ps ?w1" using p by (simp add: published_def)
  have ff: "E e' w'" if "published i S V ex ps w'" "?ft k \<noteq> None" for e' w' k by (rule E [OF that(1)]) (use that(2) in auto)
  have "wp (modify ?ft (set_document_index_status i ''failed'')) (\<lambda>u. wp (icommit ?ft) (\<lambda>u. wp (eraise e) Q E) E) E ?w1"
  proof (rule wp_modify)
    fix m
    let ?w2 = "?w1\<lparr>iw_work := set_document_index_status i ''failed'' (iw_work ?w1), iw_tick := m\<rparr>"
    have p2: "published i S V ex ps ?w2" by (rule published_work [OF p1]) (use p in \<open>simp add: published_def\<close>)
    show "wp (icommit ?ft) (\<lambda>u. wp (eraise e) Q E) E ?w2"
    proof (rule wp_commit)
      fix l
      show "wp (eraise e) Q E (?w2\<lparr>iw_saved := iw_work ?w2, iw_tick := l\<rparr>)"
        unfolding wp_raise by (rule E [OF published_commit [OF p2]]) (auto simp: get_document_status)
    qed (use p2 in \<open>auto intro: ff\<close>)
  qed (use p1 in \<open>auto intro: ff\<close>)
  moreover have "iw_switched ?w1" using p by (simp add: published_def)
  ultimately show "wp (\<lambda>w. if iw_new_only w \<noteq> [] \<and> \<not> iw_switched w
        then eswallow (vec_call ?ft (delete_points (sort (iw_new_only w)))) w else ereturn () w)
      (\<lambda>u. wp (modify ?ft (set_document_index_status i ''failed'')) (\<lambda>u. wp (icommit ?ft) (\<lambda>u. wp (eraise e) Q E) E) E) E ?w1"
    by (simp add: wp_def ereturn_def)
qed (rule E, use p in auto)

lemma work_vectors: "w\<lparr>iw_work := x, iw_vectors := v, iw_tick := n\<rparr> = w\<lparr>iw_vectors := v, iw_work := x, iw_tick := n\<rparr>"
  by simp

definition untouched :: "int \<Rightarrow> ix_db \<Rightarrow> vstore \<Rightarrow> ustr set \<Rightarrow> ustr set \<Rightarrow> ix_world \<Rightarrow> bool" where
  "untouched i S V ex new w \<longleftrightarrow> iw_saved w \<in> {S, set_document_index_status i ''failed'' S}
    \<and> point_ids V - (new - ex) \<subseteq> point_ids (iw_vectors w) \<and> point_ids (iw_vectors w) \<subseteq> point_ids V \<union> ex \<union> new"

lemma compensate_unpublished:
  assumes p: "unpublished S V ex new w"
    and E: "\<And>e' w'. untouched i S V ex new w' \<Longrightarrow>
        (\<forall>n. ie_cleanup env n = None) \<longrightarrow> iw_saved w' = set_document_index_status i ''failed'' S
          \<and> point_ids (iw_vectors w') \<subseteq> point_ids V \<union> ex \<Longrightarrow> E e' w'"
  shows "wp (compensate env i e) Q E w"
  unfolding compensate_def Let_def wp_bind
proof (rule wp_rollback)
  fix n
  let ?ft = "ie_cleanup env" and ?w1 = "w\<lparr>iw_work := iw_saved w, iw_tick := n\<rparr>"
  let ?del = "\<lambda>w. if iw_new_only w \<noteq> [] \<and> \<not> iw_switched w
        then eswallow (vec_call ?ft (delete_points (sort (iw_new_only w)))) w else ereturn () w"
  have rest: "wp (modify ?ft (set_document_index_status i ''failed'')) (\<lambda>u. wp (icommit ?ft) (\<lambda>u. wp (eraise e) Q E) E) E
      (?w1\<lparr>iw_vectors := v, iw_tick := k\<rparr>)" (is "wp _ _ _ ?w2")
    if v: "point_ids V - (new - ex) \<subseteq> point_ids v" "point_ids v \<subseteq> point_ids V \<union> ex \<union> new"
      and clean: "(\<forall>n. ?ft n = None) \<longrightarrow> point_ids v \<subseteq> point_ids V \<union> ex" for v k
  proof -
    have ff: "E e' (?w2\<lparr>iw_work := x, iw_tick := m\<rparr>)" if "?ft l \<noteq> None" for l e' x m
      using p v that by (intro E) (auto simp: untouched_def unpublished_def)
    show ?thesis
    proof (rule wp_modify)
      fix m
      let ?w3 = "?w2\<lparr>iw_work := set_document_index_status i ''failed'' (iw_work ?w2), iw_tick := m\<rparr>"
      show "wp (icommit ?ft) (\<lambda>u. wp (eraise e) Q E) E ?w3"
      proof (rule wp_commit)
        fix l
        show "wp (eraise e) Q E (?w3\<lparr>iw_saved := iw_work ?w3, iw_tick := l\<rparr>)"
          unfolding wp_raise using p v clean by (intro E) (auto simp: untouched_def unpublished_def)
      next
        fix e' l assume "?ft (iw_tick ?w3) \<noteq> None"
        from ff [OF this] show "E e' (?w3\<lparr>iw_tick := l\<rparr>)" by simp
      qed
    next
      fix e' m assume "?ft (iw_tick ?w2) \<noteq> None"
      from ff [OF this, where x = "iw_saved w" and m = m] show "E e' (?w2\<lparr>iw_tick := m\<rparr>)" by (simp add: work_vectors)
    qed
  qed
  show "wp ?del (\<lambda>u. wp (modify ?ft (set_document_index_status i ''failed'')) (\<lambda>u. wp (icommit ?ft) (\<lambda>u. wp (eraise e) Q E) E) E) E ?w1"
  proof (cases "iw_new_only w = []")
    case True
    then have "wp (modify ?ft (set_document_index_status i ''failed'')) (\<lambda>u. wp (icommit ?ft) (\<lambda>u. wp (eraise e) Q E) E) E
      (?w1\<lparr>iw_vectors := iw_vectors w, iw_tick := n\<rparr>)"
      using p by (intro rest) (auto simp: unpublished_def)
    then show ?thesis using True by (simp add: wp_def ereturn_def)
  next
    case False
    let ?ids = "sort (iw_new_only w)" and ?K = "\<lambda>u. wp (modify ?ft (set_document_index_status i ''failed'')) (\<lambda>u. wp (icommit ?ft) (\<lambda>u. wp (eraise e) Q E) E) E"
    have "wp (eswallow (vec_call ?ft (delete_points ?ids))) ?K E ?w1"
    proof (rule swallow_wp)
      fix v k assume "v = fst (delete_points ?ids (iw_vectors ?w1)) \<or> v = iw_vectors ?w1 \<and> (\<exists>n. ?ft n \<noteq> None)"
      then show "?K () (?w1\<lparr>iw_vectors := v, iw_tick := k\<rparr>)"
        using p by (intro rest) (auto simp: unpublished_def delete_points_def)
    qed
    moreover have "\<not> iw_switched w" using p by (simp add: unpublished_def)
    ultimately show ?thesis using False by (simp add: wp_def)
  qed
next
  fix e' n assume "ie_cleanup env (iw_tick w) \<noteq> None"
  then show "E e' (w\<lparr>iw_tick := n\<rparr>)" using p by (intro E) (auto simp: untouched_def unpublished_def)
qed
section \<open>The keyword index of the same chunks\<close>

definition list_indexed_chunks :: "ix_db \<Rightarrow> (ix_chunk \<times> document) list" where
  "list_indexed_chunks x =
    concat (map (\<lambda>(k, d). if dm_final d = ''approved'' \<and> dm_index d = ''indexed''
        then map (\<lambda>c. (c, d)) (filter (\<lambda>c. ic_status c = ''indexed'') (list_document_chunks k x)) else [])
      (sort_key fst (ds_docs (xd_docs x))))"

definition bm25_document :: "(int \<Rightarrow> (pyval \<times> pyval) option) \<Rightarrow> ix_chunk \<times> document \<Rightarrow> bm25_doc" where
  "bm25_document source cd = (case cd of (c, d) \<Rightarrow>
    \<lparr>b_chunk = ic_id c, b_document = text_of (attr d ''document_id''), b_title = text_of (attr d ''title''),
     b_content = ic_content c, b_url = text_of (attr d ''source_url''),
     b_meta = filter (\<lambda>(k, v). v \<noteq> PNone)
       [(''source_id'', PInt (dm_source d)),
        (''source_name'', case source (dm_source d) of Some (n, s) \<Rightarrow> n | None \<Rightarrow> PNone),
        (''official_status'', case source (dm_source d) of Some (n, s) \<Rightarrow> s | None \<Rightarrow> PNone),
        (''region'', attr d ''region''), (''city'', attr d ''city''), (''document_type'', attr d ''document_type''),
        (''issuing_authority'', attr d ''issuing_authority''), (''document_number'', attr d ''document_number''),
        (''publish_date'', isoformat_or_none (attr d ''publish_date'')),
        (''document_version'', PInt (int (dm_version d))), (''section_path'', opt_str (ic_path c)),
        (''section_title'', opt_str (ic_title c)),
        (''page_number'', case ic_page c of Some n \<Rightarrow> PInt (int n) | None \<Rightarrow> PNone)]\<rparr>)"

definition build_index :: "(int \<Rightarrow> (pyval \<times> pyval) option) \<Rightarrow> ix_db \<Rightarrow> bm25_index" where
  "build_index source x = rebuild (map (bm25_document source) (list_indexed_chunks x))"

definition invalidate_document :: "faults \<Rightarrow> (int \<Rightarrow> (pyval \<times> pyval) option) \<Rightarrow> int \<Rightarrow> bm25_index ix" where
  "invalidate_document ft source i =
    ebind (query ft (vector_point_ids_for_document i)) (\<lambda>ids.
    ebind (if ids \<noteq> [] then vec_call ft (delete_points (sort ids)) else ereturn ()) (\<lambda>u.
    ebind (modify ft (set_chunk_vector_status i ''stale'')) (\<lambda>u.
    ebind (icommit ft) (\<lambda>u.
    query ft (build_index source)))))"

section \<open>All outcomes\<close>

text \<open>The ids of the chunks the content of the document asks for.\<close>

definition desired_ids :: "indexing_service \<Rightarrow> int \<Rightarrow> ix_db \<Rightarrow> ustr list" where
  "desired_ids sv i x = (case get_document i x of None \<Rightarrow> []
    | Some d \<Rightarrow> map (\<lambda>s. ic_id (new_chunk sv d s)) (source_drafts sv d (list_indexable_attachments i x)))"

definition marked :: "int \<Rightarrow> ix_db \<Rightarrow> ix_db" where
  "marked i x = set_document_index_status i ''indexing'' x"

definition current_chunks :: "int \<Rightarrow> ix_db \<Rightarrow> ustr set" where
  "current_chunks i x = ic_id ` set (list_document_chunks i x)"

definition published_version :: "indexing_service \<Rightarrow> int \<Rightarrow> ix_db \<Rightarrow> vstore \<Rightarrow> vpoint list \<Rightarrow> ix_world \<Rightarrow> bool" where
  "published_version sv i X V ps w \<longleftrightarrow>
    published i (marked i X) V (current_chunks i X) ps w \<and> map p_id ps = desired_ids sv i X"

definition failed_status :: "int \<Rightarrow> ix_db \<Rightarrow> bool" where
  "failed_status i x \<longleftrightarrow> (\<forall>d. get_document i x = Some d \<longrightarrow> dm_index d = ''failed'')"

lemma failed_status_set: "failed_status i (set_document_index_status i ''failed'' x)"
  by (auto simp: failed_status_def get_document_status)

lemma marked_frame [simp]:
  "list_document_chunks i (marked j x) = list_document_chunks i x" "lineage_points i (marked j x) = lineage_points i x"
  "xd_chunks (marked j x) = xd_chunks x" "xd_lineage (marked j x) = xd_lineage x"
  "xd_attachments (marked j x) = xd_attachments x"
  by (simp_all add: marked_def set_document_index_status_def list_document_chunks_def lineage_points_def)

lemma index_wp:
  assumes fresh: "iw_work w = X" "iw_saved w = X" "iw_vectors w = V"
    and keyed: "\<And>d. get_document i X = Some d \<Longrightarrow> dm_id d = i" and size: "0 < eb_size (sv_batcher sv)"
    and Q: "\<And>d ps r w'. get_document i X = Some d \<Longrightarrow> dm_final d = ''approved'' \<Longrightarrow> published_version sv i X V ps w' \<Longrightarrow>
        points_for sv d (source_drafts sv d (list_indexable_attachments i X)) ps \<Longrightarrow>
        ir_points r = desired_ids sv i X \<Longrightarrow> desired_ids sv i X \<noteq> [] \<Longrightarrow>
        retired i (marked i X) (current_chunks i X) ps (iw_vectors w') \<Longrightarrow> fully_indexed i (iw_saved w') \<Longrightarrow> Q r w'"
    and none: "\<And>e w'. iw_saved w' = X \<Longrightarrow> iw_vectors w' = V \<Longrightarrow> E e w'"
    and pre: "\<And>e w'. untouched i (marked i X) V (current_chunks i X) (set (desired_ids sv i X)) w' \<Longrightarrow>
        (\<forall>n. ie_cleanup env n = None) \<longrightarrow> failed_status i (iw_saved w')
          \<and> point_ids (iw_vectors w') \<subseteq> point_ids V \<union> current_chunks i X \<Longrightarrow> E e w'"
    and post: "\<And>e ps w'. published_version sv i X V ps w' \<Longrightarrow>
        (\<forall>n. ie_cleanup env n = None) \<longrightarrow> failed_status i (iw_saved w') \<Longrightarrow> E e w'"
  shows "wp (index_document env sv i) Q E w"
  unfolding index_document_def Let_def wp_bind
proof (rule wp_query)
  fix n
  let ?ft = "ie_fault env" and ?w1 = "w\<lparr>iw_tick := n\<rparr>"
  have none': "E e w'" if "iw_saved w' = X" "iw_vectors w' = V" for e w' using none that by blast
  show "wp (case get_document i (iw_work w) of None \<Rightarrow> eraise (NotFoundError ''Document'')
      | Some d \<Rightarrow> if dm_final d \<noteq> ''approved'' then eraise (ConflictError ''Only approved documents can be indexed'')
        else ebind (query ?ft (list_indexable_attachments (dm_id d))) (\<lambda>atts.
          if source_drafts sv d atts = [] then eraise (ConflictError ''Document content did not produce any indexable chunks'')
          else ebind (query ?ft (list_document_chunks (dm_id d))) (\<lambda>existing.
            ebind (modify ?ft (set_document_index_status (dm_id d) ''indexing'')) (\<lambda>u.
            ebind (icommit ?ft) (\<lambda>u.
            ebind (elocal (\<lambda>w. w\<lparr>iw_switched := False, iw_new_only := []\<rparr>)) (\<lambda>u.
            ecatch (publish env sv d (source_drafts sv d atts) existing) (compensate env (dm_id d)))))))) Q E ?w1"
  proof (cases "get_document i X")
    case None
    then show ?thesis using fresh none' by simp
  next
    case (Some d)
    note di = keyed [OF Some]
    let ?drafts = "source_drafts sv d (list_indexable_attachments i X)" and ?S = "marked i X" and ?ex = "list_document_chunks i X"
    have ids: "desired_ids sv i X = map (\<lambda>s. ic_id (new_chunk sv d s)) ?drafts" using Some by (simp add: desired_ids_def)
    have main: "wp (ecatch (publish env sv d ?drafts ?ex) (compensate env i)) Q E w5"
      if w5: "\<not> iw_switched w5" "iw_new_only w5 = []" "iw_saved w5 = ?S" "iw_work w5 = ?S" "iw_vectors w5 = V"
        and nonempty: "?drafts \<noteq> []" and ok: "dm_final d = ''approved''" for w5
      unfolding wp_catch
    proof (rule publish_wp [OF w5 di source_drafts_index _ size])
      show "?ex = list_document_chunks i ?S" by simp
    next
      fix ps and r :: indexing_result and w'
      assume "published i ?S V (ic_id ` set ?ex) ps w'" "map p_id ps = map (\<lambda>s. ic_id (new_chunk sv d s)) ?drafts"
        "ir_points r = map (\<lambda>s. ic_id (new_chunk sv d s)) ?drafts" "points_for sv d ?drafts ps"
        "retired i ?S (ic_id ` set ?ex) ps (iw_vectors w')" "fully_indexed i (iw_saved w')"
      then show "Q r w'" using nonempty ok Some
        by (intro Q [of d ps]) (simp_all add: published_version_def ids current_chunks_def)
    next
      fix e w' assume u: "unpublished ?S V (ic_id ` set ?ex) (set (map (\<lambda>s. ic_id (new_chunk sv d s)) ?drafts)) w'"
      show "wp (compensate env i e) Q E w'"
        by (rule compensate_unpublished [OF u, where i = i])
          (rule pre, simp_all add: ids current_chunks_def failed_status_set)
    next
      fix e ps w' assume p: "published i ?S V (ic_id ` set ?ex) ps w'" "map p_id ps = map (\<lambda>s. ic_id (new_chunk sv d s)) ?drafts"
      show "wp (compensate env i e) Q E w'"
        by (rule compensate_published [OF p(1)])
          (rule post [where ps = ps], simp_all add: published_version_def ids p(2) current_chunks_def failed_status_def)
    qed
    show ?thesis
    proof (cases "dm_final d = ''approved''")
      case False
      then show ?thesis using Some fresh none' by simp
    next
      case True
      have "wp (query ?ft (list_indexable_attachments i)) (\<lambda>atts.
          wp (if source_drafts sv d atts = [] then eraise (ConflictError ''Document content did not produce any indexable chunks'')
          else ebind (query ?ft (list_document_chunks i)) (\<lambda>existing.
            ebind (modify ?ft (set_document_index_status i ''indexing'')) (\<lambda>u.
            ebind (icommit ?ft) (\<lambda>u.
            ebind (elocal (\<lambda>w. w\<lparr>iw_switched := False, iw_new_only := []\<rparr>)) (\<lambda>u.
            ecatch (publish env sv d (source_drafts sv d atts) existing) (compensate env i)))))) Q E) E ?w1"
      proof (rule wp_query)
        fix m
        show "wp (if source_drafts sv d (list_indexable_attachments i (iw_work ?w1)) = []
            then eraise (ConflictError ''Document content did not produce any indexable chunks'')
            else ebind (query ?ft (list_document_chunks i)) (\<lambda>existing.
              ebind (modify ?ft (set_document_index_status i ''indexing'')) (\<lambda>u.
              ebind (icommit ?ft) (\<lambda>u.
              ebind (elocal (\<lambda>w. w\<lparr>iw_switched := False, iw_new_only := []\<rparr>)) (\<lambda>u.
              ecatch (publish env sv d (source_drafts sv d (list_indexable_attachments i (iw_work ?w1))) existing)
                (compensate env i)))))) Q E (?w1\<lparr>iw_tick := m\<rparr>)"
        proof (cases "?drafts = []")
          case True
          then show ?thesis using fresh none' by simp
        next
          case False
          have "wp (query ?ft (list_document_chunks i)) (\<lambda>existing. wp (modify ?ft (set_document_index_status i ''indexing''))
              (\<lambda>u. wp (icommit ?ft) (\<lambda>u w. wp (ecatch (publish env sv d ?drafts existing) (compensate env i)) Q E
                 (w\<lparr>iw_switched := False, iw_new_only := []\<rparr>)) E) E) E (?w1\<lparr>iw_tick := m\<rparr>)"
            by (rule wp_query, rule wp_modify, rule wp_commit)
              (use fresh none' main [OF _ _ _ _ _ False True] in \<open>simp_all add: marked_def\<close>)
          then show ?thesis using False fresh by (simp add: wp_ext del: wp_bind wp_catch)
        qed
      qed (use fresh none' in simp)
      then show ?thesis by (simp only: fresh(1) Some option.case di True simp_thms if_False wp_bind)
    qed
  qed
qed (use fresh none in simp)

section \<open>Properties\<close>

definition backed :: "ix_db \<Rightarrow> vstore \<Rightarrow> bool" where
  "backed x v \<longleftrightarrow> (\<forall>c \<in> set (xd_chunks x). ic_status c = ''indexed'' \<longrightarrow> ic_id c \<in> point_ids v)"

lemma indexed_chunks_mem: "cd \<in> set (list_indexed_chunks x) \<Longrightarrow> fst cd \<in> set (xd_chunks x) \<and> ic_status (fst cd) = ''indexed''"
  by (auto simp: list_indexed_chunks_def list_document_chunks_def split: if_splits)

lemma backed_build: "backed x v \<Longrightarrow> b \<in> set (bi_docs (build_index source x)) \<Longrightarrow> b_chunk b \<in> point_ids v"
proof -
  assume b: "backed x v" and "b \<in> set (bi_docs (build_index source x))"
  then have "b \<in> bm25_document source ` set (list_indexed_chunks x)" by (simp add: build_index_def rebuild_def Let_def)
  then obtain cd where cd: "cd \<in> set (list_indexed_chunks x)" "b = bm25_document source cd" by blast
  have "b_chunk (bm25_document source (c, d)) = ic_id c" for c d by (simp add: bm25_document_def del: filter.simps)
  then have "b_chunk b = ic_id (fst cd)" using cd(2) by (metis prod.collapse)
  then show ?thesis using b indexed_chunks_mem [OF cd(1)] by (simp add: backed_def)
qed

lemma backed_of_published:
  assumes p: "published_version sv i X V ps w" and b: "backed X V"
    and sep: "\<forall>c \<in> set (xd_chunks X). ic_document c \<noteq> i \<longrightarrow>
        ic_id c \<notin> set (desired_ids sv i X) \<union> set (vector_point_ids_for_document i X)"
  shows "backed (iw_saved w) (iw_vectors w)"
  unfolding backed_def
proof (intro ballI impI)
  fix c assume c: "c \<in> set (xd_chunks (iw_saved w))" "ic_status c = ''indexed''"
  have ok: "chunks_ok i (marked i X) (desired_ids sv i X) (iw_saved w)" and held: "held ps (iw_vectors w)"
    and ids: "map p_id ps = desired_ids sv i X"
    and keep: "point_ids V - current_chunks i X - set (lineage_points i X) \<subseteq> point_ids (iw_vectors w)"
    using p by (auto simp: published_version_def published_def)
  show "ic_id c \<in> point_ids (iw_vectors w)"
  proof (cases "ic_document c = i")
    case True
    then have "c \<in> set (list_document_chunks i (iw_saved w))" using c(1) by (simp add: list_document_chunks_def)
    then have "ic_id c \<in> set (map ic_id (list_document_chunks i (iw_saved w)))" by simp
    then have "ic_id c \<in> set (map p_id ps)" using ok ids by (simp only: chunks_ok_def)
    then obtain p where "dget (vs_points (iw_vectors w)) (ic_id c) = Some p" using held by (auto simp: held_def)
    then show ?thesis by (rule dget_point_ids)
  next
    case False
    then have "c \<in> set (filter (\<lambda>c. ic_document c \<noteq> i) (xd_chunks (iw_saved w)))" using c(1) by simp
    then have "c \<in> set (filter (\<lambda>c. ic_document c \<noteq> i) (xd_chunks (marked i X)))" using ok by (simp only: chunks_ok_def)
    then have X: "c \<in> set (xd_chunks X)" by simp
    then have "ic_id c \<in> point_ids V" using b c(2) by (auto simp: backed_def)
    moreover have "ic_id c \<notin> set (vector_point_ids_for_document i X)" using sep X False by blast
    then have "ic_id c \<notin> current_chunks i X \<union> set (lineage_points i X)"
      by (auto simp: vector_point_ids_for_document_def current_chunks_def list_document_chunks_def)
    ultimately show ?thesis using keep by blast
  qed
qed

lemma backed_of_untouched:
  assumes u: "untouched i (marked i X) V (current_chunks i X) (set (desired_ids sv i X)) w" and b: "backed X V"
    and sep: "\<forall>c \<in> set (xd_chunks X). ic_document c \<noteq> i \<longrightarrow>
        ic_id c \<notin> set (desired_ids sv i X) \<union> set (vector_point_ids_for_document i X)"
  shows "backed (iw_saved w) (iw_vectors w)"
  unfolding backed_def
proof (intro ballI impI)
  fix c assume c: "c \<in> set (xd_chunks (iw_saved w))" "ic_status c = ''indexed''"
  have "xd_chunks (iw_saved w) = xd_chunks X"
    using u by (auto simp: untouched_def set_document_index_status_def marked_def)
  then have X: "c \<in> set (xd_chunks X)" using c by simp
  then have V: "ic_id c \<in> point_ids V" using b c(2) by (auto simp: backed_def)
  have "ic_id c \<notin> set (desired_ids sv i X) - current_chunks i X"
    using sep X by (cases "ic_document c = i") (auto simp: current_chunks_def list_document_chunks_def)
  then show "ic_id c \<in> point_ids (iw_vectors w)" using V u by (auto simp: untouched_def)
qed

text \<open>
  C4. Whatever fails while a document is indexed (the embedding, any statement or commit, any
  call of the vector store, carried out or not, and every step of the clean-up), the two stores
  stay consistent: every chunk that the committed database calls indexed still has its point in
  the vector store, so every chunk of the rebuilt keyword index does; the chunks of the document
  are the old or the new ones, never a mixture; and no row of another document's chunks changes.
\<close>

theorem index_consistent:
  assumes fresh: "iw_work w = iw_saved w" and keyed: "\<forall>d. get_document i (iw_saved w) = Some d \<longrightarrow> dm_id d = i"
    and size: "0 < eb_size (sv_batcher sv)" and backed: "backed (iw_saved w) (iw_vectors w)"
    and separate: "\<forall>c \<in> set (xd_chunks (iw_saved w)). ic_document c \<noteq> i \<longrightarrow>
        ic_id c \<notin> set (desired_ids sv i (iw_saved w)) \<union> set (vector_point_ids_for_document i (iw_saved w))"
    and run: "index_document env sv i w = (w', r)"
  shows "backed (iw_saved w') (iw_vectors w')
    \<and> (\<forall>b \<in> set (bi_docs (build_index (sv_source sv) (iw_saved w'))). b_chunk b \<in> point_ids (iw_vectors w'))
    \<and> (list_document_chunks i (iw_saved w') = list_document_chunks i (iw_saved w)
       \<or> map ic_id (list_document_chunks i (iw_saved w')) = desired_ids sv i (iw_saved w))
    \<and> filter (\<lambda>c. ic_document c \<noteq> i) (xd_chunks (iw_saved w')) = filter (\<lambda>c. ic_document c \<noteq> i) (xd_chunks (iw_saved w))"
proof -
  let ?X = "iw_saved w" and ?V = "iw_vectors w"
  let ?ok = "\<lambda>w'. backed (iw_saved w') (iw_vectors w') \<and> (list_document_chunks i (iw_saved w') = list_document_chunks i ?X
       \<or> map ic_id (list_document_chunks i (iw_saved w')) = desired_ids sv i ?X)
    \<and> filter (\<lambda>c. ic_document c \<noteq> i) (xd_chunks (iw_saved w')) = filter (\<lambda>c. ic_document c \<noteq> i) (xd_chunks ?X)"
  have p: "?ok w'" if "published_version sv i ?X ?V ps w'" for ps w'
    using backed_of_published [OF that backed separate] that
    by (auto simp: published_version_def published_def chunks_ok_def)
  have u: "?ok w'" if "untouched i (marked i ?X) ?V (current_chunks i ?X) (set (desired_ids sv i ?X)) w'" for w'
    using backed_of_untouched [OF that backed separate] that
    by (auto simp: untouched_def marked_def set_document_index_status_def list_document_chunks_def)
  have "wp (index_document env sv i) (\<lambda>r. ?ok) (\<lambda>e. ?ok) w"
    by (rule index_wp [OF fresh refl refl _ size]) (use keyed backed p u in auto)
  then have "?ok w'" using run by (cases r) (auto simp: wp_def)
  then show ?thesis using backed_build by blast
qed


text \<open>
  C16. When indexing raises and the clean-up itself is not disturbed, the document is left in
  one of three states: nothing was committed and the vector store is as it was; or the document
  is marked as failed with the old chunks and lineage and no point is left in the vector store
  but earlier ones and those of the old chunks; or, when the new chunks had been committed, it
  is marked as failed with exactly the new chunks and their points stored.
\<close>

theorem indexing_failure_contained:
  assumes fresh: "iw_work w = iw_saved w" and keyed: "\<forall>d. get_document i (iw_saved w) = Some d \<longrightarrow> dm_id d = i"
    and size: "0 < eb_size (sv_batcher sv)" and clean: "\<forall>n. ie_cleanup env n = None"
    and run: "index_document env sv i w = (w', Inl e)"
  shows "iw_saved w' = iw_saved w \<and> iw_vectors w' = iw_vectors w
    \<or> failed_status i (iw_saved w') \<and> xd_chunks (iw_saved w') = xd_chunks (iw_saved w)
      \<and> xd_lineage (iw_saved w') = xd_lineage (iw_saved w)
      \<and> point_ids (iw_vectors w') \<subseteq> point_ids (iw_vectors w) \<union> current_chunks i (iw_saved w)
    \<or> failed_status i (iw_saved w') \<and> map ic_id (list_document_chunks i (iw_saved w')) = desired_ids sv i (iw_saved w)
      \<and> set (desired_ids sv i (iw_saved w)) \<subseteq> point_ids (iw_vectors w')"
  (is "?P w'")
proof -
  have pub: "?P w'" if "published_version sv i (iw_saved w) (iw_vectors w) ps w'" "failed_status i (iw_saved w')" for ps w'
  proof -
    have ids: "map p_id ps = desired_ids sv i (iw_saved w)" and held: "held ps (iw_vectors w')"
      and chunks: "map ic_id (list_document_chunks i (iw_saved w')) = desired_ids sv i (iw_saved w)"
      using that by (auto simp: published_version_def published_def chunks_ok_def)
    have "set (desired_ids sv i (iw_saved w)) = p_id ` set ps" by (simp only: ids [symmetric] set_map)
    then have "set (desired_ids sv i (iw_saved w)) \<subseteq> point_ids (iw_vectors w')"
      using held dget_point_ids unfolding held_def by blast
    then show ?thesis using that(2) chunks by blast
  qed
  have "wp (index_document env sv i) (\<lambda>r w'. True) (\<lambda>e w'. ?P w') w"
  proof (rule index_wp [OF fresh refl refl _ size])
    fix e w' assume u: "untouched i (marked i (iw_saved w)) (iw_vectors w) (current_chunks i (iw_saved w))
        (set (desired_ids sv i (iw_saved w))) w'"
      and c: "(\<forall>n. ie_cleanup env n = None) \<longrightarrow> failed_status i (iw_saved w')
          \<and> point_ids (iw_vectors w') \<subseteq> point_ids (iw_vectors w) \<union> current_chunks i (iw_saved w)"
    have "xd_chunks (iw_saved w') = xd_chunks (iw_saved w)" "xd_lineage (iw_saved w') = xd_lineage (iw_saved w)"
      using u by (auto simp: untouched_def marked_def set_document_index_status_def)
    then show "?P w'" using c clean by blast
  next
    fix e ps w' assume "published_version sv i (iw_saved w) (iw_vectors w) ps w'"
      "(\<forall>n. ie_cleanup env n = None) \<longrightarrow> failed_status i (iw_saved w')"
    then show "?P w'" using clean by (intro pub) blast+
  qed (use keyed in auto)
  then show ?thesis using run by (simp add: wp_def)
qed


section \<open>A document of one chunk\<close>

definition sample_document :: document where
  "sample_document = \<lparr>dm_id = 5, dm_source = 1, dm_column = None, dm_canonical = asc ''u'',
     dm_attrs = [(''content'', PStr (asc ''aaa'')), (''document_id'', PStr (asc ''d5''))], dm_quality = None,
     dm_rule = ''accept'', dm_llm = ''approve'', dm_manual = ''pending'', dm_final = ''approved'',
     dm_index = ''pending'', dm_version = 1, dm_last_crawl = 0\<rparr>"

definition sample_service :: indexing_service where
  "sample_service = \<lparr>sv_chunking = \<lparr>ck_target = 4, ck_min = 1, ck_max = 4, ck_overlap = 0\<rparr>,
     sv_batcher = \<lparr>eb_size = 2, eb_cost = 0, eb_key = (\<lambda>t. t)\<rparr>, sv_provider = asc ''p'', sv_model = asc ''m'', sv_dim = 1,
     sv_version = asc ''v1'', sv_sha = (\<lambda>t. t), sv_point_id = (\<lambda>(_, v, _, _, k, _). [int v, int k]), sv_source = (\<lambda>_. None)\<rparr>"

definition sample_world :: ix_world where
  "sample_world = (let x = \<lparr>xd_docs = \<lparr>ds_docs = [(5, sample_document)], ds_versions = [], ds_lineage = [], ds_next = 1,
        ds_stale_chunks = []\<rparr>, xd_chunks = [], xd_lineage = [], xd_attachments = [], xd_next = 1\<rparr>
     in \<lparr>iw_saved = x, iw_work = x, iw_vectors = \<lparr>vs_points = [], vs_dim = None\<rparr>,
          iw_emb = \<lparr>es_cache = [], es_tick = 0\<rparr>, iw_tick = 0, iw_switched = False, iw_new_only = []\<rparr>)"

definition sample_env :: "nat \<Rightarrow> ix_env" where
  "sample_env k = \<lparr>ie_fault = (\<lambda>n. if n = k then Some (OtherError ''DBAPIError'', True) else None), ie_cleanup = (\<lambda>n. None),
     ie_emb = \<lparr>ee_get_fault = (\<lambda>n. None), ee_set_fault = (\<lambda>n. None), ee_provider = (\<lambda>n ts. Inr (map (\<lambda>t. [1]) ts))\<rparr>\<rparr>"

lemma sample_keyed: "iw_work sample_world = iw_saved sample_world"
  "\<forall>d. get_document 5 (iw_saved sample_world) = Some d \<longrightarrow> dm_id d = 5"
  "0 < eb_size (sv_batcher sample_service)" "backed (iw_saved sample_world) (iw_vectors sample_world)"
  by (simp_all add: sample_world_def Let_def get_document_def sample_document_def sample_service_def backed_def)

lemma sample_separate: "\<forall>c \<in> set (xd_chunks (iw_saved sample_world)). P c"
  by (simp add: sample_world_def Let_def)

lemma index_consistent_witness:
  "backed (iw_saved (fst (index_document (sample_env 12) sample_service 5 sample_world)))
     (iw_vectors (fst (index_document (sample_env 12) sample_service 5 sample_world)))"
  using index_consistent [OF sample_keyed sample_separate, of "sample_env 12"] by (metis prod.collapse)


lemma indexing_failure_contained_witness:
  "\<exists>w' e. index_document (sample_env 8) sample_service 5 sample_world = (w', Inl e)
     \<and> (iw_saved w' = iw_saved sample_world \<or> failed_status 5 (iw_saved w'))"
proof -
  have "isl (snd (index_document (sample_env 8) sample_service 5 sample_world))" by code_simp
  then obtain w' e where r: "index_document (sample_env 8) sample_service 5 sample_world = (w', Inl e)"
    by (cases "index_document (sample_env 8) sample_service 5 sample_world"; cases "snd (index_document (sample_env 8) sample_service 5 sample_world)") auto
  have "\<forall>n. ie_cleanup (sample_env 8) n = None" by (simp add: sample_env_def)
  from indexing_failure_contained [OF sample_keyed(1-3) this r] r show ?thesis by blast
qed


end
