(* ===== verification/IpAddress.thy ===== *)
theory IpAddress
  imports PyText PyValues "HOL-Library.Word"
begin

text \<open>
  The part of Python's \<open>ipaddress\<close> module that \<open>crawler/urls.py\<close> and \<open>crawler/dns.py\<close> use (version
  3.12, the one of the image): parsing and printing of IPv4 and IPv6 addresses and their
  classification, with the addresses as machine words. A network is its address and the length of
  its prefix. The check \<open>_ensure_public_address\<close> of the program is defined on top.
\<close>

section \<open>Parsing\<close>

definition py_partition :: "int \<Rightarrow> ustr \<Rightarrow> ustr \<times> bool \<times> ustr" where
  "py_partition c s = (takeWhile (\<lambda>d. d \<noteq> c) s, c \<in> set s, tl (dropWhile (\<lambda>d. d \<noteq> c) s))"

definition py_rpartition :: "int \<Rightarrow> ustr \<Rightarrow> ustr \<times> bool \<times> ustr" where
  "py_rpartition c s =
    (if c \<in> set s then (rev (tl (dropWhile (\<lambda>d. d \<noteq> c) (rev s))), True, rev (takeWhile (\<lambda>d. d \<noteq> c) (rev s)))
     else ([], False, s))"

definition ascii_digit :: "int \<Rightarrow> bool" where
  "ascii_digit c \<longleftrightarrow> 48 \<le> c \<and> c \<le> 57"

definition int_of_digits :: "ustr \<Rightarrow> int" where
  "int_of_digits s = foldl (\<lambda>n c. 10 * n + (c - 48)) 0 s"

definition hex_value :: "int \<Rightarrow> int option" where
  "hex_value c = (if ascii_digit c then Some (c - 48) else if 97 \<le> c \<and> c \<le> 102 then Some (c - 87)
     else if 65 \<le> c \<and> c \<le> 70 then Some (c - 55) else None)"

definition hex_digit :: "int \<Rightarrow> bool" where
  "hex_digit c \<longleftrightarrow> hex_value c \<noteq> None"

definition int_of_hex :: "ustr \<Rightarrow> int" where
  "int_of_hex s = foldl (\<lambda>n c. 16 * n + the (hex_value c)) 0 s"

function hex_of :: "nat \<Rightarrow> ustr" where
  "hex_of n = (if n < 16 then [if n < 10 then 48 + int n else 87 + int n]
     else hex_of (n div 16) @ [if n mod 16 < 10 then 48 + int (n mod 16) else 87 + int (n mod 16)])"
  by pat_completeness auto
termination
  by (relation "measure (\<lambda>n. n)") auto

declare hex_of.simps [simp del]

datatype ip_addr = IPv4 "32 word" | IPv6 "128 word" "ustr option"

definition parse_octet :: "ustr \<Rightarrow> int option" where
  "parse_octet s =
    (if s = [] \<or> \<not> list_all ascii_digit s \<or> 3 < length s \<or> s \<noteq> [48] \<and> hd s = 48 then None
     else if 255 < int_of_digits s then None else Some (int_of_digits s))"

definition parse_v4 :: "ustr \<Rightarrow> 32 word option" where
  "parse_v4 s =
    (case map parse_octet (split_on 46 s) of
       [Some a, Some b, Some c, Some d] \<Rightarrow> Some (word_of_int (((a * 256 + b) * 256 + c) * 256 + d))
     | _ \<Rightarrow> None)"

definition parse_hextet :: "ustr \<Rightarrow> int option" where
  "parse_hextet s = (if s = [] \<or> \<not> list_all hex_digit s \<or> 4 < length s then None else Some (int_of_hex s))"

text \<open>The parts between the colons, a final IPv4 address rendered as two of them.\<close>

definition v6_parts :: "ustr \<Rightarrow> ustr list option" where
  "v6_parts s =
    (let parts = split_on 58 s in
     if length parts < 3 then None
     else if 46 \<in> set (last parts) then
       map_option (\<lambda>w. butlast parts @ [hex_of (unat w div 65536), hex_of (unat w mod 65536)]) (parse_v4 (last parts))
     else Some parts)"

definition all_some :: "'a option list \<Rightarrow> 'a list option" where
  "all_some xs = (if None \<in> set xs then None else Some (map the xs))"

definition hextets :: "ustr list \<Rightarrow> int list option" where
  "hextets parts =
    (if 9 < length parts then None
     else case filter (\<lambda>i. parts ! i = []) [1..<length parts - 1] of
       [] \<Rightarrow> if length parts \<noteq> 8 \<or> hd parts = [] \<or> last parts = [] then None else all_some (map parse_hextet parts)
     | [k] \<Rightarrow>
         (let hi = if hd parts = [] then k - 1 else k; n = length parts - k - 1;
              lo = if last parts = [] then n - 1 else n in
          if hd parts = [] \<and> hi \<noteq> 0 \<or> last parts = [] \<and> lo \<noteq> 0 \<or> 7 < hi + lo then None
          else case (all_some (map parse_hextet (take hi parts)),
                     all_some (map parse_hextet (drop (length parts - lo) parts))) of
            (Some a, Some b) \<Rightarrow> Some (a @ replicate (8 - (hi + lo)) 0 @ b)
          | _ \<Rightarrow> None)
     | _ \<Rightarrow> None)"

definition parse_v6 :: "ustr \<Rightarrow> 128 word option" where
  "parse_v6 s = map_option (\<lambda>hs. word_of_int (foldl (\<lambda>n h. 65536 * n + h) 0 hs)) (Option.bind (v6_parts s) hextets)"

text \<open>\<open>ipaddress.ip_address\<close>; \<open>None\<close> is its \<open>ValueError\<close>.\<close>

definition ip_address :: "ustr \<Rightarrow> ip_addr option" where
  "ip_address s =
    (if 47 \<in> set s then None
     else case parse_v4 s of
       Some w \<Rightarrow> Some (IPv4 w)
     | None \<Rightarrow>
         (case py_partition 37 s of (a, scoped, z) \<Rightarrow>
          if scoped \<and> (z = [] \<or> 37 \<in> set z) then None
          else map_option (\<lambda>w. IPv6 w (if scoped then Some z else None)) (parse_v6 a)))"

section \<open>Printing\<close>

definition octets :: "32 word \<Rightarrow> nat list" where
  "octets w = map (\<lambda>k. unat w div 256 ^ k mod 256) [3, 2, 1, 0]"

definition v6_words :: "128 word \<Rightarrow> nat list" where
  "v6_words w = map (\<lambda>k. unat w div 65536 ^ k mod 65536) [7, 6, 5, 4, 3, 2, 1, 0]"

text \<open>\<open>_compress_hextets\<close>: the first longest run of zeros, if longer than one, becomes \<open>::\<close>.\<close>

definition zero_run :: "ustr list \<Rightarrow> nat \<Rightarrow> nat" where
  "zero_run hs i = length (takeWhile (\<lambda>h. h = [48]) (drop i hs))"

definition best_run :: "ustr list \<Rightarrow> nat \<times> nat" where
  "best_run hs = foldl (\<lambda>(s, n) i. if n < zero_run hs i then (i, zero_run hs i) else (s, n)) (0, 0) [0..<length hs]"

definition compress_hextets :: "ustr list \<Rightarrow> ustr list" where
  "compress_hextets hs =
    (case best_run hs of (s, n) \<Rightarrow>
     if n \<le> 1 then hs
     else (if s = 0 then [[]] else []) @ take s hs @ [[]] @ drop (s + n) hs @ (if s + n = length hs then [[]] else []))"

fun ip_str :: "ip_addr \<Rightarrow> ustr" where
  "ip_str (IPv4 w) = join [46] (map digits_of (octets w))"
| "ip_str (IPv6 w z) = join [58] (compress_hextets (map hex_of (v6_words w)))
     @ (case z of Some s \<Rightarrow> if s = [] then [] else 37 # s | None \<Rightarrow> [])"

section \<open>Classification\<close>

definition in_net :: "'a::len word \<Rightarrow> 'a word \<times> nat \<Rightarrow> bool" where
  "in_net a n = (drop_bit (LENGTH('a) - snd n) a = drop_bit (LENGTH('a) - snd n) (fst n))"

definition net4 :: "int \<Rightarrow> int \<Rightarrow> int \<Rightarrow> int \<Rightarrow> nat \<Rightarrow> 32 word \<times> nat" where
  "net4 a b c d n = (word_of_int (((a * 256 + b) * 256 + c) * 256 + d), n)"

text \<open>An IPv6 network by its leading hextets.\<close>

definition net6 :: "int list \<Rightarrow> nat \<Rightarrow> 128 word \<times> nat" where
  "net6 hs n = (word_of_int (foldl (\<lambda>n h. 65536 * n + h) 0 hs * 65536 ^ (8 - length hs)), n)"

definition private_v4 :: "(32 word \<times> nat) list" where
  "private_v4 = [net4 0 0 0 0 8, net4 10 0 0 0 8, net4 127 0 0 0 8, net4 169 254 0 0 16, net4 172 16 0 0 12,
     net4 192 0 0 0 24, net4 192 0 0 170 31, net4 192 0 2 0 24, net4 192 168 0 0 16, net4 198 18 0 0 15,
     net4 198 51 100 0 24, net4 203 0 113 0 24, net4 240 0 0 0 4, net4 255 255 255 255 32]"

definition private_v4_exceptions :: "(32 word \<times> nat) list" where
  "private_v4_exceptions = [net4 192 0 0 9 32, net4 192 0 0 10 32]"

definition is_private_v4 :: "32 word \<Rightarrow> bool" where
  "is_private_v4 a \<longleftrightarrow> list_ex (in_net a) private_v4 \<and> list_all (\<lambda>n. \<not> in_net a n) private_v4_exceptions"

definition private_v6 :: "(128 word \<times> nat) list" where
  "private_v6 = [net6 [0, 0, 0, 0, 0, 0, 0, 1] 128, net6 [] 128, net6 [0, 0, 0, 0, 0, 65535] 96,
     net6 [100, 65435, 1] 48, net6 [256] 64, net6 [8193] 23, net6 [8193, 3512] 32, net6 [8194] 16,
     net6 [64512] 7, net6 [65152] 10]"

definition private_v6_exceptions :: "(128 word \<times> nat) list" where
  "private_v6_exceptions = [net6 [8193, 1, 0, 0, 0, 0, 0, 1] 128, net6 [8193, 1, 0, 0, 0, 0, 0, 2] 128,
     net6 [8193, 3] 32, net6 [8193, 4, 274] 48, net6 [8193, 32] 28, net6 [8193, 48] 28]"

definition reserved_v6 :: "(128 word \<times> nat) list" where
  "reserved_v6 = [net6 [] 8, net6 [256] 8, net6 [512] 7, net6 [1024] 6, net6 [2048] 5, net6 [4096] 4,
     net6 [16384] 3, net6 [24576] 3, net6 [32768] 3, net6 [40960] 3, net6 [49152] 3, net6 [57344] 4,
     net6 [61440] 5, net6 [63488] 6, net6 [65024] 9]"

definition ipv4_mapped :: "128 word \<Rightarrow> 32 word option" where
  "ipv4_mapped a = (if drop_bit 32 a = 65535 then Some (ucast a) else None)"

definition is_private_v6 :: "128 word \<Rightarrow> bool" where
  "is_private_v6 a =
    (case ipv4_mapped a of
       Some w \<Rightarrow> is_private_v4 w
     | None \<Rightarrow> list_ex (in_net a) private_v6 \<and> list_all (\<lambda>n. \<not> in_net a n) private_v6_exceptions)"

section \<open>The check of the program\<close>

text \<open>The tests of \<open>_ensure_public_address\<close> in its order, on a value of each version.\<close>

definition refused_v4 :: "32 word \<Rightarrow> bool" where
  "refused_v4 a \<longleftrightarrow>
    \<not> (\<not> in_net a (net4 100 64 0 0 10) \<and> \<not> is_private_v4 a)
    \<or> in_net a (net4 127 0 0 0 8)
    \<or> is_private_v4 a
    \<or> in_net a (net4 169 254 0 0 16)
    \<or> in_net a (net4 224 0 0 0 4)
    \<or> in_net a (net4 240 0 0 0 4)
    \<or> a = 0"

definition refused_v6 :: "128 word \<Rightarrow> bool" where
  "refused_v6 a \<longleftrightarrow>
    is_private_v6 a
    \<or> a = 1
    \<or> in_net a (net6 [65152] 10)
    \<or> in_net a (net6 [65216] 10)
    \<or> in_net a (net6 [65280] 8)
    \<or> list_ex (in_net a) reserved_v6
    \<or> a = 0"

fun public_address :: "ip_addr \<Rightarrow> bool" where
  "public_address (IPv4 a) = (\<not> refused_v4 a)"
| "public_address (IPv6 a z) = (case ipv4_mapped a of Some w \<Rightarrow> \<not> refused_v4 w | None \<Rightarrow> \<not> refused_v6 a)"


section \<open>What a public address is\<close>

lemma in_net_div: "in_net a n \<longleftrightarrow> unat a div 2 ^ (LENGTH('a) - snd n) = unat (fst n) div 2 ^ (LENGTH('a) - snd n)"
  for a :: "'a::len word"
proof -
  have "in_net a n \<longleftrightarrow> unat (drop_bit (LENGTH('a) - snd n) a) = unat (drop_bit (LENGTH('a) - snd n) (fst n))"
    by (simp only: in_net_def word_unat_eq_iff)
  also have "\<dots> \<longleftrightarrow> drop_bit (LENGTH('a) - snd n) (unat a) = drop_bit (LENGTH('a) - snd n) (unat (fst n))"
    by (simp only: unat_drop_bit_eq)
  finally show ?thesis by (simp only: drop_bit_eq_div)
qed

text \<open>
  An accepted IPv4 address is in none of the blocks for this network, private networks, shared
  address space, loopback, link local, multicast or reserved; an accepted IPv6 address is an IPv4
  address in its mapped form that is accepted itself, or lies in the block \<open>2000::/3\<close>, the only one
  allocated for global unicast, and outside 6to4 and the documentation prefix.
\<close>

lemma public_v4_range:
  assumes "public_address (IPv4 a)"
  shows "unat a div 2 ^ 24 \<notin> {0, 10, 127}" "unat a div 2 ^ 24 < 224" "unat a div 2 ^ 22 \<noteq> 401"
    "unat a div 2 ^ 20 \<noteq> 2753" "unat a div 2 ^ 16 \<notin> {43518, 49320}"
proof -
  have facts: "unat a div 4194304 \<noteq> 401 \<and>
     (unat a div 16777216 \<noteq> 0 \<and> unat a div 16777216 \<noteq> 10 \<and> unat a div 65536 \<noteq> 43518 \<and>
      unat a div 1048576 \<noteq> 2753 \<and> unat a div 65536 \<noteq> 49320 \<or>
      unat a = 3221225481 \<or> unat a = 3221225482) \<and>
     unat a div 16777216 \<noteq> 127 \<and> unat a div 65536 \<noteq> 43518 \<and>
     unat a div 268435456 \<noteq> 14 \<and> unat a div 268435456 \<noteq> 15"
    using assms
    by (simp add: refused_v4_def is_private_v4_def private_v4_def private_v4_exceptions_def in_net_div net4_def) blast
  let ?x = "unat a"
  have low: "?x < 4294967296" using unsigned_less [of a] by simp
  have "?x div 16777216 \<noteq> 0 \<and> ?x div 16777216 \<noteq> 10 \<and> ?x div 16777216 \<noteq> 127 \<and> ?x div 1048576 \<noteq> 2753
      \<and> ?x div 65536 \<noteq> 43518 \<and> ?x div 65536 \<noteq> 49320 \<and> ?x div 4194304 \<noteq> 401"
    (is ?G)
  proof -
    have "?x = 3221225481 \<Longrightarrow> ?G" "?x = 3221225482 \<Longrightarrow> ?G" by simp_all
    then show ?thesis using facts by blast
  qed
  then show "?x div 2 ^ 24 \<notin> {0, 10, 127}" "?x div 2 ^ 22 \<noteq> 401" "?x div 2 ^ 20 \<noteq> 2753" "?x div 2 ^ 16 \<notin> {43518, 49320}"
    by simp_all
  have "?x div 268435456 \<noteq> 14" "?x div 268435456 \<noteq> 15" using facts by blast+
  moreover have "?x div 268435456 < 16" using low by linarith
  ultimately have "?x div 268435456 < 14" by linarith
  then show "?x div 2 ^ 24 < 224" by simp
qed

lemma public_v6_range:
  assumes "public_address (IPv6 a z)" "ipv4_mapped a = None"
  shows "unat a div 2 ^ 125 = 1" "unat a div 2 ^ 112 \<noteq> 8194" "unat a div 2 ^ 96 \<noteq> 536939960"
proof -
  have facts: "(unat a div 5192296858534827628530496329220096 \<noteq> 8194 \<and>
      unat a div 79228162514264337593543950336 \<noteq> 536939960 \<and>
      unat a div 2658455991569831745807614120560689152 \<noteq> 126 \<or>
      unat a = 42540488241204005274814694018844196865 \<or>
      unat a = 42540488241204005274814694018844196866 \<or>
      unat a div 79228162514264337593543950336 = 536936451 \<or>
      unat a div 1208925819614629174706176 = 35188667318546 \<or>
      unat a div 1267650600228229401496703205376 = 33558530 \<or>
      unat a div 1267650600228229401496703205376 = 33558531) \<and>
     unat a div 332306998946228968225951765070086144 \<noteq> 1018 \<and>
     unat a div 332306998946228968225951765070086144 \<noteq> 1019 \<and>
     unat a div 1329227995784915872903807060280344576 \<noteq> 255 \<and>
     unat a div 1329227995784915872903807060280344576 \<noteq> 0 \<and>
     unat a div 1329227995784915872903807060280344576 \<noteq> 1 \<and>
     unat a div 2658455991569831745807614120560689152 \<noteq> 1 \<and>
     unat a div 5316911983139663491615228241121378304 \<noteq> 1 \<and>
     unat a div 10633823966279326983230456482242756608 \<noteq> 1 \<and>
     unat a div 21267647932558653966460912964485513216 \<noteq> 1 \<and>
     unat a div 42535295865117307932921825928971026432 \<noteq> 2 \<and>
     unat a div 42535295865117307932921825928971026432 \<noteq> 3 \<and>
     unat a div 42535295865117307932921825928971026432 \<noteq> 4 \<and>
     unat a div 42535295865117307932921825928971026432 \<noteq> 5 \<and>
     unat a div 42535295865117307932921825928971026432 \<noteq> 6 \<and>
     unat a div 21267647932558653966460912964485513216 \<noteq> 14 \<and>
     unat a div 10633823966279326983230456482242756608 \<noteq> 30 \<and>
     unat a div 5316911983139663491615228241121378304 \<noteq> 62 \<and>
     unat a div 664613997892457936451903530140172288 \<noteq> 508"
    using assms
    by (simp add: refused_v6_def is_private_v6_def private_v6_def private_v6_exceptions_def reserved_v6_def in_net_div net6_def)
      blast
  let ?x = "unat a"
  define t where "t = ?x div 332306998946228968225951765070086144"
  have top: "?x div 664613997892457936451903530140172288 = t div 2" "?x div 1329227995784915872903807060280344576 = t div 4"
      "?x div 2658455991569831745807614120560689152 = t div 8" "?x div 5316911983139663491615228241121378304 = t div 16"
      "?x div 10633823966279326983230456482242756608 = t div 32" "?x div 21267647932558653966460912964485513216 = t div 64"
      "?x div 42535295865117307932921825928971026432 = t div 128"
    by (simp_all add: t_def div_mult2_eq [symmetric])
  have low: "t < 1024"
  proof -
    have "?x < 340282366920938463463374607431768211456" using unsigned_less [of a] by simp
    then show ?thesis unfolding t_def by linarith
  qed
  have deep: "t div 128 = ?x div 79228162514264337593543950336 div 536870912"
      "t div 128 = ?x div 1208925819614629174706176 div 35184372088832"
      "t div 128 = ?x div 1267650600228229401496703205376 div 33554432"
    by (simp_all add: t_def div_mult2_eq [symmetric])
  have alt: "t div 8 \<noteq> 126 \<or> t div 128 = 1"
    using conjunct1 [OF facts]
  proof (elim disjE)
    assume "unat a = 42540488241204005274814694018844196865"
    then show ?thesis by (simp add: t_def)
  next
    assume "unat a = 42540488241204005274814694018844196866"
    then show ?thesis by (simp add: t_def)
  next
    assume "?x div 79228162514264337593543950336 = 536936451"
    then show ?thesis unfolding deep(1) by simp
  next
    assume "?x div 1208925819614629174706176 = 35188667318546"
    then show ?thesis unfolding deep(2) by simp
  next
    assume "?x div 1267650600228229401496703205376 = 33558530"
    then show ?thesis unfolding deep(3) by simp
  next
    assume "?x div 1267650600228229401496703205376 = 33558531"
    then show ?thesis unfolding deep(3) by simp
  qed (simp add: top)
  have "t div 128 = 1"
  proof (rule ccontr)
    assume n: "t div 128 \<noteq> 1"
    have out: "t \<noteq> 1018 \<and> t \<noteq> 1019 \<and> t div 4 \<noteq> 255 \<and> t div 4 \<noteq> 0 \<and> t div 4 \<noteq> 1 \<and> t div 8 \<noteq> 1 \<and> t div 16 \<noteq> 1
        \<and> t div 32 \<noteq> 1 \<and> t div 64 \<noteq> 1 \<and> t div 128 \<noteq> 2 \<and> t div 128 \<noteq> 3 \<and> t div 128 \<noteq> 4 \<and> t div 128 \<noteq> 5
        \<and> t div 128 \<noteq> 6 \<and> t div 64 \<noteq> 14 \<and> t div 32 \<noteq> 30 \<and> t div 16 \<noteq> 62 \<and> t div 2 \<noteq> 508"
      using conjunct2 [OF facts] unfolding top t_def [symmetric] .
    have e: "t div 8 \<noteq> 126" using alt n by blast
    have o: "t div 64 \<noteq> 1" "t div 32 \<noteq> 1" "t div 16 \<noteq> 1" "t div 8 \<noteq> 1" "t div 4 \<noteq> 0" "t div 4 \<noteq> 1"
      "t div 128 \<noteq> 1" "t div 128 \<noteq> 2" "t div 128 \<noteq> 3" "t div 128 \<noteq> 4" "t div 128 \<noteq> 5" "t div 128 \<noteq> 6"
      "t div 64 \<noteq> 14" "t div 32 \<noteq> 30" "t div 16 \<noteq> 62" "t div 8 \<noteq> 126" "t div 2 \<noteq> 508"
      "t \<noteq> 1018" "t \<noteq> 1019" "t div 4 \<noteq> 255"
      using out e n by - (elim conjE, assumption)+
    have skip: "k * Suc q \<le> t" if "k * q \<le> t" "t div k \<noteq> q" for k q
      using div_nat_eqI [of k q t] that by linarith
    show False
    proof (cases "t < 128")
      case True
      have "t < 64" using True skip [of 64 1] o(1) by linarith
      then have "t < 32" using skip [of 32 1] o(2) by linarith
      then have "t < 16" using skip [of 16 1] o(3) by linarith
      then have "t < 8" using skip [of 8 1] o(4) by linarith
      then show False using skip [of 4 0] skip [of 4 1] o(5,6) by linarith
    next
      case False
      then have "256 \<le> t" using skip [of 128 1] o(7) by linarith
      then have "384 \<le> t" using skip [of 128 2] o(8) by linarith
      then have "512 \<le> t" using skip [of 128 3] o(9) by linarith
      then have "640 \<le> t" using skip [of 128 4] o(10) by linarith
      then have "768 \<le> t" using skip [of 128 5] o(11) by linarith
      then have "896 \<le> t" using skip [of 128 6] o(12) by linarith
      then have "960 \<le> t" using skip [of 64 14] o(13) by linarith
      then have "992 \<le> t" using skip [of 32 30] o(14) by linarith
      then have "1008 \<le> t" using skip [of 16 62] o(15) by linarith
      then have "1016 \<le> t" using skip [of 8 126] o(16) by linarith
      then have "1018 \<le> t" using skip [of 2 508] o(17) by linarith
      then have "1020 \<le> t" using o(18,19) by linarith
      then have "4 * Suc 255 \<le> t" by (intro skip o(20)) simp
      then show False using low by simp
    qed
  qed
  moreover have "(2::nat) ^ 125 = 42535295865117307932921825928971026432" by simp
  ultimately show "?x div 2 ^ 125 = 1" by (simp only: top(7))
  have wide: "?x div 79228162514264337593543950336 = ?x div 1208925819614629174706176 div 65536"
      "?x div 1267650600228229401496703205376 = ?x div 79228162514264337593543950336 div 16"
      "?x div 5192296858534827628530496329220096 = ?x div 1267650600228229401496703205376 div 4096"
    by (simp_all add: div_mult2_eq [symmetric])
  have "?x div 5192296858534827628530496329220096 \<noteq> 8194 \<and> ?x div 79228162514264337593543950336 \<noteq> 536939960"
    using conjunct1 [OF facts]
  proof (elim disjE)
    assume "unat a = 42540488241204005274814694018844196865"
    then show ?thesis by simp
  next
    assume "unat a = 42540488241204005274814694018844196866"
    then show ?thesis by simp
  next
    assume "?x div 79228162514264337593543950336 = 536936451"
    then show ?thesis unfolding wide by simp
  next
    assume "?x div 1208925819614629174706176 = 35188667318546"
    then show ?thesis unfolding wide by simp
  next
    assume "?x div 1267650600228229401496703205376 = 33558530"
    then show ?thesis using wide by auto
  next
    assume "?x div 1267650600228229401496703205376 = 33558531"
    then show ?thesis using wide by auto
  qed simp
  then show "?x div 2 ^ 112 \<noteq> 8194" "?x div 2 ^ 96 \<noteq> 536939960" by simp_all
qed

end
