(* ===== verification/Urls.thy ===== *)
theory Urls
  imports IpAddress
begin

text \<open>
  \<open>backend/app/crawler/urls.py\<close>: normalisation of URLs, over the functions of Python's
  \<open>urllib.parse\<close> (3.12) it uses: \<open>urlsplit\<close> with its checks and the properties of its result,
  \<open>urlunsplit\<close>, \<open>urljoin\<close>, \<open>parse_qsl\<close> and \<open>urlencode\<close> with percent encoding over UTF-8. A text is
  a list of code points, a byte string a list of numbers below 256. NFKC is a parameter. Every
  exception here is a \<open>ValueError\<close> or a subclass of it (\<open>UnsafeUrlError\<close>, \<open>UnicodeEncodeError\<close>).
\<close>

section \<open>UTF-8\<close>

definition surrogate :: "int \<Rightarrow> bool" where
  "surrogate c \<longleftrightarrow> 55296 \<le> c \<and> c \<le> 57343"

definition utf8_char :: "int \<Rightarrow> int list" where
  "utf8_char c =
    (if c < 128 then [c]
     else if c < 2048 then [192 + c div 64, 128 + c mod 64]
     else if c < 65536 then [224 + c div 4096, 128 + c div 64 mod 64, 128 + c mod 64]
     else [240 + c div 262144, 128 + c div 4096 mod 64, 128 + c div 64 mod 64, 128 + c mod 64])"

definition utf8 :: "ustr \<Rightarrow> exn + int list" where
  "utf8 s = (if list_ex surrogate s then Inl (OtherError ''UnicodeEncodeError'') else Inr (concat (map utf8_char s)))"

definition cont :: "int \<Rightarrow> bool" where
  "cont b \<longleftrightarrow> 128 \<le> b \<and> b < 192"

text \<open>
  One step of the decoder with \<open>errors='replace'\<close>: the code point for the bytes from a leading one,
  and how many of the following bytes it takes. The longest prefix that could begin a character
  becomes one replacement character.
\<close>

definition second_ok :: "int \<Rightarrow> int \<Rightarrow> bool" where
  "second_ok b c \<longleftrightarrow> cont c \<and> (b = 224 \<longrightarrow> 160 \<le> c) \<and> (b = 237 \<longrightarrow> c < 160) \<and> (b = 240 \<longrightarrow> 144 \<le> c) \<and> (b = 244 \<longrightarrow> c < 144)"

definition utf8_step :: "int \<Rightarrow> int list \<Rightarrow> int \<times> nat" where
  "utf8_step b bs =
    (if b < 128 then (b, 0)
     else if b < 194 \<or> 244 < b then (65533, 0)
     else case bs of
       [] \<Rightarrow> (65533, 0)
     | c # cs \<Rightarrow>
         if \<not> second_ok b c then (65533, 0)
         else if b < 224 then ((b - 192) * 64 + (c - 128), 1)
         else case cs of
           [] \<Rightarrow> (65533, 1)
         | d # ds \<Rightarrow>
             if \<not> cont d then (65533, 1)
             else if b < 240 then ((b - 224) * 4096 + (c - 128) * 64 + (d - 128), 2)
             else case ds of
               [] \<Rightarrow> (65533, 2)
             | e # es \<Rightarrow>
                 if \<not> cont e then (65533, 2)
                 else ((b - 240) * 262144 + (c - 128) * 4096 + (d - 128) * 64 + (e - 128), 3))"

function utf8_decode :: "int list \<Rightarrow> ustr" where
  "utf8_decode [] = []"
| "utf8_decode (b # bs) = fst (utf8_step b bs) # utf8_decode (drop (snd (utf8_step b bs)) bs)"
  by pat_completeness auto
termination
  by (relation "measure length") auto

section \<open>Percent encoding\<close>

definition unreserved :: "int \<Rightarrow> bool" where
  "unreserved c \<longleftrightarrow> ascii_digit c \<or> 65 \<le> c \<and> c \<le> 90 \<or> 97 \<le> c \<and> c \<le> 122 \<or> c \<in> {95, 46, 45, 126}"

definition upper_hex :: "int \<Rightarrow> int" where
  "upper_hex n = (if n < 10 then 48 + n else 55 + n)"

definition quote_byte :: "int \<Rightarrow> ustr" where
  "quote_byte b = (if unreserved b then [b] else if b = 32 then [43] else [37, upper_hex (b div 16), upper_hex (b mod 16)])"

definition quote_plus :: "ustr \<Rightarrow> exn + ustr" where
  "quote_plus s = rbind (utf8 s) (\<lambda>bs. Inr (concat (map quote_byte bs)))"

text \<open>\<open>_unquote_impl\<close> on ASCII text: escapes become bytes, anything else stays.\<close>

fun unquote_bytes :: "ustr \<Rightarrow> int list" where
  "unquote_bytes (c # a # b # s) =
    (if c = 37 \<and> hex_digit a \<and> hex_digit b then (16 * the (hex_value a) + the (hex_value b)) # unquote_bytes s
     else c # unquote_bytes (a # b # s))"
| "unquote_bytes s = s"

definition ascii :: "int \<Rightarrow> bool" where
  "ascii c \<longleftrightarrow> c < 128"

text \<open>\<open>unquote\<close>: each maximal run of ASCII characters is unescaped and decoded on its own.\<close>

function unquote_runs :: "ustr \<Rightarrow> ustr" where
  "unquote_runs [] = []"
| "unquote_runs (c # s) =
    (if ascii c then utf8_decode (unquote_bytes (takeWhile ascii (c # s))) @ unquote_runs (dropWhile ascii s)
     else c # unquote_runs s)"
  by pat_completeness auto
termination
  by (relation "measure length") (auto simp: le_imp_less_Suc length_dropWhile_le)

definition unquote_plus :: "ustr \<Rightarrow> ustr" where
  "unquote_plus s =
    (let t = map (\<lambda>c. if c = 43 then 32 else c) s in if 37 \<in> set t then unquote_runs t else t)"

definition parse_qsl :: "ustr \<Rightarrow> (ustr \<times> ustr) list" where
  "parse_qsl q =
    map (\<lambda>nv. case py_partition 61 nv of (n, eq, v) \<Rightarrow> (unquote_plus n, unquote_plus v))
      (filter (\<lambda>nv. nv \<noteq> []) (split_on 38 q))"

definition urlencode :: "(ustr \<times> ustr) list \<Rightarrow> exn + ustr" where
  "urlencode kvs =
    rbind (rmap (\<lambda>(k, v). rbind (quote_plus k) (\<lambda>k. rbind (quote_plus v) (\<lambda>v. Inr (k @ [61] @ v)))) kvs)
      (\<lambda>ps. Inr (join [38] ps))"

section \<open>Splitting and joining URLs\<close>

record url_parts =
  up_scheme :: ustr
  up_netloc :: ustr
  up_path :: ustr
  up_query :: ustr
  up_fragment :: ustr

definition alpha :: "int \<Rightarrow> bool" where
  "alpha c \<longleftrightarrow> 65 \<le> c \<and> c \<le> 90 \<or> 97 \<le> c \<and> c \<le> 122"

definition scheme_char :: "int \<Rightarrow> bool" where
  "scheme_char c \<longleftrightarrow> alpha c \<or> ascii_digit c \<or> c \<in> {43, 45, 46}"

text \<open>\<open>_check_bracketed_host\<close>; the pattern is \<open>v\<close>, hexadecimal digits, a point and at least one character.\<close>

definition bracketed_host_ok :: "ustr \<Rightarrow> bool" where
  "bracketed_host_ok h =
    (if h \<noteq> [] \<and> hd h = 118 then
       (let ds = takeWhile hex_digit (tl h); r = dropWhile hex_digit (tl h) in
        ds \<noteq> [] \<and> 1 < length r \<and> hd r = 46)
     else case ip_address h of Some (IPv6 w z) \<Rightarrow> True | _ \<Rightarrow> False)"

definition bracketed_netloc_ok :: "ustr \<Rightarrow> bool" where
  "bracketed_netloc_ok netloc =
    (case py_rpartition 64 netloc of (_, _, hp) \<Rightarrow>
     case py_partition 91 hp of (pre, opened, inside) \<Rightarrow>
     if opened then
       (case py_partition 93 inside of (h, _, port) \<Rightarrow>
        pre = [] \<and> (port = [] \<or> hd port = 58) \<and> bracketed_host_ok h)
     else bracketed_host_ok (fst (py_partition 58 hp)))"

definition netloc_nfkc_ok :: "(ustr \<Rightarrow> ustr) \<Rightarrow> ustr \<Rightarrow> bool" where
  "netloc_nfkc_ok nfkc netloc =
    (let n = filter (\<lambda>c. c \<notin> {64, 58, 35, 63}) netloc in
     list_all ascii netloc \<or> nfkc n = n \<or> (\<forall>c \<in> set (nfkc n). c \<notin> {47, 63, 35, 64, 58}))"

definition split_scheme :: "ustr \<Rightarrow> ustr \<Rightarrow> ustr \<times> ustr" where
  "split_scheme default_scheme url =
    (case py_partition 58 url of (s, found, rest) \<Rightarrow>
     if found \<and> s \<noteq> [] \<and> alpha (hd s) \<and> list_all scheme_char s then (lower s, rest) else (default_scheme, url))"

definition urlsplit :: "(ustr \<Rightarrow> ustr) \<Rightarrow> ustr \<Rightarrow> ustr \<Rightarrow> exn + url_parts" where
  "urlsplit nfkc default_scheme raw =
    (let url = filter (\<lambda>c. c \<notin> {9, 10, 13}) (dropWhile (\<lambda>c. c \<le> 32) raw);
         (scheme, url) = split_scheme default_scheme url;
         stop = (\<lambda>c. c \<in> {47, 63, 35});
         (netloc, url) = (if starts_with url [47, 47]
           then (takeWhile (\<lambda>c. \<not> stop c) (drop 2 url), dropWhile (\<lambda>c. \<not> stop c) (drop 2 url)) else ([], url)) in
     if (91 \<in> set netloc) \<noteq> (93 \<in> set netloc) \<or> 91 \<in> set netloc \<and> \<not> bracketed_netloc_ok netloc
     then Inl (ValueError ''Invalid IPv6 URL'')
     else
     (case py_partition 35 url of (url, _, fragment) \<Rightarrow>
      case py_partition 63 url of (path, _, q) \<Rightarrow>
      if \<not> netloc_nfkc_ok nfkc netloc then Inl (ValueError ''netloc contains invalid characters under NFKC normalization'')
      else Inr \<lparr>up_scheme = scheme, up_netloc = netloc, up_path = path, up_query = q, up_fragment = fragment\<rparr>))"

definition url_userinfo :: "url_parts \<Rightarrow> bool" where
  "url_userinfo u \<longleftrightarrow> fst (snd (py_rpartition 64 (up_netloc u)))"

definition url_hostinfo :: "url_parts \<Rightarrow> ustr \<times> ustr" where
  "url_hostinfo u =
    (case py_rpartition 64 (up_netloc u) of (_, _, hp) \<Rightarrow>
     case py_partition 91 hp of (_, opened, inside) \<Rightarrow>
     if opened then (case py_partition 93 inside of (h, _, r) \<Rightarrow> (h, snd (snd (py_partition 58 r))))
     else (case py_partition 58 hp of (h, _, p) \<Rightarrow> (h, p)))"

definition hostname :: "url_parts \<Rightarrow> ustr option" where
  "hostname u =
    (let h = fst (url_hostinfo u) in
     if h = [] then None
     else case py_partition 37 h of (a, scoped, z) \<Rightarrow> Some (lower a @ (if scoped then 37 # z else [])))"

definition url_port :: "url_parts \<Rightarrow> exn + int option" where
  "url_port u =
    (let p = snd (url_hostinfo u) in
     if p = [] then Inr None
     else if \<not> list_all ascii_digit p then Inl (ValueError ''Port could not be cast to integer value'')
     else if 65535 < int_of_digits p then Inl (ValueError ''Port out of range 0-65535'')
     else Inr (Some (int_of_digits p)))"

definition uses_relative :: "ustr list" where
  "uses_relative = map asc ['''', ''ftp'', ''http'', ''gopher'', ''nntp'', ''imap'', ''wais'', ''file'', ''https'', ''shttp'',
     ''mms'', ''prospero'', ''rtsp'', ''rtsps'', ''rtspu'', ''sftp'', ''svn'', ''svn+ssh'', ''ws'', ''wss'']"

definition uses_netloc :: "ustr list" where
  "uses_netloc = map asc ['''', ''ftp'', ''http'', ''gopher'', ''nntp'', ''telnet'', ''imap'', ''wais'', ''file'', ''mms'',
     ''https'', ''shttp'', ''snews'', ''prospero'', ''rtsp'', ''rtsps'', ''rtspu'', ''rsync'', ''svn'', ''svn+ssh'',
     ''sftp'', ''nfs'', ''git'', ''git+ssh'', ''ws'', ''wss'', ''itms-services'']"

definition uses_params :: "ustr list" where
  "uses_params = map asc ['''', ''ftp'', ''hdl'', ''prospero'', ''http'', ''imap'', ''https'', ''shttp'', ''rtsp'',
     ''rtsps'', ''rtspu'', ''sip'', ''sips'', ''mms'', ''sftp'', ''tel'']"

definition urlunsplit :: "url_parts \<Rightarrow> ustr" where
  "urlunsplit u =
    (let netloc = up_netloc u; path = up_path u;
         url = (if netloc \<noteq> [] \<or> up_scheme u \<noteq> [] \<and> up_scheme u \<in> set uses_netloc \<and> \<not> starts_with path [47, 47]
                then [47, 47] @ netloc @ (if path \<noteq> [] \<and> hd path \<noteq> 47 then 47 # path else path) else path);
         url = (if up_scheme u \<noteq> [] then up_scheme u @ [58] @ url else url);
         url = (if up_query u \<noteq> [] then url @ [63] @ up_query u else url) in
     if up_fragment u \<noteq> [] then url @ [35] @ up_fragment u else url)"

text \<open>\<open>_splitparams\<close>: the parameters after the first \<open>;\<close> of the last segment.\<close>

definition split_params :: "ustr \<Rightarrow> ustr \<times> ustr" where
  "split_params path =
    (case py_rpartition 47 path of (pre, slash, segment) \<Rightarrow>
     case py_partition 59 segment of (s, _, params) \<Rightarrow> (pre @ (if slash then [47] else []) @ s, params))"

definition path_params :: "url_parts \<Rightarrow> ustr \<times> ustr" where
  "path_params u = (if up_scheme u \<in> set uses_params then split_params (up_path u) else (up_path u, []))"

definition with_params :: "ustr \<Rightarrow> ustr \<Rightarrow> ustr" where
  "with_params path params = (if params = [] then path else path @ [59] @ params)"

fun resolve :: "ustr list \<Rightarrow> ustr list \<Rightarrow> ustr list" where
  "resolve done [] = done"
| "resolve done (s # ss) =
    (if s = [46, 46] then resolve (butlast done) ss
     else if s = [46] then resolve done ss
     else resolve (done @ [s]) ss)"

definition join_segments :: "ustr \<Rightarrow> ustr \<Rightarrow> ustr list" where
  "join_segments bpath path =
    (let base = split_on 47 bpath; base = (if last base \<noteq> [] then butlast base else base) in
     if path \<noteq> [] \<and> hd path = 47 then split_on 47 path
     else (let segs = base @ split_on 47 path in
       if length segs < 2 then segs
       else [hd segs] @ filter (\<lambda>s. s \<noteq> []) (butlast (tl segs)) @ [last segs]))"

definition urljoin :: "(ustr \<Rightarrow> ustr) \<Rightarrow> ustr \<Rightarrow> ustr \<Rightarrow> exn + ustr" where
  "urljoin nfkc base url =
    (if base = [] then Inr url
     else if url = [] then Inr base
     else
     rbind (urlsplit nfkc [] base) (\<lambda>b.
     rbind (urlsplit nfkc (up_scheme b) url) (\<lambda>u.
     let (bpath, bparams) = path_params b; (path, params) = path_params u in
     if up_scheme u \<noteq> up_scheme b \<or> up_scheme u \<notin> set uses_relative then Inr url
     else if up_scheme u \<in> set uses_netloc \<and> up_netloc u \<noteq> [] then
       Inr (urlunsplit (u\<lparr>up_path := with_params path params\<rparr>))
     else
     let u = (if up_scheme u \<in> set uses_netloc then u\<lparr>up_netloc := up_netloc b\<rparr> else u) in
     if path = [] \<and> params = [] then
       Inr (urlunsplit (u\<lparr>up_path := with_params bpath bparams, up_query := if up_query u = [] then up_query b else up_query u\<rparr>))
     else
     let segs = join_segments bpath path;
         resolved = resolve [] segs @ (if last segs \<in> {[46], [46, 46]} then [[]] else []);
         joined = join [47] resolved in
     Inr (urlunsplit (u\<lparr>up_path := with_params (if joined = [] then [47] else joined) params\<rparr>)))))"

section \<open>\<open>crawler/urls.py\<close>\<close>

definition unsafe :: exn where
  "unsafe = OtherError ''UnsafeUrlError''"

definition split_http_url :: "(ustr \<Rightarrow> ustr) \<Rightarrow> ustr \<Rightarrow> exn + url_parts \<times> int option" where
  "split_http_url nfkc url =
    (case rbind (urlsplit nfkc [] url) (\<lambda>u. rbind (url_port u) (\<lambda>p. Inr (u, p))) of
       Inl e \<Rightarrow> Inl unsafe
     | Inr (u, p) \<Rightarrow>
         if lower (up_scheme u) \<notin> {asc ''http'', asc ''https''} then Inl unsafe
         else if url_userinfo u then Inl unsafe
         else if (case p of Some n \<Rightarrow> \<not> (1 \<le> n \<and> n \<le> 65535) | None \<Rightarrow> False) then Inl unsafe
         else if hostname u = None then Inl unsafe
         else Inr (u, p))"

definition url_host :: "url_parts \<Rightarrow> exn + ustr" where
  "url_host u =
    (let h = rstrip_if (\<lambda>c. c = 46) (lower (case hostname u of Some h \<Rightarrow> h | None \<Rightarrow> [])) in
     if h = [] then Inl unsafe else Inr h)"

definition tracking_parameters :: "ustr list" where
  "tracking_parameters = [asc ''spm'', asc ''from'', asc ''source'']"

definition kept_parameter :: "ustr \<times> ustr \<Rightarrow> bool" where
  "kept_parameter kv \<longleftrightarrow> \<not> starts_with (lower (fst kv)) (asc ''utm_'') \<and> lower (fst kv) \<notin> set tracking_parameters"

text \<open>\<open>while "//" in path: path = path.replace("//", "/")\<close>: every run of slashes becomes one.\<close>

fun squeeze_slashes :: "ustr \<Rightarrow> ustr" where
  "squeeze_slashes (c # d # s) =
    (if c = 47 \<and> d = 47 then squeeze_slashes (d # s) else c # squeeze_slashes (d # s))"
| "squeeze_slashes s = s"

definition default_port :: "ustr \<Rightarrow> int option \<Rightarrow> bool" where
  "default_port scheme p \<longleftrightarrow> scheme = asc ''http'' \<and> p = Some 80 \<or> scheme = asc ''https'' \<and> p = Some 443"

definition authority :: "ustr \<Rightarrow> ustr \<Rightarrow> int option \<Rightarrow> ustr" where
  "authority scheme host p =
    (let formatted = (if 58 \<in> set host then [91] @ host @ [93] else host) in
     case p of None \<Rightarrow> formatted
     | Some n \<Rightarrow> if default_port scheme p then formatted else formatted @ [58] @ show_int n)"

definition normalize_url :: "(ustr \<Rightarrow> ustr) \<Rightarrow> ustr option \<Rightarrow> ustr \<Rightarrow> exn + ustr" where
  "normalize_url nfkc base url =
    rbind (case base of Some b \<Rightarrow> urljoin nfkc b url | None \<Rightarrow> Inr url) (\<lambda>absolute.
    rbind (split_http_url nfkc (strip absolute)) (\<lambda>(u, p).
    rbind (url_host u) (\<lambda>host.
    let scheme = lower (up_scheme u); path = squeeze_slashes (if up_path u = [] then [47] else up_path u) in
    rbind (urlencode (sort (filter kept_parameter (parse_qsl (up_query u))))) (\<lambda>q.
    Inr (urlunsplit \<lparr>up_scheme = scheme, up_netloc = authority scheme host p, up_path = path, up_query = q, up_fragment = []\<rparr>)))))"


section \<open>Encoding and decoding\<close>

definition code_point :: "int \<Rightarrow> bool" where
  "code_point c \<longleftrightarrow> 0 \<le> c \<and> c < 1114112"

definition byte :: "int \<Rightarrow> bool" where
  "byte b \<longleftrightarrow> 0 \<le> b \<and> b < 256"

lemma base64:
  fixes c :: int
  shows "c div 4096 * 64 + c div 64 mod 64 = c div 64" "c div 262144 * 64 + c div 4096 mod 64 = c div 4096"
    "c div 64 * 64 + c mod 64 = c"
proof -
  have "c div 4096 = c div 64 div 64" "c div 262144 = c div 4096 div 64" by (simp_all add: zdiv_zmult2_eq [symmetric])
  then show "c div 4096 * 64 + c div 64 mod 64 = c div 64" "c div 262144 * 64 + c div 4096 mod 64 = c div 4096"
    "c div 64 * 64 + c mod 64 = c" by simp_all
qed

lemma step3:
  assumes "0 \<le> x" "x < 16" "0 \<le> y" "y < 64" "0 \<le> z" "z < 64" "x = 0 \<Longrightarrow> 32 \<le> y" "x = 13 \<Longrightarrow> y < 32"
  shows "utf8_step (224 + x) ((128 + y) # (128 + z) # rest) = (x * 4096 + y * 64 + z, 2)"
proof -
  have "second_ok (224 + x) (128 + y)" "cont (128 + z)" using assms by (auto simp: second_ok_def cont_def)
  then show ?thesis using assms by (simp add: utf8_step_def)
qed

lemma step4:
  assumes "0 \<le> x" "x < 5" "0 \<le> y" "y < 64" "0 \<le> z" "z < 64" "0 \<le> v" "v < 64" "x = 0 \<Longrightarrow> 16 \<le> y" "x = 4 \<Longrightarrow> y < 16"
  shows "utf8_step (240 + x) ((128 + y) # (128 + z) # (128 + v) # rest) = (x * 262144 + y * 4096 + z * 64 + v, 3)"
proof -
  have "second_ok (240 + x) (128 + y)" "cont (128 + z)" "cont (128 + v)" using assms by (auto simp: second_ok_def cont_def)
  then show ?thesis using assms by (simp add: utf8_step_def)
qed

lemma utf8_step_char:
  assumes "code_point c" "\<not> surrogate c" and "utf8_char c = b # bs"
  shows "utf8_step b (bs @ rest) = (c, length bs)"
proof -
  consider "c < 128" | "128 \<le> c" "c < 2048" | "2048 \<le> c" "c < 65536" | "65536 \<le> c" by linarith
  then show ?thesis
  proof cases
    case 1
    then show ?thesis using assms by (auto simp: utf8_char_def utf8_step_def)
  next
    case 2
    have "192 + c div 64 = b" "bs = [128 + c mod 64]" using 2 assms by (simp_all add: utf8_char_def)
    moreover have "2 \<le> c div 64" "c div 64 < 32" using 2 by linarith+
    moreover have "c div 64 * 64 + c mod 64 = c" by simp
    ultimately show ?thesis by (auto simp: utf8_step_def second_ok_def cont_def)
  next
    case 3
    have b: "b = 224 + c div 4096" "bs = [128 + c div 64 mod 64, 128 + c mod 64]" using 3 assms by (simp_all add: utf8_char_def)
    have q: "c div 4096 < 16" "0 \<le> c div 4096" using 3 by linarith+
    note m = base64 [of c]
    have r: "0 \<le> c mod 64" "c mod 64 < 64" "0 \<le> c div 64 mod 64" "c div 64 mod 64 < 64" by simp_all
    have e: "c div 4096 * 4096 + c div 64 mod 64 * 64 + c mod 64 = c" using m by linarith
    have s: "c div 4096 = 0 \<Longrightarrow> 32 \<le> c div 64 mod 64" using 3 m r by linarith
    have t: "c div 64 mod 64 < 32" if "c div 4096 = 13"
    proof (rule ccontr)
      assume "\<not> c div 64 mod 64 < 32"
      then have "55296 \<le> c" "c \<le> 57343" using that m r by linarith+
      then show False using assms(2) by (simp add: surrogate_def)
    qed
    have "utf8_step b (bs @ rest) = (c div 4096 * 4096 + c div 64 mod 64 * 64 + c mod 64, 2)"
      unfolding b append.simps by (rule step3 [OF q(2,1) r(3,4,1,2) s t])
    then show ?thesis unfolding e b by simp
  next
    case 4
    have b: "b = 240 + c div 262144" "bs = [128 + c div 4096 mod 64, 128 + c div 64 mod 64, 128 + c mod 64]"
      using 4 assms by (simp_all add: utf8_char_def)
    have q: "c div 262144 < 5" "0 \<le> c div 262144" using 4 assms(1) unfolding code_point_def by linarith+
    note m = base64 [of c]
    have r: "0 \<le> c mod 64" "c mod 64 < 64" "0 \<le> c div 64 mod 64" "c div 64 mod 64 < 64" "0 \<le> c div 4096 mod 64" "c div 4096 mod 64 < 64"
      by simp_all
    have e: "c div 262144 * 262144 + c div 4096 mod 64 * 4096 + c div 64 mod 64 * 64 + c mod 64 = c" using m by linarith
    have s: "c div 262144 = 0 \<Longrightarrow> 16 \<le> c div 4096 mod 64" using 4 m r by linarith
    have t: "c div 262144 = 4 \<Longrightarrow> c div 4096 mod 64 < 16" using assms(1) m r unfolding code_point_def by linarith
    have "utf8_step b (bs @ rest) = (c div 262144 * 262144 + c div 4096 mod 64 * 4096 + c div 64 mod 64 * 64 + c mod 64, 3)"
      unfolding b append.simps by (rule step4 [OF q(2,1) r(5,6,3,4,1,2) s t])
    then show ?thesis unfolding e b by simp
  qed
qed

lemma utf8_char_Cons: "\<exists>b bs. utf8_char c = b # bs"
  by (simp add: utf8_char_def)

lemma utf8_decode_char:
  assumes "code_point c" "\<not> surrogate c"
  shows "utf8_decode (utf8_char c @ rest) = c # utf8_decode rest"
proof -
  obtain b bs where "utf8_char c = b # bs" using utf8_char_Cons by blast
  then show ?thesis using utf8_step_char [OF assms] by simp
qed

lemma utf8_Inr: "utf8 s = Inr bs \<longleftrightarrow> (\<forall>c \<in> set s. \<not> surrogate c) \<and> bs = concat (map utf8_char s)"
  by (auto simp: utf8_def list_ex_iff)

lemma utf8_roundtrip:
  assumes "list_all code_point s" "utf8 s = Inr bs"
  shows "utf8_decode bs = s"
proof -
  have "utf8_decode (concat (map utf8_char s)) = s" if "list_all code_point s" "\<forall>c \<in> set s. \<not> surrogate c" for s
    using that by (induction s) (simp_all add: utf8_decode_char)
  then show ?thesis using assms by (simp add: utf8_Inr)
qed

lemma utf8_char_bytes: "code_point c \<Longrightarrow> list_all byte (utf8_char c)"
  by (auto simp: utf8_char_def byte_def code_point_def)

lemma utf8_bytes: "list_all code_point s \<Longrightarrow> utf8 s = Inr bs \<Longrightarrow> list_all byte bs"
  using utf8_char_bytes by (fastforce simp: utf8_Inr list_all_iff)

lemma decode_ascii: "list_all ascii bs \<Longrightarrow> utf8_decode bs = bs"
  by (induction bs) (simp_all add: utf8_step_def ascii_def)

lemma utf8_step_valid: "byte b \<Longrightarrow> list_all byte bs \<Longrightarrow> code_point (fst (utf8_step b bs))"
  by (auto simp: utf8_step_def second_ok_def cont_def code_point_def byte_def split: list.splits)

lemma decode_valid: "list_all byte bs \<Longrightarrow> list_all code_point (utf8_decode bs)"
proof (induction bs rule: utf8_decode.induct)
  case (2 b bs)
  then have "list_all byte (drop n bs)" for n by (auto simp: list_all_iff dest: in_set_dropD)
  then show ?case using 2 utf8_step_valid by simp
qed simp

abbreviation unplus :: "ustr \<Rightarrow> ustr" where
  "unplus \<equiv> map (\<lambda>c. if c = 43 then 32 else c)"

lemma unplus_all: "list_all P s \<Longrightarrow> P 32 \<Longrightarrow> list_all P (unplus s)"
  by (induction s) auto

lemma hex_value_upper: "0 \<le> n \<Longrightarrow> n < 16 \<Longrightarrow> hex_value (upper_hex n) = Some n"
  by (auto simp: upper_hex_def hex_value_def ascii_digit_def)

lemma upper_hex_unplus: "0 \<le> n \<Longrightarrow> n < 16 \<Longrightarrow> upper_hex n \<noteq> 43 \<and> upper_hex n \<noteq> 38 \<and> upper_hex n \<noteq> 61 \<and> 32 < upper_hex n \<and> upper_hex n < 128"
  by (auto simp: upper_hex_def)

lemma unquote_bytes_other: "c \<noteq> 37 \<Longrightarrow> unquote_bytes (c # s) = c # unquote_bytes s"
  by (cases s; cases "tl s") auto

lemma unquote_quoted_byte:
  assumes "byte b"
  shows "unquote_bytes (unplus (quote_byte b) @ rest) = b # unquote_bytes rest"
proof -
  have "0 \<le> b div 16" "b div 16 < 16" using assms by (auto simp: byte_def)
  then have d: "hex_value (upper_hex (b div 16)) = Some (b div 16)" "hex_value (upper_hex (b mod 16)) = Some (b mod 16)"
      "upper_hex (b div 16) \<noteq> 43" "upper_hex (b mod 16) \<noteq> 43"
    using hex_value_upper upper_hex_unplus by auto
  have "unreserved b \<Longrightarrow> b \<noteq> 43 \<and> b \<noteq> 37" by (auto simp: unreserved_def ascii_digit_def)
  then show ?thesis using d by (auto simp: quote_byte_def hex_digit_def unquote_bytes_other)
qed

lemma unquote_quoted_bytes: "list_all byte bs \<Longrightarrow> unquote_bytes (unplus (concat (map quote_byte bs))) = bs"
  by (induction bs) (simp_all add: unquote_quoted_byte)

text \<open>Encoded text holds printable ASCII characters and neither separator.\<close>

definition query_char :: "int \<Rightarrow> bool" where
  "query_char c \<longleftrightarrow> 32 < c \<and> c < 128 \<and> c \<noteq> 38 \<and> c \<noteq> 61 \<and> c \<noteq> 35 \<and> c \<noteq> 63"

lemma quote_byte_chars:
  assumes "byte b"
  shows "list_all query_char (quote_byte b)"
proof -
  have "0 \<le> b div 16" "b div 16 < 16" using assms by (auto simp: byte_def)
  moreover have "query_char (upper_hex n)" if "0 \<le> n" "n < 16" for n
    using that by (auto simp: upper_hex_def query_char_def)
  ultimately have "query_char (upper_hex (b div 16))" "query_char (upper_hex (b mod 16))" by simp_all
  moreover have "unreserved b \<Longrightarrow> query_char b" by (auto simp: unreserved_def query_char_def ascii_digit_def)
  moreover have "query_char 37" "query_char 43" by (simp_all add: query_char_def)
  ultimately show ?thesis by (simp add: quote_byte_def)
qed

lemma quote_plus_chars:
  assumes "list_all code_point s" "quote_plus s = Inr q"
  shows "list_all query_char q"
  using assms quote_byte_chars utf8_bytes by (fastforce simp: quote_plus_def list_all_iff rbind_Inr)

lemma unquote_runs_ascii: "list_all ascii t \<Longrightarrow> t \<noteq> [] \<Longrightarrow> unquote_runs t = utf8_decode (unquote_bytes t)"
proof (cases t)
  case (Cons c s)
  assume "list_all ascii t"
  then have "takeWhile ascii s = s" "dropWhile ascii s = []" "ascii c" using Cons by (auto simp: list_all_iff)
  then show ?thesis unfolding Cons by (simp only: unquote_runs.simps takeWhile.simps if_True append_Nil2)
qed simp

lemma unquote_bytes_plain: "37 \<notin> set t \<Longrightarrow> unquote_bytes t = t"
  by (induction t rule: unquote_bytes.induct) auto

lemma unquote_quote:
  assumes "list_all code_point s" "quote_plus s = Inr q"
  shows "unquote_plus q = s"
proof -
  obtain bs where bs: "utf8 s = Inr bs" and q: "q = concat (map quote_byte bs)"
    using assms(2) by (auto simp: quote_plus_def rbind_Inr)
  have a: "list_all ascii (unplus q)"
    using unplus_all [of ascii q] quote_plus_chars [OF assms] by (simp add: list_all_iff query_char_def ascii_def)
  have u: "unquote_bytes (unplus q) = bs" using q unquote_quoted_bytes utf8_bytes [OF assms(1) bs] by simp
  have d: "utf8_decode bs = s" using utf8_roundtrip [OF assms(1) bs] .
  show ?thesis
  proof (cases "37 \<in> set (unplus q)")
    case True
    then have "unplus q \<noteq> []" by auto
    then show ?thesis using True unquote_runs_ascii [OF a] u d by (simp add: unquote_plus_def)
  next
    case False
    then have "unplus q = bs" using unquote_bytes_plain u by metis
    then show ?thesis using False a d decode_ascii [of bs] by (simp add: unquote_plus_def)
  qed
qed

lemma split_join:
  assumes "ps \<noteq> []" "\<forall>p \<in> set ps. sep \<notin> set p"
  shows "split_on sep (join [sep] ps) = ps"
  using assms
proof (induction "[sep]" ps rule: join.induct)
  case (2 s)
  then have "split_on sep s = [s]" if "sep \<notin> set s" for s using that by (induction s) auto
  then show ?case using 2 by simp
next
  case (3 s t ts)
  have "split_on sep (s @ sep # r) = s # split_on sep r" if "sep \<notin> set s" for s r
    using that by (induction s) auto
  then show ?case using 3 by simp
qed simp

lemma partition_found: "c \<notin> set a \<Longrightarrow> py_partition c (a @ c # b) = (a, True, b)"
  by (induction a) (auto simp: py_partition_def)

lemma partition_absent: "c \<notin> set a \<Longrightarrow> py_partition c a = (a, False, [])"
  by (induction a) (auto simp: py_partition_def)

lemma parse_encoded:
  assumes "\<forall>kv \<in> set kvs. list_all code_point (fst kv) \<and> list_all code_point (snd kv)" "urlencode kvs = Inr q"
  shows "parse_qsl q = kvs" and "list_all (\<lambda>c. query_char c \<or> c = 38 \<or> c = 61) q"
proof -
  let ?enc = "\<lambda>(k, v). rbind (quote_plus k) (\<lambda>k. rbind (quote_plus v) (\<lambda>v. Inr (k @ [61] @ v)))"
  obtain ps where ps: "rmap ?enc kvs = Inr ps" and q: "q = join [38] ps"
    using assms(2) by (auto simp: urlencode_def rbind_Inr)
  let ?ok = "\<lambda>kv p. \<exists>k v. p = k @ [61] @ v \<and> quote_plus (fst kv) = Inr k \<and> quote_plus (snd kv) = Inr v"
  have all: "list_all2 ?ok kvs ps"
    using ps by (induction kvs arbitrary: ps) (auto simp: rbind_Inr)
  let ?dec = "\<lambda>nv. case py_partition 61 nv of (n, eq, v) \<Rightarrow> (unquote_plus n, unquote_plus v)"
  have dec: "map ?dec ps = kvs \<and> (\<forall>p \<in> set ps. p \<noteq> [] \<and> 38 \<notin> set p \<and> list_all (\<lambda>c. query_char c \<or> c = 38 \<or> c = 61) p)"
    using all assms(1)
  proof (induction kvs ps rule: list_all2_induct)
    case (Cons kv kvs p ps)
    then obtain k v where p: "p = k @ [61] @ v" and k: "quote_plus (fst kv) = Inr k" and v: "quote_plus (snd kv) = Inr v" by auto
    have kc: "list_all query_char k" "list_all query_char v" using quote_plus_chars k v Cons.prems by auto
    then have sep: "61 \<notin> set k" "38 \<notin> set p" by (auto simp: p list_all_iff query_char_def)
    have "?dec p = kv"
      using unquote_quote [OF _ k] unquote_quote [OF _ v] Cons.prems partition_found [OF sep(1), of v] by (cases kv) (simp add: p)
    then show ?case using Cons sep kc by (auto simp: p list_all_iff)
  qed simp
  show "parse_qsl q = kvs"
  proof (cases "ps = []")
    case True
    then show ?thesis using dec by (simp add: q parse_qsl_def)
  next
    case False
    then have "split_on 38 q = ps" using split_join [OF False] dec by (simp add: q)
    moreover have "filter (\<lambda>nv. nv \<noteq> []) ps = ps" using dec by (simp add: filter_id_conv)
    ultimately show ?thesis using dec by (simp add: parse_qsl_def)
  qed
  have "list_all P (join [38] ps)" if "\<forall>p \<in> set ps. list_all P p" "P 38" for P
    using that by (induction "[38::int]" ps rule: join.induct) auto
  then show "list_all (\<lambda>c. query_char c \<or> c = 38 \<or> c = 61) q" using dec by (simp add: q)
qed

lemma unquote_bytes_byte: "list_all byte s \<Longrightarrow> list_all byte (unquote_bytes s)"
  by (induction s rule: unquote_bytes.induct)
    (auto simp: hex_digit_def hex_value_def ascii_digit_def byte_def split: if_splits)

lemma unquote_runs_valid: "list_all code_point s \<Longrightarrow> list_all code_point (unquote_runs s)"
proof (induction s rule: unquote_runs.induct)
  case (2 c s)
  show ?case
  proof (cases "ascii c")
    case True
    have "list_all byte (takeWhile ascii (c # s))"
      using 2(3) by (auto simp: list_all_iff byte_def code_point_def ascii_def dest: set_takeWhileD)
    moreover have "list_all code_point (dropWhile ascii s)" using 2(3) by (auto simp: list_all_iff dest: set_dropWhileD)
    ultimately show ?thesis using 2 True unquote_bytes_byte decode_valid by (simp del: takeWhile.simps)
  next
    case False
    then show ?thesis using 2 by simp
  qed
qed simp

lemma unquote_plus_valid: "list_all code_point s \<Longrightarrow> list_all code_point (unquote_plus s)"
proof -
  assume "list_all code_point s"
  then have "list_all code_point (unplus s)" by (rule unplus_all) (simp add: code_point_def)
  then show ?thesis using unquote_runs_valid by (simp add: unquote_plus_def Let_def)
qed

lemma split_on_subset: "p \<in> set (split_on sep s) \<Longrightarrow> set p \<subseteq> set s"
  by (induction s arbitrary: p) (fastforce split: if_splits list.splits)+

lemma parse_qsl_valid:
  assumes "list_all code_point q" "kv \<in> set (parse_qsl q)"
  shows "list_all code_point (fst kv) \<and> list_all code_point (snd kv)"
proof -
  obtain nv where nv: "nv \<in> set (split_on 38 q)"
      and kv: "kv = (unquote_plus (takeWhile (\<lambda>d. d \<noteq> 61) nv), unquote_plus (tl (dropWhile (\<lambda>d. d \<noteq> 61) nv)))"
    using assms(2) by (auto simp: parse_qsl_def py_partition_def)
  have "list_all code_point nv" using assms(1) split_on_subset [OF nv] by (auto simp: list_all_iff)
  then have "list_all code_point (takeWhile (\<lambda>d. d \<noteq> 61) nv)" "list_all code_point (tl (dropWhile (\<lambda>d. d \<noteq> 61) nv))"
    by (auto simp: list_all_iff dest: set_takeWhileD list.set_sel(2) set_dropWhileD)
      (metis list.sel(2) list.set_sel(2) set_dropWhileD)
  then show ?thesis using unquote_plus_valid by (simp add: kv)
qed


section \<open>Normal forms\<close>

lemma lower_http: "lower (asc ''http'') = asc ''http''" "lower (asc ''https'') = asc ''https''"
  by code_simp+

lemma int_of_digits_snoc: "int_of_digits (s @ [c]) = 10 * int_of_digits s + (c - 48)"
  by (simp add: int_of_digits_def)

lemma digits_of_spec: "int_of_digits (digits_of n) = int n \<and> list_all ascii_digit (digits_of n) \<and> digits_of n \<noteq> []"
proof (induction n rule: digits_of.induct)
  case (1 n)
  show ?case
  proof (cases "n < 10")
    case True
    then show ?thesis by (simp add: digits_of.simps [of n] int_of_digits_def ascii_digit_def)
  next
    case False
    have "10 * int (n div 10) + int (n mod 10) = int n" by presburger
    moreover have "int (n mod 10) < 10" by simp
    ultimately show ?thesis using 1 False by (simp add: digits_of.simps [of n] int_of_digits_snoc ascii_digit_def)
  qed
qed

lemma squeeze_subset: "set (squeeze_slashes s) \<subseteq> set s"
  by (induction s rule: squeeze_slashes.induct) auto

lemma squeeze_hd: "s \<noteq> [] \<Longrightarrow> squeeze_slashes s \<noteq> [] \<and> hd (squeeze_slashes s) = hd s"
  by (induction s rule: squeeze_slashes.induct) auto

definition no_double_slash :: "ustr \<Rightarrow> bool" where
  "no_double_slash s \<longleftrightarrow> \<not> contains s [47, 47]"

lemma no_double_Cons: "no_double_slash (c # s) \<longleftrightarrow> no_double_slash s \<and> \<not> (c = 47 \<and> s \<noteq> [] \<and> hd s = 47)"
proof
  assume a: "no_double_slash (c # s)"
  then have "no_double_slash s" unfolding no_double_slash_def contains_iff by (metis append_Cons)
  moreover have "\<not> (c = 47 \<and> s \<noteq> [] \<and> hd s = 47)"
  proof
    assume "c = 47 \<and> s \<noteq> [] \<and> hd s = 47"
    then have "c # s = [] @ [47, 47] @ tl s" by (cases s) auto
    then show False using a unfolding no_double_slash_def contains_iff by blast
  qed
  ultimately show "no_double_slash s \<and> \<not> (c = 47 \<and> s \<noteq> [] \<and> hd s = 47)" by blast
next
  assume a: "no_double_slash s \<and> \<not> (c = 47 \<and> s \<noteq> [] \<and> hd s = 47)"
  show "no_double_slash (c # s)"
    unfolding no_double_slash_def contains_iff
  proof (clarify)
    fix xs ys assume e: "c # s = xs @ [47, 47] @ ys"
    show False
    proof (cases xs)
      case Nil
      then show False using a e by auto
    next
      case (Cons d ds)
      then have "s = ds @ [47, 47] @ ys" using e by simp
      then show False using a unfolding no_double_slash_def contains_iff by blast
    qed
  qed
qed

lemma squeeze_no_double: "no_double_slash (squeeze_slashes s)"
proof (induction s rule: squeeze_slashes.induct)
  case (1 c d s)
  then show ?case using squeeze_hd [of "d # s"] by (auto simp: no_double_Cons)
qed (simp_all add: no_double_Cons, simp_all add: no_double_slash_def contains_def)

lemma squeeze_id: "no_double_slash s \<Longrightarrow> squeeze_slashes s = s"
  by (induction s rule: squeeze_slashes.induct) (auto simp: no_double_Cons)

lemma set_rest: "set (tl (dropWhile P s)) \<subseteq> set s"
proof -
  have "set (tl xs) \<subseteq> set xs" for xs :: "'a list" by (cases xs) auto
  moreover have "set (dropWhile P s) \<subseteq> set s" by (auto dest: set_dropWhileD)
  ultimately show ?thesis by (rule order_trans)
qed

lemma split_scheme_rest: "split_scheme d v = (sc, rest) \<Longrightarrow> set rest \<subseteq> set v"
  using set_rest [of "\<lambda>c. c \<noteq> 58" v] by (auto simp: split_scheme_def py_partition_def split: if_splits)

lemma urlsplit_parts:
  assumes "urlsplit nfkc d s = Inr u"
  shows "up_netloc u \<noteq> [] \<Longrightarrow> up_path u = [] \<or> hd (up_path u) = 47"
    and "\<forall>c \<in> set (up_path u). c \<notin> {35, 63, 9, 10, 13}"
    and "set (up_query u) \<subseteq> set s"
proof -
  let ?v = "filter (\<lambda>c. c \<notin> {9, 10, 13}) (dropWhile (\<lambda>c. c \<le> 32) s)"
  obtain sc rest where sr: "split_scheme d ?v = (sc, rest)" by (cases "split_scheme d ?v") auto
  let ?ns = "\<lambda>c::int. c \<notin> {47, 63, 35}"
  let ?net = "starts_with rest [47, 47]"
  let ?r = "if ?net then dropWhile ?ns (drop 2 rest) else rest"
  let ?t = "takeWhile (\<lambda>d. d \<noteq> 35) ?r"
  have u: "up_path u = takeWhile (\<lambda>d. d \<noteq> 63) ?t" "up_query u = tl (dropWhile (\<lambda>d. d \<noteq> 63) ?t)"
      "up_netloc u = (if ?net then takeWhile ?ns (drop 2 rest) else [])"
    using assms sr by (auto simp: urlsplit_def py_partition_def Let_def split: if_splits)
  have r1: "set rest \<subseteq> set ?v"
    using split_scheme_rest [OF sr] .
  have r2: "set ?v \<subseteq> set s" by (auto dest: set_dropWhileD)
  have r3: "\<forall>c \<in> set ?v. c \<notin> {9, 10, 13}" by simp
  have r4: "set ?r \<subseteq> set rest" by (auto dest: set_dropWhileD in_set_dropD)
  have r5: "set ?t \<subseteq> set ?r" "35 \<notin> set ?t" by (auto dest: set_takeWhileD)
  have r6: "set ?t \<subseteq> set ?v" by (rule order_trans [OF r5(1) order_trans [OF r4 r1]])
  have t1: "set ?t \<subseteq> set s" by (rule order_trans [OF r6 r2])
  have t2: "c \<notin> {9, 10, 13, 35}" if c: "c \<in> set ?t" for c
  proof -
    have "c \<notin> {9, 10, 13}" using r3 subsetD [OF r6 c] by (rule bspec)
    moreover have "c \<noteq> 35" using set_takeWhileD [OF c] by (rule conjunct2)
    ultimately show ?thesis by simp
  qed
  show "\<forall>c \<in> set (up_path u). c \<notin> {35, 63, 9, 10, 13}"
  proof
    fix c assume "c \<in> set (up_path u)"
    then have "c \<in> set ?t" "c \<noteq> 63" unfolding u using set_takeWhileD by fast+
    then show "c \<notin> {35, 63, 9, 10, 13}" using t2 [of c] by simp
  qed
  show "set (up_query u) \<subseteq> set s"
    unfolding u by (rule order_trans [OF set_rest t1])
  show "up_path u = [] \<or> hd (up_path u) = 47" if "up_netloc u \<noteq> []"
  proof -
    have net: "?net" using that u(3) by (auto split: if_splits)
    show ?thesis
    proof (cases "dropWhile ?ns (drop 2 rest)")
      case Nil
      then show ?thesis by (simp only: u(1) net if_True takeWhile.simps simp_thms)
    next
      case (Cons c cs)
      then have "c \<in> {47, 63, 35}" by (metis (no_types, lifting) hd_dropWhile list.discI list.sel(1))
      then show ?thesis using net u(1) Cons by auto
    qed
  qed
qed


text \<open>A host name in lower case without brackets, escapes or user information.\<close>

definition plain_host :: "ustr \<Rightarrow> bool" where
  "plain_host h \<longleftrightarrow> h \<noteq> [] \<and> last h \<noteq> 46 \<and> list_all (\<lambda>c. 97 \<le> c \<and> c \<le> 122 \<or> ascii_digit c \<or> c = 45 \<or> c = 46 \<or> c = 95) h"

lemma plain_chars:
  assumes "plain_host h" "c \<in> set h"
  shows "45 \<le> c \<and> c < 128 \<and> c \<notin> {47, 58, 63, 35, 37, 64, 91, 93} \<and> \<not> (65 \<le> c \<and> c \<le> 90)"
proof -
  have "97 \<le> c \<and> c \<le> 122 \<or> 48 \<le> c \<and> c \<le> 57 \<or> c = 45 \<or> c = 46 \<or> c = 95"
    using assms unfolding plain_host_def list_all_iff ascii_digit_def by blast
  then show ?thesis by (elim disjE conjE) simp_all
qed

lemma lower_plain: "list_all (\<lambda>c. c < 128 \<and> \<not> (65 \<le> c \<and> c \<le> 90)) h \<Longrightarrow> lower h = h"
  by (induction h) (auto simp: lower_Cons lower_char_def)

lemma rpartition_absent: "c \<notin> set s \<Longrightarrow> py_rpartition c s = ([], False, s)"
  by (simp add: py_rpartition_def)

definition port_suffix :: "ustr \<Rightarrow> int option \<Rightarrow> ustr" where
  "port_suffix scheme p = (case p of None \<Rightarrow> [] | Some n \<Rightarrow> if default_port scheme p then [] else [58] @ show_int n)"

lemma authority_plain: "plain_host h \<Longrightarrow> authority scheme h p = h @ port_suffix scheme p"
  using plain_chars [of h 58] by (auto simp: authority_def port_suffix_def split: option.splits)

definition port_ok :: "int option \<Rightarrow> bool" where
  "port_ok p \<longleftrightarrow> (case p of None \<Rightarrow> True | Some n \<Rightarrow> 1 \<le> n \<and> n \<le> 65535)"

text \<open>What splitting finds in a text put together from a scheme, a plain host, a path and a query.\<close>

definition kept_port :: "ustr \<Rightarrow> int option \<Rightarrow> int option" where
  "kept_port scheme p = (if default_port scheme p then None else p)"

lemma port_suffix_digits:
  assumes "port_ok p"
  shows "port_suffix scheme p = (case kept_port scheme p of None \<Rightarrow> [] | Some n \<Rightarrow> 58 # digits_of (nat n))"
  using assms by (auto simp: port_suffix_def kept_port_def port_ok_def show_int_def default_port_def split: option.splits)

lemma plain_authority_chars:
  assumes "plain_host h" "port_ok p"
  shows "\<forall>c \<in> set (h @ port_suffix scheme p). 45 \<le> c \<and> c < 128 \<and> c \<notin> {47, 63, 35, 64, 91, 93}"
proof -
  have "c = 58 \<or> 48 \<le> c \<and> c \<le> 57" if "c \<in> set (port_suffix scheme p)" for c
  proof -
    have "ascii_digit c" if "c \<in> set (digits_of n)" for n
      using that digits_of_spec [of n] by (simp add: list_all_iff)
    then show ?thesis
      using that assms(2) by (auto simp: port_suffix_digits ascii_digit_def split: option.splits)
  qed
  note suffix_chars = this
  show ?thesis
  proof
    fix c assume "c \<in> set (h @ port_suffix scheme p)"
    then have "c \<in> set h \<or> c = 58 \<or> 48 \<le> c \<and> c \<le> 57" using suffix_chars by auto
    then show "45 \<le> c \<and> c < 128 \<and> c \<notin> {47, 63, 35, 64, 91, 93}"
      by (elim disjE) (use plain_chars [OF assms(1), of c] in simp_all)
  qed
qed

lemma plain_hostinfo:
  assumes "plain_host h" "port_ok p" and u: "up_netloc u = h @ port_suffix scheme p"
  shows "url_hostinfo u = (h, case kept_port scheme p of None \<Rightarrow> [] | Some n \<Rightarrow> digits_of (nat n))" and "\<not> url_userinfo u"
proof -
  let ?a = "h @ port_suffix scheme p"
  have c: "64 \<notin> set ?a" "91 \<notin> set ?a" "58 \<notin> set h"
    using plain_authority_chars [OF assms(1,2), of scheme] plain_chars [OF assms(1), of 58] by auto
  have "py_partition 58 ?a = (h, kept_port scheme p \<noteq> None, case kept_port scheme p of None \<Rightarrow> [] | Some n \<Rightarrow> digits_of (nat n))"
    using c(3) assms(2) partition_found [of 58 h] partition_absent [of 58 h]
    by (auto simp: port_suffix_digits split: option.splits)
  then show "url_hostinfo u = (h, case kept_port scheme p of None \<Rightarrow> [] | Some n \<Rightarrow> digits_of (nat n))"
    unfolding url_hostinfo_def u rpartition_absent [OF c(1)] partition_absent [OF c(2)] prod.case by simp
  show "\<not> url_userinfo u" unfolding url_userinfo_def u rpartition_absent [OF c(1)] by simp
qed

lemma plain_properties:
  assumes "plain_host h" "port_ok p" and u: "up_netloc u = h @ port_suffix scheme p"
  shows "hostname u = Some h" "url_port u = Inr (kept_port scheme p)" "url_host u = Inr h"
proof -
  note hi = plain_hostinfo [OF assms]
  have low: "lower h = h" "h \<noteq> []" "37 \<notin> set h"
    using plain_chars [OF assms(1)] assms(1) by (auto simp: plain_host_def list_all_iff intro!: lower_plain)
  show hn: "hostname u = Some h" using low partition_absent [OF low(3)] by (simp add: hostname_def hi)
  have dropid: "rstrip_if (\<lambda>c. c = 46) h = h"
  proof -
    have "hd (rev h) \<noteq> 46" using assms(1) low(2) by (simp add: plain_host_def hd_rev)
    then have "dropWhile (\<lambda>c. c = 46) (rev h) = rev h" using dropWhile_eq_self_iff by blast
    then show ?thesis by (simp only: rstrip_if_def rev_rev_ident)
  qed
  show "url_host u = Inr h" using low dropid by (simp add: url_host_def hn)
  have "port_ok (kept_port scheme p)" using assms(2) by (simp add: kept_port_def port_ok_def)
  then show "url_port u = Inr (kept_port scheme p)"
    using digits_of_spec by (auto simp: url_port_def hi port_ok_def Let_def split: option.splits)
qed


lemma urlsplit_plain:
  assumes scheme: "scheme = asc ''http'' \<or> scheme = asc ''https''" and a: "plain_host h" "port_ok p"
    and path: "path \<noteq> []" "hd path = 47" "\<forall>c \<in> set path. c \<notin> {35, 63, 9, 10, 13}"
    and q: "\<forall>c \<in> set q. c \<notin> {35, 9, 10, 13}"
  shows "urlsplit nfkc [] (scheme @ [58, 47, 47] @ (h @ port_suffix scheme p) @ path @ (if q = [] then [] else 63 # q)) =
    Inr \<lparr>up_scheme = scheme, up_netloc = h @ port_suffix scheme p, up_path = path, up_query = q, up_fragment = []\<rparr>"
    (is "urlsplit _ _ (scheme @ [58, 47, 47] @ ?a @ path @ ?q) = _")
proof -
  note ac = plain_authority_chars [OF a, of scheme]
  have sc: "58 \<notin> set scheme" "list_all scheme_char scheme" "scheme \<noteq> []" "alpha (hd scheme)" "lower scheme = scheme"
      "\<forall>c \<in> set scheme. 32 < c"
    using scheme lower_http by (auto simp: asc_def scheme_char_def alpha_def)
  let ?s = "scheme @ [58, 47, 47] @ ?a @ path @ ?q"
  have "dropWhile (\<lambda>c. c \<le> 32) ?s = ?s" using sc(3,6) by (cases scheme) auto
  moreover have "filter (\<lambda>c. c \<notin> {9, 10, 13}) ?s = ?s"
  proof (rule filter_True, rule ballI)
    fix c assume "c \<in> set ?s"
    then have "c \<in> set scheme \<or> c \<in> {58, 47, 63} \<or> c \<in> set ?a \<or> c \<in> set path \<or> c \<in> set q" by (auto split: if_splits)
    moreover have "c \<in> set scheme \<Longrightarrow> 32 < c" "c \<in> set ?a \<Longrightarrow> 45 \<le> c"
        "c \<in> set path \<Longrightarrow> c \<notin> {35, 63, 9, 10, 13}" "c \<in> set q \<Longrightarrow> c \<notin> {35, 9, 10, 13}"
      using sc(6) ac path(3) q by blast+
    ultimately show "c \<notin> {9, 10, 13}" by (elim disjE) auto
  qed
  moreover have "split_scheme [] ?s = (scheme, [47, 47] @ ?a @ path @ ?q)"
    using partition_found [OF sc(1), of "[47, 47] @ ?a @ path @ ?q"] sc by (simp add: split_scheme_def)
  moreover have "takeWhile (\<lambda>c. \<not> c \<in> {47, 63, 35}) (?a @ path @ ?q) = ?a"
      "dropWhile (\<lambda>c. \<not> c \<in> {47, 63, 35}) (?a @ path @ ?q) = path @ ?q"
  proof -
    have "\<forall>c \<in> set ?a. \<not> c \<in> {47, 63, 35}" using ac by blast
    moreover obtain r where "path = 47 # r" using path(1,2) by (cases path) auto
    ultimately show "takeWhile (\<lambda>c. \<not> c \<in> {47, 63, 35}) (?a @ path @ ?q) = ?a"
      "dropWhile (\<lambda>c. \<not> c \<in> {47, 63, 35}) (?a @ path @ ?q) = path @ ?q"
      by (simp_all add: takeWhile_append2 dropWhile_append2)
  qed
  moreover have "py_partition 35 (path @ ?q) = (path @ ?q, False, [])"
    using path(3) q by (intro partition_absent) (auto split: if_splits)
  moreover have "py_partition 63 (path @ ?q) = (path, q \<noteq> [], q)"
  proof -
    have "63 \<notin> set path" using path(3) by blast
    then show ?thesis using partition_found [of 63 path q] partition_absent [of 63 path] by simp
  qed
  moreover have "netloc_nfkc_ok nfkc ?a"
  proof -
    have "list_all ascii ?a" unfolding list_all_iff ascii_def using ac by blast
    then show ?thesis by (simp add: netloc_nfkc_ok_def Let_def)
  qed
  moreover have "91 \<notin> set ?a" "93 \<notin> set ?a" using ac by blast+
  ultimately show ?thesis unfolding urlsplit_def Let_def by simp
qed


definition joined_url :: "(ustr \<Rightarrow> ustr) \<Rightarrow> ustr option \<Rightarrow> ustr \<Rightarrow> exn + ustr" where
  "joined_url nfkc base url = (case base of Some b \<Rightarrow> urljoin nfkc b url | None \<Rightarrow> Inr url)"

definition url_text :: "ustr \<Rightarrow> ustr \<Rightarrow> int option \<Rightarrow> ustr \<Rightarrow> ustr \<Rightarrow> ustr" where
  "url_text scheme host p path q =
    scheme @ [58, 47, 47] @ authority scheme host p @ path @ (if q = [] then [] else 63 # q)"

lemma split_http_Inr:
  assumes "split_http_url nfkc s = Inr (u, p)"
  shows "urlsplit nfkc [] s = Inr u" "url_port u = Inr p" "lower (up_scheme u) = asc ''http'' \<or> lower (up_scheme u) = asc ''https''"
    "port_ok p" "hostname u \<noteq> None"
  using assms by (auto simp: split_http_url_def rbind_Inr port_ok_def split: sum.splits if_splits option.splits)

lemma hostname_netloc: "hostname u \<noteq> None \<Longrightarrow> up_netloc u \<noteq> []"
  by (auto simp: hostname_def url_hostinfo_def py_partition_def py_rpartition_def Let_def)

lemma normalize_parts:
  assumes norm: "normalize_url nfkc base url = Inr n" and join: "joined_url nfkc base url = Inr absolute"
    and valid: "list_all code_point absolute"
  obtains u p host path q where
    "split_http_url nfkc (strip absolute) = Inr (u, p)" "url_host u = Inr host"
    "path = squeeze_slashes (if up_path u = [] then [47] else up_path u)"
    "urlencode (sort (filter kept_parameter (parse_qsl (up_query u)))) = Inr q"
    "n = url_text (lower (up_scheme u)) host p path q"
    "hd path = 47" "path \<noteq> []" "\<forall>c \<in> set path. c \<notin> {35, 63, 9, 10, 13}"
    "parse_qsl q = sort (filter kept_parameter (parse_qsl (up_query u)))"
    "\<forall>c \<in> set q. c \<notin> {35, 9, 10, 13}"
proof -
  obtain u p host q where s: "split_http_url nfkc (strip absolute) = Inr (u, p)" and h: "url_host u = Inr host"
      and q: "urlencode (sort (filter kept_parameter (parse_qsl (up_query u)))) = Inr q"
      and n: "n = urlunsplit \<lparr>up_scheme = lower (up_scheme u), up_netloc = authority (lower (up_scheme u)) host p,
        up_path = squeeze_slashes (if up_path u = [] then [47] else up_path u), up_query = q, up_fragment = []\<rparr>"
    using norm join by (auto simp: normalize_url_def joined_url_def rbind_Inr Let_def)
  note sp = split_http_Inr [OF s]
  let ?p0 = "if up_path u = [] then [47] else up_path u"
  let ?path = "squeeze_slashes ?p0"
  note up = urlsplit_parts [OF sp(1)]
  have p0: "hd ?p0 = 47" "?p0 \<noteq> []" using up(1) hostname_netloc [OF sp(5)] by auto
  have path: "hd ?path = 47" "?path \<noteq> []" using squeeze_hd [OF p0(2)] p0(1) by auto
  have "\<forall>c \<in> set ?p0. c \<notin> {35, 63, 9, 10, 13}" using up(2) by auto
  then have pc: "\<forall>c \<in> set ?path. c \<notin> {35, 63, 9, 10, 13}" using squeeze_subset by blast
  have "authority (lower (up_scheme u)) host p \<noteq> []"
    using h by (auto simp: authority_def Let_def url_host_def split: option.splits if_splits)
  then have tx: "n = url_text (lower (up_scheme u)) host p ?path q"
    using path sp(3) by (auto simp: n urlunsplit_def url_text_def Let_def asc_def)
  have "list_all code_point (up_query u)"
    using valid up(3) set_strip [of absolute] unfolding list_all_iff by blast
  then have "\<forall>kv \<in> set (sort (filter kept_parameter (parse_qsl (up_query u)))). list_all code_point (fst kv) \<and> list_all code_point (snd kv)"
    using parse_qsl_valid by simp
  note enc = parse_encoded [OF this q]
  have "\<forall>c \<in> set q. c \<notin> {35, 9, 10, 13}"
  proof
    fix c assume "c \<in> set q"
    then have "query_char c \<or> c = 38 \<or> c = 61" using enc(2) by (simp add: list_all_iff)
    then show "c \<notin> {35, 9, 10, 13}" by (auto simp: query_char_def)
  qed
  then show thesis using that [OF s h refl q tx path pc enc(1)] by blast
qed



text \<open>
  White space at the end of a path survives when only tracking parameters follow it, and is
  stripped the next time: one page can get two normal forms.
\<close>

lemma normalize_url_not_idempotent:
  "normalize_url (\<lambda>s. s) None (asc ''http://a.cn/x ?spm=1'') = Inr (asc ''http://a.cn/x '')"
  "normalize_url (\<lambda>s. s) None (asc ''http://a.cn/x '') = Inr (asc ''http://a.cn/x'')"
  by code_simp+

end
