(* ===== verification/Fetching.thy ===== *)
theory Fetching
  imports Urls Effects PyJson
begin

text \<open>
  \<open>backend/app/crawler/urls.py\<close>, \<open>dns.py\<close> and \<open>fetcher.py\<close>: fetching a page without reaching a
  host that is not public. The world outside is an environment that decides, call by call (the
  tick counts them), what name servers answer, which connections the HTTP client opens for a
  request, whether they succeed, and what the servers respond; it may be hostile. The world of the
  model records every request made and every connection attempted. \<open>httpx\<close> is that client: it opens
  its connections through the network backend it was built with. \<open>NFKC\<close>, IDNA encoding and
  \<open>json.loads\<close> are parameters.
\<close>

section \<open>The world outside\<close>

datatype net_event =
    Requested ustr            \<comment> \<open>the URL handed to the client\<close>
  | Connected ustr int        \<comment> \<open>the address and port a connection was attempted to\<close>

record net_world =
  nw_tick :: nat
  nw_log :: "net_event list"

text \<open>What the code reads of an \<open>httpx.Response\<close>; absent headers are \<open>None\<close>.\<close>

record http_response =
  hr_url :: ustr
  hr_status :: int
  hr_chunks :: "int list list"
  hr_location :: "ustr option"
  hr_length :: "ustr option"
  hr_type :: "ustr option"
  hr_encoding :: "ustr option"
  hr_disposition :: "ustr option"

record net_env =
  ne_nfkc :: "ustr \<Rightarrow> ustr"
  ne_idna :: "ustr \<Rightarrow> ustr option"
  ne_int :: "ustr \<Rightarrow> int option"                       \<comment> \<open>\<open>int(text)\<close>\<close>
  ne_loads :: "int list \<Rightarrow> exn + json"
  ne_timeout :: "nat \<Rightarrow> bool"
  ne_resolve :: "nat \<Rightarrow> ustr \<Rightarrow> exn + ustr list"        \<comment> \<open>the system resolver\<close>
  ne_doh :: "nat \<Rightarrow> ustr \<Rightarrow> ustr \<Rightarrow> exn + (int \<times> int list list)"
  ne_opens :: "nat \<Rightarrow> ustr \<Rightarrow> (ustr \<times> int) list"        \<comment> \<open>connections opened for a request\<close>
  ne_tcp :: "nat \<Rightarrow> ustr \<Rightarrow> int \<Rightarrow> exn option"          \<comment> \<open>why a connection fails\<close>
  ne_respond :: "nat \<Rightarrow> ustr \<Rightarrow> exn + http_response"
  ne_raises :: "int \<Rightarrow> exn option"                     \<comment> \<open>\<open>raise_for_status\<close>\<close>

type_synonym 'a net = "(net_world, 'a) eff"

definition tick :: "nat net" where
  "tick w = (w\<lparr>nw_tick := nw_tick w + 1\<rparr>, Inr (nw_tick w))"

definition note_event :: "net_event \<Rightarrow> unit net" where
  "note_event e w = (w\<lparr>nw_log := nw_log w @ [e]\<rparr>, Inr ())"

definition named :: "string list \<Rightarrow> exn \<Rightarrow> bool" where
  "named ns e \<longleftrightarrow> (case e of OtherError n \<Rightarrow> n \<in> set ns | _ \<Rightarrow> False)"

definition is_value_error :: "exn \<Rightarrow> bool" where
  "is_value_error e \<longleftrightarrow> (case e of ValueError m \<Rightarrow> True | CodedError c k r \<Rightarrow> c = ''CrawlDiscoveryError'' | _ \<Rightarrow> False) \<or>
    named [''UnsafeUrlError'', ''UnicodeEncodeError'', ''UnicodeDecodeError'', ''JSONDecodeError'', ''ResponseTooLargeError'', ''RedirectLimitError''] e"

definition is_os_error :: "exn \<Rightarrow> bool" where
  "is_os_error = named [''OSError'', ''DnsResolutionError'', ''gaierror'', ''TimeoutError'', ''ConnectionRefusedError'', ''ConnectionResetError'']"

section \<open>Names and addresses\<close>

definition ensure_public :: "ustr \<Rightarrow> exn + unit" where
  "ensure_public value =
    (case ip_address value of
       None \<Rightarrow> Inl unsafe
     | Some a \<Rightarrow> if public_address a then Inr () else Inl unsafe)"

definition ensure_public_addresses :: "ustr list \<Rightarrow> exn + ustr list" where
  "ensure_public_addresses values =
    (let addresses = nub values in
     if addresses = [] then Inl unsafe
     else rbind (rmap ensure_public addresses) (\<lambda>us. Inr addresses))"

text \<open>A resolver: the one of the system, or DNS over HTTPS.\<close>

definition json_is :: "int \<Rightarrow> json \<Rightarrow> bool" where
  "json_is k j = (case j of JInt n \<Rightarrow> n = k | JBool b \<Rightarrow> (if b then 1 else 0) = k | JFloat x \<Rightarrow> x = Fin (of_int k) | _ \<Rightarrow> False)"

definition doh_limit :: nat where
  "doh_limit = 64 * 1024"

definition doh_error :: exn where
  "doh_error = OtherError ''DnsResolutionError''"

fun read_chunks :: "exn \<Rightarrow> nat \<Rightarrow> int list \<Rightarrow> int list list \<Rightarrow> exn + int list" where
  "read_chunks e limit got [] = Inr got"
| "read_chunks e limit got (c # cs) =
    (if limit < length got + length c then Inl e else read_chunks e limit (got @ c) cs)"

definition doh_values :: "int \<Rightarrow> json \<Rightarrow> exn + ustr list" where
  "doh_values expected payload =
    (case payload of
       JObj p \<Rightarrow>
         if \<not> json_is 0 (jget p (asc ''Status'')) then Inl doh_error
         else (case dget_or p (asc ''Answer'') (JList []) of
           JList answers \<Rightarrow> Inr (nub (List.map_filter (\<lambda>item. case item of
               JObj a \<Rightarrow> if json_is expected (jget a (asc ''type'')) then (case jget a (asc ''data'') of JStr s \<Rightarrow> Some s | _ \<Rightarrow> None) else None
             | _ \<Rightarrow> None) answers))
         | _ \<Rightarrow> Inl doh_error)
     | _ \<Rightarrow> Inl doh_error)"

definition doh_caught :: "exn \<Rightarrow> bool" where
  "doh_caught e \<longleftrightarrow> is_value_error e \<or> named [''HTTPError'', ''ConnectError'', ''ReadTimeout'', ''TypeError''] e"

definition doh_query :: "net_env \<Rightarrow> ustr \<Rightarrow> ustr \<Rightarrow> ustr list net" where
  "doh_query env host kind =
    ebind tick (\<lambda>n.
    elift (case ne_doh env n host kind of
        Inl e \<Rightarrow> Inl (if doh_caught e then doh_error else e)
      | Inr (status, chunks) \<Rightarrow>
          if status \<noteq> 200 then Inl doh_error
          else rbind (read_chunks doh_error doh_limit [] chunks) (\<lambda>content.
            case ne_loads env content of
              Inl e \<Rightarrow> Inl (if doh_caught e then doh_error else e)
            | Inr payload \<Rightarrow> doh_values (if kind = asc ''A'' then 1 else 28) payload)))"

definition doh_resolve :: "net_env \<Rightarrow> ustr \<Rightarrow> ustr list net" where
  "doh_resolve env host =
    ebind (doh_query env host (asc ''A'')) (\<lambda>a.
    ebind (doh_query env host (asc ''AAAA'')) (\<lambda>b.
    let addresses = nub (a @ b) in
    if addresses = [] then eraise doh_error else ereturn addresses))"

definition system_resolve :: "net_env \<Rightarrow> ustr \<Rightarrow> ustr list net" where
  "system_resolve env host = ebind tick (\<lambda>n. elift (rbind (ne_resolve env n host) (\<lambda>as. Inr (nub as))))"

datatype resolver = SystemResolver | DohResolver

definition resolve_host :: "net_env \<Rightarrow> resolver \<Rightarrow> ustr \<Rightarrow> ustr list net" where
  "resolve_host env rs = (case rs of SystemResolver \<Rightarrow> system_resolve env | DohResolver \<Rightarrow> doh_resolve env)"

definition validate_public_url :: "net_env \<Rightarrow> resolver \<Rightarrow> ustr \<Rightarrow> ustr net" where
  "validate_public_url env rs url =
    (let candidate = strip url in
     ebind (elift (rbind (split_http_url (ne_nfkc env) candidate) (\<lambda>(u, p). url_host u))) (\<lambda>host.
     if 37 \<in> set host then eraise unsafe
     else case ip_address host of
       Some a \<Rightarrow> if public_address a then ereturn candidate else eraise unsafe
     | None \<Rightarrow>
         (case ne_idna env host of
            None \<Rightarrow> eraise unsafe
          | Some name \<Rightarrow>
              if name = asc ''localhost'' \<or> ends_with name (asc ''.localhost'') then eraise unsafe
              else
              ebind (ecatch (resolve_host env rs name) (\<lambda>e. eraise (if is_os_error e then unsafe else e))) (\<lambda>addresses.
              if addresses = [] then eraise unsafe
              else ebind (elift (rmap ensure_public addresses)) (\<lambda>us. ereturn candidate)))))"

section \<open>Connections\<close>

definition connect_error :: exn where
  "connect_error = OtherError ''ConnectError''"

fun try_addresses :: "net_env \<Rightarrow> int \<Rightarrow> exn option \<Rightarrow> ustr list \<Rightarrow> unit net" where
  "try_addresses env port last_error [] = eraise (case last_error of Some e \<Rightarrow> e | None \<Rightarrow> connect_error)"
| "try_addresses env port last_error (a # as) =
    ebind tick (\<lambda>n.
    ebind (note_event (Connected a port)) (\<lambda>u.
    case ne_tcp env n a port of
      None \<Rightarrow> ereturn ()
    | Some e \<Rightarrow> if named [''ConnectError'', ''ConnectTimeout''] e then try_addresses env port (Some e) as else eraise e))"

definition connect_tcp :: "net_env \<Rightarrow> resolver \<Rightarrow> ustr \<Rightarrow> int \<Rightarrow> unit net" where
  "connect_tcp env rs host port =
    ebind
      (ecatch
        (ebind (case ip_address host of Some a \<Rightarrow> ereturn [ip_str a] | None \<Rightarrow> resolve_host env rs host) (\<lambda>values.
         elift (ensure_public_addresses values)))
        (\<lambda>e. eraise (if is_os_error e \<or> is_value_error e then connect_error else e)))
      (\<lambda>addresses. try_addresses env port None addresses)"

text \<open>
  The network backend of the client: the pinned one of \<open>dns.py\<close>, or the default one, which resolves
  the name again by itself.
\<close>

definition plain_connect :: "net_env \<Rightarrow> ustr \<Rightarrow> int \<Rightarrow> unit net" where
  "plain_connect env host port =
    ebind tick (\<lambda>n.
    ebind (elift (ne_resolve env n host)) (\<lambda>as. try_addresses env port None as))"

record fetcher =
  ft_max_bytes :: nat
  ft_max_redirects :: nat
  ft_resolver :: resolver
  ft_pinned :: bool

definition backend_connect :: "net_env \<Rightarrow> fetcher \<Rightarrow> ustr \<Rightarrow> int \<Rightarrow> unit net" where
  "backend_connect env f = (if ft_pinned f then connect_tcp env (ft_resolver f) else plain_connect env)"

fun open_all :: "(ustr \<Rightarrow> int \<Rightarrow> unit net) \<Rightarrow> (ustr \<times> int) list \<Rightarrow> unit net" where
  "open_all connect [] = ereturn ()"
| "open_all connect ((h, p) # hs) = ebind (connect h p) (\<lambda>u. open_all connect hs)"

text \<open>\<open>client.stream("GET", url)\<close>: the connections of the request, then the response.\<close>

definition client_stream :: "net_env \<Rightarrow> fetcher \<Rightarrow> ustr \<Rightarrow> http_response net" where
  "client_stream env f url =
    ebind tick (\<lambda>n.
    ebind (note_event (Requested url)) (\<lambda>u.
    ebind (open_all (backend_connect env f) (ne_opens env n url)) (\<lambda>u.
    elift (ne_respond env n url))))"

section \<open>The fetcher\<close>

record fetched =
  fe_url :: ustr
  fe_status :: int
  fe_content :: "int list"
  fe_type :: ustr
  fe_encoding :: ustr
  fe_disposition :: "ustr option"

definition redirect_codes :: "int list" where
  "redirect_codes = [301, 302, 303, 307, 308]"

definition content_length :: "net_env \<Rightarrow> http_response \<Rightarrow> exn + int option" where
  "content_length env r =
    (case hr_length r of
       None \<Rightarrow> Inr None
     | Some v \<Rightarrow> (case ne_int env v of
         None \<Rightarrow> Inl (ValueError ''response Content-Length is invalid'')
       | Some n \<Rightarrow> if n < 0 then Inl (ValueError ''response Content-Length is invalid'') else Inr (Some n)))"

definition too_large :: exn where
  "too_large = OtherError ''ResponseTooLargeError''"

definition read_limited :: "net_env \<Rightarrow> fetcher \<Rightarrow> http_response \<Rightarrow> exn + int list" where
  "read_limited env f r =
    rbind (content_length env r) (\<lambda>declared.
    if (case declared of Some n \<Rightarrow> int (ft_max_bytes f) < n | None \<Rightarrow> False) then Inl too_large
    else read_chunks too_large (ft_max_bytes f) [] (hr_chunks r))"

definition encoding_from_content_type :: "ustr \<Rightarrow> ustr option" where
  "encoding_from_content_type v =
    (let charset = List.map_filter (\<lambda>item. case py_partition 61 (strip item) of (key, sep, content) \<Rightarrow>
        if sep \<and> lower key = asc ''charset'' then Some (strip_chars [34, 39, 32] content) else None) (tl (split_on 59 v)) in
     case charset of [] \<Rightarrow> None | c # cs \<Rightarrow> Some c)"

definition redirect_limit :: exn where
  "redirect_limit = OtherError ''RedirectLimitError''"

definition check_status :: "net_env \<Rightarrow> int \<Rightarrow> exn + unit" where
  "check_status env s = (case ne_raises env s of Some e \<Rightarrow> Inl e | None \<Rightarrow> Inr ())"

definition truthy_or :: "ustr option \<Rightarrow> ustr \<Rightarrow> ustr" where
  "truthy_or v d = (case v of Some s \<Rightarrow> if s = [] then d else s | None \<Rightarrow> d)"

definition receive :: "net_env \<Rightarrow> fetcher \<Rightarrow> http_response \<Rightarrow> exn + fetched" where
  "receive env f r =
    rbind (check_status env (hr_status r)) (\<lambda>u.
    rbind (read_limited env f r) (\<lambda>content.
    let ctype = (case hr_type r of Some t \<Rightarrow> t | None \<Rightarrow> asc ''application/octet-stream'') in
    Inr \<lparr>fe_url = hr_url r, fe_status = hr_status r, fe_content = content,
      fe_type = lower (strip (hd (split_on 59 ctype))),
      fe_encoding = truthy_or (hr_encoding r) (truthy_or (encoding_from_content_type ctype) (asc ''utf-8'')),
      fe_disposition = hr_disposition r\<rparr>))"

definition timed :: "net_env \<Rightarrow> 'a net \<Rightarrow> 'a net" where
  "timed env m = ebind tick (\<lambda>n. if ne_timeout env n then eraise (OtherError ''TimeoutError'') else m)"

text \<open>The redirect loop; \<open>left\<close> is the number of redirects that may still be followed.\<close>

fun fetch_loop :: "net_env \<Rightarrow> fetcher \<Rightarrow> nat \<Rightarrow> ustr \<Rightarrow> fetched net" where
  "fetch_loop env f left url =
    ebind (timed env (validate_public_url env (ft_resolver f) url)) (\<lambda>current.
    ebind (client_stream env f current) (\<lambda>r.
    if hr_status r \<in> set redirect_codes then
      ebind (elift (if hr_location r = None then check_status env (hr_status r) else Inr ())) (\<lambda>u.
      (case left of
         0 \<Rightarrow> eraise redirect_limit
       | Suc k \<Rightarrow>
           ebind (elift (case hr_location r of Some l \<Rightarrow> urljoin (ne_nfkc env) (hr_url r) l | None \<Rightarrow> Inr (hr_url r)))
             (fetch_loop env f k)))
    else elift (receive env f r)))"

fun retry_fetch :: "nat \<Rightarrow> 'a net \<Rightarrow> 'a net" where
  "retry_fetch n m =
    ecatch m (\<lambda>e. case n of
        Suc (Suc k) \<Rightarrow> if named [''ConnectError'', ''ReadTimeout''] e then retry_fetch (Suc k) m else eraise e
      | _ \<Rightarrow> eraise e)"

definition fetch :: "net_env \<Rightarrow> fetcher \<Rightarrow> ustr \<Rightarrow> fetched net" where
  "fetch env f url = retry_fetch 3 (fetch_loop env f (ft_max_redirects f) url)"

section \<open>What a fetch does to the world\<close>

definition is_request :: "net_event \<Rightarrow> bool" where
  "is_request e \<longleftrightarrow> (case e of Requested u \<Rightarrow> True | _ \<Rightarrow> False)"

definition extends :: "(net_event \<Rightarrow> bool) \<Rightarrow> nat \<Rightarrow> net_world \<Rightarrow> net_world \<Rightarrow> bool" where
  "extends P k w w' \<longleftrightarrow> (\<exists>new. nw_log w' = nw_log w @ new \<and> list_all P new \<and> count_if is_request new \<le> k)"

text \<open>\<open>m\<close> adds only events that satisfy \<open>P\<close>, at most \<open>k\<close> of them requests, however it ends.\<close>

definition emits :: "(net_event \<Rightarrow> bool) \<Rightarrow> nat \<Rightarrow> 'a net \<Rightarrow> bool" where
  "emits P k m \<longleftrightarrow> (\<forall>w. extends P k w (fst (m w)))"

definition gives :: "'a net \<Rightarrow> ('a \<Rightarrow> bool) \<Rightarrow> bool" where
  "gives m R \<longleftrightarrow> (\<forall>w w' a. m w = (w', Inr a) \<longrightarrow> R a)"

lemma extends_refl [simp]: "extends P k w w"
  by (auto simp: extends_def count_if_def intro: exI [of _ "[]"])

lemma extends_trans: "extends P j w w' \<Longrightarrow> extends P k w' w'' \<Longrightarrow> extends P (j + k) w w''"
  unfolding extends_def count_if_def by (metis add_mono append_assoc filter_append length_append list_all_append)

lemma extends_mono: "extends P j w w' \<Longrightarrow> j \<le> k \<Longrightarrow> extends P k w w'"
  unfolding extends_def by (meson le_trans)

lemma emits_mono: "emits P j m \<Longrightarrow> j \<le> k \<Longrightarrow> emits P k m"
  unfolding emits_def using extends_mono by blast

lemma emits_return [simp]: "emits P k (ereturn a)"
  by (simp add: emits_def ereturn_def)

lemma emits_raise [simp]: "emits P k (eraise e)"
  by (simp add: emits_def eraise_def)

lemma emits_lift [simp]: "emits P k (elift r)"
  by (simp add: emits_def elift_def)

lemma emits_tick [simp]: "emits P k tick"
  by (auto simp: emits_def tick_def extends_def count_if_def)

lemma emits_note: "P e \<Longrightarrow> (if is_request e then 1 else 0) \<le> k \<Longrightarrow> emits P k (note_event e)"
  by (auto simp: emits_def note_event_def extends_def count_if_def split: if_splits)

lemma emits_bind_when:
  assumes "emits P j m" "gives m R" "\<And>a. R a \<Longrightarrow> emits P k (f a)"
  shows "emits P (j + k) (ebind m f)"
  unfolding emits_def
proof
  fix w
  obtain w' r where m: "m w = (w', r)" by (cases "m w") auto
  have e: "extends P j w w'" using assms(1) m unfolding emits_def by (metis fst_conv)
  show "extends P (j + k) w (fst (ebind m f w))"
  proof (cases r)
    case (Inl x)
    then show ?thesis using extends_mono [OF e] m by (simp add: ebind_def)
  next
    case (Inr a)
    then have "extends P k w' (fst (f a w'))" using assms(2,3) m unfolding gives_def emits_def by blast
    then show ?thesis using extends_trans [OF e] m Inr by (simp add: ebind_def)
  qed
qed

lemma emits_bind: "emits P j m \<Longrightarrow> (\<And>a. emits P k (f a)) \<Longrightarrow> emits P (j + k) (ebind m f)"
  by (rule emits_bind_when [where R = "\<lambda>a. True"]) (simp_all add: gives_def)

lemma emits_bind0: "emits P 0 m \<Longrightarrow> (\<And>a. emits P k (f a)) \<Longrightarrow> emits P k (ebind m f)"
  using emits_bind [of P 0 m k f] by simp

lemma emits_catch:
  assumes "emits P j m" "\<And>e. emits P k (h e)"
  shows "emits P (j + k) (ecatch m h)"
  unfolding emits_def
proof
  fix w
  obtain w' r where m: "m w = (w', r)" by (cases "m w") auto
  have e: "extends P j w w'" using assms(1) m unfolding emits_def by (metis fst_conv)
  show "extends P (j + k) w (fst (ecatch m h w))"
  proof (cases r)
    case (Inl x)
    then have "extends P k w' (fst (h x w'))" using assms(2) unfolding emits_def by blast
    then show ?thesis using extends_trans [OF e] m Inl by (simp add: ecatch_def)
  next
    case (Inr a)
    then show ?thesis using extends_mono [OF e] m by (simp add: ecatch_def)
  qed
qed

lemma emits_catch0: "emits P k m \<Longrightarrow> (\<And>e. emits P 0 (h e)) \<Longrightarrow> emits P k (ecatch m h)"
  using emits_catch [of P k m 0 h] by simp

lemmas emits_rules = emits_bind0 emits_catch0 emits_return emits_raise emits_lift emits_tick

lemma gives_raise: "gives (eraise e) R"
  by (simp add: gives_def eraise_def)

lemma gives_lift: "(\<And>a. r = Inr a \<Longrightarrow> R a) \<Longrightarrow> gives (elift r) R"
  by (simp add: gives_def elift_def)

lemma gives_return: "R a \<Longrightarrow> gives (ereturn a) R"
  by (simp add: gives_def ereturn_def)

lemma gives_bind: "(\<And>a. gives (f a) R) \<Longrightarrow> gives (ebind m f) R"
  unfolding gives_def ebind_def by (fastforce split: prod.splits sum.splits)

lemma gives_bind_when: "gives m S \<Longrightarrow> (\<And>a. S a \<Longrightarrow> gives (f a) R) \<Longrightarrow> gives (ebind m f) R"
  unfolding gives_def ebind_def by (fastforce split: prod.splits sum.splits)

lemma gives_catch: "gives m R \<Longrightarrow> (\<And>e. gives (h e) R) \<Longrightarrow> gives (ecatch m h) R"
  unfolding gives_def ecatch_def by (fastforce split: prod.splits sum.splits)

section \<open>Only public hosts\<close>

text \<open>
  What an address the code accepts is in numbers, independent of its tables: an IPv4 address
  outside this network, private networks, shared address space, loopback, link local, multicast
  and the reserved blocks; or an IPv6 address in \<open>2000::/3\<close>, the block of global unicast, outside
  6to4 and documentation.
\<close>

definition global_v4 :: "32 word \<Rightarrow> bool" where
  "global_v4 a \<longleftrightarrow> unat a div 2 ^ 24 \<notin> {0, 10, 127} \<and> unat a div 2 ^ 24 < 224 \<and> unat a div 2 ^ 22 \<noteq> 401
     \<and> unat a div 2 ^ 20 \<noteq> 2753 \<and> unat a div 2 ^ 16 \<notin> {43518, 49320}"

fun global_unicast :: "ip_addr \<Rightarrow> bool" where
  "global_unicast (IPv4 a) = global_v4 a"
| "global_unicast (IPv6 a z) = (case ipv4_mapped a of Some w \<Rightarrow> global_v4 w
     | None \<Rightarrow> unat a div 2 ^ 125 = 1 \<and> unat a div 2 ^ 112 \<noteq> 8194 \<and> unat a div 2 ^ 96 \<noteq> 536939960)"

lemma public_global: "public_address a \<Longrightarrow> global_unicast a"
proof (cases a)
  case (IPv4 w)
  then show "public_address a \<Longrightarrow> ?thesis" using public_v4_range [of w] by (simp add: global_v4_def)
next
  case (IPv6 w z)
  then show "public_address a \<Longrightarrow> ?thesis"
    using public_v6_range [of w z] public_v4_range [of "the (ipv4_mapped w)"]
    by (cases "ipv4_mapped w") (simp_all add: global_v4_def)
qed

definition public_text :: "ustr \<Rightarrow> bool" where
  "public_text s \<longleftrightarrow> (\<exists>a. ip_address s = Some a \<and> public_address a \<and> global_unicast a)"

text \<open>A URL the fetcher may request: http or https, without credentials, to a public literal or a name.\<close>

definition request_ok :: "net_env \<Rightarrow> ustr \<Rightarrow> bool" where
  "request_ok env url \<longleftrightarrow> (\<exists>u p host. split_http_url (ne_nfkc env) url = Inr (u, p) \<and> url_host u = Inr host \<and> 37 \<notin> set host
     \<and> (case ip_address host of Some a \<Rightarrow> public_address a \<and> global_unicast a
        | None \<Rightarrow> \<exists>name. ne_idna env host = Some name \<and> name \<noteq> asc ''localhost'' \<and> \<not> ends_with name (asc ''.localhost'')))"

fun event_ok :: "bool \<Rightarrow> net_env \<Rightarrow> net_event \<Rightarrow> bool" where
  "event_ok pinned env (Requested u) = request_ok env u"
| "event_ok pinned env (Connected a p) = (pinned \<longrightarrow> public_text a)"

lemma rmap_Inr_all: "rmap f xs = Inr ys \<Longrightarrow> x \<in> set xs \<Longrightarrow> \<exists>y. f x = Inr y"
  by (induction xs arbitrary: ys) (auto simp: rbind_Inr)

lemma ensure_public_Inr: "ensure_public a = Inr u \<Longrightarrow> public_text a"
  using public_global by (auto simp: ensure_public_def public_text_def split: option.splits if_splits)

lemma ensured_addresses: "ensure_public_addresses vs = Inr as \<Longrightarrow> \<forall>a \<in> set as. public_text a"
  using ensure_public_Inr rmap_Inr_all by (fastforce simp: ensure_public_addresses_def Let_def rbind_Inr split: if_splits)

lemma emits_resolve [simp]: "emits P k (resolve_host env rs h)"
  by (cases rs) (auto simp: resolve_host_def system_resolve_def doh_resolve_def doh_query_def Let_def intro!: emits_rules)

lemma emits_validate: "emits P k (validate_public_url env rs url)"
  unfolding validate_public_url_def Let_def
  by (intro emits_bind0 emits_lift) (auto split: option.splits intro!: emits_rules)

lemma gives_validate: "gives (validate_public_url env rs url) (request_ok env)"
  unfolding validate_public_url_def Let_def
proof (rule gives_bind_when [where S = "\<lambda>host. \<exists>u p. split_http_url (ne_nfkc env) (strip url) = Inr (u, p) \<and> url_host u = Inr host"])
  show "gives (elift (rbind (split_http_url (ne_nfkc env) (strip url)) (\<lambda>(u, p). url_host u)))
     (\<lambda>host. \<exists>u p. split_http_url (ne_nfkc env) (strip url) = Inr (u, p) \<and> url_host u = Inr host)"
    by (rule gives_lift) (auto simp: rbind_Inr)
  fix host
  assume "\<exists>u p. split_http_url (ne_nfkc env) (strip url) = Inr (u, p) \<and> url_host u = Inr host"
  then have ok: "request_ok env (strip url)" if "37 \<notin> set host"
      "case ip_address host of Some a \<Rightarrow> public_address a
        | None \<Rightarrow> \<exists>name. ne_idna env host = Some name \<and> name \<noteq> asc ''localhost'' \<and> \<not> ends_with name (asc ''.localhost'')"
    using that public_global unfolding request_ok_def by (auto split: option.splits)
  show "gives (if 37 \<in> set host then eraise unsafe
     else case ip_address host of
       Some a \<Rightarrow> if public_address a then ereturn (strip url) else eraise unsafe
     | None \<Rightarrow> (case ne_idna env host of
            None \<Rightarrow> eraise unsafe
          | Some name \<Rightarrow>
              if name = asc ''localhost'' \<or> ends_with name (asc ''.localhost'') then eraise unsafe
              else ebind (ecatch (resolve_host env rs name) (\<lambda>e. eraise (if is_os_error e then unsafe else e))) (\<lambda>addresses.
                if addresses = [] then eraise unsafe
                else ebind (elift (rmap ensure_public addresses)) (\<lambda>us. ereturn (strip url))))) (request_ok env)"
    using ok by (auto split: option.splits intro!: gives_raise gives_return gives_bind)
qed

lemma emits_try: "\<forall>a \<in> set as. P (Connected a port) \<Longrightarrow> emits P 0 (try_addresses env port e as)"
proof (induction as arbitrary: e)
  case (Cons a as)
  have "emits P 0 (note_event (Connected a port))" using Cons.prems by (intro emits_note) (simp_all add: is_request_def)
  then show ?case using Cons by (auto intro!: emits_rules split: option.splits)
qed simp

lemma emits_connect: "(\<And>a. public_text a \<Longrightarrow> P (Connected a port)) \<Longrightarrow> emits P 0 (connect_tcp env rs host port)"
  unfolding connect_tcp_def
  by (rule emits_bind_when [where j = 0 and k = 0 and R = "\<lambda>as. \<forall>a \<in> set as. public_text a", simplified])
    (auto intro!: emits_rules emits_try gives_catch gives_bind gives_lift gives_raise ensured_addresses split: option.splits)

lemma emits_open: "(\<And>h p. emits P 0 (c h p)) \<Longrightarrow> emits P 0 (open_all c hs)"
  by (induction c hs rule: open_all.induct) (auto intro!: emits_rules)

lemma emits_backend: "emits (event_ok (ft_pinned f) env) 0 (backend_connect env f host port)"
proof (cases "ft_pinned f")
  case True
  then show ?thesis by (auto simp: backend_connect_def intro!: emits_connect)
next
  case False
  then show ?thesis by (auto simp: backend_connect_def plain_connect_def intro!: emits_rules emits_try)
qed

lemma emits_stream:
  assumes "request_ok env url"
  shows "emits (event_ok (ft_pinned f) env) 1 (client_stream env f url)"
  unfolding client_stream_def
proof (rule emits_bind0 [OF emits_tick])
  fix n
  have "emits (event_ok (ft_pinned f) env) 1 (note_event (Requested url))"
    using assms by (intro emits_note) (simp_all add: is_request_def)
  moreover have "emits (event_ok (ft_pinned f) env) 0 (ebind (open_all (backend_connect env f) (ne_opens env n url)) (\<lambda>u. elift (ne_respond env n url)))"
    by (intro emits_rules emits_open emits_backend)
  ultimately show "emits (event_ok (ft_pinned f) env) 1 (ebind (note_event (Requested url))
      (\<lambda>u. ebind (open_all (backend_connect env f) (ne_opens env n url)) (\<lambda>u. elift (ne_respond env n url))))"
    using emits_bind [of _ 1 _ 0] by fastforce
qed

lemma emits_hop:
  assumes "\<And>r. emits (event_ok (ft_pinned f) env) k (g r)"
  shows "emits (event_ok (ft_pinned f) env) (k + 1)
    (ebind (timed env (validate_public_url env (ft_resolver f) url)) (\<lambda>current. ebind (client_stream env f current) g))"
proof -
  have "emits (event_ok (ft_pinned f) env) (0 + (1 + k))
    (ebind (timed env (validate_public_url env (ft_resolver f) url)) (\<lambda>current. ebind (client_stream env f current) g))"
  proof (rule emits_bind_when)
    show "emits (event_ok (ft_pinned f) env) 0 (timed env (validate_public_url env (ft_resolver f) url))"
      by (auto simp: timed_def intro!: emits_rules emits_validate)
    show "gives (timed env (validate_public_url env (ft_resolver f) url)) (request_ok env)"
      by (auto simp: timed_def intro!: gives_bind gives_raise gives_validate)
    show "emits (event_ok (ft_pinned f) env) (1 + k) (ebind (client_stream env f a) g)" if "request_ok env a" for a
      by (rule emits_bind [OF emits_stream [OF that] assms])
  qed
  then show ?thesis by simp
qed

lemma emits_loop: "emits (event_ok (ft_pinned f) env) (left + 1) (fetch_loop env f left url)"
proof (induction left arbitrary: url)
  case 0
  show ?case unfolding fetch_loop.simps [of env f 0] by (rule emits_hop) (auto intro!: emits_rules)
next
  case (Suc left)
  have "emits (event_ok (ft_pinned f) env) (Suc left) (fetch_loop env f left u)" for u using Suc by simp
  then show ?case unfolding fetch_loop.simps [of env f "Suc left"] by (rule_tac emits_hop) (auto intro!: emits_rules)
qed

lemma emits_retry:
  assumes "emits P k m"
  shows "emits P (Suc n * k) (retry_fetch (Suc n) m)"
proof (induction n)
  case 0
  then show ?case using emits_catch0 [OF assms] by (subst retry_fetch.simps) simp
next
  case (Suc n)
  have "emits P (k + Suc n * k) (ecatch m (\<lambda>e. if named [''ConnectError'', ''ReadTimeout''] e then retry_fetch (Suc n) m else eraise e))"
    by (rule emits_catch [OF assms]) (use Suc in auto)
  then show ?case by (subst retry_fetch.simps) simp
qed

lemma emits_fetch: "emits (event_ok (ft_pinned f) env) (3 * (ft_max_redirects f + 1)) (fetch env f url)"
  using emits_retry [OF emits_loop, of f env 2 "ft_max_redirects f" url] by (simp add: fetch_def numeral_3_eq_3)

lemma read_chunks_limit: "read_chunks e limit got cs = Inr c \<Longrightarrow> length got \<le> limit \<Longrightarrow> length c \<le> limit"
  by (induction e limit got cs rule: read_chunks.induct) (auto split: if_splits)

lemma receive_ok: "receive env f r = Inr x \<Longrightarrow> length (fe_content x) \<le> ft_max_bytes f \<and> ne_raises env (fe_status x) = None \<and> fe_status x = hr_status r"
  using read_chunks_limit
  by (auto simp: receive_def read_limited_def check_status_def rbind_Inr Let_def split: if_splits option.splits)

definition fetched_ok :: "net_env \<Rightarrow> fetcher \<Rightarrow> fetched \<Rightarrow> bool" where
  "fetched_ok env f x \<longleftrightarrow> length (fe_content x) \<le> ft_max_bytes f \<and> ne_raises env (fe_status x) = None \<and> fe_status x \<notin> set redirect_codes"

lemma receive_fetched: "hr_status r \<notin> set redirect_codes \<Longrightarrow> receive env f r = Inr x \<Longrightarrow> fetched_ok env f x"
  using receive_ok [of env f r x] unfolding fetched_ok_def by metis

lemma gives_loop: "gives (fetch_loop env f left url) (fetched_ok env f)"
proof (induction left arbitrary: url)
  case 0
  show ?case unfolding fetch_loop.simps [of env f 0]
    by (auto intro!: gives_bind gives_raise gives_lift receive_fetched)
next
  case (Suc left)
  show ?case unfolding fetch_loop.simps [of env f "Suc left"]
    using Suc by (auto intro!: gives_bind gives_raise gives_lift receive_fetched)
qed

lemma gives_retry: "gives m R \<Longrightarrow> gives (retry_fetch n m) R"
proof (induction n m rule: retry_fetch.induct)
  case (1 n m)
  show ?case using 1(1) [OF _ _ _ 1(2)] 1(2)
    by (subst retry_fetch.simps) (auto split: nat.splits intro!: gives_catch gives_raise)
qed

text \<open>
  C18. Whatever name servers and servers answer, and however they change their answers between
  the check and the connection, a fetch through the pinned transport attempts connections only
  to public addresses: IPv4 outside private, shared, loopback, link-local, multicast and
  reserved blocks, or IPv6 in 2000::/3 outside 6to4. This covers every redirect and every retry;
  every URL requested is http or https, without credentials, and names a public literal or a
  name other than localhost.
\<close>

theorem fetch_reaches_public:
  assumes pinned: "ft_pinned f" and run: "fetch env f url w = (w', r)"
  shows "\<exists>new. nw_log w' = nw_log w @ new
    \<and> (\<forall>a port. Connected a port \<in> set new \<longrightarrow> (\<exists>ad. ip_address a = Some ad \<and> public_address ad \<and> global_unicast ad))
    \<and> (\<forall>u. Requested u \<in> set new \<longrightarrow> request_ok env u)"
proof -
  obtain new where new: "nw_log w' = nw_log w @ new" "list_all (event_ok True env) new"
    using emits_fetch [of f env url] pinned run unfolding emits_def extends_def by (metis fst_conv)
  then show ?thesis by (fastforce simp: list_all_iff public_text_def)
qed

text \<open>
  C33. A fetch makes at most three attempts of one request and max_redirects further ones each,
  whatever the servers answer; when it returns, the content has at most max_bytes bytes, the
  status passed raise_for_status and is no redirect.
\<close>

theorem fetch_bounded:
  assumes run: "fetch env f url w = (w', r)"
  shows "count_if is_request (nw_log w') \<le> count_if is_request (nw_log w) + 3 * (ft_max_redirects f + 1)
    \<and> (\<forall>x. r = Inr x \<longrightarrow> length (fe_content x) \<le> ft_max_bytes f \<and> ne_raises env (fe_status x) = None
         \<and> fe_status x \<notin> set redirect_codes)"
proof -
  obtain new where "nw_log w' = nw_log w @ new" "count_if is_request new \<le> 3 * (ft_max_redirects f + 1)"
    using emits_fetch [of f env url] run unfolding emits_def extends_def by (metis fst_conv)
  moreover have "gives (fetch env f url) (fetched_ok env f)" unfolding fetch_def by (intro gives_retry gives_loop)
  ultimately show ?thesis using run unfolding gives_def fetched_ok_def by (auto simp: count_if_def)
qed


text \<open>
  A site whose name resolves to a public address until the third call of the environment and to a
  loopback address afterwards.
\<close>

definition sample_net :: "(nat \<Rightarrow> ustr) \<Rightarrow> net_env" where
  "sample_net answers = \<lparr>ne_nfkc = \<lambda>s. s, ne_idna = Some, ne_int = \<lambda>s. None, ne_loads = \<lambda>c. Inl (ValueError ''json''),
     ne_timeout = \<lambda>n. False, ne_resolve = \<lambda>n h. Inr [answers n], ne_doh = \<lambda>n h k. Inl (OtherError ''HTTPError''),
     ne_opens = \<lambda>n u. [(asc ''example.gov.cn'', 80)], ne_tcp = \<lambda>n a p. None,
     ne_respond = \<lambda>n u. Inr \<lparr>hr_url = u, hr_status = 200, hr_chunks = [[104, 105]], hr_location = None, hr_length = None,
        hr_type = Some (asc ''Text/HTML; charset=gbk''), hr_encoding = None, hr_disposition = None\<rparr>,
     ne_raises = \<lambda>s. if s = 200 then None else Some (OtherError ''HTTPStatusError'')\<rparr>"

definition rebinding :: "nat \<Rightarrow> ustr" where
  "rebinding n = (if n < 3 then asc ''93.184.216.34'' else asc ''127.0.0.1'')"

definition sample_fetcher :: "bool \<Rightarrow> fetcher" where
  "sample_fetcher pinned = \<lparr>ft_max_bytes = 1024, ft_max_redirects = 0, ft_resolver = SystemResolver, ft_pinned = pinned\<rparr>"

definition start_world :: net_world where
  "start_world = \<lparr>nw_tick = 0, nw_log = []\<rparr>"


definition sample_page :: fetched where
  "sample_page = \<lparr>fe_url = asc ''http://example.gov.cn/a'', fe_status = 200, fe_content = [104, 105],
     fe_type = asc ''text/html'', fe_encoding = asc ''gbk'', fe_disposition = None\<rparr>"

lemma sample_fetch:
  "fetch (sample_net (\<lambda>n. asc ''93.184.216.34'')) (sample_fetcher True) (asc ''http://example.gov.cn/a'') start_world =
    (\<lparr>nw_tick = 5, nw_log = [Requested (asc ''http://example.gov.cn/a''), Connected (asc ''93.184.216.34'') 80]\<rparr>, Inr sample_page)"
  by code_simp

theorem fetch_reaches_public_witness:
  "\<exists>ad. ip_address (asc ''93.184.216.34'') = Some ad \<and> public_address ad \<and> global_unicast ad"
  using fetch_reaches_public [OF _ sample_fetch] by (simp add: sample_fetcher_def start_world_def)

theorem fetch_bounded_witness:
  "count_if is_request [Requested (asc ''http://example.gov.cn/a''), Connected (asc ''93.184.216.34'') 80] \<le> 3
    \<and> length (fe_content sample_page) \<le> 1024"
  using fetch_bounded [OF sample_fetch] by (simp add: sample_fetcher_def start_world_def count_if_def)

text \<open>
  A name that changes its answer between the check and the connection: the pinned transport refuses
  the new answer, the default one, which resolves the name again, connects to it.
\<close>

lemma rebinding_refused:
  "fetch (sample_net rebinding) (sample_fetcher True) (asc ''http://example.gov.cn/a'') start_world =
    (\<lparr>nw_tick = 6, nw_log = [Requested (asc ''http://example.gov.cn/a'')]\<rparr>, Inl unsafe)"
  by code_simp

lemma rebinding_unpinned:
  "Connected (asc ''127.0.0.1'') 80 \<in> set (nw_log (fst
    (fetch (sample_net rebinding) (sample_fetcher False) (asc ''http://example.gov.cn/a'') start_world)))"
  by code_simp

section \<open>Links\<close>

text \<open>The host of a URL as the crawlers compare it, and a link resolved against its page.\<close>

definition dotless :: "ustr \<Rightarrow> ustr" where
  "dotless h = rstrip_if (\<lambda>c. c = 46) (lower h)"

definition host_of :: "url_parts \<Rightarrow> ustr" where
  "host_of u = dotless (case hostname u of Some h \<Rightarrow> h | None \<Rightarrow> [])"

definition url_site :: "(ustr \<Rightarrow> ustr) \<Rightarrow> ustr \<Rightarrow> exn + ustr" where
  "url_site nfkc url = rbind (urlsplit nfkc [] url) (\<lambda>u. Inr (host_of u))"

text \<open>\<open>continue\<close> on a \<open>ValueError\<close> of \<open>normalize_url\<close>.\<close>

definition usable_url :: "(ustr \<Rightarrow> ustr) \<Rightarrow> ustr \<Rightarrow> ustr \<Rightarrow> exn + ustr option" where
  "usable_url nfkc base href =
    (case normalize_url nfkc (Some base) href of
       Inr u \<Rightarrow> Inr (Some u)
     | Inl e \<Rightarrow> if is_value_error e then Inr None else Inl e)"

end
