(* ===== verification/SourceTopic.thy ===== *)
theory SourceTopic
  imports Fetching
begin

text \<open>
  The rules of source discovery that work on texts and URLs alone
  (\<open>backend/app/services/source_discovery.py\<close>, \<open>backend/app/source_discovery/providers.py\<close>): which
  pages are relevant to a topic, which hosts are official and of one site, which links of a page are
  columns or documents, and the decoding of the search provider's answer. The elements that the
  HTML parser selects, NFKC and SHA-1 are parameters.
\<close>

section \<open>Constants\<close>

definition column_terms :: "ustr list" where
  "column_terms = [[25919, 31574], [36890, 30693], [20844, 21578], [20844, 31034], [25919, 21153, 20844, 24320], [27861, 35268], [25991, 20214], [21150, 20107], [26032, 38395], [21160, 24577], [35268, 21010],
     [35299, 35835], asc ''policy'', asc ''notice'', asc ''announcement'', asc ''document'', asc ''government'', asc ''open'']"

definition detail_extensions :: "ustr list" where
  "detail_extensions = map asc [''.pdf'', ''.doc'', ''.docx'', ''.xls'', ''.xlsx'', ''.zip'']"

definition official_markers :: "ustr list" where
  "official_markers = [[25919, 24220], [25919, 21153], [20154, 27665, 25919, 24220], asc ''government'', asc ''official'', asc ''gov'']"

definition jxt_host :: ustr where
  "jxt_host = asc ''jxt.sc.gov.cn''"

definition jxt_detail_rx :: rx where
  "jxt_detail_rx = seqs [Bol, ilit (asc ''/scjxt/''), Grp ''section'' (rplus (none_of (asc ''/''))),
     lit (asc ''/''), rtimes 4 4 Digit, lit (asc ''/''), rtimes 1 2 Digit, lit (asc ''/''),
     rtimes 1 2 Digit, lit (asc ''/''), rtimes 32 32 (Cls False [(48, 57), (97, 102), (65,
     70)]), ilit (asc ''.shtml''), Eol]"

definition jxt_list_rx :: rx where
  "jxt_list_rx = seqs [Bol, ilit (asc ''/scjxt/''), rplus (none_of (asc ''/'')), lit (asc ''/''),
     alts [seqs [ilit (asc ''common_list''), ropt (ilit (asc ''nb''))],
     seqs [rstar (none_of (asc ''/'')), ilit (asc ''_list'')], ilit (asc ''news'')],
     ilit (asc ''.shtml''), Eol]"

definition jxt_column_priority :: "(ustr, int) dict" where
  "jxt_column_priority = [(asc ''xzgfxwj'', 600), (asc ''wjfb'', 550), (asc ''zcjdn'', 525), (asc ''ggtz'', 500),
     (asc ''jxtz'', 450), (asc ''xwzx'', 100)]"

definition software_strong_terms :: "ustr list" where
  "software_strong_terms = [[36719, 20214, 20135, 19994], [36719, 20214, 19994], [36719, 20214, 21644, 20449, 24687, 25216, 26415, 26381, 21153, 19994], [36719, 20214, 21644, 20449, 24687, 26381, 21153, 19994], [24037, 19994, 36719, 20214], [36719, 20214, 20225, 19994],
     [36719, 20214, 26381, 21153], [20449, 24687, 26381, 21153, 19994], [36719, 20214, 39318, 29256, 27425]]"

definition software_broad_terms :: "ustr list" where
  "software_broad_terms = [[20449, 24687, 21270], [25968, 23383, 32463, 27982], [25968, 23383, 21270, 36716, 22411], [24037, 19994, 20114, 32852, 32593], [30005, 23376, 20449, 24687], [20449, 24687, 20135, 19994]]"

definition policy_document_cues :: "ustr list" where
  "policy_document_cues = [[25919, 31574], [35268, 21010], [26041, 26696], [21150, 27861], [36890, 30693], [20844, 21578], [20844, 31034], [24847, 35265], [35201, 28857], [30446, 24405], [34892, 21160],
     [30003, 25253], [24449, 38598], [35299, 35835], [20248, 24800], [26680, 26597], [31649, 29702], [25903, 25345], [39033, 30446]]"

definition procurement_cues :: "ustr list" where
  "procurement_cues = [[37319, 36141], [25307, 26631], [25237, 26631], [30923, 21830], [25104, 20132], [36816, 32500], [39044, 31639, 35780, 23457], [20195, 29702, 26426, 26500]]"

definition news_cues :: "ustr list" where
  "news_cues = [[26032, 38395], [26032, 38395, 21457, 24067, 20250], [20250, 35758], [35843, 30740], [27963, 21160], [24037, 20316, 21160, 24577]]"

section \<open>Words\<close>

text \<open>\<open>str.split()\<close>: the runs of characters that are not white space.\<close>

function py_words :: "ustr \<Rightarrow> ustr list" where
  "py_words s =
    (case dropWhile is_space s of
       [] \<Rightarrow> []
     | c # t \<Rightarrow> (c # takeWhile (\<lambda>x. \<not> is_space x) t) # py_words (dropWhile (\<lambda>x. \<not> is_space x) t))"
  by pat_completeness auto
termination
proof (relation "measure length")
  fix s c t
  assume "dropWhile is_space s = c # t"
  then have "Suc (length t) \<le> length s" using length_dropWhile_le [of is_space s] by simp
  moreover have "length (dropWhile (\<lambda>x. \<not> is_space x) t) \<le> length t" by (rule length_dropWhile_le)
  ultimately show "(dropWhile (\<lambda>x. \<not> is_space x) t, s) \<in> measure length" by simp
qed simp

declare py_words.simps [simp del]

definition spaced :: "ustr \<Rightarrow> ustr" where
  "spaced s = join [32] (py_words s)"

definition squash :: "ustr \<Rightarrow> ustr" where
  "squash s = join [] (py_words s)"

definition terms_in :: "ustr list \<Rightarrow> ustr \<Rightarrow> ustr list" where
  "terms_in ts s = filter (contains s) ts"

section \<open>Relevance to a topic\<close>

datatype relevance_level = Direct | Related | Weak | Unrelated

record topic_relevance =
  tv_level :: relevance_level
  tv_terms :: "ustr list"
  tv_reason :: string

definition relevance :: "relevance_level \<Rightarrow> ustr list \<Rightarrow> string \<Rightarrow> topic_relevance" where
  "relevance l ts r = \<lparr>tv_level = l, tv_terms = ts, tv_reason = r\<rparr>"

definition software_relevance :: "ustr \<Rightarrow> ustr \<Rightarrow> ustr \<Rightarrow> topic_relevance" where
  "software_relevance title text' topic =
    (let both = title @ text';
         signal = replace_all [32463, 27982, 21644, 20449, 24687, 21270, 21381] [] (replace_all [22235, 24029, 30465, 32463, 27982, 21644, 20449, 24687, 21270, 21381] [] both);
         title_strong = terms_in software_strong_terms title;
         body_strong = terms_in software_strong_terms text';
         strong = nub (title_strong @ body_strong);
         cues = terms_in policy_document_cues both;
         broad = terms_in software_broad_terms signal;
         procurement = terms_in procurement_cues title;
         news = terms_in news_cues title
     in if procurement \<noteq> [] then relevance Unrelated (nub (strong @ procurement)) ''procurement_document_not_software_industry_policy''
        else if news \<noteq> [] then
          relevance (if contains both topic \<or> strong \<noteq> [] \<or> broad \<noteq> [] then Weak else Unrelated)
            (nub (strong @ broad @ news)) ''news_or_activity_document_not_policy_evidence''
        else if contains title topic then relevance Direct [topic] ''exact_topic_in_title''
        else if contains text' topic then relevance Related [topic] ''exact_topic_in_body''
        else if title_strong \<noteq> [] \<and> cues \<noteq> [] then
          relevance Direct (nub (title_strong @ cues)) ''strong_software_signal_in_policy_title''
        else if body_strong \<noteq> [] \<and> cues \<noteq> [] then
          relevance Related (nub (body_strong @ cues)) ''strong_software_signal_in_policy_body''
        else if strong \<noteq> [] \<or> broad \<noteq> [] then
          relevance Weak (nub (strong @ broad)) ''software_or_digital_signal_without_policy_document_evidence''
        else relevance Unrelated [] ''no_software_policy_signal'')"

definition classify_topic_relevance :: "ustr \<Rightarrow> ustr \<Rightarrow> ustr \<Rightarrow> topic_relevance" where
  "classify_topic_relevance title text' topic =
    (let ntitle = spaced (lower title); ntext = spaced (lower text'); ntopic = spaced (lower topic) in
     if ntopic = [] then relevance Unrelated [] ''empty_topic''
     else
       let combined = strip (ntitle @ [32] @ ntext) in
       if contains (squash ntopic) [36719, 20214]
       then software_relevance (squash ntitle) (squash ntext) (squash ntopic)
       else if contains combined ntopic then relevance Direct [ntopic] ''exact_topic_match''
       else
         let tokens = filter (\<lambda>t. 2 \<le> length t) (py_words ntopic);
             matched = terms_in tokens combined
         in if tokens = [] then relevance Unrelated [] ''no_matchable_topic_tokens''
            else if (length tokens + 1) div 2 \<le> length matched
            then relevance Related matched ''majority_topic_token_match''
            else relevance Unrelated matched ''insufficient_topic_token_match'')"

definition topic_matches :: "ustr \<Rightarrow> ustr \<Rightarrow> ustr \<Rightarrow> bool" where
  "topic_matches text' topic title \<longleftrightarrow> tv_level (classify_topic_relevance title text' topic) \<in> {Direct, Related}"

section \<open>Queries, hosts and keys\<close>

definition build_query :: "ustr \<Rightarrow> ustr option \<Rightarrow> ustr option \<Rightarrow> ustr" where
  "build_query topic region org =
    (let part = (\<lambda>v. case v of Some s \<Rightarrow> if s \<noteq> [] then [strip s] else [] | None \<Rightarrow> []) in
     join [32] (filter (\<lambda>p. p \<noteq> []) ([strip topic, [23448, 26041, 32, 25919, 24220, 32, 32593, 31449]] @ part region @ part org)))"

definition trusted_suffix :: "ustr \<Rightarrow> ustr list \<Rightarrow> ustr option" where
  "trusted_suffix host trusted =
    (let h = dotless host;
         accepted = List.map_filter (\<lambda>raw.
           let s = rstrip_if (\<lambda>c. c = 46) (lstrip_if (\<lambda>c. c = 46) (lower (strip raw))) in
           if s \<noteq> [] \<and> (h = s \<or> ends_with h (46 # s)) then Some (46 # s) else None) trusted
     in case accepted of [] \<Rightarrow> None | s # ss \<Rightarrow> Some s)"

definition same_site :: "ustr \<Rightarrow> ustr \<Rightarrow> bool" where
  "same_site first second \<longleftrightarrow>
    (let a = dotless first; b = dotless second in a = b \<or> ends_with a (46 # b) \<or> ends_with b (46 # a))"

definition key_noise_rx :: rx where
  "key_noise_rx = rplus (Cls True [(97, 122), (65, 90), (48, 57), (95, 95), (45, 45)])"

definition column_key :: "(int list \<Rightarrow> ustr) \<Rightarrow> ustr \<Rightarrow> ustr \<Rightarrow> nat \<Rightarrow> exn + ustr" where
  "column_key sha1 label url rank =
    (let n = strip_chars [45] (re_sub key_noise_rx [45] (lower (strip label)));
         key = (if n = [] then asc ''column-'' @ show_int (int rank) else n)
     in rbind (utf8 url) (\<lambda>bytes. Inr (take 110 key @ [45] @ take 8 (sha1 bytes))))"

section \<open>Links of a page\<close>

text \<open>
  What the code reads of a selected element: its \<open>href\<close>, its text, and for a \<open>meta\<close> element its
  \<open>content\<close>; an attribute that is missing or not a string is \<open>None\<close>.
\<close>

record page_element =
  el_href :: "ustr option"
  el_text :: ustr
  el_meta :: bool
  el_content :: "ustr option"

definition is_jxt_detail_url :: "(ustr \<Rightarrow> ustr) \<Rightarrow> ustr \<Rightarrow> exn + bool" where
  "is_jxt_detail_url nfkc url =
    rbind (urlsplit nfkc [] url) (\<lambda>u. Inr (host_of u = jxt_host \<and> re_fullmatch jxt_detail_rx (up_path u)))"

definition is_jxt_list_url :: "(ustr \<Rightarrow> ustr) \<Rightarrow> ustr \<Rightarrow> exn + bool" where
  "is_jxt_list_url nfkc url =
    rbind (urlsplit nfkc [] url) (\<lambda>u. Inr (host_of u = jxt_host \<and> re_fullmatch jxt_list_rx (up_path u)))"

definition column_priority :: "(ustr \<Rightarrow> ustr) \<Rightarrow> ustr \<Rightarrow> ustr \<Rightarrow> nat \<Rightarrow> exn + int" where
  "column_priority nfkc host url n =
    (if host \<noteq> jxt_host then Inr (int n)
     else rbind (urlsplit nfkc [] url) (\<lambda>u.
       let parts = filter (\<lambda>p. p \<noteq> []) (split_on 47 (lower (up_path u)));
           section = (case parts of p # q # ps \<Rightarrow> if p = asc ''scjxt'' then q else [] | _ \<Rightarrow> [])
       in Inr (dget_or jxt_column_priority section 200 + int n)))"

definition detail_priority :: "(ustr \<Rightarrow> ustr) \<Rightarrow> ustr \<Rightarrow> ustr \<Rightarrow> ustr \<Rightarrow> ustr \<Rightarrow> exn + int" where
  "detail_priority nfkc host url title topic =
    (if host \<noteq> jxt_host then Inr 0
     else rbind (is_jxt_detail_url nfkc url) (\<lambda>detail.
       if \<not> detail then Inr (- 1)
       else Inr (case tv_level (classify_topic_relevance title [] topic) of Direct \<Rightarrow> 400 | _ \<Rightarrow> 0)))"

definition tag_text_value :: "page_element \<Rightarrow> ustr" where
  "tag_text_value e =
    (if el_meta e then (case el_content e of Some v \<Rightarrow> strip v | None \<Rightarrow> []) else el_text e)"

definition is_file_path :: "ustr \<Rightarrow> bool" where
  "is_file_path p \<longleftrightarrow> (\<exists>x \<in> set detail_extensions. ends_with (lower p) x)"

datatype discovery_method = Anchor | EmbeddedListPanel

record column_hit =
  ch_priority :: int
  ch_url :: ustr
  ch_label :: ustr
  ch_terms :: "ustr list"
  ch_method :: discovery_method
  ch_selector :: ustr

text \<open>\<open>page\<close> is the URL of the response, \<open>host\<close> its host, \<open>source\<close> its normal form.\<close>

definition anchor_hit :: "(ustr \<Rightarrow> ustr) \<Rightarrow> ustr \<Rightarrow> ustr \<Rightarrow> ustr \<Rightarrow> ustr list \<Rightarrow> page_element \<Rightarrow> exn + column_hit option" where
  "anchor_hit nfkc page host source seen e =
    (case el_href e of
       None \<Rightarrow> Inr None
     | Some href \<Rightarrow>
       rbind (usable_url nfkc page href) (\<lambda>found. case found of None \<Rightarrow> Inr None | Some url \<Rightarrow>
       rbind (urlsplit nfkc [] url) (\<lambda>u.
       if host_of u = [] \<or> \<not> same_site host (host_of u) \<or> url \<in> set seen then Inr None
       else if is_file_path (up_path u) then Inr None
       else
       rbind (if host \<noteq> jxt_host then Inr True
              else if re_fullmatch jxt_detail_rx (up_path u) then Inr False
              else if url = source then Inr False else is_jxt_list_url nfkc url) (\<lambda>listed.
       let matches = filter (\<lambda>t. contains (lower (el_text e @ [32] @ up_path u)) (lower t)) column_terms in
       if \<not> listed \<or> matches = [] then Inr None
       else
       rbind (column_priority nfkc host url (length matches)) (\<lambda>priority.
       Inr (Some \<lparr>ch_priority = priority, ch_url = url,
         ch_label = (if el_text e \<noteq> [] then el_text e else last (split_on 47 (up_path u))),
         ch_terms = matches, ch_method = Anchor, ch_selector = asc ''a[href]''\<rparr>))))))"

fun anchor_hits :: "(ustr \<Rightarrow> ustr) \<Rightarrow> ustr \<Rightarrow> ustr \<Rightarrow> ustr \<Rightarrow> column_hit list \<Rightarrow> page_element list \<Rightarrow> exn + column_hit list" where
  "anchor_hits nfkc page host source hits [] = Inr hits"
| "anchor_hits nfkc page host source hits (e # es) =
    rbind (anchor_hit nfkc page host source (map ch_url hits) e) (\<lambda>found.
      anchor_hits nfkc page host source (hits @ (case found of Some h \<Rightarrow> [h] | None \<Rightarrow> [])) es)"

fun panel_has_details :: "(ustr \<Rightarrow> ustr) \<Rightarrow> ustr \<Rightarrow> page_element list \<Rightarrow> exn + bool" where
  "panel_has_details nfkc page [] = Inr False"
| "panel_has_details nfkc page (e # es) =
    (case el_href e of
       None \<Rightarrow> panel_has_details nfkc page es
     | Some href \<Rightarrow>
       rbind (usable_url nfkc page href) (\<lambda>found. case found of
         None \<Rightarrow> panel_has_details nfkc page es
       | Some url \<Rightarrow> rbind (is_jxt_detail_url nfkc url) (\<lambda>detail.
           if detail then Inr True else panel_has_details nfkc page es)))"

definition panel_selector :: ustr where
  "panel_selector = asc ''#panel-20002 a[href]''"

definition rank_hits :: "(ustr \<Rightarrow> ustr) \<Rightarrow> ustr \<Rightarrow> page_element list \<Rightarrow> page_element list \<Rightarrow> exn + column_hit list" where
  "rank_hits nfkc page anchors panel =
    rbind (url_site nfkc page) (\<lambda>host.
    rbind (normalize_url nfkc None page) (\<lambda>source.
    rbind (anchor_hits nfkc page host source [] anchors) (\<lambda>hits.
    rbind (if host = jxt_host then panel_has_details nfkc page panel else Inr False) (\<lambda>embedded.
    let extra = (if embedded then [\<lparr>ch_priority = dget_or jxt_column_priority (asc ''ggtz'') 0, ch_url = source,
           ch_label = [20844, 21578, 20844, 31034], ch_terms = [[20844, 21578], [20844, 31034]], ch_method = EmbeddedListPanel,
           ch_selector = panel_selector\<rparr>] else [])
    in Inr (sort_key (\<lambda>h. (- ch_priority h, ch_url h)) (hits @ extra))))))"

section \<open>Documents of a column\<close>

text \<open>
  The links of a list page that are followed on trial: \<open>shared\<close> are the URLs tried for earlier columns
  of the candidate, \<open>column\<close> the URL of the column.
\<close>

definition detail_hit :: "(ustr \<Rightarrow> ustr) \<Rightarrow> ustr \<Rightarrow> ustr \<Rightarrow> ustr \<Rightarrow> ustr \<Rightarrow> ustr list \<Rightarrow> ustr list \<Rightarrow> page_element
    \<Rightarrow> exn + (int \<times> ustr) option" where
  "detail_hit nfkc topic page host column shared seen e =
    (case el_href e of
       None \<Rightarrow> Inr None
     | Some href \<Rightarrow>
       rbind (usable_url nfkc page href) (\<lambda>found. case found of None \<Rightarrow> Inr None | Some url \<Rightarrow>
       rbind (urlsplit nfkc [] url) (\<lambda>u.
       if host_of u = [] \<or> \<not> same_site host (host_of u) \<or> url \<in> set seen \<or> url \<in> set shared then Inr None
       else
       rbind (normalize_url nfkc None column) (\<lambda>own.
       if url = own \<or> is_file_path (up_path u) then Inr None
       else
       rbind (if host = jxt_host then is_jxt_detail_url nfkc url else Inr True) (\<lambda>wanted.
       if \<not> wanted then Inr None
       else rbind (detail_priority nfkc host url (el_text e) topic) (\<lambda>p. Inr (Some (p, url)))))))) "

fun detail_hits :: "(ustr \<Rightarrow> ustr) \<Rightarrow> ustr \<Rightarrow> ustr \<Rightarrow> ustr \<Rightarrow> ustr \<Rightarrow> ustr list \<Rightarrow> (int \<times> ustr) list \<Rightarrow> page_element list
    \<Rightarrow> exn + (int \<times> ustr) list" where
  "detail_hits nfkc topic page host column shared hits [] = Inr hits"
| "detail_hits nfkc topic page host column shared hits (e # es) =
    rbind (detail_hit nfkc topic page host column shared (map snd hits) e) (\<lambda>found.
      detail_hits nfkc topic page host column shared (hits @ (case found of Some h \<Rightarrow> [h] | None \<Rightarrow> [])) es)"

definition detail_urls :: "(ustr \<Rightarrow> ustr) \<Rightarrow> nat \<Rightarrow> ustr \<Rightarrow> ustr \<Rightarrow> ustr \<Rightarrow> ustr list \<Rightarrow> page_element list \<Rightarrow> exn + ustr list" where
  "detail_urls nfkc limit topic page column shared es =
    rbind (url_site nfkc page) (\<lambda>host.
    rbind (detail_hits nfkc topic page host column shared [] (take 500 es)) (\<lambda>hits.
    Inr (map snd (take limit (sort_key (\<lambda>h. - fst h) hits)))))"

section \<open>The search provider\<close>

record candidate_hit =
  hi_url :: ustr
  hi_title :: ustr
  hi_snippet :: "ustr option"
  hi_rank :: nat

text \<open>The outcome of the HTTP exchange: an \<open>httpx\<close> error, or a status and the decoded body, if it is JSON.\<close>

datatype search_reply = Unreachable string | Answered int "json option"

fun brave_hit :: "(ustr \<Rightarrow> ustr) \<Rightarrow> nat \<Rightarrow> json \<Rightarrow> exn + candidate_hit option" where
  "brave_hit nfkc rank (JObj raw) =
    (case jget raw (asc ''url'') of
       JStr s \<Rightarrow>
         (case normalize_url nfkc None s of
            Inl e \<Rightarrow> if is_value_error e then Inr None else Inl e
          | Inr url \<Rightarrow> rbind (urlsplit nfkc [] url) (\<lambda>u.
              case hostname u of
                None \<Rightarrow> Inr None
              | Some host \<Rightarrow>
                  if up_scheme u \<notin> {asc ''http'', asc ''https''} then Inr None
                  else Inr (Some \<lparr>hi_url = url,
                    hi_title = strip (case jget raw (asc ''title'') of JStr t \<Rightarrow> if strip t \<noteq> [] then t else host | _ \<Rightarrow> host),
                    hi_snippet = (case jget raw (asc ''description'') of JStr d \<Rightarrow> Some (strip d) | _ \<Rightarrow> None),
                    hi_rank = rank\<rparr>)))
     | _ \<Rightarrow> Inr None)"
| "brave_hit nfkc rank _ = Inr None"

fun brave_hits :: "(ustr \<Rightarrow> ustr) \<Rightarrow> nat \<Rightarrow> json list \<Rightarrow> exn + candidate_hit list" where
  "brave_hits nfkc rank [] = Inr []"
| "brave_hits nfkc rank (x # xs) =
    rbind (brave_hit nfkc rank x) (\<lambda>found.
    rbind (brave_hits nfkc (rank + 1) xs) (\<lambda>hs.
    Inr (case found of Some h \<Rightarrow> h # hs | None \<Rightarrow> hs)))"

text \<open>\<open>.get("results")\<close> on the value of \<open>web\<close>, which need not be a dict.\<close>

definition brave_results :: "json \<Rightarrow> exn + json list" where
  "brave_results payload =
    rbind (case payload of
        JObj d \<Rightarrow> (case dget_or d (asc ''web'') (JObj []) of
            JObj web \<Rightarrow> Inr (jget web (asc ''results''))
          | _ \<Rightarrow> Inl (OtherError ''AttributeError''))
      | _ \<Rightarrow> Inr JNull) (\<lambda>items.
    case items of
      JNull \<Rightarrow> Inr []
    | JList xs \<Rightarrow> Inr xs
    | _ \<Rightarrow> Inl (ProviderResponseError ''brave-source-discovery'' ''web.results is not a list''))"

definition brave_search :: "(ustr \<Rightarrow> ustr) \<Rightarrow> (ustr \<Rightarrow> nat \<Rightarrow> search_reply) \<Rightarrow> ustr option \<Rightarrow> ustr \<Rightarrow> nat
    \<Rightarrow> exn + candidate_hit list" where
  "brave_search nfkc get api_key query limit =
    (if api_key = None \<or> api_key = Some [] then
       Inl (ProviderUnavailableError ''brave-source-discovery'' ''API credentials are not configured'')
     else case get query limit of
       Unreachable e \<Rightarrow> Inl (ProviderUnavailableError ''brave-source-discovery'' e)
     | Answered status body \<Rightarrow>
         if 500 \<le> status then Inl (ProviderUnavailableError ''brave-source-discovery'' (''HTTP '' @ show_string status))
         else if 400 \<le> status then Inl (ProviderResponseError ''brave-source-discovery'' (''HTTP '' @ show_string status))
         else case body of
           None \<Rightarrow> Inl (ProviderResponseError ''brave-source-discovery'' ''response is not JSON'')
         | Some payload \<Rightarrow> rbind (brave_results payload) (\<lambda>items. brave_hits nfkc 1 (take limit items)))"

definition disabled_search :: "ustr \<Rightarrow> nat \<Rightarrow> exn + candidate_hit list" where
  "disabled_search query limit = Inl (ProviderUnavailableError ''source-discovery'' ''candidate discovery is disabled'')"

end
