(* ===== verification/SourceDiscovery.thy ===== *)
theory SourceDiscovery
  imports SourceTopic
begin

text \<open>
  \<open>backend/app/services/source_discovery.py\<close> with \<open>repositories/source_discovery.py\<close>: from a gap in the
  content to an activated source. The database is what has been committed (\<open>sw_saved\<close>) and what the
  open transaction sees (\<open>sw_work\<close>). At every tick other sessions may commit, which both see
  (\<open>READ COMMITTED\<close>), and the statement may raise. The session does not flush before a query
  (\<open>autoflush=False\<close>): what the code assigns to the attributes of a row reaches the database with the
  next flush, the one of \<open>add_event\<close> or of a commit, and is written there. After a roll back the
  objects of the session are expired: reading one is a statement (\<open>touch\<close>). The search provider,
  the fetcher, the decoding of a response and the HTML parser are parameters. The texts and details
  of the audit events are left out; their stages and statuses are kept.
\<close>

section \<open>Rows\<close>

datatype run_status = RunPending | RunRunning | RunNoGap | RunAwaiting | RunActivated | RunFailed

datatype cand_status = CandDiscovered | CandValidationFailed | CandValidated | CandColumns | CandTrialCrawled
  | CandPending | CandApproved | CandRejected | CandActivating | CandActivated | CandFailed

datatype official_status = OffUnknown | OffUnreachable | OffUnverified | OffOfficial

datatype column_status = ColDiscovered | ColTrialCrawled | ColFailed

record discovery_run =
  rd_id :: int
  rd_topic :: ustr
  rd_region :: "ustr option"
  rd_level :: "ustr option"
  rd_query :: ustr
  rd_need_sources :: nat
  rd_need_documents :: nat
  rd_has_sources :: nat
  rd_has_documents :: nat
  rd_gap :: bool
  rd_status :: run_status
  rd_max :: nat
  rd_candidates :: nat
  rd_approved :: nat
  rd_activated :: nat
  rd_attempts :: nat
  rd_started :: "int option"
  rd_finished :: "int option"
  rd_error :: "string option"
  rd_creator :: "ustr option"
  rd_created :: int

text \<open>\<open>official_evidence_json\<close>.\<close>

record official_evidence =
  oe_initial :: ustr
  oe_final :: ustr
  oe_code :: int
  oe_same_site :: bool
  oe_same_host :: bool
  oe_status_ok :: bool
  oe_suffix :: "ustr option"
  oe_https :: bool
  oe_markers :: "ustr list"

record candidate_row =
  cn_id :: int
  cn_run :: int
  cn_url :: ustr
  cn_domain :: ustr
  cn_name :: ustr
  cn_snippet :: "ustr option"
  cn_rank :: nat
  cn_query :: ustr
  cn_official :: official_status
  cn_score :: "rat option"
  cn_evidence :: "official_evidence option"
  cn_code :: "int option"
  cn_final_url :: "ustr option"
  cn_status :: cand_status
  cn_quality :: "rat option"
  cn_columns :: nat
  cn_documents :: nat
  cn_success :: nat
  cn_failed :: nat
  cn_chars :: nat
  cn_reason :: "ustr option"
  cn_approver :: "ustr option"
  cn_approved_at :: "int option"
  cn_source :: "int option"

record candidate_column =
  sc_id :: int
  sc_candidate :: int
  sc_key :: ustr
  sc_name :: ustr
  sc_url :: ustr
  sc_list :: ustr
  sc_content :: ustr
  sc_method :: discovery_method
  sc_rank :: nat
  sc_status :: column_status
  sc_found :: nat
  sc_fetched :: nat
  sc_success :: nat
  sc_failed :: nat
  sc_chars :: nat
  sc_quality :: "rat option"
  sc_error :: "string option"

record discovery_event =
  ev_run :: int
  ev_candidate :: "int option"
  ev_stage :: string
  ev_from :: "string option"
  ev_to :: string

text \<open>A column of an activated source, and the source; \<open>so_key\<close> is the number in its \<open>source_key\<close>.\<close>

record live_column =
  lc_key :: ustr
  lc_name :: ustr
  lc_url :: ustr
  lc_list :: ustr
  lc_content :: ustr

record live_source =
  ls_id :: int
  ls_key :: int
  ls_name :: ustr
  ls_domain :: ustr
  ls_region :: "ustr option"
  ls_level :: "ustr option"
  ls_homepage :: ustr
  ls_enabled :: bool
  ls_columns :: "live_column list"

text \<open>A document joined with its source, as the queries of the content gap see it.\<close>

record covered_document =
  gd_source :: int
  gd_enabled :: bool
  gd_source_region :: "ustr option"
  gd_region :: "ustr option"
  gd_status :: string
  gd_title :: ustr
  gd_content :: "ustr option"

record sd_db =
  sd_runs :: "discovery_run list"
  sd_cands :: "candidate_row list"
  sd_cols :: "candidate_column list"
  sd_events :: "discovery_event list"
  sd_sources :: "live_source list"
  sd_documents :: "covered_document list"
  sd_next :: int

definition run_status_name :: "run_status \<Rightarrow> string" where
  "run_status_name s = (case s of RunPending \<Rightarrow> ''pending'' | RunRunning \<Rightarrow> ''running'' | RunNoGap \<Rightarrow> ''no_gap''
     | RunAwaiting \<Rightarrow> ''awaiting_approval'' | RunActivated \<Rightarrow> ''activated'' | RunFailed \<Rightarrow> ''failed'')"

definition cand_status_name :: "cand_status \<Rightarrow> string" where
  "cand_status_name s = (case s of CandDiscovered \<Rightarrow> ''discovered'' | CandValidationFailed \<Rightarrow> ''validation_failed''
     | CandValidated \<Rightarrow> ''validated'' | CandColumns \<Rightarrow> ''columns_discovered'' | CandTrialCrawled \<Rightarrow> ''trial_crawled''
     | CandPending \<Rightarrow> ''pending_approval'' | CandApproved \<Rightarrow> ''approved'' | CandRejected \<Rightarrow> ''rejected''
     | CandActivating \<Rightarrow> ''activating'' | CandActivated \<Rightarrow> ''activated'' | CandFailed \<Rightarrow> ''failed'')"

section \<open>The repository\<close>

definition find_run :: "int \<Rightarrow> sd_db \<Rightarrow> discovery_run option" where
  "find_run i x = find (\<lambda>r. rd_id r = i) (sd_runs x)"

definition find_candidate :: "int \<Rightarrow> sd_db \<Rightarrow> candidate_row option" where
  "find_candidate i x = find (\<lambda>c. cn_id c = i) (sd_cands x)"

definition candidate_by_url :: "int \<Rightarrow> ustr \<Rightarrow> sd_db \<Rightarrow> candidate_row option" where
  "candidate_by_url run url x = find (\<lambda>c. cn_run c = run \<and> cn_url c = url) (sd_cands x)"

definition set_run :: "int \<Rightarrow> (discovery_run \<Rightarrow> discovery_run) \<Rightarrow> sd_db \<Rightarrow> sd_db" where
  "set_run i f x = x\<lparr>sd_runs := map (\<lambda>r. if rd_id r = i then f r else r) (sd_runs x)\<rparr>"

definition set_candidate :: "int \<Rightarrow> (candidate_row \<Rightarrow> candidate_row) \<Rightarrow> sd_db \<Rightarrow> sd_db" where
  "set_candidate i f x = x\<lparr>sd_cands := map (\<lambda>c. if cn_id c = i then f c else c) (sd_cands x)\<rparr>"

definition set_column :: "int \<Rightarrow> (candidate_column \<Rightarrow> candidate_column) \<Rightarrow> sd_db \<Rightarrow> sd_db" where
  "set_column i f x = x\<lparr>sd_cols := map (\<lambda>c. if sc_id c = i then f c else c) (sd_cols x)\<rparr>"

text \<open>The literal topic in an \<open>ILIKE\<close> pattern.\<close>

definition escape_like :: "ustr \<Rightarrow> ustr" where
  "escape_like s = [37] @ replace_all [95] [92, 95] (replace_all [37] [92, 37] (replace_all [92] [92, 92] s)) @ [37]"

definition content_gap :: "(ustr \<Rightarrow> ustr \<Rightarrow> bool) \<Rightarrow> ustr \<Rightarrow> ustr option \<Rightarrow> nat \<Rightarrow> nat \<Rightarrow> sd_db \<Rightarrow> nat \<times> nat \<times> bool" where
  "content_gap ilike topic region need_sources need_documents x =
    (let pattern = escape_like (strip topic);
         chosen = (case region of Some r \<Rightarrow> r \<noteq> [] | None \<Rightarrow> False);
         covered = filter (\<lambda>g. gd_enabled g \<and> gd_status g \<in> {''approved'', ''indexed''}
           \<and> (ilike pattern (gd_title g) \<or> (case gd_content g of Some t \<Rightarrow> ilike pattern t | None \<Rightarrow> False))) (sd_documents x);
         sources = length (nub (map gd_source (filter (\<lambda>g. chosen \<longrightarrow> gd_source_region g = region) covered)));
         documents = length (filter (\<lambda>g. chosen \<longrightarrow> gd_region g = region) covered)
     in (sources, documents, sources < need_sources \<or> documents < need_documents))"

definition reset_candidate :: "int \<Rightarrow> sd_db \<Rightarrow> sd_db" where
  "reset_candidate i x =
    set_candidate i (\<lambda>c. c\<lparr>cn_official := OffUnknown, cn_score := None, cn_evidence := None, cn_code := None,
        cn_final_url := None, cn_status := CandDiscovered, cn_quality := None, cn_columns := 0, cn_documents := 0,
        cn_success := 0, cn_failed := 0, cn_chars := 0, cn_reason := None, cn_approver := None,
        cn_approved_at := None, cn_source := None\<rparr>)
      (x\<lparr>sd_cols := filter (\<lambda>c. sc_candidate c \<noteq> i) (sd_cols x)\<rparr>)"

definition list_candidates :: "rat \<Rightarrow> int \<Rightarrow> sd_db \<Rightarrow> candidate_row list" where
  "list_candidates nulls i x =
    sort_key (\<lambda>c. (- (case cn_quality c of Some q \<Rightarrow> q | None \<Rightarrow> nulls), cn_id c)) (filter (\<lambda>c. cn_run c = i) (sd_cands x))"

text \<open>\<open>nulls\<close> is the place the database gives a missing score in a descending order.\<close>

definition list_columns :: "rat \<Rightarrow> int \<Rightarrow> sd_db \<Rightarrow> candidate_column list" where
  "list_columns nulls i x =
    sort_key (\<lambda>c. (- (case sc_quality c of Some q \<Rightarrow> q | None \<Rightarrow> nulls), sc_id c)) (filter (\<lambda>c. sc_candidate c = i) (sd_cols x))"

text \<open>The conditional updates, with the number of rows they change.\<close>

definition update_candidate :: "int \<Rightarrow> cand_status list \<Rightarrow> (candidate_row \<Rightarrow> candidate_row) \<Rightarrow> sd_db \<Rightarrow> sd_db \<times> nat" where
  "update_candidate i allowed f x =
    (let hit = (\<lambda>c. cn_id c = i \<and> cn_status c \<in> set allowed) in
     (x\<lparr>sd_cands := map (\<lambda>c. if hit c then f c else c) (sd_cands x)\<rparr>, count_if hit (sd_cands x)))"

definition status_count :: "int \<Rightarrow> cand_status \<Rightarrow> sd_db \<Rightarrow> nat" where
  "status_count i s x = count_if (\<lambda>c. cn_run c = i \<and> cn_status c = s) (sd_cands x)"

text \<open>The assignments of \<open>refresh_run_counts\<close>, from the rows in the database.\<close>

definition run_counts :: "int \<Rightarrow> sd_db \<Rightarrow> discovery_run \<Rightarrow> discovery_run" where
  "run_counts i x r = r\<lparr>rd_candidates := count_if (\<lambda>c. cn_run c = i) (sd_cands x),
     rd_approved := status_count i CandApproved x + status_count i CandActivated x,
     rd_activated := status_count i CandActivated x\<rparr>"

section \<open>Programs on the database\<close>

text \<open>
  \<open>sw_log\<close> lists the URLs given to the fetcher. \<open>sw_seen\<close> is the set \<open>seen_trial_urls\<close> of the candidate
  at work, which the trial of a column changes even when it fails later.
\<close>

record sd_world =
  sw_saved :: sd_db
  sw_work :: sd_db
  sw_tick :: nat
  sw_log :: "ustr list"
  sw_seen :: "ustr list"

record sd_env =
  se_fault :: "nat \<Rightarrow> exn option"
  se_cleanup :: "nat \<Rightarrow> exn option"              \<comment> \<open>faults of the handlers' own calls\<close>
  se_others :: "nat \<Rightarrow> sd_db \<Rightarrow> sd_db"
  se_now :: int
  se_nfkc :: "ustr \<Rightarrow> ustr"
  se_sha1 :: "int list \<Rightarrow> ustr"
  se_ilike :: "ustr \<Rightarrow> ustr \<Rightarrow> bool"
  se_search :: "nat \<Rightarrow> ustr \<Rightarrow> nat \<Rightarrow> exn + candidate_hit list"
  se_fetch :: "nat \<Rightarrow> ustr \<Rightarrow> exn + fetched"
  se_text :: "fetched \<Rightarrow> exn + ustr"
  se_select :: "ustr \<Rightarrow> ustr \<Rightarrow> page_element list"
  se_content :: "ustr \<Rightarrow> ustr \<Rightarrow> ustr list"         \<comment> \<open>after the noise elements are decomposed\<close>
  se_nulls :: rat
  se_max_candidates :: nat
  se_max_columns :: nat
  se_trial_documents :: nat
  se_min_chars :: nat
  se_threshold :: rat
  se_trusted :: "ustr list"

type_synonym 'a sd = "(sd_world, 'a) eff"
type_synonym sd_faults = "nat \<Rightarrow> exn option"

definition sd_turn :: "sd_env \<Rightarrow> sd_world \<Rightarrow> sd_world" where
  "sd_turn env w = w\<lparr>sw_saved := se_others env (sw_tick w) (sw_saved w),
     sw_work := se_others env (sw_tick w) (sw_work w), sw_tick := sw_tick w + 1\<rparr>"

definition sd_call :: "sd_env \<Rightarrow> sd_faults \<Rightarrow> (sd_db \<Rightarrow> exn + sd_db \<times> 'a) \<Rightarrow> 'a sd" where
  "sd_call env ft f w =
    (let w' = sd_turn env w in
     case ft (sw_tick w) of
       Some e \<Rightarrow> (w', Inl e)
     | None \<Rightarrow> (case f (sw_work w') of
         Inl e \<Rightarrow> (w', Inl e)
       | Inr (x, a) \<Rightarrow> (w'\<lparr>sw_work := x\<rparr>, Inr a)))"

definition sd_commit :: "sd_env \<Rightarrow> sd_faults \<Rightarrow> unit sd" where
  "sd_commit env ft w =
    (let w' = sd_turn env w in
     case ft (sw_tick w) of Some e \<Rightarrow> (w', Inl e) | None \<Rightarrow> (w'\<lparr>sw_saved := sw_work w'\<rparr>, Inr ()))"

definition sd_rollback :: "sd_env \<Rightarrow> sd_faults \<Rightarrow> unit sd" where
  "sd_rollback env ft w =
    (let w' = sd_turn env w in
     case ft (sw_tick w) of Some e \<Rightarrow> (w', Inl e) | None \<Rightarrow> (w'\<lparr>sw_work := sw_saved w'\<rparr>, Inr ()))"

definition sd_query :: "sd_env \<Rightarrow> sd_faults \<Rightarrow> (sd_db \<Rightarrow> 'a) \<Rightarrow> 'a sd" where
  "sd_query env ft f = sd_call env ft (\<lambda>x. Inr (x, f x))"

definition sd_write :: "sd_env \<Rightarrow> sd_faults \<Rightarrow> (sd_db \<Rightarrow> sd_db) \<Rightarrow> unit sd" where
  "sd_write env ft f = sd_call env ft (\<lambda>x. Inr (f x, ()))"

text \<open>Reading an object that a roll back has expired.\<close>

definition touch :: "sd_env \<Rightarrow> sd_faults \<Rightarrow> unit sd" where
  "touch env ft = sd_query env ft (\<lambda>x. ())"

text \<open>The flush of an event, with the assignments \<open>f\<close> that are pending.\<close>

definition add_event :: "sd_env \<Rightarrow> sd_faults \<Rightarrow> (sd_db \<Rightarrow> sd_db) \<Rightarrow> discovery_event \<Rightarrow> unit sd" where
  "add_event env ft f e = sd_write env ft (\<lambda>x. (f x)\<lparr>sd_events := sd_events (f x) @ [e]\<rparr>)"

definition stage_event :: "int \<Rightarrow> int option \<Rightarrow> string \<Rightarrow> string option \<Rightarrow> string \<Rightarrow> discovery_event" where
  "stage_event run cand stage from to =
    \<lparr>ev_run = run, ev_candidate = cand, ev_stage = stage, ev_from = from, ev_to = to\<rparr>"

definition get_run :: "sd_env \<Rightarrow> sd_faults \<Rightarrow> int \<Rightarrow> discovery_run option sd" where
  "get_run env ft i = sd_query env ft (find_run i)"

definition get_candidate :: "sd_env \<Rightarrow> sd_faults \<Rightarrow> int \<Rightarrow> candidate_row option sd" where
  "get_candidate env ft i = sd_query env ft (find_candidate i)"

definition existing_run :: "sd_env \<Rightarrow> sd_faults \<Rightarrow> int \<Rightarrow> discovery_run sd" where
  "existing_run env ft i = ebind (get_run env ft i) (\<lambda>r. case r of
     Some r \<Rightarrow> ereturn r | None \<Rightarrow> eraise (NotFoundError ''SourceDiscoveryRun''))"

definition existing_candidate :: "sd_env \<Rightarrow> sd_faults \<Rightarrow> int \<Rightarrow> candidate_row sd" where
  "existing_candidate env ft i = ebind (get_candidate env ft i) (\<lambda>c. case c of
     Some c \<Rightarrow> ereturn c | None \<Rightarrow> eraise (NotFoundError ''SourceCandidate''))"

definition save_run :: "sd_env \<Rightarrow> sd_faults \<Rightarrow> int \<Rightarrow> discovery_run sd" where
  "save_run env ft i = ebind (sd_commit env ft) (\<lambda>u. ebind (get_run env ft i) (\<lambda>r. case r of
     Some r \<Rightarrow> ereturn r | None \<Rightarrow> eraise (OtherError ''InvalidRequestError'')))"

text \<open>\<open>refresh_run_counts\<close> reads the run and counts; the assignments follow with the next flush.\<close>

definition refresh_run_counts :: "sd_env \<Rightarrow> sd_faults \<Rightarrow> int \<Rightarrow> (discovery_run \<Rightarrow> discovery_run) sd" where
  "refresh_run_counts env ft i =
    ebind (get_run env ft i) (\<lambda>r. if r = None then eraise (OtherError ''RuntimeError'')
      else sd_query env ft (run_counts i))"

definition sd_fetch :: "sd_env \<Rightarrow> ustr \<Rightarrow> fetched sd" where
  "sd_fetch env url w = ((sd_turn env w)\<lparr>sw_log := sw_log w @ [url]\<rparr>, se_fetch env (sw_tick w) url)"

section \<open>Creating a run\<close>

record discovery_request =
  dq_topic :: ustr
  dq_region :: "ustr option"
  dq_level :: "ustr option"
  dq_query :: "ustr option"
  dq_need_sources :: nat
  dq_need_documents :: nat
  dq_max :: "nat option"

definition create_run :: "sd_env \<Rightarrow> discovery_run \<Rightarrow> discovery_run sd" where
  "create_run env r =
    ebind (sd_call env (se_fault env) (\<lambda>x. Inr (x\<lparr>sd_runs := sd_runs x @ [r\<lparr>rd_id := sd_next x\<rparr>],
       sd_next := sd_next x + 1\<rparr>, sd_next x))) (\<lambda>i. save_run env (se_fault env) i)"

definition new_run :: "sd_env \<Rightarrow> discovery_request \<Rightarrow> ustr \<Rightarrow> nat \<times> nat \<times> bool \<Rightarrow> discovery_run" where
  "new_run env q creator gap =
    (case gap of (sources, documents, detected) \<Rightarrow>
     \<lparr>rd_id = 0, rd_topic = strip (dq_topic q), rd_region = dq_region q, rd_level = dq_level q,
      rd_query = (case dq_query q of Some s \<Rightarrow> if s \<noteq> [] then s else build_query (dq_topic q) (dq_region q) (dq_level q)
        | None \<Rightarrow> build_query (dq_topic q) (dq_region q) (dq_level q)),
      rd_need_sources = dq_need_sources q, rd_need_documents = dq_need_documents q,
      rd_has_sources = sources, rd_has_documents = documents, rd_gap = detected,
      rd_status = (if detected then RunPending else RunNoGap),
      rd_max = (case dq_max q of Some n \<Rightarrow> if n \<noteq> 0 then n else se_max_candidates env | None \<Rightarrow> se_max_candidates env),
      rd_candidates = 0, rd_approved = 0, rd_activated = 0, rd_attempts = 0, rd_started = None,
      rd_finished = (if detected then None else Some (se_now env)), rd_error = None,
      rd_creator = Some creator, rd_created = se_now env\<rparr>)"

definition create_discovery :: "sd_env \<Rightarrow> discovery_request \<Rightarrow> ustr \<Rightarrow> discovery_run sd" where
  "create_discovery env q creator =
    (let ft = se_fault env in
     ebind (sd_query env ft (content_gap (se_ilike env) (dq_topic q) (dq_region q) (dq_need_sources q) (dq_need_documents q))) (\<lambda>gap.
     ebind (create_run env (new_run env q creator gap)) (\<lambda>r.
     ebind (add_event env ft (\<lambda>x. x) (stage_event (rd_id r) None ''content_gap_detection'' None (run_status_name (rd_status r)))) (\<lambda>u.
     ebind (sd_commit env ft) (\<lambda>u. ereturn r)))))"

definition claim_run :: "sd_env \<Rightarrow> int \<Rightarrow> discovery_run option sd" where
  "claim_run env i =
    (let ft = se_fault env; hit = (\<lambda>r. rd_id r = i \<and> rd_status r = RunPending) in
     ebind (sd_call env ft (\<lambda>x. Inr (x\<lparr>sd_runs := map (\<lambda>r. if hit r then r\<lparr>rd_status := RunRunning,
         rd_started := Some (se_now env), rd_finished := None, rd_error := None, rd_attempts := rd_attempts r + 1\<rparr> else r) (sd_runs x)\<rparr>,
       count_if hit (sd_runs x)))) (\<lambda>n.
     ebind (sd_commit env ft) (\<lambda>u. if n \<noteq> 1 then ereturn None else get_run env ft i)))"

section \<open>A candidate\<close>

definition official_check :: "sd_env \<Rightarrow> ustr \<Rightarrow> fetched \<Rightarrow> exn + official_evidence \<times> rat" where
  "official_check env url p =
    rbind (urlsplit (se_nfkc env) [] url) (\<lambda>i.
    rbind (urlsplit (se_nfkc env) [] (fe_url p)) (\<lambda>f.
    let host = host_of i; final = host_of f; both = host \<noteq> [] \<and> final \<noteq> [];
        trust = trusted_suffix final (se_trusted env); https = up_scheme f = asc ''https'' in
    rbind (se_text env p) (\<lambda>body.
    let markers = filter (\<lambda>m. contains (lower (take 100000 body)) (lower m)) official_markers in
    Inr (\<lparr>oe_initial = host, oe_final = final, oe_code = fe_status p,
        oe_same_site = (both \<and> same_site host final), oe_same_host = (both \<and> host = final),
        oe_status_ok = (200 \<le> fe_status p \<and> fe_status p < 300), oe_suffix = trust, oe_https = https,
        oe_markers = markers\<rparr>,
      (if trust \<noteq> None then 60 / 100 else 0) + (if https then 25 / 100 else 0) + (if markers \<noteq> [] then 15 / 100 else 0)))))"

definition officially_verified :: "official_evidence \<Rightarrow> bool" where
  "officially_verified e \<longleftrightarrow> oe_same_host e \<and> oe_status_ok e \<and> oe_suffix e \<noteq> None \<and> oe_https e"

definition reason :: "string \<Rightarrow> ustr option" where
  "reason s = Some (asc s)"

definition validate_official :: "sd_env \<Rightarrow> discovery_run \<Rightarrow> candidate_row \<Rightarrow> (fetched \<times> rat) option sd" where
  "validate_official env r c =
    (let ft = se_fault env; set = set_candidate (cn_id c);
         event = (\<lambda>to. stage_event (rd_id r) (Some (cn_id c)) ''official_status_validation'' (Some ''discovered'') to) in
     ebind (etry (sd_fetch env (cn_url c))) (\<lambda>answer. case answer of
       Inl e \<Rightarrow>
         ebind (add_event env ft (set (\<lambda>c. c\<lparr>cn_status := CandValidationFailed, cn_official := OffUnreachable,
             cn_reason := reason (exn_class e)\<rparr>)) (event ''validation_failed'')) (\<lambda>u.
         ebind (sd_commit env ft) (\<lambda>u. ereturn None))
     | Inr p \<Rightarrow>
         ebind (elift (official_check env (cn_url c) p)) (\<lambda>(evidence, score).
         let seen = (\<lambda>c. c\<lparr>cn_code := Some (fe_status p), cn_final_url := Some (fe_url p),
           cn_score := Some (py_round 4 score), cn_evidence := Some evidence\<rparr>) in
         if \<not> officially_verified evidence then
           ebind (add_event env ft (set (\<lambda>c. (seen c)\<lparr>cn_official := OffUnverified, cn_status := CandValidationFailed,
               cn_reason := reason ''OFFICIAL_STATUS_NOT_VERIFIED''\<rparr>)) (event ''validation_failed'')) (\<lambda>u.
           ebind (sd_commit env ft) (\<lambda>u. ereturn None))
         else
           ebind (add_event env ft (set (\<lambda>c. (seen c)\<lparr>cn_official := OffOfficial, cn_status := CandValidated\<rparr>))
             (event ''validated'')) (\<lambda>u.
           ebind (sd_commit env ft) (\<lambda>u. ereturn (Some (p, py_round 4 score)))))))"

section \<open>Its columns\<close>

definition content_selector :: "ustr \<Rightarrow> ustr" where
  "content_selector host =
    (if host = jxt_host then asc ''#mainDetailContent, #NewsContent, #zoomcon, .articlebox, .con_con, .cont_T, .articleCt, '' else [])
    @ asc ''article, main, [role='' @ [39] @ asc ''main'' @ [39]
    @ asc ''], .article, .detail, .content, #content, .article-content, .detail-content''"

definition title_selector :: ustr where
  "title_selector = asc ''meta[name='' @ [39] @ asc ''ArticleTitle'' @ [39] @ asc ''], h1, .ArticleTitle, .article-title, .title, title''"

definition new_column :: "sd_env \<Rightarrow> candidate_row \<Rightarrow> ustr \<Rightarrow> nat \<Rightarrow> column_hit \<Rightarrow> exn + candidate_column" where
  "new_column env c host rank h =
    rbind (column_key (se_sha1 env) (ch_label h) (ch_url h) rank) (\<lambda>key.
    Inr \<lparr>sc_id = 0, sc_candidate = cn_id c, sc_key = key,
      sc_name = (if take 255 (ch_label h) \<noteq> [] then take 255 (ch_label h) else key), sc_url = ch_url h,
      sc_list = ch_selector h, sc_content = content_selector host, sc_method = ch_method h, sc_rank = rank,
      sc_status = ColDiscovered, sc_found = 0, sc_fetched = 0, sc_success = 0, sc_failed = 0, sc_chars = 0,
      sc_quality = None, sc_error = None\<rparr>)"

text \<open>The flush of a new row, under the unique constraint on the candidate and the URL.\<close>

definition create_column :: "sd_env \<Rightarrow> candidate_column \<Rightarrow> candidate_column sd" where
  "create_column env col =
    sd_call env (se_fault env) (\<lambda>x.
      if \<exists>c \<in> set (sd_cols x). sc_candidate c = sc_candidate col \<and> sc_url c = sc_url col
      then Inl (OtherError ''IntegrityError'')
      else Inr (x\<lparr>sd_cols := sd_cols x @ [col\<lparr>sc_id := sd_next x\<rparr>], sd_next := sd_next x + 1\<rparr>, col\<lparr>sc_id := sd_next x\<rparr>))"

fun create_columns :: "sd_env \<Rightarrow> candidate_row \<Rightarrow> ustr \<Rightarrow> (nat \<times> column_hit) list \<Rightarrow> candidate_column list sd" where
  "create_columns env c host [] = ereturn []"
| "create_columns env c host ((rank, h) # hs) =
    ebind (elift (new_column env c host rank h)) (\<lambda>col.
    ebind (create_column env col) (\<lambda>col.
    ebind (create_columns env c host hs) (\<lambda>cols. ereturn (col # cols))))"

definition discover_columns :: "sd_env \<Rightarrow> discovery_run \<Rightarrow> candidate_row \<Rightarrow> fetched \<Rightarrow> candidate_column list sd" where
  "discover_columns env r c p =
    (let ft = se_fault env in
     ebind (elift (se_text env p)) (\<lambda>body.
     ebind (elift (url_site (se_nfkc env) (fe_url p))) (\<lambda>host.
     ebind (elift (rank_hits (se_nfkc env) (fe_url p) (se_select env body (asc ''a[href]''))
       (se_select env body panel_selector))) (\<lambda>hits.
     ebind (create_columns env c host (enum_from 1 (take (se_max_columns env) hits))) (\<lambda>cols.
     if cols = [] then ereturn []
     else
       ebind (add_event env ft (set_candidate (cn_id c) (\<lambda>c. c\<lparr>cn_status := CandColumns\<rparr>))
         (stage_event (rd_id r) (Some (cn_id c)) ''column_discovery'' (Some ''validated'') ''columns_discovered'')) (\<lambda>u.
       ebind (sd_commit env ft) (\<lambda>u. ereturn cols)))))))"

section \<open>The trial crawl\<close>

datatype verdict = Accepted nat | Rejected string

definition level_name :: "relevance_level \<Rightarrow> string" where
  "level_name l = (case l of Direct \<Rightarrow> ''DIRECT'' | Related \<Rightarrow> ''RELATED'' | Weak \<Rightarrow> ''WEAK'' | Unrelated \<Rightarrow> ''UNRELATED'')"

text \<open>\<open>max(texts, key=len, default="")\<close>: the first of the longest.\<close>

definition longest :: "ustr list \<Rightarrow> ustr" where
  "longest ts = foldl (\<lambda>b t. if length b < length t then t else b) [] ts"

definition judge_detail :: "sd_env \<Rightarrow> ustr \<Rightarrow> ustr \<Rightarrow> ustr \<Rightarrow> fetched \<Rightarrow> exn + verdict" where
  "judge_detail env topic selector url p =
    rbind (url_site (se_nfkc env) url) (\<lambda>requested.
    rbind (url_site (se_nfkc env) (fe_url p)) (\<lambda>answered.
    if answered \<noteq> requested then Inr (Rejected ''CROSS_HOST_REDIRECT'')
    else
    rbind (se_text env p) (\<lambda>body.
    let title = longest (map tag_text_value (se_select env body title_selector));
        content = longest (se_content env body selector);
        level = tv_level (classify_topic_relevance title content topic)
    in if length content < se_min_chars env then Inr (Rejected ''CONTENT_TOO_SHORT'')
       else if level \<notin> {Direct, Related} then Inr (Rejected (level_name level))
       else Inr (Accepted (length content)))))"

text \<open>Every exception of one document is caught.\<close>

fun trial_details :: "sd_env \<Rightarrow> ustr \<Rightarrow> ustr \<Rightarrow> ustr list \<Rightarrow> verdict list sd" where
  "trial_details env topic selector [] = ereturn []"
| "trial_details env topic selector (url # urls) =
    ebind (etry (ebind (sd_fetch env url) (\<lambda>p. elift (judge_detail env topic selector url p)))) (\<lambda>v.
    ebind (trial_details env topic selector urls) (\<lambda>vs.
    ereturn ((case v of Inr v \<Rightarrow> v | Inl e \<Rightarrow> Rejected ''FETCH_OR_PARSE_ERROR'') # vs)))"

fun accepted_chars :: "verdict list \<Rightarrow> nat list" where
  "accepted_chars [] = []"
| "accepted_chars (Accepted n # vs) = n # accepted_chars vs"
| "accepted_chars (Rejected r # vs) = accepted_chars vs"

definition average :: "nat list \<Rightarrow> nat" where
  "average ns = (if ns = [] then 0 else nat (round_half_even (of_nat (sum_list ns) / of_nat (length ns))))"

definition richness :: "nat \<Rightarrow> nat \<Rightarrow> rat" where
  "richness min_chars chars = min (of_nat chars / of_nat (max (min_chars * 2) 1)) 1"

definition column_quality :: "nat \<Rightarrow> nat \<Rightarrow> nat \<Rightarrow> nat \<Rightarrow> rat" where
  "column_quality min_chars fetched success chars =
    py_round 4 (1 / 2 * (if fetched = 0 then 0 else of_nat success / of_nat fetched) + 1 / 2 * richness min_chars chars)"

definition column_stats :: "nat \<Rightarrow> verdict list \<Rightarrow> candidate_column \<Rightarrow> candidate_column" where
  "column_stats min_chars vs col =
    (let n = length vs; good = accepted_chars vs; chars = average good in
     col\<lparr>sc_found := n, sc_fetched := n, sc_success := length good, sc_failed := n - length good, sc_chars := chars,
       sc_quality := Some (column_quality min_chars n (length good) chars),
       sc_status := (if good \<noteq> [] then ColTrialCrawled else ColFailed),
       sc_error := (if good \<noteq> [] then None else Some ''NO_RELEVANT_DETAIL_DOCUMENTS'')\<rparr>)"

definition no_detail_links :: "candidate_column \<Rightarrow> candidate_column" where
  "no_detail_links col = col\<lparr>sc_found := 0, sc_fetched := 0, sc_success := 0, sc_failed := 1, sc_chars := 0,
     sc_quality := Some 0, sc_status := ColFailed, sc_error := Some ''NO_DETAIL_LINKS''\<rparr>"

definition column_status_name :: "column_status \<Rightarrow> string" where
  "column_status_name s = (case s of ColDiscovered \<Rightarrow> ''discovered'' | ColTrialCrawled \<Rightarrow> ''trial_crawled'' | ColFailed \<Rightarrow> ''failed'')"

definition list_selector :: "candidate_column \<Rightarrow> ustr" where
  "list_selector col = (if strip (sc_list col) = [] then asc ''a[href]'' else sc_list col)"

definition trial_body :: "sd_env \<Rightarrow> discovery_run \<Rightarrow> candidate_row \<Rightarrow> candidate_column \<Rightarrow> candidate_column sd" where
  "trial_body env r c col =
    (let ft = se_fault env;
         finish = (\<lambda>f. ebind (add_event env ft (set_column (sc_id col) f)
             (stage_event (rd_id r) (Some (cn_id c)) ''trial_crawl'' (Some ''columns_discovered'') (column_status_name (sc_status (f col))))) (\<lambda>u.
           ebind (sd_commit env ft) (\<lambda>u. ereturn (f col)))) in
     ebind (sd_fetch env (sc_url col)) (\<lambda>listing.
     ebind (elift (se_text env listing)) (\<lambda>body.
     ebind (\<lambda>w. elift (detail_urls (se_nfkc env) (se_trial_documents env) (rd_topic r) (fe_url listing) (sc_url col)
         (sw_seen w) (se_select env body (list_selector col))) w) (\<lambda>urls.
     ebind (elocal (\<lambda>w. w\<lparr>sw_seen := sw_seen w @ urls\<rparr>)) (\<lambda>u.
     if urls = [] then finish no_detail_links
     else ebind (trial_details env (rd_topic r) (sc_content col) urls) (\<lambda>vs.
       finish (column_stats (se_min_chars env) vs)))))))"

definition trial_crawl_column :: "sd_env \<Rightarrow> discovery_run \<Rightarrow> candidate_row \<Rightarrow> candidate_column \<Rightarrow> candidate_column sd" where
  "trial_crawl_column env r c col =
    ecatch (trial_body env r c col) (\<lambda>e.
      let ft = se_cleanup env; failed = (\<lambda>x. x\<lparr>sc_status := ColFailed, sc_error := Some (exn_class e)\<rparr>) in
      ebind (sd_rollback env ft) (\<lambda>u.
      ebind (touch env ft) (\<lambda>u.
      ebind (sd_query env ft (list_columns (se_nulls env) (cn_id c))) (\<lambda>current.
      ebind (add_event env ft (set_column (sc_id col) failed)
        (stage_event (rd_id r) (Some (cn_id c)) ''trial_crawl'' (Some ''columns_discovered'') ''failed'')) (\<lambda>u.
      ebind (sd_commit env ft) (\<lambda>u.
      ereturn (failed (case find (\<lambda>x. sc_id x = sc_id col) current of Some x \<Rightarrow> x | None \<Rightarrow> col))))))))"

fun trial_crawl :: "sd_env \<Rightarrow> discovery_run \<Rightarrow> candidate_row \<Rightarrow> candidate_column list \<Rightarrow> candidate_column list sd" where
  "trial_crawl env r c [] = ereturn []"
| "trial_crawl env r c (col # cols) =
    ebind (trial_crawl_column env r c col) (\<lambda>col.
    ebind (trial_crawl env r c cols) (\<lambda>cols. ereturn (col # cols)))"

section \<open>The score\<close>

record candidate_score =
  cq_documents :: nat
  cq_success :: nat
  cq_failed :: nat
  cq_chars :: nat
  cq_quality :: rat

definition candidate_quality :: "nat \<Rightarrow> rat \<Rightarrow> candidate_column list \<Rightarrow> candidate_score" where
  "candidate_quality min_chars official cols =
    (let documents = sum_list (map sc_found cols); success = sum_list (map sc_success cols);
         counted = filter (\<lambda>n. n \<noteq> 0) (map sc_chars cols);
         chars = nat (round_half_even (of_nat (sum_list counted) / of_nat (max (length counted) 1)));
         ratio = of_nat success / of_nat (max documents 1);
         columns = min (of_nat (length cols) / 2) 1
     in \<lparr>cq_documents = documents, cq_success = success, cq_failed = sum_list (map sc_failed cols), cq_chars = chars,
        cq_quality = py_round 4 (35 / 100 * official + 15 / 100 * columns + 25 / 100 * ratio
          + 25 / 100 * richness min_chars chars)\<rparr>)"

definition score_candidate :: "sd_env \<Rightarrow> discovery_run \<Rightarrow> candidate_row \<Rightarrow> rat \<Rightarrow> candidate_column list \<Rightarrow> unit sd" where
  "score_candidate env r c official cols =
    (let q = candidate_quality (se_min_chars env) official cols; good = se_threshold env \<le> cq_quality q;
         status = (if good then CandPending else CandRejected) in
     ebind (add_event env (se_fault env) (set_candidate (cn_id c) (\<lambda>c. c\<lparr>cn_columns := length cols,
         cn_documents := cq_documents q, cn_success := cq_success q, cn_failed := cq_failed q, cn_chars := cq_chars q,
         cn_quality := Some (cq_quality q), cn_status := status,
         cn_reason := (if good then None else reason ''QUALITY_SCORE_BELOW_THRESHOLD'')\<rparr>))
       (stage_event (rd_id r) (Some (cn_id c)) ''quality_scoring'' (Some ''columns_discovered'') (cand_status_name status))) (\<lambda>u.
     sd_commit env (se_fault env)))"

definition candidate_stages :: "sd_env \<Rightarrow> discovery_run \<Rightarrow> candidate_row \<Rightarrow> unit sd" where
  "candidate_stages env r c =
    (let ft = se_fault env in
     ebind (validate_official env r c) (\<lambda>answer. case answer of
       None \<Rightarrow> ereturn ()
     | Some (p, official) \<Rightarrow>
         ebind (discover_columns env r c p) (\<lambda>cols.
         if cols = [] then
           ebind (add_event env ft (set_candidate (cn_id c) (\<lambda>c. c\<lparr>cn_status := CandFailed,
               cn_reason := reason ''NO_POLICY_COLUMNS_DISCOVERED''\<rparr>))
             (stage_event (rd_id r) (Some (cn_id c)) ''column_discovery'' (Some ''validated'') ''failed'')) (\<lambda>u.
           sd_commit env ft)
         else
           ebind (elocal (\<lambda>w. w\<lparr>sw_seen := []\<rparr>)) (\<lambda>u.
           ebind (trial_crawl env r c cols) (\<lambda>cols.
           score_candidate env r c official cols)))))"

definition process_candidate :: "sd_env \<Rightarrow> discovery_run \<Rightarrow> candidate_row \<Rightarrow> unit sd" where
  "process_candidate env r c =
    ecatch (candidate_stages env r c) (\<lambda>e.
      let ft = se_cleanup env in
      ebind (sd_rollback env ft) (\<lambda>u.
      ebind (touch env ft) (\<lambda>u.
      ebind (get_candidate env ft (cn_id c)) (\<lambda>current. case current of
        None \<Rightarrow> ereturn ()
      | Some x \<Rightarrow>
          ebind (add_event env ft (set_candidate (cn_id x) (\<lambda>c. c\<lparr>cn_status := CandFailed, cn_reason := reason (exn_class e)\<rparr>))
            (stage_event (rd_id r) (Some (cn_id x)) ''candidate_failure'' (Some (cand_status_name (cn_status x))) ''failed'')) (\<lambda>u.
          sd_commit env ft)))))"

section \<open>Executing a run\<close>

definition new_candidate :: "sd_env \<Rightarrow> discovery_run \<Rightarrow> candidate_hit \<Rightarrow> ustr \<Rightarrow> exn + candidate_row" where
  "new_candidate env r h home =
    rbind (urlsplit (se_nfkc env) [] home) (\<lambda>u.
    Inr \<lparr>cn_id = 0, cn_run = rd_id r, cn_url = home, cn_domain = host_of u,
      cn_name = (if take 512 (hi_title h) \<noteq> [] then take 512 (hi_title h) else truthy_or (hostname u) home),
      cn_snippet = hi_snippet h, cn_rank = hi_rank h, cn_query = rd_query r, cn_official = OffUnknown, cn_score = None,
      cn_evidence = None, cn_code = None, cn_final_url = None, cn_status = CandDiscovered, cn_quality = None,
      cn_columns = 0, cn_documents = 0, cn_success = 0, cn_failed = 0, cn_chars = 0, cn_reason = None,
      cn_approver = None, cn_approved_at = None, cn_source = None\<rparr>)"

definition create_candidate :: "sd_env \<Rightarrow> candidate_row \<Rightarrow> candidate_row sd" where
  "create_candidate env c =
    sd_call env (se_fault env) (\<lambda>x.
      if \<exists>k \<in> set (sd_cands x). cn_run k = cn_run c \<and> cn_url k = cn_url c then Inl (OtherError ''IntegrityError'')
      else Inr (x\<lparr>sd_cands := sd_cands x @ [c\<lparr>cn_id := sd_next x\<rparr>], sd_next := sd_next x + 1\<rparr>, c\<lparr>cn_id := sd_next x\<rparr>))"

text \<open>The candidate of a hit and its previous status, \<open>None\<close> where the hit is skipped.\<close>

definition take_candidate :: "sd_env \<Rightarrow> discovery_run \<Rightarrow> candidate_hit \<Rightarrow> ustr \<Rightarrow> (candidate_row \<times> cand_status option) option sd" where
  "take_candidate env r h home =
    (let ft = se_fault env in
     ebind (sd_query env ft (candidate_by_url (rd_id r) home)) (\<lambda>known. case known of
       None \<Rightarrow>
         ebind (elift (new_candidate env r h home)) (\<lambda>c.
         ecatch (ebind (create_candidate env c) (\<lambda>c. ereturn (Some (c, None)))) (\<lambda>e.
           if e = OtherError ''IntegrityError''
           then ebind (sd_rollback env ft) (\<lambda>u. ebind (touch env ft) (\<lambda>u. ereturn None))
           else eraise e))
     | Some c \<Rightarrow>
         if 1 < rd_attempts r \<and> cn_status c \<in> {CandValidationFailed, CandRejected, CandFailed} then
           ebind (sd_write env ft (reset_candidate (cn_id c))) (\<lambda>u. ereturn (Some (c, Some (cn_status c))))
         else ereturn None))"

fun process_hits :: "sd_env \<Rightarrow> discovery_run \<Rightarrow> ustr list \<Rightarrow> nat \<Rightarrow> candidate_hit list \<Rightarrow> nat sd" where
  "process_hits env r seen n [] = ereturn n"
| "process_hits env r seen n (h # hs) =
    (if rd_max r \<le> n then ereturn n
     else case normalize_url (se_nfkc env) None (hi_url h) of
       Inl e \<Rightarrow> if is_value_error e then process_hits env r seen n hs else eraise e
     | Inr home \<Rightarrow>
         if home \<in> set seen then process_hits env r seen n hs
         else ebind (take_candidate env r h home) (\<lambda>found. case found of
           None \<Rightarrow> process_hits env r (home # seen) n hs
         | Some (c, previous) \<Rightarrow>
             ebind (ecatch (ebind (add_event env (se_fault env) (\<lambda>x. x) (stage_event (rd_id r) (Some (cn_id c))
                   ''candidate_discovery'' (map_option cand_status_name previous) ''discovered'')) (\<lambda>u. sd_commit env (se_fault env)))
               (\<lambda>e. ebind (sd_rollback env (se_cleanup env)) (\<lambda>u. eraise e))) (\<lambda>u.
             ebind (process_candidate env r c) (\<lambda>u.
             process_hits env r (home # seen) (n + 1) hs))))"

definition sd_search :: "sd_env \<Rightarrow> discovery_run \<Rightarrow> candidate_hit list sd" where
  "sd_search env r w = (sd_turn env w, se_search env (sw_tick w) (rd_query r) (rd_max r))"

definition complete_run :: "sd_env \<Rightarrow> discovery_run \<Rightarrow> nat \<Rightarrow> discovery_run sd" where
  "complete_run env r n =
    (let ft = se_fault env in
     ebind (refresh_run_counts env ft (rd_id r)) (\<lambda>counts.
     ebind (sd_query env ft (list_candidates (se_nulls env) (rd_id r))) (\<lambda>cs.
     let waiting = (\<exists>c \<in> set cs. cn_status c = CandPending);
         status = (if waiting then RunAwaiting else RunFailed);
         close = (\<lambda>x. (counts x)\<lparr>rd_status := status, rd_finished := Some (se_now env),
           rd_error := (if waiting then rd_error x
             else if 0 < n then Some ''No candidate passed official validation and quality scoring.''
             else Some ''Candidate discovery returned no usable URLs.'')\<rparr>) in
     ebind (add_event env ft (set_run (rd_id r) close)
       (stage_event (rd_id r) None ''run_completion'' (Some ''running'') (run_status_name status))) (\<lambda>u.
     save_run env ft (rd_id r)))))"

definition execute_run :: "sd_env \<Rightarrow> int \<Rightarrow> discovery_run sd" where
  "execute_run env i =
    ebind (claim_run env i) (\<lambda>claimed. case claimed of
      None \<Rightarrow>
        ebind (existing_run env (se_fault env) i) (\<lambda>r.
        if rd_status r \<in> {RunNoGap, RunAwaiting, RunActivated} then ereturn r
        else eraise (AppError ''SOURCE_DISCOVERY_ALREADY_CLAIMED'' 409))
    | Some r \<Rightarrow>
        ecatch (ebind (sd_search env r) (\<lambda>hits.
          ebind (process_hits env r [] 0 hits) (\<lambda>n. complete_run env r n)))
        (\<lambda>e. let ft = se_cleanup env in
          ebind (sd_rollback env ft) (\<lambda>u.
          ebind (get_run env ft i) (\<lambda>found. case found of
            None \<Rightarrow> eraise e
          | Some r \<Rightarrow>
              ebind (add_event env ft (set_run i (\<lambda>x. x\<lparr>rd_status := RunFailed, rd_finished := Some (se_now env),
                  rd_error := Some (exn_class e)\<rparr>))
                (stage_event i None ''run_failure'' (Some ''running'') ''failed'')) (\<lambda>u.
              ebind (save_run env ft i) (\<lambda>r. eraise e))))))"

section \<open>Decisions of an administrator\<close>

text \<open>A conditional update with its commit: the row as it is then, if one row was changed.\<close>

definition claim_candidate :: "sd_env \<Rightarrow> int \<Rightarrow> cand_status list \<Rightarrow> (candidate_row \<Rightarrow> candidate_row) \<Rightarrow> candidate_row option sd" where
  "claim_candidate env i allowed f =
    (let ft = se_fault env in
     ebind (sd_call env ft (\<lambda>x. Inr (update_candidate i allowed f x))) (\<lambda>n.
     ebind (sd_commit env ft) (\<lambda>u. if n \<noteq> 1 then ereturn None else get_candidate env ft i)))"

definition approve_candidate :: "sd_env \<Rightarrow> int \<Rightarrow> ustr \<Rightarrow> candidate_row option sd" where
  "approve_candidate env i reviewer = claim_candidate env i [CandPending]
     (\<lambda>c. c\<lparr>cn_status := CandApproved, cn_approver := Some reviewer, cn_approved_at := Some (se_now env)\<rparr>)"

definition reject_candidate :: "sd_env \<Rightarrow> int \<Rightarrow> ustr \<Rightarrow> ustr \<Rightarrow> candidate_row option sd" where
  "reject_candidate env i reviewer why = claim_candidate env i [CandPending, CandApproved]
     (\<lambda>c. c\<lparr>cn_status := CandRejected, cn_reason := Some (reviewer @ asc '': '' @ why), cn_approver := None,
       cn_approved_at := None\<rparr>)"

definition claim_candidate_activation :: "sd_env \<Rightarrow> int \<Rightarrow> candidate_row option sd" where
  "claim_candidate_activation env i = claim_candidate env i [CandApproved] (\<lambda>c. c\<lparr>cn_status := CandActivating\<rparr>)"

definition invalid_candidate_state :: exn where
  "invalid_candidate_state = AppError ''INVALID_SOURCE_CANDIDATE_STATE'' 409"

definition approve :: "sd_env \<Rightarrow> int \<Rightarrow> ustr \<Rightarrow> candidate_row sd" where
  "approve env i reviewer =
    (let ft = se_fault env in
     ebind (existing_candidate env ft i) (\<lambda>c.
     if cn_status c = CandActivated then ereturn c
     else if cn_status c \<noteq> CandPending then eraise invalid_candidate_state
     else
     ebind (approve_candidate env i reviewer) (\<lambda>found. case found of
       None \<Rightarrow> eraise (ConflictError ''Candidate approval was claimed by another reviewer'')
     | Some c \<Rightarrow>
         ebind (refresh_run_counts env ft (cn_run c)) (\<lambda>counts.
         ebind (add_event env ft (set_run (cn_run c) counts)
           (stage_event (cn_run c) (Some (cn_id c)) ''manual_approval'' (Some ''pending_approval'') ''approved'')) (\<lambda>u.
         ebind (save_run env ft (cn_run c)) (\<lambda>r. ereturn c))))))"

text \<open>
  \<open>candidate\<close> and \<open>rejected\<close> are one object of the session, which \<open>reject_candidate\<close> has read again:
  the event's \<open>from_status\<close> is the status after the update.
\<close>

definition reject :: "sd_env \<Rightarrow> int \<Rightarrow> ustr \<Rightarrow> ustr option \<Rightarrow> candidate_row sd" where
  "reject env i reviewer why =
    (let ft = se_fault env; text' = (case why of Some s \<Rightarrow> strip s | None \<Rightarrow> []) in
     if text' = [] then eraise (AppError ''REJECTION_REASON_REQUIRED'' 422)
     else
     ebind (existing_candidate env ft i) (\<lambda>c.
     if cn_status c = CandActivated then eraise invalid_candidate_state
     else
     ebind (reject_candidate env i reviewer text') (\<lambda>found. case found of
       None \<Rightarrow> eraise (ConflictError ''Candidate is not awaiting approval'')
     | Some c \<Rightarrow>
         ebind (refresh_run_counts env ft (cn_run c)) (\<lambda>counts.
         ebind (add_event env ft (set_run (cn_run c) counts)
           (stage_event (cn_run c) (Some (cn_id c)) ''manual_approval'' (Some (cand_status_name (cn_status c))) ''rejected'')) (\<lambda>u.
         ebind (save_run env ft (cn_run c)) (\<lambda>r. ereturn c))))))"

section \<open>Activation\<close>

definition live_columns :: "candidate_column list \<Rightarrow> live_column list" where
  "live_columns cols =
    map (\<lambda>c. \<lparr>lc_key = sc_key c, lc_name = sc_name c, lc_url = sc_url c, lc_list = sc_list c, lc_content = sc_content c\<rparr>)
      (filter (\<lambda>c. sc_status c = ColTrialCrawled) cols)"

definition new_source :: "candidate_row \<Rightarrow> discovery_run \<Rightarrow> live_column list \<Rightarrow> live_source" where
  "new_source c r cols = \<lparr>ls_id = 0, ls_key = cn_id c, ls_name = take 255 (cn_name c), ls_domain = cn_domain c,
     ls_region = rd_region r, ls_level = rd_level r, ls_homepage = truthy_or (cn_final_url c) (cn_url c),
     ls_enabled = True, ls_columns = cols\<rparr>"

text \<open>The flush of the source: its key is unique, and so are the keys of its columns.\<close>

definition insert_source :: "sd_env \<Rightarrow> live_source \<Rightarrow> int sd" where
  "insert_source env s =
    sd_call env (se_fault env) (\<lambda>x.
      if (\<exists>k \<in> set (sd_sources x). ls_key k = ls_key s) \<or> \<not> distinct (map lc_key (ls_columns s))
      then Inl (OtherError ''IntegrityError'')
      else Inr (x\<lparr>sd_sources := sd_sources x @ [s\<lparr>ls_id := sd_next x\<rparr>], sd_next := sd_next x + 1\<rparr>, sd_next x))"

text \<open>
  The counts are read before the candidate's new status is flushed, with the event.
\<close>

definition materialize :: "sd_env \<Rightarrow> candidate_row \<Rightarrow> candidate_row sd" where
  "materialize env c =
    (let ft = se_fault env; failed = eraise (AppError ''SOURCE_ACTIVATION_FAILED'' 409) in
     ebind (sd_query env ft (list_columns (se_nulls env) (cn_id c))) (\<lambda>cols.
     if cols = [] then failed
     else
     ebind (existing_run env ft (cn_run c)) (\<lambda>r.
     if live_columns cols = [] then failed
     else
     ebind (insert_source env (new_source c r (live_columns cols))) (\<lambda>sid.
     ebind (refresh_run_counts env ft (rd_id r)) (\<lambda>counts.
     let live = (\<lambda>x. x\<lparr>cn_source := Some sid, cn_status := CandActivated,
           cn_approved_at := (case cn_approved_at c of Some t \<Rightarrow> Some t | None \<Rightarrow> Some (se_now env))\<rparr>) in
     ebind (add_event env ft (\<lambda>x. set_run (rd_id r) (\<lambda>k. (counts k)\<lparr>rd_status := RunActivated\<rparr>) (set_candidate (cn_id c) live x))
       (stage_event (rd_id r) (Some (cn_id c)) ''source_activation'' (Some ''activating'') ''activated'')) (\<lambda>u.
     ebind (save_run env ft (rd_id r)) (\<lambda>k. ereturn (live c))))))))"

definition mark_activation_failed :: "sd_env \<Rightarrow> int \<Rightarrow> string \<Rightarrow> unit sd" where
  "mark_activation_failed env i why =
    (let ft = se_cleanup env in
     ebind (sd_rollback env ft) (\<lambda>u.
     ebind (get_candidate env ft i) (\<lambda>found. case found of
       None \<Rightarrow> ereturn ()
     | Some c \<Rightarrow>
         ebind (add_event env ft (set_candidate i (\<lambda>x. x\<lparr>cn_status := CandFailed,
             cn_reason := reason (''ACTIVATION_FAILED:'' @ why)\<rparr>))
           (stage_event (cn_run c) (Some i) ''source_activation_failure'' (Some ''activating'') ''failed'')) (\<lambda>u.
         sd_commit env ft))))"

text \<open>The code of an \<open>AppError\<close>; \<open>NotFoundError\<close> and \<open>ConflictError\<close> are subclasses.\<close>

fun app_code :: "exn \<Rightarrow> string option" where
  "app_code (AppError code status) = Some code"
| "app_code (NotFoundError x) = Some ''RESOURCE_NOT_FOUND''"
| "app_code (ConflictError x) = Some ''RESOURCE_CONFLICT''"
| "app_code e = None"

definition activate :: "sd_env \<Rightarrow> int \<Rightarrow> candidate_row sd" where
  "activate env i =
    (let ft = se_fault env in
     ebind (existing_candidate env ft i) (\<lambda>c.
     if cn_status c = CandActivated then ereturn c
     else
     ebind (claim_candidate_activation env i) (\<lambda>claimed. case claimed of
       None \<Rightarrow> ebind (existing_candidate env ft i) (\<lambda>c. eraise invalid_candidate_state)
     | Some c \<Rightarrow>
         ecatch (materialize env c) (\<lambda>e.
           if e = OtherError ''IntegrityError'' then
             ebind (mark_activation_failed env i ''SOURCE_KEY_CONFLICT'') (\<lambda>u.
             eraise (ConflictError ''Source activation conflicts with an existing source''))
           else case app_code e of
             Some code \<Rightarrow> ebind (mark_activation_failed env i code) (\<lambda>u. eraise e)
           | None \<Rightarrow> ebind (mark_activation_failed env i (exn_class e)) (\<lambda>u.
               eraise (AppError ''SOURCE_ACTIVATION_FAILED'' 503))))))"

section \<open>Retry and the queue\<close>

definition retry_run :: "sd_env \<Rightarrow> int \<Rightarrow> discovery_run sd" where
  "retry_run env i =
    (let ft = se_fault env in
     ebind (existing_run env ft i) (\<lambda>r.
     if rd_status r \<noteq> RunFailed then eraise (AppError ''INVALID_SOURCE_DISCOVERY_STATE'' 409)
     else
     ebind (sd_write env ft (set_run i (\<lambda>x. x\<lparr>rd_status := RunPending, rd_started := None, rd_finished := None,
       rd_error := None\<rparr>))) (\<lambda>u.
     ebind (save_run env ft i) (\<lambda>r.
     ebind (add_event env ft (\<lambda>x. x) (stage_event i None ''retry'' (Some ''failed'') ''pending'')) (\<lambda>u.
     ebind (sd_commit env ft) (\<lambda>u. ereturn r))))))"

definition fail_queued_run :: "sd_env \<Rightarrow> int \<Rightarrow> string \<Rightarrow> discovery_run sd" where
  "fail_queued_run env i error_type =
    (let ft = se_fault env in
     ebind (existing_run env ft i) (\<lambda>r.
     if rd_status r \<noteq> RunPending then ereturn r
     else
     ebind (add_event env ft (set_run i (\<lambda>x. x\<lparr>rd_status := RunFailed, rd_finished := Some (se_now env),
         rd_error := Some (''QUEUE_UNAVAILABLE:'' @ error_type)\<rparr>))
       (stage_event i None ''queue_failure'' (Some (run_status_name (rd_status r))) ''failed'')) (\<lambda>u.
     save_run env ft i)))"

section \<open>The scheduler\<close>

text \<open>\<open>key\<close> is the database's \<open>lower(trim(topic))\<close>, \<open>casefold\<close> Python's.\<close>

definition auto_run_is_due :: "(ustr \<Rightarrow> ustr) \<Rightarrow> (ustr \<Rightarrow> ustr) \<Rightarrow> ustr \<Rightarrow> int \<Rightarrow> int \<Rightarrow> sd_db \<Rightarrow> exn + bool \<times> string" where
  "auto_run_is_due casefold key topic interval now x =
    (if interval < 0 then Inl (ValueError ''min_interval_seconds must be non-negative'')
     else
       let wanted = casefold (strip topic); runs = filter (\<lambda>r. key (rd_topic r) = wanted) (sd_runs x) in
       if wanted = [] then Inr (False, ''empty_topic'')
       else if \<exists>r \<in> set runs. rd_status r \<in> {RunPending, RunRunning, RunAwaiting} then Inr (False, ''active_run'')
       else case sort_key (\<lambda>r. (- rd_created r, - rd_id r)) runs of
         [] \<Rightarrow> Inr (True, ''due'')
       | r # rs \<Rightarrow> if now - interval < rd_created r then Inr (False, ''cooldown'') else Inr (True, ''due''))"

record scan_settings =
  sg_enabled :: bool
  sg_topics :: "ustr list"
  sg_interval :: int
  sg_region :: "ustr option"
  sg_level :: "ustr option"
  sg_need_sources :: nat
  sg_need_documents :: nat

record scan_report =
  sp_created :: nat
  sp_queued :: nat
  sp_skipped :: nat
  sp_no_gap :: nat
  sp_failed :: nat

text \<open>\<open>send n i\<close> is what \<open>send_task\<close> raises for run \<open>i\<close> at tick \<open>n\<close>. An exception leaves the counters as they
  were before the topic, or with the run counted as created when it comes after the creation.\<close>

definition scan_topic :: "sd_env \<Rightarrow> (ustr \<Rightarrow> ustr) \<Rightarrow> (ustr \<Rightarrow> ustr) \<Rightarrow> (nat \<Rightarrow> int \<Rightarrow> exn option) \<Rightarrow> scan_settings \<Rightarrow> ustr
    \<Rightarrow> scan_report \<Rightarrow> (scan_report \<times> bool) sd" where
  "scan_topic env casefold key send s topic p =
    (let ft = se_fault env; t = strip topic in
     ebind (sd_call env ft (\<lambda>x. rbind (auto_run_is_due casefold key t (sg_interval s) (se_now env) x) (\<lambda>d. Inr (x, d)))) (\<lambda>(due, why).
     if \<not> due then ereturn (p\<lparr>sp_skipped := sp_skipped p + 1\<rparr>, True)
     else if t = [] \<or> 255 < length t then eraise (ValueError ''topic must be a text of 1 to 255 characters'')
     else
     ebind (create_discovery env \<lparr>dq_topic = t, dq_region = sg_region s, dq_level = sg_level s, dq_query = None,
         dq_need_sources = sg_need_sources s, dq_need_documents = sg_need_documents s,
         dq_max = Some (se_max_candidates env)\<rparr> (asc ''source-discovery-scheduler'')) (\<lambda>r.
     let p = p\<lparr>sp_created := sp_created p + 1\<rparr> in
     if rd_status r \<noteq> RunPending then ereturn (p\<lparr>sp_no_gap := sp_no_gap p + 1\<rparr>, True)
     else
     ebind (\<lambda>w. (sd_turn env w, Inr (send (sw_tick w) (rd_id r)))) (\<lambda>sent. case sent of
       None \<Rightarrow> ereturn (p\<lparr>sp_queued := sp_queued p + 1\<rparr>, True)
     | Some e \<Rightarrow> ebind (etry (fail_queued_run env (rd_id r) (exn_class e))) (\<lambda>marked. case marked of
         Inr k \<Rightarrow> ereturn (p\<lparr>sp_failed := sp_failed p + 1\<rparr>, True)
       | Inl e \<Rightarrow> ereturn (p, False))))))"

text \<open>The result \<open>False\<close> of \<open>scan_topic\<close> and an exception lead to the same handler.\<close>

fun scan_topics :: "sd_env \<Rightarrow> (ustr \<Rightarrow> ustr) \<Rightarrow> (ustr \<Rightarrow> ustr) \<Rightarrow> (nat \<Rightarrow> int \<Rightarrow> exn option) \<Rightarrow> scan_settings \<Rightarrow> ustr list
    \<Rightarrow> scan_report \<Rightarrow> scan_report sd" where
  "scan_topics env casefold key send s [] p = ereturn p"
| "scan_topics env casefold key send s (t # ts) p =
    ebind (etry (scan_topic env casefold key send s t p)) (\<lambda>answer.
    let failed = (\<lambda>p. ebind (sd_rollback env (se_cleanup env)) (\<lambda>u.
      scan_topics env casefold key send s ts (p\<lparr>sp_failed := sp_failed p + 1\<rparr>)))
    in case answer of
      Inl e \<Rightarrow> failed p
    | Inr (p, ok) \<Rightarrow> if ok then scan_topics env casefold key send s ts p else failed p)"

definition scan_gaps :: "sd_env \<Rightarrow> (ustr \<Rightarrow> ustr) \<Rightarrow> (ustr \<Rightarrow> ustr) \<Rightarrow> (nat \<Rightarrow> int \<Rightarrow> exn option) \<Rightarrow> scan_settings
    \<Rightarrow> (string \<times> scan_report) sd" where
  "scan_gaps env casefold key send s =
    (let none = \<lparr>sp_created = 0, sp_queued = 0, sp_skipped = 0, sp_no_gap = 0, sp_failed = 0\<rparr> in
     if \<not> sg_enabled s \<or> sg_topics s = [] then ereturn (''disabled'', none)
     else ebind (scan_topics env casefold key send s (sg_topics s) none) (\<lambda>p.
       ereturn (if sp_failed p = 0 then ''completed'' else ''partial_failed'', p)))"

end
