(* ===== verification/SourceProps.thy ===== *)
theory SourceProps
  imports SourceDiscovery
begin

text \<open>
  What source discovery guarantees while other sessions work on the same rows and any statement may
  raise: no source without an approval, sound rows, a bounded number of requests, and no run left behind.
  A condition on databases is an invariant of a program when the program keeps it, in what is
  committed and in what its transaction sees, as long as the other sessions keep it.
\<close>

section \<open>Invariants of programs\<close>

definition holds :: "(sd_db \<Rightarrow> bool) \<Rightarrow> sd_world \<Rightarrow> bool" where
  "holds J w \<longleftrightarrow> J (sw_saved w) \<and> J (sw_work w)"

definition others_keep :: "sd_env \<Rightarrow> (sd_db \<Rightarrow> bool) \<Rightarrow> bool" where
  "others_keep env J \<longleftrightarrow> (\<forall>n x. J x \<longrightarrow> J (se_others env n x))"

definition keeps :: "(sd_db \<Rightarrow> bool) \<Rightarrow> 'a sd \<Rightarrow> ('a \<Rightarrow> bool) \<Rightarrow> bool" where
  "keeps J m Q \<longleftrightarrow> (\<forall>w. holds J w \<longrightarrow> wp m (\<lambda>a w. holds J w \<and> Q a) (\<lambda>e. holds J) w)"

named_theorems keeps_intro

lemma keepsD: "keeps J m Q \<Longrightarrow> holds J w \<Longrightarrow> holds J (fst (m w))"
  unfolding keeps_def wp_def by (fastforce split: prod.splits sum.splits)

lemma keeps_mono: "keeps J m Q \<Longrightarrow> (\<And>a. Q a \<Longrightarrow> R a) \<Longrightarrow> keeps J m R"
  unfolding keeps_def by (blast intro: wp_mono)

lemma keeps_top: "keeps J m Q \<Longrightarrow> keeps J m (\<lambda>a. True)"
  by (rule keeps_mono) simp_all

lemma keeps_bind: "keeps J m Q \<Longrightarrow> (\<And>a. Q a \<Longrightarrow> keeps J (f a) R) \<Longrightarrow> keeps J (ebind m f) R"
  unfolding keeps_def by (simp, blast intro: wp_mono)

lemma keeps_return [keeps_intro]: "Q a \<Longrightarrow> keeps J (ereturn a) Q"
  by (simp add: keeps_def)

lemma keeps_raise [keeps_intro]: "keeps J (eraise e) Q"
  by (simp add: keeps_def)

lemma keeps_lift: "(\<And>a. r = Inr a \<Longrightarrow> Q a) \<Longrightarrow> keeps J (elift r) Q"
  by (simp add: keeps_def split: sum.splits)

lemma keeps_bind_lift: "(\<And>a. r = Inr a \<Longrightarrow> keeps J (f a) R) \<Longrightarrow> keeps J (ebind (elift r) f) R"
  by (rule keeps_bind [OF keeps_lift [where Q = "\<lambda>a. r = Inr a"]]) simp_all

lemma keeps_if: "(b \<Longrightarrow> keeps J m Q) \<Longrightarrow> (\<not> b \<Longrightarrow> keeps J k Q) \<Longrightarrow> keeps J (if b then m else k) Q"
  by simp

lemma keeps_local: "(\<And>w. sw_saved (g w) = sw_saved w \<and> sw_work (g w) = sw_work w) \<Longrightarrow> keeps J (elocal g) (\<lambda>u. True)"
  by (simp add: keeps_def holds_def)

lemma keeps_catch: "keeps J m Q \<Longrightarrow> (\<And>e. keeps J (h e) Q) \<Longrightarrow> keeps J (ecatch m h) Q"
  unfolding keeps_def by (simp, blast intro: wp_mono)

lemma keeps_try: "keeps J m Q \<Longrightarrow> keeps J (etry m) (\<lambda>r. \<forall>a. r = Inr a \<longrightarrow> Q a)"
  by (simp add: keeps_def)

lemma keeps_at: "(\<And>w. holds J w \<Longrightarrow> wp m (\<lambda>a w. holds J w \<and> Q a) (\<lambda>e. holds J) w) \<Longrightarrow> keeps J m Q"
  by (simp add: keeps_def)

lemma holds_turn: "others_keep env J \<Longrightarrow> holds J w \<Longrightarrow> holds J (sd_turn env w)"
  by (simp add: holds_def others_keep_def sd_turn_def)

lemma keeps_call:
  assumes "others_keep env J" "\<And>x y a. J x \<Longrightarrow> f x = Inr (y, a) \<Longrightarrow> J y \<and> Q a"
  shows "keeps J (sd_call env ft f) Q"
proof (rule keeps_at)
  fix w assume "holds J w"
  then have "holds J (sd_turn env w)" by (rule holds_turn [OF assms(1)])
  then show "wp (sd_call env ft f) (\<lambda>a w. holds J w \<and> Q a) (\<lambda>e. holds J) w"
    using assms(2) by (auto simp: wp_def sd_call_def Let_def holds_def split: option.splits sum.splits)
qed

lemma keeps_query:
  "others_keep env J \<Longrightarrow> (\<And>x. J x \<Longrightarrow> Q (f x)) \<Longrightarrow> keeps J (sd_query env ft f) Q"
  unfolding sd_query_def by (rule keeps_call) auto

lemma keeps_write: "others_keep env J \<Longrightarrow> (\<And>x. J x \<Longrightarrow> J (f x)) \<Longrightarrow> keeps J (sd_write env ft f) (\<lambda>u. True)"
  unfolding sd_write_def by (rule keeps_call) auto

lemma keeps_touch: "others_keep env J \<Longrightarrow> keeps J (touch env ft) (\<lambda>u. True)"
  unfolding touch_def by (rule keeps_query) simp_all

lemma keeps_commit: "others_keep env J \<Longrightarrow> keeps J (sd_commit env ft) (\<lambda>u. True)"
  by (rule keeps_at, drule (1) holds_turn)
    (auto simp: wp_def sd_commit_def Let_def holds_def split: option.splits)

lemma keeps_rollback: "others_keep env J \<Longrightarrow> keeps J (sd_rollback env ft) (\<lambda>u. True)"
  by (rule keeps_at, drule (1) holds_turn)
    (auto simp: wp_def sd_rollback_def Let_def holds_def split: option.splits)

lemma keeps_fetch: "others_keep env J \<Longrightarrow> keeps J (sd_fetch env url) (\<lambda>p. True)"
  by (rule keeps_at, drule (1) holds_turn) (auto simp: wp_def sd_fetch_def holds_def split: sum.splits)

lemma keeps_search: "others_keep env J \<Longrightarrow> keeps J (sd_search env r) (\<lambda>p. True)"
  by (rule keeps_at, drule (1) holds_turn) (auto simp: wp_def sd_search_def holds_def split: sum.splits)

lemma keeps_get_run: "others_keep env J \<Longrightarrow> keeps J (get_run env ft i) (\<lambda>r. \<forall>x. r = Some x \<longrightarrow> rd_id x = i)"
  unfolding get_run_def by (rule keeps_query) (auto simp: find_run_def find_Some_iff)

lemma keeps_get_candidate:
  "others_keep env J \<Longrightarrow> keeps J (get_candidate env ft i) (\<lambda>c. \<forall>x. c = Some x \<longrightarrow> cn_id x = i)"
  unfolding get_candidate_def by (rule keeps_query) (auto simp: find_candidate_def find_Some_iff)

text \<open>An invariant does not look at the audit trail, the runs and the log.\<close>

definition trail_free :: "(sd_db \<Rightarrow> bool) \<Rightarrow> bool" where
  "trail_free J \<longleftrightarrow> (\<forall>x e r. J (x\<lparr>sd_events := e, sd_runs := r\<rparr>) = J x)"

lemma trail_events [simp]: "trail_free J \<Longrightarrow> J (x\<lparr>sd_events := e\<rparr>) = J x"
  unfolding trail_free_def by (metis sd_db.surjective sd_db.update_convs(1,4))

lemma trail_runs [simp]: "trail_free J \<Longrightarrow> J (x\<lparr>sd_runs := r\<rparr>) = J x"
  unfolding trail_free_def by (metis sd_db.surjective sd_db.update_convs(1,4))

lemma trail_set_run [simp]: "trail_free J \<Longrightarrow> J (set_run i f x) = J x"
  by (simp add: set_run_def)

lemma keeps_event:
  assumes "trail_free J" "others_keep env J" "\<And>x. J x \<Longrightarrow> J (f x)"
  shows "keeps J (add_event env ft f e) (\<lambda>u. True)"
  unfolding add_event_def by (rule keeps_write) (use assms in simp_all)

section \<open>What is committed and what is pending\<close>

text \<open>
  Where a program needs more than the invariant: \<open>S\<close> holds of what is committed and \<open>W\<close> of what the
  transaction sees, and an exception leaves the invariant \<open>J\<close> of both.
\<close>

definition flow :: "(sd_db \<Rightarrow> bool) \<Rightarrow> (sd_db \<Rightarrow> bool) \<Rightarrow> (sd_db \<Rightarrow> bool) \<Rightarrow> 'a sd
    \<Rightarrow> ('a \<Rightarrow> sd_db \<Rightarrow> bool) \<Rightarrow> ('a \<Rightarrow> sd_db \<Rightarrow> bool) \<Rightarrow> bool" where
  "flow J S W m S' W' \<longleftrightarrow> (\<forall>w. S (sw_saved w) \<and> W (sw_work w) \<longrightarrow>
     wp m (\<lambda>a w. S' a (sw_saved w) \<and> W' a (sw_work w)) (\<lambda>e. holds J) w)"

lemma flow_keeps: "keeps J m Q \<Longrightarrow> flow J J J m (\<lambda>a x. J x \<and> Q a) (\<lambda>a x. J x \<and> Q a)"
  unfolding keeps_def flow_def holds_def by (blast intro: wp_mono)

lemma keeps_flow: "flow J J J m (\<lambda>a x. J x \<and> Q a) (\<lambda>a x. J x \<and> Q a) \<Longrightarrow> keeps J m Q"
  unfolding keeps_def flow_def holds_def by (blast intro: wp_mono)

lemma flow_weaken:
  assumes "flow J S W m S' W'" "\<And>x. S0 x \<Longrightarrow> S x" "\<And>x. W0 x \<Longrightarrow> W x"
    and "\<And>a x. S' a x \<Longrightarrow> S1 a x" "\<And>a x. W' a x \<Longrightarrow> W1 a x"
  shows "flow J S0 W0 m S1 W1"
  using assms unfolding flow_def by (blast intro: wp_mono)

lemma flow_bind:
  "flow J S W m Sm Wm \<Longrightarrow> (\<And>a. flow J (Sm a) (Wm a) (f a) S2 W2) \<Longrightarrow> flow J S W (ebind m f) S2 W2"
  unfolding flow_def by (simp, blast intro: wp_mono)

lemma flow_return: "(\<And>x. S x \<Longrightarrow> S' a x) \<Longrightarrow> (\<And>x. W x \<Longrightarrow> W' a x) \<Longrightarrow> flow J S W (ereturn a) S' W'"
  by (simp add: flow_def)

lemma flow_raise: "(\<And>x. S x \<Longrightarrow> J x) \<Longrightarrow> (\<And>x. W x \<Longrightarrow> J x) \<Longrightarrow> flow J S W (eraise e) S' W'"
  by (simp add: flow_def holds_def)

lemma flow_lift:
  "(\<And>x. S x \<Longrightarrow> J x) \<Longrightarrow> (\<And>x. W x \<Longrightarrow> J x) \<Longrightarrow>
    flow J S W (elift r) (\<lambda>a x. S x \<and> r = Inr a) (\<lambda>a x. W x \<and> r = Inr a)"
  by (simp add: flow_def holds_def split: sum.splits)

lemma flow_catch: "flow J S W m S' W' \<Longrightarrow> (\<And>e. flow J J J (h e) S' W') \<Longrightarrow> flow J S W (ecatch m h) S' W'"
  unfolding flow_def holds_def by (simp, blast intro: wp_mono)

lemma flow_call:
  assumes "others_keep env S" "others_keep env W" "\<And>x. S x \<Longrightarrow> J x" "\<And>x. W x \<Longrightarrow> J x"
    and "\<And>x y a. W x \<Longrightarrow> f x = Inr (y, a) \<Longrightarrow> W' a y"
  shows "flow J S W (sd_call env ft f) (\<lambda>a. S) W'"
  unfolding flow_def
proof (intro allI impI, elim conjE)
  fix w :: sd_world assume "S (sw_saved w)" "W (sw_work w)"
  then have "S (sw_saved (sd_turn env w))" "W (sw_work (sd_turn env w))"
    using assms(1,2) by (simp_all add: others_keep_def sd_turn_def)
  then show "wp (sd_call env ft f) (\<lambda>a w. S (sw_saved w) \<and> W' a (sw_work w)) (\<lambda>e. holds J) w"
    using assms(3,4,5) by (auto simp: wp_def sd_call_def Let_def holds_def split: option.splits sum.splits)
qed

lemma flow_commit:
  assumes "others_keep env S" "others_keep env W" "\<And>x. S x \<Longrightarrow> J x" "\<And>x. W x \<Longrightarrow> J x"
  shows "flow J S W (sd_commit env ft) (\<lambda>u. W) (\<lambda>u. W)"
  unfolding flow_def
proof (intro allI impI, elim conjE)
  fix w :: sd_world assume "S (sw_saved w)" "W (sw_work w)"
  then have "S (sw_saved (sd_turn env w))" "W (sw_work (sd_turn env w))"
    using assms(1,2) by (simp_all add: others_keep_def sd_turn_def)
  then show "wp (sd_commit env ft) (\<lambda>u w. W (sw_saved w) \<and> W (sw_work w)) (\<lambda>e. holds J) w"
    using assms(3,4) by (auto simp: wp_def sd_commit_def Let_def holds_def split: option.splits)
qed

lemma flow_event:
  assumes "others_keep env S" "others_keep env W" "\<And>x. S x \<Longrightarrow> J x" "\<And>x. W x \<Longrightarrow> J x"
    and "trail_free W'" "\<And>x. W x \<Longrightarrow> W' (f x)"
  shows "flow J S W (add_event env ft f e) (\<lambda>u. S) (\<lambda>u. W')"
  unfolding add_event_def sd_write_def by (rule flow_call) (use assms in auto)

text \<open>An event with its commit.\<close>

lemma flow_logged_end:
  assumes "others_keep env S" "others_keep env W" "others_keep env W'" "trail_free W'"
    and "\<And>x. S x \<Longrightarrow> J x" "\<And>x. W x \<Longrightarrow> J x" "\<And>x. W' x \<Longrightarrow> J x" "\<And>x. W x \<Longrightarrow> W' (f x)"
  shows "flow J S W (ebind (add_event env ft f e) (\<lambda>u. sd_commit env ft)) (\<lambda>u. W') (\<lambda>u. W')"
proof (rule flow_bind)
  show "flow J S W (add_event env ft f e) (\<lambda>u. S) (\<lambda>u. W')" by (rule flow_event) (use assms in auto)
  show "flow J S W' (sd_commit env ft) (\<lambda>u. W') (\<lambda>u. W')"
    by (rule flow_commit) (use assms in auto)
qed

lemma ebind_assoc: "ebind (ebind m f) k = ebind m (\<lambda>a. ebind (f a) k)"
  by (rule ext) (auto simp: ebind_def split: prod.splits sum.splits)

lemma flow_logged:
  assumes "others_keep env S" "others_keep env W" "others_keep env W'" "trail_free W'"
    and "\<And>x. S x \<Longrightarrow> J x" "\<And>x. W x \<Longrightarrow> J x" "\<And>x. W' x \<Longrightarrow> J x" "\<And>x. W x \<Longrightarrow> W' (f x)"
    and "\<And>u. flow J W' W' (k u) S2 W2"
  shows "flow J S W (ebind (add_event env ft f e) (\<lambda>u. ebind (sd_commit env ft) k)) S2 W2"
  using flow_bind [OF flow_logged_end [OF assms(1-8)] assms(9)] by (simp only: ebind_assoc)

lemma flow_false: "(\<And>x. S x \<Longrightarrow> False) \<Longrightarrow> flow J S W m S' W'"
  by (simp add: flow_def) blast

lemma flow_bind_lift:
  assumes "\<And>x. S x \<Longrightarrow> J x" "\<And>x. W x \<Longrightarrow> J x" "\<And>a. r = Inr a \<Longrightarrow> flow J S W (f a) S2 W2"
  shows "flow J S W (ebind (elift r) f) S2 W2"
proof (cases r)
  case (Inl e)
  then show ?thesis using assms(1,2) by (simp add: flow_def holds_def)
next
  case (Inr a)
  then show ?thesis using assms(3) [OF Inr] by (simp add: flow_def)
qed

lemma flow_bind_try_fetch:
  assumes "others_keep env V" "\<And>a. flow J V V (f a) S2 W2"
  shows "flow J V V (ebind (etry (sd_fetch env url)) f) S2 W2"
proof (rule flow_bind [where Sm = "\<lambda>a. V" and Wm = "\<lambda>a. V"])
  show "flow J V V (etry (sd_fetch env url)) (\<lambda>a. V) (\<lambda>a. V)"
    using assms(1) by (auto simp: flow_def wp_def etry_def sd_fetch_def sd_turn_def others_keep_def split: sum.splits)
qed (rule assms(2))

lemma flow_of_keeps:
  assumes "keeps V m Q" "\<And>x. V x \<Longrightarrow> J x" "\<And>a x. V x \<Longrightarrow> Q a \<Longrightarrow> S' a x" "\<And>a x. V x \<Longrightarrow> Q a \<Longrightarrow> W' a x"
  shows "flow J V V m S' W'"
  unfolding flow_def
proof (intro allI impI)
  fix w :: sd_world assume "V (sw_saved w) \<and> V (sw_work w)"
  then have "wp m (\<lambda>a w. holds V w \<and> Q a) (\<lambda>e. holds V) w" using assms(1) by (simp add: keeps_def holds_def)
  then show "wp m (\<lambda>a w. S' a (sw_saved w) \<and> W' a (sw_work w)) (\<lambda>e. holds J) w"
    by (rule wp_mono) (use assms(2-4) in \<open>simp_all add: holds_def\<close>)
qed

lemma keeps_of_flow: "flow J J J m (\<lambda>a. J) (\<lambda>a. J) \<Longrightarrow> keeps J m (\<lambda>a. True)"
  by (simp add: flow_def keeps_def holds_def)

section \<open>Sound rows\<close>

definition in_unit :: "rat option \<Rightarrow> bool" where
  "in_unit q \<longleftrightarrow> (case q of Some v \<Rightarrow> 0 \<le> v \<and> v \<le> 1 | None \<Rightarrow> True)"

definition official_ok :: "candidate_row \<Rightarrow> bool" where
  "official_ok c \<longleftrightarrow> cn_official c = OffOfficial
    \<and> (case cn_score c of Some s \<Rightarrow> 85 / 100 \<le> s \<and> s \<le> 1 | None \<Rightarrow> False)
    \<and> (case cn_evidence c of Some e \<Rightarrow> officially_verified e | None \<Rightarrow> False)"

definition reaches :: "rat \<Rightarrow> rat option \<Rightarrow> bool" where
  "reaches thr q \<longleftrightarrow> (case q of Some v \<Rightarrow> thr \<le> v | None \<Rightarrow> False)"

definition validated_statuses :: "cand_status set" where
  "validated_statuses = {CandValidated, CandColumns, CandPending, CandApproved, CandActivating, CandActivated}"

definition scored_statuses :: "cand_status set" where
  "scored_statuses = {CandPending, CandApproved, CandActivating, CandActivated}"

definition approved_statuses :: "cand_status set" where
  "approved_statuses = {CandApproved, CandActivating, CandActivated}"

definition row_ok :: "int set \<Rightarrow> rat \<Rightarrow> candidate_row \<Rightarrow> bool" where
  "row_ok A thr c \<longleftrightarrow> in_unit (cn_score c) \<and> in_unit (cn_quality c)
    \<and> (cn_status c \<in> validated_statuses \<longrightarrow> official_ok c)
    \<and> (cn_status c \<in> scored_statuses \<longrightarrow> reaches thr (cn_quality c))
    \<and> (cn_status c \<in> approved_statuses \<longrightarrow> cn_id c \<in> A)"

definition column_row_ok :: "candidate_column \<Rightarrow> bool" where
  "column_row_ok c \<longleftrightarrow> in_unit (sc_quality c) \<and> sc_success c \<le> sc_found c
    \<and> sc_success c + sc_failed c \<le> max (sc_found c) 1 \<and> (sc_status c = ColTrialCrawled \<longrightarrow> 0 < sc_success c)"

text \<open>
  \<open>A\<close> is the set of the candidates that an administrator has approved, \<open>thr\<close> the configured quality threshold.
\<close>

definition sound :: "int set \<Rightarrow> rat \<Rightarrow> sd_db \<Rightarrow> bool" where
  "sound A thr x \<longleftrightarrow> distinct (map cn_id (sd_cands x))
    \<and> (\<forall>c \<in> set (sd_cands x). cn_id c < sd_next x \<and> row_ok A thr c)
    \<and> (\<forall>c \<in> set (sd_cols x). column_row_ok c)
    \<and> distinct (map ls_key (sd_sources x)) \<and> (\<forall>s \<in> set (sd_sources x). ls_key s \<in> A \<and> ls_columns s \<noteq> [])"

definition has_row :: "(candidate_row \<Rightarrow> bool) \<Rightarrow> sd_db \<Rightarrow> bool" where
  "has_row P x \<longleftrightarrow> (\<exists>c \<in> set (sd_cands x). P c)"

lemma trail_free_sound [simp]: "trail_free (sound A thr)"
  by (simp add: trail_free_def sound_def)

lemma trail_free_has_row [simp]: "trail_free (has_row P)"
  by (simp add: trail_free_def has_row_def)

lemma trail_free_conj [simp]: "trail_free P \<Longrightarrow> trail_free Q \<Longrightarrow> trail_free (\<lambda>x. P x \<and> Q x)"
  by (simp add: trail_free_def)

lemma sound_row: "sound A thr x \<Longrightarrow> c \<in> set (sd_cands x) \<Longrightarrow> row_ok A thr c"
  by (simp add: sound_def)

lemma sound_unique:
  "sound A thr x \<Longrightarrow> c \<in> set (sd_cands x) \<Longrightarrow> d \<in> set (sd_cands x) \<Longrightarrow> cn_id c = cn_id d \<Longrightarrow> c = d"
  by (simp add: sound_def distinct_map inj_on_def)

lemma sound_next [simp]: "sound A thr x \<Longrightarrow> sound A thr (x\<lparr>sd_next := sd_next x + 1\<rparr>)"
  by (force simp: sound_def)

lemma map_cond_id: "(\<And>c. P c \<Longrightarrow> h (f c) = h c) \<Longrightarrow> map h (map (\<lambda>c. if P c then f c else c) cs) = map h cs"
  by (induction cs) auto

lemma sound_cands:
  assumes "sound A thr x" "distinct (map cn_id cs)" "\<And>c. c \<in> set cs \<Longrightarrow> cn_id c < sd_next x \<and> row_ok A thr c"
  shows "sound A thr (x\<lparr>sd_cands := cs\<rparr>)"
  using assms by (simp add: sound_def)

lemma sound_map:
  assumes "sound A thr x"
    and "\<And>c. c \<in> set (sd_cands x) \<Longrightarrow> P c \<Longrightarrow> row_ok A thr c \<Longrightarrow> row_ok A thr (f c)"
    and "\<And>c. P c \<Longrightarrow> cn_id (f c) = cn_id c"
  shows "sound A thr (x\<lparr>sd_cands := map (\<lambda>c. if P c then f c else c) (sd_cands x)\<rparr>)"
proof -
  let ?g = "\<lambda>c. if P c then f c else c"
  have ids: "map cn_id (map ?g (sd_cands x)) = map cn_id (sd_cands x)" by (rule map_cond_id) (rule assms(3))
  have "cn_id c < sd_next x \<and> row_ok A thr c" if new: "c \<in> set (map ?g (sd_cands x))" for c
  proof -
    obtain d where d: "d \<in> set (sd_cands x)" "c = ?g d" using new by auto
    have "cn_id d < sd_next x \<and> row_ok A thr d" using assms(1) d(1) by (simp add: sound_def)
    then show ?thesis using assms(2) [OF d(1)] assms(3) [of d] d(2) by (cases "P d") auto
  qed
  moreover have "distinct (map cn_id (map ?g (sd_cands x)))" unfolding ids using assms(1) by (simp add: sound_def)
  ultimately show ?thesis using assms(1) by (intro sound_cands)
qed

lemma sound_set_candidate:
  assumes "sound A thr x"
    and "\<And>c. c \<in> set (sd_cands x) \<Longrightarrow> cn_id c = i \<Longrightarrow> row_ok A thr c \<Longrightarrow> row_ok A thr (f c)"
    and "\<And>c. cn_id (f c) = cn_id c"
  shows "sound A thr (set_candidate i f x)"
  unfolding set_candidate_def by (rule sound_map) (use assms in auto)

lemma sound_columns:
  assumes "sound A thr x" "\<And>c. c \<in> set cols \<Longrightarrow> column_row_ok c"
  shows "sound A thr (x\<lparr>sd_cols := cols\<rparr>)"
  using assms by (simp add: sound_def)

lemma has_row_set_candidate:
  assumes "has_row P x" "\<And>c. P c \<Longrightarrow> cn_id c = i \<Longrightarrow> Q (f c)" "\<And>c. P c \<Longrightarrow> cn_id c \<noteq> i \<Longrightarrow> Q c"
  shows "has_row Q (set_candidate i f x)"
proof -
  obtain c where c: "c \<in> set (sd_cands x)" "P c" using assms(1) unfolding has_row_def by blast
  have "Q (if cn_id c = i then f c else c)" using assms(2,3) c(2) by simp
  moreover have "(if cn_id c = i then f c else c) \<in> set (map (\<lambda>c. if cn_id c = i then f c else c) (sd_cands x))"
    unfolding set_map using c(1) by (rule imageI)
  ultimately show ?thesis unfolding has_row_def set_candidate_def by (auto simp del: set_map)
qed

text \<open>
  Other sessions leave the identity, the official evidence and the score of the candidates in \<open>P\<close> alone:
  only the worker that has claimed a run validates and scores its candidates.
\<close>

definition evidence_of :: "candidate_row \<Rightarrow> int \<times> int \<times> official_status \<times> rat option \<times> official_evidence option \<times> rat option" where
  "evidence_of c = (cn_id c, cn_run c, cn_official c, cn_score c, cn_evidence c, cn_quality c)"

definition spares :: "sd_env \<Rightarrow> (candidate_row \<Rightarrow> bool) \<Rightarrow> bool" where
  "spares env P \<longleftrightarrow> (\<forall>n x. \<forall>c \<in> set (sd_cands x). P c \<longrightarrow>
     (\<exists>d \<in> set (sd_cands (se_others env n x)). evidence_of d = evidence_of c))"

lemma spares_keep:
  assumes "others_keep env J" "spares env P" "\<And>c. Q c \<Longrightarrow> P c" "\<And>c d. evidence_of c = evidence_of d \<Longrightarrow> Q c = Q d"
  shows "others_keep env (\<lambda>x. J x \<and> has_row Q x)"
  unfolding others_keep_def has_row_def
proof (intro allI impI conjI)
  fix n x assume h: "J x \<and> (\<exists>c \<in> set (sd_cands x). Q c)"
  show "J (se_others env n x)" using h assms(1) by (simp add: others_keep_def)
  obtain c where c: "c \<in> set (sd_cands x)" "Q c" using h by blast
  obtain d where "d \<in> set (sd_cands (se_others env n x))" "evidence_of d = evidence_of c"
    using assms(2) c assms(3) unfolding spares_def by blast
  then show "\<exists>c \<in> set (sd_cands (se_others env n x)). Q c" using c(2) assms(4) by blast
qed

section \<open>Scores\<close>

lemma official_check_score:
  assumes "official_check env url p = Inr (e, s)"
  shows "0 \<le> s \<and> s \<le> 1 \<and> (officially_verified e \<longrightarrow> 85 / 100 \<le> s)"
  using assms by (auto simp: official_check_def rbind_Inr Let_def officially_verified_def)

lemma official_score_ok:
  assumes "official_check env url p = Inr (e, s)"
  shows "0 \<le> py_round 4 s \<and> py_round 4 s \<le> 1 \<and> (officially_verified e \<longrightarrow> 85 / 100 \<le> py_round 4 s)"
proof -
  note b = official_check_score [OF assms]
  have "py_round 4 (85 / 100) = 85 / 100" using round_half_even_int [of 8500] by (simp add: py_round_def)
  then show ?thesis using b py_round_unit [of s 4] py_round_mono [of "85 / 100" s 4] by auto
qed

lemma average_le: "0 \<le> richness m n \<and> richness m n \<le> 1"
  by (simp add: richness_def)

lemma ratio_unit: "(a :: nat) \<le> b \<Longrightarrow> 0 \<le> (of_nat a / of_nat (max b 1) :: rat) \<and> (of_nat a / of_nat (max b 1) :: rat) \<le> 1"
  by (cases "b = 0") (simp_all add: divide_le_eq)

lemma accepted_length: "length (accepted_chars vs) \<le> length vs"
  by (induction vs rule: accepted_chars.induct) auto

lemma column_quality_unit: "s \<le> n \<Longrightarrow> 0 \<le> column_quality m n s k \<and> column_quality m n s k \<le> 1"
proof -
  assume h: "s \<le> n"
  have r: "0 \<le> (if n = 0 then 0 else of_nat s / of_nat n :: rat) \<and> (if n = 0 then 0 else of_nat s / of_nat n :: rat) \<le> 1"
    using h ratio_unit [OF h] by (auto simp: max_def)
  show ?thesis unfolding column_quality_def by (rule py_round_unit) (use r average_le [of m k] in \<open>simp_all\<close>)
qed

lemma column_stats_ok: "column_row_ok (column_stats m vs c)"
  using accepted_length [of vs] column_quality_unit [OF accepted_length [of vs], of m "average (accepted_chars vs)"]
  by (auto simp: column_stats_def column_row_ok_def Let_def in_unit_def)

lemma no_detail_links_ok: "column_row_ok (no_detail_links c)"
  by (simp add: no_detail_links_def column_row_ok_def in_unit_def)

lemma weighted_unit:
  fixes a b c d :: rat
  assumes "0 \<le> a \<and> a \<le> 1" "0 \<le> b \<and> b \<le> 1" "0 \<le> c \<and> c \<le> 1" "0 \<le> d \<and> d \<le> 1"
  shows "0 \<le> 35 / 100 * a + 15 / 100 * b + 25 / 100 * c + 25 / 100 * d
    \<and> 35 / 100 * a + 15 / 100 * b + 25 / 100 * c + 25 / 100 * d \<le> 1"
  using assms by linarith

lemma candidate_quality_unit:
  assumes "0 \<le> official" "official \<le> 1" "\<forall>c \<in> set cols. column_row_ok c"
  shows "0 \<le> cq_quality (candidate_quality m official cols) \<and> cq_quality (candidate_quality m official cols) \<le> 1"
proof -
  have s: "sum_list (map sc_success cols) \<le> sum_list (map sc_found cols)"
    using assms(3) by (intro sum_list_mono) (auto simp: column_row_ok_def)
  have c: "0 \<le> min (of_nat (length cols) / 2 :: rat) 1 \<and> min (of_nat (length cols) / 2 :: rat) 1 \<le> 1" by simp
  show ?thesis
    unfolding candidate_quality_def Let_def candidate_score.simps
    by (rule py_round_unit; rule weighted_unit [THEN conjunct1] weighted_unit [THEN conjunct2])
      (use assms(1,2) c ratio_unit [OF s] average_le in blast)+
qed

section \<open>The worker\<close>

definition owned :: "int set \<Rightarrow> rat \<Rightarrow> int \<Rightarrow> int \<Rightarrow> sd_db \<Rightarrow> bool" where
  "owned A thr r i x \<longleftrightarrow> sound A thr x \<and> has_row (\<lambda>c. cn_id c = i \<and> cn_run c = r) x"

definition official_row :: "int set \<Rightarrow> rat \<Rightarrow> int \<Rightarrow> int \<Rightarrow> sd_db \<Rightarrow> bool" where
  "official_row A thr r i x \<longleftrightarrow> sound A thr x \<and> has_row (\<lambda>c. cn_id c = i \<and> cn_run c = r \<and> official_ok c) x"

lemma owned_sound: "owned A thr r i x \<Longrightarrow> sound A thr x"
  by (simp add: owned_def)

lemma official_sound: "official_row A thr r i x \<Longrightarrow> sound A thr x"
  by (simp add: official_row_def)

lemma trail_free_worker [simp]: "trail_free (owned A thr r i)" "trail_free (official_row A thr r i)"
  by (simp_all add: trail_free_def owned_def official_row_def sound_def has_row_def)

definition worker_env :: "int set \<Rightarrow> rat \<Rightarrow> int \<Rightarrow> sd_env \<Rightarrow> bool" where
  "worker_env A thr r env \<longleftrightarrow> others_keep env (sound A thr) \<and> spares env (\<lambda>c. cn_run c = r) \<and> se_threshold env = thr"

lemma worker_env_keeps:
  assumes "worker_env A thr r env"
  shows "others_keep env (sound A thr)" "others_keep env (owned A thr r i)" "others_keep env (official_row A thr r i)"
proof -
  show s: "others_keep env (sound A thr)" using assms by (simp add: worker_env_def)
  have p: "spares env (\<lambda>c. cn_run c = r)" using assms by (simp add: worker_env_def)
  show "others_keep env (owned A thr r i)"
    unfolding owned_def [abs_def] by (rule spares_keep [OF s p]) (auto simp: evidence_of_def)
  show "others_keep env (official_row A thr r i)"
    unfolding official_row_def [abs_def] by (rule spares_keep [OF s p]) (auto simp: evidence_of_def official_ok_def)
qed

lemma official_row:
  "official_row A thr r i x \<Longrightarrow> c \<in> set (sd_cands x) \<Longrightarrow> cn_id c = i \<Longrightarrow> official_ok c"
  unfolding official_row_def has_row_def using sound_unique by blast

lemma flow_validate:
  assumes env: "worker_env A thr (rd_id r) env"
  shows "flow (sound A thr) (owned A thr (rd_id r) (cn_id c)) (owned A thr (rd_id r) (cn_id c)) (validate_official env r c)
    (\<lambda>a. case a of None \<Rightarrow> sound A thr | Some (p, s) \<Rightarrow> (\<lambda>x. official_row A thr (rd_id r) (cn_id c) x \<and> 0 \<le> s \<and> s \<le> 1))
    (\<lambda>a. case a of None \<Rightarrow> sound A thr | Some (p, s) \<Rightarrow> (\<lambda>x. official_row A thr (rd_id r) (cn_id c) x \<and> 0 \<le> s \<and> s \<le> 1))"
    (is "flow ?J ?H ?H _ ?P ?P")
proof -
  note k = worker_env_keeps [OF env]
  have fail: "?H x \<Longrightarrow> (\<And>k. cn_id (f k) = cn_id k \<and> cn_status (f k) = CandValidationFailed \<and> cn_quality (f k) = cn_quality k
      \<and> (cn_score (f k) = cn_score k \<or> in_unit (cn_score (f k)))) \<Longrightarrow> ?J (set_candidate (cn_id c) f x)" for f x
  proof (rule sound_set_candidate)
    fix k assume "row_ok A thr k" "\<And>k. cn_id (f k) = cn_id k \<and> cn_status (f k) = CandValidationFailed \<and> cn_quality (f k) = cn_quality k
      \<and> (cn_score (f k) = cn_score k \<or> in_unit (cn_score (f k)))"
    then show "row_ok A thr (f k)"
      by (metis (no_types, lifting) row_ok_def validated_statuses_def scored_statuses_def approved_statuses_def
          insert_iff empty_iff cand_status.distinct)
  qed (simp_all add: owned_def)
  show ?thesis
    unfolding validate_official_def Let_def
  proof (rule flow_bind_try_fetch [OF k(2)], goal_cases)
    case (1 a)
    show ?case
    proof (cases a)
      case (Inl e)
      show ?thesis unfolding Inl sum.case
        by (rule flow_logged [where W' = ?J]) (auto intro!: k fail flow_return simp: owned_sound)
    next
      case (Inr p)
      show ?thesis unfolding Inr sum.case
      proof (rule flow_bind_lift, goal_cases)
        case (3 es)
        obtain evidence s where es: "es = (evidence, s)" by (cases es)
        note s = official_score_ok [OF "3" [unfolded es]]
        show ?case
        proof (cases "officially_verified evidence")
          case False
          show ?thesis unfolding es prod.case if_P [OF False]
            by (rule flow_logged [where W' = ?J]) (use s in \<open>auto intro!: k fail flow_return simp: owned_sound in_unit_def\<close>)
        next
          case True
          let ?f = "\<lambda>k. k\<lparr>cn_code := Some (fe_status p), cn_final_url := Some (fe_url p), cn_score := Some (py_round 4 s),
            cn_evidence := Some evidence, cn_official := OffOfficial, cn_status := CandValidated\<rparr>"
          have ok: "official_ok (?f k)" "row_ok A thr k \<Longrightarrow> row_ok A thr (?f k)" for k
            using s True by (auto simp: official_ok_def row_ok_def in_unit_def validated_statuses_def scored_statuses_def approved_statuses_def)
          have "official_row A thr (rd_id r) (cn_id c) (set_candidate (cn_id c) ?f x)" if "?H x" for x
            unfolding official_row_def
          proof
            show "?J (set_candidate (cn_id c) ?f x)" using that ok(2) by (intro sound_set_candidate) (simp_all add: owned_def)
            show "has_row (\<lambda>k. cn_id k = cn_id c \<and> cn_run k = rd_id r \<and> official_ok k) (set_candidate (cn_id c) ?f x)"
              by (rule has_row_set_candidate [where P = "\<lambda>k. cn_id k = cn_id c \<and> cn_run k = rd_id r"])
                (use that ok(1) in \<open>simp_all add: owned_def\<close>)
          qed
          then show ?thesis unfolding es prod.case using True
            by (simp, intro flow_logged [where W' = "official_row A thr (rd_id r) (cn_id c)"])
              (use s in \<open>auto intro!: k flow_return simp: owned_sound official_sound\<close>)
        qed
      qed (simp_all add: owned_sound)
    qed
  qed
qed

text \<open>What the column phases rely on: they change neither candidates nor sources.\<close>

definition column_phase :: "(sd_db \<Rightarrow> bool) \<Rightarrow> bool" where
  "column_phase V \<longleftrightarrow> trail_free V
    \<and> (\<forall>x cols n. V x \<longrightarrow> sd_next x \<le> n \<longrightarrow> (\<forall>c \<in> set cols. column_row_ok c) \<longrightarrow> V (x\<lparr>sd_cols := cols, sd_next := n\<rparr>))
    \<and> (\<forall>x. V x \<longrightarrow> (\<forall>c \<in> set (sd_cols x). column_row_ok c))"

lemma sound_cols_next:
  assumes "sound A thr x" "sd_next x \<le> n" "\<forall>c \<in> set cols. column_row_ok c"
  shows "sound A thr (x\<lparr>sd_cols := cols, sd_next := n\<rparr>)"
  using assms unfolding sound_def by force

lemma column_phases [simp]: "column_phase (sound A thr)" "column_phase (official_row A thr r i)"
  by (auto simp: column_phase_def official_row_def sound_cols_next has_row_def)
    (auto simp: sound_def)

lemma column_phase_trail: "column_phase V \<Longrightarrow> trail_free V"
  by (simp add: column_phase_def)

lemma column_phase_set:
  assumes "column_phase V" "V x" "\<And>c. column_row_ok c \<Longrightarrow> column_row_ok (f c)"
  shows "V (set_column i f x)"
proof -
  have "\<forall>c \<in> set (map (\<lambda>c. if sc_id c = i then f c else c) (sd_cols x)). column_row_ok c"
    using assms unfolding column_phase_def by auto
  then have "V (x\<lparr>sd_cols := map (\<lambda>c. if sc_id c = i then f c else c) (sd_cols x), sd_next := sd_next x\<rparr>)"
    using assms(1,2) unfolding column_phase_def by blast
  then show ?thesis by (simp add: set_column_def)
qed

lemma keeps_create_column:
  assumes "column_phase V" "others_keep env V" "column_row_ok col" "sc_status col = ColDiscovered"
  shows "keeps V (create_column env col) column_row_ok"
  unfolding create_column_def
proof (rule keeps_call [OF assms(2)])
  fix x y a assume h: "V x" "(if \<exists>c \<in> set (sd_cols x). sc_candidate c = sc_candidate col \<and> sc_url c = sc_url col
      then Inl (OtherError ''IntegrityError'')
      else Inr (x\<lparr>sd_cols := sd_cols x @ [col\<lparr>sc_id := sd_next x\<rparr>], sd_next := sd_next x + 1\<rparr>, col\<lparr>sc_id := sd_next x\<rparr>))
    = Inr (y, a)"
  have c: "column_row_ok (col\<lparr>sc_id := sd_next x\<rparr>)" using assms(3) by (simp add: column_row_ok_def)
  show "V y \<and> column_row_ok a" using h c assms(1) unfolding column_phase_def by (auto split: if_splits)
qed

lemma new_column_ok: "new_column env c host k h = Inr col \<Longrightarrow> column_row_ok col \<and> sc_status col = ColDiscovered"
  by (auto simp: new_column_def rbind_Inr column_row_ok_def in_unit_def)

lemma keeps_create_columns:
  assumes "column_phase V" "others_keep env V"
  shows "keeps V (create_columns env c host hs) (\<lambda>cols. \<forall>c \<in> set cols. column_row_ok c)"
proof (induction hs)
  case (Cons kh hs)
  obtain k h where kh: "kh = (k, h)" by (cases kh)
  show ?case unfolding kh create_columns.simps
  proof (rule keeps_bind [OF keeps_lift [where Q = "\<lambda>col. column_row_ok col \<and> sc_status col = ColDiscovered"]])
    fix col assume col: "column_row_ok col \<and> sc_status col = ColDiscovered"
    show "keeps V (ebind (create_column env col) (\<lambda>col. ebind (create_columns env c host hs) (\<lambda>cols. ereturn (col # cols))))
        (\<lambda>cols. \<forall>c \<in> set cols. column_row_ok c)"
      by (rule keeps_bind [OF keeps_create_column [OF assms]], use col in simp, use col in simp,
          rule keeps_bind [OF Cons.IH], rule keeps_return, simp)
  qed (rule new_column_ok)
qed (simp add: keeps_return)

lemma set_columns_status: "official_row A thr r i x \<Longrightarrow> official_row A thr r i (set_candidate i (\<lambda>c. c\<lparr>cn_status := CandColumns\<rparr>) x)"
proof -
  assume h: "official_row A thr r i x"
  show "official_row A thr r i (set_candidate i (\<lambda>c. c\<lparr>cn_status := CandColumns\<rparr>) x)"
    unfolding official_row_def
  proof
    show "sound A thr (set_candidate i (\<lambda>c. c\<lparr>cn_status := CandColumns\<rparr>) x)"
      by (rule sound_set_candidate [OF official_sound [OF h]])
        (use official_row [OF h] in \<open>auto simp: row_ok_def validated_statuses_def scored_statuses_def approved_statuses_def official_ok_def\<close>)
    show "has_row (\<lambda>c. cn_id c = i \<and> cn_run c = r \<and> official_ok c) (set_candidate i (\<lambda>c. c\<lparr>cn_status := CandColumns\<rparr>) x)"
      by (rule has_row_set_candidate [where P = "\<lambda>c. cn_id c = i \<and> cn_run c = r \<and> official_ok c"])
        (use h in \<open>simp_all add: official_row_def official_ok_def\<close>)
  qed
qed

lemma keeps_discover_columns:
  assumes "worker_env A thr (rd_id r) env"
  shows "keeps (official_row A thr (rd_id r) (cn_id c)) (discover_columns env r c p) (\<lambda>cols. \<forall>c \<in> set cols. column_row_ok c)"
proof -
  let ?V = "official_row A thr (rd_id r) (cn_id c)"
  note k = worker_env_keeps [OF assms]
  show ?thesis unfolding discover_columns_def Let_def
    by (rule keeps_bind_lift, rule keeps_bind_lift, rule keeps_bind_lift,
        rule keeps_bind [OF keeps_create_columns [where V = ?V]])
      (auto intro!: keeps_return keeps_bind [OF keeps_event] keeps_bind [OF keeps_commit] k set_columns_status)
qed

lemma keeps_details:
  "others_keep env V \<Longrightarrow> keeps V (trial_details env topic selector urls) (\<lambda>vs. True)"
proof (induction urls)
  case (Cons url urls)
  have "keeps V (ebind (sd_fetch env url) (\<lambda>p. elift (judge_detail env topic selector url p))) (\<lambda>v. True)"
    by (rule keeps_bind [OF keeps_fetch [OF Cons.prems]], rule keeps_lift) simp
  from keeps_try [OF this] have t: "keeps V (etry (ebind (sd_fetch env url) (\<lambda>p. elift (judge_detail env topic selector url p)))) (\<lambda>v. True)"
    by (rule keeps_top)
  show ?case unfolding trial_details.simps
    by (intro keeps_bind [OF t] keeps_bind [OF Cons.IH [OF Cons.prems]] keeps_return TrueI)
qed (simp add: keeps_return)

lemma keeps_finish:
  assumes "column_phase V" "others_keep env V" "\<And>c. column_row_ok (f c)"
  shows "keeps V (ebind (add_event env ft (set_column i f) e) (\<lambda>u. ebind (sd_commit env ft) (\<lambda>u. ereturn (f col)))) column_row_ok"
  by (intro keeps_bind [OF keeps_event] keeps_bind [OF keeps_commit] keeps_return)
    (use assms in \<open>auto intro: column_phase_trail column_phase_set\<close>)

lemma keeps_trial_body:
  assumes "column_phase V" "others_keep env V"
  shows "keeps V (trial_body env r c col) column_row_ok"
proof -
  have seen: "keeps V (\<lambda>w. elift (detail_urls (se_nfkc env) (se_trial_documents env) (rd_topic r) (fe_url listing) (sc_url col)
         (sw_seen w) (se_select env body (list_selector col))) w) (\<lambda>urls. True)" for listing body
    by (auto simp: keeps_def wp_def elift_def split: sum.splits)
  show ?thesis unfolding trial_body_def Let_def
    by (rule keeps_bind [OF keeps_fetch [OF assms(2)]], rule keeps_bind_lift, rule keeps_bind [OF seen],
        rule keeps_bind [OF keeps_local], simp, rule keeps_if)
      (auto intro!: keeps_finish [OF assms] keeps_bind [OF keeps_details [OF assms(2)]] column_stats_ok no_detail_links_ok)
qed

lemma keeps_trial_column:
  assumes "column_phase V" "others_keep env V" "column_row_ok col"
  shows "keeps V (trial_crawl_column env r c col) column_row_ok"
  unfolding trial_crawl_column_def Let_def
proof (rule keeps_catch [OF keeps_trial_body [OF assms(1,2)]])
  fix e
  let ?f = "\<lambda>x. x\<lparr>sc_status := ColFailed, sc_error := Some (exn_class e)\<rparr>"
  have f: "column_row_ok x \<Longrightarrow> column_row_ok (?f x)" for x by (simp add: column_row_ok_def)
  have q: "keeps V (sd_query env (se_cleanup env) (list_columns (se_nulls env) (cn_id c))) (\<lambda>cs. \<forall>x \<in> set cs. column_row_ok x)"
    by (rule keeps_query [OF assms(2)]) (use assms(1) in \<open>auto simp: list_columns_def column_phase_def\<close>)
  have last: "column_row_ok (case find (\<lambda>x. sc_id x = sc_id col) cs of Some x \<Rightarrow> x | None \<Rightarrow> col)"
    if "\<forall>x \<in> set cs. column_row_ok x" for cs
    using that assms(3) by (auto split: option.splits simp: find_Some_iff)
  show "keeps V (ebind (sd_rollback env (se_cleanup env)) (\<lambda>u. ebind (touch env (se_cleanup env)) (\<lambda>u.
      ebind (sd_query env (se_cleanup env) (list_columns (se_nulls env) (cn_id c))) (\<lambda>current.
      ebind (add_event env (se_cleanup env) (set_column (sc_id col) ?f)
        (stage_event (rd_id r) (Some (cn_id c)) ''trial_crawl'' (Some ''columns_discovered'') ''failed'')) (\<lambda>u.
      ebind (sd_commit env (se_cleanup env)) (\<lambda>u.
      ereturn (?f (case find (\<lambda>x. sc_id x = sc_id col) current of Some x \<Rightarrow> x | None \<Rightarrow> col)))))))) column_row_ok"
    by (rule keeps_bind [OF keeps_rollback [OF assms(2)]], rule keeps_bind [OF keeps_touch [OF assms(2)]],
        rule keeps_bind [OF q], rule keeps_bind [OF keeps_event [OF column_phase_trail [OF assms(1)] assms(2)]],
        rule column_phase_set [OF assms(1)], assumption, erule f, rule keeps_bind [OF keeps_commit [OF assms(2)]],
        rule keeps_return, rule f, erule last)
qed

lemma keeps_trial:
  assumes "column_phase V" "others_keep env V" "\<forall>c \<in> set cols. column_row_ok c"
  shows "keeps V (trial_crawl env r c cols) (\<lambda>cols. \<forall>c \<in> set cols. column_row_ok c)"
  using assms(3)
proof (induction cols)
  case (Cons col cols)
  have col: "column_row_ok col" and rest: "\<forall>c \<in> set cols. column_row_ok c" using Cons.prems by auto
  show ?case unfolding trial_crawl.simps
    by (rule keeps_bind [OF keeps_trial_column [OF assms(1,2) col]], rule keeps_bind [OF Cons.IH [OF rest]], rule keeps_return, simp)
qed (simp add: keeps_return)

lemma flow_score:
  assumes "worker_env A thr (rd_id r) env" "0 \<le> s" "s \<le> 1" "\<forall>c \<in> set cols. column_row_ok c"
  shows "flow (sound A thr) (official_row A thr (rd_id r) (cn_id c)) (official_row A thr (rd_id r) (cn_id c))
    (score_candidate env r c s cols) (\<lambda>u. sound A thr) (\<lambda>u. sound A thr)"
proof -
  let ?V = "official_row A thr (rd_id r) (cn_id c)"
  note k = worker_env_keeps [OF assms(1)]
  have thr: "se_threshold env = thr" using assms(1) by (simp add: worker_env_def)
  note q = candidate_quality_unit [OF assms(2,3,4)]
  show ?thesis unfolding score_candidate_def Let_def
  proof (rule flow_logged_end, goal_cases)
    case (8 x)
    then show ?case
      by (intro sound_set_candidate [OF official_sound])
        (use official_row [OF "8"] q thr in \<open>auto simp: row_ok_def in_unit_def reaches_def validated_statuses_def
          scored_statuses_def approved_statuses_def official_ok_def\<close>)
  qed (simp_all add: k official_sound)
qed

lemma sound_fail_candidate: "sound A thr x \<Longrightarrow> sound A thr (set_candidate i (\<lambda>c. c\<lparr>cn_status := CandFailed, cn_reason := w\<rparr>) x)"
  by (rule sound_set_candidate)
    (auto simp: row_ok_def validated_statuses_def scored_statuses_def approved_statuses_def)

lemma flow_stages:
  assumes "worker_env A thr (rd_id r) env"
  shows "flow (sound A thr) (owned A thr (rd_id r) (cn_id c)) (owned A thr (rd_id r) (cn_id c)) (candidate_stages env r c)
    (\<lambda>u. sound A thr) (\<lambda>u. sound A thr)"
proof -
  let ?V = "official_row A thr (rd_id r) (cn_id c)"
  note k = worker_env_keeps [OF assms]
  show ?thesis unfolding candidate_stages_def Let_def
  proof (rule flow_bind [OF flow_validate [OF assms]], goal_cases)
    case (1 a)
    show ?case
    proof (cases a)
      case None
      then show ?thesis by (auto intro: flow_return)
    next
      case (Some ps)
      obtain p s where ps: "ps = (p, s)" by (cases ps)
      show ?thesis
      proof (cases "0 \<le> s \<and> s \<le> 1")
        case False
        show ?thesis unfolding Some ps option.case prod.case by (rule flow_false) (use False in simp)
      next
        case True
        have cols: "flow (sound A thr) ?V ?V (if cols = [] then
            ebind (add_event env (se_fault env) (set_candidate (cn_id c) (\<lambda>c. c\<lparr>cn_status := CandFailed,
                cn_reason := reason ''NO_POLICY_COLUMNS_DISCOVERED''\<rparr>))
              (stage_event (rd_id r) (Some (cn_id c)) ''column_discovery'' (Some ''validated'') ''failed'')) (\<lambda>u. sd_commit env (se_fault env))
          else ebind (elocal (\<lambda>w. w\<lparr>sw_seen := []\<rparr>)) (\<lambda>u. ebind (trial_crawl env r c cols) (\<lambda>cols. score_candidate env r c s cols)))
          (\<lambda>u. sound A thr) (\<lambda>u. sound A thr)" if ok: "\<forall>c \<in> set cols. column_row_ok c" for cols
        proof (cases "cols = []")
          case empty: True
          show ?thesis unfolding if_P [OF empty]
            by (rule flow_logged_end) (simp_all add: k official_sound sound_fail_candidate)
        next
          case False
          have t: "flow (sound A thr) ?V ?V (trial_crawl env r c cols) (\<lambda>cols x. ?V x \<and> (\<forall>c \<in> set cols. column_row_ok c))
              (\<lambda>cols x. ?V x \<and> (\<forall>c \<in> set cols. column_row_ok c))"
            by (rule flow_of_keeps [OF keeps_trial [OF _ _ ok, where V = ?V]]) (simp_all add: k official_sound)
          have score: "flow (sound A thr) (\<lambda>x. ?V x \<and> (\<forall>c \<in> set cs. column_row_ok c)) (\<lambda>x. ?V x \<and> (\<forall>c \<in> set cs. column_row_ok c))
              (score_candidate env r c s cs) (\<lambda>u. sound A thr) (\<lambda>u. sound A thr)" for cs
          proof (cases "\<forall>c \<in> set cs. column_row_ok c")
            case okc: True
            show ?thesis using flow_score [OF assms _ _ okc] True by (simp add: okc)
          qed (auto simp: flow_def)
          have "flow (sound A thr) ?V ?V (elocal (\<lambda>w. w\<lparr>sw_seen := []\<rparr>)) (\<lambda>u. ?V) (\<lambda>u. ?V)" by (simp add: flow_def)
          then show ?thesis unfolding if_not_P [OF False] by (rule flow_bind) (rule flow_bind [OF t score])
        qed
        have d: "flow (sound A thr) ?V ?V (discover_columns env r c p) (\<lambda>cols x. ?V x \<and> (\<forall>c \<in> set cols. column_row_ok c))
            (\<lambda>cols x. ?V x \<and> (\<forall>c \<in> set cols. column_row_ok c))"
          by (rule flow_of_keeps [OF keeps_discover_columns [OF assms]]) (simp_all add: official_sound)
        have pre: "flow (sound A thr) (\<lambda>x. ?V x \<and> 0 \<le> s \<and> s \<le> 1) (\<lambda>x. ?V x \<and> 0 \<le> s \<and> s \<le> 1) (discover_columns env r c p)
            (\<lambda>cols x. ?V x \<and> (\<forall>c \<in> set cols. column_row_ok c)) (\<lambda>cols x. ?V x \<and> (\<forall>c \<in> set cols. column_row_ok c))"
          by (rule flow_weaken [OF d]) simp_all
        show ?thesis unfolding Some ps option.case prod.case
        proof (rule flow_bind [OF pre], goal_cases)
          case (1 cols)
          show ?case
          proof (cases "\<forall>c \<in> set cols. column_row_ok c")
            case True
            show ?thesis using cols [OF True] by (simp add: True)
          next
            case False
            show ?thesis by (rule flow_false) (use False in blast)
          qed
        qed
      qed
    qed
  qed
qed

lemma keeps_failed_candidate:
  assumes "others_keep env (sound A thr)"
  shows "keeps (sound A thr) (ebind (sd_rollback env ft) (\<lambda>u. ebind (touch env ft) (\<lambda>u.
      ebind (get_candidate env ft i) (\<lambda>current. case current of
        None \<Rightarrow> ereturn ()
      | Some x \<Rightarrow>
          ebind (add_event env ft (set_candidate (cn_id x) (\<lambda>c. c\<lparr>cn_status := CandFailed, cn_reason := why\<rparr>)) (ev x)) (\<lambda>u.
          sd_commit env ft))))) (\<lambda>u. True)"
proof (rule keeps_bind [OF keeps_rollback [OF assms]], rule keeps_bind [OF keeps_touch [OF assms]],
    rule keeps_bind [OF keeps_get_candidate [OF assms]])
  fix current show "keeps (sound A thr) (case current of
        None \<Rightarrow> ereturn ()
      | Some x \<Rightarrow>
          ebind (add_event env ft (set_candidate (cn_id x) (\<lambda>c. c\<lparr>cn_status := CandFailed, cn_reason := why\<rparr>)) (ev x)) (\<lambda>u.
          sd_commit env ft)) (\<lambda>u. True)"
  proof (cases current)
    case (Some x)
    show ?thesis unfolding Some option.case
      by (rule keeps_bind [OF keeps_event [OF trail_free_sound assms]], erule sound_fail_candidate, rule keeps_commit [OF assms])
  qed (simp add: keeps_return)
qed

lemma flow_process:
  assumes "worker_env A thr (rd_id r) env"
  shows "flow (sound A thr) (owned A thr (rd_id r) (cn_id c)) (owned A thr (rd_id r) (cn_id c)) (process_candidate env r c)
    (\<lambda>u. sound A thr) (\<lambda>u. sound A thr)"
  unfolding process_candidate_def Let_def
  by (rule flow_catch [OF flow_stages [OF assms]], rule flow_of_keeps [OF keeps_failed_candidate])
    (simp_all add: worker_env_keeps(1) [OF assms])

lemma new_candidate_ok:
  "new_candidate env r h home = Inr c \<Longrightarrow> cn_status c = CandDiscovered \<and> cn_score c = None \<and> cn_quality c = None \<and> cn_run c = rd_id r"
  by (auto simp: new_candidate_def rbind_Inr)

lemma sound_insert_candidate:
  assumes "sound A thr x" "cn_status c = CandDiscovered \<and> cn_score c = None \<and> cn_quality c = None"
  shows "owned A thr (cn_run c) (sd_next x)
    (x\<lparr>sd_cands := sd_cands x @ [c\<lparr>cn_id := sd_next x\<rparr>], sd_next := sd_next x + 1\<rparr>)"
proof -
  have "\<forall>d \<in> set (sd_cands x). cn_id d < sd_next x" using assms(1) by (simp add: sound_def)
  then have fresh: "sd_next x \<notin> cn_id ` set (sd_cands x)" by auto
  have row: "row_ok A thr (c\<lparr>cn_id := sd_next x\<rparr>)" using assms(2)
    by (simp add: row_ok_def in_unit_def validated_statuses_def scored_statuses_def approved_statuses_def)
  have "sound A thr (x\<lparr>sd_next := sd_next x + 1\<rparr>\<lparr>sd_cands := sd_cands x @ [c\<lparr>cn_id := sd_next x\<rparr>]\<rparr>)"
    by (rule sound_cands [OF sound_next [OF assms(1)]])
      (use assms(1) fresh row in \<open>auto simp: sound_def\<close>)
  moreover have "x\<lparr>sd_next := sd_next x + 1\<rparr>\<lparr>sd_cands := sd_cands x @ [c\<lparr>cn_id := sd_next x\<rparr>]\<rparr>
      = x\<lparr>sd_cands := sd_cands x @ [c\<lparr>cn_id := sd_next x\<rparr>], sd_next := sd_next x + 1\<rparr>" by simp
  ultimately show ?thesis by (simp only: owned_def) (simp add: has_row_def)
qed

lemma flow_create_candidate:
  assumes "others_keep env (sound A thr)" "cn_status c = CandDiscovered \<and> cn_score c = None \<and> cn_quality c = None"
  shows "flow (sound A thr) (sound A thr) (sound A thr) (create_candidate env c) (\<lambda>d. sound A thr)
    (\<lambda>d. owned A thr (cn_run c) (cn_id d))"
  unfolding create_candidate_def
  by (rule flow_call) (use assms sound_insert_candidate [OF _ assms(2)] in \<open>auto split: if_splits\<close>)

lemma owned_reset: "owned A thr r j x \<Longrightarrow> owned A thr r j (reset_candidate i x)"
proof -
  assume h: "owned A thr r j x"
  have s: "sound A thr (x\<lparr>sd_cols := filter (\<lambda>c. sc_candidate c \<noteq> i) (sd_cols x)\<rparr>)"
    using h by (intro sound_columns) (auto simp: owned_def sound_def)
  have "has_row (\<lambda>c. cn_id c = j \<and> cn_run c = r) (x\<lparr>sd_cols := filter (\<lambda>c. sc_candidate c \<noteq> i) (sd_cols x)\<rparr>)"
    using h by (simp add: owned_def has_row_def)
  then show ?thesis unfolding owned_def reset_candidate_def
    by (intro conjI sound_set_candidate [OF s] has_row_set_candidate [where P = "\<lambda>c. cn_id c = j \<and> cn_run c = r"])
      (auto simp: row_ok_def in_unit_def validated_statuses_def scored_statuses_def approved_statuses_def)
qed

lemma flow_take:
  assumes "worker_env A thr (rd_id r) env"
  shows "flow (sound A thr) (sound A thr) (sound A thr) (take_candidate env r h home) (\<lambda>f. sound A thr)
    (\<lambda>f. case f of None \<Rightarrow> sound A thr | Some (c, p) \<Rightarrow> owned A thr (rd_id r) (cn_id c))"
  unfolding take_candidate_def Let_def
proof (rule flow_bind [where Sm = "\<lambda>a. sound A thr" and Wm = "\<lambda>a. case a of None \<Rightarrow> sound A thr | Some c \<Rightarrow> owned A thr (rd_id r) (cn_id c)"],
    goal_cases)
  case 1
  note k = worker_env_keeps [OF assms]
  show ?case unfolding sd_query_def
    by (rule flow_call)
      (auto simp: k candidate_by_url_def owned_def has_row_def find_Some_iff split: option.splits)
next
  case (2 a)
  note k = worker_env_keeps [OF assms]
  show ?case
  proof (cases a)
    case None
    have new: "flow (sound A thr) (sound A thr) (sound A thr) (ecatch (ebind (create_candidate env c) (\<lambda>c. ereturn (Some (c, None)))) (\<lambda>e.
           if e = OtherError ''IntegrityError''
           then ebind (sd_rollback env (se_fault env)) (\<lambda>u. ebind (touch env (se_fault env)) (\<lambda>u. ereturn None))
           else eraise e)) (\<lambda>f. sound A thr) (\<lambda>f. case f of None \<Rightarrow> sound A thr | Some (c, p) \<Rightarrow> owned A thr (rd_id r) (cn_id c))"
      if "new_candidate env r h home = Inr c" for c
    proof (rule flow_catch, goal_cases)
      case 1
      show ?case
        by (rule flow_bind [OF flow_create_candidate [OF k(1)]])
          (use new_candidate_ok [OF that] in \<open>auto intro!: flow_return\<close>)
    next
      case (2 e)
      show ?case
        by (cases "e = OtherError ''IntegrityError''")
          (auto intro!: flow_raise flow_of_keeps [where V = "sound A thr" and Q = "\<lambda>a. a = None"]
            keeps_bind [OF keeps_rollback [OF k(1)]] keeps_bind [OF keeps_touch [OF k(1)]] keeps_return)
    qed
    show ?thesis unfolding None option.case by (rule flow_bind_lift) (use new in auto)
  next
    case (Some c)
    show ?thesis unfolding Some option.case
    proof (cases "1 < rd_attempts r \<and> cn_status c \<in> {CandValidationFailed, CandRejected, CandFailed}")
      case True
      have "flow (sound A thr) (sound A thr) (owned A thr (rd_id r) (cn_id c)) (sd_write env (se_fault env) (reset_candidate (cn_id c)))
          (\<lambda>u. sound A thr) (\<lambda>u. owned A thr (rd_id r) (cn_id c))"
        unfolding sd_write_def by (rule flow_call) (auto simp: k owned_sound intro: owned_reset)
      then show "flow (sound A thr) (sound A thr) (owned A thr (rd_id r) (cn_id c))
          (if 1 < rd_attempts r \<and> cn_status c \<in> {CandValidationFailed, CandRejected, CandFailed}
           then ebind (sd_write env (se_fault env) (reset_candidate (cn_id c))) (\<lambda>u. ereturn (Some (c, Some (cn_status c)))) else ereturn None)
          (\<lambda>f. sound A thr) (\<lambda>f. case f of None \<Rightarrow> sound A thr | Some (c, p) \<Rightarrow> owned A thr (rd_id r) (cn_id c))"
        unfolding if_P [OF True] by (rule flow_bind) (auto intro!: flow_return)
    next
      case False
      show "flow (sound A thr) (sound A thr) (owned A thr (rd_id r) (cn_id c))
          (if 1 < rd_attempts r \<and> cn_status c \<in> {CandValidationFailed, CandRejected, CandFailed}
           then ebind (sd_write env (se_fault env) (reset_candidate (cn_id c))) (\<lambda>u. ereturn (Some (c, Some (cn_status c)))) else ereturn None)
          (\<lambda>f. sound A thr) (\<lambda>f. case f of None \<Rightarrow> sound A thr | Some (c, p) \<Rightarrow> owned A thr (rd_id r) (cn_id c))"
        unfolding if_not_P [OF False] by (rule flow_return) (auto simp: owned_sound)
    qed
  qed
qed

lemma keeps_process_hits:
  assumes "worker_env A thr (rd_id r) env"
  shows "keeps (sound A thr) (process_hits env r seen n hs) (\<lambda>k. True)"
proof (induction hs arbitrary: seen n)
  case (Cons h hs)
  note k = worker_env_keeps [OF assms]
  let ?J = "sound A thr"
  have taken: "keeps ?J (ebind (take_candidate env r h home) (\<lambda>found. case found of
           None \<Rightarrow> process_hits env r (home # seen) n hs
         | Some (c, previous) \<Rightarrow>
             ebind (ecatch (ebind (add_event env (se_fault env) (\<lambda>x. x) (stage_event (rd_id r) (Some (cn_id c))
                   ''candidate_discovery'' (map_option cand_status_name previous) ''discovered'')) (\<lambda>u. sd_commit env (se_fault env)))
               (\<lambda>e. ebind (sd_rollback env (se_cleanup env)) (\<lambda>u. eraise e))) (\<lambda>u.
             ebind (process_candidate env r c) (\<lambda>u.
             process_hits env r (home # seen) (Suc n) hs)))) (\<lambda>k. True)" for home
  proof (rule keeps_of_flow, rule flow_bind [OF flow_take [OF assms]], goal_cases)
    case (1 found)
    show ?case
    proof (cases found)
      case None
      show ?thesis unfolding None option.case by (rule flow_of_keeps [OF Cons.IH]) simp_all
    next
      case (Some cp)
      obtain c p where cp: "cp = (c, p)" by (cases cp)
      let ?O = "owned A thr (rd_id r) (cn_id c)"
      have ev: "flow ?J ?J ?O (ecatch (ebind (add_event env (se_fault env) (\<lambda>x. x) e) (\<lambda>u. sd_commit env (se_fault env)))
           (\<lambda>e. ebind (sd_rollback env (se_cleanup env)) (\<lambda>u. eraise e))) (\<lambda>u. ?O) (\<lambda>u. ?O)" for e
      proof (rule flow_catch, goal_cases)
        case 1
        show ?case by (rule flow_logged_end) (simp_all add: k owned_sound)
      next
        case (2 e)
        show ?case by (rule flow_of_keeps [where V = ?J and Q = "\<lambda>u. False"])
            (auto intro!: keeps_bind [OF keeps_rollback [OF k(1)]] keeps_raise)
      qed
      show ?thesis unfolding Some cp option.case prod.case
        by (rule flow_bind [OF ev], rule flow_bind [OF flow_process [OF assms]], rule flow_of_keeps [OF Cons.IH]) simp_all
    qed
  qed
  show ?case
    by (auto simp: taken intro!: keeps_return keeps_raise Cons.IH split: sum.split)
qed (simp add: keeps_return)

lemma sound_set_run [simp]: "sound A thr (set_run i f x) = sound A thr x"
  by simp

lemma keeps_existing_run: "others_keep env J \<Longrightarrow> keeps J (existing_run env ft i) (\<lambda>r. rd_id r = i)"
  unfolding existing_run_def
  by (rule keeps_bind [OF keeps_get_run]) (auto intro!: keeps_return keeps_raise split: option.split)

lemma keeps_existing_candidate: "others_keep env J \<Longrightarrow> keeps J (existing_candidate env ft i) (\<lambda>c. cn_id c = i)"
  unfolding existing_candidate_def
  by (rule keeps_bind [OF keeps_get_candidate]) (auto intro!: keeps_return keeps_raise split: option.split)

lemma keeps_save_run: "others_keep env J \<Longrightarrow> keeps J (save_run env ft i) (\<lambda>r. rd_id r = i)"
  unfolding save_run_def
  by (rule keeps_bind [OF keeps_commit], assumption, rule keeps_bind [OF keeps_get_run])
    (auto intro!: keeps_return keeps_raise split: option.split)

lemma keeps_counts: "others_keep env J \<Longrightarrow> keeps J (refresh_run_counts env ft i) (\<lambda>f. True)"
  unfolding refresh_run_counts_def
  by (rule keeps_bind [OF keeps_get_run]) (auto intro!: keeps_query keeps_raise)

lemma keeps_complete:
  "others_keep env (sound A thr) \<Longrightarrow> keeps (sound A thr) (complete_run env r n) (\<lambda>r. True)"
  unfolding complete_run_def Let_def
  by (rule keeps_bind [OF keeps_counts], assumption, rule keeps_bind [OF keeps_query [where Q = "\<lambda>x. True"]], assumption, simp,
      rule keeps_bind [OF keeps_event [OF trail_free_sound]], assumption, simp, rule keeps_top, rule keeps_save_run)

lemma keeps_claim_run:
  assumes "trail_free J" "others_keep env J"
  shows "keeps J (claim_run env i) (\<lambda>r. \<forall>x. r = Some x \<longrightarrow> rd_id x = i)"
  unfolding claim_run_def Let_def
  by (rule keeps_bind [OF keeps_call [OF assms(2), where Q = "\<lambda>n. True"]], force simp: assms(1),
      rule keeps_bind [OF keeps_commit [OF assms(2)]], rule keeps_if)
    (auto intro: keeps_return keeps_get_run [OF assms(2)])

lemma keeps_execute:
  assumes "worker_env A thr i env"
  shows "keeps (sound A thr) (execute_run env i) (\<lambda>r. True)"
proof -
  note k = worker_env_keeps(1) [OF assms]
  let ?J = "sound A thr"
  have none: "keeps ?J (ebind (existing_run env (se_fault env) i) (\<lambda>r.
        if rd_status r \<in> {RunNoGap, RunAwaiting, RunActivated} then ereturn r
        else eraise (AppError ''SOURCE_DISCOVERY_ALREADY_CLAIMED'' 409))) (\<lambda>r. True)"
    by (rule keeps_bind [OF keeps_existing_run [OF k]], rule keeps_if) (simp_all add: keeps_return keeps_raise)
  have body: "keeps ?J (ebind (sd_search env r) (\<lambda>hits. ebind (process_hits env r [] 0 hits) (\<lambda>n. complete_run env r n))) (\<lambda>r. True)"
    if "rd_id r = i" for r
    by (rule keeps_bind [OF keeps_search [OF k]], rule keeps_bind [OF keeps_process_hits], rule assms [folded that],
        rule keeps_complete [OF k])
  have handler: "keeps ?J (let ft = se_cleanup env in
          ebind (sd_rollback env ft) (\<lambda>u.
          ebind (get_run env ft i) (\<lambda>found. case found of
            None \<Rightarrow> eraise e
          | Some r \<Rightarrow>
              ebind (add_event env ft (set_run i (\<lambda>x. x\<lparr>rd_status := RunFailed, rd_finished := Some (se_now env),
                  rd_error := Some (exn_class e)\<rparr>))
                (stage_event i None ''run_failure'' (Some ''running'') ''failed'')) (\<lambda>u.
              ebind (save_run env ft i) (\<lambda>r. eraise e))))) (\<lambda>r. True)" for e :: exn
    unfolding Let_def
  proof (rule keeps_bind [OF keeps_rollback [OF k]], rule keeps_bind [OF keeps_get_run [OF k]], goal_cases)
    case (1 u found)
    show ?case
      by (cases found)
        (simp_all add: keeps_raise, rule keeps_bind [OF keeps_event [OF trail_free_sound k]], simp,
          rule keeps_bind [OF keeps_save_run [OF k]], rule keeps_raise)
  qed
  show ?thesis unfolding execute_run_def
  proof (rule keeps_bind [OF keeps_claim_run [OF trail_free_sound k]], goal_cases)
    case (1 claimed)
    show ?case
    proof (cases claimed)
      case None
      then show ?thesis using none by simp
    next
      case (Some r)
      then show ?thesis using keeps_catch [OF body handler] 1 by simp
    qed
  qed
qed

section \<open>The administrator\<close>

lemma keeps_claim_candidate:
  assumes "others_keep env J" "\<And>x. J x \<Longrightarrow> J (fst (update_candidate i allowed f x))"
  shows "keeps J (claim_candidate env i allowed f) (\<lambda>c. \<forall>x. c = Some x \<longrightarrow> cn_id x = i)"
  unfolding claim_candidate_def Let_def
  by (rule keeps_bind [OF keeps_call [OF assms(1), where Q = "\<lambda>n. True"]], metis assms(2) fst_conv sum.inject(2),
      rule keeps_bind [OF keeps_commit [OF assms(1)]], rule keeps_if)
    (auto intro: keeps_return keeps_get_candidate [OF assms(1)])

lemma sound_update:
  assumes "sound A thr x" "\<And>c. cn_id (f c) = cn_id c"
    and "\<And>c. cn_id c = i \<Longrightarrow> cn_status c \<in> set allowed \<Longrightarrow> row_ok A thr c \<Longrightarrow> row_ok A thr (f c)"
  shows "sound A thr (fst (update_candidate i allowed f x))"
  unfolding update_candidate_def Let_def fst_conv by (rule sound_map) (use assms in auto)

lemmas status_sets = row_ok_def validated_statuses_def scored_statuses_def approved_statuses_def

lemma keeps_decided:
  assumes k: "others_keep env (sound A thr)"
  shows "keeps (sound A thr) (ebind (refresh_run_counts env ft i) (\<lambda>counts.
         ebind (add_event env ft (set_run i counts) e) (\<lambda>u. ebind (save_run env ft i) (\<lambda>r. ereturn c)))) (\<lambda>c. True)"
  by (rule keeps_bind [OF keeps_counts [OF k]], rule keeps_bind [OF keeps_event [OF trail_free_sound k]], simp,
      rule keeps_bind [OF keeps_save_run [OF k]], rule keeps_return, simp)

lemma keeps_approve:
  assumes k: "others_keep env (sound A thr)" and "i \<in> A"
  shows "keeps (sound A thr) (approve env i reviewer) (\<lambda>c. True)"
proof -
  have "keeps (sound A thr) (approve_candidate env i reviewer) (\<lambda>c. True)"
    unfolding approve_candidate_def
    by (rule keeps_top [OF keeps_claim_candidate [OF k]], rule sound_update)
      (use assms(2) in \<open>auto simp: status_sets official_ok_def\<close>)
  then show ?thesis unfolding approve_def Let_def
    by (intro keeps_bind [OF keeps_existing_candidate [OF k]] keeps_if keeps_return keeps_raise TrueI)
      (erule keeps_bind, auto intro!: keeps_raise keeps_decided [OF k] split: option.split)
qed

lemma keeps_reject:
  assumes k: "others_keep env (sound A thr)"
  shows "keeps (sound A thr) (reject env i reviewer why) (\<lambda>c. True)"
proof -
  have "keeps (sound A thr) (reject_candidate env i reviewer s) (\<lambda>c. True)" for s
    unfolding reject_candidate_def
    by (rule keeps_top [OF keeps_claim_candidate [OF k]], rule sound_update) (auto simp: status_sets)
  then show ?thesis unfolding reject_def Let_def
    by (intro keeps_bind [OF keeps_existing_candidate [OF k]] keeps_if keeps_return keeps_raise TrueI)
      (rule keeps_bind, assumption, auto intro!: keeps_raise keeps_decided [OF k] split: option.split)
qed

section \<open>Activation\<close>

definition ready :: "int set \<Rightarrow> rat \<Rightarrow> int \<Rightarrow> sd_db \<Rightarrow> bool" where
  "ready A thr i x \<longleftrightarrow> (sound A thr x \<and> i \<in> A)
    \<and> has_row (\<lambda>c. cn_id c = i \<and> official_ok c \<and> in_unit (cn_quality c) \<and> reaches thr (cn_quality c)) x"

lemma ready_sound: "ready A thr i x \<Longrightarrow> sound A thr x"
  by (simp add: ready_def)

lemma trail_free_ready [simp]: "trail_free (ready A thr i)"
  by (simp add: trail_free_def ready_def sound_def has_row_def)

lemma keep_ready:
  assumes "others_keep env (sound A thr)" "spares env (\<lambda>c. cn_id c = i)"
  shows "others_keep env (ready A thr i)"
  unfolding ready_def [abs_def]
  by (rule spares_keep [OF _ assms(2)]) (use assms(1) in \<open>auto simp: evidence_of_def official_ok_def others_keep_def\<close>)

lemma flow_bind_keeps:
  assumes "keeps R m Q" "\<And>x. R x \<Longrightarrow> J x" "\<And>a. Q a \<Longrightarrow> flow J R R (f a) S2 W2"
  shows "flow J R R (ebind m f) S2 W2"
proof (rule flow_bind [OF flow_of_keeps [OF assms(1), where S' = "\<lambda>a x. R x \<and> Q a" and W' = "\<lambda>a x. R x \<and> Q a"]], goal_cases)
  case (4 a)
  show ?case using assms(3) [of a] by (cases "Q a") (auto intro: flow_false)
qed (use assms(2) in auto)

lemma claim_ready:
  assumes "sound A thr x" "update_candidate i [CandApproved] (\<lambda>c. c\<lparr>cn_status := CandActivating\<rparr>) x = (y, n)"
  shows "sound A thr y" "n = 1 \<Longrightarrow> ready A thr i y"
proof -
  show s: "sound A thr y"
    using sound_update [OF assms(1), of "\<lambda>c. c\<lparr>cn_status := CandActivating\<rparr>" i "[CandApproved]"] assms(2)
    by (auto simp: status_sets official_ok_def)
  assume "n = 1"
  then have "0 < count_if (\<lambda>c. cn_id c = i \<and> cn_status c = CandApproved) (sd_cands x)"
    using assms(2) by (auto simp: update_candidate_def Let_def)
  then obtain c where c: "c \<in> set (sd_cands x)" "cn_id c = i" "cn_status c = CandApproved" by (auto simp: count_if_pos)
  have ok: "row_ok A thr c" using sound_row [OF assms(1) c(1)] .
  have "c\<lparr>cn_status := CandActivating\<rparr> \<in> set (sd_cands y)"
    using assms(2) c by (force simp: update_candidate_def Let_def)
  moreover have "official_ok (c\<lparr>cn_status := CandActivating\<rparr>)" using ok c(3) by (simp add: status_sets official_ok_def)
  ultimately show "ready A thr i y" using s ok c(2,3)
    unfolding ready_def has_row_def by (auto simp: status_sets intro!: bexI [of _ "c\<lparr>cn_status := CandActivating\<rparr>"])
qed

lemma flow_claim_activation:
  assumes k: "others_keep env (sound A thr)" and s: "spares env (\<lambda>c. cn_id c = i)"
  shows "flow (sound A thr) (sound A thr) (sound A thr) (claim_candidate_activation env i)
    (\<lambda>c. case c of None \<Rightarrow> sound A thr | Some d \<Rightarrow> (\<lambda>x. ready A thr i x \<and> cn_id d = i))
    (\<lambda>c. case c of None \<Rightarrow> sound A thr | Some d \<Rightarrow> (\<lambda>x. ready A thr i x \<and> cn_id d = i))"
    (is "flow ?J ?J ?J _ ?P ?P")
  unfolding claim_candidate_activation_def claim_candidate_def Let_def
proof (rule flow_bind [where Sm = "\<lambda>n. ?J" and Wm = "\<lambda>n. if n = 1 then ready A thr i else ?J"], goal_cases)
  case 1
  show ?case by (rule flow_call) (use k claim_ready in auto)
next
  case (2 n)
  let ?W = "if n = 1 then ready A thr i else ?J"
  have w: "others_keep env ?W" "?W x \<Longrightarrow> ?J x" for x
    using k keep_ready [OF k s] by (cases "n = 1"; simp add: ready_sound)+
  show ?case
  proof (rule flow_bind [where Sm = "\<lambda>u. ?W" and Wm = "\<lambda>u. ?W"], goal_cases)
    case 1
    show ?case by (rule flow_commit) (use k w in auto)
  next
    case 2
    show ?case
    proof (cases "n = 1")
      case True
      have "flow ?J (ready A thr i) (ready A thr i) (get_candidate env (se_fault env) i) ?P ?P"
        by (rule flow_of_keeps [OF keeps_get_candidate [OF keep_ready [OF k s]]])
          (auto simp: ready_sound split: option.split)
      then show ?thesis using True by simp
    next
      case False
      then show ?thesis by (auto intro: flow_return)
    qed
  qed
qed

lemma sound_add_source:
  assumes "sound A thr x" "ls_key s \<in> A" "ls_columns s \<noteq> []" "\<not> (\<exists>k \<in> set (sd_sources x). ls_key k = ls_key s)"
  shows "sound A thr (x\<lparr>sd_sources := sd_sources x @ [s\<lparr>ls_id := n\<rparr>], sd_next := sd_next x + 1\<rparr>)"
proof -
  have "sound A thr (x\<lparr>sd_next := sd_next x + 1\<rparr>)" using assms(1) by (rule sound_next)
  then show ?thesis using assms(2-4) by (auto simp: sound_def)
qed

lemma keeps_insert_source:
  assumes "others_keep env (ready A thr i)" "ls_key s = i" "ls_columns s \<noteq> []"
  shows "keeps (ready A thr i) (insert_source env s) (\<lambda>n. True)"
  unfolding insert_source_def
proof (rule keeps_call [OF assms(1)])
  fix x y a
  assume r: "ready A thr i x" and "(if (\<exists>k \<in> set (sd_sources x). ls_key k = ls_key s) \<or> \<not> distinct (map lc_key (ls_columns s))
      then Inl (OtherError ''IntegrityError'')
      else Inr (x\<lparr>sd_sources := sd_sources x @ [s\<lparr>ls_id := sd_next x\<rparr>], sd_next := sd_next x + 1\<rparr>, sd_next x)) = Inr (y, a)"
  then have f: "\<not> (\<exists>k \<in> set (sd_sources x). ls_key k = ls_key s)"
    and y: "y = x\<lparr>sd_sources := sd_sources x @ [s\<lparr>ls_id := sd_next x\<rparr>], sd_next := sd_next x + 1\<rparr>"
    by (auto split: if_splits)
  show "ready A thr i y \<and> True"
    using r sound_add_source [OF ready_sound [OF r] _ assms(3) f] assms(2) by (simp add: ready_def has_row_def y)
qed

lemma ready_live:
  assumes r: "ready A thr i x"
    and f: "\<And>c. cn_id (f c) = cn_id c \<and> cn_official (f c) = cn_official c \<and> cn_score (f c) = cn_score c
      \<and> cn_evidence (f c) = cn_evidence c \<and> cn_quality (f c) = cn_quality c"
  shows "sound A thr (set_candidate i f x)"
proof (rule sound_set_candidate [OF ready_sound [OF r]])
  fix c assume c: "c \<in> set (sd_cands x)" "cn_id c = i" "row_ok A thr c"
  obtain d where d: "d \<in> set (sd_cands x)" "cn_id d = i" "official_ok d" "reaches thr (cn_quality d)"
    using r unfolding ready_def has_row_def by blast
  have "c = d" using sound_unique [OF ready_sound [OF r]] c(1,2) d(1,2) by blast
  moreover have "i \<in> A" using r by (simp add: ready_def)
  ultimately show "row_ok A thr (f c)" using c d f [of c] by (simp add: row_ok_def official_ok_def)
qed (use f in simp)

lemma flow_materialize:
  assumes k: "others_keep env (sound A thr)" and s: "spares env (\<lambda>c. cn_id c = i)" and c: "cn_id c = i"
  shows "flow (sound A thr) (ready A thr i) (ready A thr i) (materialize env c) (\<lambda>c. sound A thr) (\<lambda>c. sound A thr)"
proof -
  note r = keep_ready [OF k s]
  have failed: "flow (sound A thr) (ready A thr i) (ready A thr i) (eraise e) S' W'" for e S' W'
    by (rule flow_raise) (simp_all add: ready_sound)
  show ?thesis unfolding materialize_def Let_def
  proof (rule flow_bind_keeps [OF keeps_query [OF r, where Q = "\<lambda>c. True"]], goal_cases)
    case (3 cols)
    show ?case
    proof (cases "cols = []")
      case True
      show ?thesis unfolding if_P [OF True] by (rule failed)
    next
      case False
      show ?thesis unfolding if_not_P [OF False]
      proof (rule flow_bind_keeps [OF keeps_existing_run [OF r]], goal_cases)
        case (2 run)
        show ?case
        proof (cases "live_columns cols = []")
          case True
          show ?thesis unfolding if_P [OF True] by (rule failed)
        next
          case ne: False
          show ?thesis unfolding if_not_P [OF ne]
          proof (rule flow_bind_keeps [OF keeps_insert_source [OF r]], goal_cases)
            case (4 sid)
            show ?case
            proof (rule flow_bind_keeps [OF keeps_counts [OF r]], goal_cases)
              case (2 counts)
              show ?case unfolding save_run_def ebind_assoc c
              proof (rule flow_logged [where W' = "sound A thr"], goal_cases)
                case (8 x)
                then show ?case by (simp add: ready_live)
              next
                case (9 u)
                show ?case
                  by (rule flow_of_keeps [OF keeps_bind [OF keeps_get_run [OF k], where R = "\<lambda>c. True"]])
                    (auto intro!: keeps_return keeps_bind [OF keeps_return] keeps_bind [OF keeps_raise [where Q = "\<lambda>a. True"]]
                      split: option.split)
              qed (simp_all add: r k ready_sound)
            qed (simp_all add: ready_sound)
          qed (simp_all add: ready_sound new_source_def c ne)
        qed
      qed (simp_all add: ready_sound)
    qed
  qed (simp_all add: ready_sound)
qed

lemma keeps_mark_failed:
  assumes k: "others_keep env (sound A thr)"
  shows "keeps (sound A thr) (mark_activation_failed env i why) (\<lambda>u. True)"
  unfolding mark_activation_failed_def Let_def
proof (rule keeps_bind [OF keeps_rollback [OF k]], rule keeps_bind [OF keeps_get_candidate [OF k]], goal_cases)
  case (1 u found)
  show ?case
  proof (cases found)
    case (Some c)
    show ?thesis unfolding Some option.case
      by (rule keeps_bind [OF keeps_event [OF trail_free_sound k]], erule sound_fail_candidate, rule keeps_commit [OF k])
  qed (simp add: keeps_return)
qed

lemma keeps_activate:
  assumes k: "others_keep env (sound A thr)" and s: "spares env (\<lambda>c. cn_id c = i)"
  shows "keeps (sound A thr) (activate env i) (\<lambda>c. True)"
  unfolding activate_def Let_def
proof (rule keeps_bind [OF keeps_existing_candidate [OF k]], rule keeps_if, simp add: keeps_return, goal_cases)
  case (1 c)
  have handler: "keeps (sound A thr) (if e = OtherError ''IntegrityError'' then
             ebind (mark_activation_failed env i ''SOURCE_KEY_CONFLICT'') (\<lambda>u.
             eraise (ConflictError ''Source activation conflicts with an existing source''))
           else case app_code e of
             Some code \<Rightarrow> ebind (mark_activation_failed env i code) (\<lambda>u. eraise e)
           | None \<Rightarrow> ebind (mark_activation_failed env i (exn_class e)) (\<lambda>u.
               eraise (AppError ''SOURCE_ACTIVATION_FAILED'' 503))) (\<lambda>c. True)" for e
    by (auto intro!: keeps_bind [OF keeps_mark_failed [OF k]] keeps_raise split: option.split)
  show ?case
  proof (rule keeps_of_flow, rule flow_bind [OF flow_claim_activation [OF k s]], goal_cases)
    case (1 claimed)
    show ?case
    proof (cases claimed)
      case None
      show ?thesis unfolding None option.case
        by (rule flow_of_keeps [OF keeps_bind [OF keeps_existing_candidate [OF k], where R = "\<lambda>c. True"]])
          (simp_all add: keeps_raise)
    next
      case (Some d)
      show ?thesis unfolding Some option.case
      proof (cases "cn_id d = i")
        case True
        show "flow (sound A thr) (\<lambda>x. ready A thr i x \<and> cn_id d = i) (\<lambda>x. ready A thr i x \<and> cn_id d = i)
            (ecatch (materialize env d) (\<lambda>e. if e = OtherError ''IntegrityError'' then
               ebind (mark_activation_failed env i ''SOURCE_KEY_CONFLICT'') (\<lambda>u.
               eraise (ConflictError ''Source activation conflicts with an existing source''))
             else case app_code e of
               Some code \<Rightarrow> ebind (mark_activation_failed env i code) (\<lambda>u. eraise e)
             | None \<Rightarrow> ebind (mark_activation_failed env i (exn_class e)) (\<lambda>u.
                 eraise (AppError ''SOURCE_ACTIVATION_FAILED'' 503)))) (\<lambda>c. sound A thr) (\<lambda>c. sound A thr)"
          by (rule flow_catch [OF flow_weaken [OF flow_materialize [OF k s True]]], simp, simp, assumption, assumption,
              rule flow_of_keeps [OF handler]) simp_all
      qed (rule flow_false, simp)
    qed
  qed
qed

section \<open>Creating, retrying, scanning\<close>

lemma sound_insert_run: "sound A thr x \<Longrightarrow> sound A thr (x\<lparr>sd_runs := rs, sd_next := sd_next x + 1\<rparr>)"
  using sound_next [of A thr "x\<lparr>sd_runs := rs\<rparr>"] by simp

lemma keeps_create:
  assumes k: "others_keep env (sound A thr)"
  shows "keeps (sound A thr) (create_discovery env q creator) (\<lambda>r. True)"
proof -
  have run: "keeps (sound A thr) (create_run env r) (\<lambda>r. True)" for r
    unfolding create_run_def
    by (rule keeps_bind [OF keeps_call [OF k, where Q = "\<lambda>i. True"]])
      (auto simp: sound_insert_run intro: keeps_top [OF keeps_save_run [OF k]])
  show ?thesis unfolding create_discovery_def Let_def
    by (rule keeps_bind [OF keeps_query [OF k, where Q = "\<lambda>g. True"]], simp, rule keeps_bind [OF run],
        rule keeps_bind [OF keeps_event [OF trail_free_sound k]], simp, rule keeps_bind [OF keeps_commit [OF k]], rule keeps_return, simp)
qed

lemma keeps_retry:
  assumes k: "others_keep env (sound A thr)"
  shows "keeps (sound A thr) (retry_run env i) (\<lambda>r. True)"
  unfolding retry_run_def Let_def
  by (rule keeps_bind [OF keeps_existing_run [OF k]], rule keeps_if, rule keeps_raise,
      rule keeps_bind [OF keeps_write [OF k]], simp, rule keeps_bind [OF keeps_save_run [OF k]],
      rule keeps_bind [OF keeps_event [OF trail_free_sound k]], simp, rule keeps_bind [OF keeps_commit [OF k]], rule keeps_return, simp)

lemma keeps_queue_failure:
  assumes k: "others_keep env (sound A thr)"
  shows "keeps (sound A thr) (fail_queued_run env i e) (\<lambda>r. True)"
  unfolding fail_queued_run_def Let_def
  by (rule keeps_bind [OF keeps_existing_run [OF k]], rule keeps_if, simp add: keeps_return,
      rule keeps_bind [OF keeps_event [OF trail_free_sound k]], simp, rule keeps_top [OF keeps_save_run [OF k]])

lemma keeps_scan_topic:
  assumes k: "others_keep env (sound A thr)"
  shows "keeps (sound A thr) (scan_topic env casefold key send s t p) (\<lambda>r. True)"
proof -
  let ?J = "sound A thr"
  have due: "keeps ?J (sd_call env (se_fault env) (\<lambda>x. rbind (auto_run_is_due casefold key (strip t) (sg_interval s) (se_now env) x)
      (\<lambda>d. Inr (x, d)))) (\<lambda>d. True)"
    by (rule keeps_call [OF k]) (auto simp: rbind_Inr)
  have sent: "keeps ?J (\<lambda>w. (sd_turn env w, Inr (send (sw_tick w) i))) (\<lambda>a. True)" for i
    using holds_turn [OF k] by (simp add: keeps_def wp_def)
  have marked: "keeps ?J (etry (fail_queued_run env i e)) (\<lambda>a. True)" for i e
    by (rule keeps_top [OF keeps_try [OF keeps_queue_failure [OF k]]])
  show ?thesis unfolding scan_topic_def Let_def
    by (rule keeps_bind [OF due])
      (auto intro!: keeps_return keeps_raise keeps_bind [OF keeps_create [OF k]] keeps_bind [OF sent] keeps_bind [OF marked]
        split: option.split sum.split)
qed

lemma keeps_scan_topics:
  assumes k: "others_keep env (sound A thr)"
  shows "keeps (sound A thr) (scan_topics env casefold key send s ts p) (\<lambda>r. True)"
proof (induction ts arbitrary: p)
  case (Cons t ts)
  show ?case unfolding scan_topics.simps Let_def
    by (rule keeps_bind [OF keeps_top [OF keeps_try [OF keeps_scan_topic [OF k]]]])
      (auto intro!: Cons.IH keeps_bind [OF keeps_rollback [OF k]] split: sum.split)
qed (simp add: keeps_return)

section \<open>All operations\<close>

text \<open>The operations of the service, each in a session of its own that begins with what is committed.\<close>

datatype sd_op = OpCreate discovery_request ustr
  | OpExecute int
  | OpApprove int ustr
  | OpReject int ustr "ustr option"
  | OpActivate int
  | OpRetry int
  | OpQueueFailure int string
  | OpScan "ustr \<Rightarrow> ustr" "ustr \<Rightarrow> ustr" "nat \<Rightarrow> int \<Rightarrow> exn option" scan_settings

definition run_op :: "sd_env \<Rightarrow> sd_op \<Rightarrow> unit sd" where
  "run_op env op = (case op of
     OpCreate q who \<Rightarrow> ebind (create_discovery env q who) (\<lambda>r. ereturn ())
   | OpExecute i \<Rightarrow> ebind (execute_run env i) (\<lambda>r. ereturn ())
   | OpApprove i who \<Rightarrow> ebind (approve env i who) (\<lambda>c. ereturn ())
   | OpReject i who why \<Rightarrow> ebind (reject env i who why) (\<lambda>c. ereturn ())
   | OpActivate i \<Rightarrow> ebind (activate env i) (\<lambda>c. ereturn ())
   | OpRetry i \<Rightarrow> ebind (retry_run env i) (\<lambda>r. ereturn ())
   | OpQueueFailure i e \<Rightarrow> ebind (fail_queued_run env i e) (\<lambda>r. ereturn ())
   | OpScan casefold key send s \<Rightarrow> ebind (scan_gaps env casefold key send s) (\<lambda>p. ereturn ()))"

definition session :: "sd_db \<Rightarrow> sd_world" where
  "session x = \<lparr>sw_saved = x, sw_work = x, sw_tick = 0, sw_log = [], sw_seen = []\<rparr>"

fun run_sessions :: "(sd_env \<times> sd_op) list \<Rightarrow> sd_db \<Rightarrow> sd_db" where
  "run_sessions [] x = x"
| "run_sessions ((env, op) # ss) x = run_sessions ss (sw_saved (fst (run_op env op (session x))))"

text \<open>
  What an operation may assume of the other sessions at work meanwhile: they keep the rows sound, and a
  worker's candidates and the candidate being activated keep their evidence.
\<close>

definition op_env :: "int set \<Rightarrow> rat \<Rightarrow> sd_env \<times> sd_op \<Rightarrow> bool" where
  "op_env A thr eo \<longleftrightarrow> others_keep (fst eo) (sound A thr) \<and> (case snd eo of
     OpExecute i \<Rightarrow> spares (fst eo) (\<lambda>c. cn_run c = i) \<and> se_threshold (fst eo) = thr
   | OpActivate i \<Rightarrow> spares (fst eo) (\<lambda>c. cn_id c = i)
   | OpApprove i who \<Rightarrow> i \<in> A
   | _ \<Rightarrow> True)"

lemma keeps_unit: "keeps J m Q \<Longrightarrow> keeps J (ebind m (\<lambda>a. ereturn ())) (\<lambda>u. True)"
  by (erule keeps_bind) (simp add: keeps_return)

lemma keeps_op:
  assumes "op_env A thr (env, op)"
  shows "keeps (sound A thr) (run_op env op) (\<lambda>u. True)"
proof -
  have k: "others_keep env (sound A thr)" using assms by (simp add: op_env_def)
  have scan: "keeps (sound A thr) (scan_gaps env casefold key send s) (\<lambda>p. True)" for casefold key send s
    unfolding scan_gaps_def Let_def
    by (rule keeps_if) (auto intro!: keeps_return keeps_bind [OF keeps_scan_topics [OF k]])
  show ?thesis
    using assms unfolding run_op_def op_env_def
    by (cases op) (auto intro!: keeps_unit [OF keeps_create] keeps_unit [OF keeps_execute] keeps_unit [OF keeps_approve]
      keeps_unit [OF keeps_reject] keeps_unit [OF keeps_activate] keeps_unit [OF keeps_retry] keeps_unit [OF keeps_queue_failure]
      keeps_unit [OF scan] simp: worker_env_def)
qed

lemma run_sessions_sound:
  "(\<And>eo. eo \<in> set ss \<Longrightarrow> op_env A thr eo) \<Longrightarrow> sound A thr x \<Longrightarrow> sound A thr (run_sessions ss x)"
proof (induction ss arbitrary: x)
  case (Cons eo ss)
  obtain env op where eo: "eo = (env, op)" by (cases eo)
  have "holds (sound A thr) (session x)" using Cons.prems(2) by (simp add: holds_def session_def)
  then have "sound A thr (sw_saved (fst (run_op env op (session x))))"
    using keepsD [OF keeps_op] Cons.prems(1) [of eo] eo by (auto simp: holds_def)
  then show ?case using Cons by (simp add: eo)
qed simp

end
