(* ===== verification/SourceTopicProps.thy ===== *)
theory SourceTopicProps
  imports SourceTopic
begin

text \<open>
  What the rules of source discovery guarantee: the terms a page is accepted for occur in it, the
  columns and documents chosen on a page are distinct pages of its site, and the search provider's hits
  are bounded and numbered by their place in the answer.
\<close>

section \<open>Words\<close>

lemma py_words_Nil [simp]: "py_words [] = []"
  by (simp add: py_words.simps)

lemma py_words_space: "is_space c \<Longrightarrow> py_words (c # s) = py_words s"
  by (subst (1 2) py_words.simps) simp

lemma py_words_char:
  "\<not> is_space c \<Longrightarrow>
    py_words (c # s) = (c # takeWhile (\<lambda>x. \<not> is_space x) s) # py_words (dropWhile (\<lambda>x. \<not> is_space x) s)"
  by (subst py_words.simps) simp

lemma py_words_ok: "w \<in> set (py_words s) \<Longrightarrow> w \<noteq> [] \<and> (\<forall>c \<in> set w. \<not> is_space c)"
proof (induction s rule: py_words.induct)
  case (1 s)
  show ?case
  proof (cases "dropWhile is_space s")
    case Nil
    then have "py_words s = []" by (subst py_words.simps) (simp only: Nil list.case)
    then show ?thesis using "1.prems" by simp
  next
    case (Cons c t)
    have c: "\<not> is_space c" using Cons by (metis hd_dropWhile list.distinct(1) list.sel(1))
    have "py_words s = (c # takeWhile (\<lambda>x. \<not> is_space x) t) # py_words (dropWhile (\<lambda>x. \<not> is_space x) t)"
      by (subst py_words.simps) (simp only: Cons list.case)
    then have "w = c # takeWhile (\<lambda>x. \<not> is_space x) t \<or> w \<in> set (py_words (dropWhile (\<lambda>x. \<not> is_space x) t))"
      using "1.prems" by simp
    then show ?thesis
    proof
      assume w: "w = c # takeWhile (\<lambda>x. \<not> is_space x) t"
      then show ?thesis using c by (simp add: list.pred_set) (blast dest: set_takeWhileD)
    next
      assume "w \<in> set (py_words (dropWhile (\<lambda>x. \<not> is_space x) t))"
      then show ?thesis by (rule "1.IH" [OF Cons])
    qed
  qed
qed

lemma py_words_front:
  assumes "w \<noteq> []" "\<forall>c \<in> set w. \<not> is_space c" "s = [] \<or> is_space (hd s)"
  shows "py_words (w @ s) = w # py_words s"
proof -
  obtain c t where w: "w = c # t" using assms(1) by (cases w) auto
  have s: "takeWhile (\<lambda>x. \<not> is_space x) s = []" "dropWhile (\<lambda>x. \<not> is_space x) s = s"
    using assms(3) by (cases s; auto)+
  have t: "takeWhile (\<lambda>x. \<not> is_space x) (t @ s) = t" "dropWhile (\<lambda>x. \<not> is_space x) (t @ s) = s"
    using assms(2) w s by (auto simp: takeWhile_append2 dropWhile_append2)
  show ?thesis using assms(2) w t by (simp add: py_words_char)
qed

lemma py_words_join: "(\<forall>w \<in> set ws. w \<noteq> [] \<and> (\<forall>c \<in> set w. \<not> is_space c)) \<Longrightarrow> py_words (join [32] ws) = ws"
proof (induction ws rule: induct_list012)
  case (2 w)
  then show ?case using py_words_front [of w "[]"] by simp
next
  case (3 w v vs)
  have sp: "is_space 32" by (simp add: is_space_def)
  have "py_words (join [32] (w # v # vs)) = w # py_words (32 # join [32] (v # vs))"
    using py_words_front [of w "32 # join [32] (v # vs)"] "3.prems" sp by simp
  then show ?case using 3 sp by (simp add: py_words_space)
qed simp

lemma py_words_spaced [simp]: "py_words (spaced s) = py_words s"
  unfolding spaced_def by (rule py_words_join) (blast dest: py_words_ok)

lemma squash_spaced [simp]: "squash (spaced s) = squash s"
  by (simp add: squash_def)

lemma contains_strip: "contains (strip s) t \<Longrightarrow> contains s t"
proof -
  assume h: "contains (strip s) t"
  obtain a where a: "s = a @ lstrip_if is_space s" unfolding lstrip_if_def by (metis takeWhile_dropWhile_id)
  obtain b where b: "lstrip_if is_space s = strip s @ b"
    using rstrip_if_prefix [of "lstrip_if is_space s" is_space] unfolding strip_def strip_if_def by blast
  have "contains s (strip s)" unfolding contains_iff using a b by metis
  then show ?thesis using h by (rule contains_trans)
qed

lemma terms_in_contains: "t \<in> set (terms_in ts s) \<Longrightarrow> contains s t"
  by (simp add: terms_in_def)

section \<open>Relevance\<close>

text \<open>
  The words of a page, without case, joined with and without blanks: topics on software are looked
  up without blanks.
\<close>

definition page_words :: "ustr \<Rightarrow> ustr \<Rightarrow> ustr" where
  "page_words title text' = spaced (lower title) @ [32] @ spaced (lower text')"

definition page_letters :: "ustr \<Rightarrow> ustr \<Rightarrow> ustr" where
  "page_letters title text' = squash (lower title) @ squash (lower text')"

definition software_topic :: "ustr \<Rightarrow> bool" where
  "software_topic topic \<longleftrightarrow> contains (squash (lower topic)) [36719, 20214]"

lemma software_accepted:
  assumes "tv_level (software_relevance title text' topic) \<in> {Direct, Related}"
  shows "terms_in procurement_cues title = [] \<and> terms_in news_cues title = []"
    and "tv_terms (software_relevance title text' topic) \<noteq> []"
    and "t \<in> set (tv_terms (software_relevance title text' topic)) \<Longrightarrow> contains (title @ text') t"
proof -
  let ?v = "software_relevance title text' topic"
  note d = software_relevance_def Let_def relevance_def
  show cues: "terms_in procurement_cues title = [] \<and> terms_in news_cues title = []"
    using assms by (simp add: d split: if_splits)
  show "tv_terms ?v \<noteq> []" using assms cues by (auto simp: d split: if_splits)
  show "t \<in> set (tv_terms ?v) \<Longrightarrow> contains (title @ text') t"
    using assms cues
    by (auto simp: d split: if_splits intro: contains_appendI1 contains_appendI2 dest: terms_in_contains)
qed

theorem relevance_grounded:
  assumes "topic_matches text' topic title"
  shows "tv_terms (classify_topic_relevance title text' topic) \<noteq> []
    \<and> list_all (\<lambda>t. contains (if software_topic topic then page_letters title text' else page_words title text') t)
        (tv_terms (classify_topic_relevance title text' topic))
    \<and> (\<not> software_topic topic \<or> terms_in (procurement_cues @ news_cues) (squash (lower title)) = [])"
proof (cases "software_topic topic")
  case True
  let ?s = "software_relevance (squash (lower title)) (squash (lower text')) (squash (lower topic))"
  have e: "classify_topic_relevance title text' topic = ?s"
    using assms True
    by (auto simp: topic_matches_def classify_topic_relevance_def Let_def relevance_def software_topic_def split: if_splits)
  then have "tv_level ?s \<in> {Direct, Related}" using assms by (simp add: topic_matches_def)
  note s = software_accepted [OF this]
  show ?thesis using s True unfolding e by (auto simp: list_all_iff page_letters_def terms_in_def)
next
  case False
  let ?c = "strip (spaced (lower title) @ [32] @ spaced (lower text'))"
  have half: "Suc (length ts) div 2 = 0 \<Longrightarrow> ts = []" for ts :: "ustr list" by (cases ts) auto
  have "tv_terms (classify_topic_relevance title text' topic) \<noteq> []
      \<and> (\<forall>t \<in> set (tv_terms (classify_topic_relevance title text' topic)). contains ?c t)"
    using assms False
    by (auto simp: topic_matches_def classify_topic_relevance_def Let_def relevance_def software_topic_def
        terms_in_def split: if_splits dest: half)
  then show ?thesis using False by (auto simp: list_all_iff page_words_def intro: contains_strip)
qed

theorem relevance_grounded_witness:
  "tv_terms (classify_topic_relevance (asc ''Open data'') [] (asc ''open  DATA'')) \<noteq> []
    \<and> list_all (\<lambda>t. contains (if software_topic (asc ''open  DATA'') then page_letters (asc ''Open data'') []
          else page_words (asc ''Open data'') []) t)
        (tv_terms (classify_topic_relevance (asc ''Open data'') [] (asc ''open  DATA'')))"
proof -
  have "topic_matches [] (asc ''open  DATA'') (asc ''Open data'')" by code_simp
  from relevance_grounded [OF this] show ?thesis by blast
qed

section \<open>Links\<close>

definition site_page :: "(ustr \<Rightarrow> ustr) \<Rightarrow> ustr \<Rightarrow> ustr \<Rightarrow> bool" where
  "site_page nfkc host url \<longleftrightarrow>
    (case urlsplit nfkc [] url of
       Inr u \<Rightarrow> host_of u \<noteq> [] \<and> same_site host (host_of u) \<and> \<not> is_file_path (up_path u)
     | Inl e \<Rightarrow> False)"

definition linked :: "(ustr \<Rightarrow> ustr) \<Rightarrow> ustr \<Rightarrow> page_element list \<Rightarrow> ustr \<Rightarrow> bool" where
  "linked nfkc page es url \<longleftrightarrow>
    list_ex (\<lambda>e. case el_href e of Some h \<Rightarrow> normalize_url nfkc (Some page) h = Inr url | None \<Rightarrow> False) es"

lemma usable_url_Some: "usable_url nfkc page href = Inr (Some url) \<longleftrightarrow> normalize_url nfkc (Some page) href = Inr url"
  by (auto simp: usable_url_def split: sum.splits)

lemma linked_Cons: "linked nfkc page (e # es) url \<longleftrightarrow> linked nfkc page [e] url \<or> linked nfkc page es url"
  by (simp add: linked_def)

definition detail_ok :: "(ustr \<Rightarrow> ustr) \<Rightarrow> ustr \<Rightarrow> ustr \<Rightarrow> ustr \<Rightarrow> ustr list \<Rightarrow> page_element list \<Rightarrow> ustr \<Rightarrow> bool" where
  "detail_ok nfkc page host column shared es url \<longleftrightarrow> site_page nfkc host url \<and> linked nfkc page es url
    \<and> normalize_url nfkc None column \<noteq> Inr url \<and> url \<notin> set shared
    \<and> (host = jxt_host \<longrightarrow> is_jxt_detail_url nfkc url = Inr True)"

lemma detail_hit_ok:
  assumes "detail_hit nfkc topic page host column shared seen e = Inr (Some (p, url))"
  shows "url \<notin> set seen \<and> detail_ok nfkc page host column shared [e] url"
proof -
  obtain href where h: "el_href e = Some href" using assms by (cases "el_href e") (auto simp: detail_hit_def)
  obtain found where f: "usable_url nfkc page href = Inr found" using assms h
    by (cases "usable_url nfkc page href") (auto simp: detail_hit_def)
  obtain new where new: "found = Some new" using assms h f by (cases found) (auto simp: detail_hit_def)
  obtain u where u: "urlsplit nfkc [] new = Inr u" using assms h f new
    by (cases "urlsplit nfkc [] new") (auto simp: detail_hit_def)
  have site: "\<not> (host_of u = [] \<or> \<not> same_site host (host_of u) \<or> new \<in> set seen \<or> new \<in> set shared)"
    using assms h f new u by (simp add: detail_hit_def split: if_splits)
  obtain own where own: "normalize_url nfkc None column = Inr own" using assms h f new u site
    by (cases "normalize_url nfkc None column") (auto simp: detail_hit_def)
  have page: "new \<noteq> own \<and> \<not> is_file_path (up_path u)" using assms h f new u site own
    by (simp add: detail_hit_def split: if_splits)
  have wanted: "host = jxt_host \<longrightarrow> is_jxt_detail_url nfkc new = Inr True" and "url = new"
    using assms h f new u site own page by (auto simp: detail_hit_def rbind_Inr split: if_splits)
  then show ?thesis
    using h f new u site own page wanted
    by (auto simp: detail_ok_def site_page_def linked_def usable_url_Some)
qed

lemma detail_ok_mono:
  "detail_ok nfkc page host column shared xs u \<Longrightarrow> set xs \<subseteq> set ys \<Longrightarrow> detail_ok nfkc page host column shared ys u"
  unfolding detail_ok_def linked_def list_ex_iff by blast

lemma distinct_map_sort: "distinct (map f (sort_key k xs)) = distinct (map f xs)"
  by (simp add: distinct_map)

lemma detail_hits_ok:
  assumes "detail_hits nfkc topic page host column shared hits es = Inr out" "distinct (map snd hits)"
    and "\<forall>h \<in> set hits. detail_ok nfkc page host column shared done (snd h)"
  shows "distinct (map snd out) \<and> (\<forall>h \<in> set out. detail_ok nfkc page host column shared (done @ es) (snd h))"
  using assms
proof (induction es arbitrary: hits "done")
  case (Cons e es)
  from Cons.prems(1) obtain found where f: "detail_hit nfkc topic page host column shared (map snd hits) e = Inr found"
    and r: "detail_hits nfkc topic page host column shared (hits @ (case found of Some h \<Rightarrow> [h] | None \<Rightarrow> [])) es = Inr out"
    by (auto simp: rbind_Inr)
  let ?hits = "hits @ (case found of Some h \<Rightarrow> [h] | None \<Rightarrow> [])"
  have new: "snd h \<notin> set (map snd hits) \<and> detail_ok nfkc page host column shared [e] (snd h)" if "found = Some h" for h
    using detail_hit_ok [of nfkc topic page host column shared "map snd hits" e "fst h" "snd h"] f that by simp
  have d: "distinct (map snd ?hits)" using Cons.prems(2) new by (cases found) auto
  have "\<forall>h \<in> set ?hits. detail_ok nfkc page host column shared (done @ [e]) (snd h)"
    using Cons.prems(3) new by (auto split: option.splits intro: detail_ok_mono)
  from Cons.IH [OF r d this] show ?case by simp
qed simp

lemma detail_urls_ok:
  assumes "detail_urls nfkc limit topic page column shared es = Inr urls" "url_site nfkc page = Inr host"
  shows "distinct urls \<and> length urls \<le> limit \<and> (\<forall>u \<in> set urls. detail_ok nfkc page host column shared es u)"
proof -
  obtain hits where h: "detail_hits nfkc topic page host column shared [] (take 500 es) = Inr hits"
    and u: "urls = map snd (take limit (sort_key (\<lambda>h. - fst h) hits))"
    using assms by (auto simp: detail_urls_def rbind_Inr)
  have ok: "distinct (map snd hits)" "\<forall>h \<in> set hits. detail_ok nfkc page host column shared (take 500 es) (snd h)"
    using detail_hits_ok [OF h, of "[]"] by simp_all
  have "distinct (map snd (sort_key (\<lambda>h. - fst h) hits))" using ok(1) by (simp add: distinct_map_sort)
  then have "distinct urls" unfolding u by (metis distinct_take take_map)
  moreover have "detail_ok nfkc page host column shared es x" if "x \<in> set urls" for x
  proof -
    have "x \<in> snd ` set (take limit (sort_key (\<lambda>h. - fst h) hits))" using that unfolding u by (simp only: set_map)
    then obtain h where "h \<in> set (take limit (sort_key (\<lambda>h. - fst h) hits))" "x = snd h" by blast
    then have "h \<in> set hits" "x = snd h" by (auto dest: in_set_takeD)
    then show ?thesis using ok(2) set_take_subset [of 500 es] by (blast intro: detail_ok_mono)
  qed
  ultimately show ?thesis by (simp add: u)
qed

definition plain_link :: "string \<Rightarrow> page_element" where
  "plain_link s = \<lparr>el_href = Some (asc s), el_text = asc ''policy'', el_meta = False, el_content = None\<rparr>"

text \<open>
  C14. The documents a trial crawl fetches for a column are at most the configured number,
  distinct, none tried before for the candidate, each linked from the list page, on its site,
  not the column itself and not a file; on the special host each has the path of a dated
  document.
\<close>

theorem detail_urls_sound:
  assumes "detail_urls nfkc limit topic page column shared es = Inr urls" "url_site nfkc page = Inr host"
  shows "distinct urls \<and> length urls \<le> limit \<and> set urls \<inter> set shared = {}
    \<and> list_all (\<lambda>u. site_page nfkc host u \<and> linked nfkc page es u \<and> normalize_url nfkc None column \<noteq> Inr u
        \<and> (host \<noteq> jxt_host \<or> is_jxt_detail_url nfkc u = Inr True)) urls"
  using detail_urls_ok [OF assms] by (auto simp: list_all_iff detail_ok_def)

theorem detail_urls_sound_witness:
  "distinct [asc ''https://a.gov.cn/x/1.html'']
    \<and> length [asc ''https://a.gov.cn/x/1.html''] \<le> 5 \<and> set [asc ''https://a.gov.cn/x/1.html''] \<inter> set [] = {}
    \<and> list_all (\<lambda>u. site_page (\<lambda>s. s) (asc ''a.gov.cn'') u
        \<and> linked (\<lambda>s. s) (asc ''https://a.gov.cn/x/'') [plain_link ''1.html'', plain_link ''//b.com/'', plain_link ''a.pdf''] u
        \<and> normalize_url (\<lambda>s. s) None (asc ''https://a.gov.cn/x/'') \<noteq> Inr u
        \<and> (asc ''a.gov.cn'' \<noteq> jxt_host \<or> is_jxt_detail_url (\<lambda>s. s) u = Inr True)) [asc ''https://a.gov.cn/x/1.html'']"
proof (rule detail_urls_sound)
  show "detail_urls (\<lambda>s. s) 5 (asc ''open data'') (asc ''https://a.gov.cn/x/'') (asc ''https://a.gov.cn/x/'') []
      [plain_link ''1.html'', plain_link ''//b.com/'', plain_link ''a.pdf''] = Inr [asc ''https://a.gov.cn/x/1.html'']"
    by code_simp
  show "url_site (\<lambda>s. s) (asc ''https://a.gov.cn/x/'') = Inr (asc ''a.gov.cn'')" by code_simp
qed

definition column_ok :: "(ustr \<Rightarrow> ustr) \<Rightarrow> ustr \<Rightarrow> ustr \<Rightarrow> page_element list \<Rightarrow> column_hit \<Rightarrow> bool" where
  "column_ok nfkc page host es h \<longleftrightarrow> ch_terms h \<noteq> [] \<and>
    (if ch_method h = Anchor
     then site_page nfkc host (ch_url h) \<and> linked nfkc page es (ch_url h) \<and> set (ch_terms h) \<subseteq> set column_terms
     else host = jxt_host \<and> normalize_url nfkc None page = Inr (ch_url h))"

lemma anchor_hit_ok:
  assumes "anchor_hit nfkc page host source seen e = Inr (Some h)"
  shows "ch_method h = Anchor \<and> ch_url h \<notin> set seen \<and> column_ok nfkc page host [e] h
    \<and> (host = jxt_host \<longrightarrow> ch_url h \<noteq> source)"
proof -
  obtain href where r: "el_href e = Some href" using assms by (cases "el_href e") (auto simp: anchor_hit_def)
  obtain found where f: "usable_url nfkc page href = Inr found" using assms r
    by (cases "usable_url nfkc page href") (auto simp: anchor_hit_def)
  obtain new where new: "found = Some new" using assms r f by (cases found) (auto simp: anchor_hit_def)
  obtain u where u: "urlsplit nfkc [] new = Inr u" using assms r f new
    by (cases "urlsplit nfkc [] new") (auto simp: anchor_hit_def)
  have site: "\<not> (host_of u = [] \<or> \<not> same_site host (host_of u) \<or> new \<in> set seen)" "\<not> is_file_path (up_path u)"
    using assms r f new u by (simp_all add: anchor_hit_def split: if_splits)
  define ms where "ms = filter (\<lambda>t. contains (lower (el_text e @ 32 # up_path u)) (lower t)) column_terms"
  obtain listed where l: "(if host \<noteq> jxt_host then Inr True else if re_fullmatch jxt_detail_rx (up_path u) then Inr False
      else if new = source then Inr False else is_jxt_list_url nfkc new) = Inr listed"
    using assms r f new u site
    by (cases "(if host \<noteq> jxt_host then Inr True else if re_fullmatch jxt_detail_rx (up_path u) then Inr False
      else if new = source then Inr False else is_jxt_list_url nfkc new)") (auto simp: anchor_hit_def)
  have ok: "listed" "ms \<noteq> []"
    using assms r f new u site l by (simp_all add: anchor_hit_def ms_def [symmetric] Let_def split: if_splits del: lower_append)
  have "ch_url h = new \<and> ch_terms h = ms \<and> ch_method h = Anchor"
    using assms r f new u site l ok by (auto simp: anchor_hit_def ms_def [symmetric] Let_def rbind_Inr simp del: lower_append)
  moreover have "set ms \<subseteq> set column_terms" by (auto simp: ms_def)
  moreover have "host = jxt_host \<longrightarrow> new \<noteq> source" using l ok(1) by (auto split: if_splits)
  ultimately show ?thesis
    using r f new u site ok(2) by (simp add: column_ok_def site_page_def linked_def usable_url_Some)
qed

lemma column_ok_mono: "column_ok nfkc page host es h \<Longrightarrow> set es \<subseteq> set es' \<Longrightarrow> column_ok nfkc page host es' h"
  unfolding column_ok_def linked_def list_ex_iff by (cases "ch_method h = Anchor") auto

lemma anchor_hits_ok:
  assumes "anchor_hits nfkc page host source hits es = Inr out" "distinct (map ch_url hits)"
    and "\<forall>h \<in> set hits. column_ok nfkc page host done h \<and> ch_method h = Anchor \<and> (host = jxt_host \<longrightarrow> ch_url h \<noteq> source)"
  shows "distinct (map ch_url out)
    \<and> (\<forall>h \<in> set out. column_ok nfkc page host (done @ es) h \<and> ch_method h = Anchor \<and> (host = jxt_host \<longrightarrow> ch_url h \<noteq> source))"
  using assms
proof (induction es arbitrary: hits "done")
  case (Cons e es)
  from Cons.prems(1) obtain found where f: "anchor_hit nfkc page host source (map ch_url hits) e = Inr found"
    and r: "anchor_hits nfkc page host source (hits @ (case found of Some h \<Rightarrow> [h] | None \<Rightarrow> [])) es = Inr out"
    by (auto simp: rbind_Inr)
  let ?hits = "hits @ (case found of Some h \<Rightarrow> [h] | None \<Rightarrow> [])"
  have d: "distinct (map ch_url ?hits)" using Cons.prems(2) anchor_hit_ok [of nfkc page host source "map ch_url hits" e] f
    by (cases found) auto
  have "column_ok nfkc page host (done @ [e]) h \<and> ch_method h = Anchor \<and> (host = jxt_host \<longrightarrow> ch_url h \<noteq> source)"
    if "h \<in> set ?hits" for h
  proof (cases "h \<in> set hits")
    case True
    have "set done \<subseteq> set (done @ [e])" by auto
    then show ?thesis using Cons.prems(3) True by (blast intro: column_ok_mono)
  next
    case False
    then have "found = Some h" using that by (cases found) auto
    then show ?thesis using anchor_hit_ok [of nfkc page host source "map ch_url hits" e h] f
        column_ok_mono [of nfkc page host "[e]" h "done @ [e]"] by simp
  qed
  then have all: "\<forall>h \<in> set ?hits. column_ok nfkc page host (done @ [e]) h \<and> ch_method h = Anchor
      \<and> (host = jxt_host \<longrightarrow> ch_url h \<noteq> source)" by blast
  have front: "(done @ [e]) @ es = done @ e # es" by simp
  show ?case using Cons.IH [OF r d all] unfolding front .
qed simp

lemma rank_hits_ok:
  assumes "rank_hits nfkc page anchors panel = Inr hits" "url_site nfkc page = Inr host"
  shows "distinct (map ch_url hits) \<and> sorted_wrt (\<lambda>a b. ch_priority b \<le> ch_priority a) hits
    \<and> (\<forall>h \<in> set hits. column_ok nfkc page host anchors h)"
proof -
  obtain source found embedded where s: "normalize_url nfkc None page = Inr source"
    and f: "anchor_hits nfkc page host source [] anchors = Inr found"
    and panel: "(if host = jxt_host then panel_has_details nfkc page panel else Inr False) = Inr embedded"
    and h: "hits = sort_key (\<lambda>h. (- ch_priority h, ch_url h)) (found @ (if embedded
        then [\<lparr>ch_priority = dget_or jxt_column_priority (asc ''ggtz'') 0, ch_url = source,
           ch_label = [20844, 21578, 20844, 31034], ch_terms = [[20844, 21578], [20844, 31034]], ch_method = EmbeddedListPanel, ch_selector = panel_selector\<rparr>] else []))"
    (is "hits = sort_key ?key (found @ ?extra)")
    using assms by (auto simp: rank_hits_def rbind_Inr Let_def)
  have e: "embedded \<longrightarrow> host = jxt_host" using panel by (auto split: if_splits)
  note ok = anchor_hits_ok [OF f, of "[]", simplified]
  have "distinct (map ch_url (found @ ?extra))" using ok e by (cases embedded) auto
  then have "distinct (map ch_url hits)" unfolding h by (simp only: distinct_map_sort)
  moreover have "sorted_wrt (\<lambda>a b. ch_priority b \<le> ch_priority a) hits"
  proof -
    have "sorted (map ?key hits)" unfolding h by simp
    then have "sorted_wrt (\<lambda>a b. ?key a \<le> ?key b) hits" by (simp add: sorted_map)
    then show ?thesis by (rule sorted_wrt_mono_rel [rotated]) (auto simp: less_eq_prod_def)
  qed
  moreover have "column_ok nfkc page host anchors x" if "x \<in> set hits" for x
    using that ok e s by (auto simp: h column_ok_def split: if_splits)
  ultimately show ?thesis by blast
qed

section \<open>The search provider\<close>

lemma brave_hit_ok:
  assumes "brave_hit nfkc rank x = Inr (Some h)"
  shows "hi_rank h = rank \<and> (\<exists>u. urlsplit nfkc [] (hi_url h) = Inr u \<and> hostname u \<noteq> None
    \<and> up_scheme u \<in> {asc ''http'', asc ''https''})"
proof -
  obtain raw where x: "x = JObj raw" using assms by (cases x) auto
  obtain s where s: "jget raw (asc ''url'') = JStr s" using assms x by (auto split: json.splits)
  obtain url where url: "normalize_url nfkc None s = Inr url" using assms x s by (auto split: sum.splits if_splits)
  obtain u where u: "urlsplit nfkc [] url = Inr u" using assms x s url by (auto simp: rbind_Inr)
  obtain host where host: "hostname u = Some host" using assms x s url u by (auto split: option.splits)
  have "up_scheme u \<in> {asc ''http'', asc ''https''}" using assms x s url u host by (auto split: if_splits)
  moreover from this have "hi_url h = url \<and> hi_rank h = rank" using assms x s url u host by auto
  ultimately show ?thesis using u host by simp
qed

definition hit_ok :: "(ustr \<Rightarrow> ustr) \<Rightarrow> candidate_hit \<Rightarrow> bool" where
  "hit_ok nfkc h \<longleftrightarrow> (case urlsplit nfkc [] (hi_url h) of
     Inr u \<Rightarrow> hostname u \<noteq> None \<and> up_scheme u \<in> {asc ''http'', asc ''https''} | Inl e \<Rightarrow> False)"

lemma brave_hits_ok:
  "brave_hits nfkc n xs = Inr hs \<Longrightarrow> sorted_wrt (<) (map hi_rank hs) \<and> length hs \<le> length xs
    \<and> (\<forall>h \<in> set hs. n \<le> hi_rank h \<and> hi_rank h < n + length xs \<and> hit_ok nfkc h)"
proof (induction xs arbitrary: n hs)
  case (Cons x xs)
  obtain found rest where f: "brave_hit nfkc n x = Inr found" and r: "brave_hits nfkc (n + 1) xs = Inr rest"
    and h: "hs = (case found of Some h \<Rightarrow> h # rest | None \<Rightarrow> rest)"
    using Cons.prems by (auto simp: rbind_Inr)
  note ih = Cons.IH [OF r]
  show ?case
  proof (cases found)
    case None
    then show ?thesis using ih h by (auto simp: Suc_le_eq)
  next
    case (Some k)
    then have "hi_rank k = n" "hit_ok nfkc k" using brave_hit_ok [of nfkc n x k] f by (auto simp: hit_ok_def)
    then show ?thesis using ih h Some by (auto simp: Suc_le_eq)
  qed
qed simp

theorem brave_search_sound:
  assumes "brave_search nfkc get key query limit = Inr hs"
  shows "key \<noteq> None \<and> length hs \<le> limit \<and> sorted_wrt (<) (map hi_rank hs)
    \<and> list_all (\<lambda>h. 1 \<le> hi_rank h \<and> hi_rank h \<le> limit \<and> hit_ok nfkc h) hs"
proof -
  have k: "key \<noteq> None" using assms by (auto simp: brave_search_def split: if_splits)
  obtain items where "brave_hits nfkc 1 (take limit items) = Inr hs"
    using assms by (auto simp: brave_search_def rbind_Inr split: if_splits search_reply.splits option.splits)
  from brave_hits_ok [OF this] show ?thesis using k by (auto simp: list_all_iff)
qed

text \<open>A provider that answers \<open>"web": null\<close> escapes the errors of the adapter.\<close>

lemma brave_null_web: "brave_results (JObj [(asc ''web'', JNull)]) = Inl (OtherError ''AttributeError'')"
  by (simp add: brave_results_def dget_or_def)

end
