(* ===== verification/SourceClaims.thy ===== *)
theory SourceClaims
  imports SourceProps SourceTopicProps
begin

text \<open>
  The claims on source discovery: valid rows and approvals over sequences of sessions, a bounded number
  of requests, runs that end, and what an activation publishes.
\<close>

section \<open>Sequences of sessions\<close>

definition approved_by :: "(sd_env \<times> sd_op) list \<Rightarrow> int set" where
  "approved_by ss = {i. \<exists>env who. (env, OpApprove i who) \<in> set ss}"

lemma sound_mono: "sound A thr x \<Longrightarrow> A \<subseteq> B \<Longrightarrow> sound B thr x"
  unfolding sound_def row_ok_def by blast

lemma sessions_sound:
  assumes "list_all (op_env (approved_by ss) thr) ss" "sound {} thr x"
  shows "sound (approved_by ss) thr (run_sessions ss x)"
  using assms sound_mono [of "{}" thr x] by (intro run_sessions_sound) (auto simp: list_all_iff)

text \<open>An environment without faults and other sessions, and a database with one scored candidate.\<close>

definition quiet :: "sd_env \<Rightarrow> bool" where
  "quiet env \<longleftrightarrow> se_fault env = (\<lambda>n. None) \<and> se_cleanup env = (\<lambda>n. None) \<and> se_others env = (\<lambda>n x. x)"

definition sample_sd_env :: sd_env where
  "sample_sd_env = \<lparr>se_fault = (\<lambda>n. None), se_cleanup = (\<lambda>n. None), se_others = (\<lambda>n x. x), se_now = 7,
    se_nfkc = (\<lambda>s. s), se_sha1 = (\<lambda>b. asc ''0123456789''), se_ilike = contains, se_search = (\<lambda>n q k. Inr []),
    se_fetch = (\<lambda>n u. Inl (OtherError ''ConnectError'')), se_text = (\<lambda>p. Inr []), se_select = (\<lambda>t s. []),
    se_content = (\<lambda>t s. []), se_nulls = 0, se_max_candidates = 10, se_max_columns = 12, se_trial_documents = 5,
    se_min_chars = 160, se_threshold = 65 / 100, se_trusted = [asc ''.gov.cn'']\<rparr>"

definition sample_run :: discovery_run where
  "sample_run = \<lparr>rd_id = 1, rd_topic = asc ''data'', rd_region = None, rd_level = None, rd_query = asc ''data'',
    rd_need_sources = 1, rd_need_documents = 3, rd_has_sources = 0, rd_has_documents = 0, rd_gap = True,
    rd_status = RunAwaiting, rd_max = 10, rd_candidates = 1, rd_approved = 0, rd_activated = 0, rd_attempts = 1,
    rd_started = Some 1, rd_finished = Some 2, rd_error = None, rd_creator = None, rd_created = 0\<rparr>"

definition sample_candidate :: candidate_row where
  "sample_candidate = \<lparr>cn_id = 2, cn_run = 1, cn_url = asc ''https://a.gov.cn/'', cn_domain = asc ''a.gov.cn'', cn_name = asc ''A'',
    cn_snippet = None, cn_rank = 1, cn_query = asc ''data'', cn_official = OffOfficial, cn_score = Some 1,
    cn_evidence = Some \<lparr>oe_initial = asc ''a.gov.cn'', oe_final = asc ''a.gov.cn'', oe_code = 200, oe_same_site = True,
      oe_same_host = True, oe_status_ok = True, oe_suffix = Some (asc ''.gov.cn''), oe_https = True, oe_markers = []\<rparr>,
    cn_code = Some 200, cn_final_url = Some (asc ''https://a.gov.cn/''), cn_status = CandPending, cn_quality = Some (9 / 10),
    cn_columns = 1, cn_documents = 5, cn_success = 4, cn_failed = 1, cn_chars = 900, cn_reason = None, cn_approver = None,
    cn_approved_at = None, cn_source = None\<rparr>"

definition sample_found_column :: candidate_column where
  "sample_found_column = \<lparr>sc_id = 3, sc_candidate = 2, sc_key = asc ''news-01234567'', sc_name = asc ''news'',
    sc_url = asc ''https://a.gov.cn/news'', sc_list = asc ''a[href]'', sc_content = content_selector (asc ''a.gov.cn''),
    sc_method = Anchor, sc_rank = 1, sc_status = ColTrialCrawled, sc_found = 5, sc_fetched = 5, sc_success = 4, sc_failed = 1,
    sc_chars = 900, sc_quality = Some (9 / 10), sc_error = None\<rparr>"

definition sample_db :: sd_db where
  "sample_db = \<lparr>sd_runs = [sample_run], sd_cands = [sample_candidate], sd_cols = [sample_found_column], sd_events = [],
    sd_sources = [], sd_documents = [], sd_next = 4\<rparr>"

definition sample_sessions :: "(sd_env \<times> sd_op) list" where
  "sample_sessions = [(sample_sd_env, OpActivate 2), (sample_sd_env, OpApprove 2 (asc ''admin'')), (sample_sd_env, OpActivate 2)]"

lemma quiet_others: "se_others env = (\<lambda>n x. x) \<Longrightarrow> others_keep env J" "se_others env = (\<lambda>n x. x) \<Longrightarrow> spares env P"
  by (auto simp: others_keep_def spares_def)

lemma sample_sound: "sound {} (65 / 100) sample_db"
  by (simp add: sound_def sample_db_def sample_candidate_def sample_found_column_def row_ok_def column_row_ok_def in_unit_def
      official_ok_def officially_verified_def reaches_def validated_statuses_def scored_statuses_def approved_statuses_def)

lemma sample_sessions_ok: "list_all (op_env (approved_by sample_sessions) (65 / 100)) sample_sessions"
  by (auto simp: sample_sessions_def op_env_def approved_by_def quiet_others sample_sd_env_def)





section \<open>Requests\<close>

abbreviation fetches :: "nat \<Rightarrow> 'a sd \<Rightarrow> bool" where
  "fetches \<equiv> costs (\<lambda>w. length (sw_log w))"

lemma fetches_0_calls [simp]:
  "fetches 0 (sd_call env ft f)" "fetches 0 (sd_commit env ft)" "fetches 0 (sd_rollback env ft)" "fetches 0 (sd_search env d)"
  by (auto simp: costs_def sd_call_def sd_commit_def sd_rollback_def sd_search_def sd_turn_def Let_def
      split: option.split sum.split)

lemma fetches_fetch: "fetches 1 (sd_fetch env url)"
  by (simp add: costs_def sd_fetch_def sd_turn_def)

lemma fetches_0_db [simp]:
  "fetches 0 (sd_query env ft g)" "fetches 0 (sd_write env ft h)" "fetches 0 (touch env ft)" "fetches 0 (add_event env ft h ev)"
  "fetches 0 (get_run env ft i)" "fetches 0 (get_candidate env ft i)" "fetches 0 (create_column env col)"
  "fetches 0 (create_candidate env c)"
  by (simp_all add: sd_query_def sd_write_def touch_def add_event_def get_run_def get_candidate_def create_column_def
      create_candidate_def)

lemma fetches_0_runs [simp]:
  "fetches 0 (existing_run env ft i)" "fetches 0 (save_run env ft i)" "fetches 0 (refresh_run_counts env ft i)"
  "fetches 0 (claim_run env i)"
  by (auto simp: existing_run_def save_run_def refresh_run_counts_def claim_run_def Let_def
      intro!: costs_bind0 split: option.split)

lemma ebind_Inr: "ebind m f w = (w', Inr b) \<longleftrightarrow> (\<exists>v a. m w = (v, Inr a) \<and> f a v = (w', Inr b))"
  by (auto simp: ebind_def split: prod.splits sum.splits)

lemma create_columns_length: "create_columns env c host hs w = (w', Inr cols) \<Longrightarrow> length cols = length hs"
  by (induction hs arbitrary: w w' cols) (auto simp: ebind_Inr ereturn_def)

lemma trial_crawl_length: "trial_crawl env r c cols w = (w', Inr out) \<Longrightarrow> length out = length cols"
  by (induction cols arbitrary: w w' out) (auto simp: ebind_Inr ereturn_def)

lemma discover_columns_length: "discover_columns env r c p w = (w', Inr cols) \<Longrightarrow> length cols \<le> se_max_columns env"
  by (auto simp: discover_columns_def Let_def ebind_Inr ereturn_def split: if_splits dest!: create_columns_length)

lemma fetches_create_columns: "fetches 0 (create_columns env c host hs)"
  by (induction hs) (auto intro!: costs_bind0)

lemma fetches_details: "fetches (length urls) (trial_details env topic s urls)"
proof (induction urls)
  case (Cons url urls)
  have one: "fetches 1 (etry (ebind (sd_fetch env url) (\<lambda>p. elift (judge_detail env topic s url p))))"
    by (intro costs_try costs_bind_last fetches_fetch) simp
  have rest: "fetches (length urls) (ebind (trial_details env topic s urls) (\<lambda>vs. ereturn (g # vs)))" for g
    by (intro costs_bind_last Cons.IH) simp
  have "fetches (1 + length urls) (trial_details env topic s (url # urls))"
    unfolding trial_details.simps by (rule costs_bind [OF one rest])
  then show ?case by simp
qed simp

lemma detail_urls_length: "detail_urls nfkc k topic page column shared es = Inr urls \<Longrightarrow> length urls \<le> k"
  by (auto simp: detail_urls_def rbind_Inr)

lemma fetches_trial_body: "fetches (1 + se_trial_documents env) (trial_body env r c col)"
proof -
  have fin: "fetches 0 (ebind (add_event env ft g e) (\<lambda>u. ebind (sd_commit env ft) (\<lambda>u. ereturn v)))" for ft g e v
    by (intro costs_bind0) simp_all
  show ?thesis unfolding trial_body_def Let_def
  proof (rule costs_bind [OF fetches_fetch], rule costs_bind0, simp, rule costs_bind0, goal_cases)
    case (1 w w' listing v v' body)
    show ?case by (auto simp: costs_def elift_def)
  next
    case (2 w w' listing v v' body u u' urls)
    then have le: "length urls \<le> se_trial_documents env" by (auto simp: elift_def dest: detail_urls_length)
    show ?case
      by (rule costs_bind0, rule costs_local, simp, rule costs_if, rule costs_mono [OF fin], simp,
          rule costs_mono [OF costs_bind [OF fetches_details fin]], use le in simp)
  qed
qed

lemma fetches_trial_column: "fetches (1 + se_trial_documents env) (trial_crawl_column env r c col)"
  unfolding trial_crawl_column_def Let_def
  by (rule costs_catch0 [OF fetches_trial_body]) (auto intro!: costs_bind0)

lemma fetches_trial: "fetches (length cols * (1 + se_trial_documents env)) (trial_crawl env r c cols)"
proof (induction cols)
  case (Cons col cols)
  have "fetches (length cols * (1 + se_trial_documents env)) (ebind (trial_crawl env r c cols) (\<lambda>cs. ereturn (k # cs)))" for k
    by (intro costs_bind_last Cons.IH) simp
  then have "fetches ((1 + se_trial_documents env) + length cols * (1 + se_trial_documents env)) (trial_crawl env r c (col # cols))"
    unfolding trial_crawl.simps by (rule costs_bind [OF fetches_trial_column])
  then show ?case by (simp only: list.size mult_Suc One_nat_def add_0_right add_Suc_right)
qed simp

definition candidate_budget :: "sd_env \<Rightarrow> nat" where
  "candidate_budget env = 1 + se_max_columns env * (1 + se_trial_documents env)"

lemma fetches_validate: "fetches 1 (validate_official env r c)"
  unfolding validate_official_def Let_def
proof (rule costs_bind_last [OF costs_try [OF fetches_fetch]], goal_cases)
  case (1 a)
  have logged: "fetches 0 (ebind (add_event env ft g e) (\<lambda>u. ebind (sd_commit env ft) (\<lambda>u. ereturn v)))" for ft g e and v :: "(fetched \<times> rat) option"
    by (intro costs_bind0) simp_all
  show ?case
  proof (cases a)
    case (Inr p)
    show ?thesis unfolding Inr sum.case
    proof (rule costs_bind0, simp, goal_cases)
      case (1 w w' es)
      show ?case by (cases es) (simp add: logged)
    qed
  qed (simp add: logged)
qed

lemma fetches_stages: "fetches (candidate_budget env) (candidate_stages env r c)"
  unfolding candidate_stages_def Let_def candidate_budget_def
proof (rule costs_bind [OF fetches_validate], goal_cases)
  case (1 w w' a)
  have d: "fetches 0 (discover_columns env r c p)" for p
    unfolding discover_columns_def Let_def by (auto intro!: costs_bind0 fetches_create_columns)
  show ?case
  proof (cases a)
    case None
    then show ?thesis by simp
  next
    case (Some ps)
    obtain p s where ps: "ps = (p, s)" by (cases ps)
    show ?thesis unfolding Some ps option.case prod.case
    proof (rule costs_bind0 [OF d], goal_cases)
      case (1 v v' cols)
      have le: "length cols \<le> se_max_columns env" using discover_columns_length 1 .
      have fail: "fetches 0 (ebind (add_event env ft g e) (\<lambda>u. sd_commit env ft))" for ft g e by (intro costs_bind0) simp_all
      have "fetches (length cols * (1 + se_trial_documents env)) (ebind (trial_crawl env r c cols) (\<lambda>cols. score_candidate env r c s cols))"
        unfolding score_candidate_def Let_def by (intro costs_bind_last fetches_trial fail)
      then have t: "fetches (se_max_columns env * (1 + se_trial_documents env))
          (ebind (trial_crawl env r c cols) (\<lambda>cols. score_candidate env r c s cols))"
        by (rule costs_mono) (use le in \<open>rule mult_le_mono1\<close>)
      show ?case
        by (rule costs_if, rule costs_mono [OF fail], simp, rule costs_bind0, rule costs_local, simp, rule t)
    qed
  qed
qed

lemma fetches_process: "fetches (candidate_budget env) (process_candidate env r c)"
  unfolding process_candidate_def Let_def
  by (rule costs_catch0 [OF fetches_stages]) (auto intro!: costs_bind0 split: option.split)

lemma fetches_take: "fetches 0 (take_candidate env r h home)"
  unfolding take_candidate_def Let_def
  by (auto intro!: costs_bind0 costs_catch0 split: option.split)

lemma fetches_hits: "fetches ((rd_max r - n) * candidate_budget env) (process_hits env r seen n hs)"
proof (induction hs arbitrary: seen n)
  case Nil
  then show ?case by simp
next
  case (Cons h hs)
  let ?B = "candidate_budget env"
  have ev: "fetches 0 (ecatch (ebind (add_event env ft g e) (\<lambda>u. sd_commit env ft)) (\<lambda>e. ebind (sd_rollback env ft') (\<lambda>u. eraise e)))" for ft g e ft'
    by (intro costs_catch0 costs_bind0) simp_all
  show ?case
  proof (cases "rd_max r \<le> n")
    case True
    then show ?thesis by simp
  next
    case False
    then have more: "(rd_max r - n) * ?B = ?B + (rd_max r - Suc n) * ?B"
      by (metis Suc_diff_Suc mult_Suc not_le)
    have taken: "fetches ((rd_max r - n) * ?B) (ebind (take_candidate env r h home) (\<lambda>found. case found of
           None \<Rightarrow> process_hits env r (home # seen) n hs
         | Some (c, previous) \<Rightarrow>
             ebind (ecatch (ebind (add_event env (se_fault env) (\<lambda>x. x) (stage_event (rd_id r) (Some (cn_id c))
                   ''candidate_discovery'' (map_option cand_status_name previous) ''discovered'')) (\<lambda>u. sd_commit env (se_fault env)))
               (\<lambda>e. ebind (sd_rollback env (se_cleanup env)) (\<lambda>u. eraise e))) (\<lambda>u.
             ebind (process_candidate env r c) (\<lambda>u.
             process_hits env r (home # seen) (Suc n) hs))))" for home
    proof (rule costs_bind0 [OF fetches_take], goal_cases)
      case (1 w w' found)
      show ?case
      proof (cases found)
        case None
        then show ?thesis using Cons.IH by simp
      next
        case (Some cp)
        obtain c p where cp: "cp = (c, p)" by (cases cp)
        show ?thesis unfolding Some cp option.case prod.case more
          by (rule costs_bind0 [OF ev], rule costs_bind [OF fetches_process Cons.IH])
      qed
    qed
    show ?thesis using False taken Cons.IH
      by (auto split: sum.split )
  qed
qed

text \<open>
  C12. One execution of a run gives the fetcher at most max_candidates * (1 + max_columns * (1 +
  trial_documents)) URLs, whatever the search provider and the pages answer and wherever
  statements fail; an execution that does not claim the run fetches nothing.
\<close>

theorem discovery_fetches_bounded:
  "length (sw_log (fst (execute_run env i w))) \<le> length (sw_log w) +
    (case snd (claim_run env i w) of
       Inr (Some r) \<Rightarrow> rd_max r * (1 + se_max_columns env * (1 + se_trial_documents env))
     | _ \<Rightarrow> 0)"
proof -
  have c: "length (sw_log (fst (claim_run env i w))) \<le> length (sw_log w)"
    using fetches_0_runs(4) [of env i] unfolding costs_def by (metis add.right_neutral)
  have none: "fetches 0 (ebind (existing_run env (se_fault env) i) (\<lambda>r.
        if rd_status r \<in> {RunNoGap, RunAwaiting, RunActivated} then ereturn r
        else eraise (AppError ''SOURCE_DISCOVERY_ALREADY_CLAIMED'' 409)))"
    by (intro costs_bind0 costs_if) simp_all
  have complete: "fetches 0 (complete_run env r n)" for r n
    unfolding complete_run_def Let_def by (intro costs_bind0) simp_all
  have body: "fetches (rd_max r * candidate_budget env) (ecatch (ebind (sd_search env r) (\<lambda>hits.
          ebind (process_hits env r [] 0 hits) (\<lambda>n. complete_run env r n))) h)" if "\<And>e. fetches 0 (h e)" for r h
    by (rule costs_catch0 [OF _ that], rule costs_bind0, simp, rule costs_bind_last [OF fetches_hits [of r 0 env, simplified] complete])
  obtain w' a where cw: "claim_run env i w = (w', a)" by (cases "claim_run env i w")
  show ?thesis
  proof (cases a)
    case (Inl e)
    then show ?thesis using c cw by (simp add: execute_run_def ebind_def)
  next
    case (Inr claimed)
    show ?thesis
    proof (cases claimed)
      case None
      then show ?thesis using c cw Inr none unfolding costs_def
        by (simp add: execute_run_def ebind_def [of "claim_run env i"]) (meson le_trans)
    next
      case (Some r)
      have h: "fetches (rd_max r * candidate_budget env) (ecatch (ebind (sd_search env r) (\<lambda>hits.
          ebind (process_hits env r [] 0 hits) (\<lambda>n. complete_run env r n)))
        (\<lambda>e. let ft = se_cleanup env in
          ebind (sd_rollback env ft) (\<lambda>u.
          ebind (get_run env ft i) (\<lambda>found. case found of
            None \<Rightarrow> eraise e
          | Some r \<Rightarrow>
              ebind (add_event env ft (set_run i (\<lambda>x. x\<lparr>rd_status := RunFailed, rd_finished := Some (se_now env),
                  rd_error := Some (exn_class e)\<rparr>))
                (stage_event i None ''run_failure'' (Some ''running'') ''failed'')) (\<lambda>u.
              ebind (save_run env ft i) (\<lambda>r. eraise e))))))"
        by (rule body) (auto simp: Let_def intro!: costs_bind0 split: option.split)
      then show ?thesis using c cw Inr Some unfolding costs_def candidate_budget_def
        by (simp add: execute_run_def ebind_def [of "claim_run env i"]) (meson add_le_mono1 le_trans)
    qed
  qed
qed

section \<open>Runs that end\<close>

text \<open>An invariant of the runs alone, which the processing of the candidates never touches.\<close>

definition runs_frame :: "sd_env \<Rightarrow> (sd_db \<Rightarrow> bool) \<Rightarrow> bool" where
  "runs_frame env J \<longleftrightarrow> others_keep env J \<and> (\<forall>x y. sd_runs x = sd_runs y \<longrightarrow> J x = J y)"

abbreviation kept :: "(sd_db \<Rightarrow> bool) \<Rightarrow> 'a sd \<Rightarrow> bool" where
  "kept J m \<equiv> keeps J m (\<lambda>a. True)"

lemma kept_bind: "kept J m \<Longrightarrow> (\<And>a. kept J (f a)) \<Longrightarrow> kept J (ebind m f)"
  by (rule keeps_bind)

lemma kept_simple [simp]: "kept J (ereturn a)" "kept J (eraise e)" "kept J (elift r)"
  by (simp_all add: keeps_return keeps_raise keeps_lift)

lemma kept_call: "runs_frame env J \<Longrightarrow> (\<And>x y a. f x = Inr (y, a) \<Longrightarrow> sd_runs y = sd_runs x) \<Longrightarrow> kept J (sd_call env ft f)"
  unfolding runs_frame_def by (rule keeps_call) metis+

lemma runs_updates [simp]:
  "sd_runs (set_candidate i f x) = sd_runs x" "sd_runs (set_column i g x) = sd_runs x" "sd_runs (reset_candidate i x) = sd_runs x"
  by (simp_all add: set_candidate_def set_column_def reset_candidate_def)

lemma kept_db:
  assumes "runs_frame env J"
  shows "kept J (sd_commit env ft)" "kept J (sd_rollback env ft)" "kept J (touch env ft)" "kept J (sd_query env ft q)"
    "kept J (get_run env ft i)" "kept J (get_candidate env ft i)" "kept J (sd_fetch env url)" "kept J (sd_search env d)"
    "kept J (create_column env col)" "kept J (create_candidate env c)"
    "(\<And>x. sd_runs (f x) = sd_runs x) \<Longrightarrow> kept J (add_event env ft f e)"
    "(\<And>x. sd_runs (f x) = sd_runs x) \<Longrightarrow> kept J (sd_write env ft f)"
proof -
  have k: "others_keep env J" using assms by (simp add: runs_frame_def)
  show "kept J (sd_commit env ft)" "kept J (sd_rollback env ft)" "kept J (touch env ft)" "kept J (sd_query env ft q)"
    "kept J (get_run env ft i)" "kept J (get_candidate env ft i)" "kept J (sd_fetch env url)" "kept J (sd_search env d)"
    using k by (simp_all add: keeps_commit keeps_rollback keeps_touch keeps_query get_run_def get_candidate_def keeps_fetch keeps_search)
  show "kept J (create_column env col)" "kept J (create_candidate env c)"
    unfolding create_column_def create_candidate_def by (auto intro!: kept_call [OF assms] split: if_splits)
  show "(\<And>x. sd_runs (f x) = sd_runs x) \<Longrightarrow> kept J (add_event env ft f e)"
    "(\<And>x. sd_runs (f x) = sd_runs x) \<Longrightarrow> kept J (sd_write env ft f)"
    unfolding add_event_def sd_write_def by (auto intro!: kept_call [OF assms])
qed

lemma kept_catch: "kept J m \<Longrightarrow> (\<And>e. kept J (h e)) \<Longrightarrow> kept J (ecatch m h)"
  by (rule keeps_catch)

lemma kept_try: "kept J m \<Longrightarrow> kept J (etry m)"
  by (rule keeps_top [OF keeps_try])

lemma kept_create_columns: "runs_frame env J \<Longrightarrow> kept J (create_columns env c host hs)"
  by (induction hs) (auto intro!: kept_bind kept_db)

lemma kept_details: "runs_frame env J \<Longrightarrow> kept J (trial_details env topic s urls)"
  by (induction urls) (auto intro!: kept_bind kept_try kept_db)

lemma kept_trial_column: "runs_frame env J \<Longrightarrow> kept J (trial_crawl_column env r c col)"
  unfolding trial_crawl_column_def trial_body_def Let_def
  by (intro kept_catch kept_bind kept_db keeps_if kept_details keeps_local kept_simple)
    (auto simp: keeps_def wp_def elift_def split: sum.split)

lemma kept_trial: "runs_frame env J \<Longrightarrow> kept J (trial_crawl env r c cols)"
  by (induction cols) (auto intro!: kept_bind kept_trial_column)

lemma kept_process:
  assumes f: "runs_frame env J"
  shows "kept J (process_candidate env r c)"
proof -
  have logged: "kept J (ebind (add_event env ft (set_candidate i g) e) (\<lambda>u. ebind (sd_commit env ft) (\<lambda>u. ereturn v)))"
    "kept J (ebind (add_event env ft (set_candidate i g) e) (\<lambda>u. sd_commit env ft))" for ft i g e and v :: 'v
    by (intro kept_bind kept_db [OF f] kept_simple; simp)+
  have v: "kept J (validate_official env r c)"
    unfolding validate_official_def Let_def
    by (intro kept_bind kept_try kept_db [OF f]) (auto intro!: kept_bind logged split: sum.split)
  have d: "kept J (discover_columns env r c p)" for p
    unfolding discover_columns_def Let_def
    by (intro kept_bind kept_create_columns [OF f] kept_simple keeps_if logged)
  have s: "kept J (score_candidate env r c k cols)" for k cols
    unfolding score_candidate_def Let_def by (rule logged)
  have l: "kept J (elocal (\<lambda>w. w\<lparr>sw_seen := []\<rparr>))" by (rule keeps_local) simp
  have "kept J (candidate_stages env r c)"
    unfolding candidate_stages_def Let_def
    by (rule kept_bind [OF v]) (auto intro!: kept_bind [OF d] logged kept_bind [OF l] kept_bind [OF kept_trial [OF f]] s split: option.split)
  then show ?thesis unfolding process_candidate_def Let_def
    by (rule kept_catch) (auto intro!: kept_bind kept_db [OF f] logged split: option.split)
qed

lemma kept_hits:
  assumes f: "runs_frame env J"
  shows "kept J (process_hits env r seen n hs)"
proof (induction hs arbitrary: seen n)
  case (Cons h hs)
  have t: "kept J (take_candidate env r h home)" for home
    unfolding take_candidate_def Let_def
    by (intro kept_bind kept_db [OF f])
      (auto intro!: kept_bind kept_catch kept_db [OF f] split: option.split)
  have e: "kept J (ecatch (ebind (add_event env ft (\<lambda>x. x) e) (\<lambda>u. sd_commit env ft)) (\<lambda>e. ebind (sd_rollback env ft') (\<lambda>u. eraise e)))" for ft ft' e
    by (intro kept_catch kept_bind kept_db [OF f] kept_simple) simp
  show ?case
    by (auto intro!: Cons.IH kept_bind [OF t] kept_bind [OF e] kept_bind [OF kept_process [OF f]] split: sum.split option.split)
qed simp

definition run_exists :: "int \<Rightarrow> sd_db \<Rightarrow> bool" where
  "run_exists i x \<longleftrightarrow> find_run i x \<noteq> None"

definition run_settled :: "int \<Rightarrow> sd_db \<Rightarrow> bool" where
  "run_settled i x \<longleftrightarrow> (case find_run i x of Some r \<Rightarrow> rd_status r = RunAwaiting \<or> rd_status r = RunFailed | None \<Rightarrow> False)"

lemma find_run_set: "(\<And>r. rd_id (f r) = rd_id r) \<Longrightarrow> find_run i (set_run i f x) = map_option f (find_run i x)"
proof -
  assume f: "\<And>r. rd_id (f r) = rd_id r"
  have "find (\<lambda>r. rd_id r = i) (map (\<lambda>r. if rd_id r = i then f r else r) rs) = map_option f (find (\<lambda>r. rd_id r = i) rs)" for rs
    by (induction rs) (auto simp: f)
  then show ?thesis by (simp add: find_run_def set_run_def)
qed

lemma settled_exists: "run_settled i x \<Longrightarrow> run_exists i x"
  by (auto simp: run_settled_def run_exists_def split: option.splits)

lemma settled_set:
  "run_exists i x \<Longrightarrow> (\<And>r. rd_id (f r) = rd_id r \<and> rd_status (f r) \<in> {RunAwaiting, RunFailed}) \<Longrightarrow>
    run_settled i ((set_run i f x)\<lparr>sd_events := es\<rparr>)"
  using find_run_set [of f i x] by (auto simp: run_settled_def run_exists_def find_run_def set_run_def split: option.splits)

definition leaves_run :: "int \<Rightarrow> sd_env \<Rightarrow> bool" where
  "leaves_run i env \<longleftrightarrow> (\<forall>n x. find_run i (se_others env n x) = find_run i x)"

lemma run_frames:
  "leaves_run i env \<Longrightarrow> runs_frame env (run_exists i)" "leaves_run i env \<Longrightarrow> runs_frame env (run_settled i)"
  by (auto simp: runs_frame_def others_keep_def leaves_run_def run_exists_def run_settled_def find_run_def split: option.splits)

lemma run_counts_id: "rd_id (run_counts i x r) = rd_id r"
  by (simp add: run_counts_def)

lemma flow_complete:
  assumes l: "leaves_run i env" and r: "rd_id r = i"
  shows "flow (run_exists i) (run_exists i) (run_exists i) (complete_run env r n) (\<lambda>a. run_settled i) (\<lambda>a. run_settled i)"
proof -
  let ?J = "run_exists i"
  note f = run_frames [OF l]
  have k: "others_keep env ?J" "others_keep env (run_settled i)" using f by (simp_all add: runs_frame_def)
  have counts: "keeps ?J (refresh_run_counts env ft j) (\<lambda>c. \<forall>r. rd_id (c r) = rd_id r)" for ft j
    unfolding refresh_run_counts_def
    by (rule keeps_bind [OF keeps_get_run [OF k(1)]], rule keeps_if, rule keeps_raise, rule keeps_query [OF k(1)])
      (simp add: run_counts_id)
  show ?thesis unfolding complete_run_def Let_def r
  proof (rule flow_bind_keeps [OF counts], simp, rule flow_bind_keeps [OF keeps_query [OF k(1), where Q = "\<lambda>c. True"]], simp, simp,
      unfold save_run_def, goal_cases)
    case (1 c cs)
    show ?case
    proof (rule flow_bind [where Sm = "\<lambda>u. ?J" and Wm = "\<lambda>u. run_settled i"], goal_cases)
      case 1
      show ?case unfolding add_event_def sd_write_def
        by (rule flow_call, rule k, rule k, assumption, assumption)
          (use \<open>\<forall>r. rd_id (c r) = rd_id r\<close> in \<open>cases "\<exists>c \<in> set cs. cn_status c = CandPending"; auto intro!: settled_set\<close>)
    next
      case (2 u)
      show ?case
      proof (rule flow_bind [OF flow_commit], goal_cases)
        case (5 u)
        show ?case
          by (rule flow_of_keeps [OF keeps_bind [OF keeps_get_run [OF k(2)], where R = "\<lambda>c. True"]])
            (auto simp: settled_exists intro!: keeps_return keeps_raise split: option.split)
      qed (use k settled_exists in auto)
    qed
  qed
qed

text \<open>The handler of a failed run, when its own statements succeed.\<close>

lemma handler_settles:
  assumes l: "leaves_run i env" and c: "se_cleanup env = (\<lambda>n. None)" and h: "holds (run_exists i) w"
  shows "run_settled i (sw_saved (fst ((let ft = se_cleanup env in
          ebind (sd_rollback env ft) (\<lambda>u.
          ebind (get_run env ft i) (\<lambda>found. case found of
            None \<Rightarrow> eraise e
          | Some r \<Rightarrow>
              ebind (add_event env ft (set_run i (\<lambda>x. x\<lparr>rd_status := RunFailed, rd_finished := Some (se_now env),
                  rd_error := Some (exn_class e)\<rparr>))
                (stage_event i None ''run_failure'' (Some ''running'') ''failed'')) (\<lambda>u.
              ebind (save_run env ft i) (\<lambda>r. eraise (e :: exn)))))) w)))"
proof -
  let ?f = "\<lambda>x. x\<lparr>rd_status := RunFailed, rd_finished := Some (se_now env), rd_error := Some (exn_class e)\<rparr>"
  have other: "find_run i (se_others env n x) = find_run i x" for n x using l by (simp add: leaves_run_def)
  have ex: "\<exists>r. find_run i (sw_saved w) = Some r" using h by (auto simp: holds_def run_exists_def)
  have "find_run i ((set_run i ?f y)\<lparr>sd_events := es\<rparr>) = map_option ?f (find_run i y)" for y es
    using find_run_set [of ?f i y] by (simp add: find_run_def)
  then show ?thesis using ex
    by (auto simp: c Let_def ebind_def sd_rollback_def sd_commit_def get_run_def sd_query_def sd_call_def add_event_def sd_write_def
        save_run_def sd_turn_def eraise_def ereturn_def other run_settled_def)
qed

text \<open>
  C7. A run that a worker has claimed never stays behind as running: whatever the provider
  answers and whichever statement of the work fails, the committed status is awaiting_approval
  or failed when the execution returns or raises, provided the statements of the last handler
  succeed and no other session touches the run's row.
\<close>

theorem run_settles:
  assumes "claim_run env i w = (w1, Inr (Some r))" "rd_id r = i" "leaves_run i env" "se_cleanup env = (\<lambda>n. None)"
    and "holds (run_exists i) w1"
  shows "run_settled i (sw_saved (fst (execute_run env i w)))"
proof -
  note f = run_frames(1) [OF assms(3)]
  have k: "others_keep env (run_exists i)" using f by (simp add: runs_frame_def)
  let ?m = "ebind (sd_search env r) (\<lambda>hits. ebind (process_hits env r [] 0 hits) (\<lambda>n. complete_run env r n))"
  have "flow (run_exists i) (run_exists i) (run_exists i) ?m (\<lambda>a. run_settled i) (\<lambda>a. run_settled i)"
    by (rule flow_bind_keeps [OF keeps_search [OF k]], simp, rule flow_bind_keeps [OF kept_hits [OF f]], simp,
        rule flow_complete [OF assms(3,2)])
  then have body: "wp ?m (\<lambda>a w. run_settled i (sw_saved w)) (\<lambda>e. holds (run_exists i)) w1"
    using assms(5) unfolding flow_def holds_def by (blast intro: wp_mono)
  obtain w2 a where m: "?m w1 = (w2, a)" by (cases "?m w1")
  show ?thesis
  proof (cases a)
    case (Inr v)
    then have "run_settled i (sw_saved w2)" using body m by (simp add: wp_def)
    then show ?thesis using m Inr by (simp add: execute_run_def ebind_def [of "claim_run env i"] assms(1) ecatch_def)
  next
    case (Inl e)
    then have "holds (run_exists i) w2" using body m by (simp add: wp_def)
    from handler_settles [OF assms(3,4) this, of e] show ?thesis
      using m Inl by (simp add: execute_run_def ebind_def [of "claim_run env i"] assms(1) ecatch_def Let_def)
  qed
qed

definition pending_db :: sd_db where
  "pending_db = sample_db\<lparr>sd_runs := [sample_run\<lparr>rd_status := RunPending\<rparr>], sd_cands := [], sd_cols := []\<rparr>"

definition failing_env :: sd_env where
  "failing_env = sample_sd_env\<lparr>se_search := (\<lambda>n q k. Inl (ProviderUnavailableError ''brave-source-discovery'' ''HTTP 503''))\<rparr>"

theorem run_settles_witness: "run_settled 1 (sw_saved (fst (execute_run failing_env 1 (session pending_db))))"
proof (rule run_settles)
  let ?r = "sample_run\<lparr>rd_status := RunRunning, rd_started := Some 7, rd_finished := None, rd_error := None, rd_attempts := 2\<rparr>"
  let ?db = "pending_db\<lparr>sd_runs := [?r]\<rparr>"
  let ?w = "\<lparr>sw_saved = ?db, sw_work = ?db, sw_tick = 3, sw_log = [], sw_seen = []\<rparr>"
  show "claim_run failing_env 1 (session pending_db) = (?w, Inr (Some ?r))"
    by (simp add: claim_run_def Let_def ebind_def sd_call_def sd_commit_def get_run_def sd_query_def sd_turn_def session_def
        failing_env_def sample_sd_env_def pending_db_def sample_db_def sample_run_def count_if_def find_run_def ereturn_def)
  show "rd_id ?r = 1" by (simp add: sample_run_def)
  show "leaves_run 1 failing_env" "se_cleanup failing_env = (\<lambda>n. None)"
    by (simp_all add: leaves_run_def failing_env_def sample_sd_env_def)
  show "holds (run_exists 1) ?w" by (simp add: holds_def run_exists_def find_run_def sample_run_def)
qed

text \<open>
  The read that follows the claim is outside the handler: when it fails the run stays running, and a
  run that is not failed cannot be retried.
\<close>

lemma claimed_run_stuck:
  "rd_status (hd (sd_runs (sw_saved (fst (execute_run (sample_sd_env\<lparr>se_fault := (\<lambda>n. if n = 2 then Some (OtherError ''OperationalError'')
     else None)\<rparr>) 1 (session pending_db)))))) = RunRunning"
  by (simp add: execute_run_def claim_run_def Let_def ebind_def sd_call_def sd_commit_def get_run_def sd_query_def sd_turn_def session_def
      sample_sd_env_def pending_db_def sample_db_def sample_run_def count_if_def find_run_def ereturn_def)

section \<open>What an activation publishes\<close>

lemma quiet_calls:
  assumes "quiet env"
  shows "sd_call env (se_fault env) f w = (case f (sw_work w) of
      Inl e \<Rightarrow> (w\<lparr>sw_tick := sw_tick w + 1\<rparr>, Inl e) | Inr (x, a) \<Rightarrow> (w\<lparr>sw_work := x, sw_tick := sw_tick w + 1\<rparr>, Inr a))"
    "sd_commit env (se_fault env) w = (w\<lparr>sw_saved := sw_work w, sw_tick := sw_tick w + 1\<rparr>, Inr ())"
  using assms by (auto simp: quiet_def sd_call_def sd_commit_def sd_turn_def Let_def split: sum.split)

lemma quiet_query [simp]:
  "quiet env \<Longrightarrow> sd_query env (se_fault env) f w = (w\<lparr>sw_tick := sw_tick w + 1\<rparr>, Inr (f (sw_work w)))"
  by (simp add: sd_query_def quiet_calls)

lemma quiet_event [simp]:
  "quiet env \<Longrightarrow> add_event env (se_fault env) f e w =
    (w\<lparr>sw_work := (f (sw_work w))\<lparr>sd_events := sd_events (f (sw_work w)) @ [e]\<rparr>, sw_tick := sw_tick w + 1\<rparr>, Inr ())"
  by (simp add: add_event_def sd_write_def quiet_calls)

lemma cands_set_candidate: "sd_cands (set_candidate i f x) = map (\<lambda>c. if cn_id c = i then f c else c) (sd_cands x)"
  by (simp add: set_candidate_def)

lemma find_candidate_set:
  assumes "\<And>c. cn_id (f c) = cn_id c"
  shows "find_candidate i (set_candidate i f x) = map_option f (find_candidate i x)"
proof -
  have "find (\<lambda>c. cn_id c = i) (map (\<lambda>c. if cn_id c = i then f c else c) cs) = map_option f (find (\<lambda>c. cn_id c = i) cs)" for cs
    by (induction cs) (auto simp: assms)
  then show ?thesis by (simp add: find_candidate_def set_candidate_def)
qed

lemma claim_unique:
  assumes d: "distinct (map cn_id (sd_cands x))" and c: "find_candidate i x = Some c"
    and u: "update_candidate i [CandApproved] (\<lambda>c. c\<lparr>cn_status := CandActivating\<rparr>) x = (y, 1)"
  shows "cn_status c = CandApproved" "find_candidate i y = Some (c\<lparr>cn_status := CandActivating\<rparr>)"
    "y = set_candidate i (\<lambda>c. c\<lparr>cn_status := CandActivating\<rparr>) x"
proof -
  let ?f = "\<lambda>c. c\<lparr>cn_status := CandActivating\<rparr>"
  have cm: "c \<in> set (sd_cands x)" "cn_id c = i" using c by (auto simp: find_candidate_def find_Some_iff)
  have only: "k = c" if "k \<in> set (sd_cands x)" "cn_id k = i" for k using d cm that by (auto simp: distinct_map inj_on_def)
  have "0 < count_if (\<lambda>c. cn_id c = i \<and> cn_status c = CandApproved) (sd_cands x)" using u by (simp add: update_candidate_def Let_def)
  then obtain k where "k \<in> set (sd_cands x)" "cn_id k = i" "cn_status k = CandApproved" by (auto simp: count_if_pos)
  then show a: "cn_status c = CandApproved" using only by blast
  have same: "map (\<lambda>c. if cn_id c = i \<and> cn_status c = CandApproved then ?f c else c) (sd_cands x)
      = map (\<lambda>c. if cn_id c = i then ?f c else c) (sd_cands x)"
    using only a by (intro map_cong) auto
  have "y = x\<lparr>sd_cands := map (\<lambda>c. if cn_id c = i \<and> cn_status c = CandApproved then ?f c else c) (sd_cands x)\<rparr>"
    using u by (simp add: update_candidate_def Let_def)
  then show y: "y = set_candidate i ?f x" unfolding same set_candidate_def .
  show "find_candidate i y = Some (?f c)" using c find_candidate_set [of ?f i x] by (simp add: y)
qed

lemma materialize_result:
  assumes q: "quiet env" and m: "materialize env c w = (w', Inr d)" and f: "find_candidate (cn_id c) (sw_work w) = Some c"
  shows "\<exists>s r. find_run (cn_run c) (sw_work w) = Some r
    \<and> s = new_source c r (live_columns (list_columns (se_nulls env) (cn_id c) (sw_work w)))\<lparr>ls_id := sd_next (sw_work w)\<rparr>
    \<and> ls_columns s \<noteq> [] \<and> sd_sources (sw_saved w') = sd_sources (sw_work w) @ [s]
    \<and> (\<exists>k. find_candidate (cn_id c) (sw_saved w') = Some k \<and> cn_status k = CandActivated \<and> cn_source k = Some (ls_id s))
    \<and> (\<exists>k. find_run (cn_run c) (sw_saved w') = Some k \<and> rd_status k = RunActivated
        \<and> rd_activated k = status_count (cn_run c) CandActivated (sw_work w))"
proof -
  let ?x = "sw_work w" and ?cols = "list_columns (se_nulls env) (cn_id c) (sw_work w)"
  have cols: "?cols \<noteq> []" using m q by (auto simp: materialize_def Let_def ebind_def eraise_def)
  obtain r where r: "find_run (cn_run c) ?x = Some r"
    using m q cols by (cases "find_run (cn_run c) ?x")
      (auto simp: materialize_def Let_def ebind_def existing_run_def get_run_def eraise_def)
  have rid: "rd_id r = cn_run c" using r by (auto simp: find_run_def find_Some_iff)
  have live: "live_columns ?cols \<noteq> []"
    using m q cols r by (auto simp: materialize_def Let_def ebind_def existing_run_def get_run_def eraise_def ereturn_def)
  let ?s = "new_source c r (live_columns ?cols)"
  have ins: "\<not> ((\<exists>k \<in> set (sd_sources ?x). ls_key k = ls_key ?s) \<or> \<not> distinct (map lc_key (ls_columns ?s)))"
    using m q cols r live
    by (auto simp: materialize_def Let_def ebind_def existing_run_def get_run_def eraise_def ereturn_def insert_source_def quiet_calls
        split: if_splits)
  let ?x1 = "?x\<lparr>sd_sources := sd_sources ?x @ [?s\<lparr>ls_id := sd_next ?x\<rparr>], sd_next := sd_next ?x + 1\<rparr>"
  let ?live = "\<lambda>k. k\<lparr>cn_source := Some (sd_next ?x), cn_status := CandActivated,
           cn_approved_at := (case cn_approved_at c of Some t \<Rightarrow> Some t | None \<Rightarrow> Some (se_now env))\<rparr>"
  let ?run = "\<lambda>k. (run_counts (cn_run c) ?x1 k)\<lparr>rd_status := RunActivated\<rparr>"
  have r1: "find_run (cn_run c) ?x1 = Some r" using r by (simp add: find_run_def)
  have saved: "\<exists>es. sw_saved w' = (set_run (cn_run c) ?run (set_candidate (cn_id c) ?live ?x1))\<lparr>sd_events := es\<rparr>"
    using m q cols r r1 rid live ins
    by (auto simp: materialize_def Let_def ebind_def existing_run_def get_run_def eraise_def ereturn_def insert_source_def quiet_calls
        refresh_run_counts_def save_run_def split: if_splits option.splits)
  then obtain es where sv: "sw_saved w' = (set_run (cn_run c) ?run (set_candidate (cn_id c) ?live ?x1))\<lparr>sd_events := es\<rparr>" by blast
  have "find_candidate (cn_id c) (set_candidate (cn_id c) ?live ?x1) = Some (?live c)"
    using f find_candidate_set [of ?live "cn_id c" ?x1] by (simp add: find_candidate_def)
  then have k: "find_candidate (cn_id c) (sw_saved w') = Some (?live c)" by (simp add: sv find_candidate_def set_run_def)
  have "find_run (cn_run c) (set_run (cn_run c) ?run (set_candidate (cn_id c) ?live ?x1)) = Some (?run r)"
    using r find_run_set [of ?run "cn_run c" "set_candidate (cn_id c) ?live ?x1"]
    by (simp add: run_counts_id find_run_def)
  then have kr: "find_run (cn_run c) (sw_saved w') = Some (?run r)" by (simp add: sv find_run_def)
  have "sd_sources (sw_saved w') = sd_sources ?x @ [?s\<lparr>ls_id := sd_next ?x\<rparr>]" by (simp add: sv set_run_def set_candidate_def)
  then show ?thesis
    using k kr r live by (intro exI [of _ "?s\<lparr>ls_id := sd_next ?x\<rparr>"] exI [of _ r]) (simp add: new_source_def run_counts_def status_count_def)
qed

lemma activate_result:
  assumes q: "quiet env" and d: "distinct (map cn_id (sd_cands x))" and c: "find_candidate i x = Some c"
    and n: "cn_status c \<noteq> CandActivated" and a: "activate env i (session x) = (w', Inr e)"
  shows "cn_status c = CandApproved \<and> (\<exists>w. materialize env (c\<lparr>cn_status := CandActivating\<rparr>) w = (w', Inr e)
    \<and> sw_work w = set_candidate i (\<lambda>c. c\<lparr>cn_status := CandActivating\<rparr>) x
    \<and> find_candidate i (sw_work w) = Some (c\<lparr>cn_status := CandActivating\<rparr>))"
proof -
  obtain y k where u: "update_candidate i [CandApproved] (\<lambda>c. c\<lparr>cn_status := CandActivating\<rparr>) x = (y, k)"
    by (cases "update_candidate i [CandApproved] (\<lambda>c. c\<lparr>cn_status := CandActivating\<rparr>) x")
  have k: "k = 1"
    using a q c n u
    by (auto simp: activate_def Let_def ebind_def existing_candidate_def get_candidate_def session_def ereturn_def eraise_def
        claim_candidate_activation_def claim_candidate_def quiet_calls split: if_splits option.splits)
  note cu = claim_unique [OF d c u [unfolded k]]
  have never: "(if e0 = OtherError ''IntegrityError'' then
             ebind (mark_activation_failed env i ''SOURCE_KEY_CONFLICT'') (\<lambda>u.
             eraise (ConflictError ''Source activation conflicts with an existing source''))
           else case app_code e0 of
             Some code \<Rightarrow> ebind (mark_activation_failed env i code) (\<lambda>u. eraise e0)
           | None \<Rightarrow> ebind (mark_activation_failed env i (exn_class e0)) (\<lambda>u.
               eraise (AppError ''SOURCE_ACTIVATION_FAILED'' 503))) v \<noteq> (w', Inr e)" for e0 v
    by (auto simp: ebind_def eraise_def split: option.split prod.split sum.split)
  let ?w = "(session x)\<lparr>sw_work := y, sw_saved := y, sw_tick := Suc (Suc (Suc (Suc 0)))\<rparr>"
  have step: "activate env i (session x) = ecatch (materialize env (c\<lparr>cn_status := CandActivating\<rparr>)) (\<lambda>e.
           if e = OtherError ''IntegrityError'' then
             ebind (mark_activation_failed env i ''SOURCE_KEY_CONFLICT'') (\<lambda>u.
             eraise (ConflictError ''Source activation conflicts with an existing source''))
           else case app_code e of
             Some code \<Rightarrow> ebind (mark_activation_failed env i code) (\<lambda>u. eraise e)
           | None \<Rightarrow> ebind (mark_activation_failed env i (exn_class e)) (\<lambda>u.
               eraise (AppError ''SOURCE_ACTIVATION_FAILED'' 503))) ?w"
    using q c n u cu(2) k
    by (simp add: activate_def Let_def ebind_def existing_candidate_def get_candidate_def session_def ereturn_def
        claim_candidate_activation_def claim_candidate_def quiet_calls)
  have "materialize env (c\<lparr>cn_status := CandActivating\<rparr>) ?w = (w', Inr e)"
  proof (cases "materialize env (c\<lparr>cn_status := CandActivating\<rparr>) ?w")
    case (Pair v r)
    show ?thesis
    proof (cases r)
      case (Inl e0)
      then show ?thesis using a never [of e0 v] Pair unfolding step by (simp add: ecatch_def)
    next
      case (Inr b)
      then show ?thesis using a Pair unfolding step by (simp add: ecatch_def)
    qed
  qed
  then show ?thesis using cu by (intro conjI exI [of _ ?w]) simp_all
qed


definition approved_db :: sd_db where
  "approved_db = sample_db\<lparr>sd_cands := [sample_candidate\<lparr>cn_status := CandApproved, cn_approver := Some (asc ''admin'')\<rparr>]\<rparr>"


text \<open>
  The counters of the run are read before the new status is flushed: they miss the candidate that has
  just been activated.
\<close>

lemma activation_not_counted:
  assumes "quiet env" "distinct (map cn_id (sd_cands x))" "find_candidate i x = Some c" "cn_status c \<noteq> CandActivated"
    and "activate env i (session x) = (w', Inr e)"
  shows "\<exists>r. find_run (cn_run c) (sw_saved w') = Some r \<and> rd_activated r = status_count (cn_run c) CandActivated x"
proof -
  have ci: "cn_id c = i" using assms(3) by (auto simp: find_candidate_def find_Some_iff)
  from activate_result [OF assms] obtain w where m: "materialize env (c\<lparr>cn_status := CandActivating\<rparr>) w = (w', Inr e)"
    and w: "sw_work w = set_candidate i (\<lambda>c. c\<lparr>cn_status := CandActivating\<rparr>) x"
      "find_candidate i (sw_work w) = Some (c\<lparr>cn_status := CandActivating\<rparr>)" by blast
  have cm: "c \<in> set (sd_cands x)" using assms(3) by (auto simp: find_candidate_def find_Some_iff)
  have only: "k = c" if "k \<in> set (sd_cands x)" "cn_id k = i" for k
    using assms(2) cm ci that by (auto simp: distinct_map inj_on_def)
  have same: "filter (\<lambda>k. cn_run k = j \<and> cn_status k = CandActivated)
      (map (\<lambda>k. if cn_id k = i then k\<lparr>cn_status := CandActivating\<rparr> else k) ks)
    = filter (\<lambda>k. cn_run k = j \<and> cn_status k = CandActivated) ks"
    if "\<And>k. k \<in> set ks \<Longrightarrow> cn_id k = i \<Longrightarrow> cn_status k \<noteq> CandActivated" for ks j
    using that by (induction ks) auto
  have "status_count (cn_run c) CandActivated (sw_work w) = status_count (cn_run c) CandActivated x"
    unfolding w(1) status_count_def count_if_def cands_set_candidate
    by (subst same) (use only assms(4) in auto)
  with materialize_result [OF assms(1) m] w(2) ci show ?thesis by auto
qed

text \<open>
  A failure of the read that follows the last commit of an activation: the source is live, and its
  candidate is marked as failed.
\<close>

definition late_fault_env :: sd_env where
  "late_fault_env = sample_sd_env\<lparr>se_fault := (\<lambda>n. if n = 11 then Some (OtherError ''OperationalError'') else None)\<rparr>"

lemma live_source_failed_candidate:
  "map ls_key (sd_sources (sw_saved (fst (activate late_fault_env 2 (session approved_db))))) = [2]"
  "map cn_status (sd_cands (sw_saved (fst (activate late_fault_env 2 (session approved_db))))) = [CandFailed]"
  by code_simp+

text \<open>The event of a rejection states the status after the update as the status before.\<close>

lemma rejection_event_status:
  "map ev_from (sd_events (sw_saved (fst (reject sample_sd_env 2 (asc ''admin'') (Some (asc ''off topic'')) (session sample_db))))) = [Some ''rejected'']"
  by code_simp

text \<open>
  An approval while the worker is still at the last candidates: the run ends as failed, although its
  only candidate is approved.
\<close>

definition approving_env :: sd_env where
  "approving_env = sample_sd_env\<lparr>se_others := (\<lambda>n. if n = 3 then set_candidate 2 (\<lambda>c. if cn_status c = CandPending
     then c\<lparr>cn_status := CandApproved, cn_approver := Some (asc ''admin'')\<rparr> else c) else (\<lambda>x. x))\<rparr>"

lemma approved_run_failed:
  "(let x = sw_saved (fst (execute_run approving_env 1 (session (sample_db\<lparr>sd_runs := [sample_run\<lparr>rd_status := RunPending\<rparr>]\<rparr>))))
    in (map rd_status (sd_runs x), map rd_approved (sd_runs x), map cn_status (sd_cands x)))
   = ([RunFailed], [1], [CandApproved])"
  by code_simp

end
