(* ===== verification/SourceGap.thy ===== *)
theory SourceGap
  imports SourceDiscovery
begin

text \<open>
  The gap query of the source discovery: its escaped \<open>LIKE\<close> pattern matches a topic literally, so the
  two counts are those of a plain search for the text.
\<close>

section \<open>The literal match of a topic\<close>

text \<open>
  SQL's \<open>LIKE\<close> with the escape character \<open>\\<close>: \<open>%\<close> stands for any text and \<open>_\<close> for one character.
\<close>

fun like :: "ustr \<Rightarrow> ustr \<Rightarrow> bool" where
  "like [] s = (s = [])"
| "like (p # ps) s =
    (if p = 37 then (\<exists>k \<le> length s. like ps (drop k s))
     else if p = 95 then s \<noteq> [] \<and> like ps (tl s)
     else if p = 92 then (case ps of [] \<Rightarrow> False | q # qs \<Rightarrow> s \<noteq> [] \<and> hd s = q \<and> like qs (tl s))
     else s \<noteq> [] \<and> hd s = p \<and> like ps (tl s))"

definition wild :: "int \<Rightarrow> bool" where
  "wild c \<longleftrightarrow> c = 37 \<or> c = 92 \<or> c = 95"

definition literal_pattern :: "ustr \<Rightarrow> ustr" where
  "literal_pattern s = concat (map (\<lambda>c. if wild c then [92, c] else [c]) s)"

lemma replace_char: "replace_all [c] new s = concat (map (\<lambda>x. if x = c then new else [x]) s)"
  by (induction s) (auto simp: replace_all_Cons)

lemma escape_literal: "escape_like s = [37] @ literal_pattern s @ [37]"
proof -
  have "replace_all [95] [92, 95] (replace_all [37] [92, 37] (replace_all [92] [92, 92] s)) = literal_pattern s"
    unfolding replace_char literal_pattern_def by (induction s) (auto simp: wild_def)
  then show ?thesis by (simp add: escape_like_def)
qed

lemma like_literal: "like (literal_pattern p @ ps) s \<longleftrightarrow> (\<exists>t. s = p @ t \<and> like ps t)"
proof (induction p arbitrary: s)
  case (Cons c p)
  have "like (literal_pattern (c # p) @ ps) s \<longleftrightarrow> s \<noteq> [] \<and> hd s = c \<and> like (literal_pattern p @ ps) (tl s)"
    by (simp add: literal_pattern_def wild_def)
  also have "\<dots> \<longleftrightarrow> (\<exists>t. s = (c # p) @ t \<and> like ps t)" unfolding Cons.IH by (cases s) auto
  finally show ?case .
qed (simp add: literal_pattern_def)

lemma like_any: "like (37 # ps) s \<longleftrightarrow> (\<exists>k \<le> length s. like ps (drop k s))"
  by simp

lemma like_rest: "like [37] t"
  by (auto intro: exI [of _ "length t"])

lemma like_escaped: "like (escape_like p) s \<longleftrightarrow> contains s p"
proof -
  have "like (escape_like p) s \<longleftrightarrow> (\<exists>k \<le> length s. \<exists>t. drop k s = p @ t)"
    unfolding escape_literal append_Cons append_Nil like_any like_literal using like_rest by simp
  also have "\<dots> \<longleftrightarrow> contains s p"
    unfolding contains_iff
  proof
    assume "\<exists>k \<le> length s. \<exists>t. drop k s = p @ t"
    then show "\<exists>a b. s = a @ p @ b" by (metis append_take_drop_id)
  next
    assume "\<exists>a b. s = a @ p @ b"
    then obtain a b where "s = a @ p @ b" by blast
    then show "\<exists>k \<le> length s. \<exists>t. drop k s = p @ t" by (intro exI [of _ "length a"]) simp
  qed
  finally show ?thesis .
qed

text \<open>\<open>ILIKE\<close> compares case-folded texts; the folding of the database is a parameter.\<close>

definition ilike :: "(int \<Rightarrow> int) \<Rightarrow> ustr \<Rightarrow> ustr \<Rightarrow> bool" where
  "ilike fold_case p s = like (map fold_case p) (map fold_case s)"

definition mentions :: "(int \<Rightarrow> int) \<Rightarrow> ustr \<Rightarrow> ustr \<Rightarrow> bool" where
  "mentions fold_case topic s = contains (map fold_case s) (map fold_case topic)"

lemma fold_literal:
  assumes "\<And>c. wild (fold_case c) = wild c" "\<And>c. wild c \<Longrightarrow> fold_case c = c"
  shows "map fold_case (escape_like p) = escape_like (map fold_case p)"
proof -
  have w: "fold_case 37 = 37" "fold_case 92 = 92" using assms(2) by (simp_all add: wild_def)
  have "map fold_case (literal_pattern p) = literal_pattern (map fold_case p)"
    unfolding literal_pattern_def by (induction p) (simp_all add: assms(1) w)
  then show ?thesis by (simp add: escape_literal w)
qed

lemma ilike_escaped:
  assumes "\<And>c. wild (fold_case c) = wild c" "\<And>c. wild c \<Longrightarrow> fold_case c = c"
  shows "ilike fold_case (escape_like p) s \<longleftrightarrow> mentions fold_case p s"
  by (simp add: ilike_def mentions_def fold_literal [OF assms] like_escaped)

definition covers :: "(int \<Rightarrow> int) \<Rightarrow> ustr \<Rightarrow> covered_document \<Rightarrow> bool" where
  "covers fold_case topic g \<longleftrightarrow> gd_enabled g \<and> gd_status g \<in> {''approved'', ''indexed''}
    \<and> (mentions fold_case topic (gd_title g) \<or> (\<exists>t. gd_content g = Some t \<and> mentions fold_case topic t))"

text \<open>
  C13. The gap query, with its escaped LIKE pattern, counts exactly the enabled sources and the
  approved or indexed documents whose title or content contains the stripped topic literally (up
  to the case folding of the database, whatever wildcards and escapes the topic contains), and
  reports a gap iff one count is below what is required.
\<close>

theorem content_gap_literal:
  assumes "\<And>c. wild (fold_case c) = wild c" "\<And>c. wild c \<Longrightarrow> fold_case c = c" "region \<noteq> Some []"
  shows "content_gap (ilike fold_case) topic region k l x =
    (let sources = card (gd_source ` {g \<in> set (sd_documents x). covers fold_case (strip topic) g \<and> region \<in> {None, gd_source_region g}});
         documents = count_if (\<lambda>g. covers fold_case (strip topic) g \<and> region \<in> {None, gd_region g}) (sd_documents x)
     in (sources, documents, sources < k \<or> documents < l))"
proof -
  have c: "(case region of Some r \<Rightarrow> r \<noteq> [] | None \<Rightarrow> False) \<longleftrightarrow> region \<noteq> None" using assms(3) by (cases region) auto
  have i: "ilike fold_case (escape_like p) s = mentions fold_case p s" for p s
    using assms(1,2) by (rule ilike_escaped)
  have m: "(gd_enabled g \<and> gd_status g \<in> {''approved'', ''indexed''}
           \<and> (ilike fold_case (escape_like p) (gd_title g)
              \<or> (case gd_content g of Some t \<Rightarrow> ilike fold_case (escape_like p) t | None \<Rightarrow> False)))
        = covers fold_case p g" for p g
    unfolding covers_def i by (cases "gd_content g") simp_all
  have card: "length (nub (map f gs)) = card (f ` set gs)" for f and gs :: "covered_document list"
    by (metis distinct_card distinct_nub set_nub list.set_map)
  have r: "(region \<noteq> None \<longrightarrow> r = region) \<longleftrightarrow> region \<in> {None, r}" for r by auto
  show ?thesis
    unfolding content_gap_def c Let_def m card r by (simp add: count_if_def conj_commute)
qed

definition gap_sample :: "ustr \<Rightarrow> covered_document" where
  "gap_sample title = \<lparr>gd_source = 4, gd_enabled = True, gd_source_region = None, gd_region = None, gd_status = ''indexed'',
    gd_title = title, gd_content = None\<rparr>"

definition gap_db :: sd_db where
  "gap_db = \<lparr>sd_runs = [], sd_cands = [], sd_cols = [], sd_events = [], sd_sources = [],
    sd_documents = [gap_sample (asc ''about 100% done''), gap_sample (asc ''1000'')], sd_next = 4\<rparr>"

definition ascii_fold :: "int \<Rightarrow> int" where
  "ascii_fold c = (if 65 \<le> c \<and> c \<le> 90 then c + 32 else c)"

theorem content_gap_literal_witness:
  "content_gap (ilike ascii_fold) (asc ''100%'') None 2 3 gap_db =
    (let sources = card (gd_source ` {g \<in> set (sd_documents gap_db). covers ascii_fold (strip (asc ''100%'')) g \<and> None \<in> {None, gd_source_region g}});
         documents = count_if (\<lambda>g. covers ascii_fold (strip (asc ''100%'')) g \<and> None \<in> {None, gd_region g}) (sd_documents gap_db)
     in (sources, documents, sources < 2 \<or> documents < 3))"
  unfolding Let_def by (rule content_gap_literal [unfolded Let_def]) (auto simp: wild_def ascii_fold_def)

end
