(* ===== verification/CrawlPages.thy ===== *)
theory CrawlPages
  imports Fetching
begin

text \<open>
  The functions of \<open>backend/app/crawler/generic.py\<close> and \<open>site_rules.py\<close> that read one page or one API
  reply: which links of a list page are articles, which page comes next, what a detail page holds,
  and how errors are classified. The HTML library (BeautifulSoup) is the parameter \<open>html_lib\<close>: it
  parses a text into a tree of its own type, selects elements and removes some. Of an element the
  code reads what \<open>dom_node\<close> records. Configurations and API replies are decoded JSON.
\<close>

section \<open>The HTML library\<close>

text \<open>
  \<open>dn_text\<close> and \<open>dn_lines\<close> are \<open>get_text(" ", strip=True)\<close> and \<open>get_text("\n", strip=True)\<close>; an
  attribute that is missing or not a text is \<open>None\<close>.
\<close>

record dom_node =
  dn_id :: nat
  dn_name :: ustr
  dn_text :: ustr
  dn_lines :: ustr
  dn_attr :: "ustr \<Rightarrow> ustr option"
  dn_classes :: "ustr list"
  dn_parent_classes :: "ustr list"

text \<open>
  \<open>select\<close> on the tree with a configured selector may raise; on an element only constant selectors
  are used. \<open>hl_prune\<close> removes the elements below an element that a selector matches; \<open>hl_node\<close> reads
  an element in the tree as it is then.
\<close>

record 'd html_lib =
  hl_parse :: "ustr \<Rightarrow> 'd"
  hl_select :: "'d \<Rightarrow> ustr \<Rightarrow> exn + dom_node list"
  hl_within :: "'d \<Rightarrow> nat \<Rightarrow> ustr \<Rightarrow> dom_node list"
  hl_prune :: "'d \<Rightarrow> nat \<Rightarrow> ustr \<Rightarrow> 'd"
  hl_node :: "'d \<Rightarrow> nat \<Rightarrow> dom_node"
  hl_title :: "'d \<Rightarrow> ustr option"

definition select_one :: "'d html_lib \<Rightarrow> 'd \<Rightarrow> ustr \<Rightarrow> exn + dom_node option" where
  "select_one lib doc sel = rbind (hl_select lib doc sel) (\<lambda>ns. Inr (case ns of [] \<Rightarrow> None | n # _ \<Rightarrow> Some n))"

definition dn_href :: "dom_node \<Rightarrow> ustr option" where
  "dn_href n = dn_attr n (asc ''href'')"

text \<open>An attribute that the code tests for being a non-empty text.\<close>

definition some_text :: "ustr option \<Rightarrow> ustr option" where
  "some_text v = (case v of Some s \<Rightarrow> if s = [] then None else Some s | None \<Rightarrow> None)"

section \<open>Constants\<close>

definition article_path_terms :: "ustr list" where
  "article_path_terms = [asc ''/art/'', asc ''/article/'', asc ''/content/'', asc ''/detail/'', asc ''/news/'',
    asc ''/xxgk/'', asc ''/zwgk/'', asc ''/zc/'', asc ''/zcwj/'', asc ''/zcfg/'', asc ''/tzgg/'', asc ''/wjfb/'',
    asc ''/notice/'', [47, 20844, 21578, 47], [47, 36890, 30693, 47]]"

definition article_text_terms :: "ustr list" where
  "article_text_terms = [[36890, 30693], [20844, 21578], [25919, 31574], [35268, 23450], [21150, 27861], [24847, 35265], [26041, 26696], [35268, 21010], [26631, 20934], [26465, 20363], [32454, 21017],
    [35299, 35835], [21517, 21333], [20844, 31034], [25209, 22797], [20915, 23450], [25253, 21578], asc ''article'', asc ''policy'', asc ''notice'', asc ''announcement'']"

definition navigation_terms :: "ustr list" where
  "navigation_terms = [[30331, 24405], [27880, 20876], [25628, 32034], [20998, 20139], [39318, 39029], [36820, 22238, 39030, 37096], [25171, 21360], [23383, 20307], [19978, 19968, 39029], [19979, 19968, 39029],
    asc ''next'', asc ''prev'', [26356, 22810], [32593, 31449, 22320, 22270], [22791, 26696], [38544, 31169], [32852, 31995, 25105, 20204]]"

definition next_terms :: "ustr list" where
  "next_terms = [[19979, 19968, 39029], [19979, 39029], [21518, 19968, 39029], asc ''next'', [19979, 19968, 31687]]"

definition page_parameters :: "ustr list" where
  "page_parameters = [asc ''page'', asc ''p'', asc ''pagenum'', asc ''page_num'', asc ''pageindex'', asc ''page_index'', asc ''pn'']"

definition non_article_extensions :: "ustr list" where
  "non_article_extensions = [asc ''.css'', asc ''.js'', asc ''.json'', asc ''.xml'', asc ''.jpg'', asc ''.jpeg'', asc ''.png'',
    asc ''.gif'', asc ''.webp'', asc ''.svg'', asc ''.ico'', asc ''.mp4'', asc ''.mp3'', asc ''.wav'', asc ''.pdf'', asc ''.doc'',
    asc ''.docx'', asc ''.xls'', asc ''.xlsx'', asc ''.zip'', asc ''.rar'']"

definition attachment_extensions :: "ustr list" where
  "attachment_extensions = [asc ''.pdf'', asc ''.doc'', asc ''.docx'', asc ''.xls'', asc ''.xlsx'', asc ''.txt'', asc ''.zip'',
    asc ''.rar'', asc ''.jpg'', asc ''.jpeg'', asc ''.png'', asc ''.gif'', asc ''.webp'']"

definition date_path_rx :: rx where
  "date_path_rx = seqs [lit (asc ''/''), rwords [asc ''19'', asc ''20''], rtimes 2 2 Digit,
     rtimes 0 2 (seqs [any_of (asc ''-_/''), rtimes 1 2 Digit]), alts [lit (asc ''/''), Eol]]"
definition numeric_id_rx :: rx where
  "numeric_id_rx = seqs [alts [Bol, any_of (asc ''/_-'')], Rep True 3 None Digit, alts [Eol,
     any_of (asc ''/_.-'')]]"
definition api_hint_rx :: rx where
  "api_hint_rx = seqs [any_of [34, 39], Grp ''url'' (alts [seqs [ilit (asc ''http''),
     ropt (ilit (asc ''s'')), lit (asc ''://''), rplus (none_of [34, 39])],
     seqs [lit (asc ''/''), rstar (none_of [34, 39]), iwords [asc ''api'', asc ''ajax'',
     asc ''json''], rstar (none_of [34, 39])]]), any_of [34, 39]]"

section \<open>Data\<close>

record crawled_attachment =
  ca_name :: ustr
  ca_url :: ustr
  ca_type :: "ustr option"

record crawled_document =
  cd_title :: ustr
  cd_url :: ustr
  cd_html :: ustr
  cd_text :: ustr
  cd_date :: "ustr option"
  cd_attachments :: "crawled_attachment list"
  cd_method :: string
  cd_ocr :: bool
  cd_images :: "ustr list"
  cd_alts :: "ustr list"
  cd_warnings :: "string list"
  cd_score :: int

record crawl_failure =
  cf_url :: ustr
  cf_stage :: string
  cf_code :: string
  cf_message :: ustr
  cf_retryable :: bool

type_synonym config = "(ustr, json) dict"

record candidate_link =
  cl_url :: ustr
  cl_text :: ustr
  cl_score :: int
  cl_reasons :: "ustr list"
  cl_item :: "config option"

text \<open>What else the functions take from outside, with the library.\<close>

record 'd page_env =
  pe_lib :: "'d html_lib"
  pe_nfkc :: "ustr \<Rightarrow> ustr"
  pe_text :: "fetched \<Rightarrow> exn + ustr"                       \<comment> \<open>the property \<open>text\<close> of a response\<close>
  pe_loads :: "ustr \<Rightarrow> exn + json"
  pe_dumps :: "json \<Rightarrow> ustr"
  pe_str :: "json \<Rightarrow> ustr"                               \<comment> \<open>\<open>str\<close> of a value that is no text\<close>
  pe_format :: "ustr \<Rightarrow> config \<Rightarrow> exn + ustr"             \<comment> \<open>\<open>template.format(**values)\<close>\<close>
  pe_message :: "exn \<Rightarrow> ustr"                            \<comment> \<open>\<open>str\<close> of an exception the code did not raise itself\<close>
  pe_http_status :: "exn \<Rightarrow> int option"                  \<comment> \<open>the status of the response an exception carries\<close>

definition json_str :: "'d page_env \<Rightarrow> json \<Rightarrow> ustr" where
  "json_str env j = (case j of JStr s \<Rightarrow> s | _ \<Rightarrow> pe_str env j)"

section \<open>Configuration\<close>

definition cget :: "config \<Rightarrow> string \<Rightarrow> json" where
  "cget c k = jget c (asc k)"

definition optional_selector :: "config \<Rightarrow> string \<Rightarrow> ustr option" where
  "optional_selector c k = (case cget c k of JStr s \<Rightarrow> some_text (Some (strip s)) | _ \<Rightarrow> None)"

definition int_config :: "config \<Rightarrow> string \<Rightarrow> int \<Rightarrow> exn + int" where
  "int_config c k default_value =
    (let v = dget_or c (asc k) (JInt default_value) in
     if is_number v \<or> (case v of JStr s \<Rightarrow> True | _ \<Rightarrow> False)
     then (case json_int v of
         Inr n \<Rightarrow> Inr (if 0 < n then n else default_value)
       | Inl e \<Rightarrow> if is_value_error e then Inr default_value else Inl e)
     else Inr default_value)"

record site_rules =
  sr_host :: "ustr option"
  sr_mode :: ustr
  sr_list :: config
  sr_pagination :: config
  sr_detail :: config
  sr_attachments :: config
  sr_enabled :: bool

definition config_of :: "json \<Rightarrow> config" where
  "config_of j = (case j of JObj d \<Rightarrow> d | _ \<Rightarrow> [])"

definition config_text :: "json \<Rightarrow> ustr option" where
  "config_text j = (case j of JStr s \<Rightarrow> some_text (Some (strip s)) | _ \<Rightarrow> None)"

definition no_rules :: site_rules where
  "no_rules = \<lparr>sr_host = None, sr_mode = asc ''html'', sr_list = [], sr_pagination = [], sr_detail = [],
    sr_attachments = [], sr_enabled = True\<rparr>"

definition rules_of :: "config \<Rightarrow> site_rules" where
  "rules_of v =
    (if v = [] then no_rules
     else \<lparr>sr_host = config_text (cget v ''host''),
       sr_mode = (case config_text (cget v ''mode'') of Some m \<Rightarrow> m | None \<Rightarrow> asc ''html''),
       sr_list = config_of (cget v ''list''), sr_pagination = config_of (cget v ''pagination''),
       sr_detail = config_of (cget v ''detail''), sr_attachments = config_of (cget v ''attachments''),
       sr_enabled = (cget v ''enabled'' \<noteq> JBool False)\<rparr>)"

definition merged_rules :: "site_rules \<Rightarrow> config" where
  "merged_rules r =
    (let base = dset (asc ''mode'') (JStr (sr_mode r)) (dmerge (sr_list r) (sr_pagination r));
         hosted = (case sr_host r of Some h \<Rightarrow> dset (asc ''host'') (JStr h) base | None \<Rightarrow> base);
         detailed = (if sr_detail r \<noteq> [] then dset (asc ''detail'') (JObj (sr_detail r)) hosted else hosted)
     in if sr_attachments r \<noteq> [] then dset (asc ''attachments'') (JObj (sr_attachments r)) detailed else detailed)"

text \<open>Python's \<open>a or b\<close> on decoded values.\<close>

definition json_or :: "json \<Rightarrow> json \<Rightarrow> json" where
  "json_or a b = (if json_truthy a then a else b)"

definition site_rules_from_configs :: "config \<Rightarrow> config \<Rightarrow> site_rules" where
  "site_rules_from_configs selectors pagination =
    (case json_or (cget pagination ''site_rules'') (cget selectors ''site_rules'') of
       JObj d \<Rightarrow> rules_of d
     | _ \<Rightarrow> no_rules)"

text \<open>A rule fills a selector that the configuration leaves out.\<close>

definition fill_selector :: "ustr \<Rightarrow> json \<Rightarrow> config \<Rightarrow> config" where
  "fill_selector k v c =
    (case v of JStr s \<Rightarrow> if k \<notin> set (dkeys c) \<and> strip s \<noteq> [] then dset k v c else c | _ \<Rightarrow> c)"

definition merge_selector_rules :: "config \<Rightarrow> site_rules \<Rightarrow> config" where
  "merge_selector_rules selectors r =
    fold (\<lambda>k c. fill_selector (asc k) (cget (sr_detail r) k) c) [''title'', ''content'', ''publish_date'', ''attachment'']
      (fold (\<lambda>k c. fill_selector (asc ''list_link'') (cget (sr_list r) k) c) [''link_selector'', ''list_link''] selectors)"

definition api_config :: "config \<Rightarrow> config \<Rightarrow> config" where
  "api_config selectors pagination =
    (case json_or (cget pagination ''api'') (json_or (cget pagination ''site_rules'') (cget selectors ''site_rules'')) of
       JObj raw \<Rightarrow> (case cget raw ''list'' of JObj l \<Rightarrow> dmerge raw l | _ \<Rightarrow> raw)
     | _ \<Rightarrow> [])"

section \<open>Links\<close>

definition excluded_href :: "ustr \<Rightarrow> bool" where
  "excluded_href v \<longleftrightarrow>
    (let s = lower (strip v) in
     s = [] \<or> list_ex (starts_with s) [asc ''javascript:'', asc ''mailto:'', asc ''tel:'', asc ''#''])"

definition is_navigation_label :: "ustr \<Rightarrow> bool" where
  "is_navigation_label v \<longleftrightarrow> (let l = lower (strip v) in l = [] \<or> list_ex (contains l) navigation_terms)"

definition crawl_same_site :: "bool \<Rightarrow> ustr \<Rightarrow> ustr \<Rightarrow> bool" where
  "crawl_same_site subdomains base_host host \<longleftrightarrow>
    (let base = dotless base_host; cand = dotless host in
     base \<noteq> [] \<and> cand \<noteq> [] \<and>
     (cand = base \<or> subdomains \<and> (ends_with cand (46 # base) \<or> ends_with base (46 # cand))))"

definition after_last :: "int \<Rightarrow> ustr \<Rightarrow> ustr" where
  "after_last c s = (case py_rpartition c s of (a, found, b) \<Rightarrow> b)"

definition url_extension_of :: "(ustr \<Rightarrow> ustr) \<Rightarrow> ustr \<Rightarrow> exn + ustr" where
  "url_extension_of nfkc url =
    rbind (urlsplit nfkc [] url) (\<lambda>u.
    let path = lower (up_path u) in
    Inr (if 46 \<notin> set (after_last 47 path) then [] else 46 # after_last 46 path))"

definition list_class :: "dom_node \<Rightarrow> bool" where
  "list_class n \<longleftrightarrow>
    (let classes = lower (join [32] (dn_classes n) @ [32] @ join [32] (dn_parent_classes n)) in
     list_ex (contains classes) [asc ''list'', asc ''title'', asc ''item'', asc ''news''])"

definition score_link :: "(ustr \<Rightarrow> ustr) \<Rightarrow> ustr \<Rightarrow> ustr \<Rightarrow> dom_node option \<Rightarrow> exn + int \<times> ustr list" where
  "score_link nfkc url anchor el =
    rbind (urlsplit nfkc [] url) (\<lambda>u.
    let path = lower (up_path u); label = lower (strip anchor);
        path_hits = map (strip_chars [47]) (filter (contains path) article_path_terms);
        dated = re_found date_path_rx path; numbered_id = re_found numeric_id_rx path;
        text_hits = filter (\<lambda>t. contains label (lower t)) article_text_terms;
        listed = (case el of Some n \<Rightarrow> list_class n | None \<Rightarrow> False);
        directory = list_ex (contains path) [asc ''/list'', asc ''index.'', asc ''newschild'', asc ''common_list'']
    in Inr (
      (if path_hits \<noteq> [] then min 6 (2 * int (length path_hits)) else 0)
        + (if dated then 3 else 0) + (if numbered_id then 1 else 0)
        + (if text_hits \<noteq> [] then min 4 (int (length text_hits)) else 0)
        + (if listed then 1 else 0) - (if directory then 4 else 0) - (if label = [] then 1 else 0),
      map (\<lambda>t. asc ''path:'' @ t) (take 3 path_hits)
        @ (if dated then [asc ''path:date''] else []) @ (if numbered_id then [asc ''path:id''] else [])
        @ map (\<lambda>t. asc ''text:'' @ t) (take 4 text_hits)
        @ (if listed then [asc ''dom:list''] else []) @ (if directory then [asc ''path:directory''] else [])
        @ (if label = [] then [asc ''text:empty''] else [])))"

section \<open>The links of a list page\<close>

definition link_of :: "'d page_env \<Rightarrow> ustr \<Rightarrow> ustr \<Rightarrow> ustr \<Rightarrow> nat list option \<Rightarrow> int \<Rightarrow> bool \<Rightarrow> dom_node
    \<Rightarrow> exn + candidate_link option" where
  "link_of env page_url base_host current selected minimum subdomains n =
    (if (case selected of Some ids \<Rightarrow> dn_id n \<notin> set ids | None \<Rightarrow> False) then Inr None
     else case dn_href n of
       None \<Rightarrow> Inr None
     | Some href \<Rightarrow>
         if excluded_href href then Inr None
         else rbind (usable_url (pe_nfkc env) page_url href) (\<lambda>resolved. case resolved of
             None \<Rightarrow> Inr None
           | Some url \<Rightarrow>
               rbind (url_site (pe_nfkc env) url) (\<lambda>host.
               if host = [] \<or> \<not> crawl_same_site subdomains base_host host then Inr None
               else rbind (if url = current then Inr [] else url_extension_of (pe_nfkc env) url) (\<lambda>ext.
               if url = current \<or> ext \<in> set non_article_extensions then Inr None
               else rbind (score_link (pe_nfkc env) url (dn_text n) (Some n)) (\<lambda>(score, reasons).
               if is_navigation_label (dn_text n) \<or> selected = None \<and> score < minimum then Inr None
               else Inr (Some \<lparr>cl_url = url, cl_text = dn_text n, cl_score = score, cl_reasons = reasons, cl_item = None\<rparr>))))))"

definition extract_candidates :: "'d page_env \<Rightarrow> 'd \<Rightarrow> ustr \<Rightarrow> ustr \<Rightarrow> config \<Rightarrow> config \<Rightarrow> ustr \<Rightarrow> exn + candidate_link list" where
  "extract_candidates env doc page_url base_host selectors pagination current =
    rbind (case optional_selector selectors ''list_link'' of
        Some sel \<Rightarrow>
          if sel \<in> {asc ''a'', asc ''a[href]'', asc ''a[href*='' @ [39, 39] @ asc '']''} then Inr None
          else rbind (hl_select (pe_lib env) doc sel) (\<lambda>ns. Inr (Some (map dn_id ns)))
      | None \<Rightarrow> Inr None) (\<lambda>selected.
    rbind (int_config pagination ''candidate_min_score'' 2) (\<lambda>minimum.
    let subdomains = json_truthy (dget_or pagination (asc ''allow_subdomains'') (JBool True)) in
    rbind (hl_select (pe_lib env) doc (asc ''a[href]'')) (\<lambda>ns.
    rbind (rmap (link_of env page_url base_host current selected minimum subdomains) ns) (\<lambda>found.
    Inr (sort_key (\<lambda>c. (- cl_score c, cl_url c)) (List.map_filter id found))))))"

section \<open>The next page\<close>

definition page_parameter :: "'d page_env \<Rightarrow> json \<Rightarrow> ustr \<Rightarrow> exn + ustr option" where
  "page_parameter env explicit url =
    (case config_text explicit of
       Some p \<Rightarrow> Inr (Some p)
     | None \<Rightarrow>
         rbind (urlsplit (pe_nfkc env) [] url) (\<lambda>u.
         Inr (find (\<lambda>k. k \<in> set (map (\<lambda>kv. lower (fst kv)) (parse_qsl (up_query u)))) page_parameters)))"

definition current_page_number :: "'d page_env \<Rightarrow> ustr \<Rightarrow> json \<Rightarrow> exn + int option" where
  "current_page_number env url explicit =
    rbind (page_parameter env explicit url) (\<lambda>param. case param of
        None \<Rightarrow> Inr None
      | Some p \<Rightarrow>
          rbind (urlsplit (pe_nfkc env) [] url) (\<lambda>u.
          case find (\<lambda>kv. lower (fst kv) = lower p) (parse_qsl (up_query u)) of
            None \<Rightarrow> Inr None
          | Some (k, v) \<Rightarrow> (case int_text v of Inr n \<Rightarrow> Inr (if 0 \<le> n then Some n else None) | Inl e \<Rightarrow> Inr None)))"

definition replace_query :: "'d page_env \<Rightarrow> ustr \<Rightarrow> ustr \<Rightarrow> ustr \<Rightarrow> exn + ustr" where
  "replace_query env url key v =
    rbind (urlsplit (pe_nfkc env) [] url) (\<lambda>u.
    rbind (urlencode (filter (\<lambda>kv. fst kv \<noteq> key) (parse_qsl (up_query u)) @ [(key, v)])) (\<lambda>q.
    Inr (urlunsplit (u\<lparr>up_query := q, up_fragment := []\<rparr>))))"

fun rel_next :: "'d page_env \<Rightarrow> 'd \<Rightarrow> ustr \<Rightarrow> ustr list \<Rightarrow> ustr list \<Rightarrow> exn + ustr option" where
  "rel_next env doc page_url visited [] = Inr None"
| "rel_next env doc page_url visited (sel # sels) =
    rbind (select_one (pe_lib env) doc sel) (\<lambda>n.
    rbind (case n of
        Some n \<Rightarrow> (case some_text (dn_href n) of Some h \<Rightarrow> usable_url (pe_nfkc env) page_url h | None \<Rightarrow> Inr None)
      | None \<Rightarrow> Inr None) (\<lambda>found. case found of
        Some u \<Rightarrow> if u \<noteq> [] \<and> u \<notin> set visited then Inr (Some u) else rel_next env doc page_url visited sels
      | None \<Rightarrow> rel_next env doc page_url visited sels))"

text \<open>The loop over the links: a link named as the next page, or else the numbered pages beyond this one.\<close>

fun scan_next :: "'d page_env \<Rightarrow> json \<Rightarrow> ustr \<Rightarrow> ustr list \<Rightarrow> int option \<Rightarrow> (int \<times> ustr) list \<Rightarrow> dom_node list
    \<Rightarrow> exn + (ustr + (int \<times> ustr) list)" where
  "scan_next env param page_url visited current links [] = Inr (Inr links)"
| "scan_next env param page_url visited current links (n # ns) =
    (case some_text (dn_href n) of
       None \<Rightarrow> scan_next env param page_url visited current links ns
     | Some href \<Rightarrow>
         let said = lower (dn_text n) @ [32] @ lower (case dn_attr n (asc ''aria-label'') of Some a \<Rightarrow> a | None \<Rightarrow> []) in
         rbind (usable_url (pe_nfkc env) page_url href) (\<lambda>resolved.
         case resolved of
           None \<Rightarrow> scan_next env param page_url visited current links ns
         | Some url \<Rightarrow>
             if list_ex (contains said) next_terms \<and> url \<noteq> [] \<and> url \<notin> set visited then Inr (Inl url)
             else rbind (current_page_number env url param) (\<lambda>number.
               scan_next env param page_url visited current
                 (case number of
                    Some k \<Rightarrow> if (case current of None \<Rightarrow> True | Some c \<Rightarrow> c < k) then links @ [(k, url)] else links
                  | None \<Rightarrow> links) ns)))"

definition first_min :: "(int \<times> ustr) \<Rightarrow> (int \<times> ustr) list \<Rightarrow> int \<times> ustr" where
  "first_min x xs = foldl (\<lambda>m y. if fst y < fst m then y else m) x xs"

definition find_next_page :: "'d page_env \<Rightarrow> 'd \<Rightarrow> ustr \<Rightarrow> config \<Rightarrow> ustr list \<Rightarrow> exn + ustr option" where
  "find_next_page env doc page_url pagination visited =
    (let explicit = (case optional_selector pagination ''next_selector'' of Some s \<Rightarrow> [s] | None \<Rightarrow> []);
         rel = asc ''a[rel='' @ [39] @ asc ''next'' @ [39] @ asc ''], link[rel='' @ [39] @ asc ''next'' @ [39] @ asc '']'';
         param = cget pagination ''page_param'' in
     rbind (rel_next env doc page_url visited (explicit @ [rel])) (\<lambda>found. case found of
       Some u \<Rightarrow> Inr (Some u)
     | None \<Rightarrow>
         rbind (current_page_number env page_url param) (\<lambda>current.
         rbind (hl_select (pe_lib env) doc (asc ''a[href]'')) (\<lambda>ns.
         rbind (scan_next env param page_url visited current [] ns) (\<lambda>scanned. case scanned of
             Inl u \<Rightarrow> Inr (Some u)
           | Inr (l # ls) \<Rightarrow> Inr (Some (snd (first_min l ls)))
           | Inr [] \<Rightarrow>
               rbind (page_parameter env param page_url) (\<lambda>p. case p of
                   None \<Rightarrow> Inr None
                 | Some p \<Rightarrow>
                     rbind (case current of
                         Some c \<Rightarrow> if c = 0 then int_config pagination ''page_start'' 1 else Inr c
                       | None \<Rightarrow> int_config pagination ''page_start'' 1) (\<lambda>c.
                     rbind (replace_query env page_url p (show_int (c + 1))) (\<lambda>u. Inr (Some u)))))))))"

section \<open>JSON lists\<close>

definition api_hints :: "'d page_env \<Rightarrow> ustr \<Rightarrow> ustr \<Rightarrow> exn + ustr list" where
  "api_hints env html base =
    rbind (rmap (\<lambda>m. usable_url (pe_nfkc env) base (case m_group m ''url'' of Some g \<Rightarrow> g | None \<Rightarrow> []))
      (re_finditer api_hint_rx html)) (\<lambda>us.
    Inr (nub (filter (\<lambda>u. u \<noteq> []) (List.map_filter id us))))"

fun is_object :: "json \<Rightarrow> bool" where
  "is_object (JObj d) = True"
| "is_object j = False"

text \<open>The first non-empty list of objects in a document, in depth first order.\<close>

fun find_item_list :: "json \<Rightarrow> json list option"
  and find_in_list :: "json list \<Rightarrow> json list option"
  and find_in_object :: "config \<Rightarrow> json list option" where
  "find_item_list (JList js) = (if list_ex is_object js then Some js else find_in_list js)"
| "find_item_list (JObj d) = find_in_object d"
| "find_item_list j = None"
| "find_in_list [] = None"
| "find_in_list (j # js) = (case find_item_list j of Some l \<Rightarrow> Some l | None \<Rightarrow> find_in_list js)"
| "find_in_object [] = None"
| "find_in_object ((k, j) # d) = (case find_item_list j of Some l \<Rightarrow> Some l | None \<Rightarrow> find_in_object d)"

fun walk_path :: "json \<Rightarrow> ustr list \<Rightarrow> json" where
  "walk_path j [] = j"
| "walk_path j (p # ps) = (case j of JObj d \<Rightarrow> walk_path (jget d p) ps | _ \<Rightarrow> JNull)"

definition extract_api_items :: "json \<Rightarrow> config \<Rightarrow> config list" where
  "extract_api_items payload config =
    (let current = (case config_text (cget config ''items_path'') of
           Some s \<Rightarrow> (case cget config ''items_path'' of JStr p \<Rightarrow> walk_path payload (split_on 46 (strip_chars [46] p)) | _ \<Rightarrow> payload)
         | None \<Rightarrow> payload);
         items = (case current of JList js \<Rightarrow> js | _ \<Rightarrow> (case find_item_list payload of Some js \<Rightarrow> js | None \<Rightarrow> []))
     in List.map_filter (\<lambda>j. case j of JObj d \<Rightarrow> Some d | _ \<Rightarrow> None) items)"

fun first_string :: "config \<Rightarrow> ustr list \<Rightarrow> ustr option" where
  "first_string d [] = None"
| "first_string d (k # ks) =
    (case (if k = [] then None else config_text (jget d k)) of Some s \<Rightarrow> Some s | None \<Rightarrow> first_string d ks)"

definition keys_of :: "string list \<Rightarrow> ustr list" where
  "keys_of ks = map asc ks"

definition templated_url :: "'d page_env \<Rightarrow> config \<Rightarrow> config \<Rightarrow> exn + ustr option" where
  "templated_url env item config =
    (case cget config ''detail_url_template'' of
       JStr template \<Rightarrow>
         (case first_string item [json_str env (dget_or config (asc ''id_field'') (JStr (asc ''id''))), asc ''id'', asc ''ID''] of
            None \<Rightarrow> Inr None
          | Some ident \<Rightarrow>
              (case pe_format env template (dset (asc ''id'') (JStr ident) item) of
                 Inr u \<Rightarrow> Inr (Some u)
               | Inl e \<Rightarrow> if exn_class e \<in> {''KeyError'', ''IndexError''} then Inr None else Inl e))
     | _ \<Rightarrow> Inr None)"

definition candidate_from_api_item :: "'d page_env \<Rightarrow> config \<Rightarrow> config \<Rightarrow> ustr \<Rightarrow> exn + candidate_link option" where
  "candidate_from_api_item env item config base =
    (let named_field = (\<lambda>k. json_str env (dget_or config (asc k) (JStr []))) in
     rbind (case first_string item (named_field ''url_field'' # keys_of [''url'', ''URL'', ''link'', ''href'', ''article_url'', ''detail_url'']) of
         Some u \<Rightarrow> Inr (Some u)
       | None \<Rightarrow> templated_url env item config) (\<lambda>raw. case some_text raw of
         None \<Rightarrow> Inr None
       | Some raw \<Rightarrow>
           rbind (usable_url (pe_nfkc env) base raw) (\<lambda>resolved. case some_text resolved of
             None \<Rightarrow> Inr None
           | Some url \<Rightarrow>
               let title = (case first_string item (named_field ''title_field'' # keys_of [''title'', ''TITLE'', ''name'', ''subject'']) of
                   Some t \<Rightarrow> t | None \<Rightarrow> []) in
               rbind (score_link (pe_nfkc env) url title None) (\<lambda>(score, reasons).
               Inr (Some \<lparr>cl_url = url, cl_text = title, cl_score = max score 2, cl_reasons = asc ''api_item'' # reasons,
                 cl_item = Some item\<rparr>)))))"

definition next_api_url :: "'d page_env \<Rightarrow> json \<Rightarrow> ustr \<Rightarrow> config \<Rightarrow> nat \<Rightarrow> exn + ustr option" where
  "next_api_url env payload current config index =
    (let reply = (case payload of JObj d \<Rightarrow> d | _ \<Rightarrow> []);
         given = find (\<lambda>k. config_text (jget reply k) \<noteq> None) (keys_of [''next'', ''next_url'', ''nextPage'', ''next_page'']);
         param = strip (json_str env (dget_or config (asc ''page_param'') (JStr []))) in
     case given of
       Some k \<Rightarrow> (case jget reply k of JStr s \<Rightarrow> usable_url (pe_nfkc env) current s | _ \<Rightarrow> Inr None)
     | None \<Rightarrow>
         if dget_or reply (asc ''has_more'') (jget reply (asc ''hasNext'')) = JBool False then Inr None
         else if param = [] then Inr None
         else rbind (current_page_number env current (JStr param)) (\<lambda>number.
           let page = (case number of Some n \<Rightarrow> if n = 0 then int index + 1 else n | None \<Rightarrow> int index + 1) in
           rbind (replace_query env current param (show_int (page + 1))) (\<lambda>u. Inr (Some u))))"

definition api_item_has_content :: "config \<Rightarrow> bool" where
  "api_item_has_content item \<longleftrightarrow> first_string item [asc ''content'', [27491, 25991], asc ''body'', asc ''text''] \<noteq> None"

definition file_type :: "ustr \<Rightarrow> ustr option" where
  "file_type ext = some_text (Some (lstrip_if (\<lambda>c. c = 46) ext))"

definition api_attachment :: "'d page_env \<Rightarrow> ustr \<Rightarrow> json \<Rightarrow> exn + crawled_attachment option" where
  "api_attachment env base j =
    (case j of
       JObj a \<Rightarrow>
         (case first_string a (keys_of [''url'', ''href'', ''source_url'']) of
            None \<Rightarrow> Inr None
          | Some v \<Rightarrow>
              rbind (usable_url (pe_nfkc env) base v) (\<lambda>resolved. case some_text resolved of
                None \<Rightarrow> Inr None
              | Some url \<Rightarrow>
                  rbind (url_extension_of (pe_nfkc env) url) (\<lambda>ext.
                  Inr (Some \<lparr>ca_name = (case first_string a (keys_of [''name'', ''title'']) of Some n \<Rightarrow> n | None \<Rightarrow> after_last 47 url),
                    ca_url = url, ca_type = file_type ext\<rparr>))))
     | _ \<Rightarrow> Inr None)"

definition attachments_from_api_item :: "'d page_env \<Rightarrow> config \<Rightarrow> ustr \<Rightarrow> exn + crawled_attachment list" where
  "attachments_from_api_item env item base =
    (case cget item ''attachments'' of
       JList raw \<Rightarrow> rbind (rmap (api_attachment env base) raw) (\<lambda>as. Inr (List.map_filter id as))
     | _ \<Rightarrow> Inr [])"

definition document_from_api_item :: "'d page_env \<Rightarrow> config \<Rightarrow> ustr \<Rightarrow> exn + crawled_document" where
  "document_from_api_item env item url =
    (let content = (case first_string item [asc ''content'', [27491, 25991], asc ''body'', asc ''text''] of Some c \<Rightarrow> c | None \<Rightarrow> []);
         title = (case first_string item (keys_of [''title'', ''TITLE'', ''name'', ''subject'']) of Some t \<Rightarrow> t | None \<Rightarrow> url);
         published = first_string item (keys_of [''published_at'', ''publish_date'', ''date'', ''DOCRELPUBTIME'']) in
     rbind (attachments_from_api_item env item url) (\<lambda>as.
     rbind (normalize_url (pe_nfkc env) None url) (\<lambda>u.
     Inr \<lparr>cd_title = strip title, cd_url = u, cd_html = pe_dumps env (JObj item), cd_text = strip content, cd_date = published,
       cd_attachments = as, cd_method = ''html'', cd_ocr = False, cd_images = [], cd_alts = [],
       cd_warnings = (if content \<noteq> [] then [''API_CONTENT''] else [''API_DETAIL_REQUIRED'']), cd_score = 0\<rparr>)))"

section \<open>A detail page\<close>

definition schema_error :: "string \<Rightarrow> exn" where
  "schema_error what = ValueError (''DETAIL_SCHEMA_UNKNOWN: '' @ what)"

text \<open>The repr of the selector is left out of the message.\<close>

fun select_first :: "'d html_lib \<Rightarrow> 'd \<Rightarrow> ustr list \<Rightarrow> exn + dom_node option" where
  "select_first lib doc [] = Inr None"
| "select_first lib doc (sel # sels) =
    (case select_one lib doc sel of
       Inl e \<Rightarrow> Inl (schema_error ''invalid selector'')
     | Inr (Some n) \<Rightarrow> Inr (Some n)
     | Inr None \<Rightarrow> select_first lib doc sels)"

definition quoted :: "string \<Rightarrow> string \<Rightarrow> string \<Rightarrow> ustr" where
  "quoted a b c = asc a @ [39] @ asc b @ [39] @ asc c"

definition title_fallbacks :: "ustr list" where
  "title_fallbacks = [asc ''h1'', asc ''h2'', quoted ''meta[property='' ''og:title'' '']'', asc ''title'']"

definition content_fallbacks :: "ustr list" where
  "content_fallbacks = [asc ''article'', asc ''main'', quoted ''[role='' ''main'' '']'', asc ''.article'', asc ''.content'', asc ''.detail'',
    asc ''.TRS_Editor'', asc ''.pages_content'', asc ''.article-content'', asc ''.news-content'', asc ''#UCAP-CONTENT'', asc ''#content'']"

definition date_fallbacks :: "ustr list" where
  "date_fallbacks = [asc ''time'', quoted ''meta[property='' ''article:published_time'' '']'', asc ''.date'', asc ''.time'']"

definition boilerplate :: ustr where
  "boilerplate = asc ''script,style,noscript,nav,header,footer,aside,form,.share,.print,.related,.pager,.pagination''"

definition tag_value :: "dom_node \<Rightarrow> string \<Rightarrow> ustr" where
  "tag_value n k = (case dn_attr n (asc k) of Some v \<Rightarrow> strip v | None \<Rightarrow> [])"

definition node_text :: "dom_node \<Rightarrow> ustr" where
  "node_text n = (if dn_name n = asc ''meta'' then tag_value n ''content'' else dn_text n)"

fun page_attachments :: "'d page_env \<Rightarrow> ustr \<Rightarrow> crawled_attachment list \<Rightarrow> dom_node list \<Rightarrow> exn + crawled_attachment list" where
  "page_attachments env base got [] = Inr got"
| "page_attachments env base got (n # ns) =
    (case some_text (dn_href n) of
       None \<Rightarrow> page_attachments env base got ns
     | Some href \<Rightarrow>
         rbind (usable_url (pe_nfkc env) base href) (\<lambda>resolved. case resolved of
             None \<Rightarrow> page_attachments env base got ns
           | Some url \<Rightarrow>
               rbind (url_extension_of (pe_nfkc env) url) (\<lambda>ext.
               if ext \<notin> set attachment_extensions \<or> url \<in> set (map ca_url got) then page_attachments env base got ns
               else page_attachments env base (got @ [\<lparr>ca_name = (if dn_text n \<noteq> [] then dn_text n else after_last 47 url),
                 ca_url = url, ca_type = file_type ext\<rparr>]) ns)))"

fun page_images :: "'d page_env \<Rightarrow> ustr \<Rightarrow> ustr list \<times> ustr list \<Rightarrow> dom_node list \<Rightarrow> exn + ustr list \<times> ustr list" where
  "page_images env base got [] = Inr got"
| "page_images env base got (n # ns) =
    (case some_text (if some_text (dn_attr n (asc ''src'')) \<noteq> None then dn_attr n (asc ''src'') else dn_attr n (asc ''data-src'')) of
       None \<Rightarrow> page_images env base got ns
     | Some src \<Rightarrow>
         if strip src = [] then page_images env base got ns
         else rbind (usable_url (pe_nfkc env) base src) (\<lambda>resolved. case resolved of
             None \<Rightarrow> page_images env base got ns
           | Some url \<Rightarrow>
               if url \<in> set (fst got) then page_images env base got ns
               else page_images env base (fst got @ [url],
                 snd got @ (case dn_attr n (asc ''alt'') of Some a \<Rightarrow> if strip a \<noteq> [] then [strip a] else [] | None \<Rightarrow> [])) ns))"

text \<open>The extraction method, and whether the text has to come from the images.\<close>

definition extraction :: "nat \<Rightarrow> bool \<Rightarrow> string \<times> bool" where
  "extraction n images =
    (if n < 120 \<and> images then (''image'', True) else if images then (''mixed'', n < 300) else (''html'', False))"

definition parse_detail_response :: "'d page_env \<Rightarrow> fetched \<Rightarrow> config \<Rightarrow> exn + crawled_document" where
  "parse_detail_response env response selectors =
    (let lib = pe_lib env; configured = (\<lambda>k. case optional_selector selectors k of Some s \<Rightarrow> [s] | None \<Rightarrow> []) in
     rbind (pe_text env response) (\<lambda>html.
     let doc = hl_parse lib html in
     rbind (select_first lib doc (configured ''title'' @ title_fallbacks)) (\<lambda>title_node.
     rbind (select_first lib doc (configured ''content'' @ content_fallbacks)) (\<lambda>content_node.
     case title_node of None \<Rightarrow> Inl (schema_error ''title selector did not match'') | Some t \<Rightarrow>
     case content_node of None \<Rightarrow> Inl (schema_error ''content selector did not match'') | Some c \<Rightarrow>
     let pruned = hl_prune lib doc (dn_id c) boilerplate;
         title = strip (node_text (hl_node lib pruned (dn_id t)));
         body = dn_lines (hl_node lib pruned (dn_id c)) in
     rbind (select_first lib pruned (configured ''publish_date'' @ date_fallbacks)) (\<lambda>date_node.
     rbind (hl_select lib pruned (case optional_selector selectors ''attachment'' of Some s \<Rightarrow> s | None \<Rightarrow> asc ''a[href]'')) (\<lambda>links.
     rbind (page_attachments env (fe_url response) [] links) (\<lambda>as.
     rbind (page_images env (fe_url response) ([], []) (hl_within lib pruned (dn_id c) (asc ''img[src], img[data-src]''))) (\<lambda>(images, alts).
     if title = [] \<or> body = [] \<and> as = [] \<and> images = [] then Inl (schema_error ''title or content is empty'')
     else rbind (normalize_url (pe_nfkc env) None (fe_url response)) (\<lambda>url.
       Inr \<lparr>cd_title = title, cd_url = url, cd_html = html, cd_text = body, cd_date = map_option node_text date_node,
         cd_attachments = as, cd_method = fst (extraction (length body) (images \<noteq> [])),
         cd_ocr = snd (extraction (length body) (images \<noteq> [])), cd_images = images, cd_alts = alts,
         cd_warnings = (if as \<noteq> [] \<and> length body < 300 then [''SHORT_TEXT_WITH_ATTACHMENT''] else [])
           @ (if images \<noteq> [] \<and> length body < 300 then [''OCR_REQUIRED''] else []),
         cd_score = 0\<rparr>)))))))))"

definition looks_like_detail_page :: "'d page_env \<Rightarrow> 'd \<Rightarrow> ustr \<Rightarrow> config \<Rightarrow> exn + bool" where
  "looks_like_detail_page env doc url selectors =
    (if cget selectors ''detail_url'' = JBool True \<or> cget selectors ''mode'' = JStr (asc ''detail'') then Inr True
     else rbind (urlsplit (pe_nfkc env) [] url) (\<lambda>u.
       if \<not> (re_found date_path_rx (up_path u) \<or> re_found numeric_id_rx (up_path u)) then Inr False
       else rbind (select_first (pe_lib env) doc ((case optional_selector selectors ''content'' of Some s \<Rightarrow> [s] | None \<Rightarrow> [])
           @ [asc ''article'', asc ''main'', asc ''.content'', asc ''.detail'', asc ''.pages_content'', asc ''#UCAP-CONTENT''])) (\<lambda>found.
         case found of None \<Rightarrow> Inr False
         | Some c \<Rightarrow> Inr (180 \<le> length (dn_text c) \<and>
             max 1 (length (hl_within (pe_lib env) doc (dn_id c) (asc ''a[href]''))) * 20 < length (dn_text c)))))"

record page_class =
  pc_url :: ustr
  pc_kind :: string
  pc_status :: int

definition classify_page :: "'d page_env \<Rightarrow> fetched \<Rightarrow> ustr \<Rightarrow> 'd \<Rightarrow> exn + page_class" where
  "classify_page env response html doc =
    (let there = (\<lambda>sel. rbind (select_one (pe_lib env) doc (asc sel)) (\<lambda>n. Inr (n \<noteq> None))) in
     rbind (if contains (lower (fe_type response)) (asc ''json'') \<or> lstrip html \<noteq> [] \<and> hd (lstrip html) \<in> {123, 91} then Inr ''json_api''
       else rbind (there ''article, .article, .detail, .pages_content, #UCAP-CONTENT'') (\<lambda>detail.
         if detail then Inr ''html_detail_or_mixed''
         else rbind (there ''a[href]'') (\<lambda>listed.
           if listed then Inr ''html_list_or_navigation''
           else rbind (there ''script'') (\<lambda>spa. Inr (if spa then ''spa_shell'' else ''unknown''))))) (\<lambda>kind.
     rbind (normalize_url (pe_nfkc env) None (fe_url response)) (\<lambda>url.
     Inr \<lparr>pc_url = url, pc_kind = kind, pc_status = fe_status response\<rparr>)))"

section \<open>Errors\<close>

definition is_timeout :: "exn \<Rightarrow> bool" where
  "is_timeout = named [''TimeoutException'', ''ConnectTimeout'', ''ReadTimeout'', ''WriteTimeout'', ''PoolTimeout'', ''TimeoutError'']"

text \<open>\<open>httpx.HTTPError\<close> and its subclasses.\<close>

definition is_http_error :: "exn \<Rightarrow> bool" where
  "is_http_error = named [''HTTPError'', ''HTTPStatusError'', ''RequestError'', ''TransportError'', ''TimeoutException'',
    ''ConnectTimeout'', ''ReadTimeout'', ''WriteTimeout'', ''PoolTimeout'', ''NetworkError'', ''ConnectError'', ''ReadError'',
    ''WriteError'', ''CloseError'', ''ProxyError'', ''UnsupportedProtocol'', ''ProtocolError'', ''LocalProtocolError'',
    ''RemoteProtocolError'', ''DecodingError'', ''TooManyRedirects'']"

definition exn_text :: "'d page_env \<Rightarrow> exn \<Rightarrow> ustr" where
  "exn_text env e = (case e of ValueError m \<Rightarrow> asc m | _ \<Rightarrow> pe_message env e)"

definition retryable_exception :: "'d page_env \<Rightarrow> exn \<Rightarrow> bool" where
  "retryable_exception env e \<longleftrightarrow> is_timeout e \<or> named [''ConnectError''] e \<or>
    (case pe_http_status env e of Some s \<Rightarrow> s \<in> {408, 425, 429, 500, 502, 503, 504} | None \<Rightarrow> False)"

definition status_error :: "'d page_env \<Rightarrow> exn \<Rightarrow> string option" where
  "status_error env e =
    (if named [''HTTPStatusError''] e
     then (case pe_http_status env e of
         Some s \<Rightarrow> if s \<in> {401, 403} then Some ''SOURCE_BLOCKED'' else if s = 429 then Some ''RATE_LIMITED'' else None
       | None \<Rightarrow> None)
     else None)"

definition classify_list_error :: "'d page_env \<Rightarrow> exn \<Rightarrow> string" where
  "classify_list_error env e =
    (if is_timeout e then (if contains (exn_text env e) (asc ''429'') then ''RATE_LIMITED'' else ''ARTICLE_FETCH_FAILED'')
     else case status_error env e of Some c \<Rightarrow> c | None \<Rightarrow> ''ARTICLE_FETCH_FAILED'')"

definition classify_detail_error :: "'d page_env \<Rightarrow> exn \<Rightarrow> string" where
  "classify_detail_error env e =
    (if contains (exn_text env e) (asc ''DETAIL_SCHEMA_UNKNOWN'') then ''DETAIL_SCHEMA_UNKNOWN''
     else case status_error env e of Some c \<Rightarrow> c | None \<Rightarrow> ''ARTICLE_FETCH_FAILED'')"

definition safe_error_message :: "'d page_env \<Rightarrow> exn \<Rightarrow> ustr" where
  "safe_error_message env e =
    (let t = strip (exn_text env e) in if t \<noteq> [] then take 500 t else asc (exn_class e))"

end
