(* ===== verification/CrawlColumns.thy ===== *)
theory CrawlColumns
  imports CrawlPages
begin

text \<open>
  Crawling a column: \<open>GenericCrawler\<close> of \<open>backend/app/crawler/generic.py\<close>, the adapter of
  \<open>adapters.py\<close> for the feed of www.gov.cn, and the registry. A crawl is a program on the log of its
  requests, the set \<open>seen_details\<close> and the discovery state; what the fetcher answers to a request may
  depend on how many were made before. Pauses between requests are left out.
\<close>

section \<open>State\<close>

datatype page_event =
    Stopped nat string "json option"        \<comment> \<open>page, reason, \<open>new_candidates\<close>\<close>
  | Turned nat "ustr option" int            \<comment> \<open>page, next URL, \<open>new_candidates\<close>\<close>

record api_discovery =
  ad_mode :: string
  ad_hints :: "ustr list"
  ad_requests :: nat
  ad_items :: nat

record discovery =
  ds_candidates :: "candidate_link list"
  ds_visited :: "ustr list"
  ds_links :: "ustr list"
  ds_classes :: "page_class list"
  ds_events :: "page_event list"
  ds_warnings :: "string list"
  ds_failures :: "crawl_failure list"
  ds_api :: "api_discovery option"

definition no_discovery :: discovery where
  "no_discovery = \<lparr>ds_candidates = [], ds_visited = [], ds_links = [], ds_classes = [], ds_events = [], ds_warnings = [],
    ds_failures = [], ds_api = None\<rparr>"

record crawl_world =
  cw_log :: "ustr list"
  cw_seen :: "ustr list"
  cw_state :: discovery

record 'd crawl_env =
  ce_page :: "'d page_env"
  ce_fetch :: "nat \<Rightarrow> ustr \<Rightarrow> exn + fetched"

type_synonym 'a crawl = "(crawl_world, 'a) eff"

definition start_crawl_world :: "ustr list \<Rightarrow> crawl_world" where
  "start_crawl_world past = \<lparr>cw_log = past, cw_seen = [], cw_state = no_discovery\<rparr>"

definition crawl_fetch :: "'d crawl_env \<Rightarrow> ustr \<Rightarrow> fetched crawl" where
  "crawl_fetch env url w = (w\<lparr>cw_log := cw_log w @ [url]\<rparr>, ce_fetch env (length (cw_log w)) url)"

definition ask :: "(crawl_world \<Rightarrow> 'a) \<Rightarrow> 'a crawl" where
  "ask f w = (w, Inr (f w))"

definition tell :: "(discovery \<Rightarrow> discovery) \<Rightarrow> unit crawl" where
  "tell f = elocal (\<lambda>w. w\<lparr>cw_state := f (cw_state w)\<rparr>)"

definition warn :: "string \<Rightarrow> unit crawl" where
  "warn s = tell (\<lambda>d. d\<lparr>ds_warnings := ds_warnings d @ [s]\<rparr>)"

definition note_page :: "page_event \<Rightarrow> unit crawl" where
  "note_page e = tell (\<lambda>d. d\<lparr>ds_events := ds_events d @ [e]\<rparr>)"

definition fail_at :: "crawl_failure \<Rightarrow> unit crawl" where
  "fail_at f = tell (\<lambda>d. d\<lparr>ds_failures := ds_failures d @ [f]\<rparr>)"

definition visit :: "'d crawl_env \<Rightarrow> ustr \<Rightarrow> unit crawl" where
  "visit env url =
    ebind (elift (normalize_url (pe_nfkc (ce_page env)) None url)) (\<lambda>u. tell (\<lambda>d. d\<lparr>ds_visited := ds_visited d @ [u]\<rparr>))"

definition candidates_of :: "crawl_world \<Rightarrow> candidate_link list" where
  "candidates_of w = ds_candidates (cw_state w)"

definition full :: "nat \<Rightarrow> crawl_world \<Rightarrow> bool" where
  "full limit w \<longleftrightarrow> limit \<le> length (candidates_of w)"

text \<open>A candidate is listed with its link; one found on a list is marked as seen before.\<close>

definition list_link :: "candidate_link \<Rightarrow> crawl_world \<Rightarrow> crawl_world" where
  "list_link c w = w\<lparr>cw_state := (cw_state w)\<lparr>ds_candidates := candidates_of w @ [c],
     ds_links := ds_links (cw_state w) @ [cl_url c]\<rparr>\<rparr>"

definition take_link :: "candidate_link \<Rightarrow> crawl_world \<Rightarrow> crawl_world" where
  "take_link c w = (list_link c w)\<lparr>cw_seen := cw_seen w @ [cl_url c]\<rparr>"

fun take_links :: "nat \<Rightarrow> candidate_link list \<Rightarrow> crawl_world \<Rightarrow> crawl_world" where
  "take_links limit [] w = w"
| "take_links limit (c # cs) w =
    (if cl_url c \<in> set (cw_seen w) then take_links limit cs w
     else let w' = take_link c w in if full limit w' then w' else take_links limit cs w')"

section \<open>The API behind a page\<close>

fun take_items :: "'d crawl_env \<Rightarrow> config \<Rightarrow> ustr \<Rightarrow> ustr \<Rightarrow> nat \<Rightarrow> config list \<Rightarrow> unit crawl" where
  "take_items env config base_host reply_url limit [] = ereturn ()"
| "take_items env config base_host reply_url limit (item # items) =
    ebind (elift (candidate_from_api_item (ce_page env) item config reply_url)) (\<lambda>found. case found of
      None \<Rightarrow> take_items env config base_host reply_url limit items
    | Some c \<Rightarrow>
        ebind (ask (\<lambda>w. cl_url c \<in> set (cw_seen w))) (\<lambda>seen.
        if seen then take_items env config base_host reply_url limit items
        else ebind (elift (urlsplit (pe_nfkc (ce_page env)) [] (cl_url c))) (\<lambda>u.
          if \<not> crawl_same_site True base_host (case hostname u of Some h \<Rightarrow> h | None \<Rightarrow> [])
          then take_items env config base_host reply_url limit items
          else ebind (elocal (take_link c)) (\<lambda>_. ebind (ask (full limit)) (\<lambda>stop.
            if stop then ereturn () else take_items env config base_host reply_url limit items)))))"

definition count_api :: "nat \<Rightarrow> nat \<Rightarrow> unit crawl" where
  "count_api requests items = tell (\<lambda>d. d\<lparr>ds_api := map_option (\<lambda>a. a\<lparr>ad_requests := ad_requests a + requests,
     ad_items := ad_items a + items\<rparr>) (ds_api d)\<rparr>)"

fun api_pages :: "'d crawl_env \<Rightarrow> config \<Rightarrow> ustr \<Rightarrow> nat \<Rightarrow> nat \<Rightarrow> nat \<Rightarrow> ustr \<Rightarrow> unit crawl" where
  "api_pages env config base_host limit 0 index url = ereturn ()"
| "api_pages env config base_host limit (Suc n) index url =
    ebind (ask (\<lambda>w. url \<in> set (ds_visited (cw_state w)))) (\<lambda>again.
    if again then ereturn ()
    else ebind (crawl_fetch env url) (\<lambda>reply.
      ebind (visit env (fe_url reply)) (\<lambda>_.
      ebind (count_api 1 0) (\<lambda>_.
      ebind (elift (rbind (pe_text (ce_page env) reply) (pe_loads (ce_page env)))) (\<lambda>payload.
      let items = extract_api_items payload config in
      ebind (count_api 0 (length items)) (\<lambda>_.
      if items = [] then ereturn ()
      else ebind (take_items env config base_host (fe_url reply) limit items) (\<lambda>_.
        ebind (ask (full limit)) (\<lambda>stop.
        if stop then ereturn ()
        else ebind (elift (next_api_url (ce_page env) payload url config index)) (\<lambda>following. case following of
            None \<Rightarrow> ereturn ()
          | Some u \<Rightarrow>
              ebind (ask (\<lambda>w. u \<in> set (ds_visited (cw_state w)))) (\<lambda>visited.
              if visited then ereturn () else api_pages env config base_host limit n (Suc index) u))))))))))"

text \<open>The body of the loop over the hints returns whether it found candidates, the handler that it did not.\<close>

fun try_hints :: "'d crawl_env \<Rightarrow> config \<Rightarrow> config \<Rightarrow> ustr \<Rightarrow> ustr \<Rightarrow> nat \<Rightarrow> nat \<Rightarrow> ustr list \<Rightarrow> unit crawl" where
  "try_hints env config pagination page_url base_host limit k [] = ereturn ()"
| "try_hints env config pagination page_url base_host limit k (hint # hints) =
    ebind (ecatch
      (ebind (elift (normalize_url (pe_nfkc (ce_page env)) (Some page_url) hint)) (\<lambda>url.
       ebind (elift (int_config pagination ''api_max_pages'' 100)) (\<lambda>n.
       ebind (api_pages env config base_host limit (nat n) 0 url) (\<lambda>_.
       ask (\<lambda>w. candidates_of w \<noteq> [])))))
      (\<lambda>e. if is_value_error e \<or> is_http_error e
        then ebind (fail_at \<lparr>cf_url = hint, cf_stage = ''api'',
            cf_code = (if k \<noteq> 0 then ''SPA_API_REQUEST_FAILED'' else ''LIST_SCHEMA_UNKNOWN''),
            cf_message = safe_error_message (ce_page env) e, cf_retryable = retryable_exception (ce_page env) e\<rparr>)
          (\<lambda>_. ereturn False)
        else eraise e)) (\<lambda>found.
    if found then ereturn () else try_hints env config pagination page_url base_host limit (Suc k) hints)"

definition discover_api_fallback :: "'d crawl_env \<Rightarrow> ustr \<Rightarrow> ustr \<Rightarrow> config \<Rightarrow> config \<Rightarrow> ustr \<Rightarrow> nat \<Rightarrow> unit crawl" where
  "discover_api_fallback env html page_url selectors pagination base_host limit =
    (let config = api_config selectors pagination;
         endpoint = json_or (cget config ''list_endpoint'') (cget config ''endpoint'') in
     ebind (elift (case config_text endpoint of Some s \<Rightarrow> Inr [s] | None \<Rightarrow> api_hints (ce_page env) html page_url)) (\<lambda>hints.
     if hints = [] then warn ''SPA_API_NOT_DISCOVERED''
     else
       ebind (tell (\<lambda>d. d\<lparr>ds_api := Some \<lparr>ad_mode = (if json_truthy endpoint then ''configured'' else ''inline_hint''),
         ad_hints = take 10 hints, ad_requests = 0, ad_items = 0\<rparr>\<rparr>)) (\<lambda>_.
       ebind (try_hints env config pagination page_url base_host limit 0 (take 3 hints)) (\<lambda>_.
       ebind (ask cw_state) (\<lambda>d.
       if ds_candidates d = [] then warn (if ds_failures d \<noteq> [] then ''SPA_API_REQUEST_FAILED'' else ''NO_ARTICLES'')
       else ereturn ())))))"

section \<open>The pages of a column\<close>

definition discovery_error :: "string \<Rightarrow> bool \<Rightarrow> exn" where
  "discovery_error code retry = CodedError ''CrawlDiscoveryError'' code retry"

text \<open>The handler of a page that could not be fetched.\<close>

definition page_failed :: "'d crawl_env \<Rightarrow> nat \<Rightarrow> ustr \<Rightarrow> exn \<Rightarrow> unit crawl" where
  "page_failed env k url e =
    (let code = (if k \<noteq> 0 then ''PAGINATION_FAILED'' else classify_list_error (ce_page env) e);
         retry = retryable_exception (ce_page env) e in
     ebind (fail_at \<lparr>cf_url = url, cf_stage = (if k \<noteq> 0 then ''pagination'' else ''list''), cf_code = code,
       cf_message = safe_error_message (ce_page env) e, cf_retryable = retry\<rparr>) (\<lambda>_.
     if k \<noteq> 0 then warn code
     else if exn_class e = ''UnsafeUrlError'' then eraise e else eraise (discovery_error code retry)))"

text \<open>What is found on a fetched page; the fallbacks apply to the first one.\<close>

definition read_page :: "'d crawl_env \<Rightarrow> config \<Rightarrow> config \<Rightarrow> ustr \<Rightarrow> nat \<Rightarrow> nat \<Rightarrow> ustr \<Rightarrow> fetched \<Rightarrow> ('d \<times> nat \<times> bool) crawl" where
  "read_page env selectors pagination base_host limit k current response =
    (let page = ce_page env; lib = pe_lib page in
     ebind (visit env (fe_url response)) (\<lambda>_.
     ebind (elift (pe_text page response)) (\<lambda>html.
     let doc = hl_parse lib html in
     ebind (elift (classify_page page response html doc)) (\<lambda>kind.
     ebind (tell (\<lambda>d. d\<lparr>ds_classes := ds_classes d @ [kind]\<rparr>)) (\<lambda>_.
     ebind (ask (\<lambda>w. length (candidates_of w))) (\<lambda>before_page.
     ebind (elift (extract_candidates page doc (fe_url response) base_host selectors pagination current)) (\<lambda>found.
     ebind (elocal (take_links limit found)) (\<lambda>_.
     ebind (ask (\<lambda>w. length (candidates_of w) \<noteq> before_page)) (\<lambda>fresh.
     ebind (ask (\<lambda>w. candidates_of w = [] \<and> k = 0)) (\<lambda>none.
     ebind (if none then elift (looks_like_detail_page page doc (fe_url response) selectors) else ereturn False) (\<lambda>detail.
     ebind (if detail then
         ebind (elift (normalize_url (pe_nfkc page) None (fe_url response))) (\<lambda>url.
         elocal (list_link \<lparr>cl_url = url, cl_text = (case hl_title lib doc of Some t \<Rightarrow> t | None \<Rightarrow> fe_url response),
           cl_score = 100, cl_reasons = [asc ''detail_url_fallback''], cl_item = None\<rparr>))
       else ereturn ()) (\<lambda>_.
     ebind (ask (\<lambda>w. candidates_of w = [] \<and> k = 0)) (\<lambda>none.
     ebind (if none then discover_api_fallback env html (fe_url response) selectors pagination base_host limit else ereturn ()) (\<lambda>_.
     ereturn (doc, before_page, fresh)))))))))))))))"

fun discover_pages :: "'d crawl_env \<Rightarrow> config \<Rightarrow> config \<Rightarrow> ustr \<Rightarrow> nat \<Rightarrow> nat \<Rightarrow> nat \<Rightarrow> ustr \<Rightarrow> ustr list \<Rightarrow> nat \<Rightarrow> unit crawl" where
  "discover_pages env selectors pagination base_host limit 0 k url visited stale = ereturn ()"
| "discover_pages env selectors pagination base_host limit (Suc n) k url visited stale =
    (if url \<in> set visited then warn ''PAGINATION_LOOP_GUARD''
     else ebind (ask (full limit)) (\<lambda>done_now.
       if done_now then note_page (Stopped k ''max_articles'' None)
       else ebind (etry (crawl_fetch env url)) (\<lambda>answer. case answer of
           Inl e \<Rightarrow> page_failed env k url e
         | Inr response \<Rightarrow>
             ebind (read_page env selectors pagination base_host limit k url response) (\<lambda>(doc, before_page, fresh).
             ebind (ask (\<lambda>w. length (candidates_of w))) (\<lambda>now.
             if limit \<le> now then note_page (Stopped (k + 1) ''max_articles'' (Some (JBool (before_page \<noteq> now))))
             else ebind (elift (int_config pagination ''stop_after_no_new_pages'' 2)) (\<lambda>patience.
               let stale' = (if fresh then 0 else stale + 1) in
               if patience \<le> int stale' then note_page (Stopped (k + 1) ''no_new_articles'' (Some (JInt 0)))
               else ebind (elift (find_next_page (ce_page env) doc (fe_url response) pagination (visited @ [url]))) (\<lambda>following.
                 ebind (note_page (Turned (k + 1) following (int now - int before_page))) (\<lambda>_.
                 case following of
                   None \<Rightarrow> ereturn ()
                 | Some u \<Rightarrow> discover_pages env selectors pagination base_host limit n (Suc k) u (visited @ [url]) stale'))))))))"

definition discover_result :: "'d crawl_env \<Rightarrow> ustr \<Rightarrow> config \<Rightarrow> config \<Rightarrow> nat \<Rightarrow> nat option \<Rightarrow> unit crawl" where
  "discover_result env column_url selectors pagination max_pages max_articles =
    (let rules = site_rules_from_configs selectors pagination in
     if \<not> sr_enabled rules then eraise (discovery_error ''SITE_ADAPTER_DISABLED'' False)
     else
       let selectors' = merge_selector_rules selectors rules; pagination' = dmerge (merged_rules rules) pagination;
           limit = (case max_articles of Some n \<Rightarrow> n | None \<Rightarrow> 10000) in
       ebind (elift (normalize_url (pe_nfkc (ce_page env)) None column_url)) (\<lambda>url.
       ebind (elift (url_site (pe_nfkc (ce_page env)) url)) (\<lambda>base_host.
       ebind (discover_pages env selectors' pagination' base_host limit max_pages 0 url [] 0) (\<lambda>_.
       ebind (ask cw_state) (\<lambda>d.
       if ds_candidates d = [] \<and> ds_failures d = [] then warn ''NO_ARTICLES'' else ereturn ())))))"

section \<open>The articles\<close>

definition parse_detail :: "'d crawl_env \<Rightarrow> config \<Rightarrow> ustr \<Rightarrow> crawled_document crawl" where
  "parse_detail env selectors url =
    ebind (crawl_fetch env url) (\<lambda>response. elift (parse_detail_response (ce_page env) response selectors))"

definition read_candidate :: "'d crawl_env \<Rightarrow> config \<Rightarrow> candidate_link \<Rightarrow> crawled_document crawl" where
  "read_candidate env selectors c =
    (case cl_item c of
       Some item \<Rightarrow>
         if api_item_has_content item then elift (document_from_api_item (ce_page env) item (cl_url c))
         else parse_detail env selectors (cl_url c)
     | None \<Rightarrow> parse_detail env selectors (cl_url c))"

definition with_discovery_score :: "int \<Rightarrow> crawled_document \<Rightarrow> crawled_document" where
  "with_discovery_score score d = d\<lparr>cd_score := score\<rparr>"

fun crawl_details :: "'d crawl_env \<Rightarrow> config \<Rightarrow> nat option \<Rightarrow> crawled_document list \<Rightarrow> candidate_link list
    \<Rightarrow> crawled_document list crawl" where
  "crawl_details env selectors limit got [] = ereturn got"
| "crawl_details env selectors limit got (c # cs) =
    (if (case limit of Some n \<Rightarrow> n \<le> length got | None \<Rightarrow> False) then ereturn got
     else ebind (etry (read_candidate env selectors c)) (\<lambda>r. case r of
         Inr d \<Rightarrow> crawl_details env selectors limit (got @ [with_discovery_score (cl_score c) d]) cs
       | Inl e \<Rightarrow>
           ebind (fail_at \<lparr>cf_url = cl_url c, cf_stage = ''detail'', cf_code = classify_detail_error (ce_page env) e,
             cf_message = safe_error_message (ce_page env) e, cf_retryable = retryable_exception (ce_page env) e\<rparr>) (\<lambda>_.
           crawl_details env selectors limit got cs)))"

text \<open>The result: the documents, and the discovery state with its warnings made distinct.\<close>

record crawl_result =
  cr_documents :: "crawled_document list"
  cr_pages :: nat
  cr_candidates :: "candidate_link list"
  cr_links :: "ustr list"
  cr_classes :: "page_class list"
  cr_events :: "page_event list"
  cr_api :: "api_discovery option"
  cr_warnings :: "string list"
  cr_failures :: "crawl_failure list"

definition take_opt :: "nat option \<Rightarrow> 'a list \<Rightarrow> 'a list" where
  "take_opt limit xs = (case limit of Some n \<Rightarrow> take n xs | None \<Rightarrow> xs)"

definition result_of :: "discovery \<Rightarrow> crawled_document list \<Rightarrow> crawl_result" where
  "result_of d docs = \<lparr>cr_documents = docs, cr_pages = length (ds_visited d), cr_candidates = ds_candidates d,
    cr_links = ds_links d, cr_classes = ds_classes d, cr_events = ds_events d, cr_api = ds_api d,
    cr_warnings = nub (ds_warnings d), cr_failures = ds_failures d\<rparr>"

definition crawl_column :: "'d crawl_env \<Rightarrow> ustr \<Rightarrow> config \<Rightarrow> config \<Rightarrow> int \<Rightarrow> int option \<Rightarrow> crawl_result crawl" where
  "crawl_column env column_url selectors pagination max_pages max_articles =
    (if max_pages < 1 then eraise (ValueError ''max_pages must be a positive integer'')
     else if (case max_articles of Some n \<Rightarrow> n < 1 | None \<Rightarrow> False) then eraise (ValueError ''max_articles must be a positive integer'')
     else
       let limit = map_option nat max_articles in
       ebind (discover_result env column_url selectors pagination (nat max_pages) limit) (\<lambda>_.
       ebind (ask candidates_of) (\<lambda>cs.
       ebind (crawl_details env selectors limit [] (take_opt limit cs)) (\<lambda>docs.
       ebind (ask cw_state) (\<lambda>d.
       ereturn (result_of d (take_opt limit docs)))))))"

section \<open>The feed of www.gov.cn\<close>

definition page_size :: "config \<Rightarrow> exn + int" where
  "page_size pagination =
    (let bad = ValueError ''page_size must be a positive integer'' in
     case dget_or pagination (asc ''page_size'') (JInt 20) of
       JInt n \<Rightarrow> if n \<le> 0 then Inl bad else Inr n
     | JStr s \<Rightarrow> rbind (int_text s) (\<lambda>n. if n \<le> 0 then Inl bad else Inr n)
     | _ \<Rightarrow> Inl bad)"

definition feed_item :: "json \<Rightarrow> (config \<times> ustr) option" where
  "feed_item j = (case j of JObj d \<Rightarrow> (case cget d ''URL'' of JStr u \<Rightarrow> Some (d, u) | _ \<Rightarrow> None) | _ \<Rightarrow> None)"

fun feed_details :: "'d crawl_env \<Rightarrow> config \<Rightarrow> ustr \<Rightarrow> crawled_document list \<times> crawl_failure list \<Rightarrow> (config \<times> ustr) list
    \<Rightarrow> (crawled_document list \<times> crawl_failure list) crawl" where
  "feed_details env selectors base got [] = ereturn got"
| "feed_details env selectors base got ((item, raw) # items) =
    ebind (elift (normalize_url (pe_nfkc (ce_page env)) (Some base) raw)) (\<lambda>url.
    ebind (etry (parse_detail env selectors url)) (\<lambda>r. case r of
        Inl e \<Rightarrow>
          let said = exn_text (ce_page env) e in
          feed_details env selectors base (fst got, snd got @ [\<lparr>cf_url = url, cf_stage = ''detail'',
            cf_code = (if contains (lower said) (asc ''selector'') then ''DETAIL_SCHEMA_UNKNOWN'' else ''ARTICLE_FETCH_FAILED''),
            cf_message = (if take 500 said \<noteq> [] then take 500 said else asc (exn_class e)), cf_retryable = is_timeout e\<rparr>]) items
      | Inr d \<Rightarrow>
          feed_details env selectors base (fst got @ [
            (case (some_text (cd_date d), cget item ''DOCRELPUBTIME'') of
               (None, JStr p) \<Rightarrow> d\<lparr>cd_date := Some p\<rparr>
             | _ \<Rightarrow> d)], snd got) items))"

definition govcn_crawl_column :: "'d crawl_env \<Rightarrow> ustr \<Rightarrow> config \<Rightarrow> config \<Rightarrow> int \<Rightarrow> int option \<Rightarrow> crawl_result crawl" where
  "govcn_crawl_column env column_url selectors pagination max_pages max_articles =
    (let nfkc = pe_nfkc (ce_page env) in
     ebind (elift (normalize_url nfkc None column_url)) (\<lambda>url.
     ebind (crawl_fetch env url) (\<lambda>response.
     ebind (elift (rbind (pe_text (ce_page env) response) (pe_loads (ce_page env)))) (\<lambda>payload. case payload of
       JList feed \<Rightarrow>
         ebind (elift (page_size pagination)) (\<lambda>size.
         let limit = (case max_articles of Some n \<Rightarrow> min (max_pages * size) n | None \<Rightarrow> max_pages * size);
             items = List.map_filter feed_item (py_take limit feed) in
         ebind (feed_details env selectors (fe_url response) ([], []) items) (\<lambda>(docs, failures).
         ebind (elift (rmap (\<lambda>(item, raw). normalize_url nfkc (Some (fe_url response)) raw) items)) (\<lambda>links.
         ebind (elift (normalize_url nfkc None (fe_url response))) (\<lambda>here.
         ereturn \<lparr>cr_documents = docs, cr_pages = 1,
           cr_candidates = map (\<lambda>((item, raw), u). \<lparr>cl_url = u, cl_text = json_str (ce_page env) (dget_or item (asc ''TITLE'') (JStr [])),
             cl_score = 1, cl_reasons = [asc ''govcn_json_item''], cl_item = None\<rparr>) (zip items links),
           cr_links = links, cr_classes = [\<lparr>pc_url = here, pc_kind = ''json_api'', pc_status = fe_status response\<rparr>],
           cr_events = [Stopped 1 (if max_pages \<le> 1 then ''max_pages'' else ''feed_limit'') None],
           cr_api = Some \<lparr>ad_mode = ''configured'', ad_hints = [here], ad_requests = 1, ad_items = length items\<rparr>,
           cr_warnings = (if docs = [] \<and> failures = [] then [''NO_ARTICLES''] else []), cr_failures = failures\<rparr>))))
     | _ \<Rightarrow> eraise (ValueError ''gov.cn latest-policy feed must be a JSON array'')))))"

section \<open>The registry\<close>

definition crawler_for :: "'d crawl_env \<Rightarrow> ustr \<Rightarrow> exn + (ustr \<Rightarrow> config \<Rightarrow> config \<Rightarrow> int \<Rightarrow> int option \<Rightarrow> crawl_result crawl)" where
  "crawler_for env parser =
    (if parser \<in> set (keys_of [''html'', ''generic_html'', ''html_detail'', ''generic_api'']) then Inr (crawl_column env)
     else if parser = asc ''govcn_latest_json'' then Inr (govcn_crawl_column env)
     else Inl (ValueError ''unknown crawler adapter''))"

end
