(* ===== verification/CrawlColumnProps.thy ===== *)
theory CrawlColumnProps
  imports CrawlColumns
begin

text \<open>
  What a crawl of a column guarantees whatever the sites answer: how many requests it makes, which
  links it takes for articles, and that the failure of one article costs no other.
\<close>

section \<open>Rules for the operations on the crawl state\<close>

lemma wp_ask [simp]: "wp (ask f) Q E w = Q (f w) w"
  by (simp add: wp_def ask_def)

lemma wp_tell [simp]: "wp (tell f) Q E w = Q () (w\<lparr>cw_state := f (cw_state w)\<rparr>)"
  by (simp add: tell_def)

lemma wp_fetch [simp]:
  "wp (crawl_fetch env url) Q E w =
    (case ce_fetch env (length (cw_log w)) url of
       Inr r \<Rightarrow> Q r (w\<lparr>cw_log := cw_log w @ [url]\<rparr>) | Inl e \<Rightarrow> E e (w\<lparr>cw_log := cw_log w @ [url]\<rparr>))"
  by (simp add: wp_def crawl_fetch_def split: sum.split)

lemmas crawl_ops = warn_def note_page_def fail_at_def visit_def count_api_def

text \<open>\<open>holds I m\<close>: the program keeps \<open>I\<close>, whether it returns or raises.\<close>

definition stays :: "('s \<Rightarrow> bool) \<Rightarrow> ('s, 'a) eff \<Rightarrow> bool" where
  "stays I m \<longleftrightarrow> (\<forall>w. I w \<longrightarrow> I (fst (m w)))"

lemma stays_wp: "stays I m \<longleftrightarrow> (\<forall>w. I w \<longrightarrow> wp m (\<lambda>a. I) (\<lambda>e. I) w)"
proof -
  have "wp m (\<lambda>a. I) (\<lambda>e. I) w = I (fst (m w))" for w
    by (cases "m w"; cases "snd (m w)") (auto simp: wp_def)
  then show ?thesis by (simp add: stays_def)
qed

lemma stays_pure [simp]: "stays I (ereturn a)" "stays I (eraise e)" "stays I (elift r)" "stays I (ask f)"
  by (simp_all add: stays_def ereturn_def eraise_def elift_def ask_def)

lemma stays_bind: "stays I m \<Longrightarrow> (\<And>w w' a. m w = (w', Inr a) \<Longrightarrow> stays I (f a)) \<Longrightarrow> stays I (ebind m f)"
  unfolding stays_def ebind_def by (auto split: prod.split sum.split)

lemma stays_catch: "stays I m \<Longrightarrow> (\<And>e. stays I (h e)) \<Longrightarrow> stays I (ecatch m h)"
  unfolding stays_def ecatch_def by (auto split: prod.split sum.split)

lemma stays_try: "stays I m \<Longrightarrow> stays I (etry m)"
  unfolding stays_def etry_def by (auto split: prod.split)

lemma stays_if: "(b \<Longrightarrow> stays I m) \<Longrightarrow> (\<not> b \<Longrightarrow> stays I m') \<Longrightarrow> stays I (if b then m else m')"
  by simp

lemma stays_local: "(\<And>w. I w \<Longrightarrow> I (g w)) \<Longrightarrow> stays I (elocal g)"
  by (simp add: stays_def elocal_def)

section \<open>Requests\<close>

abbreviation requests :: "nat \<Rightarrow> 'a crawl \<Rightarrow> bool" where
  "requests \<equiv> costs (\<lambda>w. length (cw_log w))"

lemma requests_ops [simp]:
  "requests 0 (ask f)" "requests 0 (tell g)" "requests 0 (warn s)" "requests 0 (note_page e)" "requests 0 (fail_at x)"
  "requests 0 (count_api i j)" "requests 0 (elocal (take_link c))" "requests 0 (elocal (list_link c))"
  by (simp_all add: costs_def ask_def tell_def warn_def note_page_def fail_at_def count_api_def elocal_def
      take_link_def list_link_def)

lemma requests_fetch: "requests 1 (crawl_fetch env url)"
  by (simp add: costs_def crawl_fetch_def)

lemma requests_visit [simp]: "requests 0 (visit env url)"
  unfolding visit_def by (intro costs_bind0) simp_all

lemma log_take_links: "cw_log (take_links limit cs w) = cw_log w"
  by (induction limit cs w rule: take_links.induct) (auto simp: take_link_def list_link_def Let_def)

lemma requests_take_links [simp]: "requests 0 (elocal (take_links limit cs))"
  by (rule costs_local) (simp add: log_take_links)

lemma requests_take_items [simp]: "requests 0 (take_items env config host base limit items)"
proof (induction items)
  case (Cons item items)
  have step: "requests 0 (ebind (elocal (take_link c)) (\<lambda>_. ebind (ask (full limit)) (\<lambda>stop.
      if stop then ereturn () else take_items env config host base limit items)))" for c
    by (intro costs_bind0 costs_if) (simp_all add: Cons.IH)
  show ?case
    unfolding take_items.simps
    by (rule costs_bind0, simp, split option.split, intro conjI impI allI, rule Cons.IH, rule costs_bind0, simp,
        rule costs_if, rule Cons.IH, rule costs_bind0, simp, rule costs_if, rule Cons.IH, rule step)
qed simp

lemma requests_api_pages: "requests n (api_pages env config host limit n k url)"
proof (induction n arbitrary: k url)
  case (Suc n)
  have tail: "requests n (ebind (elift r) (\<lambda>following. case following of None \<Rightarrow> ereturn () | Some u \<Rightarrow>
      ebind (ask (\<lambda>w. u \<in> set (ds_visited (cw_state w)))) (\<lambda>visited.
        if visited then ereturn () else api_pages env config host limit n (Suc k) u)))" for r
    by (rule costs_bind0, simp, split option.split, intro conjI impI allI, simp, rule costs_bind0, simp, rule costs_if, simp,
        rule Suc.IH)
  show ?case
    unfolding api_pages.simps Let_def
    apply (rule costs_bind0, simp, rule costs_if, simp)
    apply (rule costs_bind [OF requests_fetch, of _ _ n, simplified])
    apply (rule costs_bind0, simp)+
    apply (rule costs_if, simp)
    apply (rule costs_bind0, simp)+
    apply (rule costs_if, simp, rule tail)
    done
qed simp

definition api_bound :: "config \<Rightarrow> nat" where
  "api_bound pagination = (case int_config pagination ''api_max_pages'' 100 of Inr n \<Rightarrow> nat n | Inl e \<Rightarrow> 0)"

lemma requests_hints: "requests (length hints * api_bound pagination) (try_hints env config pagination page host limit k hints)"
proof (induction hints arbitrary: k)
  case (Cons hint hints)
  let ?b = "api_bound pagination"
  have body: "requests ?b (ebind (elift (normalize_url nfkc (Some page) hint)) (\<lambda>url.
       ebind (elift (int_config pagination ''api_max_pages'' 100)) (\<lambda>n.
       ebind (api_pages env config host limit (nat n) 0 url) (\<lambda>_. ask (\<lambda>w. candidates_of w \<noteq> [])))))" for nfkc
  proof (rule costs_bind0, simp, rule costs_bind0, simp, goal_cases)
    case (1 w w' url v v' n)
    then have "?b = nat n" by (simp add: elift_def api_bound_def)
    then show ?case by (simp only:) (rule costs_bind_last [OF requests_api_pages], simp)
  qed
  have "requests (?b + length hints * ?b) (try_hints env config pagination page host limit k (hint # hints))"
    unfolding try_hints.simps
    by (rule costs_bind [OF costs_catch0 [OF body]])
      (auto intro!: costs_if costs_bind0 costs_mono [OF Cons.IH])
  then show ?case by (simp add: algebra_simps)
qed simp

lemma requests_fallback: "requests (3 * api_bound pagination) (discover_api_fallback env html page selectors pagination host limit)"
proof -
  have hints: "requests (3 * api_bound pagination)
      (try_hints env config pagination page host limit 0 (take 3 hs))" for config hs
    by (rule costs_mono [OF requests_hints]) simp
  show ?thesis
    unfolding discover_api_fallback_def Let_def
    by (rule costs_bind0, simp, rule costs_if, rule costs_mono [of _ 0], simp, simp, rule costs_bind0, simp,
        rule costs_bind_last [OF hints], rule costs_bind0, simp, rule costs_if, simp_all)
qed

definition first_page_extra :: "nat \<Rightarrow> config \<Rightarrow> nat" where
  "first_page_extra k pagination = (if k = 0 then 3 * api_bound pagination else 0)"

lemma requests_read_page: "requests (first_page_extra k pagination) (read_page env selectors pagination host limit k url response)"
proof -
  have fallback: "requests (first_page_extra k pagination) (ebind (ask (\<lambda>w. candidates_of w = [] \<and> k = 0)) (\<lambda>none.
     ebind (if none then discover_api_fallback env html (fe_url response) selectors pagination host limit else ereturn ()) (\<lambda>_.
     ereturn (doc, before_page, fresh))))" for html doc before_page fresh
    by (rule costs_bind0, simp, rule costs_bind_last, rule costs_if)
      (auto simp: ask_def first_page_extra_def intro: requests_fallback)
  have direct: "requests (first_page_extra k pagination) (ebind (if detail then
         ebind (elift r) (\<lambda>url. elocal (list_link (c url))) else ereturn ()) (\<lambda>_. m))"
    if "requests (first_page_extra k pagination) m" for detail r c and m :: "('a \<times> nat \<times> bool) crawl"
    using that by (intro costs_bind0 costs_if) simp_all
  show ?thesis
    unfolding read_page_def Let_def
    by (rule costs_bind0, simp, rule costs_bind0, simp, rule costs_bind0, simp, rule costs_bind0, simp, rule costs_bind0, simp,
        rule costs_bind0, simp, rule costs_bind0, simp, rule costs_bind0, simp, rule costs_bind0, simp,
        rule costs_bind0, rule costs_if, simp, simp, rule direct, rule fallback)
qed

lemma requests_page_failed: "requests 0 (page_failed env k url e)"
  unfolding page_failed_def Let_def by (auto intro!: costs_bind0)

lemma requests_pages: "requests (n + first_page_extra k pagination) (discover_pages env selectors pagination host limit n k url visited stale)"
proof (induction n arbitrary: k url visited stale)
  case (Suc n)
  have rest: "requests n (discover_pages env selectors pagination host limit n (Suc k) u visited' stale')" for u visited' stale'
    using Suc.IH [of "Suc k" u visited' stale'] by (simp add: first_page_extra_def)
  have page: "requests (first_page_extra k pagination + n)
      (ebind (read_page env selectors pagination host limit k url response) f)"
    if "\<And>a. requests n (f a)" for f :: "('a \<times> nat \<times> bool) \<Rightarrow> unit crawl" and response
    by (rule costs_bind [OF requests_read_page that])
  have "requests (1 + (first_page_extra k pagination + n))
      (discover_pages env selectors pagination host limit (Suc n) k url visited stale)"
    unfolding discover_pages.simps Let_def
    by (rule costs_if, simp add: costs_mono [OF requests_ops(3)], rule costs_bind0, simp, rule costs_if,
        simp add: costs_mono [OF requests_ops(4)], rule costs_bind [OF costs_try [OF requests_fetch]],
        split sum.split, intro conjI allI impI, rule costs_mono [OF requests_page_failed], simp, rule page,
        split prod.split, intro allI impI, split prod.split, intro allI impI, rule costs_bind0, simp, rule costs_if,
        simp add: costs_mono [OF requests_ops(4)], rule costs_bind0, simp, rule costs_if, simp add: costs_mono [OF requests_ops(4)],
        rule costs_bind0, simp, rule costs_bind0, simp, split option.split, intro conjI allI impI, simp, rule rest)
  then show ?case by (simp add: algebra_simps)
qed simp

lemma requests_details: "requests (length cs) (crawl_details env selectors limit got cs)"
proof (induction cs arbitrary: got)
  case (Cons c cs)
  have one: "requests 1 (read_candidate env selectors c)"
    unfolding read_candidate_def parse_detail_def
    by (auto split: option.split intro!: costs_bind_last requests_fetch [simplified] intro: costs_mono [of _ 0])
  have "requests (1 + length cs) (crawl_details env selectors limit got (c # cs))"
    unfolding crawl_details.simps
    by (rule costs_if, simp, rule costs_bind [OF costs_try [OF one]])
      (auto split: sum.split intro!: Cons.IH costs_bind0)
  then show ?case by simp
qed simp

definition effective_pagination :: "config \<Rightarrow> config \<Rightarrow> config" where
  "effective_pagination selectors pagination = dmerge (merged_rules (site_rules_from_configs selectors pagination)) pagination"

lemma requests_discover:
  "requests (n + 3 * api_bound (effective_pagination selectors pagination)) (discover_result env url selectors pagination n limit)"
proof -
  have pages: "requests (n + 3 * api_bound p) (ebind (discover_pages env s p host l n 0 u [] 0) (\<lambda>_.
       ebind (ask cw_state) (\<lambda>d. if ds_candidates d = [] \<and> ds_failures d = [] then warn ''NO_ARTICLES'' else ereturn ())))"
    for s p host l u
    by (rule costs_bind_last [OF requests_pages [of n 0, unfolded first_page_extra_def, simplified]])
      (auto intro!: costs_bind0)
  show ?thesis
    unfolding discover_result_def Let_def effective_pagination_def
    by (rule costs_if, simp, rule costs_bind0, simp, rule costs_bind0, simp, rule pages)
qed

text \<open>
  C9. Whatever the sites answer (endless next pages, APIs that always name a further page,
  redirects, errors at any request), crawling a column with an article limit makes at most
  max_pages list requests, three times the configured number of API pages (100 unless
  configured) and one request per article.
\<close>

theorem crawl_requests_bounded:
  "length (cw_log (fst (crawl_column env column_url selectors pagination max_pages (Some max_articles) w)))
    \<le> length (cw_log w) + (nat max_pages + 3 * api_bound (effective_pagination selectors pagination) + nat max_articles)"
proof -
  have details: "requests (nat max_articles) (crawl_details env selectors l [] (take_opt (Some (nat max_articles)) cs))" for l cs
    by (rule costs_mono [OF requests_details]) (simp add: take_opt_def)
  have "requests (nat max_pages + 3 * api_bound (effective_pagination selectors pagination) + nat max_articles)
      (crawl_column env column_url selectors pagination max_pages (Some max_articles))"
    unfolding crawl_column_def Let_def option.map
    by (rule costs_if, simp, rule costs_if, simp, rule costs_bind [OF requests_discover], rule costs_bind0, simp,
        rule costs_bind_last [OF details], rule costs_bind0) simp_all
  then show ?thesis unfolding costs_def by blast
qed

section \<open>Candidates\<close>

text \<open>A link found on a list or in an API reply: a normal form, on the site of the column.\<close>

definition on_site :: "(ustr \<Rightarrow> ustr) \<Rightarrow> ustr \<Rightarrow> ustr \<Rightarrow> bool" where
  "on_site nfkc base_host url \<longleftrightarrow>
    (\<exists>u h. urlsplit nfkc [] url = Inr u \<and> hostname u = Some h \<and>
      (crawl_same_site True base_host h \<or> crawl_same_site True base_host (dotless h)))"

definition found_link :: "'d crawl_env \<Rightarrow> ustr \<Rightarrow> candidate_link \<Rightarrow> bool" where
  "found_link env base_host c \<longleftrightarrow>
    (\<exists>base raw. normalize_url (pe_nfkc (ce_page env)) (Some base) raw = Inr (cl_url c))
    \<and> on_site (pe_nfkc (ce_page env)) base_host (cl_url c)"

definition fallback_link :: "candidate_link \<Rightarrow> bool" where
  "fallback_link c \<longleftrightarrow> cl_reasons c = [asc ''detail_url_fallback'']"

definition links_ok :: "'d crawl_env \<Rightarrow> ustr \<Rightarrow> crawl_world \<Rightarrow> bool" where
  "links_ok env base_host w \<longleftrightarrow>
    (\<exists>pre cs. candidates_of w = pre @ cs \<and> length pre \<le> 1 \<and> list_all fallback_link pre \<and> map cl_url cs = cw_seen w
      \<and> distinct (cw_seen w) \<and> list_all (found_link env base_host) cs
      \<and> ds_links (cw_state w) = map cl_url (pre @ cs))"

lemma usable_Inr: "usable_url nfkc base href = Inr (Some u) \<Longrightarrow> normalize_url nfkc (Some base) href = Inr u"
  by (auto simp: usable_url_def split: sum.splits if_splits)

lemma site_True: "crawl_same_site sub base host \<Longrightarrow> crawl_same_site True base host"
  by (auto simp: crawl_same_site_def Let_def)

lemma same_site_host: "crawl_same_site sub base host \<Longrightarrow> host \<noteq> []"
  by (auto simp: crawl_same_site_def Let_def dotless_def rstrip_if_def)

lemma link_of_found:
  assumes "link_of (ce_page env) page_url base_host current selected minimum sub n = Inr (Some c)"
  shows "found_link env base_host c"
proof -
  from assms obtain href url host score reasons where
      c: "c = \<lparr>cl_url = url, cl_text = dn_text n, cl_score = score, cl_reasons = reasons, cl_item = None\<rparr>"
    and u: "usable_url (pe_nfkc (ce_page env)) page_url href = Inr (Some url)"
    and h: "url_site (pe_nfkc (ce_page env)) url = Inr host"
    and s: "host \<noteq> []" "crawl_same_site sub base_host host"
    unfolding link_of_def by (auto simp: rbind_Inr split: if_splits option.splits)
  from h obtain p where p: "urlsplit (pe_nfkc (ce_page env)) [] url = Inr p" "host = host_of p"
    by (auto simp: url_site_def rbind_Inr)
  with s obtain x where x: "hostname p = Some x" "host = dotless x"
    by (cases "hostname p") (auto simp: host_of_def dotless_def rstrip_if_def)
  show ?thesis
    using usable_Inr [OF u] p x site_True [OF s(2)] by (auto simp: found_link_def on_site_def c)
qed

lemma rmap_found: "rmap f xs = Inr ys \<Longrightarrow> c \<in> set (List.map_filter id ys) \<Longrightarrow> \<exists>x \<in> set xs. f x = Inr (Some c)"
  by (induction xs arbitrary: ys) (auto simp: rbind_Inr map_filter_simps split: option.splits)

lemma extract_found:
  assumes "extract_candidates (ce_page env) doc page_url base_host selectors pagination current = Inr cs"
  shows "list_all (found_link env base_host) cs"
proof -
  from assms obtain sel mn sub ns found where
      r: "rmap (link_of (ce_page env) page_url base_host current sel mn sub) ns = Inr found"
    and cs: "cs = sort_key (\<lambda>c. (- cl_score c, cl_url c)) (List.map_filter id found)"
    unfolding extract_candidates_def Let_def by (auto simp: rbind_Inr)
  have "found_link env base_host c" if "c \<in> set cs" for c
    using rmap_found [OF r, of c] that link_of_found by (auto simp: cs)
  then show ?thesis by (simp add: list_all_iff)
qed

lemma api_found:
  assumes "candidate_from_api_item page item config base = Inr (Some c)"
  shows "\<exists>raw. normalize_url (pe_nfkc page) (Some base) raw = Inr (cl_url c)"
proof -
  from assms obtain raw url where "usable_url (pe_nfkc page) base raw = Inr (Some url)" "cl_url c = url"
    unfolding candidate_from_api_item_def Let_def
    by (auto simp: rbind_Inr some_text_def split: option.splits if_splits)
  then show ?thesis using usable_Inr by blast
qed

lemma links_ok_cong:
  "candidates_of v = candidates_of w \<Longrightarrow> cw_seen v = cw_seen w \<Longrightarrow> ds_links (cw_state v) = ds_links (cw_state w)
    \<Longrightarrow> links_ok env host v = links_ok env host w"
  by (simp add: links_ok_def)

lemma links_ok_take:
  assumes "links_ok env host w" "cl_url c \<notin> set (cw_seen w)" "found_link env host c"
  shows "links_ok env host (take_link c w)"
proof -
  from assms(1) obtain pre cs where p: "candidates_of w = pre @ cs" "length pre \<le> 1" "list_all fallback_link pre"
    "map cl_url cs = cw_seen w" "distinct (cw_seen w)" "list_all (found_link env host) cs" "ds_links (cw_state w) = map cl_url (pre @ cs)"
    unfolding links_ok_def by blast
  show ?thesis
    unfolding links_ok_def
    by (rule exI [of _ pre], rule exI [of _ "cs @ [c]"])
      (use p assms(2,3) in \<open>simp add: take_link_def list_link_def candidates_of_def\<close>)
qed

lemma links_ok_fallback: "links_ok env host w \<Longrightarrow> candidates_of w = [] \<Longrightarrow> fallback_link c \<Longrightarrow> links_ok env host (list_link c w)"
  unfolding links_ok_def by (rule exI [of _ "[c]"], rule exI [of _ "[]"]) (auto simp: list_link_def candidates_of_def)

lemma links_ok_take_links:
  "links_ok env host w \<Longrightarrow> list_all (found_link env host) cs \<Longrightarrow> links_ok env host (take_links limit cs w)"
  by (induction limit cs w rule: take_links.induct) (auto simp: Let_def links_ok_take)

lemma stays_tell:
  "(\<And>d. ds_candidates (f d) = ds_candidates d \<and> ds_links (f d) = ds_links d) \<Longrightarrow> stays (links_ok env host) (tell f)"
  unfolding tell_def
  by (rule stays_local, subst links_ok_cong) (auto simp: candidates_of_def)

lemma links_ok_ops [simp]:
  "stays (links_ok env host) (warn s)" "stays (links_ok env host) (note_page e)" "stays (links_ok env host) (fail_at x)"
  "stays (links_ok env host) (count_api i j)" "stays (links_ok env host) (visit env' url)"
  "stays (links_ok env host) (crawl_fetch env' url)"
  by (auto simp: crawl_ops intro!: stays_tell stays_bind)
    (auto simp: stays_def crawl_fetch_def links_ok_cong [of "w\<lparr>cw_log := l\<rparr>" w for w l] candidates_of_def)

lemma links_ok_items: "stays (links_ok env host) (take_items env config host base limit items)"
proof (induction items)
  case (Cons item items)
  have rest: "links_ok env host w \<Longrightarrow> wp (take_items env config host base limit items) (\<lambda>a. links_ok env host) (\<lambda>e. links_ok env host) w" for w
    using Cons.IH by (simp add: stays_wp)
  have one: "wp (ebind (ask (\<lambda>w. cl_url c \<in> set (cw_seen w))) (\<lambda>seen.
        if seen then take_items env config host base limit items
        else ebind (elift (urlsplit (pe_nfkc (ce_page env)) [] (cl_url c))) (\<lambda>u.
          if \<not> crawl_same_site True host (case hostname u of Some h \<Rightarrow> h | None \<Rightarrow> [])
          then take_items env config host base limit items
          else ebind (elocal (take_link c)) (\<lambda>_. ebind (ask (full limit)) (\<lambda>stop.
            if stop then ereturn () else take_items env config host base limit items)))))
      (\<lambda>a. links_ok env host) (\<lambda>e. links_ok env host) w"
    if c: "candidate_from_api_item (ce_page env) item config base = Inr (Some c)" and w: "links_ok env host w" for c w
  proof (cases "cl_url c \<in> set (cw_seen w)")
    case False
    show ?thesis
    proof (cases "urlsplit (pe_nfkc (ce_page env)) [] (cl_url c)")
      case (Inr u)
      have "found_link env host c" if s: "crawl_same_site True host (case hostname u of Some h \<Rightarrow> h | None \<Rightarrow> [])"
        using api_found [OF c] same_site_host [OF s] s Inr
        by (cases "hostname u") (auto simp: found_link_def on_site_def)
      then show ?thesis using False Inr w rest links_ok_take [OF w False] by simp
    qed (use False w in simp)
  qed (use rest w in simp)
  show ?case
    unfolding stays_wp take_items.simps
    using one rest by (auto split: sum.split option.split)
qed simp

lemma links_ok_api_pages: "stays (links_ok env host) (api_pages env config host limit n k url)"
proof (induction n arbitrary: k url)
  case (Suc n)
  show ?case
    unfolding api_pages.simps Let_def
    by (rule stays_bind, simp, rule stays_if, simp)
      (auto intro!: stays_bind stays_if links_ok_items Suc.IH split: option.split)
qed simp

lemma links_ok_hints: "stays (links_ok env host) (try_hints env config pagination page host limit k hints)"
proof (induction hints arbitrary: k)
  case (Cons hint hints)
  show ?case
    unfolding try_hints.simps
    by (auto intro!: stays_bind stays_catch stays_if links_ok_api_pages Cons.IH)
qed simp

lemma links_ok_api: "stays (links_ok env host) (discover_api_fallback env html page selectors pagination host limit)"
  unfolding discover_api_fallback_def Let_def
  by (auto intro!: stays_bind stays_if links_ok_hints stays_tell)

lemma stays_wp_at: "stays I m \<Longrightarrow> I w \<Longrightarrow> wp m (\<lambda>a. I) (\<lambda>e. I) w"
  by (simp add: stays_wp)

lemma wp_guess:
  assumes "\<And>detail. (detail \<Longrightarrow> A w) \<Longrightarrow> wp (f detail) Q E w" "\<And>e. E e w"
  shows "wp (ebind (ask A) (\<lambda>none. ebind (if none then elift r else ereturn False) f)) Q E w"
proof (cases "A w")
  case True
  then have "wp (f d) Q E w" for d using assms(1) by blast
  then show ?thesis using True assms(2) by (simp split: sum.split)
qed (use assms(1) [of False] in simp)

lemma links_ok_read_page: "stays (links_ok env host) (read_page env selectors pagination host limit k url response)"
proof -
  let ?I = "links_ok env host" let ?page = "ce_page env"
  have tail: "stays ?I (ebind (ask (\<lambda>w. candidates_of w = [] \<and> k = 0)) (\<lambda>none.
     ebind (if none then elift (looks_like_detail_page ?page doc (fe_url response) selectors) else ereturn False) (\<lambda>detail.
     ebind (if detail then
         ebind (elift (normalize_url (pe_nfkc ?page) None (fe_url response))) (\<lambda>url.
         elocal (list_link \<lparr>cl_url = url, cl_text = t, cl_score = 100, cl_reasons = [asc ''detail_url_fallback''], cl_item = None\<rparr>))
       else ereturn ()) (\<lambda>_.
     ebind (ask (\<lambda>w. candidates_of w = [] \<and> k = 0)) (\<lambda>none.
     ebind (if none then discover_api_fallback env html (fe_url response) selectors pagination host limit else ereturn ()) (\<lambda>_.
     ereturn (doc, b, fresh)))))))" for doc t html b fresh
  proof -
    have rest: "stays ?I (ebind (ask (\<lambda>w. candidates_of w = [] \<and> k = 0)) (\<lambda>none.
       ebind (if none then discover_api_fallback env html (fe_url response) selectors pagination host limit else ereturn ()) (\<lambda>_.
       ereturn (doc, b, fresh))))"
      by (auto intro!: stays_bind stays_if links_ok_api)
    have direct: "wp (ebind (elift r) (\<lambda>url.
         elocal (list_link \<lparr>cl_url = url, cl_text = t, cl_score = 100, cl_reasons = [asc ''detail_url_fallback''], cl_item = None\<rparr>)))
        (\<lambda>a. ?I) (\<lambda>e. ?I) w" if "?I w" "candidates_of w = []" for w r
      using that by (auto simp: fallback_link_def intro!: links_ok_fallback split: sum.split)
    have "wp (ebind (if detail then ebind (elift r) (\<lambda>url.
         elocal (list_link \<lparr>cl_url = url, cl_text = t, cl_score = 100, cl_reasons = [asc ''detail_url_fallback''], cl_item = None\<rparr>))
         else ereturn ()) (\<lambda>_. ebind (ask (\<lambda>w. candidates_of w = [] \<and> k = 0)) (\<lambda>none.
       ebind (if none then discover_api_fallback env html (fe_url response) selectors pagination host limit else ereturn ()) (\<lambda>_.
       ereturn (doc, b, fresh))))) (\<lambda>a. ?I) (\<lambda>e. ?I) w"
      if w: "?I w" "detail \<longrightarrow> candidates_of w = []" for w r detail
    proof (cases detail)
      case True
      show ?thesis
        unfolding wp_bind [of "if detail then _ else _"]
        by (rule wp_mono [of _ "\<lambda>a. ?I" "\<lambda>e. ?I"]) (use direct w True stays_wp_at [OF rest] in simp_all)
    qed (use w stays_wp_at [OF rest] in simp)
    then show ?thesis
      unfolding stays_wp by (intro allI impI wp_guess) auto
  qed
  show ?thesis
    unfolding read_page_def Let_def
  proof (rule stays_bind, simp, rule stays_bind, simp, rule stays_bind, simp, rule stays_bind, rule stays_tell, simp,
      rule stays_bind, simp, rule stays_bind, simp, goal_cases)
    case (1 w1 w1' u1 w2 w2' html w3 w3' kind w4 w4' u4 w5 w5' b w6 w6' found)
    then have "extract_candidates (ce_page env) (hl_parse (pe_lib (ce_page env)) html) (fe_url response) host selectors pagination url = Inr found"
      by (simp add: elift_def)
    note ok = extract_found [OF this]
    show ?case
      by (rule stays_bind, rule stays_local, erule links_ok_take_links, rule ok, rule stays_bind, simp, rule tail)
  qed
qed

lemma links_ok_page_failed: "stays (links_ok env host) (page_failed env k url e)"
  unfolding page_failed_def Let_def by (auto intro!: stays_bind)

lemma links_ok_pages: "stays (links_ok env host) (discover_pages env selectors pagination host limit n k url visited stale)"
proof (induction n arbitrary: k url visited stale)
  case (Suc n)
  show ?case
    unfolding discover_pages.simps Let_def
    by (rule stays_if, simp, rule stays_bind, simp, rule stays_if, simp, rule stays_bind, rule stays_try, simp,
        split sum.split, intro conjI allI impI, rule links_ok_page_failed, rule stays_bind, rule links_ok_read_page,
        split prod.split, intro allI impI, split prod.split, intro allI impI, rule stays_bind, simp, rule stays_if, simp,
        rule stays_bind, simp, rule stays_if, simp, rule stays_bind, simp, rule stays_bind, simp,
        split option.split, intro conjI allI impI, simp, rule Suc.IH)
qed simp

lemma links_ok_start: "links_ok env host (start_crawl_world past)"
  by (auto simp: links_ok_def start_crawl_world_def candidates_of_def no_discovery_def)

lemma discover_links:
  assumes "discover_result env column_url selectors pagination n limit (start_crawl_world past) = (w, Inr u)"
  shows "\<exists>url host. normalize_url (pe_nfkc (ce_page env)) None column_url = Inr url
    \<and> url_site (pe_nfkc (ce_page env)) url = Inr host \<and> links_ok env host w"
proof -
  obtain url host where n: "normalize_url (pe_nfkc (ce_page env)) None column_url = Inr url"
    and h: "url_site (pe_nfkc (ce_page env)) url = Inr host"
    using assms
    by (cases "normalize_url (pe_nfkc (ce_page env)) None column_url"; cases "url_site (pe_nfkc (ce_page env)) (projr (normalize_url (pe_nfkc (ce_page env)) None column_url))")
      (auto simp: discover_result_def Let_def ebind_def elift_def eraise_def split: if_splits)
  have "stays (links_ok env host) (discover_result env column_url selectors pagination n limit)"
    unfolding discover_result_def Let_def by (auto intro!: stays_if stays_bind links_ok_pages simp: n h elift_def)
  then have "links_ok env host w"
    using links_ok_start assms unfolding stays_def by (metis fst_conv)
  with n h show ?thesis by blast
qed

section \<open>Articles\<close>

text \<open>What reading the candidates gave, one by one: the documents and the failures it leaves.\<close>

definition read_documents :: "(candidate_link \<times> (exn + crawled_document)) list \<Rightarrow> crawled_document list" where
  "read_documents rs = List.map_filter (\<lambda>(c, r). case r of Inr d \<Rightarrow> Some (d\<lparr>cd_score := cl_score c\<rparr>) | Inl e \<Rightarrow> None) rs"

definition read_failures :: "'d crawl_env \<Rightarrow> (candidate_link \<times> (exn + crawled_document)) list \<Rightarrow> crawl_failure list" where
  "read_failures env rs = List.map_filter (\<lambda>(c, r). case r of
      Inl e \<Rightarrow> Some \<lparr>cf_url = cl_url c, cf_stage = ''detail'', cf_code = classify_detail_error (ce_page env) e,
        cf_message = safe_error_message (ce_page env) e, cf_retryable = retryable_exception (ce_page env) e\<rparr>
    | Inr d \<Rightarrow> None) rs"

lemma read_all: "length (read_documents rs) + length (read_failures env rs) = length rs"
  unfolding read_documents_def read_failures_def
  by (induction rs) (auto simp: map_filter_simps split: sum.split)

lemma details_result:
  assumes "\<And>n. limit = Some n \<Longrightarrow> length got + length cs \<le> n"
  shows "\<exists>w' rs. crawl_details env selectors limit got cs w = (w', Inr (got @ read_documents (zip cs rs))) \<and> length rs = length cs
    \<and> cw_state w' = (cw_state w)\<lparr>ds_failures := ds_failures (cw_state w) @ read_failures env (zip cs rs)\<rparr>"
  using assms
proof (induction cs arbitrary: got w)
  case Nil
  then show ?case by (intro exI [of _ w] exI [of _ "[]"]) (simp add: ereturn_def read_documents_def read_failures_def map_filter_simps)
next
  case (Cons c cs)
  obtain w1 r where r: "read_candidate env selectors c w = (w1, r)" by (cases "read_candidate env selectors c w")
  have same: "cw_state w1 = cw_state w"
    using r unfolding read_candidate_def parse_detail_def
    by (auto simp: elift_def ebind_def crawl_fetch_def split: option.splits if_splits sum.splits)
  have go: "\<not> (case limit of Some n \<Rightarrow> n \<le> length got | None \<Rightarrow> False)" using Cons.prems by (auto split: option.split)
  show ?case
  proof (cases r)
    case (Inr d)
    obtain w' rs where i: "crawl_details env selectors limit (got @ [with_discovery_score (cl_score c) d]) cs w1
        = (w', Inr ((got @ [with_discovery_score (cl_score c) d]) @ read_documents (zip cs rs)))"
      "length rs = length cs" "cw_state w' = (cw_state w1)\<lparr>ds_failures := ds_failures (cw_state w1) @ read_failures env (zip cs rs)\<rparr>"
      using Cons.IH [of "got @ [with_discovery_score (cl_score c) d]" w1] Cons.prems by auto
    show ?thesis
      by (intro exI [of _ w'] exI [of _ "r # rs"])
        (use go r i same Inr in \<open>simp add: ebind_def etry_def read_documents_def read_failures_def map_filter_simps with_discovery_score_def\<close>)
  next
    case (Inl e)
    let ?f = "\<lparr>cf_url = cl_url c, cf_stage = ''detail'', cf_code = classify_detail_error (ce_page env) e,
        cf_message = safe_error_message (ce_page env) e, cf_retryable = retryable_exception (ce_page env) e\<rparr>"
    let ?w = "w1\<lparr>cw_state := (cw_state w1)\<lparr>ds_failures := ds_failures (cw_state w1) @ [?f]\<rparr>\<rparr>"
    obtain w' rs where i: "crawl_details env selectors limit got cs ?w = (w', Inr (got @ read_documents (zip cs rs)))"
      "length rs = length cs" "cw_state w' = (cw_state ?w)\<lparr>ds_failures := ds_failures (cw_state ?w) @ read_failures env (zip cs rs)\<rparr>"
      using Cons.IH [of got ?w] Cons.prems by fastforce
    show ?thesis
      by (intro exI [of _ w'] exI [of _ "r # rs"])
        (use go r i same Inl in \<open>simp add: ebind_def etry_def fail_at_def tell_def elocal_def read_documents_def read_failures_def map_filter_simps\<close>)
  qed
qed

lemma zip_truncate: "length rs = min (length cs) n \<Longrightarrow> zip (take n cs) rs = zip cs rs"
  by (induction cs arbitrary: n rs) (auto simp: take_Cons length_Suc_conv split: nat.split)

lemma read_documents_length: "length rs = length cs \<Longrightarrow> length (read_documents (zip cs rs)) \<le> length cs"
  using read_all [of "zip cs rs"] by (metis le_add1 length_zip min.idem)

end
