(* ===== verification/CrawlColumnClaims.thy ===== *)
theory CrawlColumnClaims
  imports CrawlColumnProps
begin

text \<open>
  The candidates of a crawl, with examples: a small site whose pages are lists of elements, and the
  cases in which paging does not behave as it means to.
\<close>

section \<open>A small site\<close>

definition element :: "nat \<Rightarrow> ustr \<Rightarrow> ustr \<Rightarrow> ustr option \<Rightarrow> dom_node" where
  "element i name content href = \<lparr>dn_id = i, dn_name = name, dn_text = content, dn_lines = content,
    dn_attr = (\<lambda>k. if k = asc ''href'' then href else None), dn_classes = [], dn_parent_classes = []\<rparr>"

text \<open>A selector of the example is the name of the elements it selects.\<close>

definition small_lib :: "(ustr \<Rightarrow> dom_node list) \<Rightarrow> dom_node list html_lib" where
  "small_lib parse = \<lparr>hl_parse = parse,
    hl_select = (\<lambda>doc sel. Inr (filter (\<lambda>n. dn_name n = (if sel = asc ''a[href]'' then asc ''a'' else sel)) doc)),
    hl_within = (\<lambda>doc i sel. []), hl_prune = (\<lambda>doc i sel. doc),
    hl_node = (\<lambda>doc i. case find (\<lambda>n. dn_id n = i) doc of Some n \<Rightarrow> n | None \<Rightarrow> element i [] [] None), hl_title = (\<lambda>doc. None)\<rparr>"

definition small_page :: "(ustr \<Rightarrow> dom_node list) \<Rightarrow> dom_node list page_env" where
  "small_page parse = \<lparr>pe_lib = small_lib parse, pe_nfkc = (\<lambda>s. s), pe_text = (\<lambda>r. Inr (fe_content r)),
    pe_loads = (\<lambda>s. Inl (OtherError ''JSONDecodeError'')), pe_dumps = (\<lambda>j. []), pe_str = (\<lambda>j. []), pe_format = (\<lambda>t c. Inr t),
    pe_message = (\<lambda>e. []), pe_http_status = (\<lambda>e. None)\<rparr>"

definition small_reply :: "ustr \<Rightarrow> fetched" where
  "small_reply url = \<lparr>fe_url = url, fe_status = 200, fe_content = url, fe_type = asc ''text/html'', fe_encoding = asc ''utf-8'',
    fe_disposition = None\<rparr>"

definition news_url :: ustr where
  "news_url = asc ''https://a.gov.cn/news''"

definition news_site :: "ustr \<Rightarrow> dom_node list" where
  "news_site s =
    (if s = news_url
     then [element 1 (asc ''a'') (asc ''policy'') (Some (asc ''/art/1.html'')), element 2 (asc ''a'') (asc ''policy'') (Some (asc ''/art/2.html'')),
       element 3 (asc ''a'') (asc ''policy'') (Some (asc ''https://b.com/art/3.html''))]
     else [element 1 (asc ''h1'') (asc ''Title'') None, element 2 (asc ''article'') (asc ''Text'') None])"

text \<open>The second article cannot be fetched.\<close>

definition news_env :: "dom_node list crawl_env" where
  "news_env = \<lparr>ce_page = small_page news_site,
    ce_fetch = (\<lambda>k u. if u = asc ''https://a.gov.cn/art/2.html'' then Inl (OtherError ''ConnectError'') else Inr (small_reply u))\<rparr>"

definition news_result :: crawl_result where
  "news_result = projr (snd (crawl_column news_env news_url [] [] 1 (Some 5) (start_crawl_world [])))"

lemma news_crawled: "crawl_column news_env news_url [] [] 1 (Some 5) (start_crawl_world []) =
    (fst (crawl_column news_env news_url [] [] 1 (Some 5) (start_crawl_world [])), Inr news_result)"
proof -
  have "isl (snd (crawl_column news_env news_url [] [] 1 (Some 5) (start_crawl_world []))) = False" by code_simp
  then show ?thesis unfolding news_result_def by (metis prod.collapse sum.collapse(2))
qed

lemma news_articles: "map cd_url (cr_documents news_result) = [asc ''https://a.gov.cn/art/1.html'']"
  "map cl_url (cr_candidates news_result) = [asc ''https://a.gov.cn/art/1.html'', asc ''https://a.gov.cn/art/2.html'']"
  by code_simp+

section \<open>Candidates\<close>

text \<open>
  C10. The candidates a crawl reports are, besides at most one fallback that stands for the
  column page itself, distinct, in normal form, and on the site of the column (its host, a
  subdomain or a parent domain), whether they come from links, from inline API hints or from a
  configured API; the reported links are the URLs of the candidates.
\<close>

theorem crawl_candidates_sound:
  assumes "crawl_column env column_url selectors pagination max_pages max_articles (start_crawl_world past) = (w, Inr r)"
  shows "\<exists>url host pre cs. normalize_url (pe_nfkc (ce_page env)) None column_url = Inr url \<and> url_site (pe_nfkc (ce_page env)) url = Inr host
    \<and> cr_candidates r = pre @ cs \<and> length pre \<le> 1 \<and> list_all fallback_link pre
    \<and> distinct (map cl_url cs) \<and> list_all (found_link env host) cs \<and> cr_links r = map cl_url (cr_candidates r)"
proof -
  let ?l = "map_option nat max_articles"
  from assms obtain w1 where d: "discover_result env column_url selectors pagination (nat max_pages) ?l (start_crawl_world past) = (w1, Inr ())"
    by (cases "discover_result env column_url selectors pagination (nat max_pages) ?l (start_crawl_world past)"; cases "snd (discover_result env column_url selectors pagination (nat max_pages) ?l (start_crawl_world past))")
      (auto simp: crawl_column_def Let_def ebind_def eraise_def split: if_splits)
  from discover_links [OF this] obtain url host where n: "normalize_url (pe_nfkc (ce_page env)) None column_url = Inr url"
    "url_site (pe_nfkc (ce_page env)) url = Inr host" and ok: "links_ok env host w1" by blast
  have le: "\<And>n. ?l = Some n \<Longrightarrow> length (take_opt ?l (candidates_of w1)) \<le> n" by (cases max_articles) (auto simp: take_opt_def)
  obtain w2 rs where t: "crawl_details env selectors ?l [] (take_opt ?l (candidates_of w1)) w1
      = (w2, Inr (read_documents (zip (take_opt ?l (candidates_of w1)) rs)))"
    "cw_state w2 = (cw_state w1)\<lparr>ds_failures := ds_failures (cw_state w1) @ read_failures env (zip (take_opt ?l (candidates_of w1)) rs)\<rparr>"
    using details_result [of ?l "[]" "take_opt ?l (candidates_of w1)" env selectors w1] le by auto
  have "cr_candidates r = candidates_of w1 \<and> cr_links r = ds_links (cw_state w1)"
    using assms d t by (auto simp: crawl_column_def Let_def ebind_def ask_def eraise_def ereturn_def result_of_def candidates_of_def
        split: if_splits)
  with ok n show ?thesis unfolding links_ok_def by metis
qed

theorem crawl_candidates_sound_witness:
  "\<exists>url host pre cs. normalize_url (pe_nfkc (ce_page news_env)) None news_url = Inr url \<and> url_site (pe_nfkc (ce_page news_env)) url = Inr host
    \<and> cr_candidates news_result = pre @ cs \<and> length pre \<le> 1 \<and> list_all fallback_link pre
    \<and> distinct (map cl_url cs) \<and> list_all (found_link news_env host) cs \<and> cr_links news_result = map cl_url (cr_candidates news_result)"
  by (rule crawl_candidates_sound [OF news_crawled])


definition news_world :: crawl_world where
  "news_world = fst (discover_result news_env news_url [] [] (nat 1) (Some (nat 5)) (start_crawl_world []))"


section \<open>Paging\<close>

text \<open>
  A page parameter that is not in lower case is read but never replaced: the page after the second
  is the second.
\<close>

lemma page_case_stuck:
  "find_next_page (small_page news_site) [] (asc ''https://a.gov.cn/list?Page=1'') [] [] = Inr (Some (asc ''https://a.gov.cn/list?Page=1&page=2''))"
  "find_next_page (small_page news_site) [] (asc ''https://a.gov.cn/list?Page=1&page=2'') [] [] = Inr (Some (asc ''https://a.gov.cn/list?Page=1&page=2''))"
  by code_simp+

text \<open>Pages counted from zero: the page after page 0 is page 2.\<close>

lemma page_zero_skipped:
  "find_next_page (small_page news_site) [] (asc ''https://a.gov.cn/list?page=0'') [] [] = Inr (Some (asc ''https://a.gov.cn/list?page=2''))"
  by code_simp

text \<open>
  A column that is an article itself, with a second page that links back to the first: the fallback is
  not marked as seen, so the article is a candidate twice.
\<close>

definition article_url :: ustr where
  "article_url = asc ''https://a.gov.cn/art/12345.html''"

definition article_site :: "ustr \<Rightarrow> dom_node list" where
  "article_site s =
    (if s = article_url
     then [element 1 (asc ''h1'') (asc ''Title'') None, element 2 (asc ''article'') (replicate 200 97) None,
       element 3 (asc ''a'') (asc ''next'') (Some (asc ''/art/12345_2.html''))]
     else [element 1 (asc ''a'') (asc ''policy'') (Some (asc ''/art/12345.html''))])"

definition article_env :: "dom_node list crawl_env" where
  "article_env = \<lparr>ce_page = small_page article_site, ce_fetch = (\<lambda>k u. Inr (small_reply u))\<rparr>"

lemma fallback_crawled_twice:
  "map cl_url (cr_candidates (projr (snd (crawl_column article_env article_url [] [] 3 (Some 5) (start_crawl_world []))))) = [article_url, article_url]"
  by code_simp

end
