(* ===== verification/Spec2Isabelle.thy ===== *)
theory Spec2Isabelle
  imports Engine Documents Chunking CrawlQueue RateLimit Review Evaluation Grounding EvidenceProps Chat Embedding Indexing SourceClaims SourceGap CrawlColumnClaims
begin

text \<open>
  ODIRAG collects official documents, reviews, indexes and searches them, and answers questions
  about them with citations or refuses. This library models its backend (\<open>src/backend/app\<close>) in
  Isabelle/HOL and proves what makes it correct. Definitions are translated from the Python
  source, function by function, and keep its names where HOL allows; the manifest maps each to its
  lines.

  \<^bold>\<open>The program.\<close> A crawl task visits a column of a source through a provider (a local crawler or
  a Coze workflow), stores the articles as documents with their reviews, attachments and lineage,
  and counts what it did. A second worker finds new sources: where a topic is covered too thinly, it
  searches the web for official sites, validates and scores them, and an administrator approves.
  Documents are cleaned, fingerprinted, filtered by rules and reviewed by
  a model or a person. Approved ones are cut into chunks, embedded and indexed for keyword and
  vector search. A question is analysed, routed, searched for in both indexes, fused, reranked,
  and answered by a language model only if two gates find the hits sufficient; the answer is checked
  against the hits it cites and stored as a trace. The components share the database rows (records
  here) and call each other as the code does: \<open>chat_answer\<close> calls \<open>engine_search\<close>, \<open>assess\<close>,
  \<open>ground_assess\<close>, the model and \<open>validate_answer\<close>; \<open>engine_search\<close> calls the analysis, both
  indexes, the fusion and the reranker; a run of a task calls the persistence of batches, which
  calls document versioning.

  \<^bold>\<open>Theories.\<close> Foundations:
  \<^item> \<open>Prelude\<close>: results with exceptions, insertion-ordered dictionaries, deduplication, rounding,
    slices, and the collections \<open>dict_simps\<close> and \<open>guard_simps\<close>.
  \<^item> \<open>PyUnicode\<close>, \<open>PyText\<close>, \<open>PyValues\<close>, \<open>PyJson\<close>: Python's strings as lists of code points with
    their character classes, string methods, dates, dynamic values and JSON.
  \<^item> \<open>Effects\<close>: programs on a state that may raise, with weakest preconditions.
  \<^item> \<open>PyRegex\<close>, \<open>PyRegexLang\<close>, \<open>PyRegexSplit\<close>: the fragment of \<open>re\<close> the code uses, as a
    backtracking matcher over values of type \<open>rx\<close>, its soundness for the language of the pattern,
    and \<open>findall\<close>, \<open>split\<close> and \<open>sub\<close>.

  Search (from the leaves up):
  \<^item> \<open>Retrieval\<close>: \<open>retrieval/models.py\<close> and \<open>rrf.py\<close>.
  \<^item> \<open>Search\<close>: \<open>bm25/index.py\<close> and the in-memory store of \<open>vector_store/store.py\<close>, both as a
    \<open>hit_source\<close>.
  \<^item> \<open>QueryAnalysis\<close>: \<open>retrieval/analysis.py\<close> and \<open>router/query_router.py\<close>.
  \<^item> \<open>Rerank\<close>: \<open>rerank/providers.py\<close>.
  \<^item> \<open>Engine\<close>: \<open>retrieval/engine.py\<close>; the locale \<open>engine_sources\<close> extends two \<open>hit_source\<close>s.
  \<^item> \<open>Embedding\<close>: \<open>embedding/batcher.py\<close>, \<open>embedding/cached.py\<close>, the local provider and the
    in-memory cache, with the locale \<open>vector_cache\<close> and the step relation \<open>flight_step\<close>.
  \<^item> \<open>Indexing\<close>: \<open>services/indexing.py\<close>, \<open>repositories/indexing.py\<close>, \<open>services/bm25.py\<close> and
    \<open>services/document_index.py\<close>, in a monad whose every call may raise.

  Answers:
  \<^item> \<open>Grounding\<close>: \<open>rag/grounding.py\<close>.
  \<^item> \<open>EvidencePatterns\<close>, \<open>Evidence\<close>, \<open>EvidenceGate\<close>, \<open>EvidenceProps\<close>: \<open>rag/evidence.py\<close>; the
    contract of the gate is the locale \<open>sufficiency_gate\<close>.
  \<^item> \<open>Llm\<close>: \<open>llm/protocols.py\<close> and \<open>llm/adapters.py\<close>; the contract is \<open>answer_provider\<close>.
  \<^item> \<open>Chat\<close>: \<open>services/chat.py\<close>, \<open>repositories/chat.py\<close>; proved inside the two contracts, then
    instantiated with the gate and the adapter of the program (\<open>wired\<close>, as the chat route does).

  Documents:
  \<^item> \<open>Documents\<close>: \<open>cleaners/text.py\<close>, \<open>deduplication/core.py\<close>, \<open>filters/rules.py\<close>.
  \<^item> \<open>Chunking\<close>: \<open>chunking/heading.py\<close>.
  \<^item> \<open>Versions\<close>: \<open>services/versioning.py\<close> and its repository; the two update operations share the
    locale \<open>versioned_update\<close>.
  \<^item> \<open>Review\<close>: \<open>services/review.py\<close>, \<open>services/prompts.py\<close>, \<open>repositories/reviews.py\<close>.

  Crawling:
  \<^item> \<open>CrawlState\<close>: the task row, \<open>crawler/state.py\<close> and the conditional updates of
    \<open>repositories/crawl.py\<close>, with the interleaving of workers and users as \<open>task_step\<close>.
  \<^item> \<open>CrawlDocuments\<close>: the documents, failures and counters a crawl writes.
  \<^item> \<open>CrawlService\<close>: the runs of a task.
  \<^item> \<open>CrawlQueue\<close>: creating, queueing, cancelling, retrying.

  \<^item> \<open>IpAddress\<close>, \<open>Urls\<close>, \<open>Fetching\<close>: \<open>crawler/urls.py\<close>, \<open>dns.py\<close> and \<open>fetcher.py\<close>, over models of
    Python's \<open>ipaddress\<close> and \<open>urllib.parse\<close>; the world outside is a hostile environment.

  \<^item> \<open>CrawlPages\<close>, \<open>CrawlColumns\<close>: \<open>crawler/generic.py\<close>, \<open>site_rules.py\<close>, \<open>adapters.py\<close> and \<open>registry.py\<close>,
    over a parameter for the HTML library; \<open>CrawlColumnProps\<close> and \<open>CrawlColumnClaims\<close> have their properties.

  Source discovery:
  \<^item> \<open>SourceTopic\<close>: the functions of \<open>services/source_discovery.py\<close> without a session (relevance of a
    text to a topic, column and detail links) and \<open>source_discovery/providers.py\<close>;
    \<open>SourceTopicProps\<close> has their properties.
  \<^item> \<open>SourceDiscovery\<close>: the rows, \<open>repositories/source_discovery.py\<close>, the operations of
    \<open>SourceDiscoveryService\<close> and the scheduled scan of \<open>tasks/source_discovery.py\<close>, as programs
    on a session with uncommitted changes; every call takes a turn of the clock \<open>sw_tick\<close>, at which
    \<open>se_fault\<close> may make it fail and \<open>se_others\<close> lets other sessions write.
  \<^item> \<open>SourceProps\<close>: the invariant \<open>sound\<close> of the rows and a calculus (\<open>keeps\<close>, \<open>flow\<close>) by which every
    operation keeps it; \<open>SourceClaims\<close>: what follows for sequences of sessions; \<open>SourceGap\<close>: the gap
    query.

  Around: \<open>RateLimit\<close> (\<open>rate_limit.py\<close>, with the locale \<open>window_counter\<close> for both limiters) and
  \<open>Evaluation\<close> (\<open>evaluation/metrics.py\<close>).

  \<^bold>\<open>What is shown.\<close> Search: a result is short enough, distinct, above the threshold, made of what
  the sources hold and, for the fusion, ordered; a failing reranker loses no hit under the open
  policy. Answers: an answer over documents has passed the gate, cites only hits and keeps their
  values and polarity; a refusal by a gate never reaches the model; every answered or refused
  question leaves one trace. Embedding: caching is transparent, retries suffice, one load per
  key. Indexing: whatever fails, every chunk marked indexed has its point, a document keeps its old
  chunks or has exactly the new ones, and others are untouched. Documents: chunking loses no text and respects its bounds, histories of versions only grow,
  an approval needs rules and model. Crawling: an undisturbed run always leaves the active states;
  whatever other transactions do, a run that lost its claim writes nothing; the tables keep their
  invariants; recovery and cancellation end. Fetching: through the pinned transport only public addresses
  are ever connected to; normal forms of URLs are fixed points. Columns: a crawl makes a
  bounded number of requests, its candidates are distinct and on the site, every candidate gives a
  document or one failure. Source discovery: no source
  goes live without a call of the approval, scores and statuses stay valid whatever fails or
  interferes, a run makes a bounded number of requests and ends, an activation publishes exactly the
  tried columns. The limiters agree, the evaluation metrics are rates.
  Some theorems state behaviour one would not expect (two evidence checks, an unfenced retry, a
  null Coze reply); the findings of the manifest refer to them.

  \<^bold>\<open>Conventions and bounds.\<close> A raised exception is \<open>Inl\<close> of a value of \<open>exn\<close>. Floats are exact
  rationals (\<open>pyfloat\<close> adds the infinities and NaN where values come from outside), so rounding
  errors of IEEE arithmetic are not covered; the square root, the logarithm and BM25 scores are
  parameters with the laws used. A text is a list of code points; identifiers of the program are
  \<open>string\<close>s. Loops of the code are structural recursions or \<open>function\<close>s with a measure. The retries
  have the bounds of the code (3 attempts of an embedding batch, 3 reads of a cancellation, 3
  model reviews); the repetition loop of the regular expression matcher has the length of the rest
  of the text as fuel, and \<open>rep_enough\<close> shows that more changes nothing.
  Between two awaits other transactions may act: \<open>env\<close> in \<open>CrawlService\<close>, \<open>others\<close> in \<open>CrawlQueue\<close>,
  \<open>se_others\<close> in \<open>SourceDiscovery\<close> and the step relations give what they do. SHA-256, NFKC, JSON decoding,
  pydantic validation, HTTP exchanges and clocks are arguments of the definitions that use them.
  The tuple \<open>ph\<close> of question phrases is an argument because its order depends on the hash seed.

  \<^bold>\<open>Not modelled.\<close> The HTTP providers of the crawler, parsing of
  attachments, feedback, experiments, evaluation runs and reports, observability, authentication,
  settings, routes, task queue, schema and frontend: mostly glue over libraries (BeautifulSoup,
  SQLAlchemy, httpx, Celery, pydantic) or left for later, as the manifest says for each. Within
  the modelled components: Qdrant and Redis clients, files of the BM25 index, metrics and
  timings, the messages of discovery events.
\<close>

end
